(* ===== verification/Wpa_Prelude.thy ===== *)
theory Wpa_Prelude
  imports Main "HOL-Library.Word"
begin

text \<open>
  Shared foundations of the development: the result type of C code that can reach undefined
  behaviour, C strings and buffers as character lists, and the functions of the C library
  (\<^verbatim>\<open>strchr\<close>, \<^verbatim>\<open>strstr\<close>, \<^verbatim>\<open>strcasecmp\<close>, \<^verbatim>\<open>strcmp\<close>, \<^verbatim>\<open>snprintf\<close>, \<^verbatim>\<open>atoi\<close>, decimal and
  hexadecimal conversions) the sources call. A C string is the list of its characters without
  the terminating NUL; a C array of \<^verbatim>\<open>char\<close> is a list of exactly its length.
\<close>

named_theorems cstring \<open>facts about C strings and the library functions on them\<close>
named_theorems outcome_simps \<open>sequencing of computations that can reach undefined behaviour\<close>

unbundle bit_operations_syntax

section \<open>Results of C code\<close>

text \<open>
  \<open>Undef\<close> is an execution the C standard gives no meaning to; \<open>Loops\<close> is an execution that
  used up the number of loop iterations the caller grants (only the two commands that iterate
  over the daemon's stations or peers can produce it).
\<close>

datatype ub = Null_deref | Oob_read | Oob_write | Use_after_free | Bad_format

datatype 'a outcome = Val 'a | Undef ub | Loops

fun obind :: "'a outcome \<Rightarrow> ('a \<Rightarrow> 'b outcome) \<Rightarrow> 'b outcome" where
  "obind (Val x) f = f x"
| "obind (Undef e) f = Undef e"
| "obind Loops f = Loops"

fun omap :: "('a \<Rightarrow> 'b) \<Rightarrow> 'a outcome \<Rightarrow> 'b outcome" where
  "omap f (Val x) = Val (f x)"
| "omap f (Undef e) = Undef e"
| "omap f Loops = Loops"

definition defined_outcome :: "'a outcome \<Rightarrow> bool" where
  "defined_outcome r = (case r of Undef _ \<Rightarrow> False | _ \<Rightarrow> True)"

lemma obind_Val_iff [outcome_simps]: "obind m f = Val y \<longleftrightarrow> (\<exists>x. m = Val x \<and> f x = Val y)"
  by (cases m) auto

lemma omap_Val_iff [outcome_simps]: "omap f m = Val y \<longleftrightarrow> (\<exists>x. m = Val x \<and> y = f x)"
  by (cases m) auto

lemma obind_assoc [outcome_simps]: "obind (obind m f) g = obind m (\<lambda>x. obind (f x) g)"
  by (cases m) auto

lemma defined_outcome_simps [simp]:
  "defined_outcome (Val x)" "\<not> defined_outcome (Undef e)" "defined_outcome Loops"
  by (simp_all add: defined_outcome_def)

section \<open>C strings and buffers\<close>

type_synonym byte = char
type_synonym cbuf = "char list"

abbreviation NUL :: char where "NUL \<equiv> CHR 0x00"
abbreviation TAB :: char where "TAB \<equiv> CHR 0x09"
abbreviation NL :: char where "NL \<equiv> CHR 0x0A"
abbreviation DQ :: char where "DQ \<equiv> CHR 0x22"
abbreviation SQ :: char where "SQ \<equiv> CHR 0x27"
abbreviation BSL :: char where "BSL \<equiv> CHR 0x5C"

definition no_nul :: "string \<Rightarrow> bool" where
  "no_nul s \<longleftrightarrow> NUL \<notin> set s"

text \<open>The C string stored at the start of a buffer.\<close>

definition cstr_of :: "cbuf \<Rightarrow> string" where
  "cstr_of b = takeWhile (\<lambda>c. c \<noteq> NUL) b"

text \<open>\<^verbatim>\<open>memcpy(buf, bs, length bs)\<close>: the tail of the buffer keeps its contents.\<close>

definition memwrite :: "cbuf \<Rightarrow> char list \<Rightarrow> cbuf" where
  "memwrite b bs = bs @ drop (length bs) b"

definition cstrwrite :: "cbuf \<Rightarrow> string \<Rightarrow> cbuf" where
  "cstrwrite b s = memwrite b (s @ [NUL])"

lemma no_nul_simps [simp]:
  "no_nul []" "no_nul (c # s) \<longleftrightarrow> c \<noteq> NUL \<and> no_nul s" "no_nul (s @ t) \<longleftrightarrow> no_nul s \<and> no_nul t"
  by (auto simp: no_nul_def)

lemma no_nul_cstr_of [simp, cstring]: "no_nul (cstr_of b)"
  by (auto simp: no_nul_def cstr_of_def dest: set_takeWhileD)

lemma cstr_of_append_NUL [simp, cstring]: "no_nul s \<Longrightarrow> cstr_of (s @ NUL # t) = s"
  by (induction s) (auto simp: cstr_of_def)

lemma cstr_of_no_nul [simp, cstring]: "no_nul s \<Longrightarrow> cstr_of s = s"
  by (induction s) (auto simp: cstr_of_def)

lemma cstr_of_cstrwrite [simp, cstring]: "no_nul s \<Longrightarrow> cstr_of (cstrwrite b s) = s"
  by (simp add: cstrwrite_def memwrite_def)

lemma length_memwrite [simp]: "length bs \<le> length b \<Longrightarrow> length (memwrite b bs) = length b"
  by (simp add: memwrite_def)

lemma length_cstrwrite [simp]: "length s < length b \<Longrightarrow> length (cstrwrite b s) = length b"
  by (simp add: cstrwrite_def)

lemma no_nul_take [simp]: "no_nul s \<Longrightarrow> no_nul (take n s)"
  by (auto simp: no_nul_def dest: in_set_takeD)

lemma no_nul_drop [simp]: "no_nul s \<Longrightarrow> no_nul (drop n s)"
  by (auto simp: no_nul_def dest: in_set_dropD)

lemma no_nul_takeWhile [simp]: "no_nul s \<Longrightarrow> no_nul (takeWhile P s)"
  by (auto simp: no_nul_def dest: set_takeWhileD)

lemma no_nul_dropWhile [simp]: "no_nul s \<Longrightarrow> no_nul (dropWhile P s)"
  by (auto simp: no_nul_def dest: set_dropWhileD)

section \<open>The C library on strings\<close>

text \<open>A pointer into a string is the rest of the string from there; NULL is \<open>None\<close>.\<close>

definition os_strchr :: "string \<Rightarrow> char \<Rightarrow> string option" where
  "os_strchr s c = (case dropWhile (\<lambda>x. x \<noteq> c) s of [] \<Rightarrow> None | r \<Rightarrow> Some r)"

definition os_strrchr_idx :: "string \<Rightarrow> char \<Rightarrow> nat option" where
  "os_strrchr_idx s c = (if c \<in> set s then Some (length s - 1 - length (takeWhile (\<lambda>x. x \<noteq> c) (rev s))) else None)"

fun is_prefix :: "'a list \<Rightarrow> 'a list \<Rightarrow> bool" where
  "is_prefix [] ys = True"
| "is_prefix (x # xs) [] = False"
| "is_prefix (x # xs) (y # ys) = (x = y \<and> is_prefix xs ys)"

fun os_strstr :: "string \<Rightarrow> string \<Rightarrow> string option" where
  "os_strstr [] pat = (if pat = [] then Some [] else None)"
| "os_strstr (c # s) pat = (if is_prefix pat (c # s) then Some (c # s) else os_strstr s pat)"

definition str_starts :: "string \<Rightarrow> string \<Rightarrow> bool" where
  "str_starts s start = is_prefix start s"

definition c_tolower :: "char \<Rightarrow> char" where
  "c_tolower c = (let n = of_char c :: nat in if 65 \<le> n \<and> n \<le> 90 then char_of (n + 32) else c)"

definition strcaseeq :: "string \<Rightarrow> string \<Rightarrow> bool" where
  "strcaseeq a b = (map c_tolower a = map c_tolower b)"

definition strncaseeq :: "string \<Rightarrow> string \<Rightarrow> nat \<Rightarrow> bool" where
  "strncaseeq a b n = (map c_tolower (take n a) = map c_tolower (take n b))"

fun os_strcmp :: "string \<Rightarrow> string \<Rightarrow> int" where
  "os_strcmp [] [] = 0"
| "os_strcmp [] (b # bs) = - of_char b"
| "os_strcmp (a # as) [] = of_char a"
| "os_strcmp (a # as) (b # bs) = (if a = b then os_strcmp as bs else of_char a - of_char b)"

lemma is_prefix_iff: "is_prefix xs ys \<longleftrightarrow> (\<exists>zs. ys = xs @ zs)"
  by (induction xs ys rule: is_prefix.induct) auto

lemma is_prefix_append [simp]: "is_prefix xs (xs @ ys)"
  by (simp add: is_prefix_iff)

lemma is_prefix_take: "is_prefix xs ys \<longleftrightarrow> take (length xs) ys = xs"
  by (induction xs ys rule: is_prefix.induct) auto

lemma os_strchr_Some: "os_strchr s c = Some r \<Longrightarrow> \<exists>p t. s = p @ r \<and> r = c # t \<and> c \<notin> set p"
proof -
  assume a: "os_strchr s c = Some r"
  have "s = takeWhile (\<lambda>x. x \<noteq> c) s @ dropWhile (\<lambda>x. x \<noteq> c) s" by simp
  moreover from a have r: "dropWhile (\<lambda>x. x \<noteq> c) s = r" "r \<noteq> []"
    by (auto simp: os_strchr_def split: list.splits)
  moreover from r have "hd r = c" using hd_dropWhile[of "\<lambda>x. x \<noteq> c" s] by auto
  moreover have "c \<notin> set (takeWhile (\<lambda>x. x \<noteq> c) s)" by (auto dest: set_takeWhileD)
  ultimately show ?thesis by (metis list.collapse)
qed

lemma os_strchr_None: "os_strchr s c = None \<longleftrightarrow> c \<notin> set s"
  by (induction s) (auto simp: os_strchr_def)

lemma os_strchr_append [simp, cstring]: "c \<notin> set p \<Longrightarrow> os_strchr (p @ c # t) c = Some (c # t)"
  by (induction p) (auto simp: os_strchr_def)

lemma os_strstr_Some: "os_strstr s pat = Some r \<Longrightarrow> \<exists>p. s = p @ r \<and> is_prefix pat r"
proof (induction s pat rule: os_strstr.induct)
  case (2 c s pat)
  then show ?case
    by (auto split: if_splits)
qed (auto split: if_splits)

lemma os_strstr_None: "os_strstr s pat = None \<longleftrightarrow> \<not> (\<exists>p r. s = p @ pat @ r)"
proof (induction s pat rule: os_strstr.induct)
  case (2 c s pat)
  show ?case
  proof (cases "is_prefix pat (c # s)")
    case True
    then show ?thesis by (auto simp: is_prefix_iff) (metis append_Nil)
  next
    case False
    then have "(\<exists>p r. c # s = p @ pat @ r) \<longleftrightarrow> (\<exists>p r. s = p @ pat @ r)"
      by (auto simp: is_prefix_iff Cons_eq_append_conv)
    with False 2 show ?thesis by auto
  qed
qed auto

lemma strcaseeq_refl [simp]: "strcaseeq a a"
  by (simp add: strcaseeq_def)

lemma strncaseeq_refl [simp]: "strncaseeq a a n"
  by (simp add: strncaseeq_def)

lemma strcaseeq_imp_strncaseeq: "strcaseeq a b \<Longrightarrow> strncaseeq a b n"
  by (simp add: strcaseeq_def strncaseeq_def flip: take_map)

lemma strcaseeq_length: "strcaseeq a b \<Longrightarrow> length a = length b"
  unfolding strcaseeq_def by (metis length_map)

lemma of_char_0_iff [simp]: "(of_char c :: int) = 0 \<longleftrightarrow> c = NUL" "(of_char c :: nat) = 0 \<longleftrightarrow> c = NUL"
  using of_char_eq_iff [where 'a = int, of c NUL] of_char_eq_iff [where 'a = nat, of c NUL] by auto

lemma of_char_bounds [simp]: "0 \<le> (of_char c :: int)" "(of_char c :: int) < 256"
  using nat_of_char_less_256 [of c] of_nat_of_char [where 'a = int, of c] by linarith+

lemma os_strcmp_0_iff: "no_nul a \<Longrightarrow> no_nul b \<Longrightarrow> os_strcmp a b = 0 \<longleftrightarrow> a = b"
proof (induction a b rule: os_strcmp.induct)
  case (4 a as b bs)
  then show ?case by (auto simp: of_char_eq_iff)
qed auto

section \<open>Formatted output\<close>

text \<open>
  \<^verbatim>\<open>snprintf(buf, size, ...)\<close> of a text \<open>s\<close>: what is stored before the terminating NUL, and
  the returned length of the complete text.
\<close>

definition os_snprintf :: "nat \<Rightarrow> string \<Rightarrow> string \<times> int" where
  "os_snprintf sz s = (take (sz - 1) s, int (length s))"

definition os_snprintf_error :: "nat \<Rightarrow> int \<Rightarrow> bool" where
  "os_snprintf_error sz res \<longleftrightarrow> res < 0 \<or> nat res \<ge> sz"

lemma os_snprintf_error_iff [simp]: "os_snprintf_error sz (int (length s)) \<longleftrightarrow> length s \<ge> sz"
  by (simp add: os_snprintf_error_def)

definition digit_char :: "nat \<Rightarrow> char" where
  "digit_char n = char_of (48 + n)"

fun show_nat :: "nat \<Rightarrow> string" where
  "show_nat n = (if n < 10 then [digit_char n] else show_nat (n div 10) @ [digit_char (n mod 10)])"

declare show_nat.simps [simp del]

definition show_int :: "int \<Rightarrow> string" where
  "show_int i = (if i < 0 then CHR ''-'' # show_nat (nat (- i)) else show_nat (nat i))"

definition hexdig :: "nat \<Rightarrow> char" where
  "hexdig n = (if n < 10 then char_of (48 + n) else char_of (87 + n))"

definition hex02 :: "nat \<Rightarrow> string" where
  "hex02 n = [hexdig (n div 16), hexdig (n mod 16)]"

definition c_isspace :: "char \<Rightarrow> bool" where
  "c_isspace c = (let n = of_char c :: nat in n = 32 \<or> (9 \<le> n \<and> n \<le> 13))"

definition c_isdigit :: "char \<Rightarrow> bool" where
  "c_isdigit c = (let n = of_char c :: nat in 48 \<le> n \<and> n \<le> 57)"

fun digits_val :: "int \<Rightarrow> string \<Rightarrow> int" where
  "digits_val acc [] = acc"
| "digits_val acc (c # s) = (if c_isdigit c then digits_val (10 * acc + (of_char c - 48)) s else acc)"

definition atoi :: "string \<Rightarrow> int" where
  "atoi s = (case dropWhile c_isspace s of
      [] \<Rightarrow> 0
    | c # r \<Rightarrow> if c = CHR ''-'' then - digits_val 0 r
               else if c = CHR ''+'' then digits_val 0 r else digits_val 0 (c # r))"

lemma length_show_nat_pos [simp]: "show_nat n \<noteq> []"
  by (subst show_nat.simps) simp

lemma length_show_nat: "n < 10 ^ Suc k \<Longrightarrow> length (show_nat n) \<le> Suc k"
proof (induction k arbitrary: n)
  case 0
  then show ?case by (subst show_nat.simps) simp
next
  case (Suc k)
  then have "n div 10 < 10 ^ Suc k" by (simp add: less_mult_imp_div_less)
  with Suc.IH show ?case by (subst show_nat.simps) simp
qed

text \<open>Decimal numbers are read back as printed.\<close>

lemma of_char_char_of_int: "(n::nat) < 256 \<Longrightarrow> (of_char (char_of n) :: int) = int n"
  by (metis of_nat_of_char of_char_of of_char_mod_256 eval_nat_numeral mod_less)

lemma digits_val_append:
  "\<forall>c \<in> set s. c_isdigit c \<Longrightarrow> digits_val acc (s @ t) = digits_val (digits_val acc s) t"
  by (induction s arbitrary: acc) auto

lemma digit_char_props: "n < 10 \<Longrightarrow> c_isdigit (digit_char n) \<and> of_char (digit_char n) = (48 + int n)"
  by (simp add: c_isdigit_def digit_char_def Let_def of_char_char_of_int)

lemma show_nat_digits: "c \<in> set (show_nat n) \<Longrightarrow> c_isdigit c"
proof (induction n rule: show_nat.induct)
  case (1 n)
  then show ?case by (subst (asm) (2) show_nat.simps) (auto simp: digit_char_props split: if_splits)
qed

lemma digits_val_show_nat: "digits_val 0 (show_nat n) = int n"
proof (induction n rule: show_nat.induct)
  case (1 n)
  show ?case
  proof (cases "n < 10")
    case True
    then show ?thesis by (subst show_nat.simps) (simp add: digit_char_props)
  next
    case False
    then have "digits_val 0 (show_nat n) = digits_val (digits_val 0 (show_nat (n div 10))) [digit_char (n mod 10)]"
      by (subst show_nat.simps) (simp add: digits_val_append show_nat_digits)
    also have "\<dots> = 10 * int (n div 10) + int (n mod 10)" using 1 False by (simp add: digit_char_props)
    also have "\<dots> = int n" by (metis mult_div_mod_eq of_nat_add of_nat_mult of_nat_numeral)
    finally show ?thesis .
  qed
qed

lemma digit_not: "c_isdigit c \<Longrightarrow> \<not> c_isspace c \<and> c \<noteq> CHR ''-'' \<and> c \<noteq> CHR ''+'' \<and> c \<noteq> TAB \<and> c \<noteq> NL \<and> c \<noteq> NUL"
  by (auto simp: c_isdigit_def c_isspace_def Let_def)

lemma atoi_show_int: "atoi (show_int i) = i"
proof -
  have d: "dropWhile c_isspace (show_nat n) = show_nat n" for n
    using show_nat_digits [of "hd (show_nat n)" n] digit_not by (cases "show_nat n") auto
  have s: "\<not> c_isspace (CHR ''-'')" by (simp add: c_isspace_def)
  have p: "atoi (show_nat n) = int n" for n
  proof -
    obtain c r where c: "show_nat n = c # r" by (cases "show_nat n") auto
    then have "c \<noteq> CHR ''-''" "c \<noteq> CHR ''+''" using show_nat_digits [of c n] digit_not by auto
    then have "atoi (show_nat n) = digits_val 0 (show_nat n)" unfolding atoi_def d by (simp add: c del: digits_val.simps)
    then show ?thesis by (simp add: digits_val_show_nat)
  qed
  show ?thesis
  proof (cases "i < 0")
    case True
    then show ?thesis using s digits_val_show_nat [of "nat (- i)"] by (simp add: show_int_def atoi_def)
  next
    case False
    then show ?thesis using p [of "nat i"] by (simp add: show_int_def)
  qed
qed

lemma show_int_chars: "c \<in> set (show_int i) \<Longrightarrow> c \<noteq> TAB \<and> c \<noteq> NL \<and> c \<noteq> NUL"
  using show_nat_digits digit_not by (auto simp: show_int_def split: if_splits)

lemma show_int_not_Nil [simp]: "show_int i \<noteq> []"
  by (simp add: show_int_def)

end
