(* ===== verification/Bitarray.thy ===== *)
theory Bitarray
  imports Wpa_Prelude
begin

text \<open>
  \<^verbatim>\<open>src/wpa_cli_oper/bitarray.c\<close> and \<^verbatim>\<open>bitarray.h\<close>: arrays of bits packed into 32-bit words, and
  the character classes looked up in 256-bit tables. A \<^verbatim>\<open>bitarray_t*\<close> is the list of its words;
  an index outside the array is undefined behaviour. The bytes \<^verbatim>\<open>malloc\<close> returns are not
  initialised: they are an argument (\<open>junk\<close>) of the operation that allocates.
\<close>

type_synonym u32 = "32 word"
type_synonym bitarray_t = "u32 list"

definition BITARRAY_SHIFT :: nat where "BITARRAY_SHIFT = 5"
definition BITARRAY_MASK :: u32 where "BITARRAY_MASK = 31"

text \<open>\<open>(n_bits + BITARRAY_MASK) >> BITARRAY_SHIFT\<close>, on 32-bit unsigned values.\<close>

definition bitarray_words :: "u32 \<Rightarrow> u32" where
  "bitarray_words n_bits = drop_bit BITARRAY_SHIFT (n_bits + BITARRAY_MASK)"

text \<open>
  The lowest \<open>k\<close> bytes of a word are cleared: what \<^verbatim>\<open>memset\<close> of \<open>k\<close> bytes does to a word of a
  little-endian machine.
\<close>

definition zero_low_bytes :: "nat \<Rightarrow> u32 \<Rightarrow> u32" where
  "zero_low_bytes k w = push_bit (8 * k) (drop_bit (8 * k) w)"

definition bitarray_init_zero :: "(nat \<Rightarrow> u32) \<Rightarrow> u32 \<Rightarrow> bitarray_t" where
  "bitarray_init_zero junk n_bits =
     (let sz = unat (bitarray_words n_bits)
      in map (\<lambda>i. zero_low_bytes (min 4 (sz - 4 * i)) (junk i)) [0..<sz])"

definition bitarray_expand :: "bitarray_t \<Rightarrow> u32 \<Rightarrow> u32 \<Rightarrow> bitarray_t" where
  "bitarray_expand ba n_bits_old n_bits_new =
     (let sz_old = unat (bitarray_words n_bits_old); sz_new = unat (bitarray_words n_bits_new)
      in if sz_new \<le> sz_old then ba
         else take sz_old ba @ replicate (sz_new - sz_old) 0)"

text \<open>\<open>bit >> 5\<close> of a signed index and \<open>1u << (bit & 31)\<close>.\<close>

definition bit_word :: "int \<Rightarrow> int" where "bit_word b = b div 32"
definition bit_mask :: "int \<Rightarrow> u32" where "bit_mask b = push_bit (nat (b mod 32)) 1"

definition in_bitarray :: "bitarray_t \<Rightarrow> int \<Rightarrow> bool" where
  "in_bitarray ba b \<longleftrightarrow> 0 \<le> bit_word b \<and> nat (bit_word b) < length ba"

definition bitarray_set :: "bitarray_t \<Rightarrow> int \<Rightarrow> bitarray_t outcome" where
  "bitarray_set ba b =
     (if in_bitarray ba b
      then Val (ba[nat (bit_word b) := (ba ! nat (bit_word b)) OR bit_mask b])
      else Undef Oob_write)"

definition bitarray_clear :: "bitarray_t \<Rightarrow> int \<Rightarrow> bitarray_t outcome" where
  "bitarray_clear ba b =
     (if in_bitarray ba b
      then Val (ba[nat (bit_word b) := (ba ! nat (bit_word b)) AND NOT (bit_mask b)])
      else Undef Oob_write)"

definition bitarray_is_set :: "bitarray_t \<Rightarrow> int \<Rightarrow> u32 outcome" where
  "bitarray_is_set ba b =
     (if in_bitarray ba b then Val ((ba ! nat (bit_word b)) AND bit_mask b) else Undef Oob_read)"

section \<open>The array as a set of bit positions\<close>

definition bit_at :: "bitarray_t \<Rightarrow> int \<Rightarrow> bool" where
  "bit_at ba b \<longleftrightarrow> bit (ba ! nat (bit_word b)) (nat (b mod 32))"

lemma bit_mask_bit: "bit (bit_mask b) n \<longleftrightarrow> n = nat (b mod 32)"
proof -
  have "nat (b mod 32) < 32" by simp
  then show ?thesis by (auto simp: bit_mask_def bit_simps)
qed

lemma and_bit_mask_nonzero: "w AND bit_mask b \<noteq> 0 \<longleftrightarrow> bit w (nat (b mod 32))"
proof -
  have "w AND bit_mask b = 0 \<longleftrightarrow> (\<forall>n. \<not> bit (w AND bit_mask b) n)"
    by (metis bit_0_eq bot2E bit_eqI bot_apply bot_bool_def)
  then show ?thesis by (auto simp: bit_and_iff bit_mask_bit)
qed

lemma bitarray_is_set_iff:
  "in_bitarray ba b \<Longrightarrow> \<exists>w. bitarray_is_set ba b = Val w \<and> (w \<noteq> 0 \<longleftrightarrow> bit_at ba b)"
  by (auto simp: bitarray_is_set_def bit_at_def and_bit_mask_nonzero)

lemma bit_position: "bit_word b = bit_word c \<Longrightarrow> b mod 32 = c mod 32 \<Longrightarrow> b = c"
  unfolding bit_word_def by (metis div_mult_mod_eq)

lemma bit_at_update:
  assumes "in_bitarray ba b" and "in_bitarray ba c"
    and w: "\<And>n. bit w n \<longleftrightarrow> (if n = nat (b mod 32) then v else bit (ba ! nat (bit_word b)) n)"
  shows "bit_at (ba[nat (bit_word b) := w]) c \<longleftrightarrow> (if c = b then v else bit_at ba c)"
proof (cases "bit_word c = bit_word b")
  case True
  have "nat (c mod 32) = nat (b mod 32) \<longleftrightarrow> c = b"
    using True bit_position [of c b] by (auto simp: nat_eq_iff)
  with True assms show ?thesis by (auto simp: bit_at_def in_bitarray_def w)
next
  case False
  with assms have "nat (bit_word c) \<noteq> nat (bit_word b)" by (auto simp: in_bitarray_def)
  with False show ?thesis by (auto simp: bit_at_def)
qed

lemma bitarray_set_bit_at:
  assumes "in_bitarray ba b" "bitarray_set ba b = Val ba'" "in_bitarray ba c"
  shows "bit_at ba' c \<longleftrightarrow> c = b \<or> bit_at ba c"
  using assms bit_at_update [of ba b c "(ba ! nat (bit_word b)) OR bit_mask b" True]
  by (auto simp: bitarray_set_def bit_or_iff bit_mask_bit split: if_splits)

lemma bitarray_clear_bit_at:
  assumes "in_bitarray ba b" "bitarray_clear ba b = Val ba'" "in_bitarray ba c"
  shows "bit_at ba' c \<longleftrightarrow> c \<noteq> b \<and> bit_at ba c"
proof -
  have "bit ((ba ! nat (bit_word b)) AND NOT (bit_mask b)) n \<longleftrightarrow>
      (if n = nat (b mod 32) then False else bit (ba ! nat (bit_word b)) n)" for n
    by (auto simp: bit_and_iff bit_not_iff bit_mask_bit dest: bit_imp_le_length)
  then show ?thesis
    using assms bit_at_update [of ba b c "(ba ! nat (bit_word b)) AND NOT (bit_mask b)" False]
    by (auto simp: bitarray_clear_def split: if_splits)
qed

lemma bitarray_ops_length:
  "bitarray_set ba b = Val ba' \<Longrightarrow> length ba' = length ba"
  "bitarray_clear ba b = Val ba' \<Longrightarrow> length ba' = length ba"
  by (auto simp: bitarray_set_def bitarray_clear_def split: if_splits)


section \<open>The contract of a bit store\<close>

text \<open>
  What a client of a bit array relies on: setting and clearing a valid position succeed, keep the
  valid positions, and change membership at that position only.
\<close>

locale bit_store =
  fixes test :: "'s \<Rightarrow> int \<Rightarrow> bool"
    and set1 :: "'s \<Rightarrow> int \<Rightarrow> 's outcome"
    and clear1 :: "'s \<Rightarrow> int \<Rightarrow> 's outcome"
    and valid :: "'s \<Rightarrow> int \<Rightarrow> bool"
  assumes set_total: "valid s b \<Longrightarrow> \<exists>s'. set1 s b = Val s'"
    and clear_total: "valid s b \<Longrightarrow> \<exists>s'. clear1 s b = Val s'"
    and set_valid: "set1 s b = Val s' \<Longrightarrow> valid s' c \<longleftrightarrow> valid s c"
    and clear_valid: "clear1 s b = Val s' \<Longrightarrow> valid s' c \<longleftrightarrow> valid s c"
    and test_set: "valid s b \<Longrightarrow> set1 s b = Val s' \<Longrightarrow> valid s c \<Longrightarrow> test s' c \<longleftrightarrow> c = b \<or> test s c"
    and test_clear: "valid s b \<Longrightarrow> clear1 s b = Val s' \<Longrightarrow> valid s c \<Longrightarrow> test s' c \<longleftrightarrow> c \<noteq> b \<and> test s c"
begin

lemma members_set:
  "valid s b \<Longrightarrow> \<exists>s'. set1 s b = Val s' \<and> {c. valid s' c \<and> test s' c} = insert b {c. valid s c \<and> test s c}"
  using set_total [of s b] by (auto simp: set_valid test_set)

lemma members_clear:
  "valid s b \<Longrightarrow> \<exists>s'. clear1 s b = Val s' \<and> {c. valid s' c \<and> test s' c} = {c. valid s c \<and> test s c} - {b}"
  using clear_total [of s b] by (auto simp: clear_valid test_clear)

end

lemma in_bitarray_length: "length ba' = length ba \<Longrightarrow> in_bitarray ba' b \<longleftrightarrow> in_bitarray ba b"
  by (simp add: in_bitarray_def)

interpretation bits: bit_store bit_at bitarray_set bitarray_clear in_bitarray
proof unfold_locales
  fix ba ba' :: bitarray_t and b c :: int
  show "in_bitarray ba b \<Longrightarrow> \<exists>s'. bitarray_set ba b = Val s'"
    and "in_bitarray ba b \<Longrightarrow> \<exists>s'. bitarray_clear ba b = Val s'"
    by (simp_all add: bitarray_set_def bitarray_clear_def)
  show "bitarray_set ba b = Val ba' \<Longrightarrow> in_bitarray ba' c \<longleftrightarrow> in_bitarray ba c"
    and "bitarray_clear ba b = Val ba' \<Longrightarrow> in_bitarray ba' c \<longleftrightarrow> in_bitarray ba c"
    by (simp_all add: in_bitarray_def bitarray_ops_length [of ba b ba'])
qed (simp_all add: bitarray_set_bit_at bitarray_clear_bit_at)

section \<open>Initialisation and growth\<close>

lemma bit_zero_low_bytes: "bit (zero_low_bytes k w) n \<longleftrightarrow> 8 * k \<le> n \<and> bit w n"
  by (auto simp: zero_low_bytes_def bit_simps dest: bit_imp_le_length)

lemma length_bitarray_init_zero [simp]:
  "length (bitarray_init_zero junk n) = unat (bitarray_words n)"
  by (simp add: bitarray_init_zero_def Let_def)

lemma zeroed_limit: "j < 32 \<Longrightarrow> 8 * min 4 (sz - 4 * i) \<le> j \<longleftrightarrow> 8 * sz \<le> 32 * i + (j::nat)"
  by (auto simp: min_def)

lemma bitarray_init_zero_bit:
  assumes "in_bitarray (bitarray_init_zero junk n) b"
  shows "bit_at (bitarray_init_zero junk n) b \<longleftrightarrow>
    8 * int (unat (bitarray_words n)) \<le> b \<and> bit (junk (nat (b div 32))) (nat (b mod 32))"
proof -
  let ?sz = "unat (bitarray_words n)" and ?i = "nat (b div 32)" and ?j = "nat (b mod 32)"
  have i: "0 \<le> b div 32" "?i < ?sz" using assms by (simp_all add: in_bitarray_def bit_word_def)
  have b: "b = 32 * int ?i + int ?j" using i(1) by simp
  have "bit_at (bitarray_init_zero junk n) b \<longleftrightarrow> 8 * min 4 (?sz - 4 * ?i) \<le> ?j \<and> bit (junk ?i) ?j"
    using i by (simp add: bit_at_def bitarray_init_zero_def bit_word_def Let_def bit_zero_low_bytes)
  also have "8 * min 4 (?sz - 4 * ?i) \<le> ?j \<longleftrightarrow> 8 * ?sz \<le> 32 * ?i + ?j"
    by (rule zeroed_limit) simp
  also have "8 * ?sz \<le> 32 * ?i + ?j \<longleftrightarrow> 8 * int ?sz \<le> b"
    using b by linarith
  finally show ?thesis .
qed



text \<open>
  C2. \<^verbatim>\<open>bitarray_init_zero\<close> clears only as many bytes as the array has words: a position is
  guaranteed clear exactly below eight times the word count, above it the uninitialised memory
  shows through, so the array it returns is all zero only if the allocator happened to return
  zeroed memory there.
\<close>

theorem bitarray_init_zero_partial:
  assumes "in_bitarray (bitarray_init_zero junk n) b"
  shows "(bit_at (bitarray_init_zero junk n) b \<longleftrightarrow>
      8 * int (unat (bitarray_words n)) \<le> b \<and> bit (junk (nat (b div 32))) (nat (b mod 32)))
    \<and> (\<exists>junk'. in_bitarray (bitarray_init_zero junk' 64) 40 \<and> bit_at (bitarray_init_zero junk' 64) 40)"
proof
  have "bit_at (bitarray_init_zero (\<lambda>_. - 1) 64) 40"
    by (subst bitarray_init_zero_bit) (simp_all add: in_bitarray_def bit_word_def bitarray_words_def
      BITARRAY_SHIFT_def BITARRAY_MASK_def bit_minus_1_iff)
  moreover have "in_bitarray (bitarray_init_zero (\<lambda>_. - 1) 64) 40"
    by (simp add: in_bitarray_def bit_word_def bitarray_words_def BITARRAY_SHIFT_def BITARRAY_MASK_def)
  ultimately show "\<exists>junk'. in_bitarray (bitarray_init_zero junk' 64) 40 \<and> bit_at (bitarray_init_zero junk' 64) 40"
    by blast
qed (rule bitarray_init_zero_bit [OF assms])

theorem bitarray_init_zero_partial_witness:
  "in_bitarray (bitarray_init_zero (\<lambda>_. 7) 96) 3 \<and> \<not> bit_at (bitarray_init_zero (\<lambda>_. 7) 96) 3"
proof -
  have h: "in_bitarray (bitarray_init_zero (\<lambda>_. 7) 96) 3"
    by (simp add: in_bitarray_def bit_word_def bitarray_words_def BITARRAY_SHIFT_def BITARRAY_MASK_def)
  show ?thesis using h bitarray_init_zero_partial [OF h]
    by (simp add: bitarray_words_def BITARRAY_SHIFT_def BITARRAY_MASK_def)
qed

text \<open>
  C3. \<^verbatim>\<open>bitarray_expand\<close> keeps every bit of the old words and clears every bit of the words it
  adds.
\<close>

theorem bitarray_expand_bits:
  assumes "length ba = unat (bitarray_words n_old)"
  shows "length (bitarray_expand ba n_old n_new) = max (length ba) (unat (bitarray_words n_new)) \<and>
    (in_bitarray (bitarray_expand ba n_old n_new) b \<longrightarrow>
      (bit_at (bitarray_expand ba n_old n_new) b \<longleftrightarrow> in_bitarray ba b \<and> bit_at ba b))"
  using assms
  by (auto simp: bitarray_expand_def Let_def in_bitarray_def bit_at_def nth_append max_def)

theorem bitarray_expand_bits_witness:
  "length (bitarray_expand [5] 32 64) = 2 \<and> bit_at (bitarray_expand [5] 32 64) 2 \<and>
   \<not> bit_at (bitarray_expand [5] 32 64) 34"
proof -
  have h: "length [5::u32] = unat (bitarray_words 32)"
    by (simp add: bitarray_words_def BITARRAY_SHIFT_def BITARRAY_MASK_def)
  have l: "length (bitarray_expand [5] 32 64) = 2"
    using bitarray_expand_bits [OF h, of 64] by (simp add: bitarray_words_def BITARRAY_SHIFT_def BITARRAY_MASK_def)
  then show ?thesis
    using bitarray_expand_bits [OF h, of 64 2] bitarray_expand_bits [OF h, of 64 34]
    by (simp add: in_bitarray_def bit_word_def bit_at_def bit_numeral_simps)
qed

section \<open>Character classes\<close>

definition SMP_ISALPHA_TABLE :: "u32 list" where
  "SMP_ISALPHA_TABLE = [0, 0, 0x7fffffe, 0x7fffffe, 0, 0, 0, 0]"
definition SMP_ISALNUM_TABLE :: "u32 list" where
  "SMP_ISALNUM_TABLE = [0, 0x3ff0000, 0x7fffffe, 0x7fffffe, 0, 0, 0, 0]"
definition SMP_ISSPACE_TABLE :: "u32 list" where
  "SMP_ISSPACE_TABLE = [0x3e00, 0x1, 0, 0, 0, 0, 0, 0]"
definition SMP_ISXDIGIT_TABLE :: "u32 list" where
  "SMP_ISXDIGIT_TABLE = [0, 0x3ff0000, 0x7e, 0x7e, 0, 0, 0, 0]"
definition SMP_ISDIGIT_TABLE :: "u32 list" where
  "SMP_ISDIGIT_TABLE = [0, 0x3ff0000, 0, 0, 0, 0, 0, 0]"
definition SMP_ISPRINT_TABLE :: "u32 list" where
  "SMP_ISPRINT_TABLE = [0, 0xffffffff, 0xffffffff, 0x7fffffff, 0, 0, 0, 0x0]"
definition SMP_ISUPPER_TABLE :: "u32 list" where
  "SMP_ISUPPER_TABLE = [0, 0, 0x7fffffe, 0, 0, 0, 0, 0]"
definition SMP_ISLOWER_TABLE :: "u32 list" where
  "SMP_ISLOWER_TABLE = [0, 0, 0, 0x7fffffe, 0, 0, 0, 0]"

text \<open>The rows of the two case tables, which are runs of consecutive values.\<close>

definition SMP_TOUPPER_TABLE :: "nat list" where
  "SMP_TOUPPER_TABLE = [0..<97] @ [65..<91] @ [123..<256]"
definition SMP_TOLOWER_TABLE :: "nat list" where
  "SMP_TOLOWER_TABLE = [0..<65] @ [97..<123] @ [91..<256]"

text \<open>The macro \<^verbatim>\<open>DECLARE_CTYPE_FN\<close>: \<open>!!(TABLE[(u >> 5) & 7] & (1u << (u & 31)))\<close>.\<close>

definition ctype_lookup :: "u32 list \<Rightarrow> char \<Rightarrow> bool" where
  "ctype_lookup tab c = (let u = of_char c :: nat
     in (tab ! (u div 32 mod 8)) AND push_bit (u mod 32) 1 \<noteq> 0)"

definition SMP_ISALPHA :: "char \<Rightarrow> bool" where "SMP_ISALPHA = ctype_lookup SMP_ISALPHA_TABLE"
definition SMP_ISALNUM :: "char \<Rightarrow> bool" where "SMP_ISALNUM = ctype_lookup SMP_ISALNUM_TABLE"
definition SMP_ISSPACE :: "char \<Rightarrow> bool" where "SMP_ISSPACE = ctype_lookup SMP_ISSPACE_TABLE"
definition SMP_ISDIGIT :: "char \<Rightarrow> bool" where "SMP_ISDIGIT = ctype_lookup SMP_ISDIGIT_TABLE"
definition SMP_ISXDIGIT :: "char \<Rightarrow> bool" where "SMP_ISXDIGIT = ctype_lookup SMP_ISXDIGIT_TABLE"
definition SMP_ISPRINT :: "char \<Rightarrow> bool" where "SMP_ISPRINT = ctype_lookup SMP_ISPRINT_TABLE"
definition SMP_ISLOWER :: "char \<Rightarrow> bool" where "SMP_ISLOWER = ctype_lookup SMP_ISLOWER_TABLE"
definition SMP_ISUPPER :: "char \<Rightarrow> bool" where "SMP_ISUPPER = ctype_lookup SMP_ISUPPER_TABLE"
definition SMP_TOUPPER :: "char \<Rightarrow> char" where "SMP_TOUPPER c = char_of (SMP_TOUPPER_TABLE ! of_char c)"
definition SMP_TOLOWER :: "char \<Rightarrow> char" where "SMP_TOLOWER c = char_of (SMP_TOLOWER_TABLE ! of_char c)"

lemmas ctype_defs = SMP_ISALPHA_def SMP_ISALNUM_def SMP_ISSPACE_def SMP_ISDIGIT_def SMP_ISXDIGIT_def
  SMP_ISPRINT_def SMP_ISLOWER_def SMP_ISUPPER_def

text \<open>Bit \<open>j\<close> of word \<open>i\<close> of a class table.\<close>

lemma ctype_lookup_bit: "ctype_lookup tab c \<longleftrightarrow> bit (tab ! (of_char c div 32 mod 8)) (of_char c mod 32)"
proof -
  have "nat (int (of_char c) mod 32) = of_char c mod 32" by (simp add: nat_mod_distrib)
  then show ?thesis
    using and_bit_mask_nonzero [of "tab ! (of_char c div 32 mod 8)" "int (of_char c)"]
    unfolding ctype_lookup_def Let_def bit_mask_def by metis
qed


lemma class_words:
  "j < 32 \<Longrightarrow> bit (0x7fffffe :: u32) j \<longleftrightarrow> 1 \<le> j \<and> j \<le> 26"
  "j < 32 \<Longrightarrow> bit (0x3ff0000 :: u32) j \<longleftrightarrow> 16 \<le> j \<and> j \<le> 25"
  "j < 32 \<Longrightarrow> bit (0x3e00 :: u32) j \<longleftrightarrow> 9 \<le> j \<and> j \<le> 13"
  "j < 32 \<Longrightarrow> bit (0x7e :: u32) j \<longleftrightarrow> 1 \<le> j \<and> j \<le> 6"
  "j < 32 \<Longrightarrow> bit (1 :: u32) j \<longleftrightarrow> j = 0"
  "j < 32 \<Longrightarrow> bit (0xffffffff :: u32) j"
  "j < 32 \<Longrightarrow> bit (0x7fffffff :: u32) j \<longleftrightarrow> j \<le> 30"
proof -
  have "list_all (\<lambda>j. (bit (0x7fffffe :: u32) j \<longleftrightarrow> 1 \<le> j \<and> j \<le> 26) \<and>
      (bit (0x3ff0000 :: u32) j \<longleftrightarrow> 16 \<le> j \<and> j \<le> 25) \<and>
      (bit (0x3e00 :: u32) j \<longleftrightarrow> 9 \<le> j \<and> j \<le> 13) \<and> (bit (0x7e :: u32) j \<longleftrightarrow> 1 \<le> j \<and> j \<le> 6) \<and>
      (bit (1 :: u32) j \<longleftrightarrow> j = 0) \<and> bit (0xffffffff :: u32) j \<and>
      (bit (0x7fffffff :: u32) j \<longleftrightarrow> j \<le> 30)) [0..<32]"
    by (simp add: upt_rec)
  note this [unfolded list_all_iff set_upt]
  note * = bspec [OF this, of j, unfolded atLeastLessThan_iff, OF conjI [OF le0]]
  show "j < 32 \<Longrightarrow> bit (0x7fffffe :: u32) j \<longleftrightarrow> 1 \<le> j \<and> j \<le> 26"
    and "j < 32 \<Longrightarrow> bit (0x3ff0000 :: u32) j \<longleftrightarrow> 16 \<le> j \<and> j \<le> 25"
    and "j < 32 \<Longrightarrow> bit (0x3e00 :: u32) j \<longleftrightarrow> 9 \<le> j \<and> j \<le> 13"
    and "j < 32 \<Longrightarrow> bit (0x7e :: u32) j \<longleftrightarrow> 1 \<le> j \<and> j \<le> 6"
    and "j < 32 \<Longrightarrow> bit (1 :: u32) j \<longleftrightarrow> j = 0"
    and "j < 32 \<Longrightarrow> bit (0xffffffff :: u32) j"
    and "j < 32 \<Longrightarrow> bit (0x7fffffff :: u32) j \<longleftrightarrow> j \<le> 30"
    by (use * in blast)+
qed

lemma less_8_cases: "i < 8 \<Longrightarrow> i = 0 \<or> i = 1 \<or> i = 2 \<or> i = 3 \<or> i = 4 \<or> i = 5 \<or> i = 6 \<or> i = (7::nat)"
  by arith

lemma ctype_range:
  assumes "length tab = 8"
    and "\<And>i j. i < 8 \<Longrightarrow> j < 32 \<Longrightarrow> bit (tab ! i) j \<longleftrightarrow> P (32 * i + j)"
  shows "ctype_lookup tab c \<longleftrightarrow> P (of_char c)"
proof -
  have n: "of_char c < (256::nat)" by simp
  moreover have "of_char c div 32 < (8::nat)" using n by (simp add: div_less_iff_less_mult)
  moreover from this have "of_char c div 32 mod 8 = of_char c div (32::nat)" by simp
  moreover have "32 * (of_char c div 32) + of_char c mod 32 = (of_char c :: nat)" by simp
  ultimately show ?thesis using assms(2) [of "of_char c div 32" "of_char c mod 32"]
    by (simp add: ctype_lookup_bit)
qed

lemma nth_runs:
  "n < a + k + (r - q) \<Longrightarrow> p + k = p' \<Longrightarrow> ([0..<a] @ [p..<p'] @ [q..<r]) ! n =
     (if n < a then n else if n < a + k then p + (n - a) else q + (n - a - k))"
  by (auto simp: nth_append)

lemma SMP_TOLOWER_nth: "n < 256 \<Longrightarrow> SMP_TOLOWER_TABLE ! n = (if n < 65 then n else if n < 91 then n + 32 else n)"
  unfolding SMP_TOLOWER_TABLE_def by (subst nth_runs [where k = 26]) auto

lemma SMP_TOUPPER_nth: "n < 256 \<Longrightarrow> SMP_TOUPPER_TABLE ! n = (if n < 97 then n else if n < 123 then n - 32 else n)"
  unfolding SMP_TOUPPER_TABLE_def by (subst nth_runs [where k = 26]) auto

text \<open>
  C4. The class functions generated by \<^verbatim>\<open>DECLARE_CTYPE_FN\<close> agree with the ASCII classes on every
  one of the 256 characters, and the two case tables convert exactly the ASCII letters.
\<close>

theorem ctype_ascii:
  "(SMP_ISALPHA c \<longleftrightarrow> of_char c \<in> {65..90} \<union> {97..122::nat}) \<and>
   (SMP_ISALNUM c \<longleftrightarrow> of_char c \<in> {48..57} \<union> {65..90} \<union> {97..122::nat}) \<and>
   (SMP_ISSPACE c \<longleftrightarrow> c_isspace c) \<and>
   (SMP_ISDIGIT c \<longleftrightarrow> c_isdigit c) \<and>
   (SMP_ISXDIGIT c \<longleftrightarrow> of_char c \<in> {48..57} \<union> {65..70} \<union> {97..102::nat}) \<and>
   (SMP_ISPRINT c \<longleftrightarrow> of_char c \<in> {32..126::nat}) \<and>
   (SMP_ISLOWER c \<longleftrightarrow> of_char c \<in> {97..122::nat}) \<and>
   (SMP_ISUPPER c \<longleftrightarrow> of_char c \<in> {65..90::nat}) \<and>
   SMP_TOLOWER c = c_tolower c \<and>
   SMP_TOUPPER c = (if of_char c \<in> {97..122::nat} then char_of (of_char c - 32 :: nat) else c)"
proof (intro conjI)
  show "SMP_ISALPHA c \<longleftrightarrow> of_char c \<in> {65..90} \<union> {97..122::nat}"
    unfolding ctype_defs
    by (rule ctype_range [where P = "\<lambda>n. n \<in> {65..90} \<union> {97..122}"])
      (auto simp: SMP_ISALPHA_TABLE_def class_words dest!: less_8_cases simp del: bit_numeral_word_iff)
  show "SMP_ISALNUM c \<longleftrightarrow> of_char c \<in> {48..57} \<union> {65..90} \<union> {97..122::nat}"
    unfolding ctype_defs
    by (rule ctype_range [where P = "\<lambda>n. n \<in> {48..57} \<union> {65..90} \<union> {97..122}"])
      (auto simp: SMP_ISALNUM_TABLE_def class_words dest!: less_8_cases simp del: bit_numeral_word_iff)
  show "SMP_ISSPACE c \<longleftrightarrow> c_isspace c"
    unfolding ctype_defs c_isspace_def Let_def
    by (rule ctype_range [where P = "\<lambda>n. n = 32 \<or> (9 \<le> n \<and> n \<le> 13)"])
      (auto simp: SMP_ISSPACE_TABLE_def class_words dest!: less_8_cases simp del: bit_numeral_word_iff)
  show "SMP_ISDIGIT c \<longleftrightarrow> c_isdigit c"
    unfolding ctype_defs c_isdigit_def Let_def
    by (rule ctype_range [where P = "\<lambda>n. 48 \<le> n \<and> n \<le> 57"])
      (auto simp: SMP_ISDIGIT_TABLE_def class_words dest!: less_8_cases simp del: bit_numeral_word_iff)
  show "SMP_ISXDIGIT c \<longleftrightarrow> of_char c \<in> {48..57} \<union> {65..70} \<union> {97..102::nat}"
    unfolding ctype_defs
    by (rule ctype_range [where P = "\<lambda>n. n \<in> {48..57} \<union> {65..70} \<union> {97..102}"])
      (auto simp: SMP_ISXDIGIT_TABLE_def class_words dest!: less_8_cases simp del: bit_numeral_word_iff)
  show "SMP_ISPRINT c \<longleftrightarrow> of_char c \<in> {32..126::nat}"
    unfolding ctype_defs
    by (rule ctype_range [where P = "\<lambda>n. n \<in> {32..126}"])
      (auto simp: SMP_ISPRINT_TABLE_def class_words dest!: less_8_cases simp del: bit_numeral_word_iff)
  show "SMP_ISLOWER c \<longleftrightarrow> of_char c \<in> {97..122::nat}"
    unfolding ctype_defs
    by (rule ctype_range [where P = "\<lambda>n. n \<in> {97..122}"])
      (auto simp: SMP_ISLOWER_TABLE_def class_words dest!: less_8_cases simp del: bit_numeral_word_iff)
  show "SMP_ISUPPER c \<longleftrightarrow> of_char c \<in> {65..90::nat}"
    unfolding ctype_defs
    by (rule ctype_range [where P = "\<lambda>n. n \<in> {65..90}"])
      (auto simp: SMP_ISUPPER_TABLE_def class_words dest!: less_8_cases simp del: bit_numeral_word_iff)
  have n: "of_char c < (256::nat)" by simp
  then show "SMP_TOLOWER c = c_tolower c"
    by (auto simp: SMP_TOLOWER_def SMP_TOLOWER_nth c_tolower_def Let_def)
  from n show "SMP_TOUPPER c = (if of_char c \<in> {97..122::nat} then char_of (of_char c - 32 :: nat) else c)"
    by (auto simp: SMP_TOUPPER_def SMP_TOUPPER_nth)
qed

end
