(* ===== verification/Compat.thy ===== *)
theory Compat
  imports Wpa_Prelude
begin

text \<open>
  \<^verbatim>\<open>src/wpa_cli_oper/compat.c\<close>: string duplication, bounded copy, stripping, bounded formatting
  and the Sunday substring search. \<^verbatim>\<open>smp_gettimeofday\<close> only reads the system clock and is left
  out. The formatted text \<^verbatim>\<open>vsnprintf\<close> produces is an argument.
\<close>

section \<open>Duplication and bounded copy\<close>

text \<open>\<^verbatim>\<open>strncpy\<close> pads with NUL up to \<open>n\<close>, then \<open>dup[n]\<close> is set: a buffer of \<open>n + 1\<close> bytes.\<close>

definition smp_strndup :: "string \<Rightarrow> nat \<Rightarrow> cbuf" where
  "smp_strndup s n = take n s @ replicate (n - length s) NUL @ [NUL]"

definition smp_strdup :: "string \<Rightarrow> cbuf" where
  "smp_strdup s = smp_strndup s (length s)"

fun smp_strlcpy_loop :: "string \<Rightarrow> nat \<Rightarrow> string \<Rightarrow> string" where
  "smp_strlcpy_loop [] n d = d"
| "smp_strlcpy_loop (c # s) n d =
     (if n \<noteq> 1 then smp_strlcpy_loop s (n - 1) (d @ [c]) else smp_strlcpy_loop s n d)"

definition smp_strlcpy :: "cbuf \<Rightarrow> string \<Rightarrow> nat \<Rightarrow> (cbuf \<times> nat) outcome" where
  "smp_strlcpy dst src siz =
     (if siz = 0 then Val (dst, length src)
      else let d = smp_strlcpy_loop src siz [] in
        if length d < length dst then Val (cstrwrite dst d, length src) else Undef Oob_write)"

text \<open>The read pointer runs over the string, kept characters move to the write pointer.\<close>

fun smp_strstrip_loop :: "string \<Rightarrow> string \<Rightarrow> string \<Rightarrow> string" where
  "smp_strstrip_loop [] strip w = w"
| "smp_strstrip_loop (c # r) strip w =
     (if c \<in> set strip then smp_strstrip_loop r strip w else smp_strstrip_loop r strip (w @ [c]))"

definition smp_strstrip :: "string \<Rightarrow> string \<Rightarrow> string" where
  "smp_strstrip s strip = smp_strstrip_loop s strip []"

definition SIZE_T_CEILING :: nat where "SIZE_T_CEILING = 4294967295 - 16"

definition smp_vsnprintf :: "cbuf \<Rightarrow> nat \<Rightarrow> string \<Rightarrow> cbuf \<times> int" where
  "smp_vsnprintf str sz txt =
     (if sz = 0 then (str, -1)
      else if sz > SIZE_T_CEILING then (str, -1)
      else let (w, r) = os_snprintf sz txt; str' = (cstrwrite str w)[sz - 1 := NUL]
        in if r < 0 \<or> r \<ge> int sz then (str', -1) else (str', r))"

section \<open>Sunday substring search\<close>

text \<open>Reading \<open>s[i]\<close> at the end of a C string gives the terminating NUL.\<close>

definition char_at :: "string \<Rightarrow> nat \<Rightarrow> char" where
  "char_at s i = (if i < length s then s ! i else NUL)"

text \<open>The inner \<^verbatim>\<open>for\<close>: how far \<open>s2\<close> agrees with \<open>s1\<close> from \<open>ind\<close>, that is the final \<open>j\<close>.\<close>

fun smp_match_len :: "string \<Rightarrow> string \<Rightarrow> nat" where
  "smp_match_len s [] = 0"
| "smp_match_len [] (d # p) = 0"
| "smp_match_len (c # s) (d # p) = (if c = d then Suc (smp_match_len s p) else 0)"

text \<open>The inner \<^verbatim>\<open>while\<close>: the largest \<open>k\<close> with \<open>s2[k] == end\<close>, or -1.\<close>

fun smp_last_idx :: "string \<Rightarrow> char \<Rightarrow> nat \<Rightarrow> int" where
  "smp_last_idx s2 c 0 = -1"
| "smp_last_idx s2 c (Suc k) = (if s2 ! k = c then int k else smp_last_idx s2 c k)"

definition smp_shift :: "string \<Rightarrow> string \<Rightarrow> nat \<Rightarrow> nat" where
  "smp_shift s1 s2 ind =
     (let k = smp_last_idx s2 (char_at s1 (ind + length s2)) (length s2)
      in if k > 0 then ind + length s2 - nat k else ind + length s2 + 1)"

lemma smp_last_idx_bounds: "-1 \<le> smp_last_idx s c n \<and> smp_last_idx s c n < int n"
  by (induction n) auto

lemma smp_shift_gt: "ind < smp_shift s1 s2 ind"
  using smp_last_idx_bounds [of s2 "char_at s1 (ind + length s2)" "length s2"]
  by (auto simp: smp_shift_def Let_def)

function smp_sunday_loop :: "string \<Rightarrow> string \<Rightarrow> nat \<Rightarrow> int" where
  "smp_sunday_loop s1 s2 ind =
     (if ind + length s2 \<le> length s1 then
        (if smp_match_len (drop ind s1) s2 = length s2 then int ind
         else smp_sunday_loop s1 s2 (smp_shift s1 s2 ind))
      else -1)"
  by pat_completeness auto
termination
proof (relation "measure (\<lambda>(s1, s2, ind). Suc (length s1) - ind)")
  fix s1 s2 :: string and ind :: nat
  assume "ind + length s2 \<le> length s1"
  then show "((s1, s2, smp_shift s1 s2 ind), s1, s2, ind) \<in> measure (\<lambda>(s1, s2, ind). Suc (length s1) - ind)"
    using smp_shift_gt [of ind s1 s2] by auto
qed simp

declare smp_sunday_loop.simps [simp del]

definition smp_sunday_search :: "string \<Rightarrow> string \<Rightarrow> int" where
  "smp_sunday_search s1 s2 = smp_sunday_loop s1 s2 0"

section \<open>Copying, stripping, formatting\<close>

lemma smp_strlcpy_loop_eq: "0 < n \<Longrightarrow> smp_strlcpy_loop s n d = d @ take (n - 1) s"
proof (induction s n d rule: smp_strlcpy_loop.induct)
  case (2 c s n d)
  then show ?case by (cases "n = 1") (auto simp: take_Cons' split: nat.splits)
qed simp

lemma smp_strstrip_loop_eq: "smp_strstrip_loop s strip w = w @ filter (\<lambda>c. c \<notin> set strip) s"
  by (induction s strip w rule: smp_strstrip_loop.induct) auto

lemma cstr_smp_strndup: "no_nul s \<Longrightarrow> cstr_of (smp_strndup s n) = take n s"
  by (cases "n - length s") (auto simp: smp_strndup_def)

text \<open>
  C5. \<^verbatim>\<open>smp_strlcpy\<close> into a buffer of at least \<open>siz\<close> bytes stays in bounds, stores the longest
  prefix that fits and a terminating NUL, keeps the buffer's length, and returns the length of the
  whole source string.
\<close>

theorem smp_strlcpy_correct:
  assumes "0 < siz" and "siz \<le> length dst" and "no_nul src"
  shows "\<exists>dst'. smp_strlcpy dst src siz = Val (dst', length src) \<and> length dst' = length dst \<and>
    cstr_of dst' = take (siz - 1) src"
  using assms by (auto simp: smp_strlcpy_def smp_strlcpy_loop_eq Let_def)

theorem smp_strlcpy_correct_witness:
  "\<exists>dst'. smp_strlcpy (replicate 4 CHR ''x'') ''hello'' 4 = Val (dst', 5) \<and> length dst' = 4 \<and>
    cstr_of dst' = ''hel''"
  using smp_strlcpy_correct [of 4 "replicate 4 CHR ''x''" "''hello''"] by (simp add: eval_nat_numeral)

text \<open>
  C6. Duplicating, stripping and formatting: \<^verbatim>\<open>smp_strndup\<close> yields the first \<open>n\<close> characters,
  \<^verbatim>\<open>smp_strstrip\<close> removes every character of the strip set, wherever it occurs, and
  \<^verbatim>\<open>smp_vsnprintf\<close> returns the length only when the whole text was stored and -1 otherwise.
\<close>

theorem compat_strings:
  assumes "no_nul s" and "0 < sz" and "sz \<le> length b" and "sz \<le> SIZE_T_CEILING"
  shows "cstr_of (smp_strndup s n) = take n s \<and> length (smp_strndup s n) = n + 1 \<and>
    cstr_of (smp_strdup s) = s \<and> smp_strstrip s strip = filter (\<lambda>c. c \<notin> set strip) s \<and>
    snd (smp_vsnprintf b sz s) = (if length s < sz then int (length s) else -1) \<and>
    cstr_of (fst (smp_vsnprintf b sz s)) = take (sz - 1) s"
proof -
  have u: "(cstrwrite b (take (sz - 1) s))[sz - 1 := NUL] = cstrwrite b (take (sz - 1) s)" if "sz - 1 \<le> length s"
    using that by (auto simp: cstrwrite_def memwrite_def list_update_append)
  have "cstr_of ((cstrwrite b (take (sz - 1) s))[sz - 1 := NUL]) = take (sz - 1) s"
  proof (cases "sz - 1 \<le> length s")
    case True
    then show ?thesis using u assms(1) by simp
  next
    case False
    then have "(cstrwrite b s)[sz - 1 := NUL] = s @ NUL # (drop (length s + 1) b)[sz - 1 - length s - 1 := NUL]
      \<or> (cstrwrite b s)[sz - 1 := NUL] = s @ NUL # drop (length s + 1) b"
      by (cases "sz - 1 - length s") (auto simp: cstrwrite_def memwrite_def list_update_append)
    with False show ?thesis using assms(1) by (auto simp: cstr_of_append_NUL)
  qed
  then show ?thesis using assms
    by (auto simp: cstr_smp_strndup smp_strdup_def smp_strstrip_def smp_strstrip_loop_eq
      smp_vsnprintf_def os_snprintf_def Let_def) (simp add: smp_strndup_def)+
qed

theorem compat_strings_witness:
  "smp_strstrip ''a b c'' '' '' = ''abc'' \<and> snd (smp_vsnprintf (replicate 8 NUL) 4 ''a b c'') = -1"
  using compat_strings [of "''a b c''" 4 "replicate 8 NUL" 3 "'' ''"] by (simp add: SIZE_T_CEILING_def)

section \<open>Correctness of the search\<close>

definition occurs_at :: "string \<Rightarrow> string \<Rightarrow> nat \<Rightarrow> bool" where
  "occurs_at s1 s2 i \<longleftrightarrow> i + length s2 \<le> length s1 \<and> take (length s2) (drop i s1) = s2"

lemma smp_match_len_iff: "smp_match_len s p = length p \<longleftrightarrow> is_prefix p s"
  by (induction s p rule: smp_match_len.induct) auto

lemma smp_last_idx_last: "smp_last_idx s c n < int p \<Longrightarrow> p < n \<Longrightarrow> s ! p \<noteq> c"
  by (induction n) (auto simp: less_Suc_eq split: if_splits)

lemma smp_last_idx_0: "smp_last_idx s c n = 0 \<Longrightarrow> s ! 0 = c \<and> (\<forall>p. 0 < p \<and> p < n \<longrightarrow> s ! p \<noteq> c)"
proof -
  assume a: "smp_last_idx s c n = 0"
  then have "s ! 0 = c" by (induction n) (auto split: if_splits)
  moreover from a have "\<forall>p. 0 < p \<and> p < n \<longrightarrow> s ! p \<noteq> c"
    using smp_last_idx_last [of s c n] by auto
  ultimately show ?thesis ..
qed

lemma occurs_at_nth: "occurs_at s1 s2 i \<Longrightarrow> p < length s2 \<Longrightarrow> s1 ! (i + p) = s2 ! p"
  unfolding occurs_at_def by (metis add_leD1 nth_drop nth_take)

text \<open>No occurrence is skipped by a shift, unless the deciding character is only \<open>s2[0]\<close>.\<close>

lemma smp_shift_safe:
  assumes "smp_last_idx s2 (char_at s1 (ind + length s2)) (length s2) \<noteq> 0"
    and "ind < j" and "j < smp_shift s1 s2 ind"
  shows "\<not> occurs_at s1 s2 j"
proof
  assume o: "occurs_at s1 s2 j"
  let ?p = "ind + length s2 - j"
  let ?k = "smp_last_idx s2 (char_at s1 (ind + length s2)) (length s2)"
  have lt: "ind + length s2 < length s1" using o assms(2) by (auto simp: occurs_at_def)
  have j: "j \<le> ind + length s2" "?k < int ?p"
    using assms smp_last_idx_bounds [of s2 "char_at s1 (ind + length s2)" "length s2"]
    by (auto simp: smp_shift_def Let_def split: if_splits)
  have p: "?p < length s2" using assms(2) j by linarith
  have "s1 ! (j + ?p) = s2 ! ?p" using occurs_at_nth [OF o p] .
  moreover have "s1 ! (j + ?p) = char_at s1 (ind + length s2)" using j lt by (simp add: char_at_def)
  moreover have "s2 ! ?p \<noteq> char_at s1 (ind + length s2)" using smp_last_idx_last [OF j(2) p] .
  ultimately show False by simp
qed

lemma smp_sunday_loop_sound: "smp_sunday_loop s1 s2 ind = int i \<Longrightarrow> occurs_at s1 s2 i \<and> ind \<le> i"
proof (induction s1 s2 ind rule: smp_sunday_loop.induct)
  case (1 s1 s2 ind)
  show ?case
  proof (cases "ind + length s2 \<le> length s1 \<and> smp_match_len (drop ind s1) s2 = length s2")
    case True
    with "1.prems" show ?thesis
      by (auto simp: smp_sunday_loop.simps [of s1 s2 ind] occurs_at_def smp_match_len_iff is_prefix_take)
  next
    case False
    with 1 show ?thesis using smp_shift_gt [of ind s1 s2]
      by (auto simp: smp_sunday_loop.simps [of s1 s2 ind] split: if_splits)
  qed
qed

lemma smp_sunday_loop_range: "smp_sunday_loop s1 s2 ind = -1 \<or> (\<exists>i. smp_sunday_loop s1 s2 ind = int i)"
proof (induction s1 s2 ind rule: smp_sunday_loop.induct)
  case (1 s1 s2 ind)
  then show ?case by (subst (1 2) smp_sunday_loop.simps) auto
qed

lemma smp_sunday_loop_complete:
  assumes "\<And>c. smp_last_idx s2 c (length s2) \<noteq> 0"
  shows "ind \<le> i \<Longrightarrow> occurs_at s1 s2 i \<Longrightarrow> \<exists>m. smp_sunday_loop s1 s2 ind = int m \<and> m \<le> i"
  using assms
proof (induction s1 s2 ind rule: smp_sunday_loop.induct)
  case (1 s1 s2 ind)
  have fits: "ind + length s2 \<le> length s1" using "1.prems" by (simp add: occurs_at_def)
  show ?case
  proof (cases "smp_match_len (drop ind s1) s2 = length s2")
    case True
    with fits "1.prems" show ?thesis by (simp add: smp_sunday_loop.simps [of s1 s2 ind])
  next
    case False
    then have "i \<noteq> ind" using "1.prems" by (auto simp: occurs_at_def smp_match_len_iff is_prefix_take)
    then have "smp_shift s1 s2 ind \<le> i"
      using "1.prems" smp_shift_safe [of s2 s1 ind i] by (meson le_neq_implies_less not_le)
    with fits False "1.IH" "1.prems" show ?thesis by (simp add: smp_sunday_loop.simps [of s1 s2 ind])
  qed
qed

lemma smp_last_idx_not_0:
  assumes "s ! 0 \<in> set (tl s)"
  shows "smp_last_idx s c (length s) \<noteq> 0"
proof
  assume z: "smp_last_idx s c (length s) = 0"
  from assms obtain p where "p < length (tl s)" "tl s ! p = s ! 0" by (auto simp: in_set_conv_nth)
  then have "Suc p < length s" "s ! Suc p = s ! 0" by (auto simp: nth_tl)
  with smp_last_idx_0 [OF z] show False by auto
qed

text \<open>
  C7. \<^verbatim>\<open>smp_sunday_search\<close> returns a position only if the pattern occurs there; and when the
  pattern's first character also occurs later in the pattern it returns the first occurrence, and
  -1 exactly when there is none.
\<close>

theorem smp_sunday_search_correct:
  assumes "s2 ! 0 \<in> set (tl s2)"
  shows "(\<forall>i. smp_sunday_search s1 s2 = int i \<longleftrightarrow> occurs_at s1 s2 i \<and> (\<forall>j < i. \<not> occurs_at s1 s2 j)) \<and>
    (smp_sunday_search s1 s2 = -1 \<longleftrightarrow> (\<forall>i. \<not> occurs_at s1 s2 i))"
proof -
  note nz = smp_last_idx_not_0 [OF assms]
  have complete: "occurs_at s1 s2 i \<Longrightarrow> \<exists>m. smp_sunday_search s1 s2 = int m \<and> m \<le> i" for i
    using smp_sunday_loop_complete [OF nz, of 0 i s1] by (simp add: smp_sunday_search_def)
  have sound: "smp_sunday_search s1 s2 = int i \<Longrightarrow> occurs_at s1 s2 i" for i
    using smp_sunday_loop_sound by (auto simp: smp_sunday_search_def)
  have range: "smp_sunday_search s1 s2 = -1 \<or> (\<exists>i. smp_sunday_search s1 s2 = int i)"
    unfolding smp_sunday_search_def by (rule smp_sunday_loop_range)
  show ?thesis
  proof (intro conjI allI iffI impI)
    fix i assume e: "smp_sunday_search s1 s2 = int i"
    show "occurs_at s1 s2 i" using sound [OF e] .
    show "\<not> occurs_at s1 s2 j" if "j < i" for j using complete [of j] e that by auto
  next
    fix i assume o: "occurs_at s1 s2 i \<and> (\<forall>j<i. \<not> occurs_at s1 s2 j)"
    then obtain m where m: "smp_sunday_search s1 s2 = int m" "m \<le> i" using complete by blast
    then show "smp_sunday_search s1 s2 = int i" using sound [OF m(1)] o by (metis le_neq_implies_less)
  next
    fix i assume "smp_sunday_search s1 s2 = -1"
    then show "\<not> occurs_at s1 s2 i" using complete [of i] by auto
  next
    assume "\<forall>i. \<not> occurs_at s1 s2 i"
    then show "smp_sunday_search s1 s2 = -1" using range sound by blast
  qed
qed

theorem smp_sunday_search_correct_witness:
  "smp_sunday_search ''xxaab'' ''aab'' = 2 \<and> occurs_at ''xxaab'' ''aab'' 2"
proof -
  have h: "''aab'' ! 0 \<in> set (tl ''aab'')" by simp
  have "occurs_at ''xxaab'' ''aab'' 2 \<and> (\<forall>j<2. \<not> occurs_at ''xxaab'' ''aab'' j)"
    by (simp add: occurs_at_def less_2_cases_iff)
  then show ?thesis
    using conjunct1 [OF smp_sunday_search_correct [OF h, of "''xxaab''"], rule_format, of 2] by simp
qed

text \<open>
  C8. Without that condition the search misses matches: when the character after the window is
  the pattern's first character and occurs nowhere else in the pattern, the shift is one too
  long. In \<open>xxab\<close> the pattern \<open>ab\<close> occurs at 2 and the search reports -1.
\<close>

theorem smp_sunday_search_misses:
  "\<exists>s1 s2. no_nul s1 \<and> no_nul s2 \<and> occurs_at s1 s2 2 \<and> smp_sunday_search s1 s2 = -1"
proof -
  have "smp_sunday_search ''xxab'' ''ab'' = -1"
    by (simp add: smp_sunday_search_def smp_sunday_loop.simps smp_shift_def char_at_def eval_nat_numeral)
  then show ?thesis by (intro exI [of _ "''xxab''"] exI [of _ "''ab''"]) (simp add: occurs_at_def)
qed

end
