(* ===== verification/Smartlist.thy ===== *)
theory Smartlist
  imports Wpa_Prelude "HOL-Library.Multiset" "HOL-Library.List_Lexorder"
begin

text \<open>
  \<^verbatim>\<open>src/wpa_cli_oper/smartlist.c\<close>, the resizable array of pointers: construction, growth, adding,
  removing, membership, set operations, sorting, counting and binary search. The state is the used
  prefix of the array (its length is \<^verbatim>\<open>num_used\<close>) and the capacity; slots past \<^verbatim>\<open>num_used\<close> are never
  read before they are written. Elements are pointers; where the code compares with \<^verbatim>\<open>NULL\<close> the
  element type has a zero. Loops over the array run on indices as in the source.
\<close>

record 'a smartlist_t =
  items :: "'a list"
  capacity :: nat

definition SMARTLIST_DEFAULT_CAPACITY :: nat where "SMARTLIST_DEFAULT_CAPACITY = 16"

definition smartlist_new :: "'a smartlist_t" where
  "smartlist_new = \<lparr>items = [], capacity = SMARTLIST_DEFAULT_CAPACITY\<rparr>"

abbreviation num_used :: "'a smartlist_t \<Rightarrow> nat" where
  "num_used sl \<equiv> length (items sl)"

definition smartlist_clear :: "'a smartlist_t \<Rightarrow> 'a smartlist_t" where
  "smartlist_clear sl = sl\<lparr>items := []\<rparr>"

text \<open>\<open>while (size > higher) higher *= 2\<close>; the capacity is never 0, so the loop ends.\<close>

function grow_capacity :: "nat \<Rightarrow> nat \<Rightarrow> nat" where
  "grow_capacity higher sz = (if 0 < higher \<and> sz > higher then grow_capacity (higher * 2) sz else higher)"
  by pat_completeness auto
termination by (relation "measure (\<lambda>(higher, sz). sz - higher)") auto

declare grow_capacity.simps [simp del]

definition smartlist_ensure_capacity :: "'a smartlist_t \<Rightarrow> nat \<Rightarrow> 'a smartlist_t" where
  "smartlist_ensure_capacity sl sz =
     (if sz > capacity sl then sl\<lparr>capacity := grow_capacity (capacity sl) sz\<rparr> else sl)"

definition smartlist_add :: "'a smartlist_t \<Rightarrow> 'a \<Rightarrow> 'a smartlist_t" where
  "smartlist_add sl element =
     (let sl = smartlist_ensure_capacity sl (num_used sl + 1) in sl\<lparr>items := items sl @ [element]\<rparr>)"

definition smartlist_add_all :: "'a smartlist_t \<Rightarrow> 'a smartlist_t \<Rightarrow> 'a smartlist_t" where
  "smartlist_add_all sl s2 =
     (let sl = smartlist_ensure_capacity sl (num_used sl + num_used s2)
      in sl\<lparr>items := items sl @ items s2\<rparr>)"

section \<open>Removal\<close>

text \<open>
  The removal loops: an element that satisfies the loop's test is overwritten by the last one,
  \<open>list[i] = list[--num_used]\<close>, and the index stays. The second result is the removed elements in
  the order the loop meets them.
\<close>

function swap_del_loop :: "('a \<Rightarrow> bool) \<Rightarrow> nat \<Rightarrow> 'a list \<Rightarrow> 'a list \<times> 'a list" where
  "swap_del_loop del i xs =
     (if i < length xs then
        (if del (xs ! i)
         then let (ys, gone) = swap_del_loop del i (butlast (xs[i := last xs])) in (ys, xs ! i # gone)
         else swap_del_loop del (Suc i) xs)
      else (xs, []))"
  by pat_completeness auto
termination by (relation "measure (\<lambda>(del, i, xs). length xs - i)") auto

declare swap_del_loop.simps [simp del]

definition smartlist_remove :: "('a::zero) smartlist_t \<Rightarrow> 'a \<Rightarrow> 'a smartlist_t" where
  "smartlist_remove sl element =
     (if element = 0 then sl
      else sl\<lparr>items := fst (swap_del_loop (\<lambda>x. x = element) 0 (items sl))\<rparr>)"

definition smartlist_pop_last :: "('a::zero) smartlist_t \<Rightarrow> 'a \<times> 'a smartlist_t" where
  "smartlist_pop_last sl =
     (if items sl \<noteq> [] then (last (items sl), sl\<lparr>items := butlast (items sl)\<rparr>) else (0, sl))"

function reverse_loop :: "nat \<Rightarrow> nat \<Rightarrow> 'a list \<Rightarrow> 'a list" where
  "reverse_loop i j xs =
     (if i < j then reverse_loop (i + 1) (j - 1) (xs[i := xs ! j, j := xs ! i]) else xs)"
  by pat_completeness auto
termination by (relation "measure (\<lambda>(i, j, xs). j - i)") auto

declare reverse_loop.simps [simp del]

definition smartlist_reverse :: "'a smartlist_t \<Rightarrow> 'a smartlist_t" where
  "smartlist_reverse sl = sl\<lparr>items := reverse_loop 0 (num_used sl - 1) (items sl)\<rparr>"

text \<open>Strings are read through the store \<open>str\<close>; the freed pointers are the second result.\<close>

definition smartlist_string_remove ::
  "('a \<Rightarrow> string) \<Rightarrow> 'a smartlist_t \<Rightarrow> string \<Rightarrow> 'a smartlist_t \<times> 'a list" where
  "smartlist_string_remove str sl element =
     (let (ys, freed) = swap_del_loop (\<lambda>x. os_strcmp element (str x) = 0) 0 (items sl)
      in (sl\<lparr>items := ys\<rparr>, freed))"

section \<open>Membership and comparison\<close>

definition smartlist_contains :: "'a smartlist_t option \<Rightarrow> 'a \<Rightarrow> bool" where
  "smartlist_contains sl element =
     (case sl of None \<Rightarrow> False | Some s \<Rightarrow> list_ex (\<lambda>x. x = element) (items s))"

definition smartlist_contains_string :: "('a \<Rightarrow> string) \<Rightarrow> 'a smartlist_t option \<Rightarrow> string \<Rightarrow> bool" where
  "smartlist_contains_string str sl element =
     (case sl of None \<Rightarrow> False | Some s \<Rightarrow> list_ex (\<lambda>x. os_strcmp (str x) element = 0) (items s))"

fun pos_loop :: "('a \<Rightarrow> bool) \<Rightarrow> int \<Rightarrow> 'a list \<Rightarrow> int" where
  "pos_loop p i [] = -1"
| "pos_loop p i (x # xs) = (if p x then i else pos_loop p (i + 1) xs)"

definition smartlist_string_pos :: "('a \<Rightarrow> string) \<Rightarrow> 'a smartlist_t option \<Rightarrow> string \<Rightarrow> int" where
  "smartlist_string_pos str sl element =
     (case sl of None \<Rightarrow> -1 | Some s \<Rightarrow> pos_loop (\<lambda>x. os_strcmp (str x) element = 0) 0 (items s))"

definition smartlist_contains_string_case :: "('a \<Rightarrow> string) \<Rightarrow> 'a smartlist_t option \<Rightarrow> string \<Rightarrow> bool" where
  "smartlist_contains_string_case str sl element =
     (case sl of None \<Rightarrow> False | Some s \<Rightarrow> list_ex (\<lambda>x. strcaseeq (str x) element) (items s))"

definition smartlist_strings_eq :: "('a \<Rightarrow> string) \<Rightarrow> 'a smartlist_t option \<Rightarrow> 'a smartlist_t option \<Rightarrow> bool" where
  "smartlist_strings_eq str sl1 sl2 =
     (case (sl1, sl2) of
        (None, None) \<Rightarrow> True | (None, Some _) \<Rightarrow> False | (Some _, None) \<Rightarrow> False
      | (Some a, Some b) \<Rightarrow>
          if num_used a \<noteq> num_used b then False
          else \<not> list_ex (\<lambda>i. os_strcmp (str (items a ! i)) (str (items b ! i)) \<noteq> 0) [0..<num_used a])"

definition smartlist_ints_eq :: "('a \<Rightarrow> int) \<Rightarrow> 'a smartlist_t option \<Rightarrow> 'a smartlist_t option \<Rightarrow> bool" where
  "smartlist_ints_eq val sl1 sl2 =
     (case (sl1, sl2) of
        (None, None) \<Rightarrow> True | (None, Some _) \<Rightarrow> False | (Some _, None) \<Rightarrow> False
      | (Some a, Some b) \<Rightarrow>
          if num_used a \<noteq> num_used b then False
          else \<not> list_ex (\<lambda>i. val (items a ! i) \<noteq> val (items b ! i)) [0..<num_used a])"

text \<open>\<open>buf\<close> reads the memory an element points to; reading past its end is undefined.\<close>

fun contains_buf_loop :: "('a \<Rightarrow> char list) \<Rightarrow> char list \<Rightarrow> nat \<Rightarrow> 'a list \<Rightarrow> bool outcome" where
  "contains_buf_loop buf element len [] = Val False"
| "contains_buf_loop buf element len (x # xs) =
     (if length (buf x) < len \<or> length element < len then Undef Oob_read
      else if take len (buf x) = take len element then Val True
      else contains_buf_loop buf element len xs)"

definition smartlist_contains_buf ::
  "('a \<Rightarrow> char list) \<Rightarrow> 'a smartlist_t option \<Rightarrow> char list \<Rightarrow> nat \<Rightarrow> bool outcome" where
  "smartlist_contains_buf buf sl element len =
     (case sl of None \<Rightarrow> Val False | Some s \<Rightarrow> contains_buf_loop buf element len (items s))"

definition smartlist_overlap :: "'a smartlist_t \<Rightarrow> 'a smartlist_t \<Rightarrow> bool" where
  "smartlist_overlap sl1 sl2 = list_ex (\<lambda>x. smartlist_contains (Some sl1) x) (items sl2)"

definition smartlist_intersect :: "'a smartlist_t \<Rightarrow> 'a smartlist_t \<Rightarrow> 'a smartlist_t" where
  "smartlist_intersect sl1 sl2 =
     sl1\<lparr>items := fst (swap_del_loop (\<lambda>x. \<not> smartlist_contains (Some sl2) x) 0 (items sl1))\<rparr>"

definition smartlist_subtract :: "('a::zero) smartlist_t \<Rightarrow> 'a smartlist_t \<Rightarrow> 'a smartlist_t" where
  "smartlist_subtract sl1 sl2 = fold (\<lambda>x sl. smartlist_remove sl x) (items sl2) sl1"

section \<open>Positional operations\<close>

definition smartlist_del :: "'a smartlist_t \<Rightarrow> int \<Rightarrow> 'a smartlist_t outcome" where
  "smartlist_del sl idx =
     (if items sl = [] then Undef Oob_read
      else if idx < 0 \<or> idx \<ge> int (capacity sl) then Undef Oob_write
      else Val (sl\<lparr>items := butlast ((items sl)[nat idx := last (items sl)])\<rparr>))"

text \<open>On an empty list \<^verbatim>\<open>num_used\<close> becomes -1, which no later operation can use.\<close>

definition smartlist_del_keeporder :: "'a smartlist_t \<Rightarrow> int \<Rightarrow> 'a smartlist_t outcome" where
  "smartlist_del_keeporder sl idx =
     (if items sl = [] then Undef Oob_write
      else if idx < int (num_used sl - 1) then
        (if idx < 0 then Undef Oob_write
         else Val (sl\<lparr>items := take (nat idx) (items sl) @ drop (nat idx + 1) (items sl)\<rparr>))
      else Val (sl\<lparr>items := butlast (items sl)\<rparr>))"

text \<open>Past the end a slot that was never written would become part of the list.\<close>

definition smartlist_insert :: "'a smartlist_t \<Rightarrow> int \<Rightarrow> 'a \<Rightarrow> 'a smartlist_t outcome" where
  "smartlist_insert sl idx val =
     (if idx = int (num_used sl) then Val (smartlist_add sl val)
      else let sl = smartlist_ensure_capacity sl (num_used sl + 1)
        in if 0 \<le> idx \<and> idx < int (num_used sl)
           then Val (sl\<lparr>items := take (nat idx) (items sl) @ val # drop (nat idx) (items sl)\<rparr>)
           else Undef Oob_write)"

section \<open>Sorting, counting, uniqueness, binary search\<close>

type_synonym 'a compare = "'a \<Rightarrow> 'a \<Rightarrow> int"

text \<open>The C library's \<^verbatim>\<open>qsort\<close> is a parameter.\<close>

definition smartlist_sort :: "('a compare \<Rightarrow> 'a list \<Rightarrow> 'a list) \<Rightarrow> 'a smartlist_t \<Rightarrow> 'a compare \<Rightarrow> 'a smartlist_t" where
  "smartlist_sort qsort sl compare =
     (if items sl = [] then sl else sl\<lparr>items := qsort compare (items sl)\<rparr>)"

fun most_frequent_loop :: "('a::zero) compare \<Rightarrow> 'a list \<Rightarrow> 'a \<Rightarrow> nat \<Rightarrow> 'a \<Rightarrow> nat \<Rightarrow> ('a \<times> nat) \<times> ('a \<times> nat)" where
  "most_frequent_loop compare [] cur cnt best best_count = ((cur, cnt), (best, best_count))"
| "most_frequent_loop compare (item # xs) cur cnt best best_count =
     (if cur \<noteq> 0 \<and> compare cur item = 0
      then most_frequent_loop compare xs cur (cnt + 1) best best_count
      else if cur \<noteq> 0 \<and> cnt \<ge> best_count
      then most_frequent_loop compare xs item 1 cur cnt
      else most_frequent_loop compare xs item 1 best best_count)"

definition smartlist_get_most_frequent_cnt :: "('a::zero) smartlist_t \<Rightarrow> 'a compare \<Rightarrow> 'a \<times> nat" where
  "smartlist_get_most_frequent_cnt sl compare =
     (if items sl = [] then (0, 0)
      else let ((cur, cnt), (best, best_count)) = most_frequent_loop compare (items sl) 0 0 0 0
        in if cur \<noteq> 0 \<and> cnt > best_count then (cur, cnt) else (best, best_count))"

function uniq_loop :: "'a compare \<Rightarrow> nat \<Rightarrow> 'a list \<Rightarrow> 'a list \<times> 'a list" where
  "uniq_loop compare i xs =
     (if 0 < i \<and> i < length xs then
        (if compare (xs ! (i - 1)) (xs ! i) = 0
         then let (ys, freed) = uniq_loop compare i (take i xs @ drop (i + 1) xs) in (ys, xs ! i # freed)
         else uniq_loop compare (i + 1) xs)
      else (xs, []))"
  by pat_completeness auto
termination by (relation "measure (\<lambda>(compare, i, xs). length xs - i)") auto

declare uniq_loop.simps [simp del]

definition smartlist_uniq :: "'a smartlist_t \<Rightarrow> 'a compare \<Rightarrow> 'a smartlist_t \<times> 'a list" where
  "smartlist_uniq sl compare =
     (let (ys, freed) = uniq_loop compare 1 (items sl) in (sl\<lparr>items := ys\<rparr>, freed))"

text \<open>\<open>compare\<close> of the key with an element; the loop works on \<open>int\<close> as in the source.\<close>

function bsearch_loop :: "('a \<Rightarrow> int) \<Rightarrow> 'a list \<Rightarrow> int \<Rightarrow> int \<Rightarrow> bool \<times> int" where
  "bsearch_loop cmp xs lo hi =
     (if lo \<le> hi then
        (let mid = lo + (hi - lo) div 2; c = cmp (xs ! nat mid)
         in if c = 0 then (True, mid)
            else if c > 0 then bsearch_loop cmp xs (mid + 1) hi
            else if mid > 0 then bsearch_loop cmp xs lo (mid - 1)
            else (False, 0))
      else (False, lo))"
  by pat_completeness auto
termination by (relation "measure (\<lambda>(cmp, xs, lo, hi). nat (hi - lo + 1))") auto

declare bsearch_loop.simps [simp del]

definition smartlist_bsearch_idx :: "'a smartlist_t \<Rightarrow> 'k \<Rightarrow> ('k \<Rightarrow> 'a \<Rightarrow> int) \<Rightarrow> bool \<times> int" where
  "smartlist_bsearch_idx sl key compare =
     (if num_used sl = 0 then (False, 0)
      else bsearch_loop (compare key) (items sl) 0 (int (num_used sl) - 1))"

definition smartlist_bsearch :: "('a::zero) smartlist_t \<Rightarrow> 'k \<Rightarrow> ('k \<Rightarrow> 'a \<Rightarrow> int) \<Rightarrow> 'a" where
  "smartlist_bsearch sl key compare =
     (let (found, idx) = smartlist_bsearch_idx sl key compare in if found then items sl ! nat idx else 0)"

definition compare_string_ptrs :: "('a \<Rightarrow> string) \<Rightarrow> 'a compare" where
  "compare_string_ptrs str a b = os_strcmp (str a) (str b)"

definition compare_ptrs :: "('a::linorder) compare" where
  "compare_ptrs a b = (if a < b then -1 else if a = b then 0 else 1)"

definition smartlist_sort_strings where
  "smartlist_sort_strings qsort str sl = smartlist_sort qsort sl (compare_string_ptrs str)"

definition smartlist_get_most_frequent_string_cnt :: "('a::zero \<Rightarrow> string) \<Rightarrow> 'a smartlist_t \<Rightarrow> 'a \<times> nat" where
  "smartlist_get_most_frequent_string_cnt str sl = smartlist_get_most_frequent_cnt sl (compare_string_ptrs str)"

definition smartlist_get_most_frequent_string :: "('a::zero \<Rightarrow> string) \<Rightarrow> 'a smartlist_t \<Rightarrow> 'a" where
  "smartlist_get_most_frequent_string str sl = fst (smartlist_get_most_frequent_cnt sl (compare_string_ptrs str))"

definition smartlist_uniq_strings :: "('a \<Rightarrow> string) \<Rightarrow> 'a smartlist_t \<Rightarrow> 'a smartlist_t \<times> 'a list" where
  "smartlist_uniq_strings str sl = smartlist_uniq sl (compare_string_ptrs str)"

definition smartlist_sort_pointers where
  "smartlist_sort_pointers qsort sl = smartlist_sort qsort sl (compare_ptrs :: ('a::linorder) compare)"


section \<open>Well-formed lists\<close>

text \<open>The used prefix fits into the allocation, which is the initial one doubled some number of times.\<close>

definition wf_smartlist :: "'a smartlist_t \<Rightarrow> bool" where
  "wf_smartlist sl \<longleftrightarrow> num_used sl \<le> capacity sl \<and> (\<exists>k. capacity sl = SMARTLIST_DEFAULT_CAPACITY * 2 ^ k)"

lemma grow_capacity_props:
  "0 < h \<Longrightarrow> sz \<le> grow_capacity h sz \<and> (\<exists>k. grow_capacity h sz = h * 2 ^ k) \<and>
     (h < sz \<longrightarrow> grow_capacity h sz < 2 * sz)"
proof (induction h sz rule: grow_capacity.induct)
  case (1 h sz)
  show ?case
  proof (cases "sz > h")
    case True
    with 1 obtain k where "grow_capacity (h * 2) sz = h * 2 * 2 ^ k" by auto
    then have k: "grow_capacity h sz = h * 2 ^ Suc k"
      using True "1.prems" by (simp add: grow_capacity.simps [of h sz])
    have "grow_capacity h sz < 2 * sz"
    proof (cases "h * 2 < sz")
      case True
      with 1 \<open>sz > h\<close> show ?thesis by (simp add: grow_capacity.simps [of h sz])
    next
      case False
      with 1 \<open>sz > h\<close> show ?thesis
        by (simp add: grow_capacity.simps [of h sz] grow_capacity.simps [of "h * 2" sz])
    qed
    moreover have "sz \<le> grow_capacity h sz" using 1 True by (simp add: grow_capacity.simps [of h sz])
    ultimately show ?thesis using k by blast
  next
    case False
    then show ?thesis by (auto simp: grow_capacity.simps [of h sz] intro: exI [of _ 0])
  qed
qed

lemma items_ensure_capacity [simp]: "items (smartlist_ensure_capacity sl n) = items sl"
  by (simp add: smartlist_ensure_capacity_def)

lemma items_smartlist_add [simp]: "items (smartlist_add sl x) = items sl @ [x]"
  by (simp add: smartlist_add_def Let_def)

lemma items_smartlist_add_all [simp]: "items (smartlist_add_all sl s2) = items sl @ items s2"
  by (simp add: smartlist_add_all_def Let_def)

lemma ensure_capacity_fits:
  assumes "wf_smartlist sl"
  shows "n \<le> capacity (smartlist_ensure_capacity sl n) \<and>
    (\<exists>k. capacity (smartlist_ensure_capacity sl n) = SMARTLIST_DEFAULT_CAPACITY * 2 ^ k)"
proof -
  obtain k where k: "capacity sl = SMARTLIST_DEFAULT_CAPACITY * 2 ^ k"
    using assms by (auto simp: wf_smartlist_def)
  then have "0 < capacity sl" by (simp add: SMARTLIST_DEFAULT_CAPACITY_def)
  from grow_capacity_props [OF this, of n] obtain j where
    "n \<le> grow_capacity (capacity sl) n" "grow_capacity (capacity sl) n = SMARTLIST_DEFAULT_CAPACITY * 2 ^ (k + j)"
    by (auto simp: k power_add mult.assoc)
  with k show ?thesis by (auto simp: smartlist_ensure_capacity_def)
qed

lemma wf_smartlist_new: "wf_smartlist smartlist_new"
  by (auto simp: wf_smartlist_def smartlist_new_def intro: exI [of _ 0])

lemma wf_smartlist_shorter: "wf_smartlist sl \<Longrightarrow> length xs \<le> num_used sl \<Longrightarrow> wf_smartlist (sl\<lparr>items := xs\<rparr>)"
  by (auto simp: wf_smartlist_def)

lemma wf_smartlist_add: "wf_smartlist sl \<Longrightarrow> wf_smartlist (smartlist_add sl x)"
  using ensure_capacity_fits [of sl "num_used sl + 1"] by (auto simp: wf_smartlist_def smartlist_add_def Let_def)

lemma wf_smartlist_add_all: "wf_smartlist sl \<Longrightarrow> wf_smartlist (smartlist_add_all sl s2)"
  using ensure_capacity_fits [of sl "num_used sl + num_used s2"]
  by (auto simp: wf_smartlist_def smartlist_add_all_def Let_def)

section \<open>The removal loop\<close>

lemma set_butlast_update: "i < length xs \<Longrightarrow> mset (butlast (xs[i := last xs])) = mset xs - {#xs ! i#}"
proof (induction xs rule: rev_induct)
  case (snoc x xs)
  then show ?case
    by (cases "i < length xs") (auto simp: list_update_append nth_append mset_update butlast_append add_mset_commute)
qed simp

lemma take_butlast_update: "i < length xs \<Longrightarrow> take i (butlast (xs[i := last xs])) = take i xs"
  by (simp add: take_butlast)

lemma swap_del_loop_spec:
  assumes "\<forall>x \<in> set (take i xs). \<not> del x" and "swap_del_loop del i xs = (ys, gone)"
  shows "mset ys = filter_mset (\<lambda>x. \<not> del x) (mset xs) \<and> mset gone = filter_mset del (mset xs)"
  using assms
proof (induction del i xs arbitrary: ys gone rule: swap_del_loop.induct)
  case (1 del i xs)
  note unf = swap_del_loop.simps [of del i xs]
  consider "i < length xs" "del (xs ! i)" | "i < length xs" "\<not> del (xs ! i)" | "length xs \<le> i" by linarith
  then show ?case
  proof cases
    case 1
    let ?xs' = "butlast (xs[i := last xs])"
    obtain gone' where rec: "swap_del_loop del i ?xs' = (ys, gone')" "gone = xs ! i # gone'"
      using "1.prems"(2) 1 by (auto simp: unf Let_def split: prod.splits)
    have "mset ys = filter_mset (\<lambda>x. \<not> del x) (mset ?xs') \<and> mset gone' = filter_mset del (mset ?xs')"
      using "1.IH"(1) [OF 1 _ rec(1)] "1.prems"(1) take_butlast_update [OF 1(1)] by simp
    moreover have "mset xs = add_mset (xs ! i) (mset ?xs')"
      using set_butlast_update [OF 1(1)] 1(1) by simp
    ultimately show ?thesis using 1(2) rec(2) by simp
  next
    case 2
    have "\<forall>x\<in>set (take (Suc i) xs). \<not> del x" using "1.prems"(1) 2 by (auto simp: take_Suc_conv_app_nth)
    with 2 "1.IH"(2) "1.prems"(2) show ?thesis by (simp add: unf)
  next
    case 3
    with "1.prems" have e: "ys = xs" "gone = []" "\<forall>x\<in>set xs. \<not> del x" by (auto simp: unf)
    have "filter_mset (\<lambda>x. \<not> del x) (mset xs) = mset xs" "filter_mset del (mset xs) = {#}"
      using e(3) by (auto simp: filter_mset_eq_conv multiset_eq_iff)
    with e show ?thesis by simp
  qed
qed

lemma swap_del_loop_mset:
  "mset (fst (swap_del_loop del 0 xs)) = filter_mset (\<lambda>x. \<not> del x) (mset xs)"
  "mset (snd (swap_del_loop del 0 xs)) = filter_mset del (mset xs)"
  using swap_del_loop_spec [of 0 xs del "fst (swap_del_loop del 0 xs)" "snd (swap_del_loop del 0 xs)"] by auto

lemma swap_del_loop_length: "length (fst (swap_del_loop del 0 xs)) \<le> length xs"
  by (metis size_filter_mset_lesseq size_mset swap_del_loop_mset(1))

lemma mset_smartlist_remove:
  "e \<noteq> 0 \<Longrightarrow> mset (items (smartlist_remove sl e)) = filter_mset (\<lambda>x. x \<noteq> e) (mset (items sl))"
  by (simp add: smartlist_remove_def swap_del_loop_mset)

lemma mset_smartlist_subtract:
  "0 \<notin> set ys \<Longrightarrow> mset (items (fold (\<lambda>x sl. smartlist_remove sl x) ys sl)) =
     filter_mset (\<lambda>x. x \<notin> set ys) (mset (items sl))"
proof (induction ys arbitrary: sl)
  case (Cons y ys)
  then show ?case by (auto simp: mset_smartlist_remove filter_filter_mset intro!: filter_mset_cong)
qed simp

section \<open>Reversal\<close>

lemma nth_reverse_loop:
  "j < length xs \<Longrightarrow> k < length xs \<Longrightarrow>
     reverse_loop i j xs ! k = (if i \<le> k \<and> k \<le> j then xs ! (i + j - k) else xs ! k)"
proof (induction i j xs rule: reverse_loop.induct)
  case (1 i j xs)
  show ?case
  proof (cases "i < j")
    case True
    with 1 have "reverse_loop i j xs ! k =
      (if i + 1 \<le> k \<and> k \<le> j - 1 then (xs[i := xs ! j, j := xs ! i]) ! (i + 1 + (j - 1) - k)
       else (xs[i := xs ! j, j := xs ! i]) ! k)"
      by (simp add: reverse_loop.simps [of i j xs])
    with True 1 show ?thesis by (auto simp: nth_list_update)
  next
    case False
    then have "i \<le> k \<and> k \<le> j \<Longrightarrow> i + j - k = k" by linarith
    with False 1 show ?thesis by (auto simp: reverse_loop.simps [of i j xs])
  qed
qed

lemma length_reverse_loop [simp]: "length (reverse_loop i j xs) = length xs"
proof (induction i j xs rule: reverse_loop.induct)
  case (1 i j xs)
  then show ?case by (cases "i < j") (simp_all add: reverse_loop.simps [of i j xs])
qed

lemma items_smartlist_reverse: "items (smartlist_reverse sl) = rev (items sl)"
proof (cases "items sl = []")
  case False
  then show ?thesis
    by (auto intro!: nth_equalityI simp: smartlist_reverse_def nth_reverse_loop rev_nth)
qed (simp add: smartlist_reverse_def reverse_loop.simps)

section \<open>Uniqueness\<close>

text \<open>The reference: of every run of equal elements the first one stays.\<close>

fun uniq_ref :: "'a compare \<Rightarrow> 'a list \<Rightarrow> 'a list" where
  "uniq_ref cmp (x # y # ys) = (if cmp x y = 0 then uniq_ref cmp (x # ys) else x # uniq_ref cmp (y # ys))"
| "uniq_ref cmp xs = xs"

lemma uniq_loop_ref:
  "0 < i \<Longrightarrow> fst (uniq_loop cmp i xs) = take (i - 1) xs @ uniq_ref cmp (drop (i - 1) xs) \<and>
     mset (fst (uniq_loop cmp i xs)) + mset (snd (uniq_loop cmp i xs)) = mset xs"
proof (induction cmp i xs rule: uniq_loop.induct)
  case (1 cmp i xs)
  note unf = uniq_loop.simps [of cmp i xs]
  show ?case
  proof (cases "i < length xs")
    case True
    let ?xs' = "take i xs @ drop (i + 1) xs"
    have split: "drop (i - 1) xs = xs ! (i - 1) # xs ! i # drop (i + 1) xs"
      using True \<open>0 < i\<close> by (metis Cons_nth_drop_Suc Suc_eq_plus1 Suc_lessD Suc_pred')
    have t: "take i xs = take (i - 1) xs @ [xs ! (i - 1)]"
      using True \<open>0 < i\<close> by (metis Suc_lessD Suc_pred' take_Suc_conv_app_nth)
    show ?thesis
    proof (cases "cmp (xs ! (i - 1)) (xs ! i) = 0")
      case eq: True
      have pre: "take (i - 1) ?xs' = take (i - 1) xs" "drop (i - 1) ?xs' = xs ! (i - 1) # drop (i + 1) xs"
        using True \<open>0 < i\<close> by (simp_all add: t)
      have whole: "mset xs = add_mset (xs ! i) (mset ?xs')"
        using arg_cong [OF id_take_nth_drop [OF True], of mset] by simp
      obtain ys gone where rec: "uniq_loop cmp i ?xs' = (ys, gone)" by fastforce
      then have top: "uniq_loop cmp i xs = (ys, xs ! i # gone)"
        using True eq \<open>0 < i\<close> by (simp add: unf)
      have ref: "uniq_ref cmp (drop (i - 1) xs) = uniq_ref cmp (xs ! (i - 1) # drop (i + 1) xs)"
        unfolding split using eq by simp
      have "ys = take (i - 1) ?xs' @ uniq_ref cmp (drop (i - 1) ?xs') \<and> mset ys + mset gone = mset ?xs'"
        using "1.IH"(1) True eq \<open>0 < i\<close> rec by (metis fst_conv snd_conv)
      then have "ys = take (i - 1) xs @ uniq_ref cmp (xs ! (i - 1) # drop (i + 1) xs)"
        and "mset ys + mset gone = mset ?xs'" unfolding pre by blast+
      then show ?thesis unfolding top ref whole by (metis fst_conv snd_conv mset.simps(2) union_mset_add_mset_right)
    next
      case False
      have d: "drop i xs = xs ! i # drop (i + 1) xs" using True by (simp add: Cons_nth_drop_Suc)
      have ref: "uniq_ref cmp (drop (i - 1) xs) = xs ! (i - 1) # uniq_ref cmp (drop i xs)"
        unfolding split d using False by simp
      have step: "uniq_loop cmp i xs = uniq_loop cmp (i + 1) xs"
        using True False \<open>0 < i\<close> by (simp add: unf)
      have ih: "fst (uniq_loop cmp (i + 1) xs) = take i xs @ uniq_ref cmp (drop i xs)"
        "mset (fst (uniq_loop cmp (i + 1) xs)) + mset (snd (uniq_loop cmp (i + 1) xs)) = mset xs"
        using "1.IH"(2) True False \<open>0 < i\<close> by (auto simp only: diff_add_inverse2)
      have "take i xs @ uniq_ref cmp (drop i xs) = take (i - 1) xs @ uniq_ref cmp (drop (i - 1) xs)"
        unfolding ref t by simp
      then show ?thesis unfolding step using ih by metis
    qed
  next
    case False
    have "uniq_ref cmp (drop (i - 1) xs) = drop (i - 1) xs"
    proof (cases "drop (i - 1) xs")
      case (Cons a as)
      then have "as = []" using False \<open>0 < i\<close> by (metis One_nat_def Suc_pred drop_Suc drop_all linorder_not_less list.sel(3) tl_drop)
      with Cons show ?thesis by simp
    qed simp
    with False show ?thesis by (simp add: unf)
  qed
qed

lemma items_smartlist_uniq: "items (fst (smartlist_uniq sl cmp)) = uniq_ref cmp (items sl)"
  using uniq_loop_ref [of 1 cmp "items sl"] by (cases "uniq_loop cmp 1 (items sl)") (simp add: smartlist_uniq_def)

lemma freed_smartlist_uniq: "mset (items (fst (smartlist_uniq sl cmp))) + mset (snd (smartlist_uniq sl cmp)) = mset (items sl)"
  using uniq_loop_ref [of 1 cmp "items sl"] by (cases "uniq_loop cmp 1 (items sl)") (simp add: smartlist_uniq_def)

lemma length_uniq_ref: "length (uniq_ref cmp xs) \<le> length xs"
  by (induction cmp xs rule: uniq_ref.induct) auto

lemma uniq_ref_sorted:
  fixes key :: "'a \<Rightarrow> 'k::linorder"
  assumes "\<forall>a b. cmp a b = 0 \<longleftrightarrow> key a = key b" and "sorted (map key xs)"
  shows "sorted_wrt (<) (map key (uniq_ref cmp xs)) \<and> key ` set (uniq_ref cmp xs) = key ` set xs"
  using assms
proof (induction cmp xs rule: uniq_ref.induct)
  case (1 cmp x y ys)
  show ?case
  proof (cases "key x = key y")
    case True
    with 1(4) have "sorted (map key (x # ys))" by simp
    with 1(1,3) True show ?thesis by auto
  next
    case False
    with 1(4) have "sorted (map key (y # ys))" "key x < key y" by auto
    with 1(2,3) False have ih: "sorted_wrt (<) (map key (uniq_ref cmp (y # ys)))"
      "key ` set (uniq_ref cmp (y # ys)) = key ` set (y # ys)" by auto
    moreover have "\<forall>k \<in> key ` set (y # ys). key x < k"
      using \<open>sorted (map key (y # ys))\<close> \<open>key x < key y\<close> by auto
    ultimately have "\<forall>z \<in> set (uniq_ref cmp (y # ys)). key x < key z" by (metis imageI)
    then have "sorted_wrt (<) (map key (x # uniq_ref cmp (y # ys)))"
      using ih(1) by (simp only: list.map sorted_wrt.simps) simp
    then show ?thesis using ih(2) False 1(3) by (simp del: sorted_wrt_map)
  qed
qed auto

section \<open>Binary search\<close>

definition probe_sorted :: "('a \<Rightarrow> int) \<Rightarrow> 'a list \<Rightarrow> bool" where
  "probe_sorted cmp xs \<longleftrightarrow> (\<forall>i j. i < j \<longrightarrow> j < length xs \<longrightarrow> sgn (cmp (xs ! j)) \<le> sgn (cmp (xs ! i)))"

lemma probe_sortedD:
  assumes "probe_sorted cmp xs" "i \<le> j" "j < length xs"
  shows "cmp (xs ! j) > 0 \<Longrightarrow> cmp (xs ! i) > 0" "cmp (xs ! i) < 0 \<Longrightarrow> cmp (xs ! j) < 0"
proof -
  have "sgn (cmp (xs ! j)) \<le> sgn (cmp (xs ! i))"
    using assms by (cases "i = j") (auto simp: probe_sorted_def)
  then show "cmp (xs ! j) > 0 \<Longrightarrow> cmp (xs ! i) > 0" "cmp (xs ! i) < 0 \<Longrightarrow> cmp (xs ! j) < 0"
    by (auto simp: sgn_if split: if_splits)
qed

lemma bsearch_loop_correct:
  assumes "probe_sorted cmp xs"
    and "0 \<le> lo" "lo \<le> int (length xs)" "-1 \<le> hi" "hi < int (length xs)" "lo \<le> hi + 1"
    and "\<forall>i < nat lo. cmp (xs ! i) > 0" "\<forall>i. nat (hi + 1) \<le> i \<and> i < length xs \<longrightarrow> cmp (xs ! i) < 0"
  shows "case bsearch_loop cmp xs lo hi of
      (True, m) \<Rightarrow> 0 \<le> m \<and> m < int (length xs) \<and> cmp (xs ! nat m) = 0
    | (False, m) \<Rightarrow> 0 \<le> m \<and> m \<le> int (length xs) \<and> (\<forall>i < nat m. cmp (xs ! i) > 0) \<and>
        (\<forall>i. nat m \<le> i \<and> i < length xs \<longrightarrow> cmp (xs ! i) < 0)"
  using assms
proof (induction cmp xs lo hi rule: bsearch_loop.induct)
  case (1 cmp xs lo hi)
  define mid where "mid = lo + (hi - lo) div 2"
  note unf = bsearch_loop.simps [of cmp xs lo hi, folded mid_def, unfolded Let_def]
  note le = "1.prems"
  show ?case
  proof (cases "lo \<le> hi")
    case True
    then have mid: "lo \<le> mid" "mid \<le> hi" by (auto simp: mid_def)
    with le have mid_lt: "nat mid < length xs" by linarith
    consider "cmp (xs ! nat mid) = 0" | "cmp (xs ! nat mid) > 0" | "cmp (xs ! nat mid) < 0" by linarith
    then show ?thesis
    proof cases
      case 1
      then show ?thesis using True mid le by (simp add: unf)
    next
      case 2
      have "\<forall>i < nat (mid + 1). cmp (xs ! i) > 0"
        using probe_sortedD(1) [OF le(1) _ mid_lt 2] mid le by auto
      moreover have "bsearch_loop cmp xs lo hi = bsearch_loop cmp xs (mid + 1) hi"
        using True 2 by (simp add: unf)
      ultimately show ?thesis
        using "1.IH"(1) [OF True mid_def refl] 2 le mid by simp
    next
      case 3
      have up: "\<forall>i. nat mid \<le> i \<and> i < length xs \<longrightarrow> cmp (xs ! i) < 0"
        using probe_sortedD(2) [OF le(1) _ _ 3] by blast
      show ?thesis
      proof (cases "mid > 0")
        case pos: True
        have "bsearch_loop cmp xs lo hi = bsearch_loop cmp xs lo (mid - 1)"
          using True 3 pos by (simp add: unf)
        then show ?thesis
          using "1.IH"(2) [OF True mid_def refl] 3 le mid up pos by simp
      next
        case False
        then have "mid = 0" using mid le by linarith
        then show ?thesis using True 3 up by (simp add: unf)
      qed
    qed
  next
    case False
    with le have "nat (hi + 1) = nat lo" by linarith
    with False le show ?thesis by (simp add: unf)
  qed
qed

lemma smartlist_bsearch_idx_spec:
  assumes "probe_sorted (compare key) (items sl)"
  shows "case smartlist_bsearch_idx sl key compare of
      (True, m) \<Rightarrow> 0 \<le> m \<and> m < int (num_used sl) \<and> compare key (items sl ! nat m) = 0
    | (False, m) \<Rightarrow> 0 \<le> m \<and> m \<le> int (num_used sl) \<and> (\<forall>i < nat m. compare key (items sl ! i) > 0) \<and>
        (\<forall>i. nat m \<le> i \<and> i < num_used sl \<longrightarrow> compare key (items sl ! i) < 0)"
  using bsearch_loop_correct [OF assms, of 0 "int (num_used sl) - 1"]
  by (simp add: smartlist_bsearch_idx_def split: if_splits)

section \<open>Sorting with the C library's qsort\<close>

text \<open>What the C standard promises of \<^verbatim>\<open>qsort\<close>; the order of equal elements is unspecified.\<close>

definition total_compare :: "'a compare \<Rightarrow> bool" where
  "total_compare cmp \<longleftrightarrow> (\<forall>a b. (cmp a b < 0 \<longleftrightarrow> cmp b a > 0) \<and> (cmp a b = 0 \<longleftrightarrow> cmp b a = 0)) \<and>
     (\<forall>a b c. cmp a b \<le> 0 \<longrightarrow> cmp b c \<le> 0 \<longrightarrow> cmp a c \<le> 0)"

definition compare_sorted :: "'a compare \<Rightarrow> 'a list \<Rightarrow> bool" where
  "compare_sorted cmp xs \<longleftrightarrow> sorted_wrt (\<lambda>a b. cmp a b \<le> 0) xs"

lemma total_compare_trans: "total_compare cmp \<Longrightarrow> cmp a b \<le> 0 \<Longrightarrow> cmp b c \<le> 0 \<Longrightarrow> cmp a c \<le> 0"
  unfolding total_compare_def by blast

lemma total_compare_flip:
  assumes "total_compare cmp"
  shows "cmp a b < 0 \<longleftrightarrow> cmp b a > 0" "cmp a b = 0 \<longleftrightarrow> cmp b a = 0" "cmp a b > 0 \<longleftrightarrow> cmp b a < 0"
  using assms unfolding total_compare_def by blast+

lemma total_compareI:
  fixes key :: "'a \<Rightarrow> 'k::linorder"
  assumes "\<forall>a b. (cmp a b < 0 \<longleftrightarrow> key a < key b) \<and> (cmp a b = 0 \<longleftrightarrow> key a = key b)"
  shows "total_compare cmp" "cmp a b \<le> 0 \<longleftrightarrow> key a \<le> key b"
proof -
  have le: "cmp a b \<le> 0 \<longleftrightarrow> key a \<le> key b" for a b
    using assms by (auto simp: le_less)
  have gt: "cmp a b > 0 \<longleftrightarrow> key b < key a" for a b
    using le [of a b] by (meson not_less)
  show "total_compare cmp"
    unfolding total_compare_def using assms by (auto simp: le gt)
  show "cmp a b \<le> 0 \<longleftrightarrow> key a \<le> key b" by (rule le)
qed

locale qsort_lib =
  fixes qsort :: "'a compare \<Rightarrow> 'a list \<Rightarrow> 'a list"
  assumes qsort_mset: "total_compare cmp \<Longrightarrow> mset (qsort cmp xs) = mset xs"
    and qsort_sorted: "total_compare cmp \<Longrightarrow> compare_sorted cmp (qsort cmp xs)"
begin

lemma items_sort_mset: "total_compare cmp \<Longrightarrow> mset (items (smartlist_sort qsort sl cmp)) = mset (items sl)"
  by (simp add: smartlist_sort_def qsort_mset)

lemma items_sort_sorted: "total_compare cmp \<Longrightarrow> compare_sorted cmp (items (smartlist_sort qsort sl cmp))"
  using qsort_sorted [of cmp "items sl"] by (auto simp: smartlist_sort_def compare_sorted_def)

lemma sort_probe:
  assumes tot: "total_compare cmp"
  shows "probe_sorted (cmp key) (items (smartlist_sort qsort sl cmp))"
  unfolding probe_sorted_def
proof (intro allI impI)
  fix i j
  let ?xs = "items (smartlist_sort qsort sl cmp)"
  assume "i < j" "j < length ?xs"
  then have le: "cmp (?xs ! i) (?xs ! j) \<le> 0"
    using items_sort_sorted [OF tot, of sl] by (auto simp: compare_sorted_def sorted_wrt_iff_nth_less)
  show "sgn (cmp key (?xs ! j)) \<le> sgn (cmp key (?xs ! i))"
    using total_compare_trans [OF tot _ le, of key] total_compare_trans [OF tot le, of key]
      total_compare_flip [OF tot, of key "?xs ! i"] total_compare_flip [OF tot, of key "?xs ! j"]
    by (auto simp: sgn_if)
qed

text \<open>Sorting and then searching finds exactly what the list contains.\<close>

lemma sort_bsearch:
  assumes tot: "total_compare cmp"
  shows "fst (smartlist_bsearch_idx (smartlist_sort qsort sl cmp) key cmp) \<longleftrightarrow> (\<exists>x \<in> set (items sl). cmp key x = 0)"
proof -
  let ?s = "smartlist_sort qsort sl cmp"
  have set: "set (items ?s) = set (items sl)"
    using items_sort_mset [OF tot, of sl] by (metis set_mset_mset)
  note spec = smartlist_bsearch_idx_spec [of cmp key ?s, OF sort_probe [OF tot]]
  show ?thesis
  proof (cases "smartlist_bsearch_idx ?s key cmp")
    case (Pair found m)
    show ?thesis
    proof (cases found)
      case True
      with spec Pair have "nat m < num_used ?s" "cmp key (items ?s ! nat m) = 0" by auto
      then have "\<exists>x \<in> set (items ?s). cmp key x = 0" using nth_mem by blast
      with Pair True set show ?thesis by simp
    next
      case False
      with spec Pair have "\<forall>i < num_used ?s. cmp key (items ?s ! i) \<noteq> 0"
        by (auto simp: not_le) (metis less_irrefl linorder_not_less)
      then have "\<forall>x \<in> set (items ?s). cmp key x \<noteq> 0" by (metis in_set_conv_nth)
      with Pair False set show ?thesis by auto
    qed
  qed
qed

text \<open>Sorting and then removing adjacent duplicates leaves one element of every class.\<close>

lemma sort_uniq:
  fixes key :: "'a \<Rightarrow> 'k::linorder"
  assumes "\<forall>a b. (cmp a b < 0 \<longleftrightarrow> key a < key b) \<and> (cmp a b = 0 \<longleftrightarrow> key a = key b)"
  shows "sorted_wrt (<) (map key (items (fst (smartlist_uniq (smartlist_sort qsort sl cmp) cmp))))"
    and "key ` set (items (fst (smartlist_uniq (smartlist_sort qsort sl cmp) cmp))) = key ` set (items sl)"
proof -
  note le = total_compareI(2) [OF assms] and tot = total_compareI(1) [OF assms]
  let ?s = "smartlist_sort qsort sl cmp"
  have "sorted (map key (items ?s))"
    using items_sort_sorted [OF tot, of sl] by (simp add: compare_sorted_def le sorted_map)
  with uniq_ref_sorted [of cmp key "items ?s"] assms
  have "sorted_wrt (<) (map key (uniq_ref cmp (items ?s)))" "key ` set (uniq_ref cmp (items ?s)) = key ` set (items ?s)"
    by auto
  moreover have "set (items ?s) = set (items sl)"
    using items_sort_mset [OF tot, of sl] by (metis set_mset_mset)
  ultimately show "sorted_wrt (<) (map key (items (fst (smartlist_uniq ?s cmp))))"
    "key ` set (items (fst (smartlist_uniq ?s cmp))) = key ` set (items sl)"
    by (simp_all add: items_smartlist_uniq)
qed

end

text \<open>A concrete sort that meets the contract: insertion by the comparison function.\<close>

fun c_insert :: "'a compare \<Rightarrow> 'a \<Rightarrow> 'a list \<Rightarrow> 'a list" where
  "c_insert cmp x [] = [x]"
| "c_insert cmp x (y # ys) = (if cmp x y \<le> 0 then x # y # ys else y # c_insert cmp x ys)"

fun c_qsort :: "'a compare \<Rightarrow> 'a list \<Rightarrow> 'a list" where
  "c_qsort cmp [] = []"
| "c_qsort cmp (x # xs) = c_insert cmp x (c_qsort cmp xs)"

lemma mset_c_insert [simp]: "mset (c_insert cmp x xs) = add_mset x (mset xs)"
  by (induction xs) auto

lemma set_c_insert [simp]: "set (c_insert cmp x xs) = insert x (set xs)"
  by (induction xs) auto

lemma mset_c_qsort: "mset (c_qsort cmp xs) = mset xs"
  by (induction xs) auto

lemma sorted_c_insert:
  "total_compare cmp \<Longrightarrow> compare_sorted cmp xs \<Longrightarrow> compare_sorted cmp (c_insert cmp x xs)"
proof (induction xs)
  case (Cons y ys)
  have "\<not> cmp x y \<le> 0 \<Longrightarrow> cmp y x \<le> 0"
    using total_compare_flip [OF Cons.prems(1), of x y] by linarith
  moreover have "cmp x y \<le> 0 \<Longrightarrow> \<forall>z \<in> set ys. cmp x z \<le> 0"
    using Cons.prems(2) total_compare_trans [OF Cons.prems(1), of x y] by (simp add: compare_sorted_def)
  moreover note Cons
  ultimately show ?case by (auto simp: compare_sorted_def)
qed (simp add: compare_sorted_def)

lemma sorted_c_qsort: "total_compare cmp \<Longrightarrow> compare_sorted cmp (c_qsort cmp xs)"
  by (induction xs) (simp_all add: sorted_c_insert, simp add: compare_sorted_def)

interpretation libc: qsort_lib c_qsort
  by unfold_locales (simp_all add: mset_c_qsort sorted_c_qsort)

section \<open>The most frequent element\<close>

definition key_count :: "('a \<Rightarrow> 'k) \<Rightarrow> 'a list \<Rightarrow> 'a \<Rightarrow> nat" where
  "key_count key xs x = length (filter (\<lambda>y. key y = key x) xs)"

lemma key_count_simps [simp]:
  "key_count key [] x = 0"
  "key_count key (xs @ ys) x = key_count key xs x + key_count key ys x"
  "key_count key (y # ys) x = (if key y = key x then Suc (key_count key ys x) else key_count key ys x)"
  by (simp_all add: key_count_def)

lemma key_count_fresh: "\<forall>y \<in> set xs. key y \<noteq> key x \<Longrightarrow> key_count key xs x = 0"
  by (simp add: key_count_def filter_empty_conv)

lemma key_count_eq: "key x = key y \<Longrightarrow> key_count key xs x = key_count key xs y"
  by (simp add: key_count_def)

text \<open>
  What the counting loop knows after the prefix \<open>pre\<close>: \<open>cur\<close> is its last element and \<open>cnt\<close> how
  often it occurs; \<open>best\<close> is the most frequent one of the other classes (none: 0).
\<close>

definition freq_inv :: "('a::zero \<Rightarrow> 'k::linorder) \<Rightarrow> 'a list \<Rightarrow> 'a \<Rightarrow> nat \<Rightarrow> 'a \<Rightarrow> nat \<Rightarrow> bool" where
  "freq_inv key pre cur cnt best best_count \<longleftrightarrow>
     cur \<in> set pre \<and> (\<forall>x \<in> set pre. key x \<le> key cur) \<and> cnt = key_count key pre cur \<and>
     (\<forall>x \<in> set pre. key x \<noteq> key cur \<longrightarrow> key_count key pre x \<le> best_count) \<and>
     (best_count = 0 \<or> (best \<in> set pre \<and> key best \<noteq> key cur \<and> best_count = key_count key pre best))"

lemma freq_inv_same:
  assumes "freq_inv key pre cur cnt best bc" "key cur = key item"
  shows "freq_inv key (pre @ [item]) cur (cnt + 1) best bc"
  using assms by (auto simp: freq_inv_def)

lemma freq_inv_next:
  assumes "freq_inv key pre cur cnt best bc" "key cur < key item"
  shows "freq_inv key (pre @ [item]) item 1 (if cnt \<ge> bc then cur else best) (max cnt bc)"
proof -
  have new: "\<forall>x \<in> set pre. key x < key item" using assms by (auto simp: freq_inv_def)
  then have "key_count key pre item = 0" by (intro key_count_fresh) auto
  moreover have "key_count key (pre @ [item]) x = key_count key pre x" if "x \<in> set pre" for x
    using new that by auto
  moreover have "key_count key pre x \<le> max cnt bc" if "x \<in> set pre" for x
    using assms(1) that key_count_eq [of key x cur pre]
    by (cases "key x = key cur") (auto simp: freq_inv_def)
  moreover have "cur \<in> set pre" "cnt = key_count key pre cur"
    "bc = 0 \<or> (best \<in> set pre \<and> bc = key_count key pre best)"
    using assms(1) by (auto simp: freq_inv_def)
  ultimately show ?thesis
    using new unfolding freq_inv_def by (cases "cnt \<ge> bc") (auto simp: less_imp_le max_absorb1 max_absorb2)
qed

lemma most_frequent_loop_inv:
  assumes "\<forall>a b. compare a b = 0 \<longleftrightarrow> key a = key b"
    and "0 \<notin> set (pre @ xs)" "sorted (map key (pre @ xs))"
    and "freq_inv key pre cur cnt best bc"
    and "most_frequent_loop compare xs cur cnt best bc = ((cur', cnt'), (best', bc'))"
  shows "freq_inv key (pre @ xs) cur' cnt' best' bc'"
  using assms
proof (induction compare xs cur cnt best bc arbitrary: pre rule: most_frequent_loop.induct)
  case (2 compare item xs cur cnt best bc)
  note inv = "2.prems"(4) and cmp = "2.prems"(1) and run = "2.prems"(5)
  have cur: "cur \<noteq> 0" "cur \<in> set pre" using inv "2.prems"(2) by (auto simp: freq_inv_def)
  have rest: "0 \<notin> set ((pre @ [item]) @ xs)" "sorted (map key ((pre @ [item]) @ xs))"
    using "2.prems"(2,3) by simp_all
  have "key cur \<le> key item" using "2.prems"(3) cur(2) by (auto simp: sorted_append)
  then have item_le: "key cur = key item \<or> key cur < key item" by auto
  consider "key cur = key item" | "key cur < key item" "cnt \<ge> bc" | "key cur < key item" "\<not> cnt \<ge> bc"
    using item_le by blast
  then show ?case
  proof cases
    case 1
    then show ?thesis
      using "2.IH"(1) [OF _ cmp rest freq_inv_same [OF inv 1]] cmp cur run by simp
  next
    case 2
    then have "max cnt bc = cnt" "compare cur item \<noteq> 0" using cmp by auto
    then show ?thesis
      using "2.IH"(2) [OF _ _ cmp rest] freq_inv_next [OF inv 2(1)] 2 cur run by simp
  next
    case 3
    then have "max cnt bc = bc" "compare cur item \<noteq> 0" using cmp by auto
    then show ?thesis
      using "2.IH"(3) [OF _ _ cmp rest] freq_inv_next [OF inv 3(1)] 3 run by simp
  qed
qed simp

lemma most_frequent_spec:
  fixes key :: "'a::zero \<Rightarrow> 'k::linorder"
  assumes cmp: "\<forall>a b. compare a b = 0 \<longleftrightarrow> key a = key b"
    and nz: "0 \<notin> set (items sl)" and sorted: "sorted (map key (items sl))" and ne: "items sl \<noteq> []"
    and res: "smartlist_get_most_frequent_cnt sl compare = (m, c)"
  shows "m \<in> set (items sl) \<and> c = key_count key (items sl) m \<and> (\<forall>x \<in> set (items sl). key_count key (items sl) x \<le> c)"
proof -
  obtain x xs where xs: "items sl = x # xs" using ne by (cases "items sl") auto
  obtain cur cnt best bc where loop: "most_frequent_loop compare xs x 1 0 0 = ((cur, cnt), (best, bc))"
    by (metis surj_pair)
  have inv: "freq_inv key ([x] @ xs) cur cnt best bc"
  proof (rule most_frequent_loop_inv [OF cmp _ _ _ loop])
    show "freq_inv key [x] x 1 0 0" by (simp add: freq_inv_def)
  qed (use nz sorted xs in simp_all)
  have "(m, c) = (if cur \<noteq> 0 \<and> cnt > bc then (cur, cnt) else (best, bc))"
    using res loop by (simp add: smartlist_get_most_frequent_cnt_def xs)
  moreover have "cur \<in> set (items sl)" "0 < cnt" "cnt = key_count key (items sl) cur"
    using inv xs by (auto simp: freq_inv_def key_count_def filter_empty_conv)
  moreover have "cur \<noteq> 0" using calculation(2) nz by auto
  moreover have "key_count key (items sl) z \<le> max cnt bc" if "z \<in> set (items sl)" for z
    using inv that xs key_count_eq [of key z cur "items sl"] by (cases "key z = key cur") (auto simp: freq_inv_def)
  moreover have "bc = 0 \<or> (best \<in> set (items sl) \<and> bc = key_count key (items sl) best)"
    using inv xs by (auto simp: freq_inv_def)
  ultimately show ?thesis by (cases "cnt > bc") auto
qed

section \<open>The order of strings\<close>

definition str_key :: "string \<Rightarrow> nat list" where
  "str_key s = map of_char s"

lemma str_key_inject [simp]: "str_key a = str_key b \<longleftrightarrow> a = b"
  by (simp add: str_key_def inj_map_eq_map inj_of_char)

lemma inj_str_key: "inj str_key"
  by (rule injI) simp

lemma os_strcmp_order: "no_nul a \<Longrightarrow> no_nul b \<Longrightarrow> os_strcmp a b < 0 \<longleftrightarrow> str_key a < str_key b"
proof (induction a b rule: os_strcmp.induct)
  case (2 b bs)
  then show ?case using of_char_bounds(1) [of b] of_char_0_iff(1) [of b] by (auto simp: str_key_def less_le)
next
  case (3 a as)
  then show ?case using of_char_bounds(1) [of a] by (auto simp: str_key_def not_less)
next
  case (4 a as b bs)
  have "(of_char a - of_char b :: int) < 0 \<longleftrightarrow> (of_char a :: nat) < of_char b"
    using of_nat_of_char [where 'a = int, of a] of_nat_of_char [where 'a = int, of b] by linarith
  moreover have "(of_char a :: nat) = of_char b \<longleftrightarrow> a = b" by (rule of_char_eq_iff)
  ultimately show ?case using 4 by (auto simp: str_key_def)
qed (simp add: str_key_def)

lemma compare_string_ptrs_key:
  assumes "\<forall>a. no_nul (str a)"
  shows "\<forall>a b. (compare_string_ptrs str a b < 0 \<longleftrightarrow> str_key (str a) < str_key (str b)) \<and>
    (compare_string_ptrs str a b = 0 \<longleftrightarrow> str_key (str a) = str_key (str b))"
  using assms by (auto simp: compare_string_ptrs_def os_strcmp_order os_strcmp_0_iff)

lemma contains_string_iff:
  "\<forall>a. no_nul (str a) \<Longrightarrow> no_nul e \<Longrightarrow> smartlist_contains_string str (Some sl) e \<longleftrightarrow> e \<in> str ` set (items sl)"
  by (auto simp: smartlist_contains_string_def list_ex_iff os_strcmp_0_iff)

section \<open>Every list the program can build is well formed\<close>

text \<open>One step is one call of a mutating operation that stays inside the array.\<close>

inductive smartlist_step :: "('a::zero) smartlist_t \<Rightarrow> 'a smartlist_t \<Rightarrow> bool" where
  step_clear: "smartlist_step sl (smartlist_clear sl)"
| step_add: "smartlist_step sl (smartlist_add sl x)"
| step_add_all: "smartlist_step sl (smartlist_add_all sl s2)"
| step_remove: "smartlist_step sl (smartlist_remove sl x)"
| step_pop: "smartlist_step sl (snd (smartlist_pop_last sl))"
| step_reverse: "smartlist_step sl (smartlist_reverse sl)"
| step_string_remove: "smartlist_step sl (fst (smartlist_string_remove str sl e))"
| step_intersect: "smartlist_step sl (smartlist_intersect sl s2)"
| step_subtract: "smartlist_step sl (smartlist_subtract sl s2)"
| step_del: "smartlist_del sl i = Val sl' \<Longrightarrow> smartlist_step sl sl'"
| step_del_keeporder: "smartlist_del_keeporder sl i = Val sl' \<Longrightarrow> smartlist_step sl sl'"
| step_insert: "smartlist_insert sl i x = Val sl' \<Longrightarrow> smartlist_step sl sl'"
| step_sort: "qsort_lib qsort \<Longrightarrow> total_compare cmp \<Longrightarrow> smartlist_step sl (smartlist_sort qsort sl cmp)"
| step_uniq: "smartlist_step sl (fst (smartlist_uniq sl cmp))"

definition smartlist_reachable :: "('a::zero) smartlist_t \<Rightarrow> bool" where
  "smartlist_reachable = smartlist_step\<^sup>*\<^sup>* smartlist_new"

lemma wf_smartlist_remove: "wf_smartlist sl \<Longrightarrow> wf_smartlist (smartlist_remove sl x)"
  by (simp add: smartlist_remove_def wf_smartlist_shorter swap_del_loop_length)

lemma wf_smartlist_swap_del:
  "wf_smartlist sl \<Longrightarrow> swap_del_loop del 0 (items sl) = (ys, gone) \<Longrightarrow> wf_smartlist (sl\<lparr>items := ys\<rparr>)"
  using swap_del_loop_length [of del "items sl"] by (simp add: wf_smartlist_shorter)

lemma wf_smartlist_subtract: "wf_smartlist sl \<Longrightarrow> wf_smartlist (fold (\<lambda>x sl. smartlist_remove sl x) ys sl)"
  by (induction ys arbitrary: sl) (simp_all add: wf_smartlist_remove)

lemma wf_smartlist_insert: "wf_smartlist sl \<Longrightarrow> smartlist_insert sl i x = Val sl' \<Longrightarrow> wf_smartlist sl'"
  using ensure_capacity_fits [of sl "num_used sl + 1"] wf_smartlist_add [of sl x]
  by (cases "i = int (num_used sl)") (auto simp: smartlist_insert_def wf_smartlist_def Let_def split: if_splits)

lemma smartlist_step_wf: "smartlist_step sl sl' \<Longrightarrow> wf_smartlist sl \<Longrightarrow> wf_smartlist sl'"
proof (induction rule: smartlist_step.induct)
  case (step_sort qsort cmp sl)
  then have "num_used (smartlist_sort qsort sl cmp) = num_used sl"
    by (metis qsort_lib.items_sort_mset size_mset)
  with step_sort show ?case
    by (auto simp: wf_smartlist_def smartlist_sort_def)
next
  case (step_uniq sl cmp)
  have "fst (smartlist_uniq sl cmp) = sl\<lparr>items := uniq_ref cmp (items sl)\<rparr>"
    using items_smartlist_uniq [of sl cmp] by (simp add: smartlist_uniq_def split: prod.splits)
  with step_uniq show ?case by (simp add: wf_smartlist_shorter length_uniq_ref)
qed (auto simp: wf_smartlist_shorter smartlist_clear_def wf_smartlist_add wf_smartlist_add_all wf_smartlist_remove
    smartlist_pop_last_def smartlist_reverse_def smartlist_string_remove_def smartlist_intersect_def
    swap_del_loop_length smartlist_subtract_def wf_smartlist_subtract smartlist_del_def smartlist_del_keeporder_def
    intro: wf_smartlist_insert wf_smartlist_swap_del split: if_splits prod.splits)

section \<open>Properties\<close>



text \<open>
  the removal loops, which fill the hole with the last element, remove exactly the elements
  they are meant to remove and no other occurrence: \<^verbatim>\<open>smartlist_remove\<close> every copy of a non-NULL
  pointer, \<^verbatim>\<open>smartlist_intersect\<close> what the second list lacks, \<^verbatim>\<open>smartlist_subtract\<close> what it has, and
  \<^verbatim>\<open>smartlist_string_remove\<close> frees exactly the equal strings.
\<close>

theorem smartlist_set_operations:
  fixes sl1 sl2 :: "('a::zero) smartlist_t"
  assumes "e \<noteq> 0" "0 \<notin> set (items sl2)"
  shows "mset (items (smartlist_remove sl1 e)) = filter_mset (\<lambda>x. x \<noteq> e) (mset (items sl1)) \<and>
    mset (items (smartlist_intersect sl1 sl2)) = filter_mset (\<lambda>x. x \<in> set (items sl2)) (mset (items sl1)) \<and>
    mset (items (smartlist_subtract sl1 sl2)) = filter_mset (\<lambda>x. x \<notin> set (items sl2)) (mset (items sl1)) \<and>
    mset (items (fst (smartlist_string_remove str sl1 s))) =
      filter_mset (\<lambda>x. os_strcmp s (str x) \<noteq> 0) (mset (items sl1)) \<and>
    mset (snd (smartlist_string_remove str sl1 s)) =
      filter_mset (\<lambda>x. os_strcmp s (str x) = 0) (mset (items sl1))"
proof -
  have "(\<lambda>x. smartlist_contains (Some sl2) x) = (\<lambda>x. x \<in> set (items sl2))"
    by (auto simp: smartlist_contains_def list_ex_iff)
  then show ?thesis
    using assms swap_del_loop_mset [of "\<lambda>x. os_strcmp s (str x) = 0" "items sl1"]
    by (cases "swap_del_loop (\<lambda>x. os_strcmp s (str x) = 0) 0 (items sl1)")
      (simp add: mset_smartlist_remove smartlist_intersect_def swap_del_loop_mset smartlist_subtract_def
        mset_smartlist_subtract smartlist_string_remove_def)
qed

theorem smartlist_set_operations_witness:
  "mset (items (smartlist_remove \<lparr>items = [3, 1, 3::nat], capacity = 16\<rparr> 3)) = {#1#}"
  using smartlist_set_operations [of "3::nat" "\<lparr>items = [1], capacity = 16\<rparr>" "\<lparr>items = [3, 1, 3], capacity = 16\<rparr>"]
  by simp

text \<open>
  \<^verbatim>\<open>smartlist_sort_strings\<close> followed by \<^verbatim>\<open>smartlist_uniq_strings\<close> leaves every string of the list
  exactly once, in strictly increasing order, frees precisely the other elements, and
  \<^verbatim>\<open>smartlist_bsearch_idx\<close> on the sorted list finds a string exactly when \<^verbatim>\<open>smartlist_contains_string\<close>
  does on the unsorted one; for every \<^verbatim>\<open>qsort\<close> that permutes and sorts.
\<close>

theorem smartlist_sort_uniq_search:
  assumes "qsort_lib qsort" "\<forall>a. no_nul (str a)"
  shows "let sl' = smartlist_sort_strings qsort str sl; (kept, freed) = smartlist_uniq_strings str sl' in
    sorted_wrt (<) (map (\<lambda>x. str_key (str x)) (items kept)) \<and> str ` set (items kept) = str ` set (items sl) \<and>
    mset (items kept) + mset freed = mset (items sl) \<and>
    (fst (smartlist_bsearch_idx sl' key (compare_string_ptrs str)) \<longleftrightarrow>
      smartlist_contains_string str (Some sl) (str key))"
proof -
  let ?c = "compare_string_ptrs str" and ?s = "smartlist_sort_strings qsort str sl"
  note k = compare_string_ptrs_key [OF assms(2)]
  have tot: "total_compare ?c" by (rule total_compareI(1) [OF k])
  have "str_key ` (str ` set (items (fst (smartlist_uniq ?s ?c)))) = str_key ` (str ` set (items sl))"
    using qsort_lib.sort_uniq(2) [OF assms(1) k, of sl]
    by (simp only: smartlist_sort_strings_def image_image)
  then have "str ` set (items (fst (smartlist_uniq ?s ?c))) = str ` set (items sl)"
    by (simp only: inj_image_eq_iff [OF inj_str_key])
  moreover have "fst (smartlist_bsearch_idx ?s key ?c) \<longleftrightarrow> smartlist_contains_string str (Some sl) (str key)"
    using qsort_lib.sort_bsearch [OF assms(1) tot, of sl key] contains_string_iff [OF assms(2), of "str key" sl] assms(2)
    by (auto simp: smartlist_sort_strings_def compare_string_ptrs_def os_strcmp_0_iff)
  moreover have "mset (items (fst (smartlist_uniq ?s ?c))) + mset (snd (smartlist_uniq ?s ?c)) = mset (items sl)"
    using freed_smartlist_uniq [of ?s ?c] qsort_lib.items_sort_mset [OF assms(1) tot, of sl]
    by (simp add: smartlist_sort_strings_def)
  ultimately show ?thesis
    using qsort_lib.sort_uniq(1) [OF assms(1) k, of sl]
    by (auto simp: smartlist_uniq_strings_def smartlist_sort_strings_def split: prod.splits)
qed

theorem smartlist_sort_uniq_search_witness:
  "let str = (\<lambda>n::nat. if n = 1 then ''wlan0'' else ''eth0'');
       sl = smartlist_sort_strings c_qsort str \<lparr>items = [1, 2, 1], capacity = 16\<rparr>
   in fst (smartlist_bsearch_idx sl 2 (compare_string_ptrs str))"
proof -
  define str where "str = (\<lambda>n::nat. if n = 1 then ''wlan0'' else ''eth0'')"
  have "\<forall>n. no_nul (str n)" by (simp add: str_def)
  note r = smartlist_sort_uniq_search [OF libc.qsort_lib_axioms this, of "\<lparr>items = [1, 2, 1], capacity = 16\<rparr>" 2]
  have "smartlist_contains_string str (Some \<lparr>items = [1, 2, 1], capacity = 16\<rparr>) (str 2)"
    by (simp add: smartlist_contains_string_def str_def)
  with r show ?thesis unfolding str_def [symmetric] by (simp add: Let_def split: prod.splits)
qed

text \<open>
  on a sorted list \<^verbatim>\<open>smartlist_get_most_frequent\<close> returns an element of a class with the most
  members and its number of members.
\<close>

theorem smartlist_most_frequent:
  fixes key :: "'a::zero \<Rightarrow> 'k::linorder"
  assumes "\<forall>a b. compare a b = 0 \<longleftrightarrow> key a = key b"
    and "0 \<notin> set (items sl)" "sorted (map key (items sl))" "items sl \<noteq> []"
    and "smartlist_get_most_frequent_cnt sl compare = (m, c)"
  shows "m \<in> set (items sl) \<and> c = key_count key (items sl) m \<and>
    (\<forall>x \<in> set (items sl). key_count key (items sl) x \<le> c)"
  by (rule most_frequent_spec [OF assms])

theorem smartlist_most_frequent_witness:
  "smartlist_get_most_frequent_cnt \<lparr>items = [1, 1, 2, 2, 2, 3::nat], capacity = 16\<rparr> compare_ptrs = (2, 3) \<and>
   key_count id [1, 1, 2, 2, 2, 3::nat] 2 = 3"
proof -
  have r: "smartlist_get_most_frequent_cnt \<lparr>items = [1, 1, 2, 2, 2, 3::nat], capacity = 16\<rparr> compare_ptrs = (2, 3)"
    by (simp add: smartlist_get_most_frequent_cnt_def compare_ptrs_def)
  from smartlist_most_frequent [of compare_ptrs id, OF _ _ _ _ r] show ?thesis
    unfolding r by (simp add: compare_ptrs_def)
qed

text \<open>
  \<^verbatim>\<open>smartlist_bsearch_idx\<close> on a list ordered by the probe returns the index of a match, or else the
  index where the key belongs: everything before it is smaller than the key, the rest is greater.
\<close>

theorem smartlist_bsearch_idx_correct:
  assumes "probe_sorted (compare key) (items sl)"
  shows "case smartlist_bsearch_idx sl key compare of
      (True, m) \<Rightarrow> 0 \<le> m \<and> m < int (num_used sl) \<and> compare key (items sl ! nat m) = 0
    | (False, m) \<Rightarrow> 0 \<le> m \<and> m \<le> int (num_used sl) \<and> (\<forall>i < nat m. compare key (items sl ! i) > 0) \<and>
        (\<forall>i. nat m \<le> i \<and> i < num_used sl \<longrightarrow> compare key (items sl ! i) < 0)"
  by (rule smartlist_bsearch_idx_spec [of compare key sl, OF assms])

theorem smartlist_bsearch_idx_correct_witness:
  "smartlist_bsearch_idx \<lparr>items = [2, 4, 6::nat], capacity = 16\<rparr> 5 compare_ptrs = (False, 2) \<and>
   compare_ptrs (5::nat) ([2, 4, 6] ! 1) > 0 \<and> compare_ptrs (5::nat) ([2, 4, 6] ! 2) < 0"
proof -
  let ?sl = "\<lparr>items = [2, 4, 6::nat], capacity = 16\<rparr>"
  have r: "smartlist_bsearch_idx ?sl 5 compare_ptrs = (False, 2)"
    by (simp add: smartlist_bsearch_idx_def bsearch_loop.simps compare_ptrs_def Let_def)
  have "probe_sorted (compare_ptrs (5::nat)) (items ?sl)"
    by (auto simp: probe_sorted_def compare_ptrs_def less_Suc_eq numeral_eq_Suc)
  from smartlist_bsearch_idx_correct [of compare_ptrs 5 ?sl, OF this] show ?thesis unfolding r
    by (auto simp: compare_ptrs_def)
qed

end
