(* ===== verification/Smartlist_Heap.thy ===== *)
theory Smartlist_Heap
  imports Smartlist
begin

text \<open>
  The priority queue of \<^verbatim>\<open>src/wpa_cli_oper/smartlist.c\<close> (\<^verbatim>\<open>smartlist_heapify\<close>, \<^verbatim>\<open>smartlist_pqueue_*\<close>):
  a binary min-heap in the array of a smartlist, in which every element carries its own index in
  a field of its structure. The index fields of all elements are the function \<open>idxf\<close> of the state.
\<close>

record 'a pqueue =
  heap :: "'a smartlist_t"
  idxf :: "'a \<Rightarrow> int"

definition LEFT_CHILD :: "nat \<Rightarrow> nat" where "LEFT_CHILD i = 2 * i + 1"
definition RIGHT_CHILD :: "nat \<Rightarrow> nat" where "RIGHT_CHILD i = 2 * i + 2"
definition PARENT :: "nat \<Rightarrow> nat" where "PARENT i = (i - 1) div 2"

type_synonym 'a hstate = "'a list \<times> ('a \<Rightarrow> int)"

definition UPDATE_IDX :: "nat \<Rightarrow> 'a hstate \<Rightarrow> 'a hstate" where
  "UPDATE_IDX i = (\<lambda>(xs, f). (xs, f(xs ! i := int i)))"

text \<open>The exchange of two slots with the update of both index fields, in the order of the source.\<close>

definition swap_slots :: "nat \<Rightarrow> nat \<Rightarrow> 'a hstate \<Rightarrow> 'a hstate" where
  "swap_slots i j = (\<lambda>(xs, f). UPDATE_IDX j (UPDATE_IDX i (xs[i := xs ! j, j := xs ! i], f)))"

lemma fst_swap_slots [simp]: "fst (swap_slots i j s) = (fst s)[i := fst s ! j, j := fst s ! i]"
  by (simp add: swap_slots_def UPDATE_IDX_def split: prod.splits)

definition best_child :: "'a compare \<Rightarrow> 'a list \<Rightarrow> nat \<Rightarrow> nat" where
  "best_child compare xs i =
     (let left = LEFT_CHILD i;
          best = (if compare (xs ! i) (xs ! left) < 0 then i else left)
      in if left + 1 < length xs \<and> compare (xs ! (left + 1)) (xs ! best) < 0 then left + 1 else best)"

function smartlist_heapify :: "'a compare \<Rightarrow> nat \<Rightarrow> 'a hstate \<Rightarrow> 'a hstate" where
  "smartlist_heapify compare i s =
     (if LEFT_CHILD i \<ge> length (fst s) then s
      else let best = best_child compare (fst s) i
        in if best = i then s else smartlist_heapify compare best (swap_slots i best s))"
  by pat_completeness auto
termination
  by (relation "measure (\<lambda>(compare, i, s). length (fst s) - i)")
    (auto simp: best_child_def LEFT_CHILD_def Let_def split: if_splits)

declare smartlist_heapify.simps [simp del]

function pqueue_sift_up :: "'a compare \<Rightarrow> nat \<Rightarrow> 'a hstate \<Rightarrow> 'a hstate" where
  "pqueue_sift_up compare i s =
     (if i = 0 then s
      else if compare (fst s ! i) (fst s ! PARENT i) < 0
      then pqueue_sift_up compare (PARENT i) (swap_slots (PARENT i) i s)
      else s)"
  by pat_completeness auto
termination by (relation "measure (\<lambda>(compare, i, s). i)") (auto simp: PARENT_def)

declare pqueue_sift_up.simps [simp del]

definition smartlist_pqueue_add :: "'a pqueue \<Rightarrow> 'a compare \<Rightarrow> 'a \<Rightarrow> 'a pqueue" where
  "smartlist_pqueue_add q compare item =
     (let sl = smartlist_add (heap q) item; n = num_used sl - 1;
          (xs, f) = pqueue_sift_up compare n (UPDATE_IDX n (items sl, idxf q))
      in \<lparr>heap = sl\<lparr>items := xs\<rparr>, idxf = f\<rparr>)"

definition smartlist_pqueue_pop :: "'a pqueue \<Rightarrow> 'a compare \<Rightarrow> ('a \<times> 'a pqueue) outcome" where
  "smartlist_pqueue_pop q compare =
     (case items (heap q) of
        [] \<Rightarrow> Undef Null_deref
      | item # rest \<Rightarrow>
          let f = (idxf q)(item := -1)
          in if rest = [] then Val (item, \<lparr>heap = (heap q)\<lparr>items := []\<rparr>, idxf = f\<rparr>)
             else let (xs, f) = smartlist_heapify compare 0 (UPDATE_IDX 0 (last rest # butlast rest, f))
               in Val (item, \<lparr>heap = (heap q)\<lparr>items := xs\<rparr>, idxf = f\<rparr>))"

text \<open>
  An item whose index field is -1 is not in the queue: the code then writes in front of the array,
  or, on an empty queue, makes \<^verbatim>\<open>num_used\<close> negative.
\<close>

definition smartlist_pqueue_remove :: "'a pqueue \<Rightarrow> 'a compare \<Rightarrow> 'a \<Rightarrow> 'a pqueue outcome" where
  "smartlist_pqueue_remove q compare item =
     (let xs = items (heap q); i = idxf q item; f = (idxf q)(item := -1)
      in if xs = [] then Undef Oob_read
         else if i = int (length xs - 1) then Val \<lparr>heap = (heap q)\<lparr>items := butlast xs\<rparr>, idxf = f\<rparr>
         else if i < 0 \<or> i \<ge> int (capacity (heap q)) then Undef Oob_write
         else let ys = butlast (xs[nat i := last xs]); f = f(last xs := i);
                  (zs, f) = smartlist_heapify compare (nat i) (ys, f)
           in Val \<lparr>heap = (heap q)\<lparr>items := zs\<rparr>, idxf = f\<rparr>)"

section \<open>Heap order and index fields\<close>

definition heap_edge :: "'a compare \<Rightarrow> 'a list \<Rightarrow> nat \<Rightarrow> bool" where
  "heap_edge cmp xs i \<longleftrightarrow> cmp (xs ! PARENT i) (xs ! i) \<le> 0"

definition is_heap :: "'a compare \<Rightarrow> 'a list \<Rightarrow> bool" where
  "is_heap cmp xs \<longleftrightarrow> (\<forall>i. 0 < i \<longrightarrow> i < length xs \<longrightarrow> heap_edge cmp xs i)"

definition idx_ok :: "'a hstate \<Rightarrow> bool" where
  "idx_ok s \<longleftrightarrow> distinct (fst s) \<and> (\<forall>i < length (fst s). snd s (fst s ! i) = int i)"

lemma PARENT_less: "0 < i \<Longrightarrow> PARENT i < i"
  by (simp add: PARENT_def)

lemma PARENT_iff: "0 < c \<Longrightarrow> PARENT c = i \<longleftrightarrow> c = LEFT_CHILD i \<or> c = RIGHT_CHILD i"
  by (auto simp: PARENT_def LEFT_CHILD_def RIGHT_CHILD_def)

lemma PARENT_LEFT [simp]: "PARENT (LEFT_CHILD i) = i"
  by (simp add: PARENT_def LEFT_CHILD_def)

lemma best_child_props:
  assumes "LEFT_CHILD i < length xs" and tot: "total_compare cmp"
  defines "b \<equiv> best_child cmp xs i"
  shows "b = i \<or> (0 < b \<and> PARENT b = i \<and> i < b)" "b < length xs"
    and "\<forall>c < length xs. 0 < c \<longrightarrow> PARENT c = i \<longrightarrow> cmp (xs ! b) (xs ! c) \<le> 0"
    and "cmp (xs ! b) (xs ! i) \<le> 0"
proof -
  have self: "cmp x x = 0" for x using total_compare_flip [OF tot, of x x] by linarith
  show "b = i \<or> (0 < b \<and> PARENT b = i \<and> i < b)" "b < length xs"
    using assms(1) by (auto simp: b_def best_child_def LEFT_CHILD_def PARENT_def Let_def)
  let ?l = "LEFT_CHILD i"
  define m where "m = (if cmp (xs ! i) (xs ! ?l) < 0 then i else ?l)"
  have m: "cmp (xs ! m) (xs ! i) \<le> 0" "cmp (xs ! m) (xs ! ?l) \<le> 0"
    using self total_compare_flip [OF tot, of "xs ! i" "xs ! ?l"] by (auto simp: m_def)
  have b: "b = (if ?l + 1 < length xs \<and> cmp (xs ! (?l + 1)) (xs ! m) < 0 then ?l + 1 else m)"
    by (simp add: b_def best_child_def m_def Let_def)
  have bm: "cmp (xs ! b) (xs ! m) \<le> 0" using self by (auto simp: b)
  then show "cmp (xs ! b) (xs ! i) \<le> 0" using m total_compare_trans [OF tot] by blast
  show "\<forall>c < length xs. 0 < c \<longrightarrow> PARENT c = i \<longrightarrow> cmp (xs ! b) (xs ! c) \<le> 0"
  proof (intro allI impI)
    fix c assume c: "c < length xs" "0 < c" "PARENT c = i"
    then consider "c = ?l" | "c = ?l + 1" by (auto simp: PARENT_iff LEFT_CHILD_def RIGHT_CHILD_def)
    then show "cmp (xs ! b) (xs ! c) \<le> 0"
    proof cases
      case 1
      then show ?thesis using bm m(2) total_compare_trans [OF tot] by blast
    next
      case 2
      then show ?thesis using c(1) self total_compare_flip [OF tot, of "xs ! (?l + 1)" "xs ! m"] by (auto simp: b)
    qed
  qed
qed

text \<open>Both loops only exchange slots: they keep the elements and the index fields.\<close>

lemma idx_ok_swap:
  "idx_ok s \<Longrightarrow> i < length (fst s) \<Longrightarrow> j < length (fst s) \<Longrightarrow> i \<noteq> j \<Longrightarrow> idx_ok (swap_slots i j s)"
  by (cases s) (auto simp: idx_ok_def swap_slots_def UPDATE_IDX_def nth_list_update nth_eq_iff_index_eq
      distinct_swap split: if_splits)

lemma mset_heapify: "mset (fst (smartlist_heapify cmp i s)) = mset (fst s)"
proof (induction cmp i s rule: smartlist_heapify.induct)
  case (1 cmp i s)
  have "best_child cmp (fst s) i < length (fst s)" if "LEFT_CHILD i < length (fst s)"
    using that by (auto simp: best_child_def LEFT_CHILD_def Let_def)
  with 1 show ?case
    by (auto simp: smartlist_heapify.simps [of cmp i s] Let_def mset_swap LEFT_CHILD_def)
qed

lemma idx_ok_heapify: "idx_ok s \<Longrightarrow> idx_ok (smartlist_heapify cmp i s)"
proof (induction cmp i s rule: smartlist_heapify.induct)
  case (1 cmp i s)
  have "best_child cmp (fst s) i < length (fst s)" if "LEFT_CHILD i < length (fst s)"
    using that by (auto simp: best_child_def LEFT_CHILD_def Let_def)
  with 1 show ?case
    by (auto simp: smartlist_heapify.simps [of cmp i s] Let_def idx_ok_swap LEFT_CHILD_def)
qed

lemma mset_sift_up: "i < length (fst s) \<Longrightarrow> mset (fst (pqueue_sift_up cmp i s)) = mset (fst s)"
proof (induction cmp i s rule: pqueue_sift_up.induct)
  case (1 cmp i s)
  then show ?case using PARENT_less [of i]
    by (auto simp: pqueue_sift_up.simps [of cmp i s] mset_swap)
qed

lemma idx_ok_sift_up: "i < length (fst s) \<Longrightarrow> idx_ok s \<Longrightarrow> idx_ok (pqueue_sift_up cmp i s)"
proof (induction cmp i s rule: pqueue_sift_up.induct)
  case (1 cmp i s)
  then show ?case using PARENT_less [of i]
    by (auto simp: pqueue_sift_up.simps [of cmp i s] idx_ok_swap)
qed

section \<open>Sifting restores the heap order\<close>

definition hole_down :: "'a compare \<Rightarrow> 'a list \<Rightarrow> nat \<Rightarrow> bool" where
  "hole_down cmp xs i \<longleftrightarrow> (\<forall>c < length xs. 0 < c \<longrightarrow>
     (if PARENT c = i then 0 < i \<longrightarrow> cmp (xs ! PARENT i) (xs ! c) \<le> 0 else heap_edge cmp xs c))"

definition hole_up :: "'a compare \<Rightarrow> 'a list \<Rightarrow> nat \<Rightarrow> bool" where
  "hole_up cmp xs i \<longleftrightarrow> (\<forall>c < length xs. 0 < c \<longrightarrow> (c \<noteq> i \<longrightarrow> heap_edge cmp xs c) \<and>
     (PARENT c = i \<longrightarrow> 0 < i \<longrightarrow> cmp (xs ! PARENT i) (xs ! c) \<le> 0))"

lemma hole_down_step:
  assumes tot: "total_compare cmp" and hole: "hole_down cmp xs i" and l: "LEFT_CHILD i < length xs"
    and b: "b = best_child cmp xs i" "b \<noteq> i"
  shows "hole_down cmp (xs[i := xs ! b, b := xs ! i]) b"
  unfolding hole_down_def
proof (intro allI impI)
  fix c assume c: "c < length (xs[i := xs ! b, b := xs ! i])" "0 < c"
  note best = best_child_props [OF l tot, folded b(1)]
  have bi: "PARENT b = i" "i < b" "b < length xs" using best(1,2) b(2) by auto
  have edge: "PARENT c \<noteq> i \<Longrightarrow> cmp (xs ! PARENT c) (xs ! c) \<le> 0"
    using hole c by (auto simp: hole_down_def heap_edge_def)
  have up: "PARENT c = i \<Longrightarrow> cmp (xs ! b) (xs ! c) \<le> 0" using best(3) c by simp
  have top: "0 < i \<Longrightarrow> cmp (xs ! PARENT i) (xs ! b) \<le> 0" using hole bi by (auto simp: hole_down_def)
  show "if PARENT c = b then 0 < b \<longrightarrow> cmp (xs[i := xs ! b, b := xs ! i] ! PARENT b) (xs[i := xs ! b, b := xs ! i] ! c) \<le> 0
      else heap_edge cmp (xs[i := xs ! b, b := xs ! i]) c"
  proof (cases "PARENT c = b")
    case True
    then have "c \<noteq> i" "c \<noteq> b" using PARENT_less [OF c(2)] bi by auto
    with True bi edge c show ?thesis by (auto simp: nth_list_update)
  next
    case False
    have "heap_edge cmp (xs[i := xs ! b, b := xs ! i]) c"
    proof (cases "c = b")
      case True
      then show ?thesis using bi best(4) c by (simp add: heap_edge_def nth_list_update)
    next
      case cb: False
      show ?thesis
      proof (cases "c = i")
        case True
        then have "PARENT c \<noteq> i" using PARENT_less [OF c(2)] by simp
        with True False cb top bi c show ?thesis by (auto simp: heap_edge_def nth_list_update)
      next
        case ci: False
        with cb False bi c up edge show ?thesis by (auto simp: heap_edge_def nth_list_update)
      qed
    qed
    with False show ?thesis by simp
  qed
qed

lemma heapify_is_heap:
  "total_compare cmp \<Longrightarrow> hole_down cmp (fst s) i \<Longrightarrow> is_heap cmp (fst (smartlist_heapify cmp i s))"
proof (induction cmp i s rule: smartlist_heapify.induct)
  case (1 cmp i s)
  note unf = smartlist_heapify.simps [of cmp i s]
  consider "LEFT_CHILD i \<ge> length (fst s)" | "LEFT_CHILD i < length (fst s)" "best_child cmp (fst s) i = i"
    | "LEFT_CHILD i < length (fst s)" "best_child cmp (fst s) i \<noteq> i" by linarith
  then show ?case
  proof cases
    case 1
    then have "\<forall>c < length (fst s). 0 < c \<longrightarrow> PARENT c \<noteq> i"
      by (auto simp: PARENT_iff LEFT_CHILD_def RIGHT_CHILD_def)
    with 1 "1.prems"(2) show ?thesis by (auto simp: unf is_heap_def hole_down_def)
  next
    case 2
    have "heap_edge cmp (fst s) c" if "c < length (fst s)" "0 < c" for c
      using best_child_props(3) [OF 2(1) "1.prems"(1)] "1.prems"(2) 2(2) that
      by (cases "PARENT c = i") (auto simp: hole_down_def heap_edge_def)
    with 2 show ?thesis by (simp add: unf is_heap_def)
  next
    case 3
    with "1.IH" [OF _ refl] hole_down_step [OF "1.prems" 3(1) refl 3(2)] "1.prems"(1) show ?thesis
      by (simp add: unf Let_def)
  qed
qed

lemma hole_up_step:
  assumes tot: "total_compare cmp" and hole: "hole_up cmp xs i" and i: "0 < i" "i < length xs"
    and lt: "cmp (xs ! i) (xs ! PARENT i) < 0"
  shows "hole_up cmp (xs[PARENT i := xs ! i, i := xs ! PARENT i]) (PARENT i)"
proof -
  let ?p = "PARENT i"
  let ?ys = "xs[?p := xs ! i, i := xs ! ?p]"
  have p: "?p < i" "?p < length xs" using PARENT_less [OF i(1)] i by auto
  have edge: "0 < c \<Longrightarrow> c < length xs \<Longrightarrow> c \<noteq> i \<Longrightarrow> cmp (xs ! PARENT c) (xs ! c) \<le> 0" for c
    using hole by (auto simp: hole_up_def heap_edge_def)
  have below: "0 < c \<Longrightarrow> c < length xs \<Longrightarrow> PARENT c = i \<Longrightarrow> cmp (xs ! ?p) (xs ! c) \<le> 0" for c
    using hole i by (auto simp: hole_up_def)
  have sib: "cmp (xs ! i) (xs ! c) \<le> 0" if "0 < c" "c < length xs" "PARENT c = ?p" "c \<noteq> i" for c
    using edge [OF that(1,2,4)] that(3) lt total_compare_trans [OF tot, of "xs ! i" "xs ! ?p" "xs ! c"] by simp
  have "heap_edge cmp ?ys c" if c: "0 < c" "c < length xs" "c \<noteq> ?p" for c
  proof -
    consider "c = i" | "c \<noteq> i" "PARENT c = i" | "c \<noteq> i" "PARENT c = ?p" | "c \<noteq> i" "PARENT c \<noteq> i" "PARENT c \<noteq> ?p" by blast
    then show ?thesis
      using c p i lt edge [of c] below [of c] sib [of c]
      by cases (auto simp: heap_edge_def nth_list_update)
  qed
  moreover have "cmp (?ys ! PARENT ?p) (?ys ! c) \<le> 0" if c: "0 < c" "c < length xs" "PARENT c = ?p" "0 < ?p" for c
  proof -
    have pp: "PARENT ?p < ?p" using PARENT_less [OF c(4)] .
    have e: "cmp (xs ! PARENT ?p) (xs ! ?p) \<le> 0" using edge [OF c(4)] p by simp
    have "c \<noteq> ?p" using PARENT_less [OF c(1)] c(3) by simp
    moreover have "c \<noteq> i \<Longrightarrow> cmp (xs ! PARENT ?p) (xs ! c) \<le> 0"
      using edge [OF c(1,2)] c(3) total_compare_trans [OF tot e] by simp
    ultimately show ?thesis using e pp p i c by (cases "c = i") (auto simp: nth_list_update)
  qed
  ultimately show ?thesis by (auto simp: hole_up_def)
qed

lemma sift_up_is_heap:
  "total_compare cmp \<Longrightarrow> hole_up cmp (fst s) i \<Longrightarrow> i < length (fst s) \<Longrightarrow>
     is_heap cmp (fst (pqueue_sift_up cmp i s))"
proof (induction cmp i s rule: pqueue_sift_up.induct)
  case (1 cmp i s)
  note unf = pqueue_sift_up.simps [of cmp i s]
  show ?case
  proof (cases "0 < i \<and> cmp (fst s ! i) (fst s ! PARENT i) < 0")
    case True
    with 1 hole_up_step [of cmp "fst s" i] PARENT_less [of i] show ?thesis by (simp add: unf)
  next
    case False
    then have "heap_edge cmp (fst s) i" if "0 < i"
      using that total_compare_flip [OF "1.prems"(1), of "fst s ! i" "fst s ! PARENT i"] by (auto simp: heap_edge_def)
    with False 1 show ?thesis by (auto simp: unf is_heap_def hole_up_def)
  qed
qed

lemma is_heap_root:
  assumes tot: "total_compare cmp" and "is_heap cmp xs"
  shows "i < length xs \<Longrightarrow> cmp (xs ! 0) (xs ! i) \<le> 0"
proof (induction i rule: less_induct)
  case (less i)
  show ?case
  proof (cases "i = 0")
    case True
    then show ?thesis using total_compare_flip(1) [OF tot, of "xs ! 0" "xs ! 0"] by force
  next
    case False
    then have "PARENT i < i" by (simp add: PARENT_less)
    with less have "cmp (xs ! 0) (xs ! PARENT i) \<le> 0" by simp
    moreover have "cmp (xs ! PARENT i) (xs ! i) \<le> 0"
      using assms(2) less.prems False by (auto simp: is_heap_def heap_edge_def)
    ultimately show ?thesis using total_compare_trans [OF tot] by blast
  qed
qed

section \<open>The contract of a priority queue\<close>

fun drain :: "('q \<Rightarrow> ('a \<times> 'q) outcome) \<Rightarrow> nat \<Rightarrow> 'q \<Rightarrow> 'a list outcome" where
  "drain pop 0 q = Val []"
| "drain pop (Suc n) q = obind (pop q) (\<lambda>(x, q'). omap (Cons x) (drain pop n q'))"

locale prio_queue =
  fixes invar :: "'q \<Rightarrow> bool" and elems :: "'q \<Rightarrow> 'a multiset"
    and add :: "'q \<Rightarrow> 'a \<Rightarrow> 'q" and pop :: "'q \<Rightarrow> ('a \<times> 'q) outcome" and le :: "'a \<Rightarrow> 'a \<Rightarrow> bool"
  assumes add_law: "invar q \<Longrightarrow> x \<notin># elems q \<Longrightarrow> invar (add q x) \<and> elems (add q x) = add_mset x (elems q)"
    and pop_law: "invar q \<Longrightarrow> elems q \<noteq> {#} \<Longrightarrow>
      \<exists>x q'. pop q = Val (x, q') \<and> invar q' \<and> elems q = add_mset x (elems q') \<and> (\<forall>y \<in># elems q. le x y)"
begin

lemma add_many:
  "invar q \<Longrightarrow> distinct xs \<Longrightarrow> \<forall>x \<in> set xs. x \<notin># elems q \<Longrightarrow>
     invar (fold (\<lambda>x q. add q x) xs q) \<and> elems (fold (\<lambda>x q. add q x) xs q) = mset xs + elems q"
proof (induction xs arbitrary: q)
  case (Cons x xs)
  then have "invar (add q x)" "elems (add q x) = add_mset x (elems q)" using add_law by auto
  moreover have "\<forall>y \<in> set xs. y \<notin># elems (add q x)" using Cons.prems calculation by auto
  ultimately show ?case using Cons.IH [of "add q x"] Cons.prems by simp
qed simp

lemma drain_sorted:
  "invar q \<Longrightarrow> size (elems q) = n \<Longrightarrow> \<exists>xs. drain pop n q = Val xs \<and> mset xs = elems q \<and> sorted_wrt le xs"
proof (induction n arbitrary: q)
  case (Suc n)
  then have "elems q \<noteq> {#}" by auto
  from pop_law [OF Suc.prems(1) this] obtain x q' where
    x: "pop q = Val (x, q')" "invar q'" "elems q = add_mset x (elems q')" "\<forall>y \<in># elems q. le x y" by blast
  with Suc obtain xs where "drain pop n q' = Val xs" "mset xs = elems q'" "sorted_wrt le xs" by fastforce
  moreover have "\<forall>y \<in> set xs. le x y" using x(3,4) \<open>mset xs = elems q'\<close> by (metis set_mset_mset union_iff add_mset_add_single)
  ultimately show ?case using x by simp
qed simp

end

text \<open>The heap meets the contract for every comparison function that is a total preorder.\<close>

definition pq_inv :: "'a compare \<Rightarrow> 'a pqueue \<Rightarrow> bool" where
  "pq_inv cmp q \<longleftrightarrow> wf_smartlist (heap q) \<and> is_heap cmp (items (heap q)) \<and> idx_ok (items (heap q), idxf q)"

definition pq_elems :: "'a pqueue \<Rightarrow> 'a multiset" where
  "pq_elems q = mset (items (heap q))"

definition pqueue_new :: "'a pqueue" where
  "pqueue_new = \<lparr>heap = smartlist_new, idxf = (\<lambda>_. -1)\<rparr>"

lemma pq_inv_new: "pq_inv cmp pqueue_new"
  using wf_smartlist_new by (simp add: pq_inv_def pqueue_new_def smartlist_new_def is_heap_def idx_ok_def)

lemma pqueue_add_ok:
  assumes tot: "total_compare cmp" and inv: "pq_inv cmp q" and new: "x \<notin># pq_elems q"
  shows "pq_inv cmp (smartlist_pqueue_add q cmp x) \<and>
    pq_elems (smartlist_pqueue_add q cmp x) = add_mset x (pq_elems q)"
proof -
  let ?n = "num_used (heap q)"
  let ?s = "UPDATE_IDX ?n (items (heap q) @ [x], idxf q)"
  let ?r = "pqueue_sift_up cmp ?n ?s"
  have s: "fst ?s = items (heap q) @ [x]" by (simp add: UPDATE_IDX_def)
  have ok: "idx_ok ?s"
    using inv new by (auto simp: pq_inv_def idx_ok_def UPDATE_IDX_def pq_elems_def nth_append less_Suc_eq)
  have "heap_edge cmp (fst ?s) c" if "0 < c" "c < ?n" for c
    using inv that PARENT_less [OF that(1)] by (auto simp: s pq_inv_def is_heap_def heap_edge_def nth_append)
  moreover have "PARENT c \<noteq> ?n" if "0 < c" "c \<le> ?n" for c using PARENT_less [OF that(1)] that by simp
  ultimately have "hole_up cmp (fst ?s) ?n" by (auto simp: s hole_up_def less_Suc_eq_le le_less)
  then have h: "is_heap cmp (fst ?r)" by (simp add: sift_up_is_heap [OF tot] s)
  have m: "mset (fst ?r) = add_mset x (mset (items (heap q)))" by (simp add: mset_sift_up s)
  then have len: "length (fst ?r) = Suc ?n" by (metis size_add_mset size_mset)
  have i: "idx_ok ?r" by (simp add: idx_ok_sift_up ok s)
  have "wf_smartlist (smartlist_add (heap q) x)" using inv by (simp add: pq_inv_def wf_smartlist_add)
  then have "wf_smartlist ((smartlist_add (heap q) x)\<lparr>items := fst ?r\<rparr>)" by (simp add: wf_smartlist_shorter len)
  with h m i show ?thesis
    by (cases ?r) (simp add: smartlist_pqueue_add_def Let_def pq_inv_def pq_elems_def)
qed

lemma pqueue_pop_ok:
  assumes tot: "total_compare cmp" and inv: "pq_inv cmp q" and ne: "pq_elems q \<noteq> {#}"
  shows "\<exists>x q'. smartlist_pqueue_pop q cmp = Val (x, q') \<and> pq_inv cmp q' \<and>
    pq_elems q = add_mset x (pq_elems q') \<and> (\<forall>y \<in># pq_elems q. cmp x y \<le> 0)"
proof -
  obtain x rest where xs: "items (heap q) = x # rest" using ne by (cases "items (heap q)") (auto simp: pq_elems_def)
  have min: "\<forall>y \<in># pq_elems q. cmp x y \<le> 0"
  proof
    fix y assume "y \<in># pq_elems q"
    then obtain i where "i < length (x # rest)" "y = (x # rest) ! i"
      by (metis in_set_conv_nth pq_elems_def set_mset_mset xs)
    then show "cmp x y \<le> 0" using is_heap_root [OF tot, of "x # rest" i] inv xs by (simp add: pq_inv_def)
  qed
  show ?thesis
  proof (cases "rest = []")
    case True
    then show ?thesis using inv min xs
      by (auto simp: smartlist_pqueue_pop_def pq_inv_def pq_elems_def is_heap_def idx_ok_def wf_smartlist_shorter)
  next
    case False
    let ?s = "UPDATE_IDX 0 (last rest # butlast rest, (idxf q)(x := -1))"
    let ?r = "smartlist_heapify cmp 0 ?s"
    have s: "fst ?s = last rest # butlast rest" by (simp add: UPDATE_IDX_def)
    have perm: "mset (last rest # butlast rest) = mset rest"
      using arg_cong [OF append_butlast_last_id [OF False], of mset] by simp
    have nth: "fst ?s ! i = items (heap q) ! i" if "0 < i" "i < length rest" for i
      using that by (cases i) (simp_all add: s xs nth_butlast)
    have old: "distinct (x # rest)" "\<And>i. i < Suc (length rest) \<Longrightarrow> idxf q ((x # rest) ! i) = int i"
      using inv xs by (auto simp: pq_inv_def idx_ok_def)
    have "distinct (last rest # butlast rest)" using old(1) perm by (metis distinct.simps(2) mset_eq_imp_distinct_iff)
    moreover have "idxf q (fst ?s ! i) = int i \<and> fst ?s ! i \<noteq> x" if "0 < i" "i < length rest" for i
      using old(1) old(2) [of i] that nth [OF that] xs by (cases i) auto
    ultimately have ok: "idx_ok ?s"
      using False unfolding idx_ok_def s by (auto simp: UPDATE_IDX_def nth_Cons' in_set_conv_nth)
    have "heap_edge cmp (fst ?s) c" if "0 < PARENT c" "c < length rest" for c
    proof -
      have "0 < c" using that(1) by (cases c) (auto simp: PARENT_def)
      moreover have "heap_edge cmp (items (heap q)) c"
        using inv that \<open>0 < c\<close> by (simp add: pq_inv_def is_heap_def xs)
      ultimately show ?thesis
        using that PARENT_less [of c] nth [of c] nth [of "PARENT c"] by (simp add: heap_edge_def)
    qed
    then have "hole_down cmp (fst ?s) 0" using False by (auto simp: hole_down_def s)
    then have h: "is_heap cmp (fst ?r)" by (rule heapify_is_heap [OF tot])
    have m: "mset (fst ?r) = mset rest" using perm by (simp add: mset_heapify s)
    then have "length (fst ?r) = length rest" by (metis size_mset)
    then have "wf_smartlist ((heap q)\<lparr>items := fst ?r\<rparr>)" using inv xs by (simp add: pq_inv_def wf_smartlist_shorter)
    with h m idx_ok_heapify [OF ok, of cmp 0] min False xs show ?thesis
      by (cases ?r) (simp add: smartlist_pqueue_pop_def pq_inv_def pq_elems_def Let_def)
  qed
qed

locale total_order_fn =
  fixes cmp :: "'a compare"
  assumes total: "total_compare cmp"

sublocale total_order_fn \<subseteq> pq: prio_queue "pq_inv cmp" pq_elems "\<lambda>q x. smartlist_pqueue_add q cmp x"
  "\<lambda>q. smartlist_pqueue_pop q cmp" "\<lambda>x y. cmp x y \<le> 0"
  by unfold_locales (simp_all add: pqueue_add_ok [OF total] pqueue_pop_ok [OF total])

context total_order_fn begin

lemma heap_sorts:
  assumes "distinct xs"
  defines "q \<equiv> fold (\<lambda>x q. smartlist_pqueue_add q cmp x) xs pqueue_new"
  shows "pq_inv cmp q" "\<exists>ys. drain (\<lambda>q. smartlist_pqueue_pop q cmp) (length xs) q = Val ys \<and>
    mset ys = mset xs \<and> sorted_wrt (\<lambda>a b. cmp a b \<le> 0) ys"
proof -
  have e: "pq_elems (pqueue_new :: 'a pqueue) = {#}" by (simp add: pq_elems_def pqueue_new_def smartlist_new_def)
  then have "\<forall>x \<in> set xs. x \<notin># pq_elems pqueue_new" by simp
  from pq.add_many [OF pq_inv_new assms(1) this] e have q: "pq_inv cmp q" "pq_elems q = mset xs"
    by (simp_all add: q_def)
  from pq.drain_sorted [OF q(1), of "length xs"] q
  show "pq_inv cmp q" "\<exists>ys. drain (\<lambda>q. smartlist_pqueue_pop q cmp) (length xs) q = Val ys \<and>
    mset ys = mset xs \<and> sorted_wrt (\<lambda>a b. cmp a b \<le> 0) ys"
    by auto
qed

end

lemma total_compare_ptrs: "total_compare (compare_ptrs :: ('a::linorder) compare)"
  by (rule total_compareI(1) [where key = "\<lambda>x. x"]) (auto simp: compare_ptrs_def)

interpretation ptrs: total_order_fn "compare_ptrs :: ('a::linorder) compare"
  by unfold_locales (rule total_compare_ptrs)

section \<open>Properties\<close>



definition remove_breaks :: "nat pqueue" where
  "remove_breaks = fold (\<lambda>x q. smartlist_pqueue_add q compare_ptrs x) [0, 10, 1, 11, 12, 2, 3] pqueue_new"

text \<open>
  \<^verbatim>\<open>smartlist_pqueue_remove\<close> only sifts downwards, so removing an item can leave the element
  moved into its slot above a greater parent: the queue is then no longer a heap.
\<close>

theorem smartlist_pqueue_remove_breaks_heap:
  "is_heap compare_ptrs (items (heap remove_breaks)) \<and>
   (\<exists>q. smartlist_pqueue_remove remove_breaks compare_ptrs 11 = Val q \<and>
        items (heap q) = [0, 10, 1, 3, 12, 2] \<and> \<not> is_heap compare_ptrs (items (heap q)))"
proof -
  have q: "items (heap remove_breaks) = [0, 10, 1, 11, 12, 2, 3]" "idxf remove_breaks 11 = 3"
    "capacity (heap remove_breaks) = 16"
    by (simp_all add: remove_breaks_def pqueue_new_def smartlist_pqueue_add_def smartlist_new_def Let_def
        smartlist_add_def smartlist_ensure_capacity_def SMARTLIST_DEFAULT_CAPACITY_def pqueue_sift_up.simps UPDATE_IDX_def PARENT_def compare_ptrs_def
        swap_slots_def)
  have "PARENT 1 = 0" "PARENT 2 = 0" "PARENT 3 = 1" "PARENT 4 = 1" "PARENT 5 = 2" "PARENT 6 = 2"
    by (simp_all add: PARENT_def)
  then have "is_heap compare_ptrs [0, 10, 1, 11, 12, 2, 3::nat]"
    by (auto simp: is_heap_def heap_edge_def compare_ptrs_def less_Suc_eq numeral_eq_Suc)
  moreover have "\<not> heap_edge compare_ptrs [0, 10, 1, 3, 12, 2::nat] 3"
    by (simp add: heap_edge_def PARENT_def compare_ptrs_def)
  then have "\<not> is_heap compare_ptrs [0, 10, 1, 3, 12, 2::nat]" unfolding is_heap_def by force
  ultimately show ?thesis using q
    by (simp add: smartlist_pqueue_remove_def Let_def smartlist_heapify.simps LEFT_CHILD_def)
qed

end
