(* ===== verification/Smartlist_Text.thy ===== *)
theory Smartlist_Text
  imports Smartlist Compat Bitarray
begin

text \<open>
  Splitting and joining of strings in \<^verbatim>\<open>src/wpa_cli_oper/smartlist.c\<close>. The pointers \<open>cp\<close>, \<open>end\<close> and
  \<open>next\<close> of the splitting loop are the rest of the string from there. The strings the loop allocates
  are the elements of the resulting list.
\<close>

definition SPLIT_SKIP_SPACE :: int where "SPLIT_SKIP_SPACE = 1"
definition SPLIT_IGNORE_BLANK :: int where "SPLIT_IGNORE_BLANK = 2"
definition SPLIT_STRIP_SPACE :: int where "SPLIT_STRIP_SPACE = 4"

definition has_flag :: "int \<Rightarrow> int \<Rightarrow> bool" where
  "has_flag flags f \<longleftrightarrow> flags AND f \<noteq> 0"

definition split_end :: "string option \<Rightarrow> int \<Rightarrow> int \<Rightarrow> string \<Rightarrow> string" where
  "split_end sep maxn n cp =
     (if maxn > 0 \<and> n = maxn - 1 then []
      else case sep of
          Some sp \<Rightarrow> (case os_strstr cp sp of None \<Rightarrow> [] | Some r \<Rightarrow> r)
        | None \<Rightarrow> dropWhile (\<lambda>c. c \<noteq> TAB \<and> c \<noteq> CHR '' '') cp)"

definition split_next :: "string option \<Rightarrow> string \<Rightarrow> string option" where
  "split_next sep endp =
     (if endp = [] then None
      else case sep of
          Some sp \<Rightarrow> Some (drop (length sp) endp)
        | None \<Rightarrow> Some (dropWhile (\<lambda>c. c = TAB \<or> c = CHR '' '') (tl endp)))"

definition strip_trailing :: "string \<Rightarrow> string" where
  "strip_trailing s = rev (dropWhile SMP_ISSPACE (rev s))"

text \<open>
  The loop \<open>while (1)\<close>; \<open>fuel\<close> bounds its iterations. An empty separator never advances, so the
  loop can run forever.
\<close>

fun smartlist_split_loop ::
  "nat \<Rightarrow> string smartlist_t \<Rightarrow> string \<Rightarrow> string option \<Rightarrow> int \<Rightarrow> int \<Rightarrow> int \<Rightarrow> (int \<times> string smartlist_t) outcome" where
  "smartlist_split_loop 0 sl cp sep flags maxn n = Loops"
| "smartlist_split_loop (Suc fuel) sl cp sep flags maxn n =
     (let cp = (if has_flag flags SPLIT_SKIP_SPACE then dropWhile SMP_ISSPACE cp else cp);
          endp = split_end sep maxn n cp;
          nextp = split_next sep endp;
          item = take (length cp - length endp) cp;
          item = (if has_flag flags SPLIT_SKIP_SPACE then strip_trailing item else item);
          (sl, n) =
            (if item \<noteq> [] \<or> \<not> has_flag flags SPLIT_IGNORE_BLANK
             then let str = cstr_of (smp_strndup cp (length item));
                      str = (if has_flag flags SPLIT_SKIP_SPACE then smp_strstrip str '' '' else str)
               in (smartlist_add sl str, n + 1)
             else (sl, n))
      in case nextp of None \<Rightarrow> Val (n, sl) | Some cp \<Rightarrow> smartlist_split_loop fuel sl cp sep flags maxn n)"

definition smartlist_split_string ::
  "string smartlist_t \<Rightarrow> string \<Rightarrow> string option \<Rightarrow> int \<Rightarrow> int \<Rightarrow> (int \<times> string smartlist_t) outcome" where
  "smartlist_split_string sl str sep flags maxn =
     smartlist_split_loop (length str + nat maxn + 2) sl str sep flags maxn 0"

definition join_size :: "string list \<Rightarrow> nat \<Rightarrow> bool \<Rightarrow> nat" where
  "join_size xs join_len terminate =
     (if terminate then join_len else 0) + sum_list (map length xs) + (length xs - 1) * join_len"

fun join_loop :: "string list \<Rightarrow> string \<Rightarrow> string" where
  "join_loop [] join = []"
| "join_loop [x] join = x"
| "join_loop (x # y # xs) join = x @ join @ join_loop (y # xs) join"

text \<open>
  The result is the allocated buffer and the length stored through \<open>len_out\<close>. The separator is the
  first \<open>join_len\<close> bytes at \<open>join\<close>; writing more than the size computed first is undefined.
\<close>

definition smartlist_join_strings2 :: "string smartlist_t \<Rightarrow> cbuf \<Rightarrow> nat \<Rightarrow> bool \<Rightarrow> (cbuf \<times> nat) outcome" where
  "smartlist_join_strings2 sl join join_len terminate =
     (if length join < join_len then Undef Oob_read
      else let n = join_size (items sl) join_len terminate;
               dst = join_loop (items sl) (take join_len join) @ (if terminate then take join_len join else [])
        in if length dst > n then Undef Oob_write
           else Val (memwrite (replicate (n + 1) NUL) (dst @ [NUL]), length dst))"

definition smartlist_join_strings :: "string smartlist_t \<Rightarrow> string \<Rightarrow> bool \<Rightarrow> (cbuf \<times> nat) outcome" where
  "smartlist_join_strings sl join terminate = smartlist_join_strings2 sl join (length join) terminate"

section \<open>Joining\<close>

lemma length_join_loop: "length (join_loop xs j) = sum_list (map length xs) + (length xs - 1) * length j"
  by (induction xs j rule: join_loop.induct) auto

lemma no_nul_join_loop: "no_nul j \<Longrightarrow> \<forall>x \<in> set xs. no_nul x \<Longrightarrow> no_nul (join_loop xs j)"
  by (induction xs j rule: join_loop.induct) auto

lemma join_strings_val:
  assumes "no_nul join" "\<forall>x \<in> set (items sl). no_nul x"
  shows "\<exists>b. smartlist_join_strings sl join terminate = Val (b, length b - 1) \<and>
    cstr_of b = join_loop (items sl) join @ (if terminate then join else []) \<and>
    length b = length (cstr_of b) + 1"
proof -
  let ?t = "join_loop (items sl) join @ (if terminate then join else [])"
  have "smartlist_join_strings sl join terminate = Val (?t @ [NUL], length ?t)"
    unfolding smartlist_join_strings_def smartlist_join_strings2_def Let_def memwrite_def
    by (cases terminate) (simp_all add: length_join_loop join_size_def)
  moreover have "no_nul ?t" using assms no_nul_join_loop [OF assms] by simp
  then have "cstr_of (?t @ [NUL]) = ?t" by (rule cstr_of_append_NUL)
  ultimately show ?thesis by (metis add_diff_cancel_right' length_append_singleton Suc_eq_plus1)
qed

section \<open>Splitting without flags\<close>

text \<open>The reference: cut at every leftmost occurrence of the separator.\<close>

function split_ref :: "string \<Rightarrow> string \<Rightarrow> string list" where
  "split_ref sp s =
     (case os_strstr s sp of
        None \<Rightarrow> [s]
      | Some r \<Rightarrow> if r = [] \<or> sp = [] then [s] else take (length s - length r) s # split_ref sp (drop (length sp) r))"
  by pat_completeness auto
termination
proof (relation "measure (\<lambda>(sp, s). length s)")
  fix sp s r assume "os_strstr s sp = Some r" "\<not> (r = [] \<or> sp = [])"
  then show "((sp, drop (length sp) r), (sp, s)) \<in> measure (\<lambda>(sp, s). length s)"
    by (cases sp; cases r) (auto dest!: os_strstr_Some)
qed simp

declare split_ref.simps [simp del]

lemma split_ref_step:
  "os_strstr (p @ r) sp = Some r \<Longrightarrow> r \<noteq> [] \<Longrightarrow> sp \<noteq> [] \<Longrightarrow>
     split_ref sp (p @ r) = p # split_ref sp (drop (length sp) r)"
  by (subst split_ref.simps) simp

lemma has_flag_0 [simp]: "\<not> has_flag 0 f"
  by (simp add: has_flag_def)

lemma split_loop_ref:
  "no_nul cp \<Longrightarrow> sp \<noteq> [] \<Longrightarrow> length cp < fuel \<Longrightarrow>
   \<exists>sl'. smartlist_split_loop fuel sl cp (Some sp) 0 0 n = Val (n + int (length (split_ref sp cp)), sl') \<and>
     items sl' = items sl @ split_ref sp cp"
proof (induction fuel arbitrary: sl cp n)
  case (Suc fuel)
  show ?case
  proof (cases "os_strstr cp sp")
    case None
    with Suc.prems show ?thesis
      by (simp add: split_end_def split_next_def split_ref.simps [of sp cp] cstr_smp_strndup)
  next
    case (Some r)
    then obtain p where p: "cp = p @ r" "is_prefix sp r" by (auto dest: os_strstr_Some)
    with Suc.prems have r: "r \<noteq> []" by (cases sp; cases r) auto
    let ?sl = "smartlist_add sl p"
    have "no_nul (drop (length sp) r)" "length (drop (length sp) r) < fuel"
      using Suc.prems p r by (auto simp: neq_Nil_conv)
    from Suc.IH [OF this(1) Suc.prems(2) this(2), of ?sl "n + 1"] obtain sl' where
      "smartlist_split_loop fuel ?sl (drop (length sp) r) (Some sp) 0 0 (n + 1) =
         Val (n + 1 + int (length (split_ref sp (drop (length sp) r))), sl')"
      "items sl' = items sl @ p # split_ref sp (drop (length sp) r)" by auto
    with Some p r Suc.prems show ?thesis
      by (simp add: split_end_def split_next_def split_ref_step cstr_smp_strndup)
  qed
qed simp

lemma join_split_ref: "join_loop (split_ref sp s) sp = s"
proof (induction sp s rule: split_ref.induct)
  case (1 sp s)
  show ?case
  proof (cases "\<exists>r. os_strstr s sp = Some r \<and> r \<noteq> [] \<and> sp \<noteq> []")
    case True
    then obtain r p where r: "os_strstr s sp = Some r" "r \<noteq> []" "sp \<noteq> []" "s = p @ r" "is_prefix sp r"
      using os_strstr_Some by blast
    then obtain t where t: "r = sp @ t" by (auto simp: is_prefix_iff)
    have ne: "split_ref sp t \<noteq> []" by (subst split_ref.simps) (auto split: option.splits)
    have "join_loop (split_ref sp t) sp = t" using 1 r t by simp
    with ne have "join_loop (p # split_ref sp t) sp = s"
      using r t by (cases "split_ref sp t") auto
    moreover have "split_ref sp s = p # split_ref sp t"
      using split_ref_step [of p r sp] r t by simp
    ultimately show ?thesis by simp
  next
    case False
    then show ?thesis by (auto simp: split_ref.simps [of sp s] split: option.splits)
  qed
qed

lemma split_ref_no_sep: "os_strstr s sp = None \<Longrightarrow> split_ref sp s = [s]"
  by (simp add: split_ref.simps)

lemma strstr_char_append: "c \<notin> set x \<Longrightarrow> os_strstr (x @ c # t) [c] = Some (c # t)"
  by (induction x) auto

lemma strstr_char_None: "c \<notin> set x \<Longrightarrow> os_strstr x [c] = None"
  by (induction x) auto

lemma split_ref_join: "xs \<noteq> [] \<Longrightarrow> \<forall>x \<in> set xs. c \<notin> set x \<Longrightarrow> split_ref [c] (join_loop xs [c]) = xs"
proof (induction xs "[c]" rule: join_loop.induct)
  case (3 x y xs)
  then have "split_ref [c] (x @ c # join_loop (y # xs) [c]) = x # split_ref [c] (join_loop (y # xs) [c])"
    by (subst split_ref.simps) (simp add: strstr_char_append)
  with 3 show ?case by simp
qed (simp_all add: split_ref_no_sep strstr_char_None)

section \<open>Properties\<close>



text \<open>
  the converse: fields without the separator character, joined with it, are what splitting
  returns.
\<close>

theorem smartlist_join_split:
  assumes "\<forall>x \<in> set (items sl). no_nul x \<and> c \<notin> set x" "items sl \<noteq> []" "c \<noteq> NUL" "items sl0 = []"
  shows "\<exists>b sl'. smartlist_join_strings sl [c] False = Val (b, length b - 1) \<and>
    smartlist_split_string sl0 (cstr_of b) (Some [c]) 0 0 = Val (int (num_used sl), sl') \<and> items sl' = items sl"
proof -
  from join_strings_val [of "[c]" sl False] assms obtain b where
    b: "smartlist_join_strings sl [c] False = Val (b, length b - 1)" "cstr_of b = join_loop (items sl) [c]" by auto
  have "no_nul (cstr_of b)" by simp
  from split_loop_ref [OF this, of "[c]" "length (cstr_of b) + 2" sl0 0] b assms split_ref_join [of "items sl" c]
  show ?thesis by (auto simp: smartlist_split_string_def)
qed

theorem smartlist_join_split_witness:
  "\<exists>b sl'. smartlist_join_strings \<lparr>items = [''wlan0'', '''', ''p2p''], capacity = 16\<rparr> [NL] False = Val (b, length b - 1) \<and>
    smartlist_split_string smartlist_new (cstr_of b) (Some [NL]) 0 0 = Val (3, sl') \<and> items sl' = [''wlan0'', '''', ''p2p'']"
  using smartlist_join_split [of "\<lparr>items = [''wlan0'', '''', ''p2p''], capacity = 16\<rparr>" NL smartlist_new]
  by (simp add: smartlist_new_def)

text \<open>
  with an empty separator and no limit the loop never ends on a non-empty string, however many
  iterations it is granted.
\<close>

theorem smartlist_split_empty_separator:
  assumes "cp \<noteq> []"
  shows "smartlist_split_loop fuel sl cp (Some []) 0 0 n = Loops"
proof (induction fuel arbitrary: sl n)
  case (Suc fuel)
  have "os_strstr cp [] = Some cp" by (cases cp) auto
  with Suc assms show ?case by (simp add: split_end_def split_next_def)
qed simp

theorem smartlist_split_empty_separator_witness:
  "smartlist_split_string smartlist_new ''ab'' (Some []) 0 0 = Loops"
  using smartlist_split_empty_separator [of "''ab''" 4 smartlist_new 0]
  by (simp add: smartlist_split_string_def numeral_eq_Suc del: smartlist_split_loop.simps)

text \<open>
  with \<^verbatim>\<open>SPLIT_SKIP_SPACE\<close> alone the spaces inside a field are removed too, although only
  \<^verbatim>\<open>SPLIT_STRIP_SPACE\<close>, which the code never tests, asks for that.
\<close>

theorem smartlist_split_strips_inner_spaces:
  "omap (\<lambda>(n, sl). (n, items sl)) (smartlist_split_string smartlist_new ''My Home Net: x'' (Some '':'') SPLIT_SKIP_SPACE 0)
     = Val (2, [''MyHomeNet'', ''x''])"
  by code_simp

end
