(* ===== verification/Hex_Utils.thy ===== *)
theory Hex_Utils
  imports Wpa_Prelude
begin

text \<open>
  The text conversions of \<^verbatim>\<open>src/utils/common.c\<close>: hexadecimal numbers, hardware addresses, printable
  encodings of byte strings and quoted configuration strings. Bytes (\<^verbatim>\<open>u8\<close>) are characters, so that a
  byte array and the text it is read from have the same type. A pointer into a text is the rest of the
  text; what a failing conversion has already stored through its output argument is part of the result.
\<close>

definition at0 :: "string \<Rightarrow> char" where
  "at0 s = (case s of [] \<Rightarrow> NUL | c # _ \<Rightarrow> c)"

lemma at0_simps [simp]: "at0 [] = NUL" "at0 (c # s) = c"
  by (simp_all add: at0_def)

definition ETH_ALEN :: nat where "ETH_ALEN = 6"

definition hex2num :: "char \<Rightarrow> int" where
  "hex2num c = (let n = of_char c :: int in
     if 48 \<le> n \<and> n \<le> 57 then n - 48
     else if 97 \<le> n \<and> n \<le> 102 then n - 97 + 10
     else if 65 \<le> n \<and> n \<le> 70 then n - 65 + 10
     else -1)"

definition hex2byte :: "string \<Rightarrow> int" where
  "hex2byte hex =
     (let a = hex2num (at0 hex)
      in if a < 0 then -1
         else let b = hex2num (at0 (tl hex))
           in if b < 0 then -1 else push_bit 4 a OR b)"

definition u8 :: "int \<Rightarrow> char" where
  "u8 i = char_of (nat (i mod 256))"

section \<open>Hardware addresses\<close>

text \<open>The bytes stored and, on success, the rest of the text behind the address.\<close>

fun hwaddr_parse_loop :: "nat \<Rightarrow> string \<Rightarrow> char list \<times> string option" where
  "hwaddr_parse_loop 0 txt = ([], Some txt)"
| "hwaddr_parse_loop (Suc left) txt =
     (let a = hex2byte txt
      in if a < 0 then ([], None)
         else let txt = drop 2 txt
           in if left > 0 \<and> at0 txt \<noteq> CHR '':'' then ([u8 a], None)
              else let (bs, r) = hwaddr_parse_loop left (if left > 0 then tl txt else txt)
                in (u8 a # bs, r))"

definition hwaddr_parse :: "string \<Rightarrow> char list \<times> string option" where
  "hwaddr_parse txt = hwaddr_parse_loop ETH_ALEN txt"

definition hwaddr_aton :: "string \<Rightarrow> cbuf \<Rightarrow> int \<times> cbuf" where
  "hwaddr_aton txt addr =
     (case hwaddr_parse txt of (bs, r) \<Rightarrow> (if r = None then -1 else 0, memwrite addr bs))"

definition hwaddr_masked_aton :: "string \<Rightarrow> cbuf \<Rightarrow> cbuf \<Rightarrow> bool \<Rightarrow> int \<times> cbuf \<times> cbuf" where
  "hwaddr_masked_aton txt addr msk maskable =
     (case hwaddr_parse txt of
        (bs, None) \<Rightarrow> (-1, memwrite addr bs, msk)
      | (bs, Some r) \<Rightarrow>
          let addr = memwrite addr bs
          in if r = [] \<or> c_isspace (at0 r) then (0, addr, memwrite msk (replicate ETH_ALEN (u8 255)))
             else if maskable \<and> at0 r = CHR ''/'' then
               (case hwaddr_parse (tl r) of
                  (ms, None) \<Rightarrow> (-1, addr, memwrite msk ms)
                | (ms, Some _) \<Rightarrow> (0, addr, memwrite msk ms))
             else (-1, addr, msk))"

fun hwaddr_compact_loop :: "nat \<Rightarrow> string \<Rightarrow> char list \<times> bool" where
  "hwaddr_compact_loop 0 txt = ([], True)"
| "hwaddr_compact_loop (Suc n) txt =
     (let a = hex2num (at0 txt)
      in if a < 0 then ([], False)
         else let b = hex2num (at0 (tl txt))
           in if b < 0 then ([], False)
              else let (bs, ok) = hwaddr_compact_loop n (drop 2 txt) in (u8 (push_bit 4 a OR b) # bs, ok))"

definition hwaddr_compact_aton :: "string \<Rightarrow> cbuf \<Rightarrow> int \<times> cbuf" where
  "hwaddr_compact_aton txt addr =
     (case hwaddr_compact_loop 6 txt of (bs, ok) \<Rightarrow> (if ok then 0 else -1, memwrite addr bs))"

fun hwaddr_aton2_loop :: "nat \<Rightarrow> string \<Rightarrow> char list \<times> string option" where
  "hwaddr_aton2_loop 0 pos = ([], Some pos)"
| "hwaddr_aton2_loop (Suc n) pos =
     (let pos = dropWhile (\<lambda>c. c = CHR '':'' \<or> c = CHR ''.'' \<or> c = CHR ''-'') pos;
          a = hex2num (at0 pos)
      in if a < 0 then ([], None)
         else let b = hex2num (at0 (tl pos))
           in if b < 0 then ([], None)
              else let (bs, r) = hwaddr_aton2_loop n (drop 2 pos) in (u8 (push_bit 4 a OR b) # bs, r))"

definition hwaddr_aton2 :: "string \<Rightarrow> cbuf \<Rightarrow> int \<times> cbuf" where
  "hwaddr_aton2 txt addr =
     (case hwaddr_aton2_loop 6 txt of
        (bs, None) \<Rightarrow> (-1, memwrite addr bs)
      | (bs, Some r) \<Rightarrow> (int (length txt - length r), memwrite addr bs))"

fun macstr_loop :: "char list \<Rightarrow> string" where
  "macstr_loop [] = []"
| "macstr_loop [b] = hex02 (of_char b)"
| "macstr_loop (b # bs) = hex02 (of_char b) @ '':'' @ macstr_loop bs"

definition MACSTR :: "char list \<Rightarrow> string" where
  "MACSTR addr = macstr_loop (take ETH_ALEN addr)"

definition hwaddr_mask_txt :: "nat \<Rightarrow> char list \<Rightarrow> char list \<Rightarrow> int \<times> string" where
  "hwaddr_mask_txt len addr msk =
     (let print_mask = list_ex (\<lambda>i. msk ! i \<noteq> u8 255) [0..<ETH_ALEN];
          (s, res) = os_snprintf len (if print_mask then MACSTR addr @ ''/'' @ MACSTR msk else MACSTR addr)
      in (if os_snprintf_error len res then -1 else res, s))"

section \<open>Hexadecimal strings\<close>

fun hexstr2bin_loop :: "nat \<Rightarrow> string \<Rightarrow> char list \<times> bool" where
  "hexstr2bin_loop 0 ipos = ([], True)"
| "hexstr2bin_loop (Suc n) ipos =
     (let a = hex2byte ipos
      in if a < 0 then ([], False)
         else let (bs, ok) = hexstr2bin_loop n (drop 2 ipos) in (u8 a # bs, ok))"

definition hexstr2bin :: "string \<Rightarrow> cbuf \<Rightarrow> nat \<Rightarrow> int \<times> cbuf" where
  "hexstr2bin hex buf len =
     (case hexstr2bin_loop len hex of (bs, ok) \<Rightarrow> (if ok then 0 else -1, memwrite buf bs))"

definition hexdig_upper :: "nat \<Rightarrow> char" where
  "hexdig_upper n = (if n < 10 then char_of (48 + n) else char_of (55 + n))"

definition hex_pair :: "bool \<Rightarrow> nat \<Rightarrow> string" where
  "hex_pair uppercase n = (if uppercase then [hexdig_upper (n div 16), hexdig_upper (n mod 16)] else hex02 n)"

text \<open>
  The loops over \<open>data\<close> write at offset \<open>pos\<close>. The result is the return value and the buffer. A pair
  that does not fit is stored as far as it fits, and the last byte of the buffer becomes NUL.
\<close>

definition put_at :: "cbuf \<Rightarrow> nat \<Rightarrow> string \<Rightarrow> cbuf" where
  "put_at buf pos s = take pos buf @ memwrite (drop pos buf) s"

fun snprintf_hex_loop :: "cbuf \<Rightarrow> nat \<Rightarrow> (char \<Rightarrow> string) \<Rightarrow> char list \<Rightarrow> nat \<times> cbuf \<times> bool" where
  "snprintf_hex_loop buf pos fmt [] = (pos, buf, True)"
| "snprintf_hex_loop buf pos fmt (d # data) =
     (let room = length buf - pos; (s, ret) = os_snprintf room (fmt d);
          buf = (if room = 0 then buf else put_at buf pos (s @ [NUL]))
      in if os_snprintf_error room ret then (pos, buf[length buf - 1 := NUL], False)
         else snprintf_hex_loop buf (pos + nat ret) fmt data)"

definition wpa_snprintf_hex_gen :: "cbuf \<Rightarrow> char list \<Rightarrow> bool \<Rightarrow> nat \<times> cbuf" where
  "wpa_snprintf_hex_gen buf data uppercase =
     (if buf = [] then (0, buf)
      else case snprintf_hex_loop buf 0 (\<lambda>d. hex_pair uppercase (of_char d)) data of
          (n, buf, ok) \<Rightarrow> (n, buf[length buf - 1 := NUL]))"

definition wpa_snprintf_hex :: "cbuf \<Rightarrow> char list \<Rightarrow> nat \<times> cbuf" where
  "wpa_snprintf_hex buf data = wpa_snprintf_hex_gen buf data False"

definition wpa_snprintf_hex_uppercase :: "cbuf \<Rightarrow> char list \<Rightarrow> nat \<times> cbuf" where
  "wpa_snprintf_hex_uppercase buf data = wpa_snprintf_hex_gen buf data True"

text \<open>With no data the separator variant writes in front of the buffer.\<close>

definition wpa_snprintf_hex_sep :: "cbuf \<Rightarrow> char list \<Rightarrow> char \<Rightarrow> (nat \<times> cbuf) outcome" where
  "wpa_snprintf_hex_sep buf data sep =
     (if buf = [] then Val (0, buf)
      else case snprintf_hex_loop buf 0 (\<lambda>d. hex02 (of_char d) @ [sep]) data of
          (n, buf, False) \<Rightarrow> Val (n, buf)
        | (n, buf, True) \<Rightarrow> if n = 0 then Undef Oob_write else Val (n, buf[n - 1 := NUL]))"

section \<open>Printable encodings\<close>

abbreviation ESC :: char where "ESC \<equiv> CHR 0x1B"
abbreviation CR :: char where "CR \<equiv> CHR 0x0D"

definition encode_byte :: "char \<Rightarrow> string" where
  "encode_byte d =
     (if d = DQ then [BSL, DQ]
      else if d = BSL then [BSL, BSL]
      else if d = ESC then [BSL, CHR ''e'']
      else if d = NL then [BSL, CHR ''n'']
      else if d = CR then [BSL, CHR ''r'']
      else if d = TAB then [BSL, CHR ''t'']
      else if 32 \<le> (of_char d :: nat) \<and> (of_char d :: nat) \<le> 126 then [d]
      else [BSL, CHR ''x''] @ hex02 (of_char d))"

fun printf_encode_loop :: "nat \<Rightarrow> nat \<Rightarrow> char list \<Rightarrow> string" where
  "printf_encode_loop maxlen pos [] = []"
| "printf_encode_loop maxlen pos (d # data) =
     (if pos + 4 \<ge> maxlen then []
      else encode_byte d @ printf_encode_loop maxlen (pos + length (encode_byte d)) data)"

definition printf_encode :: "cbuf \<Rightarrow> char list \<Rightarrow> cbuf outcome" where
  "printf_encode txt data =
     (let s = printf_encode_loop (length txt) 0 data
      in if length s \<ge> length txt then Undef Oob_write else Val (cstrwrite txt s))"

definition is_octal :: "char \<Rightarrow> bool" where
  "is_octal c = (let n = of_char c :: nat in 48 \<le> n \<and> n \<le> 55)"

definition octal_val :: "char \<Rightarrow> int" where
  "octal_val c = of_char c - 48"

text \<open>What follows a backslash: the decoded bytes and the rest of the text.\<close>

definition decode_escape :: "string \<Rightarrow> char list \<times> string" where
  "decode_escape pos =
     (let c = at0 pos in
      if c = BSL then ([BSL], tl pos)
      else if c = DQ then ([DQ], tl pos)
      else if c = CHR ''n'' then ([NL], tl pos)
      else if c = CHR ''r'' then ([CR], tl pos)
      else if c = CHR ''t'' then ([TAB], tl pos)
      else if c = CHR ''e'' then ([ESC], tl pos)
      else if c = CHR ''x'' then
        (let pos = tl pos; val = hex2byte pos
         in if val < 0 then
              (let val = hex2num (at0 pos) in if val < 0 then ([], pos) else ([u8 val], tl pos))
            else ([u8 val], drop 2 pos))
      else if is_octal c then
        (let val = octal_val c; pos = tl pos;
             (val, pos) = (if is_octal (at0 pos) then (val * 8 + octal_val (at0 pos), tl pos) else (val, pos));
             (val, pos) = (if is_octal (at0 pos) then (val * 8 + octal_val (at0 pos), tl pos) else (val, pos))
         in ([u8 val], pos))
      else ([], pos))"

lemma length_decode_escape: "length (snd (decode_escape pos)) \<le> length pos"
  by (auto simp: decode_escape_def Let_def split: prod.splits if_splits)

lemma decode_escape_shorter: "(bs, r) = decode_escape pos \<Longrightarrow> length r < Suc (length pos)"
  using length_decode_escape [of pos] by (cases "decode_escape pos") auto

function printf_decode_loop :: "nat \<Rightarrow> nat \<Rightarrow> string \<Rightarrow> char list" where
  "printf_decode_loop maxlen len [] = []"
| "printf_decode_loop maxlen len (c # pos) =
     (if len + 1 \<ge> maxlen then []
      else if c = BSL then
        (case decode_escape pos of (bs, pos) \<Rightarrow> bs @ printf_decode_loop maxlen (len + length bs) pos)
      else c # printf_decode_loop maxlen (len + 1) pos)"
  by pat_completeness auto
termination
  by (relation "measure (\<lambda>(maxlen, len, s). length s)") (auto dest!: decode_escape_shorter)

text \<open>The returned length is the length of the decoded bytes; they are followed by a NUL.\<close>

definition printf_decode :: "cbuf \<Rightarrow> string \<Rightarrow> nat \<times> cbuf" where
  "printf_decode buf str =
     (let bs = printf_decode_loop (length buf) 0 str; n = length bs
      in (n, if length buf > n then memwrite buf (bs @ [NUL]) else memwrite buf bs))"

definition SSID_MAX_LEN :: nat where "SSID_MAX_LEN = 32"

text \<open>\<open>None\<close> is a NULL argument; the static buffer has one byte more than four per octet.\<close>

definition wpa_ssid_txt :: "char list option \<Rightarrow> string outcome" where
  "wpa_ssid_txt ssid =
     (case ssid of None \<Rightarrow> Val []
      | Some s \<Rightarrow> omap cstr_of (printf_encode (replicate (SSID_MAX_LEN * 4 + 1) NUL) s))"

definition dup_binstr :: "char list \<Rightarrow> nat \<Rightarrow> cbuf outcome" where
  "dup_binstr src len = (if length src < len then Undef Oob_read else Val (take len src @ [NUL]))"

definition quoted_body :: "string \<Rightarrow> string option" where
  "quoted_body value =
     (case os_strrchr_idx value DQ of
        None \<Rightarrow> None
      | Some i \<Rightarrow> if i + 1 \<noteq> length value then None else Some (take i value))"

definition wpa_config_parse_string :: "string \<Rightarrow> char list option" where
  "wpa_config_parse_string value =
     (if at0 value = DQ then quoted_body (tl value)
      else if at0 value = CHR ''P'' \<and> at0 (tl value) = DQ then
        (case quoted_body (drop 2 value) of
           None \<Rightarrow> None
         | Some t \<Rightarrow> (case printf_decode (replicate (length t + 1) NUL) t of (n, b) \<Rightarrow> Some (take n b)))
      else let hlen = length value
        in if odd hlen then None
           else let tlen = hlen div 2
             in case hexstr2bin value (replicate (tlen + 1) NUL) tlen of
                  (r, b) \<Rightarrow> if r \<noteq> 0 then None else Some (take tlen b))"

definition is_hex :: "char list \<Rightarrow> bool" where
  "is_hex data = list_ex (\<lambda>d. (of_char d :: nat) < 32 \<or> 127 \<le> (of_char d :: nat)) data"

definition has_ctrl_char :: "char list \<Rightarrow> bool" where
  "has_ctrl_char data = list_ex (\<lambda>d. (of_char d :: nat) < 32 \<or> (of_char d :: nat) = 127) data"

definition has_newline :: "string \<Rightarrow> bool" where
  "has_newline str = list_ex (\<lambda>c. c = NL \<or> c = CR) str"

text \<open>\<open>None\<close> is the failure -1; the length is 0 then.\<close>

definition ssid_parse :: "string \<Rightarrow> char list option" where
  "ssid_parse buf =
     (let tmp = (if at0 buf \<noteq> DQ then Some (takeWhile (\<lambda>c. c \<noteq> CHR '' '') buf)
                 else case os_strchr (tl buf) DQ of
                     None \<Rightarrow> None
                   | Some e \<Rightarrow> Some (take (length buf - length e + 1) buf))
      in case tmp of None \<Rightarrow> None
         | Some t \<Rightarrow>
             (case wpa_config_parse_string t of
                None \<Rightarrow> None
              | Some res \<Rightarrow> if length res \<le> SSID_MAX_LEN \<and> length res \<noteq> 0 then Some res else None))"

section \<open>Digits\<close>

lemma or_nibbles: "0 \<le> b \<Longrightarrow> b < 16 \<Longrightarrow> push_bit 4 a OR b = a * 16 + (b::int)"
proof -
  assume "0 \<le> b" "b < 16"
  then have b: "take_bit 4 b = b" by (simp add: take_bit_int_eq_self)
  have "push_bit 4 a OR b = push_bit 4 a + b"
    by (rule disjunctive_add [symmetric]) (metis b bit_push_bit_iff_int bit_take_bit_iff not_le)
  then show ?thesis by (simp add: push_bit_eq_mult)
qed

lemma less_16_cases: "(n::nat) < 16 \<Longrightarrow> n \<in> set [0..<16]"
  by simp

lemma hex2num_hexdig: "n < 16 \<Longrightarrow> hex2num (hexdig n) = int n"
  by (drule less_16_cases) (auto simp: upt_rec hexdig_def hex2num_def of_char_char_of_int)

lemma hex2num_hexdig_upper: "n < 16 \<Longrightarrow> hex2num (hexdig_upper n) = int n"
  by (drule less_16_cases) (auto simp: upt_rec hexdig_upper_def hex2num_def of_char_char_of_int)

lemma hex2num_bounds: "hex2num c < 16" "-1 \<le> hex2num c"
  by (auto simp: hex2num_def Let_def)

lemma hex2byte_pair: "n < 256 \<Longrightarrow> hex2byte (hex_pair up n @ r) = int n"
proof -
  assume "n < 256"
  then have d: "n div 16 < 16" "n mod 16 < 16" by auto
  have "push_bit 4 (int (n div 16)) OR int (n mod 16) = int n"
    by (subst or_nibbles) (simp_all, metis div_mult_mod_eq of_nat_add of_nat_mult of_nat_numeral)
  with d show ?thesis
    by (auto simp: hex2byte_def hex_pair_def hex02_def hex2num_hexdig hex2num_hexdig_upper)
qed

lemma hex2byte_hex02 [simp]: "n < 256 \<Longrightarrow> hex2byte (hex02 n @ r) = int n"
  using hex2byte_pair [of n False r] by (simp add: hex_pair_def)

lemma u8_of_char [simp]: "u8 (int (of_char c)) = c"
  by (simp add: u8_def)

lemma hex2byte_nonneg: "hex2byte s < 256"
proof -
  have "push_bit 4 a OR b < 256" if "a < 16" "0 \<le> a" "b < 16" "0 \<le> b" for a b :: int
    using that by (simp add: or_nibbles)
  then show ?thesis
    using hex2num_bounds [of "at0 s"] hex2num_bounds [of "at0 (tl s)"]
    by (auto simp: hex2byte_def Let_def)
qed

lemma length_hex_pair [simp]: "length (hex_pair up n) = 2" "length (hex02 n) = 2"
  by (simp_all add: hex_pair_def hex02_def)

lemma drop2_hex02 [simp]: "drop 2 (hex02 n @ r) = r" "drop 2 (hex_pair up n @ r) = r"
  by (simp_all add: hex_pair_def hex02_def)

lemma hexdig_range: "n < 16 \<Longrightarrow> 48 \<le> (of_char (hexdig n) :: nat) \<and> (of_char (hexdig n) :: nat) \<le> 102"
  by (drule less_16_cases) (auto simp: upt_rec hexdig_def)

lemma hexdig_upper_range: "n < 16 \<Longrightarrow> 48 \<le> (of_char (hexdig_upper n) :: nat) \<and> (of_char (hexdig_upper n) :: nat) \<le> 102"
  by (drule less_16_cases) (auto simp: upt_rec hexdig_upper_def)

lemma hexdig_other: "n < 16 \<Longrightarrow> hexdig n \<noteq> CHR '' '' \<and> hexdig n \<noteq> DQ \<and> hexdig n \<noteq> CHR ''P''"
  using hex2num_hexdig [of n] by (auto simp: hex2num_def)

lemma no_nul_hex_pair: "n < 256 \<Longrightarrow> no_nul (hex_pair up n)"
  using hexdig_range [of "n div 16"] hexdig_range [of "n mod 16"]
    hexdig_upper_range [of "n div 16"] hexdig_upper_range [of "n mod 16"] less_mult_imp_div_less [of n 16 16]
  by (auto simp: hex_pair_def hex02_def)

section \<open>Hardware addresses\<close>

lemma hwaddr_parse_macstr:
  "length addr = n \<Longrightarrow> hwaddr_parse_loop n (macstr_loop addr @ r) = (addr, Some r)"
proof (induction addr arbitrary: n rule: macstr_loop.induct)
  case (2 b)
  then show ?case by (auto simp: Let_def)
next
  case (3 b c bs)
  then show ?case by (auto simp: Let_def)
qed simp

lemma hwaddr_parse_prefix:
  "hwaddr_parse_loop n txt = (bs, Some r) \<Longrightarrow> length bs = n \<and> (\<exists>p. txt = p @ r \<and> length p = 3 * n - 1)"
proof (induction n arbitrary: "txt" bs)
  case (Suc n)
  obtain cs where cs: "hwaddr_parse_loop n (if n > 0 then tl (drop 2 txt) else drop 2 txt) = (cs, Some r)"
      "bs = u8 (hex2byte txt) # cs" "0 \<le> hex2byte txt" "n > 0 \<Longrightarrow> at0 (drop 2 txt) = CHR '':''"
    using Suc.prems by (auto simp: Let_def split: if_splits prod.splits)
  have "hex2num (at0 txt) \<ge> 0" "hex2num (at0 (tl txt)) \<ge> 0"
    using cs(3) by (auto simp: hex2byte_def Let_def split: if_splits)
  then obtain a b t where ab: "txt = a # b # t"
    by (cases "txt"; cases "tl txt") (auto simp: hex2num_def)
  show ?case
  proof (cases n)
    case 0
    then show ?thesis using cs ab by (auto intro: exI [of _ "[a, b]"])
  next
    case (Suc m)
    with cs ab obtain u where u: "t = CHR '':'' # u" by (cases t) auto
    from Suc.IH cs obtain p where "u = p @ r" "length p = 3 * n - 1" "length cs = n" using ab u Suc by auto
    then show ?thesis using cs(2) ab u Suc by (auto intro: exI [of _ "a # b # CHR '':'' # p"])
  qed
qed auto

section \<open>Printable encodings\<close>

lemma length_encode_byte: "0 < length (encode_byte d) \<and> length (encode_byte d) \<le> 4"
  by (simp add: encode_byte_def)

lemma printf_encode_fits: "pos < maxlen \<Longrightarrow> pos + length (printf_encode_loop maxlen pos data) < maxlen"
proof (induction maxlen pos data rule: printf_encode_loop.induct)
  case (2 maxlen pos d data)
  then show ?case using length_encode_byte [of d] by auto
qed simp

lemma printf_encode_all:
  "pos + 4 * length data < maxlen \<Longrightarrow> printf_encode_loop maxlen pos data = concat (map encode_byte data)"
proof (induction maxlen pos data rule: printf_encode_loop.induct)
  case (2 maxlen pos d data)
  then show ?case using length_encode_byte [of d] by auto
qed simp

lemma encode_byte_no_nul: "no_nul (encode_byte d)"
  using no_nul_hex_pair [of "of_char d" False] by (auto simp: encode_byte_def hex_pair_def)

text \<open>Decoding what one byte was encoded to, with anything behind it.\<close>

lemma decode_encode_byte:
  assumes "len + 1 < maxlen"
  shows "printf_decode_loop maxlen len (encode_byte d @ r) = d # printf_decode_loop maxlen (len + 1) r"
proof -
  consider "d = DQ" | "d = BSL" | "d = ESC" | "d = NL" | "d = CR" | "d = TAB"
    | "32 \<le> (of_char d :: nat)" "(of_char d :: nat) \<le> 126" "d \<noteq> BSL" "encode_byte d = [d]"
    | "encode_byte d = [BSL, CHR ''x''] @ hex02 (of_char d)"
    unfolding encode_byte_def by argo
  then show ?thesis
  proof cases
    case 8
    have "decode_escape (CHR ''x'' # hex02 (of_char d) @ r) = ([d], r)"
      by (simp add: decode_escape_def Let_def)
    with 8 assms show ?thesis by simp
  qed (use assms in \<open>simp_all add: encode_byte_def decode_escape_def\<close>)
qed

lemma decode_encode:
  "len + length data < maxlen \<Longrightarrow> printf_decode_loop maxlen len (concat (map encode_byte data)) = data"
  by (induction data arbitrary: len) (simp_all add: decode_encode_byte)

lemma decode_bound: "len < maxlen \<Longrightarrow> len + length (printf_decode_loop maxlen len s) < maxlen"
proof (induction maxlen len s rule: printf_decode_loop.induct)
  case (2 maxlen len c pos)
  have "length (fst (decode_escape pos)) \<le> 1"
    by (auto simp: decode_escape_def Let_def split: prod.splits)
  with 2 show ?case by (cases "decode_escape pos") auto
qed simp

section \<open>Hexadecimal strings\<close>

lemma length_put_at: "pos + length s \<le> length buf \<Longrightarrow> length (put_at buf pos s) = length buf"
  by (simp add: put_at_def)

lemma snprintf_hex_loop_ok:
  assumes "\<And>d. fmt d \<noteq> [] \<and> length (fmt d) = k" "pos + k * length data < length buf" "pos \<le> length buf"
  shows "\<exists>b. snprintf_hex_loop buf pos fmt data = (pos + k * length data, b, True) \<and> length b = length buf \<and>
    take (pos + k * length data) b = take pos buf @ concat (map fmt data)"
  using assms(2-)
proof (induction data arbitrary: buf pos)
  case (Cons d data)
  let ?b = "put_at buf pos (fmt d @ [NUL])"
  have k: "length (fmt d) = k" using assms(1) by simp
  have len: "length ?b = length buf" using Cons.prems k by (subst length_put_at) auto
  have t: "take (pos + k) ?b = take pos buf @ fmt d"
    using Cons.prems k by (simp add: put_at_def memwrite_def)
  from Cons.IH [of "pos + k" ?b] Cons.prems len t k show ?case
    by (auto simp: os_snprintf_def Let_def algebra_simps)
qed simp

lemma hexstr2bin_pairs:
  "hexstr2bin_loop (length data) (concat (map (\<lambda>d. hex_pair up (of_char d)) data) @ r) = (data, True)"
  by (induction data) (simp_all add: hex2byte_pair Let_def)

section \<open>Properties\<close>

lemma quoted_body_snoc: "quoted_body (s @ [DQ]) = Some s"
  by (simp add: quoted_body_def os_strrchr_idx_def)

text \<open>
  a hardware address printed with \<^verbatim>\<open>MACSTR\<close> is read back by \<^verbatim>\<open>hwaddr_aton\<close>, whatever text
  follows it, and an accepted text always has the form of 17 characters and sets all six bytes.
\<close>

theorem hwaddr_round_trip:
  assumes "length addr = ETH_ALEN" "length buf = ETH_ALEN"
  shows "hwaddr_aton (MACSTR addr @ r) buf = (0, addr) \<and>
    (\<forall>txt b. hwaddr_aton txt buf = (0, b) \<longrightarrow> 17 \<le> length txt \<and> hwaddr_aton (MACSTR b) buf = (0, b))"
proof -
  have rt: "hwaddr_aton (MACSTR a @ r) buf = (0, a)" if "length a = ETH_ALEN" for a r
    using that assms(2) hwaddr_parse_macstr [of a ETH_ALEN r]
    by (simp add: hwaddr_aton_def hwaddr_parse_def MACSTR_def memwrite_def)
  have "17 \<le> length txt \<and> hwaddr_aton (MACSTR b) buf = (0, b)" if acc: "hwaddr_aton txt buf = (0, b)" for "txt" b
  proof -
    from acc obtain bs r' where p: "hwaddr_parse_loop ETH_ALEN txt = (bs, Some r')" "b = memwrite buf bs"
      by (auto simp: hwaddr_aton_def hwaddr_parse_def split: prod.splits if_splits)
    from hwaddr_parse_prefix [OF p(1)] have "length bs = ETH_ALEN" "17 \<le> length txt"
      by (auto simp: ETH_ALEN_def)
    with p(2) assms(2) have "b = bs" "17 \<le> length txt" by (simp_all add: memwrite_def)
    then show ?thesis using rt [of b "[]"] \<open>length bs = ETH_ALEN\<close> by simp
  qed
  with rt [OF assms(1), of r] show ?thesis by blast
qed

theorem hwaddr_round_trip_witness:
  "hwaddr_aton (MACSTR (map char_of [0x02::nat, 0xab, 0, 1, 2, 0xff]) @ '' x'') (replicate 6 NUL)
     = (0, map char_of [0x02::nat, 0xab, 0, 1, 2, 0xff])"
  using hwaddr_round_trip [of "map char_of [0x02::nat, 0xab, 0, 1, 2, 0xff]" "replicate 6 NUL" "'' x''"]
  by (simp add: ETH_ALEN_def)

text \<open>
  bytes printed by \<^verbatim>\<open>wpa_snprintf_hex\<close> into a buffer with room for two digits per byte and the
  terminator are converted back by \<^verbatim>\<open>hexstr2bin\<close>; the upper-case variant likewise.
\<close>

theorem hex_round_trip:
  assumes "2 * length data < length buf" "length out = length data"
  shows "\<exists>b. wpa_snprintf_hex_gen buf data up = (2 * length data, b) \<and> length b = length buf \<and>
    hexstr2bin b out (length data) = (0, data)"
proof -
  let ?f = "\<lambda>d. hex_pair up (of_char d)"
  have f: "\<And>d. ?f d \<noteq> [] \<and> length (?f d) = 2" by (metis length_hex_pair(1) list.size(3) zero_neq_numeral)
  from snprintf_hex_loop_ok [of ?f 2 0 data buf, OF f] assms(1) obtain b where
    b: "snprintf_hex_loop buf 0 ?f data = (2 * length data, b, True)" "length b = length buf"
      "take (2 * length data) b = concat (map ?f data)" by auto
  let ?b = "b[length b - 1 := NUL]"
  have "take (2 * length data) ?b = concat (map ?f data)" using b assms(1) by simp
  then have "?b = concat (map ?f data) @ drop (2 * length data) ?b" by (metis append_take_drop_id)
  then have "hexstr2bin_loop (length data) ?b = (data, True)" by (metis hexstr2bin_pairs)
  then have "hexstr2bin ?b out (length data) = (0, data)" using assms(2) by (simp add: hexstr2bin_def memwrite_def)
  moreover have "buf \<noteq> []" using assms(1) by auto
  ultimately show ?thesis using b by (auto simp: wpa_snprintf_hex_gen_def)
qed

theorem hex_round_trip_witness:
  "\<exists>b. wpa_snprintf_hex_gen (replicate 5 NUL) ''k!'' True = (4, b) \<and> length b = 5 \<and>
    hexstr2bin b (replicate 2 NUL) 2 = (0, ''k!'')"
  using hex_round_trip [of "''k!''" "replicate 5 NUL" "replicate 2 NUL" True] by (simp add: eval_nat_numeral)

text \<open>
  \<^verbatim>\<open>printf_encode\<close> never leaves its buffer, and what it stored in a buffer of more than four
  bytes per octet is decoded by \<^verbatim>\<open>printf_decode\<close> to the same octets; in particular every SSID survives
  \<^verbatim>\<open>wpa_ssid_txt\<close> and the \<open>P"..."\<close> form of \<^verbatim>\<open>wpa_config_parse_string\<close>.
\<close>

theorem printf_round_trip:
  assumes "4 * length data < length buf" "length data < length out"
  shows "\<exists>b. printf_encode buf data = Val b \<and> length b = length buf \<and>
    printf_decode out (cstr_of b) = (length data, memwrite out (data @ [NUL])) \<and>
    wpa_config_parse_string (CHR ''P'' # DQ # cstr_of b @ [DQ]) = Some data"
proof -
  let ?e = "concat (map encode_byte data)"
  have e: "printf_encode_loop (length buf) 0 data = ?e" using assms(1) by (simp add: printf_encode_all)
  have fits: "length ?e < length buf" using printf_encode_fits [of 0 "length buf" data] assms(1) e by (cases buf) simp_all
  have "no_nul ?e" by (induction data) (simp_all add: encode_byte_no_nul)
  then have c: "cstr_of (cstrwrite buf ?e) = ?e" by simp
  have le: "length data \<le> length ?e"
  proof (induction data)
    case (Cons d data)
    moreover have "1 \<le> length (encode_byte d)" using length_encode_byte [of d] by linarith
    ultimately show ?case by (simp del: One_nat_def)
  qed simp
  have d: "printf_decode o' ?e = (length data, memwrite o' (data @ [NUL]))" if "length data < length o'" for o'
    using that decode_encode [of 0 data "length o'"] by (simp add: printf_decode_def Let_def)
  have "wpa_config_parse_string (CHR ''P'' # DQ # ?e @ [DQ]) = Some data"
    using d [of "replicate (length ?e + 1) NUL"] le
    by (simp add: wpa_config_parse_string_def quoted_body_snoc memwrite_def del: replicate_Suc)
  with e fits c d [OF assms(2)] show ?thesis by (simp add: printf_encode_def)
qed

theorem printf_round_trip_witness:
  "\<exists>b. printf_encode (replicate 129 NUL) [CHR ''a'', DQ, NUL, ESC] = Val b \<and> length b = 129 \<and>
    wpa_config_parse_string (CHR ''P'' # DQ # cstr_of b @ [DQ]) = Some [CHR ''a'', DQ, NUL, ESC]"
  using printf_round_trip [of "[CHR ''a'', DQ, NUL, ESC]" "replicate 129 NUL" "replicate 5 NUL"] by auto

text \<open>
  \<^verbatim>\<open>ssid_parse\<close> accepts a quoted SSID of 1 to 32 characters followed by further arguments, and the
  hexadecimal form of any SSID of 1 to 32 octets.
\<close>

theorem ssid_parse_correct:
  assumes "0 < length ssid" "length ssid \<le> SSID_MAX_LEN" "DQ \<notin> set ssid"
  shows "ssid_parse (DQ # ssid @ DQ # r) = Some ssid \<and>
    ssid_parse (concat (map (\<lambda>d. hex02 (of_char d)) ssid) @ CHR '' '' # r) = Some ssid"
proof -
  have "os_strchr (ssid @ DQ # r) DQ = Some (DQ # r)" using assms(3) by simp
  then have q: "ssid_parse (DQ # ssid @ DQ # r) = Some ssid"
    using assms(1,2) quoted_body_snoc [of ssid]
    by (simp add: ssid_parse_def wpa_config_parse_string_def)
  let ?h = "concat (map (\<lambda>d. hex02 (of_char d)) ssid)"
  have chars: "c \<noteq> CHR '' '' \<and> c \<noteq> DQ \<and> c \<noteq> CHR ''P''" if "c \<in> set ?h" for c
    using that hexdig_other less_mult_imp_div_less [of _ 16 16] by (auto simp: hex02_def)
  then have w: "takeWhile (\<lambda>c. c \<noteq> CHR '' '') (?h @ CHR '' '' # r) = ?h"
    by (subst takeWhile_append2) auto
  have len: "length ?h = 2 * length ssid" by (induction ssid) auto
  have ne: "?h \<noteq> []" using assms(1) len by (metis length_0_conv mult_is_0 not_less0 zero_neq_numeral)
  have hd: "at0 (?h @ t) \<noteq> DQ \<and> at0 (?h @ t) \<noteq> CHR ''P''" for t
    using ne chars [of "hd ?h"] by (cases ?h) (auto simp del: concat_eq_Nil_conv)
  have p: "hexstr2bin ?h (replicate (length ssid + 1) NUL) (length ssid) = (0, ssid @ [NUL])"
    using hexstr2bin_pairs [of ssid False "[]"] 
    by (simp add: hex_pair_def hexstr2bin_def memwrite_def drop_replicate del: replicate_Suc) simp
  show ?thesis using q w p len assms(1,2) hd [of "[]"] hd [of "CHR '' '' # r"]
    by (simp add: ssid_parse_def wpa_config_parse_string_def)
qed

theorem ssid_parse_correct_witness:
  "ssid_parse (DQ # ''my net'' @ DQ # '' psk'') = Some ''my net'' \<and>
   ssid_parse (concat (map (\<lambda>d. hex02 (of_char d)) ''my net'') @ '' psk'') = Some ''my net''"
  using ssid_parse_correct [of "''my net''" "'' psk''"] ssid_parse_correct [of "''my net''" "''psk''"]
  by (simp add: SSID_MAX_LEN_def)

end
