(* ===== verification/Cli_Text.thy ===== *)
theory Cli_Text
  imports Hex_Utils
begin

text \<open>
  \<^verbatim>\<open>src/common/cli.c\<close>: the lists of texts the client keeps for completion (network names, peers,
  interfaces), the number of the argument under the cursor, and the conversion between a command line
  and its words. A text list is the sequence of its entries from the head; \<^verbatim>\<open>dl_list_add\<close> inserts at
  the head. Memory allocation succeeds.
\<close>

type_synonym txt_list = "string list"

section \<open>Text lists\<close>

definition cli_txt_list_get :: "txt_list \<Rightarrow> string \<Rightarrow> string option" where
  "cli_txt_list_get l t = List.find (\<lambda>e. os_strcmp e t = 0) l"

fun cli_txt_list_free :: "txt_list \<Rightarrow> string \<Rightarrow> txt_list" where
  "cli_txt_list_free [] e = []"
| "cli_txt_list_free (x # l) e = (if x = e then l else x # cli_txt_list_free l e)"

fun cli_txt_list_flush :: "txt_list \<Rightarrow> txt_list" where
  "cli_txt_list_flush [] = []"
| "cli_txt_list_flush (e # l) = cli_txt_list_flush (cli_txt_list_free (e # l) e)"

definition cli_txt_list_del :: "txt_list \<Rightarrow> string \<Rightarrow> txt_list" where
  "cli_txt_list_del l t =
     (case cli_txt_list_get l t of None \<Rightarrow> l | Some e \<Rightarrow> cli_txt_list_free l e)"

definition word_of :: "string \<Rightarrow> char \<Rightarrow> string" where
  "word_of t separator =
     (let e = (case os_strchr t separator of None \<Rightarrow> [] | Some r \<Rightarrow> r) in take (length t - length e) t)"

definition addr_text :: "string \<Rightarrow> string option" where
  "addr_text t =
     (case hwaddr_aton t (replicate ETH_ALEN NUL) of
        (r, addr) \<Rightarrow> if r < 0 then None else Some (fst (os_snprintf 18 (MACSTR addr))))"

definition cli_txt_list_del_addr :: "txt_list \<Rightarrow> string \<Rightarrow> txt_list" where
  "cli_txt_list_del_addr l t = (case addr_text t of None \<Rightarrow> l | Some buf \<Rightarrow> cli_txt_list_del l buf)"

definition cli_txt_list_del_word :: "txt_list \<Rightarrow> string \<Rightarrow> char \<Rightarrow> txt_list" where
  "cli_txt_list_del_word l t separator = cli_txt_list_del l (word_of t separator)"

definition cli_txt_list_add :: "txt_list \<Rightarrow> string \<Rightarrow> int \<times> txt_list" where
  "cli_txt_list_add l t = (case cli_txt_list_get l t of Some e \<Rightarrow> (0, l) | None \<Rightarrow> (0, t # l))"

definition cli_txt_list_add_addr :: "txt_list \<Rightarrow> string \<Rightarrow> int \<times> txt_list" where
  "cli_txt_list_add_addr l t = (case addr_text t of None \<Rightarrow> (-1, l) | Some buf \<Rightarrow> cli_txt_list_add l buf)"

definition cli_txt_list_add_word :: "txt_list \<Rightarrow> string \<Rightarrow> char \<Rightarrow> int \<times> txt_list" where
  "cli_txt_list_add_word l t separator = cli_txt_list_add l (word_of t separator)"

definition cli_txt_list_array :: "txt_list \<Rightarrow> string list" where
  "cli_txt_list_array l = map (\<lambda>i. l ! i) [0..<length l]"

section \<open>Arguments of a command line\<close>

text \<open>The scan of \<^verbatim>\<open>get_cmd_arg_num\<close> over the characters at positions 0 to \<open>pos\<close>.\<close>

function count_words :: "string \<Rightarrow> int" where
  "count_words [] = 0"
| "count_words (c # s) =
     (if c \<noteq> CHR '' '' then 1 + count_words (tl (dropWhile (\<lambda>x. x \<noteq> CHR '' '') s)) else count_words s)"
  by pat_completeness auto
termination
proof (relation "measure length")
  fix c :: char and s :: string
  have "length (dropWhile (\<lambda>x. x \<noteq> CHR '' '') s) \<le> length s" by (rule length_dropWhile_le)
  then show "(tl (dropWhile (\<lambda>x. x \<noteq> CHR '' '') s), c # s) \<in> measure length" by simp
qed simp_all

definition get_cmd_arg_num :: "string \<Rightarrow> int \<Rightarrow> int outcome" where
  "get_cmd_arg_num str pos =
     (if pos > int (length str) then Undef Oob_read
      else let arg = count_words (take (nat (pos + 1)) (str @ [NUL]))
        in Val (if arg > 0 then arg - 1 else arg))"

text \<open>
  \<^verbatim>\<open>write_cmd\<close> prints at offset \<open>pos\<close> of a buffer; a text that does not fit is stored cut off and
  the call fails.
\<close>

definition print_at :: "cbuf \<Rightarrow> nat \<Rightarrow> string \<Rightarrow> (nat option) \<times> cbuf" where
  "print_at buf pos s =
     (let room = length buf - pos; (w, res) = os_snprintf room s;
          buf = (if room = 0 then buf else put_at buf pos (w @ [NUL]))
      in (if os_snprintf_error room res then None else Some (pos + nat res), buf))"

fun write_cmd_args :: "cbuf \<Rightarrow> nat \<Rightarrow> string list \<Rightarrow> int \<times> cbuf" where
  "write_cmd_args buf pos [] = (0, buf[length buf - 1 := NUL])"
| "write_cmd_args buf pos (a # argv) =
     (case print_at buf pos ('' '' @ a) of
        (None, buf) \<Rightarrow> (-1, buf)
      | (Some pos, buf) \<Rightarrow> write_cmd_args buf pos argv)"

definition write_cmd :: "cbuf \<Rightarrow> string \<Rightarrow> string list \<Rightarrow> int \<times> cbuf" where
  "write_cmd buf cmd argv =
     (case print_at buf 0 cmd of
        (None, buf) \<Rightarrow> (-1, buf)
      | (Some pos, buf) \<Rightarrow> write_cmd_args buf pos argv)"

definition max_args :: nat where "max_args = 10"

text \<open>
  \<^verbatim>\<open>tokenize_cmd\<close>: the words, each as the text from its start to the NUL that ends it. A word that
  starts with a quote reaches to the last quote of the line and from there to the next space; the
  tenth word is the rest of the line.
\<close>

definition token_length :: "string \<Rightarrow> nat" where
  "token_length pos =
     (let i = (if at0 pos = DQ then (case os_strrchr_idx pos DQ of None \<Rightarrow> 0 | Some j \<Rightarrow> j + 1) else 0)
      in i + length (takeWhile (\<lambda>c. c \<noteq> CHR '' '') (drop i pos)))"

lemma token_length_pos: "pos \<noteq> [] \<Longrightarrow> at0 pos \<noteq> CHR '' '' \<Longrightarrow> 0 < token_length pos"
  by (cases pos) (auto simp: token_length_def Let_def os_strrchr_idx_def)

function tokenize_loop :: "nat \<Rightarrow> string \<Rightarrow> string list" where
  "tokenize_loop argc pos =
     (let pos = dropWhile (\<lambda>c. c = CHR '' '') pos
      in if pos = [] then []
         else if argc + 1 = max_args then [pos]
         else take (token_length pos) pos # tokenize_loop (argc + 1) (drop (token_length pos + 1) pos))"
  by pat_completeness auto
termination
proof (relation "measure (\<lambda>(argc, pos). length pos)")
  fix argc :: nat and pos x :: string
  assume x: "x = dropWhile (\<lambda>c. c = CHR '' '') pos" and ne: "x \<noteq> []"
  have "length x \<le> length pos" using x by (simp add: length_dropWhile_le)
  with ne show "((argc + 1, drop (token_length x + 1) x), (argc, pos)) \<in> measure (\<lambda>(argc, pos). length pos)"
    by (cases x) auto
qed simp

declare tokenize_loop.simps [simp del]

definition tokenize_cmd :: "string \<Rightarrow> string list" where
  "tokenize_cmd cmd = tokenize_loop 0 cmd"

section \<open>Text lists are sets of texts\<close>

definition txt_list_ok :: "txt_list \<Rightarrow> bool" where
  "txt_list_ok l \<longleftrightarrow> distinct l \<and> (\<forall>t \<in> set l. no_nul t)"

lemma txt_get_Some: "\<forall>e \<in> set l. no_nul e \<Longrightarrow> no_nul t \<Longrightarrow> cli_txt_list_get l t = (if t \<in> set l then Some t else None)"
  by (induction l) (auto simp: cli_txt_list_get_def os_strcmp_0_iff)

lemma txt_free: "distinct l \<Longrightarrow> set (cli_txt_list_free l e) = set l - {e} \<and> distinct (cli_txt_list_free l e)"
  by (induction l e rule: cli_txt_list_free.induct) auto

lemma flush_Nil: "cli_txt_list_flush l = []"
  by (induction l rule: cli_txt_list_flush.induct) auto

text \<open>What the handlers of events rely on: the lists hold every text once.\<close>

locale txt_set =
  fixes invar :: "'l \<Rightarrow> bool" and elems :: "'l \<Rightarrow> string set"
    and add :: "'l \<Rightarrow> string \<Rightarrow> int \<times> 'l" and del :: "'l \<Rightarrow> string \<Rightarrow> 'l"
  assumes add_law: "invar l \<Longrightarrow> no_nul t \<Longrightarrow> fst (add l t) = 0 \<and> invar (snd (add l t)) \<and> elems (snd (add l t)) = insert t (elems l)"
    and del_law: "invar l \<Longrightarrow> no_nul t \<Longrightarrow> invar (del l t) \<and> elems (del l t) = elems l - {t}"
begin

lemma add_all:
  "invar l \<Longrightarrow> \<forall>t \<in> set ts. no_nul t \<Longrightarrow> invar (fold (\<lambda>t l. snd (add l t)) ts l) \<and>
     elems (fold (\<lambda>t l. snd (add l t)) ts l) = set ts \<union> elems l"
  by (induction ts arbitrary: l) (auto simp: add_law)

lemma add_del_other: "invar l \<Longrightarrow> no_nul t \<Longrightarrow> no_nul u \<Longrightarrow> t \<noteq> u \<Longrightarrow> (u \<in> elems (del (snd (add l t)) t) \<longleftrightarrow> u \<in> elems l)"
  by (auto simp: add_law del_law)

end

interpretation cli_list: txt_set txt_list_ok set cli_txt_list_add cli_txt_list_del
proof
  fix l t assume "txt_list_ok l" "no_nul t"
  then show "fst (cli_txt_list_add l t) = 0 \<and> txt_list_ok (snd (cli_txt_list_add l t)) \<and>
      set (snd (cli_txt_list_add l t)) = insert t (set l)"
    by (auto simp: cli_txt_list_add_def txt_list_ok_def txt_get_Some)
next
  fix l t assume l: "txt_list_ok l" "no_nul t"
  with txt_free [of l t] show "txt_list_ok (cli_txt_list_del l t) \<and> set (cli_txt_list_del l t) = set l - {t}"
    by (auto simp: cli_txt_list_del_def txt_list_ok_def txt_get_Some)
qed

lemma word_of_takeWhile: "word_of t sep = takeWhile (\<lambda>c. c \<noteq> sep) t"
proof (cases "os_strchr t sep")
  case None
  then have "\<forall>c \<in> set t. c \<noteq> sep" by (auto simp: os_strchr_None)
  then have all: "takeWhile (\<lambda>c. c \<noteq> sep) t = t" by (subst takeWhile_eq_all_conv)
  show ?thesis unfolding all word_of_def None by simp
next
  case (Some r)
  then obtain p u where "t = p @ r" "r = sep # u" "sep \<notin> set p" by (metis os_strchr_Some)
  with Some show ?thesis by (simp add: word_of_def takeWhile_append takeWhile_tail)
qed

section \<open>Writing a command\<close>

definition cmd_text :: "string \<Rightarrow> string list \<Rightarrow> string" where
  "cmd_text cmd argv = cmd @ concat (map (\<lambda>a. CHR '' '' # a) argv)"

lemma put_at_text:
  assumes "pos \<le> length buf" "pos + length w < length buf"
  shows "length (put_at buf pos (w @ [NUL])) = length buf"
    "take (pos + length w) (put_at buf pos (w @ [NUL])) = take pos buf @ w"
    "put_at buf pos (w @ [NUL]) ! (pos + length w) = NUL"
  using assms by (simp_all add: put_at_def memwrite_def nth_append)

lemma print_at_fits:
  assumes "pos \<le> length buf"
  shows "pos + length s < length buf \<Longrightarrow> print_at buf pos s = (Some (pos + length s), put_at buf pos (s @ [NUL]))"
    and "length buf \<le> pos + length s \<Longrightarrow> \<exists>b. print_at buf pos s = (None, b) \<and> length b = length buf"
proof -
  show "print_at buf pos s = (Some (pos + length s), put_at buf pos (s @ [NUL]))" if "pos + length s < length buf"
    using that by (simp add: print_at_def os_snprintf_def)
  show "\<exists>b. print_at buf pos s = (None, b) \<and> length b = length buf" if "length buf \<le> pos + length s"
    using that assms by (auto simp: print_at_def os_snprintf_def put_at_def memwrite_def Let_def)
qed

lemma write_cmd_args_spec:
  assumes "pos < length buf" "buf ! pos = NUL"
  shows "\<exists>b. length b = length buf \<and>
    (if pos + length (cmd_text [] argv) < length buf
     then write_cmd_args buf pos argv = (0, b) \<and> take (pos + length (cmd_text [] argv)) b = take pos buf @ cmd_text [] argv \<and>
       b ! (pos + length (cmd_text [] argv)) = NUL
     else write_cmd_args buf pos argv = (-1, b))"
  using assms
proof (induction argv arbitrary: buf pos)
  case Nil
  then show ?case by (auto simp: cmd_text_def nth_list_update)
next
  case (Cons a argv)
  let ?w = "CHR '' '' # a"
  show ?case
  proof (cases "pos + length ?w < length buf")
    case True
    let ?b = "put_at buf pos (?w @ [NUL])"
    note put = put_at_text [of pos buf ?w, OF _ True]
    have "write_cmd_args buf pos (a # argv) = write_cmd_args ?b (pos + length ?w) argv"
      using print_at_fits(1) [OF _ True] Cons.prems by simp
    moreover have "?b ! (pos + length ?w) = NUL" "length ?b = length buf" "take (pos + length ?w) ?b = take pos buf @ ?w"
      using put Cons.prems by simp_all
    ultimately show ?thesis
      using Cons.IH [of "pos + length ?w" ?b] True by (auto simp: cmd_text_def add.assoc)
  next
    case False
    then show ?thesis using print_at_fits(2) [of pos buf ?w] Cons.prems by (auto simp: cmd_text_def)
  qed
qed

lemma write_cmd_spec:
  "\<exists>b. length b = length buf \<and>
    (if length (cmd_text cmd argv) < length buf
     then write_cmd buf cmd argv = (0, b) \<and> (\<exists>r. b = cmd_text cmd argv @ NUL # r)
     else write_cmd buf cmd argv = (-1, b))"
proof (cases "length cmd < length buf")
  case True
  let ?b = "put_at buf 0 (cmd @ [NUL])"
  note put = put_at_text [of 0 buf cmd]
  have w: "write_cmd buf cmd argv = write_cmd_args ?b (length cmd) argv"
    using print_at_fits(1) [of 0 buf cmd] True by (simp add: write_cmd_def)
  have c: "cmd @ cmd_text [] argv = cmd_text cmd argv" by (simp add: cmd_text_def)
  have "length cmd < length ?b" "?b ! length cmd = NUL" "length ?b = length buf" "take (length cmd) ?b = cmd"
    using put True by simp_all
  with write_cmd_args_spec [of "length cmd" ?b argv] obtain b where
    b: "length b = length buf"
      "if length (cmd_text cmd argv) < length buf
       then write_cmd buf cmd argv = (0, b) \<and> take (length (cmd_text cmd argv)) b = cmd_text cmd argv \<and>
         b ! length (cmd_text cmd argv) = NUL
       else write_cmd buf cmd argv = (-1, b)"
    unfolding w c [symmetric] length_append by (metis (no_types, lifting))
  show ?thesis
  proof (cases "length (cmd_text cmd argv) < length buf")
    case True
    with b have "b = cmd_text cmd argv @ NUL # drop (Suc (length (cmd_text cmd argv))) b"
      by (metis id_take_nth_drop)
    with b True show ?thesis by auto
  qed (use b in auto)
next
  case False
  then show ?thesis using print_at_fits(2) [of 0 buf cmd] by (auto simp: write_cmd_def cmd_text_def)
qed

section \<open>Words\<close>

definition plain_word :: "string \<Rightarrow> bool" where
  "plain_word w \<longleftrightarrow> w \<noteq> [] \<and> CHR '' '' \<notin> set w \<and> hd w \<noteq> DQ"

lemma token_length_word:
  assumes "plain_word w" "r = [] \<or> (\<exists>t. r = CHR '' '' # t)"
  shows "token_length (w @ r) = length w"
proof -
  have "at0 (w @ r) \<noteq> DQ" using assms(1) by (cases w) (auto simp: plain_word_def)
  moreover have "takeWhile (\<lambda>c. c \<noteq> CHR '' '') (w @ r) = w"
    using assms by (subst takeWhile_append2) (auto simp: plain_word_def)
  ultimately show ?thesis by (simp add: token_length_def)
qed

lemma dropWhile_word: "plain_word w \<Longrightarrow> dropWhile (\<lambda>c. c = CHR '' '') (w @ r) = w @ r"
  by (cases w) (auto simp: plain_word_def)

lemma tokenize_words:
  "plain_word w \<Longrightarrow> \<forall>a \<in> set ws. plain_word a \<Longrightarrow> argc + length ws < max_args \<Longrightarrow>
     tokenize_loop argc (cmd_text w ws) = w # ws"
proof (induction ws arbitrary: argc w)
  case Nil
  have e: "tokenize_loop n [] = []" for n by (simp add: tokenize_loop.simps)
  show ?case using Nil dropWhile_word [of w "[]"] token_length_word [of w "[]"]
    by (subst tokenize_loop.simps) (auto simp: cmd_text_def Let_def plain_word_def e)
next
  case (Cons a ws)
  have t: "cmd_text w (a # ws) = w @ CHR '' '' # cmd_text a ws" by (simp add: cmd_text_def)
  have "tokenize_loop (argc + 1) (cmd_text a ws) = a # ws"
    using Cons.IH [of a "argc + 1"] Cons.prems by simp
  moreover have "token_length (w @ CHR '' '' # cmd_text a ws) = length w"
    by (rule token_length_word) (use Cons.prems in auto)
  moreover have "w \<noteq> []" "dropWhile (\<lambda>c. c = CHR '' '') (w @ CHR '' '' # cmd_text a ws) = w @ CHR '' '' # cmd_text a ws"
    using Cons.prems dropWhile_word by (auto simp: plain_word_def)
  moreover have "argc + 1 \<noteq> max_args" using Cons.prems by simp
  ultimately show ?case
    unfolding t tokenize_loop.simps [of argc "w @ CHR '' '' # cmd_text a ws"] Let_def by simp
qed

text \<open>The number of words that start in a text: non-spaces at the beginning or behind a space.\<close>

definition word_starts :: "string \<Rightarrow> nat" where
  "word_starts s = card {i. i < length s \<and> s ! i \<noteq> CHR '' '' \<and> (i = 0 \<or> s ! (i - 1) = CHR '' '')}"

fun starts_ref :: "bool \<Rightarrow> string \<Rightarrow> nat" where
  "starts_ref inside [] = 0"
| "starts_ref inside (c # s) = (if c = CHR '' '' then starts_ref False s else (if inside then 0 else 1) + starts_ref True s)"

lemma starts_ref_inside: "starts_ref True s = starts_ref False (dropWhile (\<lambda>x. x \<noteq> CHR '' '') s)"
  by (induction s) auto

lemma starts_ref_tl: "starts_ref False (tl (dropWhile (\<lambda>x. x \<noteq> CHR '' '') s)) = starts_ref False (dropWhile (\<lambda>x. x \<noteq> CHR '' '') s)"
  by (induction s) auto

lemma count_words_ref: "count_words s = int (starts_ref False s)"
  by (induction s rule: count_words.induct) (simp_all add: starts_ref_inside starts_ref_tl)

lemma starts_ref_card:
  "starts_ref inside s = card {i. i < length s \<and> s ! i \<noteq> CHR '' '' \<and> (if i = 0 then \<not> inside else s ! (i - 1) = CHR '' '')}"
proof (induction inside s rule: starts_ref.induct)
  case (2 inside c s)
  let ?S = "\<lambda>b. {i. i < length s \<and> s ! i \<noteq> CHR '' '' \<and> (if i = 0 then \<not> b else s ! (i - 1) = CHR '' '')}"
  have "{i. i < length (c # s) \<and> (c # s) ! i \<noteq> CHR '' '' \<and> (if i = 0 then \<not> inside else (c # s) ! (i - 1) = CHR '' '')} =
      (if c \<noteq> CHR '' '' \<and> \<not> inside then {0} else {}) \<union> Suc ` ?S (c \<noteq> CHR '' '')" (is "?A = ?B")
  proof (rule set_eqI)
    fix i show "i \<in> ?A \<longleftrightarrow> i \<in> ?B" by (cases i) (auto simp: nth_Cons' image_iff)
  qed
  moreover have "finite (?S b)" for b by simp
  ultimately show ?case using 2 by (auto simp: card_image card_insert_if)
qed simp

lemma count_words_starts: "count_words s = int (word_starts s)"
  unfolding count_words_ref word_starts_def starts_ref_card by (rule arg_cong [where f = "\<lambda>A. int (card A)"]) auto

section \<open>Properties\<close>

text \<open>
  a text list that starts empty and is changed only by adding and deleting texts, words or
  hardware addresses keeps every text once; adding and deleting have the effect of set insertion and
  deletion, addresses in their canonical spelling.
\<close>

theorem cli_txt_list_is_set:
  assumes "txt_list_ok l" "no_nul t"
  shows "txt_list_ok (snd (cli_txt_list_add l t)) \<and> set (snd (cli_txt_list_add l t)) = insert t (set l) \<and>
    txt_list_ok (cli_txt_list_del l t) \<and> set (cli_txt_list_del l t) = set l - {t} \<and>
    set (snd (cli_txt_list_add_word l t sep)) = insert (takeWhile (\<lambda>c. c \<noteq> sep) t) (set l) \<and>
    set (cli_txt_list_del_word l t sep) = set l - {takeWhile (\<lambda>c. c \<noteq> sep) t} \<and>
    set (cli_txt_list_array l) = set l \<and> cli_txt_list_flush l = []"
proof -
  have "set (cli_txt_list_array l) = set l" by (simp add: cli_txt_list_array_def map_nth)
  then show ?thesis
    using cli_list.add_law [OF assms] cli_list.del_law [OF assms]
      cli_list.add_law [OF assms(1), of "word_of t sep"] cli_list.del_law [OF assms(1), of "word_of t sep"] assms(2)
    by (simp add: cli_txt_list_add_word_def cli_txt_list_del_word_def word_of_takeWhile flush_Nil)
qed

theorem cli_txt_list_is_set_witness:
  "set (snd (cli_txt_list_add_word [''wlan0''] ''p2p0 x'' CHR '' '')) = {''p2p0'', ''wlan0''}"
  using cli_txt_list_is_set [of "[''wlan0'']" "''p2p0 x''" "CHR '' ''"] by (simp add: txt_list_ok_def)

text \<open>
  \<^verbatim>\<open>write_cmd\<close> writes the command and its arguments separated by spaces exactly when that
  text and its terminator fit the buffer, reports failure otherwise, and never writes past the end.
\<close>

theorem write_cmd_correct:
  "fst (write_cmd buf cmd argv) = (if length (cmd_text cmd argv) < length buf then 0 else -1) \<and>
   length (snd (write_cmd buf cmd argv)) = length buf \<and>
   (no_nul (cmd_text cmd argv) \<and> length (cmd_text cmd argv) < length buf \<longrightarrow>
      cstr_of (snd (write_cmd buf cmd argv)) = cmd_text cmd argv)"
  using write_cmd_spec [of buf cmd argv] by (auto split: if_splits)

theorem write_cmd_correct_witness:
  "write_cmd (replicate 8 NUL) ''SCAN'' [''a'', ''bc''] = (-1, snd (write_cmd (replicate 8 NUL) ''SCAN'' [''a'', ''bc''])) \<and>
   cstr_of (snd (write_cmd (replicate 20 NUL) ''SCAN'' [''a'', ''bc''])) = ''SCAN a bc''"
  using write_cmd_correct [of "replicate 8 NUL" "''SCAN''" "[''a'', ''bc'']"]
    write_cmd_correct [of "replicate 20 NUL" "''SCAN''" "[''a'', ''bc'']"]
  by (simp add: cmd_text_def prod_eq_iff)

text \<open>
  \<^verbatim>\<open>tokenize_cmd\<close> recovers the words of a command that \<^verbatim>\<open>write_cmd\<close> printed, for up to ten
  words that are not empty, contain no space and do not start with a quote.
\<close>

theorem tokenize_write_cmd:
  assumes "plain_word cmd" "\<forall>a \<in> set argv. plain_word a" "length argv < max_args"
    and "no_nul (cmd_text cmd argv)" "length (cmd_text cmd argv) < length buf"
  shows "tokenize_cmd (cstr_of (snd (write_cmd buf cmd argv))) = cmd # argv"
proof -
  have "cstr_of (snd (write_cmd buf cmd argv)) = cmd_text cmd argv"
    using write_cmd_spec [of buf cmd argv] assms(4,5) by auto
  then show ?thesis using tokenize_words [of cmd argv 0] assms by (simp add: tokenize_cmd_def)
qed

theorem tokenize_write_cmd_witness:
  "tokenize_cmd (cstr_of (snd (write_cmd (replicate 40 NUL) ''SET_NETWORK'' [''0'', ''ssid'', ''x''])))
     = [''SET_NETWORK'', ''0'', ''ssid'', ''x'']"
  using tokenize_write_cmd [of "''SET_NETWORK''" "[''0'', ''ssid'', ''x'']" "replicate 40 NUL"]
  by (simp add: plain_word_def max_args_def cmd_text_def)

text \<open>
  \<^verbatim>\<open>get_cmd_arg_num\<close> is the number of words that start at or before the cursor, not counting the
  command itself; with the cursor past the terminator it reads outside the string.
\<close>

theorem get_cmd_arg_num_correct:
  "(pos > int (length str) \<longrightarrow> get_cmd_arg_num str pos = Undef Oob_read) \<and>
   (0 \<le> pos \<and> pos < int (length str) \<longrightarrow>
      get_cmd_arg_num str pos = Val (int (word_starts (take (nat pos + 1) str) - 1)))"
proof -
  have "take (nat (pos + 1)) (str @ [NUL]) = take (nat pos + 1) str" if "0 \<le> pos" "pos < int (length str)"
    using that by (simp add: nat_add_distrib)
  then show ?thesis by (auto simp: get_cmd_arg_num_def count_words_starts Let_def)
qed

theorem get_cmd_arg_num_correct_witness:
  "get_cmd_arg_num ''set ssid x'' 40 = Undef Oob_read"
  using get_cmd_arg_num_correct [of "''set ssid x''" 40] by simp

end
