(* ===== verification/Parse_Line.thy ===== *)
theory Parse_Line
  imports Cli_Text
begin

text \<open>
  \<^verbatim>\<open>parse_line\<close>: the words of a command line. The array of pointers the caller provides has \<open>kMaxArgs\<close>
  entries; the store of a NULL behind the last word is a store outside it when all are used.
\<close>

definition kMaxArgs :: nat where "kMaxArgs = 16"

definition is_blank :: "char \<Rightarrow> bool" where
  "is_blank c \<longleftrightarrow> c = CHR '' '' \<or> c = TAB"

definition store_null :: "nat \<Rightarrow> string list \<Rightarrow> string list outcome" where
  "store_null nargs args = (if nargs < kMaxArgs then Val args else Undef Oob_write)"

lemma dropWhile_shorter: "dropWhile P (dropWhile Q s) = c # r \<Longrightarrow> length r < length s"
  by (metis Suc_le_lessD dual_order.trans length_Cons length_dropWhile_le)

function parse_args :: "nat \<Rightarrow> string \<Rightarrow> string list outcome" where
  "parse_args nargs line =
     (if nargs < kMaxArgs then
        let line = dropWhile is_blank line
        in if line = [] then store_null nargs []
           else let arg = takeWhile (\<lambda>c. \<not> is_blank c) line
             in case dropWhile (\<lambda>c. \<not> is_blank c) line of
                  [] \<Rightarrow> store_null (nargs + 1) [arg]
                | c # rest \<Rightarrow> omap ((#) arg) (parse_args (nargs + 1) rest)
      else Val [])"
  by pat_completeness auto
termination by (relation "measure (\<lambda>(n, line). length line)") (auto dest: dropWhile_shorter)

declare parse_args.simps [simp del]

definition parse_line :: "string \<Rightarrow> string list outcome" where
  "parse_line line = parse_args 0 line"

section \<open>The words of a line\<close>

text \<open>The reference: one pass over the characters, collecting a word until a blank.\<close>

fun blank_words :: "string \<Rightarrow> string \<Rightarrow> string list" where
  "blank_words acc [] = (if acc = [] then [] else [acc])"
| "blank_words acc (c # s) =
     (if is_blank c then (if acc = [] then [] else [acc]) @ blank_words [] s else blank_words (acc @ [c]) s)"

lemma blank_words_skip: "blank_words [] (dropWhile is_blank s) = blank_words [] s"
  by (induction s) auto

lemma blank_words_word:
  "blank_words acc s =
     (let w = acc @ takeWhile (\<lambda>c. \<not> is_blank c) s
      in (if w = [] then [] else [w]) @
         (case dropWhile (\<lambda>c. \<not> is_blank c) s of [] \<Rightarrow> [] | c # r \<Rightarrow> blank_words [] r))"
  by (induction s arbitrary: acc) (auto simp: Let_def)

lemma last_dropWhile: "dropWhile P s = c # r \<Longrightarrow> r \<noteq> [] \<Longrightarrow> last s = last r"
  by (metis append_is_Nil_conv last_ConsR last_append list.distinct(1) takeWhile_dropWhile_id)

lemma last_blank: "dropWhile (\<lambda>c. \<not> is_blank c) s = [c] \<Longrightarrow> is_blank (last s)"
  by (metis dropWhile_eq_Cons_conv last_snoc)

lemma last_word: "dropWhile (\<lambda>c. \<not> is_blank c) s = [] \<Longrightarrow> s \<noteq> [] \<Longrightarrow> \<not> is_blank (last s)"
  by (simp add: dropWhile_eq_Nil_conv)

lemma blank_words_acc: "acc \<noteq> [] \<Longrightarrow> blank_words acc s \<noteq> []"
  by (induction s arbitrary: acc) auto

lemma blank_words_blank: "blank_words [] s = [] \<Longrightarrow> \<forall>c \<in> set s. is_blank c"
  by (induction s) (auto simp: blank_words_acc split: if_splits)

lemma parse_args_words:
  "n \<le> kMaxArgs \<Longrightarrow> parse_args n line =
     (let ws = blank_words [] line
      in if n + length ws = kMaxArgs \<and> ws \<noteq> [] \<and> \<not> is_blank (last line) then Undef Oob_write
         else Val (take (kMaxArgs - n) ws))"
proof (induction n line rule: parse_args.induct)
  case (1 n line)
  let ?l = "dropWhile is_blank line" and ?nb = "\<lambda>c. \<not> is_blank c"
  show ?case
  proof (cases "n < kMaxArgs")
    case False
    with 1 show ?thesis by (simp add: parse_args.simps Let_def)
  next
    case n: True
    show ?thesis
    proof (cases "?l = []")
      case True
      then have "blank_words [] line = []" using blank_words_skip [of line] by (metis blank_words.simps(1))
      with True n show ?thesis by (simp add: parse_args.simps store_null_def)
    next
      case l: False
      have arg: "takeWhile ?nb ?l \<noteq> []" using hd_dropWhile [OF l] l by (cases ?l) auto
      have last_l: "last ?l = last line" using l by (metis last_append takeWhile_dropWhile_id)
      have ws: "blank_words [] line = takeWhile ?nb ?l # (case dropWhile ?nb ?l of [] \<Rightarrow> [] | c # r \<Rightarrow> blank_words [] r)"
        using blank_words_skip [of line] blank_words_word [of "[]" ?l] arg by simp
      have u: "parse_args n line = (case dropWhile ?nb ?l of [] \<Rightarrow> store_null (n + 1) [takeWhile ?nb ?l]
          | c # r \<Rightarrow> omap ((#) (takeWhile ?nb ?l)) (parse_args (n + 1) r))"
        by (subst parse_args.simps) (simp only: n l Let_def if_True if_False)
      show ?thesis
      proof (cases "dropWhile ?nb ?l")
        case Nil
        have "\<not> is_blank (last line)" using last_word [OF Nil l] last_l by simp
        then show ?thesis unfolding u ws Nil list.case using n
          by (auto simp: store_null_def Let_def take_Cons')
      next
        case (Cons c r)
        note IH = "1.IH" [OF n refl l refl Cons]
        have lr: "r \<noteq> [] \<Longrightarrow> last line = last r" using last_dropWhile [OF Cons] last_l by simp
        have lb: "r = [] \<Longrightarrow> is_blank (last line)" using last_blank Cons last_l by metis
        show ?thesis unfolding u ws Cons list.case
        proof (cases "r = []")
          case True
          with IH n lb show "omap ((#) (takeWhile ?nb ?l)) (parse_args (n + 1) r) = (let ws = takeWhile ?nb ?l # blank_words [] r
              in if n + length ws = kMaxArgs \<and> ws \<noteq> [] \<and> \<not> is_blank (last line) then Undef Oob_write
                 else Val (take (kMaxArgs - n) ws))"
            by (auto simp: Let_def take_Cons' Suc_diff_Suc)
        next
          case False
          have "blank_words [] r = [] \<Longrightarrow> is_blank (last r)"
            using False blank_words_blank by (metis last_in_set)
          with IH n lr [OF False] show "omap ((#) (takeWhile ?nb ?l)) (parse_args (n + 1) r) = (let ws = takeWhile ?nb ?l # blank_words [] r
              in if n + length ws = kMaxArgs \<and> ws \<noteq> [] \<and> \<not> is_blank (last line) then Undef Oob_write
                 else Val (take (kMaxArgs - n) ws))"
            by (auto simp: Let_def take_Cons' Suc_diff_Suc)
        qed
      qed
    qed
  qed
qed

lemma blank_words_text:
  assumes "w \<noteq> []" "\<forall>c \<in> set w. \<not> is_blank c" "\<forall>a \<in> set ws. a \<noteq> [] \<and> (\<forall>c \<in> set a. \<not> is_blank c)"
  shows "blank_words [] (cmd_text w ws) = w # ws"
  using assms
proof (induction ws arbitrary: w)
  case Nil
  then have e: "takeWhile (\<lambda>c. \<not> is_blank c) w = w" "dropWhile (\<lambda>c. \<not> is_blank c) w = []" by auto
  from Nil show ?case by (simp add: cmd_text_def blank_words_word [of _ w] e Let_def)
next
  case (Cons a ws)
  have e: "cmd_text w (a # ws) = w @ CHR '' '' # cmd_text a ws" by (simp add: cmd_text_def)
  have b: "is_blank (CHR '' '')" by (simp add: is_blank_def)
  have "takeWhile (\<lambda>c. \<not> is_blank c) (w @ CHR '' '' # cmd_text a ws) = w"
    "dropWhile (\<lambda>c. \<not> is_blank c) (w @ CHR '' '' # cmd_text a ws) = CHR '' '' # cmd_text a ws"
    using Cons.prems b by (simp_all add: takeWhile_append2 dropWhile_append2)
  with Cons show ?case unfolding e by (subst blank_words_word) simp
qed

lemma parse_line_text:
  assumes "w \<noteq> []" "\<forall>c \<in> set w. \<not> is_blank c" "\<forall>a \<in> set ws. a \<noteq> [] \<and> (\<forall>c \<in> set a. \<not> is_blank c)"
    and "length ws + 1 < kMaxArgs"
  shows "parse_line (cmd_text w ws) = Val (w # ws)"
  using parse_args_words [of 0 "cmd_text w ws"] blank_words_text [OF assms(1-3)] assms(4)
  by (simp add: parse_line_def)

section \<open>Properties\<close>

text \<open>
  C36: \<^verbatim>\<open>parse_line\<close> returns the first sixteen words of the line, words being the maximal runs of
  characters other than space and tab, except that a line of exactly sixteen words that ends with its
  last word makes it store the final NULL behind the caller's array.
\<close>

theorem parse_line_correct:
  "parse_line line =
     (if length (blank_words [] line) = kMaxArgs \<and> \<not> is_blank (last line) then Undef Oob_write
      else Val (take kMaxArgs (blank_words [] line)))"
  using parse_args_words [of 0 line] by (auto simp: parse_line_def kMaxArgs_def Let_def)

end
