(* ===== verification/Wpa_Ctrl.thy ===== *)
theory Wpa_Ctrl
  imports Wpa_Prelude
begin

text \<open>
  \<^verbatim>\<open>src/common/wpa_ctrl.c\<close> for UNIX domain sockets: opening and closing a control connection, the
  request/reply exchange with its unsolicited messages, attaching and detaching, receiving and polling.

  The operating system and the daemon are the state \<open>os_state\<close>. The daemon is the parameter \<open>peer\<close>:
  what arrives, and on which socket, as a reaction to the requests sent so far, each arrival as one
  event of \<^verbatim>\<open>select\<close> and \<^verbatim>\<open>recv\<close>. An empty queue is a socket on which nothing arrives. \<open>send_script\<close> gives the
  results of the coming \<^verbatim>\<open>send\<close> calls (none left: they succeed). File descriptors are never reused,
  time counts whole seconds and advances only by sleeping; memory allocation, \<^verbatim>\<open>unlink\<close> and
  \<^verbatim>\<open>fcntl\<close> succeed.
\<close>

datatype sock_ev = Sel_intr | Sel_error | Sel_timeout | Recv_error | Data "char list"
datatype send_ev = Send_ok | Send_again | Send_fail

record wpa_ctrl =
  sock :: nat
  local_path :: string
  dest_path :: string

record os_state =
  peer :: "(nat \<times> string) list \<Rightarrow> (nat \<times> sock_ev) list"
  sent :: "(nat \<times> string) list"
  inbox :: "nat \<Rightarrow> sock_ev list"
  send_script :: "send_ev list"
  open_fds :: "nat list"
  next_fd :: nat
  fd_limit :: nat
  files :: "string list"
  bind_denied :: "string \<Rightarrow> bool"
  servers :: "string list"
  pid :: nat
  ctrl_counter :: nat
  clock :: nat
  stdout :: string

section \<open>Opening and closing\<close>

definition SUN_PATH_LEN :: nat where "SUN_PATH_LEN = 108"
definition CLIENT_DIR :: string where "CLIENT_DIR = ''/tmp''"
definition CLIENT_PREFIX :: string where "CLIENT_PREFIX = ''wpa_ctrl_''"

definition close_fd :: "nat \<Rightarrow> ('z) os_state_scheme \<Rightarrow> 'z os_state_scheme" where
  "close_fd fd st = st\<lparr>open_fds := remove1 fd (open_fds st)\<rparr>"

definition unlink_file :: "string \<Rightarrow> 'z os_state_scheme \<Rightarrow> 'z os_state_scheme" where
  "unlink_file path st = st\<lparr>files := removeAll path (files st)\<rparr>"

definition local_name :: "string option \<Rightarrow> 'z os_state_scheme \<Rightarrow> string" where
  "local_name cli_path st =
     (let dir = (case cli_path of Some p \<Rightarrow> if take 1 p = ''/'' then p else CLIENT_DIR | None \<Rightarrow> CLIENT_DIR)
      in dir @ ''/'' @ CLIENT_PREFIX @ show_nat (pid st) @ ''-'' @ show_nat (ctrl_counter st))"

text \<open>
  \<^verbatim>\<open>bind\<close> creates the socket file; a file left by an earlier run is removed once and the bind
  repeated.
\<close>

definition bind_local :: "string \<Rightarrow> 'z os_state_scheme \<Rightarrow> bool \<times> 'z os_state_scheme" where
  "bind_local path st =
     (if bind_denied st path then (False, st)
      else let st = (if path \<in> set (files st) then unlink_file path st else st)
        in (True, st\<lparr>files := path # files st\<rparr>))"

definition wpa_ctrl_open2 ::
  "string option \<Rightarrow> string option \<Rightarrow> 'z os_state_scheme \<Rightarrow> wpa_ctrl option \<times> 'z os_state_scheme" where
  "wpa_ctrl_open2 ctrl_path cli_path st =
     (case ctrl_path of None \<Rightarrow> (None, st)
      | Some ctrl_path \<Rightarrow>
        if length (open_fds st) \<ge> fd_limit st then (None, st)
        else let fd = next_fd st;
                 st = st\<lparr>open_fds := fd # open_fds st, next_fd := fd + 1, ctrl_counter := ctrl_counter st + 1\<rparr>;
                 local = local_name cli_path st;
                 (local, ret) = os_snprintf SUN_PATH_LEN local
          in if os_snprintf_error SUN_PATH_LEN ret then (None, close_fd fd st)
             else case bind_local local st of
                 (False, st) \<Rightarrow> (None, close_fd fd st)
               | (True, st) \<Rightarrow>
                   if \<not> str_starts ctrl_path ''@abstract:'' \<and> length ctrl_path \<ge> SUN_PATH_LEN
                   then (None, close_fd fd st)
                   else let dest = (if str_starts ctrl_path ''@abstract:''
                                    then NUL # take (SUN_PATH_LEN - 2) (drop 10 ctrl_path) else ctrl_path)
                     in if dest \<in> set (servers st) then (Some \<lparr>sock = fd, local_path = local, dest_path = dest\<rparr>, st)
                        else (None, unlink_file local (close_fd fd st)))"

definition wpa_ctrl_open :: "string option \<Rightarrow> 'z os_state_scheme \<Rightarrow> wpa_ctrl option \<times> 'z os_state_scheme" where
  "wpa_ctrl_open ctrl_path st = wpa_ctrl_open2 ctrl_path None st"

definition wpa_ctrl_close :: "wpa_ctrl option \<Rightarrow> 'z os_state_scheme \<Rightarrow> 'z os_state_scheme" where
  "wpa_ctrl_close ctrl st =
     (case ctrl of None \<Rightarrow> st | Some c \<Rightarrow> close_fd (sock c) (unlink_file (local_path c) st))"

section \<open>Requests\<close>

text \<open>
  Sending with retries: \<open>started_at = 0\<close> is the unset time stamp; each retry sleeps one second and
  the attempts end when more than five seconds have passed.
\<close>

definition os_reltime_expired :: "nat \<Rightarrow> nat \<Rightarrow> nat \<Rightarrow> bool" where
  "os_reltime_expired now ts timeout_secs \<longleftrightarrow> int now - int ts > int timeout_secs"

fun send_retry :: "send_ev list \<Rightarrow> nat \<Rightarrow> nat \<Rightarrow> bool \<times> send_ev list \<times> nat" where
  "send_retry [] started_at now = (True, [], now)"
| "send_retry (Send_ok # evs) started_at now = (True, evs, now)"
| "send_retry (Send_fail # evs) started_at now = (False, evs, now)"
| "send_retry (Send_again # evs) started_at now =
     (if started_at = 0 then send_retry evs now (now + 1)
      else if os_reltime_expired now started_at 5 then (False, evs, now)
      else send_retry evs started_at (now + 1))"

text \<open>The arrivals the daemon causes, each on the descriptor it is addressed to.\<close>

definition deliver :: "(nat \<times> sock_ev) list \<Rightarrow> (nat \<Rightarrow> sock_ev list) \<Rightarrow> nat \<Rightarrow> sock_ev list" where
  "deliver evs box fd = box fd @ map snd (filter (\<lambda>(f, e). f = fd) evs)"

definition sock_send :: "nat \<Rightarrow> string \<Rightarrow> 'z os_state_scheme \<Rightarrow> bool \<times> 'z os_state_scheme" where
  "sock_send fd cmd st =
     (let (ok, evs, now) = send_retry (send_script st) 0 (clock st);
          st = st\<lparr>send_script := evs, clock := now\<rparr>
      in if \<not> ok then (False, st)
         else let sent' = sent st @ [(fd, cmd)]
           in (True, st\<lparr>sent := sent', inbox := deliver (peer st sent') (inbox st)\<rparr>))"

type_synonym 'z msg_cb = "string \<Rightarrow> 'z os_state_scheme \<Rightarrow> 'z os_state_scheme"

text \<open>
  The loop around \<^verbatim>\<open>select\<close> and \<^verbatim>\<open>recv\<close>. The result is the return value, the reply buffer and, on
  success, the length stored through \<open>reply_len\<close>; \<open>evs\<close> are the events waiting on the socket.
\<close>

fun recv_reply :: "nat \<Rightarrow> sock_ev list \<Rightarrow> cbuf \<Rightarrow> 'z msg_cb option \<Rightarrow> 'z os_state_scheme \<Rightarrow>
    (int \<times> cbuf \<times> nat) \<times> 'z os_state_scheme" where
  "recv_reply fd [] reply msg_cb st = ((-2, reply, length reply), st)"
| "recv_reply fd (ev # evs) reply msg_cb st =
     (let st = st\<lparr>inbox := (inbox st)(fd := evs)\<rparr>
      in case ev of
           Sel_intr \<Rightarrow> recv_reply fd evs reply msg_cb st
         | Sel_error \<Rightarrow> ((-1, reply, length reply), st)
         | Sel_timeout \<Rightarrow> ((-2, reply, length reply), st)
         | Recv_error \<Rightarrow> ((-1, reply, length reply), st)
         | Data bytes \<Rightarrow>
             let got = take (length reply) bytes; reply = memwrite reply got; res = length got
             in if res > 0 \<and> reply ! 0 = CHR ''<'' then
                  (case msg_cb of
                     None \<Rightarrow> recv_reply fd evs reply msg_cb st
                   | Some cb \<Rightarrow>
                       let res = (if res = length reply then length reply - 1 else res);
                           reply = reply[res := NUL]
                       in recv_reply fd evs reply msg_cb (cb (cstr_of reply) st))
                else ((0, reply, res), st))"

definition wpa_ctrl_request ::
  "wpa_ctrl \<Rightarrow> string \<Rightarrow> cbuf \<Rightarrow> 'z msg_cb option \<Rightarrow> 'z os_state_scheme \<Rightarrow> (int \<times> cbuf \<times> nat) \<times> 'z os_state_scheme" where
  "wpa_ctrl_request ctrl cmd reply msg_cb st =
     (case sock_send (sock ctrl) cmd st of
        (False, st) \<Rightarrow> ((-1, reply, length reply), st)
      | (True, st) \<Rightarrow> recv_reply (sock ctrl) (inbox st (sock ctrl)) reply msg_cb st)"

definition wpa_ctrl_attach_helper :: "wpa_ctrl \<Rightarrow> bool \<Rightarrow> 'z os_state_scheme \<Rightarrow> int \<times> 'z os_state_scheme" where
  "wpa_ctrl_attach_helper ctrl attach st =
     (case wpa_ctrl_request ctrl (if attach then ''ATTACH'' else ''DETACH'') (replicate 10 NUL) None st of
        ((ret, buf, len), st) \<Rightarrow>
          if ret < 0 then (ret, st)
          else if len = 3 \<and> take 3 buf = ''OK'' @ [NL] then (0, st) else (-1, st))"

definition wpa_ctrl_attach :: "wpa_ctrl \<Rightarrow> 'z os_state_scheme \<Rightarrow> int \<times> 'z os_state_scheme" where
  "wpa_ctrl_attach ctrl st = wpa_ctrl_attach_helper ctrl True st"

definition wpa_ctrl_detach :: "wpa_ctrl \<Rightarrow> 'z os_state_scheme \<Rightarrow> int \<times> 'z os_state_scheme" where
  "wpa_ctrl_detach ctrl st = wpa_ctrl_attach_helper ctrl False st"

text \<open>\<^verbatim>\<open>recv\<close> on the non-blocking socket: without data it fails.\<close>

definition wpa_ctrl_recv :: "wpa_ctrl \<Rightarrow> cbuf \<Rightarrow> 'z os_state_scheme \<Rightarrow> (int \<times> cbuf \<times> nat) \<times> 'z os_state_scheme" where
  "wpa_ctrl_recv ctrl reply st =
     (case inbox st (sock ctrl) of
        Data bytes # evs \<Rightarrow>
          let got = take (length reply) bytes
          in ((0, memwrite reply got, length got), st\<lparr>inbox := (inbox st)(sock ctrl := evs)\<rparr>)
      | Recv_error # evs \<Rightarrow> ((-1, reply, length reply), st\<lparr>inbox := (inbox st)(sock ctrl := evs)\<rparr>)
      | _ \<Rightarrow> ((-1, reply, length reply), st))"

text \<open>When \<^verbatim>\<open>select\<close> fails it leaves the descriptor set as it was, so the socket counts as readable.\<close>

definition wpa_ctrl_pending :: "wpa_ctrl \<Rightarrow> 'z os_state_scheme \<Rightarrow> bool \<times> 'z os_state_scheme" where
  "wpa_ctrl_pending ctrl st =
     (case inbox st (sock ctrl) of
        [] \<Rightarrow> (False, st)
      | Sel_timeout # evs \<Rightarrow> (False, st\<lparr>inbox := (inbox st)(sock ctrl := evs)\<rparr>)
      | Sel_intr # evs \<Rightarrow> (True, st\<lparr>inbox := (inbox st)(sock ctrl := evs)\<rparr>)
      | Sel_error # evs \<Rightarrow> (True, st\<lparr>inbox := (inbox st)(sock ctrl := evs)\<rparr>)
      | _ \<Rightarrow> (True, st))"

section \<open>Sending\<close>

lemma send_retry_again:
  "0 < t \<Longrightarrow> now \<le> t + 6 \<Longrightarrow> t + 6 - now < n \<Longrightarrow>
     send_retry (replicate n Send_again) t now = (False, replicate (n - (t + 7 - now)) Send_again, t + 6)"
proof (induction n arbitrary: now)
  case (Suc n)
  show ?case
  proof (cases "now = t + 6")
    case True
    with Suc show ?thesis by (simp add: os_reltime_expired_def)
  next
    case False
    with Suc.prems have "\<not> os_reltime_expired now t 5" by (simp add: os_reltime_expired_def)
    with Suc.IH [of "now + 1"] Suc.prems False show ?thesis by (simp add: Suc_diff_le)
  qed
qed simp

section \<open>Receiving\<close>

text \<open>Events the loop skips: interruptions and unsolicited messages that fit the buffer.\<close>

definition skipped :: "nat \<Rightarrow> sock_ev \<Rightarrow> bool" where
  "skipped len ev \<longleftrightarrow> ev = Sel_intr \<or> (\<exists>m. ev = Data (CHR ''<'' # m) \<and> no_nul m \<and> length m + 1 < len)"

definition report :: "('z msg_cb) \<Rightarrow> sock_ev \<Rightarrow> 'z os_state_scheme \<Rightarrow> 'z os_state_scheme" where
  "report cb ev st = (case ev of Data m \<Rightarrow> cb m st | _ \<Rightarrow> st)"

definition inbox_free :: "'z msg_cb \<Rightarrow> bool" where
  "inbox_free cb \<longleftrightarrow> (\<forall>m st f. cb m (st\<lparr>inbox := f\<rparr>) = (cb m st)\<lparr>inbox := f\<rparr> \<and> inbox (cb m st) = inbox st)"

lemma report_inbox: "inbox_free cb \<Longrightarrow> report cb ev (st\<lparr>inbox := f\<rparr>) = (report cb ev st)\<lparr>inbox := f\<rparr>"
  "inbox_free cb \<Longrightarrow> inbox (report cb ev st) = inbox st"
  by (simp_all add: report_def inbox_free_def split: sock_ev.splits)

lemma fold_report_inbox:
  "inbox_free cb \<Longrightarrow> fold (report cb) evs (st\<lparr>inbox := f\<rparr>) = (fold (report cb) evs st)\<lparr>inbox := f\<rparr>"
  "inbox_free cb \<Longrightarrow> inbox (fold (report cb) evs st) = inbox st"
  by (induction evs arbitrary: st) (simp_all add: report_inbox)

lemma memwrite_NUL: "length m < length b \<Longrightarrow> (memwrite b m)[length m := NUL] = m @ NUL # drop (length m + 1) b"
  by (simp add: memwrite_def list_update_append Cons_nth_drop_Suc [of "length m" b, symmetric])

lemma recv_reply_skip:
  assumes "inbox_free cb" "\<forall>e \<in> set pre. skipped (length reply) e"
  shows "\<exists>b. length b = length reply \<and>
    recv_reply fd (pre @ evs) reply (Some cb) st =
      recv_reply fd evs b (Some cb)
        (if pre = [] then st else (fold (report cb) pre st)\<lparr>inbox := (inbox st)(fd := evs)\<rparr>)"
  using assms(2)
proof (induction pre arbitrary: reply st)
  case (Cons e pre)
  let ?st = "st\<lparr>inbox := (inbox st)(fd := pre @ evs)\<rparr>"
  have "\<exists>b. length b = length reply \<and>
    recv_reply fd ((e # pre) @ evs) reply (Some cb) st = recv_reply fd (pre @ evs) b (Some cb) (report cb e ?st)"
  proof -
    from Cons.prems consider "e = Sel_intr" | m where "e = Data (CHR ''<'' # m)" "no_nul m" "length m + 1 < length reply"
      by (auto simp: skipped_def)
    then show ?thesis
    proof cases
      case 1
      then show ?thesis by (auto simp: report_def)
    next
      case 2
      let ?m = "CHR ''<'' # m"
      have l: "length (memwrite reply ?m) = length reply" using 2 by (subst length_memwrite) auto
      have w: "(memwrite reply ?m)[length ?m := NUL] = ?m @ NUL # drop (length ?m + 1) reply"
        using 2 by (intro memwrite_NUL) simp
      have "cstr_of ((memwrite reply ?m)[length ?m := NUL]) = ?m" unfolding w using 2 by (subst cstr_of_append_NUL) auto
      moreover have "memwrite reply ?m ! 0 = CHR ''<''" by (simp add: memwrite_def)
      ultimately show ?thesis
        using 2 l by (intro exI [of _ "(memwrite reply ?m)[length ?m := NUL]"]) (simp add: report_def Let_def)
    qed
  qed
  then obtain b where b: "length b = length reply"
    "recv_reply fd ((e # pre) @ evs) reply (Some cb) st = recv_reply fd (pre @ evs) b (Some cb) (report cb e ?st)" by blast
  from Cons.IH [of b "report cb e ?st"] Cons.prems b(1) obtain b' where
    "length b' = length reply" "recv_reply fd (pre @ evs) b (Some cb) (report cb e ?st) =
      recv_reply fd evs b' (Some cb) (if pre = [] then report cb e ?st
        else (fold (report cb) pre (report cb e ?st))\<lparr>inbox := (inbox (report cb e ?st))(fd := evs)\<rparr>)"
    by auto
  with b(2) show ?case
    using assms(1) by (auto simp: report_inbox fold_report_inbox)
qed auto

lemma recv_reply_answer:
  assumes "length r \<le> length reply" "r = [] \<or> hd r \<noteq> CHR ''<''"
  shows "recv_reply fd (Data r # evs) reply cb st =
    ((0, memwrite reply r, length r), st\<lparr>inbox := (inbox st)(fd := evs)\<rparr>)"
  using assms by (cases r) (auto simp: memwrite_def)

declare recv_reply.simps [simp del]

lemmas recv_reply_stops = recv_reply.simps(1) recv_reply.simps(2) [where ev = Sel_error]
  recv_reply.simps(2) [where ev = Recv_error]

lemma sock_send_ok:
  "send_script st = [] \<Longrightarrow> sock_send fd cmd st =
     (True, st\<lparr>sent := sent st @ [(fd, cmd)], inbox := deliver (peer st (sent st @ [(fd, cmd)])) (inbox st)\<rparr>)"
  by (simp add: sock_send_def Let_def)

section \<open>Connections\<close>

lemma open2_cases:
  assumes "wpa_ctrl_open2 path cli st = (r, st')"
  shows "case r of
      None \<Rightarrow> open_fds st' = open_fds st
    | Some c \<Rightarrow> open_fds st' = sock c # open_fds st \<and> sock c = next_fd st \<and> next_fd st' = next_fd st + 1 \<and>
        local_path c \<in> set (files st') \<and> length (local_path c) < SUN_PATH_LEN \<and> dest_path c \<in> set (servers st) \<and>
        set (files st') = insert (local_path c) (set (files st))"
  using assms
  by (auto simp: wpa_ctrl_open2_def close_fd_def unlink_file_def bind_local_def os_snprintf_def Let_def
      split: option.splits if_splits prod.splits)

section \<open>Properties\<close>

definition arrivals :: "nat \<Rightarrow> string \<Rightarrow> 'z os_state_scheme \<Rightarrow> sock_ev list" where
  "arrivals fd cmd st = deliver (peer st (sent st @ [(fd, cmd)])) (inbox st) fd"

definition after_send :: "nat \<Rightarrow> string \<Rightarrow> 'z os_state_scheme \<Rightarrow> 'z os_state_scheme" where
  "after_send fd cmd st = st\<lparr>sent := sent st @ [(fd, cmd)], inbox := deliver (peer st (sent st @ [(fd, cmd)])) (inbox st)\<rparr>"

lemma request_after_send:
  "send_script st = [] \<Longrightarrow> wpa_ctrl_request ctrl cmd reply cb st =
     recv_reply (sock ctrl) (arrivals (sock ctrl) cmd st) reply cb (after_send (sock ctrl) cmd st)"
  by (simp add: wpa_ctrl_request_def sock_send_ok arrivals_def after_send_def)

lemma request_reply:
  assumes "send_script st = []" "inbox_free cb"
    and "arrivals (sock ctrl) cmd st = pre @ Data r # post"
    and "\<forall>e \<in> set pre. skipped (length reply) e" "length r \<le> length reply" "r = [] \<or> hd r \<noteq> CHR ''<''"
  shows "\<exists>b. length b = length reply \<and> take (length r) b = r \<and>
    wpa_ctrl_request ctrl cmd reply (Some cb) st =
      ((0, b, length r), (fold (report cb) pre (after_send (sock ctrl) cmd st))
         \<lparr>inbox := (inbox (after_send (sock ctrl) cmd st))(sock ctrl := post)\<rparr>)"
proof -
  let ?st = "after_send (sock ctrl) cmd st"
  from recv_reply_skip [OF assms(2,4), of "sock ctrl" "Data r # post" ?st] obtain b where
    b: "length b = length reply" "recv_reply (sock ctrl) (pre @ Data r # post) reply (Some cb) ?st =
      recv_reply (sock ctrl) (Data r # post) b (Some cb)
        (if pre = [] then ?st else (fold (report cb) pre ?st)\<lparr>inbox := (inbox ?st)(sock ctrl := Data r # post)\<rparr>)"
    by blast
  have "take (length r) (memwrite b r) = r" "length (memwrite b r) = length reply"
    using assms(5) b(1) by (simp_all add: memwrite_def)
  moreover have "recv_reply (sock ctrl) (pre @ Data r # post) reply (Some cb) ?st =
      ((0, memwrite b r, length r), (fold (report cb) pre ?st)\<lparr>inbox := (inbox ?st)(sock ctrl := post)\<rparr>)"
    unfolding b(2) by (subst recv_reply_answer) (use assms(5,6) b(1) in auto)
  ultimately show ?thesis unfolding request_after_send [OF assms(1)] assms(3) by blast
qed

text \<open>
  C7: a request returns the first message that is not unsolicited. The command is sent once;
  interruptions and unsolicited messages before the reply are skipped, every one of the latter is
  reported to the callback in order, and what follows the reply stays queued.
\<close>

theorem wpa_ctrl_request_reply:
  assumes "send_script st = []" "inbox_free cb"
    and "arrivals (sock ctrl) cmd st = pre @ Data r # post"
    and "\<forall>e \<in> set pre. skipped (length reply) e" "length r \<le> length reply" "r = [] \<or> hd r \<noteq> CHR ''<''"
  shows "\<exists>b. length b = length reply \<and> take (length r) b = r \<and>
    wpa_ctrl_request ctrl cmd reply (Some cb) st =
      ((0, b, length r), (fold (report cb) pre (after_send (sock ctrl) cmd st))
         \<lparr>inbox := (inbox (after_send (sock ctrl) cmd st))(sock ctrl := post)\<rparr>)"
  using assms by (rule request_reply)

definition demo_os :: "((nat \<times> string) list \<Rightarrow> (nat \<times> sock_ev) list) \<Rightarrow> os_state" where
  "demo_os p = \<lparr>peer = p, sent = [], inbox = (\<lambda>_. []), send_script = [], open_fds = [3], next_fd = 4, fd_limit = 8,
     files = [''/tmp/wpa_ctrl_7-1''], bind_denied = (\<lambda>_. False), servers = [''/var/run/wpa_supplicant/wlan0''],
     pid = 7, ctrl_counter = 1, clock = 100, stdout = []\<rparr>"

definition demo_ctrl :: wpa_ctrl where
  "demo_ctrl = \<lparr>sock = 3, local_path = ''/tmp/wpa_ctrl_7-1'', dest_path = ''/var/run/wpa_supplicant/wlan0''\<rparr>"

theorem wpa_ctrl_request_reply_witness:
  "\<exists>b. take 4 b = ''PONG'' \<and> fst (wpa_ctrl_request demo_ctrl ''PING'' (replicate 16 NUL) (Some (\<lambda>m st. st\<lparr>stdout := m\<rparr>))
      (demo_os (\<lambda>_. [(3, Sel_intr), (3, Data ''<3>SCAN''), (3, Data ''PONG'')]))) = (0, b, 4)"
proof -
  have "inbox_free (\<lambda>m st :: os_state. st\<lparr>stdout := m\<rparr>)" by (simp add: inbox_free_def)
  from wpa_ctrl_request_reply [OF _ this, of "demo_os (\<lambda>_. [(3, Sel_intr), (3, Data ''<3>SCAN''), (3, Data ''PONG'')])"
      demo_ctrl "''PING''" "[Sel_intr, Data ''<3>SCAN'']" "''PONG''" "[]" "replicate 16 NUL"]
  show ?thesis
    by (auto simp: demo_os_def demo_ctrl_def arrivals_def deliver_def skipped_def numeral_eq_Suc)
qed

text \<open>
  the errors of a request: nothing but skipped events is a timeout (-2), a failing \<^verbatim>\<open>select\<close>
  or \<^verbatim>\<open>recv\<close> is -1, and when sending fails nothing is sent. A socket that stays busy is given up
  after more than five seconds, on the seventh attempt.
\<close>

theorem wpa_ctrl_request_errors:
  assumes "inbox_free cb" "\<forall>e \<in> set pre. skipped (length reply) e" "0 < clock st"
  shows "(send_script st = [] \<and> arrivals (sock ctrl) cmd st = pre \<longrightarrow>
      fst (fst (wpa_ctrl_request ctrl cmd reply (Some cb) st)) = -2) \<and>
    (send_script st = [] \<and> (\<exists>e post. e \<in> {Sel_error, Recv_error} \<and> arrivals (sock ctrl) cmd st = pre @ e # post) \<longrightarrow>
      fst (fst (wpa_ctrl_request ctrl cmd reply (Some cb) st)) = -1) \<and>
    (send_script st = replicate n Send_again \<and> 7 < n \<longrightarrow>
      fst (fst (wpa_ctrl_request ctrl cmd reply (Some cb) st)) = -1 \<and>
      sent (snd (wpa_ctrl_request ctrl cmd reply (Some cb) st)) = sent st \<and>
      clock (snd (wpa_ctrl_request ctrl cmd reply (Some cb) st)) = clock st + 6)"
proof (intro conjI impI)
  let ?st = "after_send (sock ctrl) cmd st"
  assume a: "send_script st = [] \<and> arrivals (sock ctrl) cmd st = pre"
  from recv_reply_skip [OF assms(1,2), of "sock ctrl" "[]" ?st] a
  show "fst (fst (wpa_ctrl_request ctrl cmd reply (Some cb) st)) = -2"
    by (auto simp: request_after_send recv_reply_stops)
next
  let ?st = "after_send (sock ctrl) cmd st"
  assume "send_script st = [] \<and> (\<exists>e post. e \<in> {Sel_error, Recv_error} \<and> arrivals (sock ctrl) cmd st = pre @ e # post)"
  then obtain e post where e: "send_script st = []" "e = Sel_error \<or> e = Recv_error"
    "arrivals (sock ctrl) cmd st = pre @ e # post" by blast
  from recv_reply_skip [OF assms(1,2), of "sock ctrl" "e # post" ?st] e
  show "fst (fst (wpa_ctrl_request ctrl cmd reply (Some cb) st)) = -1"
    by (auto simp: request_after_send recv_reply_stops)
next
  assume a: "send_script st = replicate n Send_again \<and> 7 < n"
  then obtain m where m: "n = Suc m" "6 < m" by (cases n) auto
  have "send_retry (replicate n Send_again) 0 (clock st) =
      (False, replicate (m - (clock st + 7 - (clock st + 1))) Send_again, clock st + 6)"
    using send_retry_again [of "clock st" "clock st + 1" m] assms(3) m by simp
  with a show "fst (fst (wpa_ctrl_request ctrl cmd reply (Some cb) st)) = -1"
    "sent (snd (wpa_ctrl_request ctrl cmd reply (Some cb) st)) = sent st"
    "clock (snd (wpa_ctrl_request ctrl cmd reply (Some cb) st)) = clock st + 6"
    by (simp_all add: wpa_ctrl_request_def sock_send_def Let_def)
qed

theorem wpa_ctrl_request_errors_witness:
  "fst (fst (wpa_ctrl_request demo_ctrl ''PING'' (replicate 16 NUL) (Some (\<lambda>m st. st\<lparr>stdout := m\<rparr>))
      (demo_os (\<lambda>_. [(3, Sel_intr), (3, Data ''<3>SCAN'')])))) = -2"
proof -
  have "inbox_free (\<lambda>m st :: os_state. st\<lparr>stdout := m\<rparr>)" by (simp add: inbox_free_def)
  from wpa_ctrl_request_errors [OF this, of "[Sel_intr, Data ''<3>SCAN'']" "replicate 16 NUL"
      "demo_os (\<lambda>_. [(3, Sel_intr), (3, Data ''<3>SCAN'')])" demo_ctrl "''PING''"]
  show ?thesis
    by (auto simp: demo_os_def demo_ctrl_def arrivals_def deliver_def skipped_def)
qed

text \<open>
  C37: opening a control connection never leaks a descriptor: a failing attempt leaves the open
  descriptors as they were, a successful one adds one fresh descriptor and the client's socket file,
  and closing the connection removes both again.
\<close>

theorem wpa_ctrl_open_close:
  assumes "wpa_ctrl_open2 path cli st = (r, st')"
  shows "(r = None \<longrightarrow> open_fds st' = open_fds st) \<and>
    (\<forall>c. r = Some c \<longrightarrow> sock c = next_fd st \<and> open_fds st' = sock c # open_fds st \<and> local_path c \<in> set (files st') \<and>
      open_fds (wpa_ctrl_close r st') = open_fds st \<and>
      set (files (wpa_ctrl_close r st')) = set (files st) - {local_path c})"
  using open2_cases [OF assms] by (auto simp: wpa_ctrl_close_def close_fd_def unlink_file_def)

theorem wpa_ctrl_open_close_witness:
  "\<exists>c st'. wpa_ctrl_open2 (Some ''/var/run/wpa_supplicant/wlan0'') None (demo_os (\<lambda>_. [])) = (Some c, st') \<and>
    open_fds (wpa_ctrl_close (Some c) st') = [3]"
proof -
  obtain r st' where o: "wpa_ctrl_open2 (Some ''/var/run/wpa_supplicant/wlan0'') None (demo_os (\<lambda>_. [])) = (r, st')"
    by fastforce
  have "r \<noteq> None"
    using o by (auto simp: wpa_ctrl_open2_def demo_os_def bind_local_def unlink_file_def os_snprintf_def Let_def local_name_def
        str_starts_def CLIENT_DIR_def CLIENT_PREFIX_def SUN_PATH_LEN_def show_nat.simps split: if_splits)
  with wpa_ctrl_open_close [OF o] o show ?thesis by (auto simp: demo_os_def)
qed

text \<open>
  when the path of the daemon's socket is too long, the client's own socket file, just created,
  is left behind: this error path lacks the \<^verbatim>\<open>unlink\<close> of the others.
\<close>

theorem wpa_ctrl_open_leaks_file:
  assumes "SUN_PATH_LEN \<le> length path" "\<not> str_starts path ''@abstract:''" "length (open_fds st) < fd_limit st"
    and "wpa_ctrl_open2 (Some path) cli st = (r, st')"
    and "\<forall>f. \<not> bind_denied st f" "ctrl_counter st' = ctrl_counter st + 1"
    and "length (local_name cli (st\<lparr>ctrl_counter := ctrl_counter st + 1\<rparr>)) < SUN_PATH_LEN"
  shows "r = None \<and> local_name cli (st\<lparr>ctrl_counter := ctrl_counter st + 1\<rparr>) \<in> set (files st')"
proof -
  have n: "local_name cli (st\<lparr>open_fds := a, next_fd := b, ctrl_counter := c\<rparr>) = local_name cli (st\<lparr>ctrl_counter := c\<rparr>)" for a b c
    by (simp add: local_name_def)
  show ?thesis
    using assms by (auto simp: wpa_ctrl_open2_def close_fd_def bind_local_def os_snprintf_def Let_def n unlink_file_def
        split: if_splits)
qed

theorem wpa_ctrl_open_leaks_file_witness:
  "''/tmp/wpa_ctrl_7-2'' \<in> set (files (snd (wpa_ctrl_open2 (Some (CHR ''/'' # replicate 120 (CHR ''x''))) None (demo_os (\<lambda>_. [])))))"
proof -
  let ?st = "demo_os (\<lambda>_. [])" and ?p = "CHR ''/'' # replicate 120 (CHR ''x'')"
  have n: "local_name None (?st\<lparr>ctrl_counter := ctrl_counter ?st + 1\<rparr>) = ''/tmp/wpa_ctrl_7-2''"
    by code_simp
  obtain r st' where o: "wpa_ctrl_open2 (Some ?p) None ?st = (r, st')" by fastforce
  moreover have "ctrl_counter st' = ctrl_counter ?st + 1"
    using o by (auto simp: wpa_ctrl_open2_def demo_os_def bind_local_def Let_def close_fd_def unlink_file_def
        split: if_splits prod.splits)
  ultimately show ?thesis
    using wpa_ctrl_open_leaks_file [of ?p ?st None r st'] n
    by (simp add: SUN_PATH_LEN_def str_starts_def) (simp add: demo_os_def)
qed

end
