(* ===== verification/Cli_State.thy ===== *)
theory Cli_State
  imports Wpa_Ctrl Cli_Text
begin

text \<open>
  The state of \<^verbatim>\<open>libwpa_cli_wrapper.c\<close> (its static variables) on top of the operating system state, the
  connection to the daemon, and the two functions every command handler goes through:
  \<^verbatim>\<open>_wpa_ctrl_command\<close>, which prints the reply, and \<^verbatim>\<open>_wpa_ctrl_command_with_results\<close>, which stores it in
  the caller's buffer. The handlers return the C return value and the new state; \<open>Undef\<close> is an access
  outside an object. Local buffers of the source that the code does not initialise are zero here; the
  model marks as undefined the reads that would see their old contents. \<^verbatim>\<open>edit_clear_line\<close> and
  \<^verbatim>\<open>edit_redraw\<close> only move the cursor and leave the state alone.
\<close>

datatype 'a cptr = Null | Ptr 'a | Dangling

datatype d_type = DT_SOCK | DT_UNKNOWN | DT_OTHER

datatype timer = Try_connection | Ping_timer | Action_ping

record cli = os_state +
  ctrl_conn :: "wpa_ctrl option"
  mon_conn :: "wpa_ctrl option"
  wpa_cli_quit :: bool
  wpa_cli_attached :: bool
  wpa_cli_connected :: int
  wpa_cli_last_id :: int
  ctrl_iface_dir :: string
  client_socket_dir :: "string option"
  ctrl_ifname :: "string cptr"
  pid_file :: "string option"
  action_file :: string
  ping_interval :: int
  interactive :: bool
  ifname_prefix :: "string option"
  bsses :: txt_list
  p2p_peers :: txt_list
  p2p_groups :: txt_list
  ifnames :: txt_list
  networks :: txt_list
  g_wpa_cli_initialized :: bool
  eloop_terminated :: bool
  eloop_socks :: "nat list"
  eloop_timeouts :: "timer list"
  warning_displayed :: bool
  edit_started :: bool
  env :: "(string \<times> string) list"
  exec_log :: "(string \<times> string) list"
  removed_pid_files :: "string list"
  stderr :: string
  strerror :: string
  dir_exists :: "string \<Rightarrow> bool"
  dirents :: "string \<Rightarrow> (d_type \<times> string) list option"
  loop_fuel :: nat

definition printf :: "string \<Rightarrow> 'z os_state_scheme \<Rightarrow> 'z os_state_scheme" where
  "printf t st = st\<lparr>stdout := stdout st @ t\<rparr>"

definition eprintf :: "string \<Rightarrow> cli \<Rightarrow> cli" where
  "eprintf t st = st\<lparr>stderr := stderr st @ t\<rparr>"

text \<open>Lines of text, each with its newline.\<close>

definition lns :: "string list \<Rightarrow> string" where
  "lns ls = concat (map (\<lambda>l. l @ [NL]) ls)"

definition quoted :: "string \<Rightarrow> string" where
  "quoted t = SQ # t @ [SQ]"

section \<open>The connection\<close>

definition WPA_EVENT_BSS_ADDED :: string where "WPA_EVENT_BSS_ADDED = ''CTRL-EVENT-BSS-ADDED ''"
definition WPA_EVENT_BSS_REMOVED :: string where "WPA_EVENT_BSS_REMOVED = ''CTRL-EVENT-BSS-REMOVED ''"

definition wpa_cli_show_event :: "string \<Rightarrow> bool" where
  "wpa_cli_show_event event =
     (case os_strchr event (CHR ''>'') of
        None \<Rightarrow> True
      | Some start \<Rightarrow> \<not> (str_starts (tl start) WPA_EVENT_BSS_ADDED \<or> str_starts (tl start) WPA_EVENT_BSS_REMOVED))"

definition wpa_cli_close_connection :: "cli \<Rightarrow> cli outcome" where
  "wpa_cli_close_connection st =
     (case ctrl_conn st of None \<Rightarrow> Val st
      | Some c \<Rightarrow>
        obind
          (if wpa_cli_attached st then
             (case (if interactive st then mon_conn st else ctrl_conn st) of
                None \<Rightarrow> Undef Null_deref
              | Some m \<Rightarrow> Val ((snd (wpa_ctrl_detach m st))\<lparr>wpa_cli_attached := False\<rparr>))
           else Val st)
          (\<lambda>st. let st = (wpa_ctrl_close (Some c) st)\<lparr>ctrl_conn := None\<rparr>
            in case mon_conn st of
                None \<Rightarrow> Val st
              | Some m \<Rightarrow>
                  let st = st\<lparr>eloop_socks := removeAll (sock m) (eloop_socks st)\<rparr>
                  in Val ((wpa_ctrl_close (Some m) st)\<lparr>mon_conn := None\<rparr>)))"

definition wpa_cli_open_connection :: "string option \<Rightarrow> bool \<Rightarrow> cli \<Rightarrow> (int \<times> cli) outcome" where
  "wpa_cli_open_connection ifname attach st =
     (case ifname of None \<Rightarrow> Val (-1, st)
      | Some ifname \<Rightarrow>
        if (case client_socket_dir st of None \<Rightarrow> False | Some d \<Rightarrow> d \<noteq> [] \<and> \<not> dir_exists st d)
        then Val (-1, eprintf (the (client_socket_dir st) @ '': '' @ lns [strerror st]) st)
        else
          let flen = length (ctrl_iface_dir st) + length ifname + 2;
              (cfile, res) = os_snprintf flen (ctrl_iface_dir st @ ''/'' @ ifname)
          in if os_snprintf_error flen res then Val (-1, st)
             else case wpa_ctrl_open2 (Some cfile) (client_socket_dir st) st of
                 (None, st) \<Rightarrow> Val (-1, st\<lparr>ctrl_conn := None\<rparr>)
               | (Some c, st) \<Rightarrow>
                   let st = st\<lparr>ctrl_conn := Some c\<rparr>;
                       (mon, st) = (if attach \<and> interactive st
                                    then wpa_ctrl_open2 (Some cfile) (client_socket_dir st) st else (None, st));
                       st = st\<lparr>mon_conn := mon\<rparr>
                   in case mon of
                        None \<Rightarrow> Val (0, st)
                      | Some m \<Rightarrow>
                          (case wpa_ctrl_attach m st of
                             (r, st) \<Rightarrow>
                               if r = 0 then
                                 let st = st\<lparr>wpa_cli_attached := True\<rparr>
                                 in Val (0, if interactive st then st\<lparr>eloop_socks := sock m # eloop_socks st\<rparr> else st)
                               else
                                 let st = printf (lns [''Warning: Failed to attach to wpa_supplicant.'']) st
                                 in omap (\<lambda>st. (-1, st)) (wpa_cli_close_connection st)))"

section \<open>Commands whose reply is printed\<close>

definition wpa_cli_msg_cb :: "'z msg_cb" where
  "wpa_cli_msg_cb msg st = printf (lns [msg]) st"

text \<open>
  With an interface prefix the command is built in the buffer that then receives the reply, so that
  an error message shows what is left in the buffer.
\<close>

definition prefixed_cmd :: "string option \<Rightarrow> string \<Rightarrow> cbuf \<Rightarrow> string \<times> cbuf" where
  "prefixed_cmd prefix cmd buf =
     (case prefix of
        None \<Rightarrow> (cmd, buf)
      | Some p \<Rightarrow>
          let buf = (cstrwrite buf (fst (os_snprintf (length buf) (''IFNAME='' @ p @ '' '' @ cmd))))[length buf - 1 := NUL]
          in (cstr_of buf, buf))"

text \<open>A request with a buffer of which the last byte is kept for the terminator.\<close>

definition ctrl_exchange ::
  "wpa_ctrl \<Rightarrow> string option \<Rightarrow> string \<Rightarrow> cbuf \<Rightarrow> cli \<Rightarrow> (int \<times> string \<times> cbuf \<times> nat) \<times> cli" where
  "ctrl_exchange ctrl prefix cmd buf st =
     (let (cmd, buf) = prefixed_cmd prefix cmd buf
      in case wpa_ctrl_request ctrl cmd (butlast buf) (Some wpa_cli_msg_cb) st of
           ((ret, reply, len), st) \<Rightarrow>
             let buf = reply @ [last buf]; shown = (if prefix = None then cmd else cstr_of buf)
             in if ret = -2 then ((-2, shown, buf, len), printf (lns [quoted shown @ '' command timed out.'']) st)
                else if ret < 0 then ((-1, shown, buf, len), printf (lns [quoted shown @ '' command failed.'']) st)
                else ((0, shown, buf[len := NUL], len), st))"

definition print_reply :: "cbuf \<Rightarrow> nat \<Rightarrow> cli \<Rightarrow> cli" where
  "print_reply buf len st =
     (let st = printf (cstr_of buf) st
      in if interactive st \<and> len > 0 \<and> buf ! (len - 1) \<noteq> NL then printf [NL] st else st)"

type_synonym handler = "wpa_ctrl option \<Rightarrow> string list \<Rightarrow> cli \<Rightarrow> (int \<times> cli) outcome"

definition wpa_ctrl_command_gen :: "wpa_ctrl option \<Rightarrow> string \<Rightarrow> bool \<Rightarrow> cli \<Rightarrow> (int \<times> cli) outcome" where
  "wpa_ctrl_command_gen ctrl cmd print st =
     (if ctrl_conn st = None
      then Val (-1, printf (lns [''Not connected to wpa_supplicant - command dropped.'']) st)
      else case ctrl of
          None \<Rightarrow> Undef Null_deref
        | Some c \<Rightarrow>
            (case ctrl_exchange c (ifname_prefix st) cmd (replicate 4096 NUL) st of
               ((ret, shown, buf, len), st) \<Rightarrow>
                 if ret < 0 then Val (ret, st)
                 else Val (0, if print then print_reply buf len st else st)))"

definition wpa_ctrl_command :: "wpa_ctrl option \<Rightarrow> string \<Rightarrow> cli \<Rightarrow> (int \<times> cli) outcome" where
  "wpa_ctrl_command ctrl cmd st = wpa_ctrl_command_gen ctrl cmd True st"

definition too_few_args :: "string \<Rightarrow> nat \<Rightarrow> string" where
  "too_few_args cmd min_args =
     lns [''Invalid '' @ cmd @ '' command - at least '' @ show_nat min_args @ '' argument'' @
          (if min_args > 1 then ''s are'' else '' is'') @ '' required.'']"

definition too_long_command :: string where
  "too_long_command = lns [''Too long command'']"

definition wpa_cli_cmd :: "wpa_ctrl option \<Rightarrow> string \<Rightarrow> nat \<Rightarrow> string list \<Rightarrow> cli \<Rightarrow> (int \<times> cli) outcome" where
  "wpa_cli_cmd ctrl cmd min_args argv st =
     (if length argv < min_args then Val (-1, printf (too_few_args cmd min_args) st)
      else case write_cmd (replicate 4096 NUL) cmd argv of
          (r, buf) \<Rightarrow>
            if r < 0 then Val (-1, printf too_long_command st)
            else wpa_ctrl_command ctrl (cstr_of buf) st)"

section \<open>Commands whose reply is stored\<close>

type_synonym result_handler =
  "wpa_ctrl option \<Rightarrow> string list \<Rightarrow> cbuf \<Rightarrow> cli \<Rightarrow> (int \<times> cbuf \<times> cli) outcome"

definition WPA_CLI_EXEC_RES_UNIMPLEMENTED :: int where "WPA_CLI_EXEC_RES_UNIMPLEMENTED = -100"

definition handler_with_results_default_func :: result_handler where
  "handler_with_results_default_func ctrl argv buf st =
     Val (WPA_CLI_EXEC_RES_UNIMPLEMENTED, buf, printf (lns [''handler_with_results_default_func not implemented!'']) st)"

text \<open>An empty buffer makes the length wrap around; the reply is then stored outside the buffer.\<close>

definition wpa_ctrl_command_with_results_gen ::
  "wpa_ctrl option \<Rightarrow> string \<Rightarrow> bool \<Rightarrow> cbuf \<Rightarrow> cli \<Rightarrow> (int \<times> cbuf \<times> cli) outcome" where
  "wpa_ctrl_command_with_results_gen ctrl cmd print buf st =
     (if ctrl_conn st = None
      then Val (-1, buf, printf (lns [''Not connected to wpa_supplicant - command dropped.'']) st)
      else if buf = [] then Undef Oob_write
      else case ctrl of
          None \<Rightarrow> Undef Null_deref
        | Some c \<Rightarrow>
            (case ctrl_exchange c (ifname_prefix st) cmd buf st of
               ((ret, shown, buf, len), st) \<Rightarrow>
                 if ret < 0 then Val (ret, buf, st)
                 else Val (0, buf, if print then print_reply buf len st else st)))"

definition wpa_ctrl_command_with_results ::
  "wpa_ctrl option \<Rightarrow> string \<Rightarrow> cbuf \<Rightarrow> cli \<Rightarrow> (int \<times> cbuf \<times> cli) outcome" where
  "wpa_ctrl_command_with_results ctrl cmd buf st = wpa_ctrl_command_with_results_gen ctrl cmd False buf st"

definition wpa_cli_cmd_with_results ::
  "wpa_ctrl option \<Rightarrow> string \<Rightarrow> nat \<Rightarrow> string list \<Rightarrow> cbuf \<Rightarrow> cli \<Rightarrow> (int \<times> cbuf \<times> cli) outcome" where
  "wpa_cli_cmd_with_results ctrl cmd min_args argv buf st =
     (if length argv < min_args then Val (-1, buf, printf (too_few_args cmd min_args) st)
      else case write_cmd (replicate 4096 NUL) cmd argv of
          (r, tm_cmd) \<Rightarrow>
            if r < 0 then Val (-1, buf, printf too_long_command st)
            else wpa_ctrl_command_with_results ctrl (cstr_of tm_cmd) buf st)"

section \<open>Completion lists kept from replies\<close>

text \<open>
  The three update functions pass the whole buffer as the room for the reply and then terminate it:
  a reply of 4096 bytes is terminated outside the buffer.
\<close>

definition fetch_reply :: "wpa_ctrl \<Rightarrow> string \<Rightarrow> cli \<Rightarrow> (string option \<times> cli) outcome" where
  "fetch_reply ctrl cmd st =
     (case wpa_ctrl_request ctrl cmd (replicate 4096 NUL) None st of
        ((ret, buf, len), st) \<Rightarrow>
          if ret < 0 then Val (None, st)
          else if len \<ge> length buf then Undef Oob_write
          else Val (Some (cstr_of (buf[len := NUL])), st))"

lemma os_strchr_length: "os_strchr t c = Some r \<Longrightarrow> r \<noteq> [] \<and> length r \<le> length t"
  by (auto dest!: os_strchr_Some)

function bssid_lines :: "txt_list \<Rightarrow> string \<Rightarrow> txt_list" where
  "bssid_lines l pos =
     (case os_strstr pos ''bssid='' of
        None \<Rightarrow> l
      | Some p \<Rightarrow>
          (case os_strchr (drop 6 p) NL of
             None \<Rightarrow> l
           | Some e \<Rightarrow> bssid_lines (snd (cli_txt_list_add l (takeWhile (\<lambda>c. c \<noteq> NL) (drop 6 p)))) (tl e)))"
  by pat_completeness auto
termination
proof (relation "measure (\<lambda>(l, pos). length pos)")
  fix l pos p e
  assume p: "os_strstr pos ''bssid='' = Some p" and e: "os_strchr (drop 6 p) NL = Some e"
  have "length p \<le> length pos" using os_strstr_Some [OF p] by auto
  moreover have "length e \<le> length (drop 6 p)" "e \<noteq> []" using os_strchr_length [OF e] by auto
  ultimately show "((snd (cli_txt_list_add l (takeWhile (\<lambda>c. c \<noteq> NL) (drop 6 p))), tl e), (l, pos)) \<in> measure (\<lambda>(l, pos). length pos)"
    by (cases e) auto
qed simp

declare bssid_lines.simps [simp del]

definition update_bssid_list :: "wpa_ctrl option \<Rightarrow> cli \<Rightarrow> cli outcome" where
  "update_bssid_list ctrl st =
     (case ctrl of None \<Rightarrow> Val st
      | Some c \<Rightarrow>
        obind (fetch_reply c ''BSS RANGE=ALL MASK=0x2'' st) (\<lambda>(r, st).
          case r of None \<Rightarrow> Val st | Some buf \<Rightarrow> Val (st\<lparr>bsses := bssid_lines (bsses st) buf\<rparr>)))"

text \<open>The complete lines of a reply; a last line without newline is ignored.\<close>

function reply_lines :: "string \<Rightarrow> string list" where
  "reply_lines pos =
     (case os_strchr pos NL of
        None \<Rightarrow> []
      | Some e \<Rightarrow> takeWhile (\<lambda>c. c \<noteq> NL) pos # reply_lines (tl e))"
  by pat_completeness auto
termination
proof (relation "measure length")
  fix pos e assume "os_strchr pos NL = Some e"
  then show "(tl e, pos) \<in> measure length" by (auto dest!: os_strchr_Some)
qed simp

declare reply_lines.simps [simp del]

definition update_ifnames :: "wpa_ctrl option \<Rightarrow> cli \<Rightarrow> cli outcome" where
  "update_ifnames ctrl st =
     (let st = st\<lparr>ifnames := cli_txt_list_flush (ifnames st)\<rparr>
      in case ctrl of None \<Rightarrow> Val st
         | Some c \<Rightarrow>
           obind (fetch_reply c ''INTERFACES'' st) (\<lambda>(r, st).
             case r of None \<Rightarrow> Val st
             | Some buf \<Rightarrow>
                 Val (st\<lparr>ifnames := fold (\<lambda>line l.
                   let (t, ret) = os_snprintf 200 (''ifname='' @ line)
                   in if os_snprintf_error 200 ret then l else snd (cli_txt_list_add l t))
                   (reply_lines buf) (ifnames st)\<rparr>)))"

definition update_networks :: "wpa_ctrl option \<Rightarrow> cli \<Rightarrow> cli outcome" where
  "update_networks ctrl st =
     (let st = st\<lparr>networks := cli_txt_list_flush (networks st)\<rparr>
      in case ctrl of None \<Rightarrow> Val st
         | Some c \<Rightarrow>
           obind (fetch_reply c ''LIST_NETWORKS'' st) (\<lambda>(r, st).
             case r of None \<Rightarrow> Val st
             | Some buf \<Rightarrow>
                 Val (st\<lparr>networks := fold (\<lambda>line l. snd (cli_txt_list_add_word l line TAB))
                   (drop 1 (reply_lines buf)) (networks st)\<rparr>)))"

section \<open>The state at start\<close>

text \<open>The initial values of the static variables.\<close>

definition static_init :: "cli \<Rightarrow> cli" where
  "static_init st = st\<lparr>ctrl_conn := None, mon_conn := None, wpa_cli_quit := False, wpa_cli_attached := False,
     wpa_cli_connected := -1, wpa_cli_last_id := 0, ctrl_iface_dir := ''/var/run/wpa_supplicant'',
     client_socket_dir := None, ctrl_ifname := Null, pid_file := None, ping_interval := 5, interactive := False,
     ifname_prefix := None, bsses := [], p2p_peers := [], p2p_groups := [], ifnames := [], networks := [],
     g_wpa_cli_initialized := False, warning_displayed := False, edit_started := False\<rparr>"

text \<open>A small system with one daemon for the interface wlan0, whose reactions are the parameter.\<close>

definition demo_cli :: "((nat \<times> string) list \<Rightarrow> (nat \<times> sock_ev) list) \<Rightarrow> cli" where
  "demo_cli p = \<lparr>peer = p, sent = [], inbox = (\<lambda>_. []), send_script = [], open_fds = [], next_fd = 3, fd_limit = 16,
     files = [], bind_denied = (\<lambda>_. False), servers = [''/var/run/wpa_supplicant/wlan0''], pid = 7, ctrl_counter = 0,
     clock = 1, stdout = [],
     ctrl_conn = None, mon_conn = None, wpa_cli_quit = False, wpa_cli_attached = False, wpa_cli_connected = -1,
     wpa_cli_last_id = 0, ctrl_iface_dir = ''/var/run/wpa_supplicant'', client_socket_dir = None, ctrl_ifname = Null,
     pid_file = None, action_file = [], ping_interval = 5, interactive = False, ifname_prefix = None, bsses = [],
     p2p_peers = [], p2p_groups = [], ifnames = [], networks = [], g_wpa_cli_initialized = False,
     eloop_terminated = False, eloop_socks = [], eloop_timeouts = [], warning_displayed = False, edit_started = False,
     env = [], exec_log = [], removed_pid_files = [], stderr = [], strerror = ''No such file or directory'', dir_exists = (\<lambda>_. True),
     dirents = (\<lambda>d. if d = ''/var/run/wpa_supplicant'' then Some [(DT_OTHER, ''.''), (DT_SOCK, ''wlan0'')] else None),
     loop_fuel = 0\<rparr>"

text \<open>The same system with the control connection open on descriptor 3.\<close>

definition demo_connected :: "((nat \<times> string) list \<Rightarrow> (nat \<times> sock_ev) list) \<Rightarrow> cli" where
  "demo_connected p = (demo_cli p)\<lparr>ctrl_conn := Some demo_ctrl, ctrl_ifname := Ptr ''wlan0'', open_fds := [3], next_fd := 4,
     files := [local_path demo_ctrl], g_wpa_cli_initialized := True\<rparr>"

end
