(* ===== verification/Cli_Commands.thy ===== *)
theory Cli_Commands
  imports Cli_State
begin

text \<open>
  The command handlers of \<^verbatim>\<open>libwpa_cli_wrapper.c\<close> (\<^verbatim>\<open>wpa_cli_cmd_*\<close>), in the order of the source: each
  turns its arguments into a request of the control interface, after the checks of the number of
  arguments, and prints the reply. Handlers that the source compiles only with some option are all
  defined here; the command table selects them.
\<close>

definition wpa_cli_version :: string where
  "wpa_cli_version = ''wpa_cli v2.6'' @ [NL] @ ''Copyright (c) 2004-2016, Jouni Malinen <j@w1.fi> and contributors''"

definition cli_full_license :: string where
  "cli_full_license = lns
     [''This software may be distributed under the terms of the BSD license.'',
      [],
      ''Redistribution and use in source and binary forms, with or without'',
      ''modification, are permitted provided that the following conditions are'',
      ''met:'',
      [],
      ''1. Redistributions of source code must retain the above copyright'',
      ''   notice, this list of conditions and the following disclaimer.'',
      [],
      ''2. Redistributions in binary form must reproduce the above copyright'',
      ''   notice, this list of conditions and the following disclaimer in the'',
      ''   documentation and/or other materials provided with the distribution.'',
      [],
      ''3. Neither the name(s) of the above-listed copyright holder(s) nor the'',
      ''   names of its contributors may be used to endorse or promote products'',
      ''   derived from this software without specific prior written permission.'',
      [],
      ''THIS SOFTWARE IS PROVIDED BY THE COPYRIGHT HOLDERS AND CONTRIBUTORS'',
      [DQ] @ ''AS IS'' @ [DQ] @ '' AND ANY EXPRESS OR IMPLIED WARRANTIES, INCLUDING, BUT NOT'',
      ''LIMITED TO, THE IMPLIED WARRANTIES OF MERCHANTABILITY AND FITNESS FOR'',
      ''A PARTICULAR PURPOSE ARE DISCLAIMED. IN NO EVENT SHALL THE COPYRIGHT'',
      ''OWNER OR CONTRIBUTORS BE LIABLE FOR ANY DIRECT, INDIRECT, INCIDENTAL,'',
      ''SPECIAL, EXEMPLARY, OR CONSEQUENTIAL DAMAGES (INCLUDING, BUT NOT'',
      ''LIMITED TO, PROCUREMENT OF SUBSTITUTE GOODS OR SERVICES; LOSS OF USE,'',
      ''DATA, OR PROFITS; OR BUSINESS INTERRUPTION) HOWEVER CAUSED AND ON ANY'',
      ''THEORY OF LIABILITY, WHETHER IN CONTRACT, STRICT LIABILITY, OR TORT'',
      ''(INCLUDING NEGLIGENCE OR OTHERWISE) ARISING IN ANY WAY OUT OF THE USE'',
      ''OF THIS SOFTWARE, EVEN IF ADVISED OF THE POSSIBILITY OF SUCH DAMAGE.'',
      []]"

text \<open>Formatting into a local buffer of fixed size, with the check for truncation.\<close>

definition format_cmd :: "nat \<Rightarrow> string \<Rightarrow> string option" where
  "format_cmd sz t = (let (w, res) = os_snprintf sz t in if os_snprintf_error sz res then None else Some w)"

text \<open>
  The seven answers to requests of the daemon (\<^verbatim>\<open>CTRL-RSP-\<close>) share one shape: the first two arguments
  form the head of the command, the others are appended with spaces.
\<close>

fun append_args :: "nat \<Rightarrow> string \<Rightarrow> string list \<Rightarrow> string option" where
  "append_args sz cmd [] = Some cmd"
| "append_args sz cmd (a # argv) =
     (let (w, res) = os_snprintf (sz - length cmd) ('' '' @ a)
      in if os_snprintf_error (sz - length cmd) res then None else append_args sz (cmd @ w) argv)"

definition ctrl_rsp_command :: "string \<Rightarrow> string \<Rightarrow> handler" where
  "ctrl_rsp_command name usage ctrl argv st =
     (if length argv < 2 then Val (-1, printf usage st)
      else
        case (case format_cmd 256 (''CTRL-RSP-'' @ name @ ''-'' @ argv ! 0 @ '':'' @ argv ! 1) of
                None \<Rightarrow> None | Some head \<Rightarrow> append_args 256 head (drop 2 argv)) of
          None \<Rightarrow> Val (-1, printf (lns [''Too long '' @ name @ '' command.'']) st)
        | Some cmd \<Rightarrow> wpa_ctrl_command ctrl cmd st)"

section \<open>Handlers\<close>

definition wpa_cli_cmd_ifname :: handler where
  "wpa_cli_cmd_ifname ctrl argv st = wpa_ctrl_command ctrl ''IFNAME'' st"

definition wpa_cli_cmd_status :: handler where
  "wpa_cli_cmd_status ctrl argv st =
     (case argv of
        a # _ \<Rightarrow>
          if os_strcmp a ''verbose'' = 0 then wpa_ctrl_command ctrl ''STATUS-VERBOSE'' st
          else if os_strcmp a ''wps'' = 0 then wpa_ctrl_command ctrl ''STATUS-WPS'' st
          else if os_strcmp a ''driver'' = 0 then wpa_ctrl_command ctrl ''STATUS-DRIVER'' st
          else wpa_ctrl_command ctrl ''STATUS'' st
      | [] \<Rightarrow> wpa_ctrl_command ctrl ''STATUS'' st)"

definition wpa_cli_cmd_ping :: handler where
  "wpa_cli_cmd_ping ctrl argv st = wpa_ctrl_command ctrl ''PING'' st"

definition wpa_cli_cmd_relog :: handler where
  "wpa_cli_cmd_relog ctrl argv st = wpa_ctrl_command ctrl ''RELOG'' st"

definition wpa_cli_cmd_note :: handler where
  "wpa_cli_cmd_note ctrl argv st = wpa_cli_cmd ctrl ''NOTE'' 1 argv st"

definition wpa_cli_cmd_mib :: handler where
  "wpa_cli_cmd_mib ctrl argv st = wpa_ctrl_command ctrl ''MIB'' st"

definition wpa_cli_cmd_pmksa :: handler where
  "wpa_cli_cmd_pmksa ctrl argv st = wpa_ctrl_command ctrl ''PMKSA'' st"

definition wpa_cli_cmd_pmksa_flush :: handler where
  "wpa_cli_cmd_pmksa_flush ctrl argv st = wpa_ctrl_command ctrl ''PMKSA_FLUSH'' st"

definition wpa_cli_cmd_license :: handler where
  "wpa_cli_cmd_license ctrl argv st =
     Val (0, printf (wpa_cli_version @ [NL, NL] @ cli_full_license @ [NL]) st)"

definition wpa_cli_cmd_quit :: handler where
  "wpa_cli_cmd_quit ctrl argv st =
     (let st = st\<lparr>wpa_cli_quit := True\<rparr>
      in Val (0, if interactive st then st\<lparr>eloop_terminated := True\<rparr> else st))"

definition wpa_cli_cmd_set :: handler where
  "wpa_cli_cmd_set ctrl argv st =
     (if length argv = 1 then
        (case format_cmd 256 (''SET '' @ argv ! 0 @ '' '') of
           None \<Rightarrow> Val (-1, printf (lns [''Too long SET command.'']) st)
         | Some cmd \<Rightarrow> wpa_ctrl_command ctrl cmd st)
      else wpa_cli_cmd ctrl ''SET'' 2 argv st)"

definition wpa_cli_cmd_dump :: handler where
  "wpa_cli_cmd_dump ctrl argv st = wpa_ctrl_command ctrl ''DUMP'' st"

definition wpa_cli_cmd_driver_flags :: handler where
  "wpa_cli_cmd_driver_flags ctrl argv st = wpa_ctrl_command ctrl ''DRIVER_FLAGS'' st"

definition wpa_cli_cmd_get :: handler where
  "wpa_cli_cmd_get ctrl argv st = wpa_cli_cmd ctrl ''GET'' 1 argv st"

definition wpa_cli_cmd_logoff :: handler where
  "wpa_cli_cmd_logoff ctrl argv st = wpa_ctrl_command ctrl ''LOGOFF'' st"

definition wpa_cli_cmd_logon :: handler where
  "wpa_cli_cmd_logon ctrl argv st = wpa_ctrl_command ctrl ''LOGON'' st"

definition wpa_cli_cmd_reassociate :: handler where
  "wpa_cli_cmd_reassociate ctrl argv st = wpa_ctrl_command ctrl ''REASSOCIATE'' st"

definition wpa_cli_cmd_reattach :: handler where
  "wpa_cli_cmd_reattach ctrl argv st = wpa_ctrl_command ctrl ''REATTACH'' st"

definition wpa_cli_cmd_preauthenticate :: handler where
  "wpa_cli_cmd_preauthenticate ctrl argv st = wpa_cli_cmd ctrl ''PREAUTH'' 1 argv st"

definition wpa_cli_cmd_ap_scan :: handler where
  "wpa_cli_cmd_ap_scan ctrl argv st = wpa_cli_cmd ctrl ''AP_SCAN'' 1 argv st"

definition wpa_cli_cmd_scan_interval :: handler where
  "wpa_cli_cmd_scan_interval ctrl argv st = wpa_cli_cmd ctrl ''SCAN_INTERVAL'' 1 argv st"

definition wpa_cli_cmd_bss_expire_age :: handler where
  "wpa_cli_cmd_bss_expire_age ctrl argv st = wpa_cli_cmd ctrl ''BSS_EXPIRE_AGE'' 1 argv st"

definition wpa_cli_cmd_bss_expire_count :: handler where
  "wpa_cli_cmd_bss_expire_count ctrl argv st = wpa_cli_cmd ctrl ''BSS_EXPIRE_COUNT'' 1 argv st"

definition wpa_cli_cmd_bss_flush :: handler where
  "wpa_cli_cmd_bss_flush ctrl argv st =
     (case format_cmd 256 (if length argv < 1 then ''BSS_FLUSH 0'' else ''BSS_FLUSH '' @ argv ! 0) of
        None \<Rightarrow> Val (-1, printf (lns [''Too long BSS_FLUSH command.'']) st)
      | Some cmd \<Rightarrow> wpa_ctrl_command ctrl cmd st)"

definition wpa_cli_cmd_stkstart :: handler where
  "wpa_cli_cmd_stkstart ctrl argv st = wpa_cli_cmd ctrl ''STKSTART'' 1 argv st"

definition wpa_cli_cmd_ft_ds :: handler where
  "wpa_cli_cmd_ft_ds ctrl argv st = wpa_cli_cmd ctrl ''FT_DS'' 1 argv st"

definition wpa_cli_cmd_wps_pbc :: handler where
  "wpa_cli_cmd_wps_pbc ctrl argv st = wpa_cli_cmd ctrl ''WPS_PBC'' 0 argv st"

definition wpa_cli_cmd_wps_pin :: handler where
  "wpa_cli_cmd_wps_pin ctrl argv st =
     (if length argv = 0
      then Val (-1, printf (lns [''Invalid WPS_PIN command: need one or two arguments:'', ''- BSSID: use '' @ [SQ] @ ''any'' @ [SQ] @ '' to select any'', ''- PIN: optional, used only with devices that have no display'']) st)
      else wpa_cli_cmd ctrl ''WPS_PIN'' 1 argv st)"

definition wpa_cli_cmd_wps_check_pin :: handler where
  "wpa_cli_cmd_wps_check_pin ctrl argv st = wpa_cli_cmd ctrl ''WPS_CHECK_PIN'' 1 argv st"

definition wpa_cli_cmd_wps_cancel :: handler where
  "wpa_cli_cmd_wps_cancel ctrl argv st = wpa_ctrl_command ctrl ''WPS_CANCEL'' st"

definition wpa_cli_cmd_wps_nfc :: handler where
  "wpa_cli_cmd_wps_nfc ctrl argv st = wpa_cli_cmd ctrl ''WPS_NFC'' 0 argv st"

definition wpa_cli_cmd_wps_nfc_config_token :: handler where
  "wpa_cli_cmd_wps_nfc_config_token ctrl argv st = wpa_cli_cmd ctrl ''WPS_NFC_CONFIG_TOKEN'' 1 argv st"

definition wpa_cli_cmd_wps_nfc_token :: handler where
  "wpa_cli_cmd_wps_nfc_token ctrl argv st = wpa_cli_cmd ctrl ''WPS_NFC_TOKEN'' 1 argv st"

definition wpa_cli_cmd_wps_nfc_tag_read :: handler where
  "wpa_cli_cmd_wps_nfc_tag_read ctrl argv st =
     (if length argv \<noteq> 1
      then Val (-1, printf (lns [''Invalid '' @ quoted ''wps_nfc_tag_read'' @ '' command - one argument is required.'']) st)
      else let buflen = 18 + length (argv ! 0)
        in wpa_ctrl_command ctrl (fst (os_snprintf buflen (''WPS_NFC_TAG_READ '' @ argv ! 0))) st)"

definition wpa_cli_cmd_nfc_get_handover_req :: handler where
  "wpa_cli_cmd_nfc_get_handover_req ctrl argv st = wpa_cli_cmd ctrl ''NFC_GET_HANDOVER_REQ'' 2 argv st"

definition wpa_cli_cmd_nfc_get_handover_sel :: handler where
  "wpa_cli_cmd_nfc_get_handover_sel ctrl argv st = wpa_cli_cmd ctrl ''NFC_GET_HANDOVER_SEL'' 2 argv st"

definition wpa_cli_cmd_nfc_report_handover :: handler where
  "wpa_cli_cmd_nfc_report_handover ctrl argv st = wpa_cli_cmd ctrl ''NFC_REPORT_HANDOVER'' 4 argv st"

text \<open>
  The characters of a name printed with \<^verbatim>\<open>%02x\<close> as \<^verbatim>\<open>char\<close> values into three bytes each: a character
  outside ASCII is negative, prints as eight digits and leaves the first two, \<open>ff\<close>.
\<close>

definition hex_of_char :: "char \<Rightarrow> string" where
  "hex_of_char c = fst (os_snprintf 3 (if (of_char c :: nat) < 128 then hex02 (of_char c) else ''ffffff'' @ hex02 (of_char c)))"

definition hex_arg :: "nat \<Rightarrow> string \<Rightarrow> string" where
  "hex_arg maxlen arg = concat (map hex_of_char (take maxlen arg))"

definition six_args :: "string \<Rightarrow> string list \<Rightarrow> string" where
  "six_args name argv =
     (let ssid_hex = hex_arg SSID_MAX_LEN (argv ! 2);
          key_hex = (if length argv = 6 then hex_arg 64 (argv ! 5) else [])
      in name @ '' '' @ argv ! 0 @ '' '' @ argv ! 1 @ '' '' @ ssid_hex @ '' '' @ argv ! 3 @ '' '' @ argv ! 4 @ '' '' @ key_hex)"

definition wpa_cli_cmd_wps_reg :: handler where
  "wpa_cli_cmd_wps_reg ctrl argv st =
     (if length argv \<notin> {2, 5, 6}
      then Val (-1, printf (lns
        [''Invalid WPS_REG command: need two arguments:'', ''- BSSID of the target AP'', ''- AP PIN'',
         ''Alternatively, six arguments can be used to reconfigure the AP:'', ''- BSSID of the target AP'',
         ''- AP PIN'', ''- new SSID'', ''- new auth (OPEN, WPAPSK, WPA2PSK)'',
         ''- new encr (NONE, WEP, TKIP, CCMP)'', ''- new key'']) st)
      else
        case format_cmd 256 (if length argv = 2 then ''WPS_REG '' @ argv ! 0 @ '' '' @ argv ! 1 else six_args ''WPS_REG'' argv) of
          None \<Rightarrow> Val (-1, printf (lns [''Too long WPS_REG command.'']) st)
        | Some cmd \<Rightarrow> wpa_ctrl_command ctrl cmd st)"

definition wpa_cli_cmd_wps_ap_pin :: handler where
  "wpa_cli_cmd_wps_ap_pin ctrl argv st = wpa_cli_cmd ctrl ''WPS_AP_PIN'' 1 argv st"

definition wpa_cli_cmd_wps_er_start :: handler where
  "wpa_cli_cmd_wps_er_start ctrl argv st = wpa_cli_cmd ctrl ''WPS_ER_START'' 0 argv st"

definition wpa_cli_cmd_wps_er_stop :: handler where
  "wpa_cli_cmd_wps_er_stop ctrl argv st = wpa_ctrl_command ctrl ''WPS_ER_STOP'' st"

definition wpa_cli_cmd_wps_er_pin :: handler where
  "wpa_cli_cmd_wps_er_pin ctrl argv st =
     (if length argv < 2
      then Val (-1, printf (lns [''Invalid WPS_ER_PIN command: need at least two arguments:'', ''- UUID: use '' @ [SQ] @ ''any'' @ [SQ] @ '' to select any'', ''- PIN: Enrollee PIN'', ''optional: - Enrollee MAC address'']) st)
      else wpa_cli_cmd ctrl ''WPS_ER_PIN'' 2 argv st)"

definition wpa_cli_cmd_wps_er_pbc :: handler where
  "wpa_cli_cmd_wps_er_pbc ctrl argv st = wpa_cli_cmd ctrl ''WPS_ER_PBC'' 1 argv st"

definition wpa_cli_cmd_wps_er_learn :: handler where
  "wpa_cli_cmd_wps_er_learn ctrl argv st =
     (if length argv \<noteq> 2
      then Val (-1, printf (lns [''Invalid WPS_ER_LEARN command: need two arguments:'', ''- UUID: specify which AP to use'', ''- PIN: AP PIN'']) st)
      else wpa_cli_cmd ctrl ''WPS_ER_LEARN'' 2 argv st)"

definition wpa_cli_cmd_wps_er_set_config :: handler where
  "wpa_cli_cmd_wps_er_set_config ctrl argv st =
     (if length argv \<noteq> 2
      then Val (-1, printf (lns [''Invalid WPS_ER_SET_CONFIG command: need two arguments:'', ''- UUID: specify which AP to use'', ''- Network configuration id'']) st)
      else wpa_cli_cmd ctrl ''WPS_ER_SET_CONFIG'' 2 argv st)"

definition wpa_cli_cmd_wps_er_config :: handler where
  "wpa_cli_cmd_wps_er_config ctrl argv st =
     (if length argv \<notin> {5, 6}
      then Val (-1, printf (lns
        [''Invalid WPS_ER_CONFIG command: need six arguments:'', ''- AP UUID'', ''- AP PIN'', ''- new SSID'',
         ''- new auth (OPEN, WPAPSK, WPA2PSK)'', ''- new encr (NONE, WEP, TKIP, CCMP)'', ''- new key'']) st)
      else
        case format_cmd 256 (six_args ''WPS_ER_CONFIG'' argv) of
          None \<Rightarrow> Val (-1, printf (lns [''Too long WPS_ER_CONFIG command.'']) st)
        | Some cmd \<Rightarrow> wpa_ctrl_command ctrl cmd st)"

definition wpa_cli_cmd_wps_er_nfc_config_token :: handler where
  "wpa_cli_cmd_wps_er_nfc_config_token ctrl argv st =
     (if length argv \<noteq> 2
      then Val (-1, printf (lns [''Invalid WPS_ER_NFC_CONFIG_TOKEN command: need two arguments:'', ''- WPS/NDEF: token format'', ''- UUID: specify which AP to use'']) st)
      else wpa_cli_cmd ctrl ''WPS_ER_NFC_CONFIG_TOKEN'' 2 argv st)"

definition wpa_cli_cmd_ibss_rsn :: handler where
  "wpa_cli_cmd_ibss_rsn ctrl argv st = wpa_cli_cmd ctrl ''IBSS_RSN'' 1 argv st"

definition wpa_cli_cmd_level :: handler where
  "wpa_cli_cmd_level ctrl argv st = wpa_cli_cmd ctrl ''LEVEL'' 1 argv st"

definition wpa_cli_cmd_identity :: handler where
  "wpa_cli_cmd_identity = ctrl_rsp_command ''IDENTITY''
     (lns [''Invalid IDENTITY command: needs two arguments (network id and identity)''])"

definition wpa_cli_cmd_password :: handler where
  "wpa_cli_cmd_password = ctrl_rsp_command ''PASSWORD''
     (lns [''Invalid PASSWORD command: needs two arguments (network id and password)''])"

definition wpa_cli_cmd_new_password :: handler where
  "wpa_cli_cmd_new_password = ctrl_rsp_command ''NEW_PASSWORD''
     (lns [''Invalid NEW_PASSWORD command: needs two arguments (network id and password)''])"

definition wpa_cli_cmd_pin :: handler where
  "wpa_cli_cmd_pin = ctrl_rsp_command ''PIN''
     (lns [''Invalid PIN command: needs two arguments (network id and pin)''])"

definition wpa_cli_cmd_otp :: handler where
  "wpa_cli_cmd_otp = ctrl_rsp_command ''OTP''
     (lns [''Invalid OTP command: needs two arguments (network id and password)''])"

definition wpa_cli_cmd_sim :: handler where
  "wpa_cli_cmd_sim = ctrl_rsp_command ''SIM''
     (lns [''Invalid SIM command: needs two arguments (network id and SIM operation response)''])"

definition wpa_cli_cmd_passphrase :: handler where
  "wpa_cli_cmd_passphrase = ctrl_rsp_command ''PASSPHRASE''
     (lns [''Invalid PASSPHRASE command: needs two arguments (network id and passphrase)''])"

definition wpa_cli_cmd_bssid :: handler where
  "wpa_cli_cmd_bssid ctrl argv st =
     (if length argv < 2
      then Val (-1, printf (lns [''Invalid BSSID command: needs two arguments (network id and BSSID)'']) st)
      else wpa_cli_cmd ctrl ''BSSID'' 2 argv st)"

definition wpa_cli_cmd_blacklist :: handler where
  "wpa_cli_cmd_blacklist ctrl argv st = wpa_cli_cmd ctrl ''BLACKLIST'' 0 argv st"

definition wpa_cli_cmd_log_level :: handler where
  "wpa_cli_cmd_log_level ctrl argv st = wpa_cli_cmd ctrl ''LOG_LEVEL'' 0 argv st"

definition wpa_cli_cmd_list_networks :: handler where
  "wpa_cli_cmd_list_networks ctrl argv st = wpa_ctrl_command ctrl ''LIST_NETWORKS'' st"

definition wpa_cli_cmd_select_network :: handler where
  "wpa_cli_cmd_select_network ctrl argv st = wpa_cli_cmd ctrl ''SELECT_NETWORK'' 1 argv st"

definition wpa_cli_cmd_enable_network :: handler where
  "wpa_cli_cmd_enable_network ctrl argv st = wpa_cli_cmd ctrl ''ENABLE_NETWORK'' 1 argv st"

definition wpa_cli_cmd_disable_network :: handler where
  "wpa_cli_cmd_disable_network ctrl argv st = wpa_cli_cmd ctrl ''DISABLE_NETWORK'' 1 argv st"

definition then_update_networks :: "wpa_ctrl option \<Rightarrow> (int \<times> cli) outcome \<Rightarrow> (int \<times> cli) outcome" where
  "then_update_networks ctrl m =
     obind m (\<lambda>(res, st). if interactive st then omap (\<lambda>st. (res, st)) (update_networks ctrl st) else Val (res, st))"

definition wpa_cli_cmd_add_network :: handler where
  "wpa_cli_cmd_add_network ctrl argv st = then_update_networks ctrl (wpa_ctrl_command ctrl ''ADD_NETWORK'' st)"

definition wpa_cli_cmd_remove_network :: handler where
  "wpa_cli_cmd_remove_network ctrl argv st =
     then_update_networks ctrl (wpa_cli_cmd ctrl ''REMOVE_NETWORK'' 1 argv st)"

definition network_variables_text :: string where
  "network_variables_text = lns
     [''set_network variables:'',
      ''  ssid (network name, SSID)'',
      ''  psk (WPA passphrase or pre-shared key)'',
      ''  key_mgmt (key management protocol)'',
      ''  identity (EAP identity)'',
      ''  password (EAP password)'',
      ''  ...'',
      [],
      ''Note: Values are entered in the same format as the configuration file is using,'',
      ''i.e., strings values need to be inside double quotation marks.'',
      ''For example: set_network 1 ssid '' @ [DQ] @ ''network name'' @ [DQ],
      [],
      ''Please see wpa_supplicant.conf documentation for full list of'',
      ''available variables.'']"

definition wpa_cli_show_network_variables :: "cli \<Rightarrow> cli" where
  "wpa_cli_show_network_variables st = printf network_variables_text st"

definition wpa_cli_cmd_set_network :: handler where
  "wpa_cli_cmd_set_network ctrl argv st =
     (if argv = [] then Val (0, wpa_cli_show_network_variables st)
      else if length argv < 3
      then Val (-1, printf (lns [''Invalid SET_NETWORK command: needs three arguments'', ''(network id, variable name, and value)'']) st)
      else wpa_cli_cmd ctrl ''SET_NETWORK'' 3 argv st)"

definition wpa_cli_cmd_get_network :: handler where
  "wpa_cli_cmd_get_network ctrl argv st =
     (if argv = [] then Val (0, wpa_cli_show_network_variables st)
      else if length argv \<noteq> 2
      then Val (-1, printf (lns [''Invalid GET_NETWORK command: needs two arguments'', ''(network id and variable name)'']) st)
      else wpa_cli_cmd ctrl ''GET_NETWORK'' 2 argv st)"

definition wpa_cli_cmd_dup_network :: handler where
  "wpa_cli_cmd_dup_network ctrl argv st =
     (if argv = [] then Val (0, wpa_cli_show_network_variables st)
      else if length argv < 3
      then Val (-1, printf (lns [''Invalid DUP_NETWORK command: needs three arguments'', ''(src netid, dest netid, and variable name)'']) st)
      else wpa_cli_cmd ctrl ''DUP_NETWORK'' 3 argv st)"

definition wpa_cli_cmd_list_creds :: handler where
  "wpa_cli_cmd_list_creds ctrl argv st = wpa_ctrl_command ctrl ''LIST_CREDS'' st"

definition wpa_cli_cmd_add_cred :: handler where
  "wpa_cli_cmd_add_cred ctrl argv st = wpa_ctrl_command ctrl ''ADD_CRED'' st"

definition wpa_cli_cmd_remove_cred :: handler where
  "wpa_cli_cmd_remove_cred ctrl argv st = wpa_cli_cmd ctrl ''REMOVE_CRED'' 1 argv st"

definition wpa_cli_cmd_set_cred :: handler where
  "wpa_cli_cmd_set_cred ctrl argv st =
     (if length argv \<noteq> 3
      then Val (-1, printf (lns [''Invalid SET_CRED command: needs three arguments'', ''(cred id, variable name, and value)'']) st)
      else wpa_cli_cmd ctrl ''SET_CRED'' 3 argv st)"

definition wpa_cli_cmd_get_cred :: handler where
  "wpa_cli_cmd_get_cred ctrl argv st =
     (if length argv \<noteq> 2
      then Val (-1, printf (lns [''Invalid GET_CRED command: needs two arguments'', ''(cred id, variable name)'']) st)
      else wpa_cli_cmd ctrl ''GET_CRED'' 2 argv st)"

definition wpa_cli_cmd_disconnect :: handler where
  "wpa_cli_cmd_disconnect ctrl argv st = wpa_ctrl_command ctrl ''DISCONNECT'' st"

definition wpa_cli_cmd_reconnect :: handler where
  "wpa_cli_cmd_reconnect ctrl argv st = wpa_ctrl_command ctrl ''RECONNECT'' st"

definition wpa_cli_cmd_save_config :: handler where
  "wpa_cli_cmd_save_config ctrl argv st = wpa_ctrl_command ctrl ''SAVE_CONFIG'' st"

definition wpa_cli_cmd_scan :: handler where
  "wpa_cli_cmd_scan ctrl argv st = wpa_cli_cmd ctrl ''SCAN'' 0 argv st"

definition wpa_cli_cmd_scan_results :: handler where
  "wpa_cli_cmd_scan_results ctrl argv st = wpa_ctrl_command ctrl ''SCAN_RESULTS'' st"

definition wpa_cli_cmd_abort_scan :: handler where
  "wpa_cli_cmd_abort_scan ctrl argv st = wpa_ctrl_command ctrl ''ABORT_SCAN'' st"

definition wpa_cli_cmd_bss :: handler where
  "wpa_cli_cmd_bss ctrl argv st = wpa_cli_cmd ctrl ''BSS'' 1 argv st"

definition wpa_cli_cmd_get_capability :: handler where
  "wpa_cli_cmd_get_capability ctrl argv st =
     (if length argv < 1 \<or> length argv > 2
      then Val (-1, printf (lns [''Invalid GET_CAPABILITY command: need either one or two arguments'']) st)
      else if length argv = 2 \<and> os_strcmp (argv ! 1) ''strict'' \<noteq> 0
      then Val (-1, printf (lns [''Invalid GET_CAPABILITY command: second argument, if any, must be '' @ quoted ''strict'']) st)
      else wpa_cli_cmd ctrl ''GET_CAPABILITY'' 1 argv st)"

definition wpa_cli_list_interfaces :: "wpa_ctrl option \<Rightarrow> cli \<Rightarrow> (int \<times> cli) outcome" where
  "wpa_cli_list_interfaces ctrl st = wpa_ctrl_command ctrl ''INTERFACES'' (printf (lns [''Available interfaces:'']) st)"

definition wpa_cli_cmd_interface :: handler where
  "wpa_cli_cmd_interface ctrl argv st =
     (case argv of
        [] \<Rightarrow> omap (\<lambda>(r, st). (0, st)) (wpa_cli_list_interfaces ctrl st)
      | ifname # _ \<Rightarrow>
          obind (wpa_cli_close_connection st) (\<lambda>st.
            if ctrl_ifname st = Dangling then Undef Use_after_free
            else let st = st\<lparr>ctrl_ifname := Ptr ifname\<rparr>
              in omap (\<lambda>(r, st).
                   (0, if r = 0 then printf (lns [''Connected to interface '' @ [SQ] @ ifname @ ''.'']) st
                       else printf (lns [''Could not connect to interface '' @ quoted ifname @ '' - re-trying'']) st))
                   (wpa_cli_open_connection (Some ifname) True st)))"

definition wpa_cli_cmd_reconfigure :: handler where
  "wpa_cli_cmd_reconfigure ctrl argv st = wpa_ctrl_command ctrl ''RECONFIGURE'' st"

definition wpa_cli_cmd_terminate :: handler where
  "wpa_cli_cmd_terminate ctrl argv st = wpa_ctrl_command ctrl ''TERMINATE'' st"

definition arg_or_empty :: "string list \<Rightarrow> nat \<Rightarrow> string" where
  "arg_or_empty argv i = (if length argv > i then argv ! i else [])"

definition wpa_cli_cmd_interface_add :: handler where
  "wpa_cli_cmd_interface_add ctrl argv st =
     (if length argv < 1
      then Val (-1, printf (lns [''Invalid INTERFACE_ADD command: needs at least one argument (interface name)'',
        ''All arguments: ifname confname driver ctrl_interface driver_param bridge_name [create]'']) st)
      else
        case format_cmd 256 (''INTERFACE_ADD '' @ argv ! 0 @ concat (map (\<lambda>i. TAB # arg_or_empty argv i) [1..<8])) of
          None \<Rightarrow> Val (-1, st)
        | Some cmd \<Rightarrow> wpa_ctrl_command ctrl cmd st)"

definition wpa_cli_cmd_interface_remove :: handler where
  "wpa_cli_cmd_interface_remove ctrl argv st = wpa_cli_cmd ctrl ''INTERFACE_REMOVE'' 1 argv st"

definition wpa_cli_cmd_interface_list :: handler where
  "wpa_cli_cmd_interface_list ctrl argv st = wpa_ctrl_command ctrl ''INTERFACE_LIST'' st"

definition wpa_cli_cmd_sta :: handler where
  "wpa_cli_cmd_sta ctrl argv st = wpa_cli_cmd ctrl ''STA'' 1 argv st"

text \<open>The loop over the stations runs as long as the daemon names a next one; \<open>loop_fuel\<close> bounds it.\<close>

definition wpa_ctrl_command_sta :: "wpa_ctrl option \<Rightarrow> string \<Rightarrow> string \<Rightarrow> cli \<Rightarrow> (int \<times> string \<times> cli) outcome" where
  "wpa_ctrl_command_sta ctrl cmd addr st =
     (if ctrl_conn st = None
      then Val (-1, addr, printf (lns [''Not connected to hostapd - command dropped.'']) st)
      else case ctrl of
          None \<Rightarrow> Undef Null_deref
        | Some c \<Rightarrow>
            (case ctrl_exchange c (ifname_prefix st) cmd (replicate 4096 NUL) st of
               ((ret, shown, buf, len), st) \<Rightarrow>
                 if ret < 0 then Val (ret, addr, st)
                 else if take 4 buf = ''FAIL'' then Val (-1, addr, st)
                 else let st = printf (cstr_of buf) st
                   in Val (0, take 31 (takeWhile (\<lambda>c. c \<noteq> NL) (cstr_of buf)), st)))"

fun all_sta_loop :: "nat \<Rightarrow> wpa_ctrl option \<Rightarrow> string \<Rightarrow> cli \<Rightarrow> (int \<times> cli) outcome" where
  "all_sta_loop 0 ctrl addr st = Loops"
| "all_sta_loop (Suc n) ctrl addr st =
     obind (wpa_ctrl_command_sta ctrl (fst (os_snprintf 64 (''STA-NEXT '' @ addr))) addr st)
       (\<lambda>(r, addr, st). if r = 0 then all_sta_loop n ctrl addr st else Val (-1, st))"

definition wpa_cli_cmd_all_sta :: handler where
  "wpa_cli_cmd_all_sta ctrl argv st =
     obind (wpa_ctrl_command_sta ctrl ''STA-FIRST'' [] st)
       (\<lambda>(r, addr, st). if r \<noteq> 0 then Val (0, st) else all_sta_loop (loop_fuel st) ctrl addr st)"

definition wpa_cli_cmd_deauthenticate :: handler where
  "wpa_cli_cmd_deauthenticate ctrl argv st = wpa_cli_cmd ctrl ''DEAUTHENTICATE'' 1 argv st"

definition wpa_cli_cmd_disassociate :: handler where
  "wpa_cli_cmd_disassociate ctrl argv st = wpa_cli_cmd ctrl ''DISASSOCIATE'' 1 argv st"

definition wpa_cli_cmd_chanswitch :: handler where
  "wpa_cli_cmd_chanswitch ctrl argv st = wpa_cli_cmd ctrl ''CHAN_SWITCH'' 2 argv st"

definition wpa_cli_cmd_suspend :: handler where
  "wpa_cli_cmd_suspend ctrl argv st = wpa_ctrl_command ctrl ''SUSPEND'' st"

definition wpa_cli_cmd_resume :: handler where
  "wpa_cli_cmd_resume ctrl argv st = wpa_ctrl_command ctrl ''RESUME'' st"

definition wpa_cli_cmd_drop_sa :: handler where
  "wpa_cli_cmd_drop_sa ctrl argv st = wpa_ctrl_command ctrl ''DROP_SA'' st"

definition wpa_cli_cmd_roam :: handler where
  "wpa_cli_cmd_roam ctrl argv st = wpa_cli_cmd ctrl ''ROAM'' 1 argv st"

definition wpa_cli_cmd_mesh_interface_add :: handler where
  "wpa_cli_cmd_mesh_interface_add ctrl argv st = wpa_cli_cmd ctrl ''MESH_INTERFACE_ADD'' 0 argv st"

definition wpa_cli_cmd_mesh_group_add :: handler where
  "wpa_cli_cmd_mesh_group_add ctrl argv st = wpa_cli_cmd ctrl ''MESH_GROUP_ADD'' 1 argv st"

definition wpa_cli_cmd_mesh_group_remove :: handler where
  "wpa_cli_cmd_mesh_group_remove ctrl argv st = wpa_cli_cmd ctrl ''MESH_GROUP_REMOVE'' 1 argv st"

definition wpa_cli_cmd_mesh_peer_remove :: handler where
  "wpa_cli_cmd_mesh_peer_remove ctrl argv st = wpa_cli_cmd ctrl ''MESH_PEER_REMOVE'' 1 argv st"

definition wpa_cli_cmd_mesh_peer_add :: handler where
  "wpa_cli_cmd_mesh_peer_add ctrl argv st = wpa_cli_cmd ctrl ''MESH_PEER_ADD'' 1 argv st"

definition wpa_cli_cmd_p2p_find :: handler where
  "wpa_cli_cmd_p2p_find ctrl argv st = wpa_cli_cmd ctrl ''P2P_FIND'' 0 argv st"

definition wpa_cli_cmd_p2p_stop_find :: handler where
  "wpa_cli_cmd_p2p_stop_find ctrl argv st = wpa_ctrl_command ctrl ''P2P_STOP_FIND'' st"

definition wpa_cli_cmd_p2p_asp_provision :: handler where
  "wpa_cli_cmd_p2p_asp_provision ctrl argv st = wpa_cli_cmd ctrl ''P2P_ASP_PROVISION'' 3 argv st"

definition wpa_cli_cmd_p2p_asp_provision_resp :: handler where
  "wpa_cli_cmd_p2p_asp_provision_resp ctrl argv st = wpa_cli_cmd ctrl ''P2P_ASP_PROVISION_RESP'' 2 argv st"

definition wpa_cli_cmd_p2p_connect :: handler where
  "wpa_cli_cmd_p2p_connect ctrl argv st = wpa_cli_cmd ctrl ''P2P_CONNECT'' 2 argv st"

definition wpa_cli_cmd_p2p_listen :: handler where
  "wpa_cli_cmd_p2p_listen ctrl argv st = wpa_cli_cmd ctrl ''P2P_LISTEN'' 0 argv st"

definition wpa_cli_cmd_p2p_group_remove :: handler where
  "wpa_cli_cmd_p2p_group_remove ctrl argv st = wpa_cli_cmd ctrl ''P2P_GROUP_REMOVE'' 1 argv st"

definition wpa_cli_cmd_p2p_group_add :: handler where
  "wpa_cli_cmd_p2p_group_add ctrl argv st = wpa_cli_cmd ctrl ''P2P_GROUP_ADD'' 0 argv st"

definition wpa_cli_cmd_p2p_group_member :: handler where
  "wpa_cli_cmd_p2p_group_member ctrl argv st = wpa_cli_cmd ctrl ''P2P_GROUP_MEMBER'' 1 argv st"

definition wpa_cli_cmd_p2p_prov_disc :: handler where
  "wpa_cli_cmd_p2p_prov_disc ctrl argv st =
     (if length argv \<noteq> 2 \<and> length argv \<noteq> 3
      then Val (-1, printf (lns [''Invalid P2P_PROV_DISC command: needs at least two arguments, address and config method'', ''(display, keypad, or pbc) and an optional join'']) st)
      else wpa_cli_cmd ctrl ''P2P_PROV_DISC'' 2 argv st)"

definition wpa_cli_cmd_p2p_get_passphrase :: handler where
  "wpa_cli_cmd_p2p_get_passphrase ctrl argv st = wpa_ctrl_command ctrl ''P2P_GET_PASSPHRASE'' st"

definition write_and_command :: "nat \<Rightarrow> string \<Rightarrow> wpa_ctrl option \<Rightarrow> string list \<Rightarrow> cli \<Rightarrow> (int \<times> cli) outcome" where
  "write_and_command sz name ctrl argv st =
     (case write_cmd (replicate sz NUL) name argv of
        (r, cmd) \<Rightarrow> if r < 0 then Val (-1, printf too_long_command st) else wpa_ctrl_command ctrl (cstr_of cmd) st)"

definition wpa_cli_cmd_p2p_serv_disc_req :: handler where
  "wpa_cli_cmd_p2p_serv_disc_req ctrl argv st =
     (if length argv < 2
      then Val (-1, printf (lns [''Invalid P2P_SERV_DISC_REQ command: needs two or more arguments (address and TLVs)'']) st)
      else write_and_command 4096 ''P2P_SERV_DISC_REQ'' ctrl argv st)"

definition wpa_cli_cmd_p2p_serv_disc_cancel_req :: handler where
  "wpa_cli_cmd_p2p_serv_disc_cancel_req ctrl argv st = wpa_cli_cmd ctrl ''P2P_SERV_DISC_CANCEL_REQ'' 1 argv st"

definition format_and_command :: "nat \<Rightarrow> string \<Rightarrow> wpa_ctrl option \<Rightarrow> cli \<Rightarrow> (int \<times> cli) outcome" where
  "format_and_command sz t ctrl st =
     (case format_cmd sz t of None \<Rightarrow> Val (-1, st) | Some cmd \<Rightarrow> wpa_ctrl_command ctrl cmd st)"

definition wpa_cli_cmd_p2p_serv_disc_resp :: handler where
  "wpa_cli_cmd_p2p_serv_disc_resp ctrl argv st =
     (if length argv \<noteq> 4
      then Val (-1, printf (lns [''Invalid P2P_SERV_DISC_RESP command: needs four arguments (freq, address, dialog token, and TLVs)'']) st)
      else format_and_command 4096
        (''P2P_SERV_DISC_RESP '' @ argv ! 0 @ '' '' @ argv ! 1 @ '' '' @ argv ! 2 @ '' '' @ argv ! 3) ctrl st)"

definition wpa_cli_cmd_p2p_service_update :: handler where
  "wpa_cli_cmd_p2p_service_update ctrl argv st = wpa_ctrl_command ctrl ''P2P_SERVICE_UPDATE'' st"

definition wpa_cli_cmd_p2p_serv_disc_external :: handler where
  "wpa_cli_cmd_p2p_serv_disc_external ctrl argv st = wpa_cli_cmd ctrl ''P2P_SERV_DISC_EXTERNAL'' 1 argv st"

definition wpa_cli_cmd_p2p_service_flush :: handler where
  "wpa_cli_cmd_p2p_service_flush ctrl argv st = wpa_ctrl_command ctrl ''P2P_SERVICE_FLUSH'' st"

definition wpa_cli_cmd_p2p_service_add :: handler where
  "wpa_cli_cmd_p2p_service_add ctrl argv st =
     (if length argv < 3
      then Val (-1, printf (lns [''Invalid P2P_SERVICE_ADD command: needs 3-6 arguments'']) st)
      else wpa_cli_cmd ctrl ''P2P_SERVICE_ADD'' 3 argv st)"

definition wpa_cli_cmd_p2p_service_rep :: handler where
  "wpa_cli_cmd_p2p_service_rep ctrl argv st =
     (if length argv < 5 \<or> length argv > 6
      then Val (-1, printf (lns [''Invalid P2P_SERVICE_REP command: needs 5-6 arguments'']) st)
      else wpa_cli_cmd ctrl ''P2P_SERVICE_REP'' 5 argv st)"

definition wpa_cli_cmd_p2p_service_del :: handler where
  "wpa_cli_cmd_p2p_service_del ctrl argv st =
     (if length argv \<noteq> 2 \<and> length argv \<noteq> 3
      then Val (-1, printf (lns [''Invalid P2P_SERVICE_DEL command: needs two or three arguments'']) st)
      else format_and_command 4096
        (if length argv = 3 then ''P2P_SERVICE_DEL '' @ argv ! 0 @ '' '' @ argv ! 1 @ '' '' @ argv ! 2
         else ''P2P_SERVICE_DEL '' @ argv ! 0 @ '' '' @ argv ! 1) ctrl st)"

definition wpa_cli_cmd_p2p_reject :: handler where
  "wpa_cli_cmd_p2p_reject ctrl argv st = wpa_cli_cmd ctrl ''P2P_REJECT'' 1 argv st"

definition wpa_cli_cmd_p2p_invite :: handler where
  "wpa_cli_cmd_p2p_invite ctrl argv st = wpa_cli_cmd ctrl ''P2P_INVITE'' 1 argv st"

definition wpa_cli_cmd_p2p_peer :: handler where
  "wpa_cli_cmd_p2p_peer ctrl argv st = wpa_cli_cmd ctrl ''P2P_PEER'' 1 argv st"

text \<open>
  With \<open>discovered\<close> the flags are searched behind the first line; a reply without newline then makes
  the search read bytes of the buffer that were never written.
\<close>

definition wpa_ctrl_command_p2p_peer ::
  "wpa_ctrl option \<Rightarrow> string \<Rightarrow> string \<Rightarrow> bool \<Rightarrow> cli \<Rightarrow> (int \<times> string \<times> cli) outcome" where
  "wpa_ctrl_command_p2p_peer ctrl cmd addr discovered st =
     (if ctrl_conn st = None then Val (-1, addr, st)
      else case ctrl of
          None \<Rightarrow> Undef Null_deref
        | Some c \<Rightarrow>
            (case ctrl_exchange c None cmd (replicate 4096 NUL) st of
               ((ret, shown, buf, len), st) \<Rightarrow>
                 if ret < 0 then Val (ret, addr, st)
                 else if take 4 buf = ''FAIL'' then Val (-1, addr, st)
                 else
                   let reply = cstr_of buf; addr = take 31 (takeWhile (\<lambda>c. c \<noteq> NL) reply)
                   in if discovered \<and> NL \<notin> set reply then Undef Oob_read
                      else if \<not> discovered \<or> os_strstr (tl (dropWhile (\<lambda>c. c \<noteq> NL) reply)) ''[PROBE_REQ_ONLY]'' = None
                      then Val (0, addr, printf (lns [addr]) st)
                      else Val (0, addr, st)))"

fun p2p_peers_loop :: "nat \<Rightarrow> wpa_ctrl option \<Rightarrow> string \<Rightarrow> bool \<Rightarrow> cli \<Rightarrow> (int \<times> cli) outcome" where
  "p2p_peers_loop 0 ctrl addr discovered st = Loops"
| "p2p_peers_loop (Suc n) ctrl addr discovered st =
     obind (wpa_ctrl_command_p2p_peer ctrl (fst (os_snprintf 64 (''P2P_PEER NEXT-'' @ addr))) addr discovered st)
       (\<lambda>(r, addr, st). if r = 0 then p2p_peers_loop n ctrl addr discovered st else Val (0, st))"

definition wpa_cli_cmd_p2p_peers :: handler where
  "wpa_cli_cmd_p2p_peers ctrl argv st =
     (let discovered = (case argv of [] \<Rightarrow> False | a # _ \<Rightarrow> os_strcmp a ''discovered'' = 0)
      in obind (wpa_ctrl_command_p2p_peer ctrl ''P2P_PEER FIRST'' [] discovered st)
           (\<lambda>(r, addr, st). if r \<noteq> 0 then Val (-1, st) else p2p_peers_loop (loop_fuel st) ctrl addr discovered st))"

definition wpa_cli_cmd_p2p_set :: handler where
  "wpa_cli_cmd_p2p_set ctrl argv st = wpa_cli_cmd ctrl ''P2P_SET'' 2 argv st"

definition wpa_cli_cmd_p2p_flush :: handler where
  "wpa_cli_cmd_p2p_flush ctrl argv st = wpa_ctrl_command ctrl ''P2P_FLUSH'' st"

definition wpa_cli_cmd_p2p_cancel :: handler where
  "wpa_cli_cmd_p2p_cancel ctrl argv st = wpa_ctrl_command ctrl ''P2P_CANCEL'' st"

definition wpa_cli_cmd_p2p_unauthorize :: handler where
  "wpa_cli_cmd_p2p_unauthorize ctrl argv st = wpa_cli_cmd ctrl ''P2P_UNAUTHORIZE'' 1 argv st"

definition wpa_cli_cmd_p2p_presence_req :: handler where
  "wpa_cli_cmd_p2p_presence_req ctrl argv st =
     (if length argv \<noteq> 0 \<and> length argv \<noteq> 2 \<and> length argv \<noteq> 4
      then Val (-1, printf (lns [''Invalid P2P_PRESENCE_REQ command: needs two arguments (preferred duration, interval; in microsecods).'', ''Optional second pair can be used to provide acceptable values.'']) st)
      else wpa_cli_cmd ctrl ''P2P_PRESENCE_REQ'' 0 argv st)"

definition wpa_cli_cmd_p2p_ext_listen :: handler where
  "wpa_cli_cmd_p2p_ext_listen ctrl argv st =
     (if length argv \<noteq> 0 \<and> length argv \<noteq> 2
      then Val (-1, printf (lns [''Invalid P2P_EXT_LISTEN command: needs two arguments (availability period, availability interval; in millisecods).'', ''Extended Listen Timing can be cancelled with this command when used without parameters.'']) st)
      else wpa_cli_cmd ctrl ''P2P_EXT_LISTEN'' 0 argv st)"

definition wpa_cli_cmd_p2p_remove_client :: handler where
  "wpa_cli_cmd_p2p_remove_client ctrl argv st = wpa_cli_cmd ctrl ''P2P_REMOVE_CLIENT'' 1 argv st"

definition wpa_cli_cmd_vendor_elem_add :: handler where
  "wpa_cli_cmd_vendor_elem_add ctrl argv st = wpa_cli_cmd ctrl ''VENDOR_ELEM_ADD'' 2 argv st"

definition wpa_cli_cmd_vendor_elem_get :: handler where
  "wpa_cli_cmd_vendor_elem_get ctrl argv st = wpa_cli_cmd ctrl ''VENDOR_ELEM_GET'' 1 argv st"

definition wpa_cli_cmd_vendor_elem_remove :: handler where
  "wpa_cli_cmd_vendor_elem_remove ctrl argv st = wpa_cli_cmd ctrl ''VENDOR_ELEM_REMOVE'' 2 argv st"

definition wpa_cli_cmd_wfd_subelem_set :: handler where
  "wpa_cli_cmd_wfd_subelem_set ctrl argv st =
     (if length argv \<noteq> 1 \<and> length argv \<noteq> 2
      then Val (-1, printf (lns [''Invalid WFD_SUBELEM_SET command: needs one or two arguments (subelem, hexdump)'']) st)
      else format_and_command 100 (''WFD_SUBELEM_SET '' @ argv ! 0 @ '' '' @ arg_or_empty argv 1) ctrl st)"

definition wpa_cli_cmd_wfd_subelem_get :: handler where
  "wpa_cli_cmd_wfd_subelem_get ctrl argv st =
     (if length argv \<noteq> 1
      then Val (-1, printf (lns [''Invalid WFD_SUBELEM_GET command: needs one argument (subelem)'']) st)
      else format_and_command 100 (''WFD_SUBELEM_GET '' @ argv ! 0) ctrl st)"

definition wpa_cli_cmd_fetch_anqp :: handler where
  "wpa_cli_cmd_fetch_anqp ctrl argv st = wpa_ctrl_command ctrl ''FETCH_ANQP'' st"

definition wpa_cli_cmd_stop_fetch_anqp :: handler where
  "wpa_cli_cmd_stop_fetch_anqp ctrl argv st = wpa_ctrl_command ctrl ''STOP_FETCH_ANQP'' st"

definition wpa_cli_cmd_interworking_select :: handler where
  "wpa_cli_cmd_interworking_select ctrl argv st = wpa_cli_cmd ctrl ''INTERWORKING_SELECT'' 0 argv st"

definition wpa_cli_cmd_interworking_connect :: handler where
  "wpa_cli_cmd_interworking_connect ctrl argv st = wpa_cli_cmd ctrl ''INTERWORKING_CONNECT'' 1 argv st"

definition wpa_cli_cmd_interworking_add_network :: handler where
  "wpa_cli_cmd_interworking_add_network ctrl argv st = wpa_cli_cmd ctrl ''INTERWORKING_ADD_NETWORK'' 1 argv st"

definition wpa_cli_cmd_anqp_get :: handler where
  "wpa_cli_cmd_anqp_get ctrl argv st = wpa_cli_cmd ctrl ''ANQP_GET'' 2 argv st"

definition wpa_cli_cmd_gas_request :: handler where
  "wpa_cli_cmd_gas_request ctrl argv st = wpa_cli_cmd ctrl ''GAS_REQUEST'' 2 argv st"

definition wpa_cli_cmd_gas_response_get :: handler where
  "wpa_cli_cmd_gas_response_get ctrl argv st = wpa_cli_cmd ctrl ''GAS_RESPONSE_GET'' 2 argv st"

definition wpa_cli_cmd_hs20_anqp_get :: handler where
  "wpa_cli_cmd_hs20_anqp_get ctrl argv st = wpa_cli_cmd ctrl ''HS20_ANQP_GET'' 2 argv st"

definition wpa_cli_cmd_get_nai_home_realm_list :: handler where
  "wpa_cli_cmd_get_nai_home_realm_list ctrl argv st =
     (if argv = []
      then Val (-1, printf (lns [''Command needs one or two arguments (dst mac addr and optional home realm)'']) st)
      else write_and_command 512 ''HS20_GET_NAI_HOME_REALM_LIST'' ctrl argv st)"

definition wpa_cli_cmd_hs20_icon_request :: handler where
  "wpa_cli_cmd_hs20_icon_request ctrl argv st =
     (if length argv < 2
      then Val (-1, printf (lns [''Command needs two arguments (dst mac addr and icon name)'']) st)
      else write_and_command 512 ''HS20_ICON_REQUEST'' ctrl argv st)"

definition wpa_cli_cmd_fetch_osu :: handler where
  "wpa_cli_cmd_fetch_osu ctrl argv st = wpa_ctrl_command ctrl ''FETCH_OSU'' st"

definition wpa_cli_cmd_cancel_fetch_osu :: handler where
  "wpa_cli_cmd_cancel_fetch_osu ctrl argv st = wpa_ctrl_command ctrl ''CANCEL_FETCH_OSU'' st"

definition wpa_cli_cmd_sta_autoconnect :: handler where
  "wpa_cli_cmd_sta_autoconnect ctrl argv st = wpa_cli_cmd ctrl ''STA_AUTOCONNECT'' 1 argv st"

definition wpa_cli_cmd_tdls_discover :: handler where
  "wpa_cli_cmd_tdls_discover ctrl argv st = wpa_cli_cmd ctrl ''TDLS_DISCOVER'' 1 argv st"

definition wpa_cli_cmd_tdls_setup :: handler where
  "wpa_cli_cmd_tdls_setup ctrl argv st = wpa_cli_cmd ctrl ''TDLS_SETUP'' 1 argv st"

definition wpa_cli_cmd_tdls_teardown :: handler where
  "wpa_cli_cmd_tdls_teardown ctrl argv st = wpa_cli_cmd ctrl ''TDLS_TEARDOWN'' 1 argv st"

definition wpa_cli_cmd_tdls_link_status :: handler where
  "wpa_cli_cmd_tdls_link_status ctrl argv st = wpa_cli_cmd ctrl ''TDLS_LINK_STATUS'' 1 argv st"

definition wpa_cli_cmd_wmm_ac_addts :: handler where
  "wpa_cli_cmd_wmm_ac_addts ctrl argv st = wpa_cli_cmd ctrl ''WMM_AC_ADDTS'' 3 argv st"

definition wpa_cli_cmd_wmm_ac_delts :: handler where
  "wpa_cli_cmd_wmm_ac_delts ctrl argv st = wpa_cli_cmd ctrl ''WMM_AC_DELTS'' 1 argv st"

definition wpa_cli_cmd_wmm_ac_status :: handler where
  "wpa_cli_cmd_wmm_ac_status ctrl argv st = wpa_ctrl_command ctrl ''WMM_AC_STATUS'' st"

definition wpa_cli_cmd_tdls_chan_switch :: handler where
  "wpa_cli_cmd_tdls_chan_switch ctrl argv st = wpa_cli_cmd ctrl ''TDLS_CHAN_SWITCH'' 2 argv st"

definition wpa_cli_cmd_tdls_cancel_chan_switch :: handler where
  "wpa_cli_cmd_tdls_cancel_chan_switch ctrl argv st = wpa_cli_cmd ctrl ''TDLS_CANCEL_CHAN_SWITCH'' 1 argv st"

definition wpa_cli_cmd_signal_poll :: handler where
  "wpa_cli_cmd_signal_poll ctrl argv st = wpa_ctrl_command ctrl ''SIGNAL_POLL'' st"

definition wpa_cli_cmd_signal_monitor :: handler where
  "wpa_cli_cmd_signal_monitor ctrl argv st = wpa_cli_cmd ctrl ''SIGNAL_MONITOR'' 0 argv st"

definition wpa_cli_cmd_pktcnt_poll :: handler where
  "wpa_cli_cmd_pktcnt_poll ctrl argv st = wpa_ctrl_command ctrl ''PKTCNT_POLL'' st"

definition wpa_cli_cmd_reauthenticate :: handler where
  "wpa_cli_cmd_reauthenticate ctrl argv st = wpa_ctrl_command ctrl ''REAUTHENTICATE'' st"

definition wpa_cli_cmd_autoscan :: handler where
  "wpa_cli_cmd_autoscan ctrl argv st =
     (if argv = [] then wpa_ctrl_command ctrl ''AUTOSCAN '' st else wpa_cli_cmd ctrl ''AUTOSCAN'' 0 argv st)"

definition wpa_cli_cmd_wnm_sleep :: handler where
  "wpa_cli_cmd_wnm_sleep ctrl argv st = wpa_cli_cmd ctrl ''WNM_SLEEP'' 0 argv st"

definition wpa_cli_cmd_wnm_bss_query :: handler where
  "wpa_cli_cmd_wnm_bss_query ctrl argv st = wpa_cli_cmd ctrl ''WNM_BSS_QUERY'' 1 argv st"

definition wpa_cli_cmd_raw :: handler where
  "wpa_cli_cmd_raw ctrl argv st =
     (case argv of [] \<Rightarrow> Val (-1, st) | a # argv \<Rightarrow> wpa_cli_cmd ctrl a 0 argv st)"

definition wpa_cli_cmd_driver :: handler where
  "wpa_cli_cmd_driver ctrl argv st = wpa_cli_cmd ctrl ''DRIVER'' 1 argv st"

definition wpa_cli_cmd_vendor :: handler where
  "wpa_cli_cmd_vendor ctrl argv st = wpa_cli_cmd ctrl ''VENDOR'' 1 argv st"

definition wpa_cli_cmd_flush :: handler where
  "wpa_cli_cmd_flush ctrl argv st = wpa_ctrl_command ctrl ''FLUSH'' st"

definition wpa_cli_cmd_radio_work :: handler where
  "wpa_cli_cmd_radio_work ctrl argv st = wpa_cli_cmd ctrl ''RADIO_WORK'' 1 argv st"

definition wpa_cli_cmd_neighbor_rep_request :: handler where
  "wpa_cli_cmd_neighbor_rep_request ctrl argv st = wpa_cli_cmd ctrl ''NEIGHBOR_REP_REQUEST'' 0 argv st"

definition wpa_cli_cmd_erp_flush :: handler where
  "wpa_cli_cmd_erp_flush ctrl argv st = wpa_ctrl_command ctrl ''ERP_FLUSH'' st"

definition wpa_cli_cmd_mac_rand_scan :: handler where
  "wpa_cli_cmd_mac_rand_scan ctrl argv st = wpa_cli_cmd ctrl ''MAC_RAND_SCAN'' 1 argv st"

definition wpa_cli_cmd_get_pref_freq_list :: handler where
  "wpa_cli_cmd_get_pref_freq_list ctrl argv st = wpa_cli_cmd ctrl ''GET_PREF_FREQ_LIST'' 1 argv st"

definition wpa_cli_cmd_p2p_lo_start :: handler where
  "wpa_cli_cmd_p2p_lo_start ctrl argv st = wpa_cli_cmd ctrl ''P2P_LO_START'' 4 argv st"

definition wpa_cli_cmd_p2p_lo_stop :: handler where
  "wpa_cli_cmd_p2p_lo_stop ctrl argv st = wpa_cli_cmd ctrl ''P2P_LO_STOP'' 0 argv st"

end
