(* ===== verification/Cli_Results.thy ===== *)
theory Cli_Results
  imports Cli_Commands
begin

text \<open>
  The handlers that store the reply in the caller's buffer instead of printing it
  (\<^verbatim>\<open>wpa_cli_cmd_*_with_results\<close>), the ones the library interface uses.
\<close>

definition printed_only :: "(int \<times> cli) outcome \<Rightarrow> cbuf \<Rightarrow> (int \<times> cbuf \<times> cli) outcome" where
  "printed_only r buf = omap (\<lambda>(ret, st). (ret, buf, st)) r"

definition wpa_cli_cmd_status_with_results :: result_handler where
  "wpa_cli_cmd_status_with_results ctrl argv buf st =
     (if argv \<noteq> [] \<and> argv ! 0 = ''verbose'' then printed_only (wpa_ctrl_command ctrl ''STATUS-VERBOSE'' st) buf
      else if argv \<noteq> [] \<and> argv ! 0 = ''wps'' then printed_only (wpa_ctrl_command ctrl ''STATUS-WPS'' st) buf
      else if argv \<noteq> [] \<and> argv ! 0 = ''driver'' then printed_only (wpa_ctrl_command ctrl ''STATUS-DRIVER'' st) buf
      else wpa_ctrl_command_with_results ctrl ''STATUS'' buf st)"

definition wpa_cli_cmd_ifname_with_results :: result_handler where
  "wpa_cli_cmd_ifname_with_results ctrl argv buf st = wpa_ctrl_command_with_results ctrl ''IFNAME'' buf st"

definition wpa_cli_cmd_scan_with_results :: result_handler where
  "wpa_cli_cmd_scan_with_results ctrl argv buf st = wpa_cli_cmd_with_results ctrl ''SCAN'' 0 argv buf st"

definition wpa_cli_cmd_scan_results_with_results :: result_handler where
  "wpa_cli_cmd_scan_results_with_results ctrl argv buf st = wpa_ctrl_command_with_results ctrl ''SCAN_RESULTS'' buf st"

definition wpa_cli_cmd_select_network_with_results :: result_handler where
  "wpa_cli_cmd_select_network_with_results ctrl argv buf st =
     wpa_cli_cmd_with_results ctrl ''SELECT_NETWORK'' 1 argv buf st"

text \<open>The list of network identifiers is read again after a change, whatever the result of the change.\<close>

definition then_update_networks ::
  "wpa_ctrl option \<Rightarrow> (int \<times> cbuf \<times> cli) outcome \<Rightarrow> (int \<times> cbuf \<times> cli) outcome" where
  "then_update_networks ctrl r =
     obind r (\<lambda>(res, buf, st). omap (\<lambda>st. (res, buf, st)) (update_networks ctrl st))"

definition wpa_cli_cmd_add_network_with_results :: result_handler where
  "wpa_cli_cmd_add_network_with_results ctrl argv buf st =
     then_update_networks ctrl (wpa_ctrl_command_with_results ctrl ''ADD_NETWORK'' buf st)"

definition wpa_cli_cmd_list_networks_with_results :: result_handler where
  "wpa_cli_cmd_list_networks_with_results ctrl argv buf st =
     wpa_ctrl_command_with_results ctrl ''LIST_NETWORKS'' buf st"

definition wpa_cli_cmd_set_network_with_results :: result_handler where
  "wpa_cli_cmd_set_network_with_results ctrl argv buf st =
     (if argv = [] then Val (0, buf, wpa_cli_show_network_variables st)
      else if length argv < 3
      then Val (-1, buf, printf (lns [''Invalid SET_NETWORK command: needs three arguments'', ''(network id, variable name, and value)'']) st)
      else wpa_cli_cmd_with_results ctrl ''SET_NETWORK'' 3 argv buf st)"

definition wpa_cli_cmd_remove_network_with_results :: result_handler where
  "wpa_cli_cmd_remove_network_with_results ctrl argv buf st =
     then_update_networks ctrl (wpa_cli_cmd_with_results ctrl ''REMOVE_NETWORK'' 1 argv buf st)"

definition wpa_cli_cmd_enable_network_with_results :: result_handler where
  "wpa_cli_cmd_enable_network_with_results ctrl argv buf st =
     wpa_cli_cmd_with_results ctrl ''ENABLE_NETWORK'' 1 argv buf st"

definition wpa_cli_cmd_disable_network_with_results :: result_handler where
  "wpa_cli_cmd_disable_network_with_results ctrl argv buf st =
     wpa_cli_cmd_with_results ctrl ''DISABLE_NETWORK'' 1 argv buf st"

definition wpa_cli_cmd_save_config_with_results :: result_handler where
  "wpa_cli_cmd_save_config_with_results ctrl argv buf st =
     wpa_ctrl_command_with_results ctrl ''SAVE_CONFIG'' buf st"

end
