(* ===== verification/Cli_Complete.thy ===== *)
theory Cli_Complete
  imports Cli_Results
begin

text \<open>
  The words offered for completion of a command line (\<^verbatim>\<open>wpa_cli_complete_*\<close>). Which names exist depends
  on the options the library was compiled with: a build is the list of the defined ones. The
  functions return \<open>None\<close> for a NULL array; memory allocation succeeds.
\<close>

datatype config_opt =
    CONFIG_ACS
  | CONFIG_AP
  | CONFIG_AUTOSCAN
  | CONFIG_CTRL_IFACE
  | CONFIG_ERP
  | CONFIG_FIPS
  | CONFIG_HS20
  | CONFIG_HT_OVERRIDES
  | CONFIG_IEEE80211W
  | CONFIG_INTERWORKING
  | CONFIG_MACSEC
  | CONFIG_MESH
  | CONFIG_NO_CONFIG_WRITE
  | CONFIG_P2P
  | CONFIG_TDLS
  | CONFIG_TESTING_OPTIONS
  | CONFIG_VHT_OVERRIDES
  | CONFIG_WIFI_DISPLAY
  | CONFIG_WNM
  | CONFIG_WPS
  | CONFIG_WPS_NFC
  | IEEE8021X_EAPOL

type_synonym build = "config_opt list"

text \<open>The options of \<^verbatim>\<open>wpa_supplicant/.config\<close> that the library tests.\<close>

definition default_build :: build where
  "default_build = [IEEE8021X_EAPOL, CONFIG_CTRL_IFACE]"

definition if_def :: "config_opt \<Rightarrow> build \<Rightarrow> 'a list \<Rightarrow> 'a list" where
  "if_def opt b xs = (if opt \<in> set b then xs else [])"

definition if_undef :: "config_opt \<Rightarrow> build \<Rightarrow> 'a list \<Rightarrow> 'a list" where
  "if_undef opt b xs = (if opt \<in> set b then [] else xs)"

section \<open>Field names\<close>

definition set_fields :: "build \<Rightarrow> string list" where
  "set_fields b =
     [''EAPOL::heldPeriod'', ''EAPOL::authPeriod'', ''EAPOL::startPeriod'', ''EAPOL::maxStart'',
       ''dot11RSNAConfigPMKLifetime'', ''dot11RSNAConfigPMKReauthThreshold'',
       ''dot11RSNAConfigSATimeout'', ''wps_fragment_size'', ''wps_version_number'', ''ampdu'',
       ''tdls_testing'', ''tdls_disabled'', ''pno'', ''radio_disabled'', ''uapsd'', ''ps'',
       ''wifi_display'', ''bssid_filter'', ''disallow_aps'', ''no_keep_alive''] @
     if_def CONFIG_CTRL_IFACE b
      [''ctrl_interface'', ''no_ctrl_interface'', ''ctrl_interface_group''] @
     [''eapol_version'', ''ap_scan'', ''bgscan''] @
     if_def CONFIG_MESH b
      [''user_mpm'', ''max_peer_links'', ''mesh_max_inactivity'', ''dot11RSNASAERetransPeriod''] @
     [''disable_scan_offload'', ''fast_reauth'', ''opensc_engine_path'', ''pkcs11_engine_path'',
       ''pkcs11_module_path'', ''openssl_ciphers'', ''pcsc_reader'', ''pcsc_pin'',
       ''external_sim'', ''driver_param'', ''dot11RSNAConfigPMKLifetime'',
       ''dot11RSNAConfigPMKReauthThreshold'', ''dot11RSNAConfigSATimeout''] @
     if_undef CONFIG_NO_CONFIG_WRITE b
      [''update_config''] @
     [''load_dynamic_eap''] @
     if_def CONFIG_WPS b
      [''uuid'', ''device_name'', ''manufacturer'', ''model_name'', ''model_number'', ''serial_number'',
       ''device_type'', ''os_version'', ''config_methods'', ''wps_cred_processing'',
       ''wps_vendor_ext_m1''] @
     if_def CONFIG_P2P b
      [''sec_device_type'', ''p2p_listen_reg_class'', ''p2p_listen_channel'', ''p2p_oper_reg_class'',
       ''p2p_oper_channel'', ''p2p_go_intent'', ''p2p_ssid_postfix'', ''persistent_reconnect'',
       ''p2p_intra_bss'', ''p2p_group_idle'', ''p2p_passphrase_len'', ''p2p_pref_chan'',
       ''p2p_no_go_freq'', ''p2p_add_cli_chan'', ''p2p_optimize_listen_chan'', ''p2p_go_ht40'',
       ''p2p_go_vht'', ''p2p_disabled'', ''p2p_go_ctwindow'', ''p2p_no_group_iface'',
       ''p2p_ignore_shared_freq'', ''ip_addr_go'', ''ip_addr_mask'', ''ip_addr_start'',
       ''ip_addr_end''] @
     [''country'', ''bss_max_count'', ''bss_expiration_age'', ''bss_expiration_scan_count'',
       ''filter_ssids'', ''filter_rssi'', ''max_num_sta'', ''disassoc_low_ack''] @
     if_def CONFIG_HS20 b
      [''hs20''] @
     [''interworking'', ''hessid'', ''access_network_type'', ''pbc_in_m1'', ''autoscan'',
       ''wps_nfc_dev_pw_id'', ''wps_nfc_dh_pubkey'', ''wps_nfc_dh_privkey'', ''wps_nfc_dev_pw'',
       ''ext_password_backend'', ''p2p_go_max_inactivity'', ''auto_interworking'', ''okc'',
       ''pmf'', ''sae_groups'', ''dtim_period'', ''beacon_int'', ''ap_vendor_elements'',
       ''ignore_old_scan_res'', ''freq_list'', ''scan_cur_freq'', ''sched_scan_interval'',
       ''tdls_external_control'', ''osu_dir'', ''wowlan_triggers'', ''p2p_search_delay'',
       ''mac_addr'', ''rand_addr_lifetime'', ''preassoc_mac_addr'', ''key_mgmt_offload'',
       ''passive_scan'', ''reassoc_same_bss_optim'', ''wps_priority''] @
     if_def CONFIG_TESTING_OPTIONS b
      [''ignore_auth_resp'']"

definition get_fields :: "build \<Rightarrow> string list" where
  "get_fields b =
     if_def CONFIG_CTRL_IFACE b
      [''ctrl_interface'', ''ctrl_interface_group''] @
     [''eapol_version'', ''ap_scan''] @
     if_def CONFIG_MESH b
      [''user_mpm'', ''max_peer_links'', ''mesh_max_inactivity''] @
     [''disable_scan_offload'', ''fast_reauth'', ''opensc_engine_path'', ''pkcs11_engine_path'',
       ''pkcs11_module_path'', ''openssl_ciphers'', ''pcsc_reader'', ''pcsc_pin'',
       ''external_sim'', ''driver_param'', ''dot11RSNAConfigPMKLifetime'',
       ''dot11RSNAConfigPMKReauthThreshold'', ''dot11RSNAConfigSATimeout''] @
     if_undef CONFIG_NO_CONFIG_WRITE b
      [''update_config''] @
     if_def CONFIG_WPS b
      [''device_name'', ''manufacturer'', ''model_name'', ''model_number'', ''serial_number'',
       ''config_methods'', ''wps_cred_processing''] @
     if_def CONFIG_P2P b
      [''p2p_listen_reg_class'', ''p2p_listen_channel'', ''p2p_oper_reg_class'', ''p2p_oper_channel'',
       ''p2p_go_intent'', ''p2p_ssid_postfix'', ''persistent_reconnect'', ''p2p_intra_bss'',
       ''p2p_group_idle'', ''p2p_passphrase_len'', ''p2p_add_cli_chan'',
       ''p2p_optimize_listen_chan'', ''p2p_go_ht40'', ''p2p_go_vht'', ''p2p_disabled'',
       ''p2p_go_ctwindow'', ''p2p_no_group_iface'', ''p2p_ignore_shared_freq'', ''ip_addr_go'',
       ''ip_addr_mask'', ''ip_addr_start'', ''ip_addr_end''] @
     [''bss_max_count'', ''bss_expiration_age'', ''bss_expiration_scan_count'', ''filter_ssids'',
       ''filter_rssi'', ''max_num_sta'', ''disassoc_low_ack''] @
     if_def CONFIG_HS20 b
      [''hs20''] @
     [''interworking'', ''access_network_type'', ''pbc_in_m1'', ''autoscan'', ''wps_nfc_dev_pw_id'',
       ''ext_password_backend'', ''p2p_go_max_inactivity'', ''auto_interworking'', ''okc'',
       ''pmf'', ''dtim_period'', ''beacon_int'', ''ignore_old_scan_res'', ''scan_cur_freq'',
       ''sched_scan_interval'', ''tdls_external_control'', ''osu_dir'', ''wowlan_triggers'',
       ''p2p_search_delay'', ''mac_addr'', ''rand_addr_lifetime'', ''preassoc_mac_addr'',
       ''key_mgmt_offload'', ''passive_scan'', ''reassoc_same_bss_optim'']"

definition network_fields :: "build \<Rightarrow> string list" where
  "network_fields b =
     [''ssid'', ''scan_ssid'', ''bssid'', ''bssid_blacklist'', ''bssid_whitelist'', ''psk'', ''proto'',
       ''key_mgmt'', ''bg_scan_period'', ''pairwise'', ''group'', ''auth_alg'', ''scan_freq'',
       ''freq_list'', ''max_oper_chwidth''] @
     if_def IEEE8021X_EAPOL b
      [''eap'', ''identity'', ''anonymous_identity'', ''password'', ''ca_cert'', ''ca_path'',
       ''client_cert'', ''private_key'', ''private_key_passwd'', ''dh_file'', ''subject_match'',
       ''altsubject_match'', ''domain_suffix_match'', ''domain_match'', ''ca_cert2'', ''ca_path2'',
       ''client_cert2'', ''private_key2'', ''private_key2_passwd'', ''dh_file2'',
       ''subject_match2'', ''altsubject_match2'', ''domain_suffix_match2'', ''domain_match2'',
       ''phase1'', ''phase2'', ''pcsc'', ''pin'', ''engine_id'', ''key_id'', ''cert_id'',
       ''ca_cert_id'', ''pin2'', ''engine2_id'', ''key2_id'', ''cert2_id'', ''ca_cert2_id'',
       ''engine'', ''engine2'', ''eapol_flags'', ''sim_num'', ''openssl_ciphers'', ''erp''] @
     [''wep_key0'', ''wep_key1'', ''wep_key2'', ''wep_key3'', ''wep_tx_keyidx'', ''priority''] @
     if_def IEEE8021X_EAPOL b
      [''eap_workaround'', ''pac_file'', ''fragment_size'', ''ocsp''] @
     if_def CONFIG_MESH b
      [''mode'', ''no_auto_peer''] @
     if_undef CONFIG_MESH b
      [''mode''] @
     [''proactive_key_caching'', ''disabled'', ''id_str''] @
     if_def CONFIG_IEEE80211W b
      [''ieee80211w''] @
     [''peerkey'', ''mixed_cell'', ''frequency'', ''fixed_freq''] @
     if_def CONFIG_MESH b
      [''mesh_basic_rates'', ''dot11MeshMaxRetries'', ''dot11MeshRetryTimeout'',
       ''dot11MeshConfirmTimeout'', ''dot11MeshHoldingTimeout''] @
     [''wpa_ptk_rekey'', ''bgscan'', ''ignore_broadcast_ssid''] @
     if_def CONFIG_P2P b
      [''go_p2p_dev_addr'', ''p2p_client_list'', ''psk_list''] @
     if_def CONFIG_HT_OVERRIDES b
      [''disable_ht'', ''disable_ht40'', ''disable_sgi'', ''disable_ldpc'', ''ht40_intolerant'',
       ''disable_max_amsdu'', ''ampdu_factor'', ''ampdu_density'', ''ht_mcs''] @
     if_def CONFIG_VHT_OVERRIDES b
      [''disable_vht'', ''vht_capa'', ''vht_capa_mask'', ''vht_rx_mcs_nss_1'', ''vht_rx_mcs_nss_2'',
       ''vht_rx_mcs_nss_3'', ''vht_rx_mcs_nss_4'', ''vht_rx_mcs_nss_5'', ''vht_rx_mcs_nss_6'',
       ''vht_rx_mcs_nss_7'', ''vht_rx_mcs_nss_8'', ''vht_tx_mcs_nss_1'', ''vht_tx_mcs_nss_2'',
       ''vht_tx_mcs_nss_3'', ''vht_tx_mcs_nss_4'', ''vht_tx_mcs_nss_5'', ''vht_tx_mcs_nss_6'',
       ''vht_tx_mcs_nss_7'', ''vht_tx_mcs_nss_8''] @
     [''ap_max_inactivity'', ''dtim_period'', ''beacon_int''] @
     if_def CONFIG_MACSEC b
      [''macsec_policy''] @
     if_def CONFIG_HS20 b
      [''update_identifier''] @
     [''mac_addr'', ''pbss'', ''wps_disabled'']"

definition capability_fields :: "build \<Rightarrow> string list" where
  "capability_fields b =
     [''eap'', ''pairwise'', ''group'', ''group_mgmt'', ''key_mgmt'', ''proto'', ''auth_alg'',
       ''modes'', ''channels'', ''freq''] @
     if_def CONFIG_TDLS b
      [''tdls''] @
     if_def CONFIG_ERP b
      [''erp''] @
     if_def CONFIG_FIPS b
      [''fips''] @
     if_def CONFIG_ACS b
      [''acs'']"

definition p2p_set_fields :: "build \<Rightarrow> string list" where
  "p2p_set_fields b =
     [''discoverability'', ''managed'', ''listen_channel'', ''ssid_postfix'', ''noa'', ''ps'',
       ''oppps'', ''ctwindow'', ''disabled'', ''conc_pref'', ''force_long_sd'', ''peer_filter'',
       ''cross_connect'', ''go_apsd'', ''client_apsd'', ''disallow_freq'', ''disc_int'',
       ''per_sta_psk'']"

section \<open>Completion functions\<close>

type_synonym completion = "string \<Rightarrow> int \<Rightarrow> cli \<Rightarrow> string list option outcome"

definition wpa_cli_complete_set :: "build \<Rightarrow> completion" where
  "wpa_cli_complete_set b str pos st =
     omap (\<lambda>arg. if arg = 1 then Some (set_fields b)
                 else if arg > 1 \<and> strncaseeq str ''set bssid_filter '' 17 then Some (cli_txt_list_array (bsses st))
                 else None)
       (get_cmd_arg_num str pos)"

definition wpa_cli_complete_get :: "build \<Rightarrow> completion" where
  "wpa_cli_complete_get b str pos st =
     omap (\<lambda>arg. if arg = 1 then Some (get_fields b) else None) (get_cmd_arg_num str pos)"

definition wpa_cli_complete_network :: "build \<Rightarrow> completion" where
  "wpa_cli_complete_network b str pos st =
     omap (\<lambda>arg. if arg = 1 then Some (cli_txt_list_array (networks st))
                 else if arg = 2 then Some (network_fields b) else None)
       (get_cmd_arg_num str pos)"

definition wpa_cli_complete_network_id :: completion where
  "wpa_cli_complete_network_id str pos st =
     omap (\<lambda>arg. if arg = 1 then Some (cli_txt_list_array (networks st)) else None) (get_cmd_arg_num str pos)"

definition wpa_cli_complete_dup_network :: "build \<Rightarrow> completion" where
  "wpa_cli_complete_dup_network b str pos st =
     omap (\<lambda>arg. if arg = 1 \<or> arg = 2 then Some (cli_txt_list_array (networks st))
                 else if arg = 3 then Some (network_fields b) else None)
       (get_cmd_arg_num str pos)"

definition wpa_cli_complete_bss :: completion where
  "wpa_cli_complete_bss str pos st =
     omap (\<lambda>arg. if arg = 1 then Some (cli_txt_list_array (bsses st)) else None) (get_cmd_arg_num str pos)"

definition wpa_cli_complete_get_capability :: "build \<Rightarrow> completion" where
  "wpa_cli_complete_get_capability b str pos st =
     omap (\<lambda>arg. if arg = 2 then Some [''strict''] else if arg = 1 then Some (capability_fields b) else None)
       (get_cmd_arg_num str pos)"

definition wpa_cli_complete_p2p_find :: completion where
  "wpa_cli_complete_p2p_find str pos st =
     omap (\<lambda>arg. Some ([''type=social'', ''type=progressive'', ''delay='', ''dev_id=''] @
                        (if arg = 1 then [''[timeout]''] else [])))
       (get_cmd_arg_num str pos)"

definition wpa_cli_complete_p2p_connect :: completion where
  "wpa_cli_complete_p2p_connect str pos st =
     omap (\<lambda>arg. if arg = 1 then Some (cli_txt_list_array (p2p_peers st)) else None) (get_cmd_arg_num str pos)"

definition wpa_cli_complete_p2p_group_remove :: completion where
  "wpa_cli_complete_p2p_group_remove str pos st =
     omap (\<lambda>arg. if arg = 1 then Some (cli_txt_list_array (p2p_groups st)) else None) (get_cmd_arg_num str pos)"

definition wpa_cli_complete_p2p_peer :: completion where
  "wpa_cli_complete_p2p_peer str pos st =
     omap (\<lambda>arg. if arg = 1 then Some (cli_txt_list_array (p2p_peers st)) else None) (get_cmd_arg_num str pos)"

definition wpa_cli_complete_p2p_set :: "build \<Rightarrow> completion" where
  "wpa_cli_complete_p2p_set b str pos st =
     omap (\<lambda>arg. if arg = 1 then Some (p2p_set_fields b)
                 else if arg = 2 \<and> strncaseeq str ''p2p_set peer_filter '' 20 then Some (cli_txt_list_array (p2p_peers st))
                 else None)
       (get_cmd_arg_num str pos)"

end
