(* ===== verification/Cli_Table.thy ===== *)
theory Cli_Table
  imports Cli_Complete "HOL-Library.Sublist" "HOL-Library.Multiset"
begin

text \<open>
  The command table of \<^verbatim>\<open>libwpa_cli_wrapper.c\<close> and the functions that only read names and usage texts
  from it. The table refers to the \<^verbatim>\<open>help\<close> command, which prints the table: its handler and
  completion are parameters of the four parts and are tied in \<open>wpa_cli_commands\<close>.
\<close>

datatype wpa_cli_cmd_flags = cli_cmd_flag_none | cli_cmd_flag_sensitive

record cli_command =
  cmd_name :: string
  cmd_handler :: handler
  cmd_handler_with_results :: result_handler
  cmd_completion :: "completion option"
  cmd_flags :: wpa_cli_cmd_flags
  cmd_usage :: string

definition entry_r ::
  "string \<Rightarrow> handler \<Rightarrow> result_handler \<Rightarrow> completion option \<Rightarrow> wpa_cli_cmd_flags \<Rightarrow> string \<Rightarrow> cli_command" where
  "entry_r name h hr co fl us =
     \<lparr>cmd_name = name, cmd_handler = h, cmd_handler_with_results = hr, cmd_completion = co, cmd_flags = fl, cmd_usage = us\<rparr>"

definition entry :: "string \<Rightarrow> handler \<Rightarrow> completion option \<Rightarrow> wpa_cli_cmd_flags \<Rightarrow> string \<Rightarrow> cli_command" where
  "entry name h co fl us = entry_r name h handler_with_results_default_func co fl us"

definition VENDOR_ELEM_FRAME_ID :: string where
  "VENDOR_ELEM_FRAME_ID =
     ''  0: Probe Req (P2P), 1: Probe Resp (P2P) , 2: Probe Resp (GO), 3: Beacon (GO), 4: PD Req, 5: PD Resp, 6: GO Neg Req, 7: GO Neg Resp, 8: GO Neg Conf, 9: Inv Req, 10: Inv Resp, 11: Assoc Req (P2P), 12: Assoc Resp (P2P)''"

definition wpa_cli_commands_1 :: "handler \<Rightarrow> completion \<Rightarrow> build \<Rightarrow> cli_command list" where
  "wpa_cli_commands_1 help complete_help b =
     [entry_r ''status'' wpa_cli_cmd_status wpa_cli_cmd_status_with_results None cli_cmd_flag_none
         (''[verbose] = get current WPA/EAPOL/EAP status''),
       entry_r ''ifname'' wpa_cli_cmd_ifname wpa_cli_cmd_ifname_with_results None cli_cmd_flag_none
         (''= get current interface name''),
       entry ''ping'' wpa_cli_cmd_ping None cli_cmd_flag_none
         (''= pings wpa_supplicant''),
       entry ''relog'' wpa_cli_cmd_relog None cli_cmd_flag_none
         (''= re-open log-file (allow rolling logs)''),
       entry ''note'' wpa_cli_cmd_note None cli_cmd_flag_none
         (''<text> = add a note to wpa_supplicant debug log''),
       entry ''mib'' wpa_cli_cmd_mib None cli_cmd_flag_none
         (''= get MIB variables (dot1x, dot11)''),
       entry ''help'' help (Some complete_help) cli_cmd_flag_none
         (''[command] = show usage help''),
       entry ''interface'' wpa_cli_cmd_interface None cli_cmd_flag_none
         (''[ifname] = show interfaces/select interface''),
       entry ''level'' wpa_cli_cmd_level None cli_cmd_flag_none
         (''<debug level> = change debug level''),
       entry ''license'' wpa_cli_cmd_license None cli_cmd_flag_none
         (''= show full wpa_cli license''),
       entry ''quit'' wpa_cli_cmd_quit None cli_cmd_flag_none
         (''= exit wpa_cli''),
       entry ''set'' wpa_cli_cmd_set (Some (wpa_cli_complete_set b)) cli_cmd_flag_none
         (''= set variables (shows list of variables when run without arguments)''),
       entry ''dump'' wpa_cli_cmd_dump None cli_cmd_flag_none
         (''= dump config variables''),
       entry ''get'' wpa_cli_cmd_get (Some (wpa_cli_complete_get b)) cli_cmd_flag_none
         (''<name> = get information''),
       entry ''driver_flags'' wpa_cli_cmd_driver_flags None cli_cmd_flag_none
         (''= list driver flags''),
       entry ''logon'' wpa_cli_cmd_logon None cli_cmd_flag_none
         (''= IEEE 802.1X EAPOL state machine logon''),
       entry ''logoff'' wpa_cli_cmd_logoff None cli_cmd_flag_none
         (''= IEEE 802.1X EAPOL state machine logoff''),
       entry ''pmksa'' wpa_cli_cmd_pmksa None cli_cmd_flag_none
         (''= show PMKSA cache''),
       entry ''pmksa_flush'' wpa_cli_cmd_pmksa_flush None cli_cmd_flag_none
         (''= flush PMKSA cache entries''),
       entry ''reassociate'' wpa_cli_cmd_reassociate None cli_cmd_flag_none
         (''= force reassociation''),
       entry ''reattach'' wpa_cli_cmd_reattach None cli_cmd_flag_none
         (''= force reassociation back to the same BSS''),
       entry ''preauthenticate'' wpa_cli_cmd_preauthenticate (Some wpa_cli_complete_bss) cli_cmd_flag_none
         (''<BSSID> = force preauthentication''),
       entry ''identity'' wpa_cli_cmd_identity None cli_cmd_flag_none
         (''<network id> <identity> = configure identity for an SSID''),
       entry ''password'' wpa_cli_cmd_password None cli_cmd_flag_sensitive
         (''<network id> <password> = configure password for an SSID''),
       entry ''new_password'' wpa_cli_cmd_new_password None cli_cmd_flag_sensitive
         (''<network id> <password> = change password for an SSID''),
       entry ''pin'' wpa_cli_cmd_pin None cli_cmd_flag_sensitive
         (''<network id> <pin> = configure pin for an SSID''),
       entry ''otp'' wpa_cli_cmd_otp None cli_cmd_flag_sensitive
         (''<network id> <password> = configure one-time-password for an SSID''),
       entry ''passphrase'' wpa_cli_cmd_passphrase None cli_cmd_flag_sensitive
         (''<network id> <passphrase> = configure private key passphrase'' @ [NL] @ ''  for an SSID''),
       entry ''sim'' wpa_cli_cmd_sim None cli_cmd_flag_sensitive
         (''<network id> <pin> = report SIM operation result''),
       entry ''bssid'' wpa_cli_cmd_bssid None cli_cmd_flag_none
         (''<network id> <BSSID> = set preferred BSSID for an SSID''),
       entry ''blacklist'' wpa_cli_cmd_blacklist (Some wpa_cli_complete_bss) cli_cmd_flag_none
         (''<BSSID> = add a BSSID to the blacklist'' @ [NL] @ ''blacklist clear = clear the blacklist'' @ [NL] @ ''blacklist = display the blacklist''),
       entry ''log_level'' wpa_cli_cmd_log_level None cli_cmd_flag_none
         (''<level> [<timestamp>] = update the log level/timestamp'' @ [NL] @ ''log_level = display the current log level and log options''),
       entry_r ''list_networks'' wpa_cli_cmd_list_networks wpa_cli_cmd_list_networks_with_results None cli_cmd_flag_none
         (''= list configured networks''),
       entry_r ''select_network'' wpa_cli_cmd_select_network wpa_cli_cmd_select_network_with_results (Some wpa_cli_complete_network_id) cli_cmd_flag_none
         (''<network id> = select a network (disable others)''),
       entry_r ''enable_network'' wpa_cli_cmd_enable_network wpa_cli_cmd_enable_network_with_results (Some wpa_cli_complete_network_id) cli_cmd_flag_none
         (''<network id> = enable a network''),
       entry_r ''disable_network'' wpa_cli_cmd_disable_network wpa_cli_cmd_disable_network_with_results (Some wpa_cli_complete_network_id) cli_cmd_flag_none
         (''<network id> = disable a network''),
       entry_r ''add_network'' wpa_cli_cmd_add_network wpa_cli_cmd_add_network_with_results None cli_cmd_flag_none
         (''= add a network''),
       entry_r ''remove_network'' wpa_cli_cmd_remove_network wpa_cli_cmd_remove_network_with_results (Some wpa_cli_complete_network_id) cli_cmd_flag_none
         (''<network id> = remove a network''),
       entry_r ''set_network'' wpa_cli_cmd_set_network wpa_cli_cmd_set_network_with_results (Some (wpa_cli_complete_network b)) cli_cmd_flag_sensitive
         (''<network id> <variable> <value> = set network variables (shows'' @ [NL] @ ''  list of variables when run without arguments)''),
       entry ''get_network'' wpa_cli_cmd_get_network (Some (wpa_cli_complete_network b)) cli_cmd_flag_none
         (''<network id> <variable> = get network variables''),
       entry ''dup_network'' wpa_cli_cmd_dup_network (Some (wpa_cli_complete_dup_network b)) cli_cmd_flag_none
         (''<src network id> <dst network id> <variable> = duplicate network variables''),
       entry ''list_creds'' wpa_cli_cmd_list_creds None cli_cmd_flag_none
         (''= list configured credentials''),
       entry ''add_cred'' wpa_cli_cmd_add_cred None cli_cmd_flag_none
         (''= add a credential''),
       entry ''remove_cred'' wpa_cli_cmd_remove_cred None cli_cmd_flag_none
         (''<cred id> = remove a credential''),
       entry ''set_cred'' wpa_cli_cmd_set_cred None cli_cmd_flag_sensitive
         (''<cred id> <variable> <value> = set credential variables'')]"

definition wpa_cli_commands_2 :: "handler \<Rightarrow> completion \<Rightarrow> build \<Rightarrow> cli_command list" where
  "wpa_cli_commands_2 help complete_help b =
     [entry ''get_cred'' wpa_cli_cmd_get_cred None cli_cmd_flag_none
         (''<cred id> <variable> = get credential variables''),
       entry_r ''save_config'' wpa_cli_cmd_save_config wpa_cli_cmd_save_config_with_results None cli_cmd_flag_none
         (''= save the current configuration''),
       entry ''disconnect'' wpa_cli_cmd_disconnect None cli_cmd_flag_none
         (''= disconnect and wait for reassociate/reconnect command before'' @ [NL] @ ''  connecting''),
       entry ''reconnect'' wpa_cli_cmd_reconnect None cli_cmd_flag_none
         (''= like reassociate, but only takes effect if already disconnected''),
       entry_r ''scan'' wpa_cli_cmd_scan wpa_cli_cmd_scan_with_results None cli_cmd_flag_none
         (''= request new BSS scan''),
       entry_r ''scan_results'' wpa_cli_cmd_scan_results wpa_cli_cmd_scan_results_with_results None cli_cmd_flag_none
         (''= get latest scan results''),
       entry ''abort_scan'' wpa_cli_cmd_abort_scan None cli_cmd_flag_none
         (''= request ongoing scan to be aborted''),
       entry ''bss'' wpa_cli_cmd_bss (Some wpa_cli_complete_bss) cli_cmd_flag_none
         (''<<idx> | <bssid>> = get detailed scan result info''),
       entry ''get_capability'' wpa_cli_cmd_get_capability (Some (wpa_cli_complete_get_capability b)) cli_cmd_flag_none
         (''<eap/pairwise/group/key_mgmt/proto/auth_alg/channels/freq/modes> = get capabilities''),
       entry ''reconfigure'' wpa_cli_cmd_reconfigure None cli_cmd_flag_none
         (''= force wpa_supplicant to re-read its configuration file''),
       entry ''terminate'' wpa_cli_cmd_terminate None cli_cmd_flag_none
         (''= terminate wpa_supplicant''),
       entry ''interface_add'' wpa_cli_cmd_interface_add None cli_cmd_flag_none
         (''<ifname> <confname> <driver> <ctrl_interface> <driver_param>'' @ [NL] @ ''  <bridge_name> <create> <type> = adds new interface, all parameters but'' @ [NL] @ ''  <ifname> are optional. Supported types are station ('' @ [SQ] @ ''sta'' @ [SQ] @ '') and AP ('' @ [SQ] @ ''ap'' @ [SQ] @ '')''),
       entry ''interface_remove'' wpa_cli_cmd_interface_remove None cli_cmd_flag_none
         (''<ifname> = removes the interface''),
       entry ''interface_list'' wpa_cli_cmd_interface_list None cli_cmd_flag_none
         (''= list available interfaces''),
       entry ''ap_scan'' wpa_cli_cmd_ap_scan None cli_cmd_flag_none
         (''<value> = set ap_scan parameter''),
       entry ''scan_interval'' wpa_cli_cmd_scan_interval None cli_cmd_flag_none
         (''<value> = set scan_interval parameter (in seconds)''),
       entry ''bss_expire_age'' wpa_cli_cmd_bss_expire_age None cli_cmd_flag_none
         (''<value> = set BSS expiration age parameter''),
       entry ''bss_expire_count'' wpa_cli_cmd_bss_expire_count None cli_cmd_flag_none
         (''<value> = set BSS expiration scan count parameter''),
       entry ''bss_flush'' wpa_cli_cmd_bss_flush None cli_cmd_flag_none
         (''<value> = set BSS flush age (0 by default)''),
       entry ''stkstart'' wpa_cli_cmd_stkstart None cli_cmd_flag_none
         (''<addr> = request STK negotiation with <addr>''),
       entry ''ft_ds'' wpa_cli_cmd_ft_ds (Some wpa_cli_complete_bss) cli_cmd_flag_none
         (''<addr> = request over-the-DS FT with <addr>''),
       entry ''wps_pbc'' wpa_cli_cmd_wps_pbc (Some wpa_cli_complete_bss) cli_cmd_flag_none
         (''[BSSID] = start Wi-Fi Protected Setup: Push Button Configuration''),
       entry ''wps_pin'' wpa_cli_cmd_wps_pin (Some wpa_cli_complete_bss) cli_cmd_flag_sensitive
         (''<BSSID> [PIN] = start WPS PIN method (returns PIN, if not hardcoded)''),
       entry ''wps_check_pin'' wpa_cli_cmd_wps_check_pin None cli_cmd_flag_sensitive
         (''<PIN> = verify PIN checksum''),
       entry ''wps_cancel'' wpa_cli_cmd_wps_cancel None cli_cmd_flag_none
         (''Cancels the pending WPS operation'')] @
     if_def CONFIG_WPS_NFC b
      [entry ''wps_nfc'' wpa_cli_cmd_wps_nfc (Some wpa_cli_complete_bss) cli_cmd_flag_none
         (''[BSSID] = start Wi-Fi Protected Setup: NFC''),
       entry ''wps_nfc_config_token'' wpa_cli_cmd_wps_nfc_config_token None cli_cmd_flag_none
         (''<WPS|NDEF> = build configuration token''),
       entry ''wps_nfc_token'' wpa_cli_cmd_wps_nfc_token None cli_cmd_flag_none
         (''<WPS|NDEF> = create password token''),
       entry ''wps_nfc_tag_read'' wpa_cli_cmd_wps_nfc_tag_read None cli_cmd_flag_sensitive
         (''<hexdump of payload> = report read NFC tag with WPS data''),
       entry ''nfc_get_handover_req'' wpa_cli_cmd_nfc_get_handover_req None cli_cmd_flag_none
         (''<NDEF> <WPS> = create NFC handover request''),
       entry ''nfc_get_handover_sel'' wpa_cli_cmd_nfc_get_handover_sel None cli_cmd_flag_none
         (''<NDEF> <WPS> = create NFC handover select''),
       entry ''nfc_report_handover'' wpa_cli_cmd_nfc_report_handover None cli_cmd_flag_none
         (''<role> <type> <hexdump of req> <hexdump of sel> = report completed NFC handover'')] @
     [entry ''wps_reg'' wpa_cli_cmd_wps_reg (Some wpa_cli_complete_bss) cli_cmd_flag_sensitive
         (''<BSSID> <AP PIN> = start WPS Registrar to configure an AP''),
       entry ''wps_ap_pin'' wpa_cli_cmd_wps_ap_pin None cli_cmd_flag_sensitive
         (''[params..] = enable/disable AP PIN''),
       entry ''wps_er_start'' wpa_cli_cmd_wps_er_start None cli_cmd_flag_none
         (''[IP address] = start Wi-Fi Protected Setup External Registrar''),
       entry ''wps_er_stop'' wpa_cli_cmd_wps_er_stop None cli_cmd_flag_none
         (''= stop Wi-Fi Protected Setup External Registrar''),
       entry ''wps_er_pin'' wpa_cli_cmd_wps_er_pin None cli_cmd_flag_sensitive
         (''<UUID> <PIN> = add an Enrollee PIN to External Registrar''),
       entry ''wps_er_pbc'' wpa_cli_cmd_wps_er_pbc None cli_cmd_flag_none
         (''<UUID> = accept an Enrollee PBC using External Registrar''),
       entry ''wps_er_learn'' wpa_cli_cmd_wps_er_learn None cli_cmd_flag_sensitive
         (''<UUID> <PIN> = learn AP configuration''),
       entry ''wps_er_set_config'' wpa_cli_cmd_wps_er_set_config None cli_cmd_flag_none
         (''<UUID> <network id> = set AP configuration for enrolling''),
       entry ''wps_er_config'' wpa_cli_cmd_wps_er_config None cli_cmd_flag_sensitive
         (''<UUID> <PIN> <SSID> <auth> <encr> <key> = configure AP'')] @
     if_def CONFIG_WPS_NFC b
      [entry ''wps_er_nfc_config_token'' wpa_cli_cmd_wps_er_nfc_config_token None cli_cmd_flag_none
         (''<WPS/NDEF> <UUID> = build NFC configuration token'')] @
     [entry ''ibss_rsn'' wpa_cli_cmd_ibss_rsn None cli_cmd_flag_none
         (''<addr> = request RSN authentication with <addr> in IBSS'')] @
     if_def CONFIG_AP b
      [entry ''sta'' wpa_cli_cmd_sta None cli_cmd_flag_none
         (''<addr> = get information about an associated station (AP)''),
       entry ''all_sta'' wpa_cli_cmd_all_sta None cli_cmd_flag_none
         (''= get information about all associated stations (AP)'')]"

definition wpa_cli_commands_3 :: "handler \<Rightarrow> completion \<Rightarrow> build \<Rightarrow> cli_command list" where
  "wpa_cli_commands_3 help complete_help b =
     if_def CONFIG_AP b
      [entry ''deauthenticate'' wpa_cli_cmd_deauthenticate None cli_cmd_flag_none
         (''<addr> = deauthenticate a station''),
       entry ''disassociate'' wpa_cli_cmd_disassociate None cli_cmd_flag_none
         (''<addr> = disassociate a station''),
       entry ''chan_switch'' wpa_cli_cmd_chanswitch None cli_cmd_flag_none
         (''<cs_count> <freq> [sec_channel_offset=] [center_freq1=] [center_freq2=] [bandwidth=] [blocktx] [ht|vht] = CSA parameters'')] @
     [entry ''suspend'' wpa_cli_cmd_suspend None cli_cmd_flag_none
         (''= notification of suspend/hibernate''),
       entry ''resume'' wpa_cli_cmd_resume None cli_cmd_flag_none
         (''= notification of resume/thaw'')] @
     if_def CONFIG_TESTING_OPTIONS b
      [entry ''drop_sa'' wpa_cli_cmd_drop_sa None cli_cmd_flag_none
         (''= drop SA without deauth/disassoc (test command)'')] @
     [entry ''roam'' wpa_cli_cmd_roam (Some wpa_cli_complete_bss) cli_cmd_flag_none
         (''<addr> = roam to the specified BSS'')] @
     if_def CONFIG_MESH b
      [entry ''mesh_interface_add'' wpa_cli_cmd_mesh_interface_add None cli_cmd_flag_none
         (''[ifname] = Create a new mesh interface''),
       entry ''mesh_group_add'' wpa_cli_cmd_mesh_group_add None cli_cmd_flag_none
         (''<network id> = join a mesh network (disable others)''),
       entry ''mesh_group_remove'' wpa_cli_cmd_mesh_group_remove None cli_cmd_flag_none
         (''<ifname> = Remove mesh group interface''),
       entry ''mesh_peer_remove'' wpa_cli_cmd_mesh_peer_remove None cli_cmd_flag_none
         (''<addr> = Remove a mesh peer''),
       entry ''mesh_peer_add'' wpa_cli_cmd_mesh_peer_add None cli_cmd_flag_none
         (''<addr> [duration=<seconds>] = Add a mesh peer'')] @
     if_def CONFIG_P2P b
      [entry ''p2p_find'' wpa_cli_cmd_p2p_find (Some wpa_cli_complete_p2p_find) cli_cmd_flag_none
         (''[timeout] [type=*] = find P2P Devices for up-to timeout seconds''),
       entry ''p2p_stop_find'' wpa_cli_cmd_p2p_stop_find None cli_cmd_flag_none
         (''= stop P2P Devices search''),
       entry ''p2p_asp_provision'' wpa_cli_cmd_p2p_asp_provision None cli_cmd_flag_none
         (''<addr> adv_id=<adv_id> conncap=<conncap> [info=<infodata>] = provision with a P2P ASP Device''),
       entry ''p2p_asp_provision_resp'' wpa_cli_cmd_p2p_asp_provision_resp None cli_cmd_flag_none
         (''<addr> adv_id=<adv_id> [role<conncap>] [info=<infodata>] = provision with a P2P ASP Device''),
       entry ''p2p_connect'' wpa_cli_cmd_p2p_connect (Some wpa_cli_complete_p2p_connect) cli_cmd_flag_none
         (''<addr> <'' @ [DQ] @ ''pbc'' @ [DQ] @ ''|PIN> [ht40] = connect to a P2P Device''),
       entry ''p2p_listen'' wpa_cli_cmd_p2p_listen None cli_cmd_flag_none
         (''[timeout] = listen for P2P Devices for up-to timeout seconds''),
       entry ''p2p_group_remove'' wpa_cli_cmd_p2p_group_remove (Some wpa_cli_complete_p2p_group_remove) cli_cmd_flag_none
         (''<ifname> = remove P2P group interface (terminate group if GO)''),
       entry ''p2p_group_add'' wpa_cli_cmd_p2p_group_add None cli_cmd_flag_none
         (''[ht40] = add a new P2P group (local end as GO)''),
       entry ''p2p_group_member'' wpa_cli_cmd_p2p_group_member None cli_cmd_flag_none
         (''<dev_addr> = Get peer interface address on local GO using peer Device Address''),
       entry ''p2p_prov_disc'' wpa_cli_cmd_p2p_prov_disc (Some wpa_cli_complete_p2p_peer) cli_cmd_flag_none
         (''<addr> <method> = request provisioning discovery''),
       entry ''p2p_get_passphrase'' wpa_cli_cmd_p2p_get_passphrase None cli_cmd_flag_none
         (''= get the passphrase for a group (GO only)''),
       entry ''p2p_serv_disc_req'' wpa_cli_cmd_p2p_serv_disc_req (Some wpa_cli_complete_p2p_peer) cli_cmd_flag_none
         (''<addr> <TLVs> = schedule service discovery request''),
       entry ''p2p_serv_disc_cancel_req'' wpa_cli_cmd_p2p_serv_disc_cancel_req None cli_cmd_flag_none
         (''<id> = cancel pending service discovery request''),
       entry ''p2p_serv_disc_resp'' wpa_cli_cmd_p2p_serv_disc_resp None cli_cmd_flag_none
         (''<freq> <addr> <dialog token> <TLVs> = service discovery response''),
       entry ''p2p_service_update'' wpa_cli_cmd_p2p_service_update None cli_cmd_flag_none
         (''= indicate change in local services''),
       entry ''p2p_serv_disc_external'' wpa_cli_cmd_p2p_serv_disc_external None cli_cmd_flag_none
         (''<external> = set external processing of service discovery''),
       entry ''p2p_service_flush'' wpa_cli_cmd_p2p_service_flush None cli_cmd_flag_none
         (''= remove all stored service entries''),
       entry ''p2p_service_add'' wpa_cli_cmd_p2p_service_add None cli_cmd_flag_none
         (''<bonjour|upnp|asp> <query|version> <response|service> = add a local service''),
       entry ''p2p_service_rep'' wpa_cli_cmd_p2p_service_rep None cli_cmd_flag_none
         (''asp <auto> <adv_id> <svc_state> <svc_string> [<svc_info>] = replace local ASP service''),
       entry ''p2p_service_del'' wpa_cli_cmd_p2p_service_del None cli_cmd_flag_none
         (''<bonjour|upnp> <query|version> [|service] = remove a local service''),
       entry ''p2p_reject'' wpa_cli_cmd_p2p_reject (Some wpa_cli_complete_p2p_peer) cli_cmd_flag_none
         (''<addr> = reject connection attempts from a specific peer''),
       entry ''p2p_invite'' wpa_cli_cmd_p2p_invite None cli_cmd_flag_none
         (''<cmd> [peer=addr] = invite peer''),
       entry ''p2p_peers'' wpa_cli_cmd_p2p_peers None cli_cmd_flag_none
         (''[discovered] = list known (optionally, only fully discovered) P2P peers''),
       entry ''p2p_peer'' wpa_cli_cmd_p2p_peer (Some wpa_cli_complete_p2p_peer) cli_cmd_flag_none
         (''<address> = show information about known P2P peer''),
       entry ''p2p_set'' wpa_cli_cmd_p2p_set (Some (wpa_cli_complete_p2p_set b)) cli_cmd_flag_none
         (''<field> <value> = set a P2P parameter''),
       entry ''p2p_flush'' wpa_cli_cmd_p2p_flush None cli_cmd_flag_none
         (''= flush P2P state''),
       entry ''p2p_cancel'' wpa_cli_cmd_p2p_cancel None cli_cmd_flag_none
         (''= cancel P2P group formation''),
       entry ''p2p_unauthorize'' wpa_cli_cmd_p2p_unauthorize (Some wpa_cli_complete_p2p_peer) cli_cmd_flag_none
         (''<address> = unauthorize a peer''),
       entry ''p2p_presence_req'' wpa_cli_cmd_p2p_presence_req None cli_cmd_flag_none
         (''[<duration> <interval>] [<duration> <interval>] = request GO presence''),
       entry ''p2p_ext_listen'' wpa_cli_cmd_p2p_ext_listen None cli_cmd_flag_none
         (''[<period> <interval>] = set extended listen timing''),
       entry ''p2p_remove_client'' wpa_cli_cmd_p2p_remove_client (Some wpa_cli_complete_p2p_peer) cli_cmd_flag_none
         (''<address|iface=address> = remove a peer from all groups''),
       entry ''vendor_elem_add'' wpa_cli_cmd_vendor_elem_add None cli_cmd_flag_none
         (''<frame id> <hexdump of elem(s)> = add vendor specific IEs to frame(s)'' @ [NL] @ VENDOR_ELEM_FRAME_ID),
       entry ''vendor_elem_get'' wpa_cli_cmd_vendor_elem_get None cli_cmd_flag_none
         (''<frame id> = get vendor specific IE(s) to frame(s)'' @ [NL] @ VENDOR_ELEM_FRAME_ID),
       entry ''vendor_elem_remove'' wpa_cli_cmd_vendor_elem_remove None cli_cmd_flag_none
         (''<frame id> <hexdump of elem(s)> = remove vendor specific IE(s) in frame(s)'' @ [NL] @ VENDOR_ELEM_FRAME_ID)]"

definition wpa_cli_commands_4 :: "handler \<Rightarrow> completion \<Rightarrow> build \<Rightarrow> cli_command list" where
  "wpa_cli_commands_4 help complete_help b =
     if_def CONFIG_WIFI_DISPLAY b
      [entry ''wfd_subelem_set'' wpa_cli_cmd_wfd_subelem_set None cli_cmd_flag_none
         (''<subelem> [contents] = set Wi-Fi Display subelement''),
       entry ''wfd_subelem_get'' wpa_cli_cmd_wfd_subelem_get None cli_cmd_flag_none
         (''<subelem> = get Wi-Fi Display subelement'')] @
     if_def CONFIG_INTERWORKING b
      [entry ''fetch_anqp'' wpa_cli_cmd_fetch_anqp None cli_cmd_flag_none
         (''= fetch ANQP information for all APs''),
       entry ''stop_fetch_anqp'' wpa_cli_cmd_stop_fetch_anqp None cli_cmd_flag_none
         (''= stop fetch_anqp operation''),
       entry ''interworking_select'' wpa_cli_cmd_interworking_select None cli_cmd_flag_none
         (''[auto] = perform Interworking network selection''),
       entry ''interworking_connect'' wpa_cli_cmd_interworking_connect (Some wpa_cli_complete_bss) cli_cmd_flag_none
         (''<BSSID> = connect using Interworking credentials''),
       entry ''interworking_add_network'' wpa_cli_cmd_interworking_add_network (Some wpa_cli_complete_bss) cli_cmd_flag_none
         (''<BSSID> = connect using Interworking credentials''),
       entry ''anqp_get'' wpa_cli_cmd_anqp_get (Some wpa_cli_complete_bss) cli_cmd_flag_none
         (''<addr> <info id>[,<info id>]... = request ANQP information''),
       entry ''gas_request'' wpa_cli_cmd_gas_request (Some wpa_cli_complete_bss) cli_cmd_flag_none
         (''<addr> <AdvProtoID> [QueryReq] = GAS request''),
       entry ''gas_response_get'' wpa_cli_cmd_gas_response_get (Some wpa_cli_complete_bss) cli_cmd_flag_none
         (''<addr> <dialog token> [start,len] = Fetch last GAS response'')] @
     if_def CONFIG_HS20 b
      [entry ''hs20_anqp_get'' wpa_cli_cmd_hs20_anqp_get (Some wpa_cli_complete_bss) cli_cmd_flag_none
         (''<addr> <subtype>[,<subtype>]... = request HS 2.0 ANQP information''),
       entry ''nai_home_realm_list'' wpa_cli_cmd_get_nai_home_realm_list (Some wpa_cli_complete_bss) cli_cmd_flag_none
         (''<addr> <home realm> = get HS20 nai home realm list''),
       entry ''hs20_icon_request'' wpa_cli_cmd_hs20_icon_request (Some wpa_cli_complete_bss) cli_cmd_flag_none
         (''<addr> <icon name> = get Hotspot 2.0 OSU icon''),
       entry ''fetch_osu'' wpa_cli_cmd_fetch_osu None cli_cmd_flag_none
         (''= fetch OSU provider information from all APs''),
       entry ''cancel_fetch_osu'' wpa_cli_cmd_cancel_fetch_osu None cli_cmd_flag_none
         (''= cancel fetch_osu command'')] @
     [entry ''sta_autoconnect'' wpa_cli_cmd_sta_autoconnect None cli_cmd_flag_none
         (''<0/1> = disable/enable automatic reconnection''),
       entry ''tdls_discover'' wpa_cli_cmd_tdls_discover None cli_cmd_flag_none
         (''<addr> = request TDLS discovery with <addr>''),
       entry ''tdls_setup'' wpa_cli_cmd_tdls_setup None cli_cmd_flag_none
         (''<addr> = request TDLS setup with <addr>''),
       entry ''tdls_teardown'' wpa_cli_cmd_tdls_teardown None cli_cmd_flag_none
         (''<addr> = tear down TDLS with <addr>''),
       entry ''tdls_link_status'' wpa_cli_cmd_tdls_link_status None cli_cmd_flag_none
         (''<addr> = TDLS link status with <addr>''),
       entry ''wmm_ac_addts'' wpa_cli_cmd_wmm_ac_addts None cli_cmd_flag_none
         (''<uplink/downlink/bidi> <tsid=0..7> <up=0..7> [nominal_msdu_size=#] [mean_data_rate=#] [min_phy_rate=#] [sba=#] [fixed_nominal_msdu] = add WMM-AC traffic stream''),
       entry ''wmm_ac_delts'' wpa_cli_cmd_wmm_ac_delts None cli_cmd_flag_none
         (''<tsid> = delete WMM-AC traffic stream''),
       entry ''wmm_ac_status'' wpa_cli_cmd_wmm_ac_status None cli_cmd_flag_none
         (''= show status for Wireless Multi-Media Admission-Control''),
       entry ''tdls_chan_switch'' wpa_cli_cmd_tdls_chan_switch None cli_cmd_flag_none
         (''<addr> <oper class> <freq> [sec_channel_offset=] [center_freq1=] [center_freq2=] [bandwidth=] [ht|vht] = enable channel switching with TDLS peer''),
       entry ''tdls_cancel_chan_switch'' wpa_cli_cmd_tdls_cancel_chan_switch None cli_cmd_flag_none
         (''<addr> = disable channel switching with TDLS peer <addr>''),
       entry ''signal_poll'' wpa_cli_cmd_signal_poll None cli_cmd_flag_none
         (''= get signal parameters''),
       entry ''signal_monitor'' wpa_cli_cmd_signal_monitor None cli_cmd_flag_none
         (''= set signal monitor parameters''),
       entry ''pktcnt_poll'' wpa_cli_cmd_pktcnt_poll None cli_cmd_flag_none
         (''= get TX/RX packet counters''),
       entry ''reauthenticate'' wpa_cli_cmd_reauthenticate None cli_cmd_flag_none
         (''= trigger IEEE 802.1X/EAPOL reauthentication'')] @
     if_def CONFIG_AUTOSCAN b
      [entry ''autoscan'' wpa_cli_cmd_autoscan None cli_cmd_flag_none
         (''[params] = Set or unset (if none) autoscan parameters'')] @
     if_def CONFIG_WNM b
      [entry ''wnm_sleep'' wpa_cli_cmd_wnm_sleep None cli_cmd_flag_none
         (''<enter/exit> [interval=#] = enter/exit WNM-Sleep mode''),
       entry ''wnm_bss_query'' wpa_cli_cmd_wnm_bss_query None cli_cmd_flag_none
         (''<query reason> [list] = Send BSS Transition Management Query'')] @
     [entry ''raw'' wpa_cli_cmd_raw None cli_cmd_flag_sensitive
         (''<params..> = Sent unprocessed command''),
       entry ''flush'' wpa_cli_cmd_flush None cli_cmd_flag_none
         (''= flush wpa_supplicant state''),
       entry ''radio_work'' wpa_cli_cmd_radio_work None cli_cmd_flag_none
         (''= radio_work <show/add/done>''),
       entry ''vendor'' wpa_cli_cmd_vendor None cli_cmd_flag_none
         (''<vendor id> <command id> [<hex formatted command argument>] = Send vendor command''),
       entry ''neighbor_rep_request'' wpa_cli_cmd_neighbor_rep_request None cli_cmd_flag_none
         (''[ssid=<SSID>] [lci] [civic] = Trigger request to AP for neighboring AP report (with optional given SSID in hex or enclosed in double quotes, default: current SSID; with optional LCI and location civic request)''),
       entry ''erp_flush'' wpa_cli_cmd_erp_flush None cli_cmd_flag_none
         (''= flush ERP keys''),
       entry ''mac_rand_scan'' wpa_cli_cmd_mac_rand_scan None cli_cmd_flag_none
         (''<scan|sched|pno|all> enable=<0/1> [addr=mac-address mask=mac-address-mask] = scan MAC randomization''),
       entry ''get_pref_freq_list'' wpa_cli_cmd_get_pref_freq_list None cli_cmd_flag_none
         (''<interface type> = retrieve preferred freq list for the specified interface type''),
       entry ''p2p_lo_start'' wpa_cli_cmd_p2p_lo_start None cli_cmd_flag_none
         (''<freq> <period> <interval> <count> = start P2P listen offload''),
       entry ''p2p_lo_stop'' wpa_cli_cmd_p2p_lo_stop None cli_cmd_flag_none
         (''= stop P2P listen offload'')]"

definition wpa_cli_commands_with :: "handler \<Rightarrow> completion \<Rightarrow> build \<Rightarrow> cli_command list" where
  "wpa_cli_commands_with help complete_help b =
     wpa_cli_commands_1 help complete_help b @ wpa_cli_commands_2 help complete_help b @
     wpa_cli_commands_3 help complete_help b @ wpa_cli_commands_4 help complete_help b"

section \<open>Help\<close>

text \<open>The names and usage texts of the table, which do not depend on the handlers.\<close>

definition command_texts :: "build \<Rightarrow> (string \<times> string) list" where
  "command_texts b =
     map (\<lambda>c. (cmd_name c, cmd_usage c))
       (wpa_cli_commands_with (\<lambda>ctrl argv st. Val (0, st)) (\<lambda>str pos st. Val None) b)"

definition print_cmd_help :: "string \<times> string \<Rightarrow> string \<Rightarrow> cli \<Rightarrow> cli" where
  "print_cmd_help cmd pad st =
     printf (pad @ fst cmd @ '' '' @ concat (map (\<lambda>c. c # (if c = NL then pad else [])) (snd cmd)) @ [NL]) st"

definition print_help :: "build \<Rightarrow> string option \<Rightarrow> cli \<Rightarrow> cli" where
  "print_help b cmd st =
     fold (\<lambda>c st. if cmd = None \<or> str_starts (fst c) (the cmd) then print_cmd_help c ''  '' st else st)
       (command_texts b) (printf (lns [''commands:'']) st)"

definition wpa_cli_cmd_help :: "build \<Rightarrow> handler" where
  "wpa_cli_cmd_help b ctrl argv st = Val (0, print_help b (case argv of [] \<Rightarrow> None | a # _ \<Rightarrow> Some a) st)"

definition wpa_list_cmd_list :: "build \<Rightarrow> cli \<Rightarrow> string list" where
  "wpa_list_cmd_list b st =
     map fst (command_texts b) @
     map (\<lambda>t. fst (os_snprintf (8 + length t) (''ifname='' @ t))) (p2p_groups st) @ ifnames st"

definition wpa_cli_complete_help :: "build \<Rightarrow> completion" where
  "wpa_cli_complete_help b str pos st =
     omap (\<lambda>arg. if arg = 1 then Some (wpa_list_cmd_list b st) else None) (get_cmd_arg_num str pos)"

definition wpa_cli_commands :: "build \<Rightarrow> cli_command list" where
  "wpa_cli_commands b = wpa_cli_commands_with (wpa_cli_cmd_help b) (wpa_cli_complete_help b) b"

section \<open>Facts about the table\<close>

lemma entry_simps [simp]:
  "cmd_name (entry_r n h hr co fl us) = n" "cmd_name (entry n h co fl us) = n"
  "cmd_usage (entry_r n h hr co fl us) = us" "cmd_usage (entry n h co fl us) = us"
  "cmd_handler (entry_r n h hr co fl us) = h" "cmd_handler (entry n h co fl us) = h"
  "cmd_handler_with_results (entry_r n h hr co fl us) = hr"
  "cmd_handler_with_results (entry n h co fl us) = handler_with_results_default_func"
  "cmd_flags (entry_r n h hr co fl us) = fl" "cmd_flags (entry n h co fl us) = fl"
  by (simp_all add: entry_def entry_r_def)

lemma map_if_def [simp]: "map f (if_def opt b xs) = if_def opt b (map f xs)"
  by (simp add: if_def_def)

lemma command_texts_eq: "map (\<lambda>c. (cmd_name c, cmd_usage c)) (wpa_cli_commands b) = command_texts b"
  by (simp add: command_texts_def wpa_cli_commands_def wpa_cli_commands_with_def wpa_cli_commands_1_def
      wpa_cli_commands_2_def wpa_cli_commands_3_def wpa_cli_commands_4_def)

lemma command_names_eq: "map cmd_name (wpa_cli_commands b) = map fst (command_texts b)"
  unfolding command_texts_eq [symmetric] by simp

text \<open>The names with all options together, of which those of a build are a subsequence.\<close>

definition all_options :: build where
  "all_options = [CONFIG_ACS, CONFIG_AP, CONFIG_AUTOSCAN, CONFIG_CTRL_IFACE, CONFIG_ERP, CONFIG_FIPS, CONFIG_HS20,
     CONFIG_HT_OVERRIDES, CONFIG_IEEE80211W, CONFIG_INTERWORKING, CONFIG_MACSEC, CONFIG_MESH, CONFIG_NO_CONFIG_WRITE,
     CONFIG_P2P, CONFIG_TDLS, CONFIG_TESTING_OPTIONS, CONFIG_VHT_OVERRIDES, CONFIG_WIFI_DISPLAY, CONFIG_WNM, CONFIG_WPS,
     CONFIG_WPS_NFC, IEEE8021X_EAPOL]"

definition all_names :: "string list" where
  "all_names =
    [''status'', ''ifname'', ''ping'', ''relog'', ''note'', ''mib'', ''help'', ''interface'', ''level'',
     ''license'', ''quit'', ''set'', ''dump'', ''get'', ''driver_flags'', ''logon'', ''logoff'', ''pmksa'',
     ''pmksa_flush'', ''reassociate'', ''reattach'', ''preauthenticate'', ''identity'', ''password'',
     ''new_password'', ''pin'', ''otp'', ''passphrase'', ''sim'', ''bssid'', ''blacklist'', ''log_level'',
     ''list_networks'', ''select_network'', ''enable_network'', ''disable_network'', ''add_network'',
     ''remove_network'', ''set_network'', ''get_network'', ''dup_network'', ''list_creds'', ''add_cred'',
     ''remove_cred'', ''set_cred'', ''get_cred'', ''save_config'', ''disconnect'', ''reconnect'', ''scan'',
     ''scan_results'', ''abort_scan'', ''bss'', ''get_capability'', ''reconfigure'', ''terminate'',
     ''interface_add'', ''interface_remove'', ''interface_list'', ''ap_scan'', ''scan_interval'',
     ''bss_expire_age'', ''bss_expire_count'', ''bss_flush'', ''stkstart'', ''ft_ds'', ''wps_pbc'',
     ''wps_pin'', ''wps_check_pin'', ''wps_cancel'', ''wps_nfc'', ''wps_nfc_config_token'',
     ''wps_nfc_token'', ''wps_nfc_tag_read'', ''nfc_get_handover_req'', ''nfc_get_handover_sel'',
     ''nfc_report_handover'', ''wps_reg'', ''wps_ap_pin'', ''wps_er_start'', ''wps_er_stop'', ''wps_er_pin'',
     ''wps_er_pbc'', ''wps_er_learn'', ''wps_er_set_config'', ''wps_er_config'', ''wps_er_nfc_config_token'',
     ''ibss_rsn'', ''sta'', ''all_sta'', ''deauthenticate'', ''disassociate'', ''chan_switch'', ''suspend'',
     ''resume'', ''drop_sa'', ''roam'', ''mesh_interface_add'', ''mesh_group_add'', ''mesh_group_remove'',
     ''mesh_peer_remove'', ''mesh_peer_add'', ''p2p_find'', ''p2p_stop_find'', ''p2p_asp_provision'',
     ''p2p_asp_provision_resp'', ''p2p_connect'', ''p2p_listen'', ''p2p_group_remove'', ''p2p_group_add'',
     ''p2p_group_member'', ''p2p_prov_disc'', ''p2p_get_passphrase'', ''p2p_serv_disc_req'',
     ''p2p_serv_disc_cancel_req'', ''p2p_serv_disc_resp'', ''p2p_service_update'',
     ''p2p_serv_disc_external'', ''p2p_service_flush'', ''p2p_service_add'', ''p2p_service_rep'',
     ''p2p_service_del'', ''p2p_reject'', ''p2p_invite'', ''p2p_peers'', ''p2p_peer'', ''p2p_set'',
     ''p2p_flush'', ''p2p_cancel'', ''p2p_unauthorize'', ''p2p_presence_req'', ''p2p_ext_listen'',
     ''p2p_remove_client'', ''vendor_elem_add'', ''vendor_elem_get'', ''vendor_elem_remove'',
     ''wfd_subelem_set'', ''wfd_subelem_get'', ''fetch_anqp'', ''stop_fetch_anqp'', ''interworking_select'',
     ''interworking_connect'', ''interworking_add_network'', ''anqp_get'', ''gas_request'',
     ''gas_response_get'', ''hs20_anqp_get'', ''nai_home_realm_list'', ''hs20_icon_request'', ''fetch_osu'',
     ''cancel_fetch_osu'', ''sta_autoconnect'', ''tdls_discover'', ''tdls_setup'', ''tdls_teardown'',
     ''tdls_link_status'', ''wmm_ac_addts'', ''wmm_ac_delts'', ''wmm_ac_status'', ''tdls_chan_switch'',
     ''tdls_cancel_chan_switch'', ''signal_poll'', ''signal_monitor'', ''pktcnt_poll'', ''reauthenticate'',
     ''autoscan'', ''wnm_sleep'', ''wnm_bss_query'', ''raw'', ''flush'', ''radio_work'', ''vendor'',
     ''neighbor_rep_request'', ''erp_flush'', ''mac_rand_scan'', ''get_pref_freq_list'', ''p2p_lo_start'',
     ''p2p_lo_stop'']"

lemma all_options_all [simp]: "opt \<in> set all_options"
  by (cases opt) (simp_all add: all_options_def)

lemma if_def_all [simp]: "if_def opt all_options xs = xs"
  by (simp add: if_def_def)

lemmas table_defs = wpa_cli_commands_def wpa_cli_commands_with_def wpa_cli_commands_1_def wpa_cli_commands_2_def
  wpa_cli_commands_3_def wpa_cli_commands_4_def

lemma names_all_options: "map cmd_name (wpa_cli_commands all_options) = all_names"
  by (simp add: table_defs all_names_def)

lemma subseq_if_def: "subseq (if_def opt b xs) xs"
  by (simp add: if_def_def)

lemma subseq_part: "subseq xs xs' \<Longrightarrow> subseq ys ys' \<Longrightarrow> subseq (xs @ ys) (xs' @ ys')"
  by (rule list_emb_append_mono)

lemma names_subseq: "subseq (map cmd_name (wpa_cli_commands b)) (map cmd_name (wpa_cli_commands all_options))"
  unfolding table_defs map_append map_if_def list.map entry_simps if_def_all
  by (intro subseq_part subseq_if_def subseq_order.refl)

text \<open>Distinctness by sorting in some total order of the characters, which the kernel evaluates quickly.\<close>

fun bits_lt :: "bool list \<Rightarrow> bool list \<Rightarrow> bool" where
  "bits_lt (a # as) (b # bs) = (if a = b then bits_lt as bs else b)"
| "bits_lt _ _ = False"

fun chr_lt :: "char \<Rightarrow> char \<Rightarrow> bool" where
  "chr_lt (Char a0 a1 a2 a3 a4 a5 a6 a7) (Char b0 b1 b2 b3 b4 b5 b6 b7) =
     bits_lt [a0, a1, a2, a3, a4, a5, a6, a7] [b0, b1, b2, b3, b4, b5, b6, b7]"

fun str_lt :: "string \<Rightarrow> string \<Rightarrow> bool" where
  "str_lt a [] = False"
| "str_lt [] (c # b) = True"
| "str_lt (c # a) (d # b) = (if c = d then str_lt a b else chr_lt c d)"

fun merge_str :: "string list \<Rightarrow> string list \<Rightarrow> string list" where
  "merge_str [] ys = ys"
| "merge_str xs [] = xs"
| "merge_str (x # xs) (y # ys) = (if str_lt x y then x # merge_str xs (y # ys) else y # merge_str (x # xs) ys)"

fun merge_pairs :: "string list list \<Rightarrow> string list list" where
  "merge_pairs (a # b # r) = merge_str a b # merge_pairs r"
| "merge_pairs r = r"

fun ascending :: "string list \<Rightarrow> bool" where
  "ascending (x # y # r) = (str_lt x y \<and> ascending (y # r))"
| "ascending r = True"

lemma bits_lt_irrefl: "\<not> bits_lt a a"
  by (induction a) auto

lemma bits_lt_trans: "bits_lt a b \<Longrightarrow> bits_lt b c \<Longrightarrow> bits_lt a c"
proof (induction a b arbitrary: c rule: bits_lt.induct)
  case (1 a as b bs)
  then show ?case by (cases c) (auto split: if_splits)
qed auto

lemma chr_lt_bits:
  "chr_lt a b = bits_lt (map (\<lambda>f. f a) [digit0, digit1, digit2, digit3, digit4, digit5, digit6, digit7])
     (map (\<lambda>f. f b) [digit0, digit1, digit2, digit3, digit4, digit5, digit6, digit7])"
  by (cases a; cases b) simp

lemma chr_lt_trans: "chr_lt a b \<Longrightarrow> chr_lt b c \<Longrightarrow> chr_lt a c"
  unfolding chr_lt_bits by (rule bits_lt_trans)

lemma chr_lt_irrefl: "\<not> chr_lt a a"
  unfolding chr_lt_bits by (rule bits_lt_irrefl)

lemma str_lt_irrefl: "\<not> str_lt a a"
  by (induction a) auto

lemma str_lt_trans: "str_lt a b \<Longrightarrow> str_lt b c \<Longrightarrow> str_lt a c"
proof (induction a b arbitrary: c rule: str_lt.induct)
  case (2 x b)
  then show ?case by (cases c) (auto split: if_splits)
next
  case (3 x a d b)
  then show ?case by (cases c) (auto split: if_splits dest: chr_lt_trans simp: chr_lt_irrefl)
qed auto

lemma ascending_distinct: "ascending xs \<Longrightarrow> distinct xs \<and> (\<forall>y \<in> set (tl xs). str_lt (hd xs) y)"
proof (induction xs rule: ascending.induct)
  case (1 x y r)
  then show ?case by (auto dest: str_lt_trans simp: str_lt_irrefl)
qed auto

lemma merge_str_perm: "mset (merge_str xs ys) = mset xs + mset ys"
  by (induction xs ys rule: merge_str.induct) auto

lemma merge_pairs_perm: "\<Sum>\<^sub># (mset (map mset (merge_pairs xs))) = \<Sum>\<^sub># (mset (map mset xs))"
  by (induction xs rule: merge_pairs.induct) (auto simp: merge_str_perm)

lemma merge_rounds_perm: "\<Sum>\<^sub># (mset (map mset ((merge_pairs ^^ n) xs))) = \<Sum>\<^sub># (mset (map mset xs))"
  by (induction n) (simp_all add: merge_pairs_perm [simplified])

lemma all_names_sorted: "list_all ascending ((merge_pairs ^^ 8) (map (\<lambda>n. [n]) all_names)) \<and>
    length ((merge_pairs ^^ 8) (map (\<lambda>n. [n]) all_names)) = 1"
  by code_simp

lemma all_names_distinct: "distinct all_names"
proof -
  let ?s = "(merge_pairs ^^ 8) (map (\<lambda>n. [n]) all_names)"
  obtain s where s: "?s = [s]" using all_names_sorted by (metis length_0_conv length_Suc_conv One_nat_def)
  have "\<Sum>\<^sub># (mset (map mset (map (\<lambda>n. [n]) ns))) = mset ns" for ns :: "string list" by (induction ns) auto
  from merge_rounds_perm [of 8 "map (\<lambda>n. [n]) all_names", unfolded s this] have "mset s = mset all_names" by simp
  moreover have "distinct s" using all_names_sorted s ascending_distinct [of s] by simp
  ultimately show ?thesis by (metis mset_eq_imp_distinct_iff)
qed

fun lower_chr :: "char \<Rightarrow> bool" where
  "lower_chr (Char b0 b1 b2 b3 b4 b5 b6 b7) = (b5 \<or> Char b0 b1 b2 b3 b4 b5 b6 b7 = CHR ''_'')"

lemma lower_chr: "lower_chr c \<Longrightarrow> c_tolower c = c"
proof (induction c rule: lower_chr.induct)
  case (1 b0 b1 b2 b3 b4 b5 b6 b7)
  show ?case
  proof (cases b5)
    case True
    then show ?thesis by (simp add: c_tolower_def Let_def of_char_def horner_sum_simps split: if_splits)
  next
    case False
    with 1 show ?thesis by (auto simp: c_tolower_def)
  qed
qed

lemma all_names_lower: "list_all (list_all lower_chr) all_names"
  by code_simp

lemma command_names_distinct: "distinct (map cmd_name (wpa_cli_commands b))"
  using names_subseq [of b] all_names_distinct unfolding names_all_options subseq_conv_nths by (auto intro: distinct_nthsI)

lemma command_name_lower:
  assumes "c \<in> set (wpa_cli_commands b)"
  shows "map c_tolower (cmd_name c) = cmd_name c"
proof -
  obtain N where "map cmd_name (wpa_cli_commands b) = nths all_names N"
    using names_subseq [of b] unfolding names_all_options subseq_conv_nths by blast
  then have "cmd_name c \<in> set (nths all_names N)" using assms by (metis imageI set_map)
  then have "cmd_name c \<in> set all_names" by (rule in_set_nthsD)
  then have "list_all lower_chr (cmd_name c)" using all_names_lower unfolding list_all_iff [of _ all_names] by (rule bspec [rotated])
  then show ?thesis by (auto simp: list_all_iff intro!: map_idI lower_chr)
qed

end
