(* ===== verification/Cli_Request.thy ===== *)
theory Cli_Request
  imports Cli_Table
begin

text \<open>
  Finding the command of a line and running its handler (\<^verbatim>\<open>wpa_request\<close>, \<^verbatim>\<open>wpa_request_with_result_buf\<close>)
  and the callbacks of the line editor: the filter for the history and the completion of a word.
\<close>

section \<open>Callbacks of the line editor\<close>

definition cmd_word :: "string \<Rightarrow> string" where
  "cmd_word cmd = takeWhile (\<lambda>c. c \<noteq> CHR '' '') cmd"

definition wpa_cli_edit_filter_history_cb :: "build \<Rightarrow> string \<Rightarrow> bool" where
  "wpa_cli_edit_filter_history_cb b cmd =
     (let len = length (cmd_word cmd)
      in case find (\<lambda>c. strncaseeq cmd (cmd_name c) len \<and> len = length (cmd_name c)) (wpa_cli_commands b) of
           None \<Rightarrow> False
         | Some c \<Rightarrow> cmd_flags c = cli_cmd_flag_sensitive)"

definition wpa_cli_cmd_completion :: "build \<Rightarrow> string \<Rightarrow> string \<Rightarrow> int \<Rightarrow> cli \<Rightarrow> (string list option \<times> cli) outcome" where
  "wpa_cli_cmd_completion b cmd str pos st =
     (case find (\<lambda>c. strcaseeq (cmd_name c) cmd) (wpa_cli_commands b) of
        None \<Rightarrow> Val (None, st)
      | Some c \<Rightarrow>
          (case cmd_completion c of
             Some f \<Rightarrow> omap (\<lambda>r. (r, st)) (f str pos st)
           | None \<Rightarrow> Val (None, printf (CHR 0x0D # cmd_usage c @ [NL]) st)))"

definition skip_ifname :: "string \<Rightarrow> int \<Rightarrow> string \<times> int" where
  "skip_ifname str pos =
     (if pos > 7 \<and> strncaseeq str ''IFNAME='' 7
      then case os_strchr str (CHR '' '') of
          None \<Rightarrow> (str, pos)
        | Some e \<Rightarrow>
            let off = int (length (cmd_word str))
            in if pos > off then (tl e, pos - (off + 1)) else (str, pos)
      else (str, pos))"

definition wpa_cli_edit_completion_cb :: "build \<Rightarrow> string \<Rightarrow> int \<Rightarrow> cli \<Rightarrow> (string list option \<times> cli) outcome" where
  "wpa_cli_edit_completion_cb b str pos st =
     (let (str, pos) = skip_ifname str pos
      in if os_strchr str (CHR '' '') = None \<or> pos < int (length (cmd_word str))
         then Val (Some (wpa_list_cmd_list b st), st)
         else if pos > int (length str) + 1 then Undef Oob_read
         else wpa_cli_cmd_completion b (cmd_word str) str pos st)"

section \<open>Requests\<close>

text \<open>
  The search through the table: the number of commands that start with the given word, without
  regard to case, and the last of them; an exact match ends the search with the count one.
\<close>

fun match_loop :: "cli_command list \<Rightarrow> string \<Rightarrow> nat \<Rightarrow> cli_command option \<Rightarrow> nat \<times> cli_command option" where
  "match_loop [] name n m = (n, m)"
| "match_loop (c # cs) name n m =
     (if strncaseeq (cmd_name c) name (length name) then
        if strcaseeq (cmd_name c) name then (1, Some c) else match_loop cs name (n + 1) (Some c)
      else match_loop cs name n m)"

definition split_ifname :: "string list \<Rightarrow> cli \<Rightarrow> string list \<times> cli" where
  "split_ifname argv st =
     (if length argv > 1 \<and> strncaseeq (argv ! 0) ''IFNAME='' 7
      then (tl argv, st\<lparr>ifname_prefix := Some (drop 7 (argv ! 0))\<rparr>)
      else (argv, st\<lparr>ifname_prefix := None\<rparr>))"

definition print_ambiguous :: "cli_command list \<Rightarrow> string \<Rightarrow> cli \<Rightarrow> cli" where
  "print_ambiguous cmds name st =
     printf (''Ambiguous command '' @ quoted name @ ''; possible commands:'' @
       concat (map (\<lambda>c. '' '' @ cmd_name c) (filter (\<lambda>c. strncaseeq (cmd_name c) name (length name)) cmds)) @ [NL]) st"

definition print_unknown :: "string \<Rightarrow> cli \<Rightarrow> cli" where
  "print_unknown name st = printf (''Unknown command '' @ quoted name @ [NL]) st"

definition wpa_request :: "build \<Rightarrow> wpa_ctrl option \<Rightarrow> string list \<Rightarrow> cli \<Rightarrow> (int \<times> cli) outcome" where
  "wpa_request b ctrl argv st =
     (let (argv, st) = split_ifname argv st
      in case argv of [] \<Rightarrow> Val (-1, st)
         | name # args \<Rightarrow>
             (case match_loop (wpa_cli_commands b) name 0 None of
                (n, m) \<Rightarrow>
                  if n > 1 then Val (1, print_ambiguous (wpa_cli_commands b) name st)
                  else case m of
                      None \<Rightarrow> Val (1, print_unknown name st)
                    | Some c \<Rightarrow> cmd_handler c ctrl args st))"

definition wpa_request_with_result_buf ::
  "build \<Rightarrow> wpa_ctrl option \<Rightarrow> string list \<Rightarrow> cbuf \<Rightarrow> cli \<Rightarrow> (int \<times> cbuf \<times> cli) outcome" where
  "wpa_request_with_result_buf b ctrl argv buf st =
     (let (argv, st) = split_ifname argv st
      in case argv of [] \<Rightarrow> Val (-1, buf, st)
         | name # args \<Rightarrow>
             (case match_loop (wpa_cli_commands b) name 0 None of
                (n, m) \<Rightarrow>
                  if n > 1 then Val (1, buf, print_ambiguous (wpa_cli_commands b) name st)
                  else case m of
                      None \<Rightarrow> Val (1, buf, print_unknown name st)
                    | Some c \<Rightarrow> cmd_handler_with_results c ctrl args buf st))"

section \<open>What a word selects\<close>

text \<open>The specification: the exact name, else the only command the word abbreviates.\<close>

datatype selection = Selected cli_command | Ambiguous "cli_command list" | Unknown

definition abbreviates :: "string \<Rightarrow> cli_command \<Rightarrow> bool" where
  "abbreviates name c \<longleftrightarrow> is_prefix (map c_tolower name) (map c_tolower (cmd_name c))"

definition select_command :: "cli_command list \<Rightarrow> string \<Rightarrow> selection" where
  "select_command cmds name =
     (case filter (\<lambda>c. map c_tolower (cmd_name c) = map c_tolower name) cmds of
        c # _ \<Rightarrow> Selected c
      | [] \<Rightarrow> (case filter (abbreviates name) cmds of
            [] \<Rightarrow> Unknown | [c] \<Rightarrow> Selected c | cs \<Rightarrow> Ambiguous cs))"

lemma strncaseeq_abbreviates: "strncaseeq (cmd_name c) name (length name) \<longleftrightarrow> abbreviates name c"
  by (simp add: strncaseeq_def abbreviates_def is_prefix_take take_map)

lemma exact_abbreviates: "map c_tolower (cmd_name c) = map c_tolower name \<Longrightarrow> abbreviates name c"
  by (simp add: abbreviates_def is_prefix_take)

lemma match_loop_filter:
  "match_loop cmds name n m =
     (case filter (\<lambda>c. map c_tolower (cmd_name c) = map c_tolower name) cmds of
        c # _ \<Rightarrow> (1, Some c)
      | [] \<Rightarrow> let cs = filter (abbreviates name) cmds in (n + length cs, if cs = [] then m else Some (last cs)))"
  by (induction cmds arbitrary: n m)
    (auto simp: strncaseeq_abbreviates strcaseeq_def Let_def exact_abbreviates split: list.splits)

lemma match_loop_select:
  "match_loop cmds name 0 None =
     (case select_command cmds name of
        Selected c \<Rightarrow> (1, Some c) | Ambiguous cs \<Rightarrow> (length cs, Some (last cs)) | Unknown \<Rightarrow> (0, None))"
  by (auto simp: match_loop_filter select_command_def Let_def split: list.splits)

lemma select_command_Ambiguous: "select_command cmds name = Ambiguous cs \<Longrightarrow> 1 < length cs \<and> cs = filter (abbreviates name) cmds"
  by (auto simp: select_command_def split: list.splits) (metis Suc_less_eq length_Cons zero_less_Suc)

lemma filter_key_eq: "distinct (map f xs) \<Longrightarrow> c \<in> set xs \<Longrightarrow> filter (\<lambda>d. f d = f c) xs = [c]"
proof (induction xs)
  case (Cons x xs)
  show ?case
  proof (cases "x = c")
    case True
    with Cons.prems have "\<forall>d \<in> set xs. f d \<noteq> f c" by (auto simp: image_iff)
    with True show ?thesis by simp
  next
    case False
    with Cons show ?thesis by (auto simp: image_iff)
  qed
qed simp

lemma select_own_name:
  assumes "c \<in> set (wpa_cli_commands b)" "strcaseeq name (cmd_name c)"
  shows "select_command (wpa_cli_commands b) name = Selected c"
proof -
  have n: "map c_tolower name = cmd_name c" using assms command_name_lower [OF assms(1)] by (simp add: strcaseeq_def)
  have "filter (\<lambda>d. map c_tolower (cmd_name d) = map c_tolower name) (wpa_cli_commands b) =
      filter (\<lambda>d. cmd_name d = cmd_name c) (wpa_cli_commands b)"
    unfolding n by (rule filter_cong) (auto simp: command_name_lower)
  also have "\<dots> = [c]" using command_names_distinct assms(1) by (rule filter_key_eq)
  finally show ?thesis by (simp add: select_command_def)
qed


lemma split_ifname_cases:
  "split_ifname argv st =
     (if length argv > 1 \<and> map c_tolower (take 7 (argv ! 0)) = ''ifname=''
      then (tl argv, st\<lparr>ifname_prefix := Some (drop 7 (argv ! 0))\<rparr>)
      else (argv, st\<lparr>ifname_prefix := None\<rparr>))"
proof -
  have "map c_tolower (take 7 ''IFNAME='') = ''ifname=''" by code_simp
  then show ?thesis unfolding split_ifname_def strncaseeq_def by (simp only:)
qed

section \<open>Properties\<close>

text \<open>
  C4: dispatch of a command line. After an optional IFNAME= word, the first word selects a command
  of the table by its full name or by an abbreviation no other command shares, without regard to
  case; the selected command gets the remaining words. An abbreviation of several commands lists
  exactly these and returns 1, an unknown word is reported and returns 1, and in both cases nothing
  is sent.
\<close>

theorem wpa_request_dispatch:
  fixes st :: cli
  assumes "split_ifname argv st = (name # args, st')"
  shows "(wpa_request b ctrl argv st =
      (case select_command (wpa_cli_commands b) name of
         Selected c \<Rightarrow> cmd_handler c ctrl args st'
       | Ambiguous cs \<Rightarrow> Val (1, st'\<lparr>stdout := stdout st' @ ''Ambiguous command '' @ quoted name @ ''; possible commands:'' @
           concat (map (\<lambda>c. '' '' @ cmd_name c) cs) @ [NL]\<rparr>)
       | Unknown \<Rightarrow> Val (1, st'\<lparr>stdout := stdout st' @ ''Unknown command '' @ quoted name @ [NL]\<rparr>))) \<and>
    (wpa_request_with_result_buf b ctrl argv buf st =
      (case select_command (wpa_cli_commands b) name of
         Selected c \<Rightarrow> cmd_handler_with_results c ctrl args buf st'
       | Ambiguous cs \<Rightarrow> Val (1, buf, st'\<lparr>stdout := stdout st' @ ''Ambiguous command '' @ quoted name @ ''; possible commands:'' @
           concat (map (\<lambda>c. '' '' @ cmd_name c) cs) @ [NL]\<rparr>)
       | Unknown \<Rightarrow> Val (1, buf, st'\<lparr>stdout := stdout st' @ ''Unknown command '' @ quoted name @ [NL]\<rparr>)))"
  using assms
  by (auto simp: wpa_request_def wpa_request_with_result_buf_def match_loop_select print_ambiguous_def print_unknown_def
      printf_def strncaseeq_abbreviates dest: select_command_Ambiguous split: selection.splits)

definition ping_command :: cli_command where
  "ping_command = entry ''ping'' wpa_cli_cmd_ping None cli_cmd_flag_none ''= pings wpa_supplicant''"

lemma ping_command_in_table: "ping_command \<in> set (wpa_cli_commands b)"
  unfolding table_defs ping_command_def set_append wpa_cli_commands_1_def by (intro UnI1) simp

lemma ping_command_name [simp]: "cmd_name ping_command = ''ping''" "cmd_handler ping_command = wpa_cli_cmd_ping"
  "cmd_handler_with_results ping_command = handler_with_results_default_func"
  by (simp_all add: ping_command_def)

theorem wpa_request_dispatch_witness:
  "wpa_request default_build (Some demo_ctrl) [''IFNAME=p2p0'', ''PING''] (demo_connected (\<lambda>_. [])) =
     wpa_cli_cmd_ping (Some demo_ctrl) [] ((demo_connected (\<lambda>_. []))\<lparr>ifname_prefix := Some ''p2p0''\<rparr>)"
proof -
  have "strcaseeq ''PING'' (cmd_name ping_command)" unfolding ping_command_name by code_simp
  note sel = select_own_name [OF ping_command_in_table this]
  have "strncaseeq ''IFNAME=p2p0'' ''IFNAME='' 7" by code_simp
  then have "split_ifname [''IFNAME=p2p0'', ''PING''] (demo_connected (\<lambda>_. [])) =
      ([''PING''], (demo_connected (\<lambda>_. []))\<lparr>ifname_prefix := Some ''p2p0''\<rparr>)"
    by (simp add: split_ifname_def)
  from wpa_request_dispatch [OF this] sel show ?thesis by simp
qed

text \<open>
  in every build, every command of the table is selected by its own name in any mixture of upper
  and lower case: no other command hides it, although some names are prefixes of others.
\<close>

theorem command_reachable:
  assumes "c \<in> set (wpa_cli_commands b)" "strcaseeq name (cmd_name c)"
    "\<not> strncaseeq name ''IFNAME='' 7"
  shows "wpa_request b ctrl (name # args) st = cmd_handler c ctrl args (st\<lparr>ifname_prefix := None\<rparr>) \<and>
    wpa_request_with_result_buf b ctrl (name # args) buf st =
      cmd_handler_with_results c ctrl args buf (st\<lparr>ifname_prefix := None\<rparr>)"
  using assms select_own_name [OF assms(1,2)]
  by (simp add: wpa_request_def wpa_request_with_result_buf_def split_ifname_def match_loop_select)

theorem command_reachable_witness:
  "wpa_request default_build (Some demo_ctrl) [''Ping''] (demo_connected (\<lambda>_. [])) =
     wpa_cli_cmd_ping (Some demo_ctrl) [] ((demo_connected (\<lambda>_. []))\<lparr>ifname_prefix := None\<rparr>)"
proof -
  have "strcaseeq ''Ping'' (cmd_name ping_command)" unfolding ping_command_name by code_simp
  moreover have "\<not> strncaseeq ''Ping'' ''IFNAME='' 7" by code_simp
  ultimately show ?thesis using command_reachable [OF ping_command_in_table] by simp
qed

end
