(* ===== verification/Cli_Exchange.thy ===== *)
theory Cli_Exchange
  imports Cli_Results
begin

text \<open>
  What an exchange with the daemon does to the client. \<open>io_only\<close>: it changes nothing but the socket
  queues, the clock and the output. On top of it, the functional behaviour of the commands
  that store the daemon's reply, and the way the stored replies keep the lists of
  networks, interfaces and BSSs.
\<close>

section \<open>Frame\<close>

definition io_clear :: "cli \<Rightarrow> cli" where
  "io_clear st = st\<lparr>sent := [], inbox := (\<lambda>_. []), send_script := [], clock := 0, stdout := []\<rparr>"

definition io_only :: "cli \<Rightarrow> cli \<Rightarrow> bool" where
  "io_only st st' \<longleftrightarrow> io_clear st' = io_clear st"

named_theorems io_intros \<open>steps that change only queues, clock and output\<close>

lemma io_only_refl [io_intros, simp]: "io_only st st"
  by (simp add: io_only_def)

lemma io_only_trans: "io_only a b \<Longrightarrow> io_only b c \<Longrightarrow> io_only a c"
  by (simp add: io_only_def)

lemma io_only_updates [io_intros]:
  "io_only a b \<Longrightarrow> io_only a (b\<lparr>sent := s\<rparr>)" "io_only a b \<Longrightarrow> io_only a (b\<lparr>inbox := q\<rparr>)"
  "io_only a b \<Longrightarrow> io_only a (b\<lparr>send_script := e\<rparr>)" "io_only a b \<Longrightarrow> io_only a (b\<lparr>clock := n\<rparr>)"
  "io_only a b \<Longrightarrow> io_only a (b\<lparr>stdout := t\<rparr>)"
  by (simp_all add: io_only_def io_clear_def)

lemma io_only_printf [io_intros]: "io_only a b \<Longrightarrow> io_only a (printf t b)"
  unfolding printf_def by (rule io_only_updates)

lemma io_only_field:
  assumes "io_only st st'" "\<And>st. f (io_clear st) = f st"
  shows "f st' = f st"
  using assms by (metis io_only_def)

lemma io_onlyD:
  assumes "io_only st st'"
  shows "ctrl_conn st' = ctrl_conn st" "mon_conn st' = mon_conn st" "ctrl_ifname st' = ctrl_ifname st"
    "g_wpa_cli_initialized st' = g_wpa_cli_initialized st" "ifname_prefix st' = ifname_prefix st"
    "interactive st' = interactive st" "networks st' = networks st" "open_fds st' = open_fds st"
    "files st' = files st" "next_fd st' = next_fd st" "peer st' = peer st" "wpa_cli_attached st' = wpa_cli_attached st"
  by (rule io_only_field [OF assms], simp add: io_clear_def)+

lemma recv_reply_frame:
  fixes st :: cli
  assumes "cb = None \<or> cb = Some wpa_cli_msg_cb" "recv_reply fd evs reply cb st = ((ret, b, len), st')"
  shows "io_only st st' \<and> length b = length reply \<and> (ret = 0 \<longrightarrow> len \<le> length reply) \<and> ret \<in> {0, -1, -2} \<and>
    sent st' = sent st"
  using assms(2)
proof (induction evs arbitrary: reply st)
  case Nil
  then show ?case by (auto simp: recv_reply.simps)
next
  case (Cons ev evs)
  let ?st = "st\<lparr>inbox := (inbox st)(fd := evs)\<rparr>"
  have io: "io_only st ?st" by (intro io_intros)
  note IH = Cons.IH
  show ?case
  proof (cases ev)
    case (Data bytes)
    let ?b = "memwrite reply (take (length reply) bytes)"
    have len: "length ?b = length reply" by simp
    consider (reply) "((ret, b, len), st') = ((0, ?b, length (take (length reply) bytes)), ?st)"
      | (skip) "recv_reply fd evs ?b cb ?st = ((ret, b, len), st')"
      | (shown) n where "recv_reply fd evs (?b[n := NUL]) cb (wpa_cli_msg_cb (cstr_of (?b[n := NUL])) ?st) = ((ret, b, len), st')"
      using Cons.prems Data assms(1) by (auto simp: recv_reply.simps Let_def split: if_splits)
    then show ?thesis
    proof cases
      case reply
      then show ?thesis using io len by auto
    next
      case skip
      from IH [OF this] io len show ?thesis by (auto intro: io_only_trans)
    next
      case shown
      have "io_only st (wpa_cli_msg_cb (cstr_of (?b[n := NUL])) ?st)"
        unfolding wpa_cli_msg_cb_def by (intro io_intros)
      with IH [OF shown] len show ?thesis by (auto intro: io_only_trans simp: wpa_cli_msg_cb_def printf_def)
    qed
  next
    case Sel_intr
    with Cons.prems have "recv_reply fd evs reply cb ?st = ((ret, b, len), st')" by (simp add: recv_reply.simps)
    from IH [OF this] io show ?thesis by (auto intro: io_only_trans)
  qed (use Cons.prems io in \<open>auto simp: recv_reply.simps\<close>)
qed

lemma sock_send_frame:
  fixes st :: cli
  assumes "sock_send fd cmd st = (ok, st')"
  shows "io_only st st' \<and> sent st' = (if ok then sent st @ [(fd, cmd)] else sent st)"
  using assms by (auto simp: sock_send_def Let_def split: prod.splits if_splits intro!: io_intros)

lemma request_frame:
  fixes st :: cli
  assumes "cb = None \<or> cb = Some wpa_cli_msg_cb" "wpa_ctrl_request c cmd reply cb st = ((ret, b, len), st')"
  shows "io_only st st' \<and> length b = length reply \<and> (ret = 0 \<longrightarrow> len \<le> length reply) \<and> ret \<in> {0, -1, -2} \<and>
    (sent st' = sent st \<and> ret = -1 \<or> sent st' = sent st @ [(sock c, cmd)])"
proof -
  obtain ok st1 where s: "sock_send (sock c) cmd st = (ok, st1)" by fastforce
  note f = sock_send_frame [OF s]
  show ?thesis
  proof (cases ok)
    case True
    with assms(2) s have "recv_reply (sock c) (inbox st1 (sock c)) reply cb st1 = ((ret, b, len), st')"
      by (simp add: wpa_ctrl_request_def)
    from recv_reply_frame [OF assms(1) this] f True show ?thesis by (auto intro: io_only_trans)
  next
    case False
    with assms(2) s f show ?thesis by (auto simp: wpa_ctrl_request_def)
  qed
qed

lemma exchange_frame:
  assumes "ctrl_exchange c pre cmd buf st = ((ret, shown, b, len), st')" "buf \<noteq> []"
  shows "io_only st st' \<and> length b = length buf \<and> (ret = 0 \<longrightarrow> len < length buf) \<and> ret \<in> {0, -1, -2}"
proof -
  obtain cmd' buf' where p: "prefixed_cmd pre cmd buf = (cmd', buf')" by fastforce
  have "length (take (length buf - 1) x) < length buf" for x :: string using assms(2) by (cases buf) auto
  then have l: "length buf' = length buf"
    using p by (auto simp: prefixed_cmd_def os_snprintf_def Let_def simp del: length_take split: option.splits)
  obtain r b1 l1 st1 where q: "wpa_ctrl_request c cmd' (butlast buf') (Some wpa_cli_msg_cb) st = ((r, b1, l1), st1)"
    by (metis prod_cases3 surj_pair)
  from request_frame [OF _ q] have f: "io_only st st1" "length b1 = length buf - 1" "r = 0 \<longrightarrow> l1 < length buf"
    "r \<in> {0, -1, -2}" using l assms(2) by (cases buf; auto)+
  show ?thesis
    using assms f p q by (auto simp: ctrl_exchange_def Let_def split: if_splits intro!: io_intros)
qed

lemma printf_interactive [simp]: "interactive (printf t st) = interactive st"
  by (simp add: printf_def)

lemma print_reply_io: "io_only st st' \<Longrightarrow> io_only st (print_reply b n st')"
  by (auto simp: print_reply_def Let_def intro!: io_intros)

lemma command_frame:
  assumes "wpa_ctrl_command_gen ctrl cmd prt st = Val (r, st')"
  shows "io_only st st'"
proof -
  have e: "ctrl_exchange c (ifname_prefix st) cmd (replicate 4096 NUL) st = ((ret, sh, b, len), st1) \<Longrightarrow> io_only st st1"
    for c ret sh b len st1 using exchange_frame [of c "ifname_prefix st" cmd "replicate 4096 NUL"] by simp
  show ?thesis
    using assms by (auto simp: wpa_ctrl_command_gen_def Let_def split: if_splits option.splits prod.splits
        dest!: e intro!: io_intros print_reply_io)
qed

lemma command_with_results_frame:
  assumes "wpa_ctrl_command_with_results_gen ctrl cmd prt buf st = Val (r, buf', st')"
  shows "io_only st st' \<and> length buf' = length buf"
proof -
  have e: "ctrl_exchange c (ifname_prefix st) cmd buf st = ((ret, sh, b, len), st1) \<Longrightarrow> buf \<noteq> [] \<Longrightarrow>
      io_only st st1 \<and> length b = length buf"
    for c ret sh b len st1 using exchange_frame [of c "ifname_prefix st" cmd buf] by simp
  show ?thesis
    using assms by (auto simp: wpa_ctrl_command_with_results_gen_def Let_def split: if_splits option.splits prod.splits
        dest!: e intro!: io_intros print_reply_io)
qed

lemma cmd_with_results_frame:
  assumes "wpa_cli_cmd_with_results ctrl cmd n argv buf st = Val (r, buf', st')"
  shows "io_only st st' \<and> length buf' = length buf"
  using assms
  by (auto simp: wpa_cli_cmd_with_results_def wpa_ctrl_command_with_results_def split: if_splits prod.splits
      dest!: command_with_results_frame intro!: io_intros)

section \<open>A reply\<close>

definition full_cmd :: "string option \<Rightarrow> string \<Rightarrow> string" where
  "full_cmd prefix cmd = (case prefix of None \<Rightarrow> cmd | Some p \<Rightarrow> ''IFNAME='' @ p @ '' '' @ cmd)"

definition shown_messages :: "sock_ev list \<Rightarrow> string" where
  "shown_messages evs = concat (map (\<lambda>e. case e of Data m \<Rightarrow> m @ [NL] | _ \<Rightarrow> []) evs)"

text \<open>The state after a request on \<open>c\<close> whose reply was preceded by \<open>pre\<close> and followed by \<open>post\<close>.\<close>

definition after_reply :: "wpa_ctrl \<Rightarrow> string \<Rightarrow> sock_ev list \<Rightarrow> sock_ev list \<Rightarrow> cli \<Rightarrow> cli" where
  "after_reply c cmd pre post st =
     (after_send (sock c) cmd st)\<lparr>inbox := (inbox (after_send (sock c) cmd st))(sock c := post),
        stdout := stdout st @ shown_messages pre\<rparr>"

text \<open>The daemon answers \<open>r\<close> to \<open>cmd\<close> after the messages \<open>pre\<close>, all within \<open>room\<close> bytes.\<close>

definition answers :: "wpa_ctrl \<Rightarrow> string \<Rightarrow> nat \<Rightarrow> sock_ev list \<Rightarrow> string \<Rightarrow> sock_ev list \<Rightarrow> cli \<Rightarrow> bool" where
  "answers c cmd room pre r post st \<longleftrightarrow>
     send_script st = [] \<and> arrivals (sock c) cmd st = pre @ Data r # post \<and>
     (\<forall>e \<in> set pre. skipped room e) \<and> length r \<le> room \<and> (r = [] \<or> hd r \<noteq> CHR ''<'')"

lemma fold_report_msg_cb:
  "fold (report wpa_cli_msg_cb) evs (st :: cli) = st\<lparr>stdout := stdout st @ shown_messages evs\<rparr>"
proof (induction evs arbitrary: st)
  case (Cons e evs)
  then show ?case
    by (cases e) (simp_all add: report_def wpa_cli_msg_cb_def shown_messages_def printf_def lns_def)
qed (simp add: shown_messages_def)

lemma inbox_free_msg_cb: "inbox_free wpa_cli_msg_cb"
  by (simp add: inbox_free_def wpa_cli_msg_cb_def printf_def)

lemma request_answered:
  assumes "answers c cmd (length reply) pre r post st"
  shows "\<exists>b. length b = length reply \<and> take (length r) b = r \<and>
    wpa_ctrl_request c cmd reply (Some wpa_cli_msg_cb) st = ((0, b, length r), after_reply c cmd pre post st)"
proof -
  have "send_script st = []" "arrivals (sock c) cmd st = pre @ Data r # post" "\<forall>e \<in> set pre. skipped (length reply) e"
    "length r \<le> length reply" "r = [] \<or> hd r \<noteq> CHR ''<''"
    using assms by (auto simp: answers_def)
  from request_reply [OF this(1) inbox_free_msg_cb this(2-)]
  obtain b where b: "length b = length reply" "take (length r) b = r"
    "wpa_ctrl_request c cmd reply (Some wpa_cli_msg_cb) st =
      ((0, b, length r), (fold (report wpa_cli_msg_cb) pre (after_send (sock c) cmd st))
         \<lparr>inbox := (inbox (after_send (sock c) cmd st))(sock c := post)\<rparr>)" by blast
  moreover have "(fold (report wpa_cli_msg_cb) pre (after_send (sock c) cmd st))
         \<lparr>inbox := (inbox (after_send (sock c) cmd st))(sock c := post)\<rparr> = after_reply c cmd pre post st"
    by (simp add: fold_report_msg_cb after_reply_def after_send_def)
  ultimately show ?thesis by (intro exI [of _ b]) simp
qed

lemma cstr_of_upd_after: "no_nul t \<Longrightarrow> length t \<le> n \<Longrightarrow> cstr_of ((t @ NUL # u)[n := NUL]) = t"
  by (auto simp: list_update_append split: nat.splits)

lemma prefixed_full:
  assumes "no_nul (full_cmd prefix cmd)" "prefix = None \<or> length (full_cmd prefix cmd) < length buf"
  shows "\<exists>b. prefixed_cmd prefix cmd buf = (full_cmd prefix cmd, b) \<and> length b = length buf"
proof (cases prefix)
  case (Some p)
  let ?t = "full_cmd prefix cmd" and ?b = "cstrwrite buf (full_cmd prefix cmd)"
  have len: "length ?t < length buf" using assms(2) Some by simp
  have "take (length buf - Suc 0) ?t = ?t" using len by simp
  then have w: "prefixed_cmd prefix cmd buf = (cstr_of (?b[length buf - 1 := NUL]), ?b[length buf - 1 := NUL])"
    using Some by (simp add: prefixed_cmd_def os_snprintf_def full_cmd_def Let_def)
  have "cstr_of (?b[length buf - 1 := NUL]) = ?t"
    using assms(1) len cstr_of_upd_after [of ?t "length buf - 1"] by (simp add: cstrwrite_def memwrite_def)
  with w len show ?thesis by simp
qed (simp add: prefixed_cmd_def full_cmd_def)

lemma exchange_answered:
  assumes "answers c (full_cmd prefix cmd) (length buf - 1) pre r post st" "buf \<noteq> []"
    "no_nul (full_cmd prefix cmd)" "prefix = None \<or> length (full_cmd prefix cmd) < length buf"
  shows "\<exists>b sh t. length b = length buf \<and> b = r @ NUL # t \<and>
    ctrl_exchange c prefix cmd buf st = ((0, sh, b, length r), after_reply c (full_cmd prefix cmd) pre post st)"
proof -
  obtain b1 where p: "prefixed_cmd prefix cmd buf = (full_cmd prefix cmd, b1)" "length b1 = length buf"
    using prefixed_full [OF assms(3,4)] by blast
  have "answers c (full_cmd prefix cmd) (length (butlast b1)) pre r post st" using assms(1) p(2) by simp
  from request_answered [OF this] obtain b2 where b2: "length b2 = length buf - 1" "take (length r) b2 = r"
    "wpa_ctrl_request c (full_cmd prefix cmd) (butlast b1) (Some wpa_cli_msg_cb) st =
       ((0, b2, length r), after_reply c (full_cmd prefix cmd) pre post st)" using p(2) by auto
  let ?b = "b2 @ [last b1]"
  have len: "length ?b = length buf" "length r < length ?b" "take (length r) ?b = r"
    using b2 assms(1,2) by (cases buf; auto simp: answers_def)+
  have "?b[length r := NUL] = r @ NUL # drop (Suc (length r)) ?b"
    using upd_conv_take_nth_drop [OF len(2), of NUL] len(3) by simp
  moreover have "ctrl_exchange c prefix cmd buf st =
      ((0, if prefix = None then full_cmd prefix cmd else cstr_of ?b, ?b[length r := NUL], length r),
       after_reply c (full_cmd prefix cmd) pre post st)"
    using b2(3) p(1) by (simp add: ctrl_exchange_def Let_def)
  ultimately show ?thesis using len(1) by (metis length_list_update)
qed

lemma write_cmd_text:
  assumes "length (cmd_text cmd argv) < 4096" "no_nul (cmd_text cmd argv)"
  shows "\<exists>b. write_cmd (replicate 4096 NUL) cmd argv = (0, b) \<and> cstr_of b = cmd_text cmd argv"
  using write_cmd_spec [of "replicate 4096 NUL" cmd argv] assms by fastforce

lemma write_cmd_too_long:
  "4096 \<le> length (cmd_text cmd argv) \<Longrightarrow> \<exists>b. write_cmd (replicate 4096 NUL) cmd argv = (-1, b)"
  using write_cmd_spec [of "replicate 4096 NUL" cmd argv] by fastforce

lemma command_answered:
  assumes "ctrl_conn st \<noteq> None" "answers c (full_cmd (ifname_prefix st) cmd) (length buf - 1) pre r post st" "buf \<noteq> []"
    "no_nul (full_cmd (ifname_prefix st) cmd)"
    "ifname_prefix st = None \<or> length (full_cmd (ifname_prefix st) cmd) < length buf"
  shows "\<exists>t. length (r @ NUL # t) = length buf \<and> wpa_ctrl_command_with_results (Some c) cmd buf st =
    Val (0, r @ NUL # t, after_reply c (full_cmd (ifname_prefix st) cmd) pre post st)"
  using exchange_answered [OF assms(2-5)] assms(1,3)
  by (auto simp: wpa_ctrl_command_with_results_def wpa_ctrl_command_with_results_gen_def)

lemma cmd_answered:
  fixes st :: cli and cmd argv
  defines "request \<equiv> full_cmd (ifname_prefix st) (cmd_text cmd argv)"
  assumes "ctrl_conn st \<noteq> None" "min_args \<le> length argv" "length (cmd_text cmd argv) < 4096" "no_nul request"
    and "answers c request (length buf - 1) pre r post st" "no_nul r" "buf \<noteq> []"
    and "ifname_prefix st = None \<or> length request < length buf"
  shows "\<exists>buf'. wpa_cli_cmd_with_results (Some c) cmd min_args argv buf st = Val (0, buf', after_reply c request pre post st) \<and>
    length buf' = length buf \<and> cstr_of buf' = r"
proof -
  have "no_nul (cmd_text cmd argv)" using assms(5) by (auto simp: request_def full_cmd_def split: option.splits)
  with assms(4) obtain b where b: "write_cmd (replicate 4096 NUL) cmd argv = (0, b)" "cstr_of b = cmd_text cmd argv"
    using write_cmd_text by blast
  from command_answered [of st c "cmd_text cmd argv" buf pre r post] assms
  obtain t where "length (r @ NUL # t) = length buf" "wpa_ctrl_command_with_results (Some c) (cmd_text cmd argv) buf st =
      Val (0, r @ NUL # t, after_reply c request pre post st)" unfolding request_def by auto
  with b assms(3,7) show ?thesis by (auto simp: wpa_cli_cmd_with_results_def)
qed

section \<open>Properties\<close>

text \<open>
  C8: a command that stores its reply. With enough arguments and a text of less than 4096 bytes the
  daemon receives exactly one request, the command with its arguments separated by spaces, after
  the interface prefix when one is selected; the reply becomes the C string in the caller's buffer,
  unsolicited messages that arrive before it are printed, one per line, and nothing else of the
  client changes.
\<close>

theorem cmd_with_results_stores_reply:
  fixes st :: cli and cmd argv
  defines "request \<equiv> full_cmd (ifname_prefix st) (cmd_text cmd argv)"
  assumes "ctrl_conn st \<noteq> None" "min_args \<le> length argv" "length (cmd_text cmd argv) < 4096" "no_nul request"
    and "answers c request (length buf - 1) pre r post st" "no_nul r" "buf \<noteq> []"
    and "ifname_prefix st = None \<or> length request < length buf"
  shows "\<exists>buf'. wpa_cli_cmd_with_results (Some c) cmd min_args argv buf st = Val (0, buf', after_reply c request pre post st) \<and>
    length buf' = length buf \<and> cstr_of buf' = r"
  using assms(2-) unfolding request_def by (rule cmd_answered)

definition pong :: "(nat \<times> string) list \<Rightarrow> (nat \<times> sock_ev) list" where
  "pong reqs = [(3, Data ''<2>WPS-AP-AVAILABLE''), (3, Data ''OK'')]"

lemma pong_answers: "answers demo_ctrl cmd 63 [Data ''<2>WPS-AP-AVAILABLE''] ''OK'' [] (demo_connected pong)"
  by (simp add: answers_def arrivals_def deliver_def pong_def demo_connected_def demo_cli_def demo_ctrl_def skipped_def)

theorem cmd_with_results_stores_reply_witness:
  "\<exists>buf' st'. wpa_cli_cmd_with_results (Some demo_ctrl) ''SELECT_NETWORK'' 1 [''0''] (replicate 64 NUL) (demo_connected pong) =
      Val (0, buf', st') \<and> cstr_of buf' = ''OK'' \<and> sent st' = [(3, ''SELECT_NETWORK 0'')] \<and>
      stdout st' = ''<2>WPS-AP-AVAILABLE'' @ [NL]"
proof -
  let ?st = "demo_connected pong"
  have p: "ifname_prefix ?st = None" "ctrl_conn ?st \<noteq> None" by (simp_all add: demo_connected_def demo_cli_def)
  have f: "full_cmd (ifname_prefix ?st) (cmd_text ''SELECT_NETWORK'' [''0'']) = ''SELECT_NETWORK 0''"
    by (simp add: p(1) full_cmd_def cmd_text_def)
  from cmd_with_results_stores_reply [of ?st 1 "[''0'']" "''SELECT_NETWORK''" demo_ctrl "replicate 64 NUL"
      "[Data ''<2>WPS-AP-AVAILABLE'']" "''OK''" "[]"] p
  obtain buf' where "wpa_cli_cmd_with_results (Some demo_ctrl) ''SELECT_NETWORK'' 1 [''0''] (replicate 64 NUL) ?st =
      Val (0, buf', after_reply demo_ctrl ''SELECT_NETWORK 0'' [Data ''<2>WPS-AP-AVAILABLE''] [] ?st)" "cstr_of buf' = ''OK''"
    unfolding f by (auto simp: cmd_text_def pong_answers)
  then show ?thesis
    by (auto simp: after_reply_def after_send_def demo_connected_def demo_cli_def demo_ctrl_def shown_messages_def)
qed

text \<open>
  the errors of a command that stores its reply, each with nothing sent and the buffer as it was:
  too few arguments, a text that does not fit 4096 bytes, no connection.
\<close>

theorem cmd_with_results_errors:
  fixes st :: cli
  assumes "length argv < min_args \<or> 4096 \<le> length (cmd_text cmd argv) \<or> ctrl_conn st = None"
  shows "\<exists>t. wpa_cli_cmd_with_results ctrl cmd min_args argv buf st = Val (-1, buf, printf t st) \<and>
    (length argv < min_args \<longrightarrow> t = too_few_args cmd min_args)"
proof (cases "length argv < min_args")
  case True
  then show ?thesis by (auto simp: wpa_cli_cmd_with_results_def)
next
  case enough: False
  show ?thesis
  proof (cases "4096 \<le> length (cmd_text cmd argv)")
    case True
    with write_cmd_too_long [OF True] enough show ?thesis by (auto simp: wpa_cli_cmd_with_results_def split: prod.splits)
  next
    case False
    with enough assms have "ctrl_conn st = None" by auto
    with enough show ?thesis
      by (auto simp: wpa_cli_cmd_with_results_def wpa_ctrl_command_with_results_def wpa_ctrl_command_with_results_gen_def
          split: prod.splits)
  qed
qed

theorem cmd_with_results_errors_witness:
  "wpa_cli_cmd_with_results None ''SELECT_NETWORK'' 1 [] [NUL] (demo_cli (\<lambda>_. [])) =
     Val (-1, [NUL], printf (too_few_args ''SELECT_NETWORK'' 1) (demo_cli (\<lambda>_. [])))"
  using cmd_with_results_errors [of "[]" 1 "''SELECT_NETWORK''" "demo_cli (\<lambda>_. [])" None "[NUL]"] by auto

end
