(* ===== verification/Cli_Lists.thy ===== *)
theory Cli_Lists
  imports Cli_Exchange
begin

text \<open>
  The lists kept for completion as functions of the daemon's replies: network identifiers, interface
  names and BSSIDs, and the limit of the reply size of the three functions that refresh them.
\<close>

lemma reply_lines_lns:
  "\<forall>l \<in> set ls. NL \<notin> set l \<Longrightarrow> reply_lines (lns ls) = ls"
proof (induction ls)
  case Nil
  then show ?case by (simp add: reply_lines.simps lns_def os_strchr_def)
next
  case (Cons l ls)
  have e: "lns (l # ls) = l @ NL # lns ls" by (simp add: lns_def)
  from Cons.prems have "takeWhile (\<lambda>c. c \<noteq> NL) (l @ NL # lns ls) = l" by (induction l) auto
  moreover from Cons.prems have "os_strchr (l @ NL # lns ls) NL = Some (NL # lns ls)" by simp
  ultimately show ?case unfolding e by (subst reply_lines.simps) (use Cons in simp)
qed

lemma no_nul_lns [simp]: "no_nul (lns ls) \<longleftrightarrow> (\<forall>l \<in> set ls. no_nul l)"
  by (induction ls) (auto simp: lns_def)

lemma request_silent:
  assumes "send_script st = []" "arrivals (sock c) cmd st = Data r # post" "r = [] \<or> hd r \<noteq> CHR ''<''"
  shows "wpa_ctrl_request c cmd reply None st =
    ((0, memwrite reply (take (length reply) r), min (length reply) (length r)),
     (after_send (sock c) cmd st)\<lparr>inbox := (inbox (after_send (sock c) cmd st))(sock c := post)\<rparr>)"
proof -
  have "memwrite reply (take (length reply) r) ! 0 \<noteq> CHR ''<''" if "take (length reply) r \<noteq> []"
    using that assms(3) by (cases r; cases reply) (auto simp: memwrite_def)
  then show ?thesis
    unfolding request_after_send [OF assms(1)] assms(2)
    by (subst recv_reply.simps) (auto simp: Let_def min.commute)
qed

lemma fetch_reply_fits:
  assumes "send_script st = []" "arrivals (sock c) cmd st = Data r # post" "r = [] \<or> hd r \<noteq> CHR ''<''"
    and "length r < 4096" "no_nul r"
  shows "fetch_reply c cmd st = Val (Some r, (after_send (sock c) cmd st)
    \<lparr>inbox := (inbox (after_send (sock c) cmd st))(sock c := post)\<rparr>)"
proof -
  have "cstr_of ((memwrite (replicate 4096 NUL) r)[length r := NUL]) = r"
    using assms(4,5) memwrite_NUL [of r "replicate 4096 NUL"] by simp
  then show ?thesis
    using assms(4) by (simp add: fetch_reply_def request_silent [OF assms(1-3)] memwrite_def)
qed

lemma fetch_reply_overflow:
  assumes "send_script st = []" "arrivals (sock c) cmd st = Data r # post" "r = [] \<or> hd r \<noteq> CHR ''<''"
    and "4096 \<le> length r"
  shows "fetch_reply c cmd st = Undef Oob_write"
  using assms(4) by (simp add: fetch_reply_def request_silent [OF assms(1-3)])

lemma add_words:
  assumes "txt_list_ok l" "\<forall>t \<in> set ls. no_nul t"
  shows "txt_list_ok (fold (\<lambda>line l. snd (cli_txt_list_add_word l line sep)) ls l) \<and>
    set (fold (\<lambda>line l. snd (cli_txt_list_add_word l line sep)) ls l) = (takeWhile (\<lambda>c. c \<noteq> sep)) ` set ls \<union> set l"
proof -
  have "fold (\<lambda>line l. snd (cli_txt_list_add_word l line sep)) ls l =
      fold (\<lambda>t l. snd (cli_txt_list_add l t)) (map (takeWhile (\<lambda>c. c \<noteq> sep)) ls) l"
    by (simp add: fold_map cli_txt_list_add_word_def word_of_takeWhile comp_def)
  then show ?thesis using cli_list.add_all [of l "map (takeWhile (\<lambda>c. c \<noteq> sep)) ls"] assms by simp
qed

section \<open>Properties\<close>

text \<open>
  the list of networks mirrors the daemon's reply. A reply to LIST_NETWORKS of less than 4096
  bytes, a header line and one line per network, leaves in the list exactly the first
  tab-separated fields of the lines after the header, each once; what the list held before is gone.
\<close>

theorem update_networks_mirrors_reply:
  fixes st :: cli
  assumes "send_script st = []" "arrivals (sock c) ''LIST_NETWORKS'' st = Data (lns (header # rows)) # post"
    and "\<forall>l \<in> set (header # rows). NL \<notin> set l \<and> no_nul l" "length (lns (header # rows)) < 4096"
    and "hd (header @ [NL]) \<noteq> CHR ''<''"
  shows "\<exists>st'. update_networks (Some c) st = Val st' \<and> distinct (networks st') \<and>
    set (networks st') = (takeWhile (\<lambda>x. x \<noteq> TAB)) ` set rows \<and> sent st' = sent st @ [(sock c, ''LIST_NETWORKS'')]"
proof -
  let ?st = "st\<lparr>networks := []\<rparr>" and ?r = "lns (header # rows)"
  have a: "arrivals (sock c) ''LIST_NETWORKS'' ?st = Data ?r # post" "send_script ?st = []"
    using assms(1,2) by (simp_all add: arrivals_def)
  have hd: "?r = [] \<or> hd ?r \<noteq> CHR ''<''" using assms(5) by (cases header) (auto simp: lns_def)
  have nn: "no_nul ?r" using assms(3) by simp
  have lines: "drop 1 (reply_lines ?r) = rows" using reply_lines_lns [of "header # rows"] assms(3) by simp
  have ok: "txt_list_ok []" "\<forall>t \<in> set rows. no_nul t" using assms(3) by (simp_all add: txt_list_ok_def)
  from fetch_reply_fits [OF a(2,1) hd assms(4) nn] lines add_words [OF ok, of TAB]
  show ?thesis
    by (simp add: update_networks_def flush_Nil Let_def after_send_def txt_list_ok_def)
qed

definition two_networks :: "(nat \<times> string) list \<Rightarrow> (nat \<times> sock_ev) list" where
  "two_networks reqs = [(3, Data (lns [''network id / ssid / bssid / flags'',
     ''0'' @ [TAB] @ ''home'', ''1'' @ [TAB] @ ''office'']))]"

theorem update_networks_mirrors_reply_witness:
  "\<exists>st'. update_networks (Some demo_ctrl) (demo_connected two_networks) = Val st' \<and> set (networks st') = {''0'', ''1''}"
proof -
  let ?rows = "[''0'' @ [TAB] @ ''home'', ''1'' @ [TAB] @ ''office'']"
  have "arrivals (sock demo_ctrl) ''LIST_NETWORKS'' (demo_connected two_networks) =
      [Data (lns (''network id / ssid / bssid / flags'' # ?rows))]"
    by (simp add: arrivals_def deliver_def demo_connected_def demo_cli_def demo_ctrl_def two_networks_def)
  from update_networks_mirrors_reply [OF _ this] show ?thesis
    by (auto simp: demo_connected_def demo_cli_def lns_def)
qed

text \<open>
  the refreshing functions have no room for the terminator: a reply of 4096 bytes or more to
  LIST_NETWORKS, INTERFACES or BSS is terminated one byte behind the local buffer.
\<close>

theorem update_lists_overflow:
  fixes st :: cli
  assumes "send_script st = []" "\<forall>cmd. arrivals (sock c) cmd st = Data r # post" "4096 \<le> length r" "hd r \<noteq> CHR ''<''"
  shows "update_networks (Some c) st = Undef Oob_write \<and> update_ifnames (Some c) st = Undef Oob_write \<and>
    update_bssid_list (Some c) st = Undef Oob_write"
proof -
  have "fetch_reply c cmd st = Undef Oob_write" "fetch_reply c cmd (st\<lparr>networks := l\<rparr>) = Undef Oob_write"
    "fetch_reply c cmd (st\<lparr>ifnames := l\<rparr>) = Undef Oob_write" for cmd l
    by (rule fetch_reply_overflow [where r = r and post = post]; use assms in \<open>simp add: arrivals_def\<close>)+
  then show ?thesis by (simp add: update_networks_def update_ifnames_def update_bssid_list_def Let_def)
qed

theorem update_lists_overflow_witness:
  "update_networks (Some demo_ctrl) (demo_connected (\<lambda>_. [(3, Data (replicate 4096 (CHR ''x'')))])) = Undef Oob_write"
proof -
  let ?st = "demo_connected (\<lambda>_. [(3, Data (replicate 4096 (CHR ''x'')))])"
  have "\<forall>cmd. arrivals (sock demo_ctrl) cmd ?st = [Data (replicate 4096 (CHR ''x''))]"
    by (simp add: arrivals_def deliver_def demo_connected_def demo_cli_def demo_ctrl_def)
  moreover have "send_script ?st = []" by (simp add: demo_connected_def demo_cli_def)
  ultimately show ?thesis using update_lists_overflow [of ?st demo_ctrl "replicate 4096 (CHR ''x'')" "[]"] by simp
qed

end
