(* ===== verification/Wrapper_Api.thy ===== *)
theory Wrapper_Api
  imports Parse_Line Cli_Request Cli_Lists
begin

text \<open>
  The interface of the library: \<^verbatim>\<open>init_wpa_cli\<close>, \<^verbatim>\<open>wpa_cli_execute\<close> and \<^verbatim>\<open>deinit_wpa_cli\<close>, the states a
  program reaches through them, and what they promise there.
\<close>

section \<open>Operations\<close>

definition wpa_cli_get_default_ifname :: "cli \<Rightarrow> string option \<times> cli" where
  "wpa_cli_get_default_ifname st =
     (case dirents st (ctrl_iface_dir st) of
        None \<Rightarrow> (None, st)
      | Some ents \<Rightarrow>
          (case find (\<lambda>(ty, name). (ty = DT_SOCK \<or> ty = DT_UNKNOWN) \<and> name \<noteq> ''.'' \<and> name \<noteq> ''..'') ents of
             None \<Rightarrow> (None, st)
           | Some (ty, name) \<Rightarrow> (Some name, printf (lns [''Selected interface '' @ quoted name]) st)))"

definition default_if_unset :: "cli \<Rightarrow> cli" where
  "default_if_unset st =
     (if ctrl_ifname st = Null
      then case wpa_cli_get_default_ifname st of
          (None, st) \<Rightarrow> st
        | (Some n, st) \<Rightarrow> st\<lparr>ctrl_ifname := Ptr n\<rparr>
      else st)"

definition wpa_cli_cleanup :: "cli \<Rightarrow> cli outcome" where
  "wpa_cli_cleanup st =
     omap (\<lambda>st. case pid_file st of None \<Rightarrow> st | Some f \<Rightarrow> st\<lparr>removed_pid_files := f # removed_pid_files st\<rparr>)
       (wpa_cli_close_connection st)"

definition init_wpa_cli :: "cli \<Rightarrow> (int \<times> cli) outcome" where
  "init_wpa_cli st =
     (if g_wpa_cli_initialized st then Val (-1, eprintf (lns [''wpa_cli already initialized!'']) st)
      else
        let st = default_if_unset st
        in case ctrl_ifname st of
             Dangling \<Rightarrow> Undef Use_after_free
           | name \<Rightarrow>
               let ifname = (case name of Ptr n \<Rightarrow> Some n | _ \<Rightarrow> None)
               in obind (wpa_cli_open_connection ifname False st) (\<lambda>(r, st).
                    if r < 0
                    then Val (-2, eprintf (''Failed to connect to non-global ctrl_ifname: '' @
                           (case ifname of Some n \<Rightarrow> n | None \<Rightarrow> ''(nil)'') @ ''  error: '' @ lns [strerror st]) st)
                    else Val (0, st\<lparr>g_wpa_cli_initialized := True\<rparr>)))"

definition wpa_cli_execute :: "build \<Rightarrow> string \<Rightarrow> cbuf \<Rightarrow> cli \<Rightarrow> (int \<times> cbuf \<times> cli) outcome" where
  "wpa_cli_execute b cmd buf st =
     (if \<not> g_wpa_cli_initialized st then Val (-1, buf, eprintf (lns [''wpa_cli not initialized!'']) st)
      else if length cmd \<ge> 1024 then Undef Oob_write
      else obind (parse_line cmd) (\<lambda>argv. wpa_request_with_result_buf b (ctrl_conn st) argv buf st))"

definition deinit_wpa_cli :: "cli \<Rightarrow> (int \<times> cli) outcome" where
  "deinit_wpa_cli st =
     (if g_wpa_cli_initialized st
      then case ctrl_ifname st of
          Dangling \<Rightarrow> Undef Use_after_free
        | name \<Rightarrow>
            omap (\<lambda>st. (0, st\<lparr>g_wpa_cli_initialized := False\<rparr>))
              (wpa_cli_cleanup (st\<lparr>ctrl_ifname := (case name of Ptr _ \<Rightarrow> Dangling | _ \<Rightarrow> Null)\<rparr>))
      else Val (0, st))"

section \<open>Runs of a program that uses the library\<close>

text \<open>
  \<open>api_run b st0 st\<close>: a program that starts with the library in state \<open>st0\<close> reaches \<open>st\<close> by calls that
  return.
\<close>

inductive api_run :: "build \<Rightarrow> cli \<Rightarrow> cli \<Rightarrow> bool" for b st0 where
  start: "api_run b st0 st0"
| init: "api_run b st0 st \<Longrightarrow> init_wpa_cli st = Val (r, st') \<Longrightarrow> api_run b st0 st'"
| exec: "api_run b st0 st \<Longrightarrow> wpa_cli_execute b cmd buf st = Val (r, buf', st') \<Longrightarrow> api_run b st0 st'"
| deinit: "api_run b st0 st \<Longrightarrow> deinit_wpa_cli st = Val (r, st') \<Longrightarrow> api_run b st0 st'"

definition api_start :: "cli \<Rightarrow> bool" where
  "api_start st \<longleftrightarrow> ctrl_conn st = None \<and> mon_conn st = None \<and> \<not> wpa_cli_attached st \<and> ctrl_ifname st = Null \<and>
     \<not> g_wpa_cli_initialized st"

text \<open>
  The invariant relative to the start: the connection exists exactly while the library is
  initialised and accounts for the only additional descriptor; then the interface name is allocated.
\<close>

definition api_inv :: "cli \<Rightarrow> cli \<Rightarrow> bool" where
  "api_inv st0 st \<longleftrightarrow>
     mon_conn st = None \<and> \<not> wpa_cli_attached st \<and>
     (if g_wpa_cli_initialized st
      then \<exists>c n. ctrl_conn st = Some c \<and> ctrl_ifname st = Ptr n \<and> open_fds st = sock c # open_fds st0
      else ctrl_conn st = None \<and> open_fds st = open_fds st0)"

section \<open>What the handlers leave alone\<close>

definition api_clear :: "cli \<Rightarrow> cli" where
  "api_clear st = (io_clear st)\<lparr>networks := [], ifname_prefix := None\<rparr>"

definition api_only :: "cli \<Rightarrow> cli \<Rightarrow> bool" where
  "api_only st st' \<longleftrightarrow> api_clear st' = api_clear st"

lemma api_only_field:
  assumes "api_only st st'" "\<And>st. f (api_clear st) = f st"
  shows "f st' = f st"
  using assms by (metis api_only_def)

lemma api_onlyD:
  assumes "api_only st st'"
  shows "ctrl_conn st' = ctrl_conn st" "mon_conn st' = mon_conn st" "ctrl_ifname st' = ctrl_ifname st"
    "g_wpa_cli_initialized st' = g_wpa_cli_initialized st" "open_fds st' = open_fds st"
    "wpa_cli_attached st' = wpa_cli_attached st"
  by (rule api_only_field [OF assms], simp add: api_clear_def io_clear_def)+

lemma api_only_refl [simp]: "api_only st st"
  by (simp add: api_only_def)

lemma api_only_trans: "api_only a b \<Longrightarrow> api_only b c \<Longrightarrow> api_only a c"
  by (simp add: api_only_def)

lemma io_api_only: "io_only st st' \<Longrightarrow> api_only st st'"
  by (simp add: api_only_def api_clear_def io_only_def)

lemma api_only_prefix [simp]: "api_only st (st\<lparr>ifname_prefix := p\<rparr>)" "api_only st (st\<lparr>networks := l\<rparr>)"
  by (simp_all add: api_only_def api_clear_def io_clear_def)

lemma api_only_networks: "api_only st st' \<Longrightarrow> api_only st (st'\<lparr>networks := l\<rparr>)"
  by (erule api_only_trans) simp

lemma fetch_reply_frame: "fetch_reply c cmd st = Val (r, st') \<Longrightarrow> io_only st st'"
  using request_frame [of None c cmd "replicate 4096 NUL" st]
  by (auto simp: fetch_reply_def split: prod.splits if_splits)

lemma update_networks_frame:
  assumes "update_networks ctrl st = Val st'"
  shows "api_only st st'"
proof -
  have f: "fetch_reply c cmd (st\<lparr>networks := []\<rparr>) = Val (r, st1) \<Longrightarrow> api_only st st1" for c cmd r st1
    by (rule api_only_trans [OF api_only_prefix(2) io_api_only [OF fetch_reply_frame]])
  show ?thesis
    using assms by (auto simp: update_networks_def Let_def flush_Nil outcome_simps split: option.splits prod.splits
        intro: f api_only_networks)
qed

lemma io_only_printf' [simp]: "io_only st (printf t st)"
  by (intro io_intros)

lemmas results_defs = handler_with_results_default_func_def wpa_cli_cmd_status_with_results_def
  wpa_cli_cmd_ifname_with_results_def wpa_cli_cmd_scan_with_results_def wpa_cli_cmd_scan_results_with_results_def
  wpa_cli_cmd_select_network_with_results_def wpa_cli_cmd_add_network_with_results_def
  wpa_cli_cmd_list_networks_with_results_def wpa_cli_cmd_set_network_with_results_def
  wpa_cli_cmd_remove_network_with_results_def wpa_cli_cmd_enable_network_with_results_def
  wpa_cli_cmd_disable_network_with_results_def wpa_cli_cmd_save_config_with_results_def

definition keeps_client :: "result_handler \<Rightarrow> bool" where
  "keeps_client h \<longleftrightarrow> (\<forall>ctrl argv buf st r buf' st'.
     h ctrl argv buf st = Val (r, buf', st') \<longrightarrow> api_only st st' \<and> length buf' = length buf)"

lemma keeps_client_basic:
  "keeps_client handler_with_results_default_func"
  "keeps_client (\<lambda>ctrl argv. wpa_ctrl_command_with_results ctrl cmd)"
  "keeps_client (\<lambda>ctrl. wpa_cli_cmd_with_results ctrl cmd n)"
  by (auto simp: keeps_client_def handler_with_results_default_func_def wpa_ctrl_command_with_results_def
      dest!: command_with_results_frame cmd_with_results_frame intro!: io_api_only)

lemma then_update_networks_frame:
  "then_update_networks ctrl m = Val (r, buf', st') \<Longrightarrow>
     \<exists>st1. m = Val (r, buf', st1) \<and> api_only st1 st'"
  by (auto simp: then_update_networks_def outcome_simps dest: update_networks_frame)

lemma keeps_client_update:
  "keeps_client h \<Longrightarrow> keeps_client (\<lambda>ctrl argv buf st. then_update_networks ctrl (h ctrl argv buf st))"
  unfolding keeps_client_def by (blast dest: then_update_networks_frame intro: api_only_trans)

lemma keeps_client_printed:
  "keeps_client (\<lambda>ctrl argv buf st. printed_only (wpa_ctrl_command ctrl cmd st) buf)"
  by (auto simp: keeps_client_def printed_only_def wpa_ctrl_command_def outcome_simps
      dest!: command_frame intro!: io_api_only)

lemma keeps_client_results:
  "keeps_client wpa_cli_cmd_status_with_results" "keeps_client wpa_cli_cmd_ifname_with_results"
  "keeps_client wpa_cli_cmd_scan_with_results" "keeps_client wpa_cli_cmd_scan_results_with_results"
  "keeps_client wpa_cli_cmd_select_network_with_results" "keeps_client wpa_cli_cmd_add_network_with_results"
  "keeps_client wpa_cli_cmd_list_networks_with_results" "keeps_client wpa_cli_cmd_set_network_with_results"
  "keeps_client wpa_cli_cmd_remove_network_with_results" "keeps_client wpa_cli_cmd_enable_network_with_results"
  "keeps_client wpa_cli_cmd_disable_network_with_results" "keeps_client wpa_cli_cmd_save_config_with_results"
proof -
  note b = keeps_client_basic keeps_client_printed
  show "keeps_client wpa_cli_cmd_status_with_results"
    using b(2) [of "''STATUS''"] b(4) [of "''STATUS-VERBOSE''"] b(4) [of "''STATUS-WPS''"] b(4) [of "''STATUS-DRIVER''"]
    unfolding keeps_client_def wpa_cli_cmd_status_with_results_def by auto
  show "keeps_client wpa_cli_cmd_set_network_with_results"
    using b(3) [of "''SET_NETWORK''" 3] unfolding keeps_client_def wpa_cli_cmd_set_network_with_results_def
    by (auto simp: wpa_cli_show_network_variables_def intro!: io_api_only)
qed (simp_all add: keeps_client_basic keeps_client_update
  wpa_cli_cmd_ifname_with_results_def [abs_def] wpa_cli_cmd_scan_with_results_def [abs_def]
  wpa_cli_cmd_scan_results_with_results_def [abs_def] wpa_cli_cmd_select_network_with_results_def [abs_def]
  wpa_cli_cmd_add_network_with_results_def [abs_def] wpa_cli_cmd_list_networks_with_results_def [abs_def]
  wpa_cli_cmd_remove_network_with_results_def [abs_def] wpa_cli_cmd_enable_network_with_results_def [abs_def]
  wpa_cli_cmd_disable_network_with_results_def [abs_def] wpa_cli_cmd_save_config_with_results_def [abs_def])

lemma list_all_if_def [simp]: "list_all P (if_def opt b xs) \<longleftrightarrow> (opt \<in> set b \<longrightarrow> list_all P xs)"
  by (simp add: if_def_def)

lemma table_keeps_client: "list_all (\<lambda>c. keeps_client (cmd_handler_with_results c)) (wpa_cli_commands b)"
  unfolding table_defs by (simp add: keeps_client_results keeps_client_basic(1))

lemma filter_Cons_in: "filter P xs = c # r \<Longrightarrow> c \<in> set xs"
  by (metis filter_is_subset list.set_intros(1) subset_iff)

lemma select_command_in: "select_command cmds name = Selected c \<Longrightarrow> c \<in> set cmds"
  by (auto simp: select_command_def split: list.splits dest: filter_Cons_in)

lemma split_ifname_state: "\<exists>argv1 p. split_ifname argv st = (argv1, st\<lparr>ifname_prefix := p\<rparr>)"
  unfolding split_ifname_def by (split if_split) blast

lemma request_keeps_client:
  assumes "wpa_request_with_result_buf b ctrl argv buf st = Val (r, buf', st')"
  shows "api_only st st' \<and> length buf' = length buf"
proof -
  obtain argv1 p where s: "split_ifname argv st = (argv1, st\<lparr>ifname_prefix := p\<rparr>)" using split_ifname_state by blast
  let ?st = "st\<lparr>ifname_prefix := p\<rparr>"
  have pr: "api_only st (printf t ?st)" for t by (rule api_only_trans [OF api_only_prefix(1) [of st p] io_api_only]) simp
  show ?thesis
  proof (cases argv1)
    case Nil
    with assms s have "st' = ?st" "buf' = buf" by (simp_all add: wpa_request_with_result_buf_def)
    then show ?thesis by simp
  next
    case (Cons name args)
    have "select_command (wpa_cli_commands b) name = Selected c \<Longrightarrow> keeps_client (cmd_handler_with_results c)" for c
      using table_keeps_client [of b] select_command_in by (auto simp: list_all_iff)
    then have h: "select_command (wpa_cli_commands b) name = Selected c \<Longrightarrow>
        cmd_handler_with_results c ctrl args buf ?st = Val (r, buf', st') \<Longrightarrow>
        api_only ?st st' \<and> length buf' = length buf" for c
      unfolding keeps_client_def by blast
    show ?thesis
      using assms Cons s pr h
      by (auto simp: wpa_request_with_result_buf_def match_loop_select print_ambiguous_def print_unknown_def
          dest: select_command_Ambiguous split: selection.splits if_splits intro: api_only_trans [OF api_only_prefix(1)])
  qed
qed

section \<open>Opening and closing\<close>

lemma open2_more:
  "wpa_ctrl_open2 path cli st = (r, st') \<Longrightarrow> os_state.more st' = os_state.more st"
  by (auto simp: wpa_ctrl_open2_def close_fd_def unlink_file_def bind_local_def os_snprintf_def Let_def
      split: option.splits if_splits prod.splits)

lemma more_fields:
  fixes st st' :: cli
  assumes "os_state.more st' = os_state.more st"
  shows "ctrl_conn st' = ctrl_conn st" "mon_conn st' = mon_conn st" "ctrl_ifname st' = ctrl_ifname st"
    "g_wpa_cli_initialized st' = g_wpa_cli_initialized st" "wpa_cli_attached st' = wpa_cli_attached st"
  using assms by (cases st; cases st'; simp)+

lemmas open2_client = more_fields [OF open2_more]

definition opened :: "cli \<Rightarrow> int \<Rightarrow> cli \<Rightarrow> bool" where
  "opened st r st' \<longleftrightarrow>
     mon_conn st' = None \<and> wpa_cli_attached st' = wpa_cli_attached st \<and> ctrl_ifname st' = ctrl_ifname st \<and>
     g_wpa_cli_initialized st' = g_wpa_cli_initialized st \<and>
     (if r = 0 then \<exists>c. ctrl_conn st' = Some c \<and> open_fds st' = sock c # open_fds st
      else r = -1 \<and> ctrl_conn st' = None \<and> open_fds st' = open_fds st)"

lemma open_connection_outcome:
  assumes "ctrl_conn st = None" "mon_conn st = None"
  shows "case wpa_cli_open_connection ifname False st of
    Val (r, st') \<Rightarrow> opened st r st' \<and> (r = 0 \<longrightarrow> ifname \<noteq> None) | _ \<Rightarrow> False"
proof (cases ifname)
  case None
  with assms show ?thesis by (simp add: wpa_cli_open_connection_def opened_def)
next
  case (Some n)
  let ?path = "ctrl_iface_dir st @ ''/'' @ n"
  obtain c st1 where o: "wpa_ctrl_open2 (Some ?path) (client_socket_dir st) st = (c, st1)" by fastforce
  show ?thesis
    using open2_cases [OF o] open2_client [OF o] o Some assms
    by (auto simp: wpa_cli_open_connection_def opened_def eprintf_def os_snprintf_def Let_def split: option.splits)
qed

lemma open_connection_cases:
  assumes "ctrl_conn st = None" "mon_conn st = None"
  shows "\<exists>r st'. wpa_cli_open_connection ifname False st = Val (r, st') \<and> opened st r st' \<and> (r = 0 \<longrightarrow> ifname \<noteq> None)"
  using open_connection_outcome [OF assms, of ifname] by (auto split: outcome.splits)

lemma close_connection_open:
  assumes "ctrl_conn st = Some c" "mon_conn st = None" "\<not> wpa_cli_attached st"
  shows "wpa_cli_close_connection st = Val ((wpa_ctrl_close (Some c) st)\<lparr>ctrl_conn := None\<rparr>)"
proof -
  have "mon_conn ((wpa_ctrl_close (Some c) st)\<lparr>ctrl_conn := None\<rparr>) = None"
    using assms(2) by (simp add: wpa_ctrl_close_def close_fd_def unlink_file_def)
  with assms(1,3) show ?thesis by (simp add: wpa_cli_close_connection_def Let_def)
qed

lemma default_if_unset_client:
  "ctrl_conn (default_if_unset st) = ctrl_conn st" "mon_conn (default_if_unset st) = mon_conn st"
  "open_fds (default_if_unset st) = open_fds st" "wpa_cli_attached (default_if_unset st) = wpa_cli_attached st"
  "g_wpa_cli_initialized (default_if_unset st) = g_wpa_cli_initialized st"
  "ctrl_ifname st \<noteq> Null \<Longrightarrow> default_if_unset st = st" "ctrl_ifname (default_if_unset st) = Dangling \<longleftrightarrow> ctrl_ifname st = Dangling"
  by (auto simp: default_if_unset_def wpa_cli_get_default_ifname_def printf_def split: option.splits prod.splits)

section \<open>The invariant\<close>

lemma init_result:
  assumes "\<not> g_wpa_cli_initialized st" "ctrl_conn st = None" "mon_conn st = None" "ctrl_ifname st \<noteq> Dangling"
  shows "\<exists>r st1 t name. wpa_cli_open_connection name False (default_if_unset st) = Val (r, st1) \<and>
    opened (default_if_unset st) r st1 \<and> (r = 0 \<longrightarrow> (\<exists>n. ctrl_ifname (default_if_unset st) = Ptr n)) \<and>
    init_wpa_cli st = (if r = 0 then Val (0, st1\<lparr>g_wpa_cli_initialized := True\<rparr>) else Val (-2, eprintf t st1))"
proof -
  let ?st = "default_if_unset st"
  let ?name = "case ctrl_ifname ?st of Ptr n \<Rightarrow> Some n | _ \<Rightarrow> None"
  from open_connection_cases [of ?st ?name] assms(2,3) obtain r st1 where
    o: "wpa_cli_open_connection ?name False ?st = Val (r, st1)" "opened ?st r st1" "r = 0 \<longrightarrow> ?name \<noteq> None"
    by (auto simp: default_if_unset_client)
  have r: "r = 0 \<or> r = -1" using o(2) by (auto simp: opened_def split: if_splits)
  have n: "ctrl_ifname ?st \<noteq> Dangling" using assms(4) by (simp add: default_if_unset_client)
  show ?thesis
    using o r n assms(1) by (intro exI [of _ r] exI [of _ st1]) (auto simp: init_wpa_cli_def Let_def split: cptr.splits)
qed

lemma init_inv:
  assumes "api_inv st0 st" "init_wpa_cli st = Val (r, st')"
  shows "api_inv st0 st'"
proof (cases "g_wpa_cli_initialized st")
  case True
  with assms show ?thesis by (auto simp: init_wpa_cli_def api_inv_def eprintf_def)
next
  case False
  let ?st = "default_if_unset st"
  have nd: "ctrl_ifname st \<noteq> Dangling"
    using assms(2) False default_if_unset_client(7) [of st] by (auto simp: init_wpa_cli_def Let_def)
  have inv: "ctrl_conn st = None" "mon_conn st = None" "\<not> wpa_cli_attached st" "open_fds st = open_fds st0"
    using assms(1) False by (auto simp: api_inv_def)
  from init_result [OF False inv(1,2) nd] obtain r1 st1 t where
    o: "opened ?st r1 st1" "r1 = 0 \<longrightarrow> (\<exists>n. ctrl_ifname ?st = Ptr n)"
    "init_wpa_cli st = (if r1 = 0 then Val (0, st1\<lparr>g_wpa_cli_initialized := True\<rparr>) else Val (-2, eprintf t st1))" by blast
  show ?thesis
    using o assms(2) inv False
    by (auto simp: api_inv_def opened_def eprintf_def default_if_unset_client split: if_splits)
qed

lemma exec_inv:
  assumes "api_inv st0 st" "wpa_cli_execute b cmd buf st = Val (r, buf', st')"
  shows "api_inv st0 st' \<and> length buf' = length buf"
proof (cases "g_wpa_cli_initialized st")
  case False
  with assms show ?thesis by (auto simp: wpa_cli_execute_def api_inv_def eprintf_def)
next
  case True
  with assms(2) obtain argv where "wpa_request_with_result_buf b (ctrl_conn st) argv buf st = Val (r, buf', st')"
    by (auto simp: wpa_cli_execute_def outcome_simps split: if_splits)
  from request_keeps_client [OF this] assms(1) show ?thesis by (auto simp: api_inv_def api_onlyD)
qed

lemma deinit_result:
  assumes "api_inv st0 st" "g_wpa_cli_initialized st"
  shows "\<exists>st'. deinit_wpa_cli st = Val (0, st') \<and> ctrl_conn st' = None \<and> mon_conn st' = None \<and> \<not> wpa_cli_attached st' \<and>
    open_fds st' = open_fds st0 \<and> \<not> g_wpa_cli_initialized st' \<and> ctrl_ifname st' = Dangling"
proof -
  obtain c n where c: "ctrl_conn st = Some c" "ctrl_ifname st = Ptr n" "open_fds st = sock c # open_fds st0"
    "mon_conn st = None" "\<not> wpa_cli_attached st"
    using assms by (auto simp: api_inv_def)
  with assms(2) show ?thesis
    by (auto simp: deinit_wpa_cli_def wpa_cli_cleanup_def close_connection_open wpa_ctrl_close_def close_fd_def unlink_file_def
        split: option.splits)
qed

lemma deinit_inv: "api_inv st0 st \<Longrightarrow> deinit_wpa_cli st = Val (r, st') \<Longrightarrow> api_inv st0 st'"
  using deinit_result [of st0 st] by (cases "g_wpa_cli_initialized st") (auto simp: api_inv_def deinit_wpa_cli_def)

lemma api_run_inv:
  assumes "api_run b st0 st" "api_start st0"
  shows "api_inv st0 st"
  using assms
proof (induction rule: api_run.induct)
  case start
  then show ?case by (simp add: api_inv_def api_start_def)
qed (use init_inv exec_inv deinit_inv in blast)+

section \<open>Connecting\<close>

lemma default_if_unset_first:
  assumes "ctrl_ifname st = Null" "dirents st (ctrl_iface_dir st) = Some ents"
    "find (\<lambda>(ty, name). (ty = DT_SOCK \<or> ty = DT_UNKNOWN) \<and> name \<noteq> ''.'' \<and> name \<noteq> ''..'') ents = Some (ty, n)"
  shows "default_if_unset st = (printf (lns [''Selected interface '' @ quoted n]) st)\<lparr>ctrl_ifname := Ptr n\<rparr>"
  using assms by (simp add: default_if_unset_def wpa_cli_get_default_ifname_def)

lemma open2_ok:
  fixes st :: cli
  assumes "length (open_fds st) < fd_limit st" "\<forall>f. \<not> bind_denied st f" "\<not> str_starts path ''@abstract:''"
    "length path < SUN_PATH_LEN" "path \<in> set (servers st)"
    "length (local_name None (st\<lparr>ctrl_counter := ctrl_counter st + 1\<rparr>)) < SUN_PATH_LEN"
  shows "\<exists>c st'. wpa_ctrl_open2 (Some path) None st = (Some c, st') \<and> dest_path c = path"
proof -
  have "local_name None (st\<lparr>open_fds := a, next_fd := d, ctrl_counter := ctrl_counter st + 1\<rparr>) =
      local_name None (st\<lparr>ctrl_counter := ctrl_counter st + 1\<rparr>)" for a d by (simp add: local_name_def)
  with assms show ?thesis
    by (auto simp: wpa_ctrl_open2_def bind_local_def unlink_file_def os_snprintf_def Let_def)
qed

lemma init_connects:
  assumes "api_start st" "client_socket_dir st = None" "dirents st (ctrl_iface_dir st) = Some ents"
    "find (\<lambda>(ty, name). (ty = DT_SOCK \<or> ty = DT_UNKNOWN) \<and> name \<noteq> ''.'' \<and> name \<noteq> ''..'') ents = Some (ty, n)"
    "length (open_fds st) < fd_limit st" "\<forall>f. \<not> bind_denied st f"
    "\<not> str_starts (ctrl_iface_dir st @ ''/'' @ n) ''@abstract:''" "length (ctrl_iface_dir st @ ''/'' @ n) < SUN_PATH_LEN"
    "ctrl_iface_dir st @ ''/'' @ n \<in> set (servers st)"
    "length (local_name None (st\<lparr>ctrl_counter := ctrl_counter st + 1\<rparr>)) < SUN_PATH_LEN"
  shows "\<exists>st' c. init_wpa_cli st = Val (0, st') \<and> ctrl_conn st' = Some c \<and> dest_path c = ctrl_iface_dir st @ ''/'' @ n \<and>
    g_wpa_cli_initialized st' \<and> ctrl_ifname st' = Ptr n"
proof -
  let ?path = "ctrl_iface_dir st @ ''/'' @ n"
  let ?st = "(printf (lns [''Selected interface '' @ quoted n]) st)\<lparr>ctrl_ifname := Ptr n\<rparr>"
  have d: "default_if_unset st = ?st" using assms(1) by (intro default_if_unset_first [OF _ assms(3,4)]) (simp add: api_start_def)
  have "length (local_name None (?st\<lparr>ctrl_counter := ctrl_counter ?st + 1\<rparr>)) < SUN_PATH_LEN"
    using assms(10) by (simp add: local_name_def printf_def)
  with assms(5-9) open2_ok [of ?st ?path] obtain c st1 where
    o: "wpa_ctrl_open2 (Some ?path) None ?st = (Some c, st1)" "dest_path c = ?path" by (auto simp: printf_def)
  have w: "wpa_cli_open_connection (Some n) False ?st = Val (0, st1\<lparr>ctrl_conn := Some c, mon_conn := None\<rparr>)"
    using o(1) assms(2) by (simp add: wpa_cli_open_connection_def os_snprintf_def printf_def os_snprintf_error_def Let_def)
  have "ctrl_ifname st1 = Ptr n" using open2_client(3) [OF o(1)] by simp
  moreover have "\<not> g_wpa_cli_initialized st" using assms(1) by (simp add: api_start_def)
  ultimately show ?thesis using o(2) w by (simp add: init_wpa_cli_def d)
qed

section \<open>From a command line to the reply\<close>

text \<open>
  The commands whose stored result is the daemon's reply to one request: name, request, least number of
  arguments, and whether arguments are passed on.
\<close>

definition stored_commands :: "(string \<times> string \<times> nat \<times> bool) list" where
  "stored_commands =
     [(''status'', ''STATUS'', 0, False), (''ifname'', ''IFNAME'', 0, False), (''scan'', ''SCAN'', 0, True),
      (''scan_results'', ''SCAN_RESULTS'', 0, False), (''select_network'', ''SELECT_NETWORK'', 1, True),
      (''list_networks'', ''LIST_NETWORKS'', 0, False), (''set_network'', ''SET_NETWORK'', 3, True),
      (''enable_network'', ''ENABLE_NETWORK'', 1, True), (''disable_network'', ''DISABLE_NETWORK'', 1, True),
      (''save_config'', ''SAVE_CONFIG'', 0, False)]"

definition stored_handlers :: "(string \<times> result_handler) list" where
  "stored_handlers =
     [(''status'', wpa_cli_cmd_status_with_results), (''ifname'', wpa_cli_cmd_ifname_with_results),
      (''scan'', wpa_cli_cmd_scan_with_results), (''scan_results'', wpa_cli_cmd_scan_results_with_results),
      (''select_network'', wpa_cli_cmd_select_network_with_results),
      (''list_networks'', wpa_cli_cmd_list_networks_with_results),
      (''set_network'', wpa_cli_cmd_set_network_with_results),
      (''enable_network'', wpa_cli_cmd_enable_network_with_results),
      (''disable_network'', wpa_cli_cmd_disable_network_with_results),
      (''save_config'', wpa_cli_cmd_save_config_with_results)]"

lemma stored_handlers_table:
  "list_all (\<lambda>p. p \<in> set (map (\<lambda>c. (cmd_name c, cmd_handler_with_results c)) (wpa_cli_commands b))) stored_handlers"
  unfolding stored_handlers_def table_defs
  by (simp only: list.map map_append map_if_def entry_simps list.set set_append insert_iff simp_thms list.pred_inject
      Un_iff prod.inject)

lemma plain_command:
  "no_nul cmd \<Longrightarrow> length cmd < 4096 \<Longrightarrow>
     wpa_ctrl_command_with_results ctrl cmd buf st = wpa_cli_cmd_with_results ctrl cmd 0 [] buf st"
  using write_cmd_text [of cmd "[]"] by (auto simp: wpa_cli_cmd_with_results_def cmd_text_def)

definition stores :: "string \<times> string \<times> nat \<times> bool \<Rightarrow> string \<times> result_handler \<Rightarrow> bool" where
  "stores c p \<longleftrightarrow> (case (c, p) of ((name, req, n, takes), (name', h)) \<Rightarrow> name = name' \<and>
     (\<forall>args ctrl buf st. n \<le> length args \<longrightarrow> takes \<or> args = [] \<longrightarrow>
        h ctrl args buf st = wpa_cli_cmd_with_results ctrl req n args buf st))"

lemma stored_commands_stores: "list_all2 stores stored_commands stored_handlers"
  unfolding stored_commands_def stored_handlers_def list_all2_Cons list_all2_Nil
  by (intro conjI; (rule TrueI)?; (simp add: stores_def results_defs plain_command)?)

lemma stored_command_handler:
  assumes "(name, req, n, takes) \<in> set stored_commands" "n \<le> length args" "takes \<or> args = []"
  shows "\<exists>h. (name, h) \<in> set stored_handlers \<and> (\<forall>ctrl buf st. h ctrl args buf st = wpa_cli_cmd_with_results ctrl req n args buf st)"
proof -
  obtain i where i: "i < length stored_commands" "stored_commands ! i = (name, req, n, takes)"
    using assms(1) by (auto simp: in_set_conv_nth)
  then have "stores (name, req, n, takes) (stored_handlers ! i)" "i < length stored_handlers"
    using stored_commands_stores by (auto simp: list_all2_conv_all_nth)
  moreover obtain name' h where h: "stored_handlers ! i = (name', h)" by fastforce
  ultimately have "(name, h) \<in> set stored_handlers" using nth_mem [of i stored_handlers] by (simp add: stores_def)
  moreover have "h ctrl args buf st = wpa_cli_cmd_with_results ctrl req n args buf st" for ctrl buf st
    using \<open>stores (name, req, n, takes) (stored_handlers ! i)\<close> assms(2,3) unfolding h stores_def by auto
  ultimately show ?thesis by blast
qed

lemma stored_command_names:
  "list_all (\<lambda>(name, req, n, takes). length req = length name \<and> name \<noteq> [] \<and> (\<forall>c \<in> set name. \<not> is_blank c) \<and> no_nul req \<and>
     take 7 name \<noteq> ''ifname='') stored_commands"
  unfolding stored_commands_def by (simp add: is_blank_def)

lemma split_no_ifname:
  assumes "take 7 name \<noteq> ''ifname=''" "map c_tolower name = name"
  shows "split_ifname (name # args) st = (name # args, st\<lparr>ifname_prefix := None\<rparr>)"
proof -
  have "map c_tolower (take 7 name) = take 7 name" using assms(2) by (metis take_map)
  with assms(1) show ?thesis unfolding split_ifname_cases by (simp only: nth_Cons_0 simp_thms if_False)
qed

lemma execute_stored:
  assumes "g_wpa_cli_initialized st" "length (cmd_text name args) < 1024" "length args + 1 < kMaxArgs"
    and "\<forall>a \<in> set args. a \<noteq> [] \<and> (\<forall>c \<in> set a. \<not> is_blank c)"
    and "(name, req, n, takes) \<in> set stored_commands" "n \<le> length args" "takes \<or> args = []"
  shows "wpa_cli_execute b (cmd_text name args) buf st =
    wpa_cli_cmd_with_results (ctrl_conn st) req n args buf (st\<lparr>ifname_prefix := None\<rparr>)"
proof -
  from stored_command_handler [OF assms(5-7)] obtain h where h: "(name, h) \<in> set stored_handlers"
    "\<And>ctrl buf st. h ctrl args buf st = wpa_cli_cmd_with_results ctrl req n args buf st" by blast
  with stored_handlers_table [of b] obtain c where c: "c \<in> set (wpa_cli_commands b)" "cmd_name c = name"
    "cmd_handler_with_results c = h" by (auto simp: list_all_iff)
  have nm: "name \<noteq> []" "\<forall>x \<in> set name. \<not> is_blank x" "take 7 name \<noteq> ''ifname=''"
    using stored_command_names assms(5) by (auto simp: list_all_iff)
  have "parse_line (cmd_text name args) = Val (name # args)" by (rule parse_line_text [OF nm(1,2) assms(4,3)])
  moreover have "split_ifname (name # args) st = (name # args, st\<lparr>ifname_prefix := None\<rparr>)"
    using split_no_ifname [OF nm(3)] command_name_lower [OF c(1)] c(2) by simp
  moreover have "select_command (wpa_cli_commands b) name = Selected c"
    using select_own_name [OF c(1)] c(2) by (simp add: strcaseeq_refl)
  ultimately show ?thesis
    using assms(1,2) c(3) h(2)
    by (simp add: wpa_cli_execute_def wpa_request_with_result_buf_def match_loop_select)
qed

lemma execute_answered:
  assumes "g_wpa_cli_initialized st" "ctrl_conn st = Some c" "length (cmd_text name args) < 1024" "length args + 1 < kMaxArgs"
    and "\<forall>a \<in> set args. a \<noteq> [] \<and> (\<forall>x \<in> set a. \<not> is_blank x) \<and> no_nul a"
    and "(name, req, n, takes) \<in> set stored_commands" "n \<le> length args" "takes \<or> args = []"
    and "answers c (cmd_text req args) (length buf - 1) pre r post st" "no_nul r" "buf \<noteq> []"
  shows "\<exists>buf'. wpa_cli_execute b (cmd_text name args) buf st =
      Val (0, buf', after_reply c (cmd_text req args) pre post (st\<lparr>ifname_prefix := None\<rparr>)) \<and>
    length buf' = length buf \<and> cstr_of buf' = r"
proof -
  let ?st = "st\<lparr>ifname_prefix := None\<rparr>"
  have "length req = length name" "no_nul req" using stored_command_names assms(6) by (auto simp: list_all_iff)
  moreover have "no_nul (concat (map (\<lambda>a. CHR '' '' # a) args))" using assms(5) by (induction args) auto
  ultimately have t: "no_nul (cmd_text req args)" "length (cmd_text req args) < 4096"
    using assms(3) by (simp_all add: cmd_text_def)
  have f: "full_cmd (ifname_prefix ?st) (cmd_text req args) = cmd_text req args" by (simp add: full_cmd_def)
  have a: "answers c (cmd_text req args) (length buf - 1) pre r post ?st"
    using assms(9) by (simp add: answers_def arrivals_def)
  have e: "wpa_cli_execute b (cmd_text name args) buf st = wpa_cli_cmd_with_results (Some c) req n args buf ?st"
    using execute_stored [OF assms(1,3,4) _ assms(6-8)] assms(2,5) by simp
  from cmd_answered [of ?st n args req c buf pre r post] t f a assms(2,7,10,11) show ?thesis unfolding e by simp
qed

section \<open>Properties\<close>

text \<open>
  C2: in every run of a program that starts with the library unused, the control connection exists exactly
  while the library is initialised, no monitor connection is ever opened, the interface name
  is then allocated, and apart from the descriptor of the connection no descriptor is gained or lost.
\<close>

theorem api_run_invariant:
  assumes "api_start st0" "api_run b st0 st"
  shows "(g_wpa_cli_initialized st \<longleftrightarrow> ctrl_conn st \<noteq> None) \<and> mon_conn st = None \<and>
    (g_wpa_cli_initialized st \<longrightarrow> (\<exists>n. ctrl_ifname st = Ptr n)) \<and>
    open_fds st = (case ctrl_conn st of None \<Rightarrow> open_fds st0 | Some c \<Rightarrow> sock c # open_fds st0)"
  using api_run_inv [OF assms(2,1)] by (auto simp: api_inv_def split: if_splits)

lemma demo_api_start: "api_start (demo_cli p)"
  by (simp add: api_start_def demo_cli_def)

lemma demo_fields:
  "client_socket_dir (demo_cli p) = None" "ctrl_iface_dir (demo_cli p) = ''/var/run/wpa_supplicant''"
  "dirents (demo_cli p) ''/var/run/wpa_supplicant'' = Some [(DT_OTHER, ''.''), (DT_SOCK, ''wlan0'')]"
  "open_fds (demo_cli p) = []" "fd_limit (demo_cli p) = 16" "bind_denied (demo_cli p) f = False"
  "servers (demo_cli p) = [''/var/run/wpa_supplicant/wlan0'']" "ctrl_counter (demo_cli p) = 0" "pid (demo_cli p) = 7"
  by (simp_all add: demo_cli_def)

lemma demo_local_name: "length (local_name None ((demo_cli p)\<lparr>ctrl_counter := Suc 0\<rparr>)) < SUN_PATH_LEN"
  by (simp add: local_name_def demo_fields CLIENT_DIR_def CLIENT_PREFIX_def SUN_PATH_LEN_def show_nat.simps)

lemma demo_init: "\<exists>st. init_wpa_cli (demo_cli p) = Val (0, st) \<and> g_wpa_cli_initialized st"
  using init_connects [OF demo_api_start, of p "[(DT_OTHER, ''.''), (DT_SOCK, ''wlan0'')]" DT_SOCK "''wlan0''"] demo_local_name
  by (auto simp: demo_fields str_starts_def SUN_PATH_LEN_def)

theorem api_run_invariant_witness:
  "\<exists>st c. api_run default_build (demo_cli (\<lambda>_. [])) st \<and> ctrl_conn st = Some c \<and> open_fds st = [sock c]"
proof -
  obtain st where i: "init_wpa_cli (demo_cli (\<lambda>_. [])) = Val (0, st)" and g: "g_wpa_cli_initialized st" using demo_init by blast
  have run: "api_run default_build (demo_cli (\<lambda>_. [])) st" by (rule api_run.init [OF api_run.start i])
  from g api_run_invariant [OF demo_api_start run] run show ?thesis by (auto simp: demo_fields)
qed

text \<open>
  C31: the first initialisation connects to the daemon of the first usable entry of the control
  directory (a socket or an entry of unknown type, other than the directory itself and its parent)
  when that daemon listens and the system has a descriptor left.
\<close>

theorem init_connects_first_socket:
  assumes "api_start st" "client_socket_dir st = None" "dirents st (ctrl_iface_dir st) = Some ents"
    "find (\<lambda>(ty, name). (ty = DT_SOCK \<or> ty = DT_UNKNOWN) \<and> name \<noteq> ''.'' \<and> name \<noteq> ''..'') ents = Some (ty, n)"
    "length (open_fds st) < fd_limit st" "\<forall>f. \<not> bind_denied st f"
    "\<not> str_starts (ctrl_iface_dir st @ ''/'' @ n) ''@abstract:''" "length (ctrl_iface_dir st @ ''/'' @ n) < SUN_PATH_LEN"
    "ctrl_iface_dir st @ ''/'' @ n \<in> set (servers st)"
    "length (local_name None (st\<lparr>ctrl_counter := ctrl_counter st + 1\<rparr>)) < SUN_PATH_LEN"
  shows "\<exists>st' c. init_wpa_cli st = Val (0, st') \<and> ctrl_conn st' = Some c \<and> dest_path c = ctrl_iface_dir st @ ''/'' @ n \<and>
    g_wpa_cli_initialized st' \<and> ctrl_ifname st' = Ptr n"
  using assms by (rule init_connects)

theorem init_connects_first_socket_witness:
  "\<exists>st' c. init_wpa_cli (demo_cli (\<lambda>_. [])) = Val (0, st') \<and> ctrl_conn st' = Some c \<and>
    dest_path c = ''/var/run/wpa_supplicant/wlan0''"
  using init_connects_first_socket [OF demo_api_start, of "\<lambda>_. []" "[(DT_OTHER, ''.''), (DT_SOCK, ''wlan0'')]"
      DT_SOCK "''wlan0''"] demo_local_name
  by (auto simp: demo_fields str_starts_def SUN_PATH_LEN_def)

text \<open>
  the calls out of order: executing before initialisation and initialising twice return -1 and
  change nothing but the error output; deinitialising an uninitialised library does nothing.
\<close>

theorem api_guards:
  "\<exists>t u. (\<not> g_wpa_cli_initialized st \<longrightarrow>
       wpa_cli_execute b cmd buf st = Val (-1, buf, st\<lparr>stderr := stderr st @ t\<rparr>) \<and> deinit_wpa_cli st = Val (0, st)) \<and>
     (g_wpa_cli_initialized st \<longrightarrow> init_wpa_cli st = Val (-1, st\<lparr>stderr := stderr st @ u\<rparr>))"
  by (auto simp: wpa_cli_execute_def deinit_wpa_cli_def init_wpa_cli_def eprintf_def)

theorem api_guards_witness:
  "\<exists>st. wpa_cli_execute default_build ''status'' [NUL] (demo_cli (\<lambda>_. [])) = Val (-1, [NUL], st)"
  using api_guards [of "demo_cli (\<lambda>_. [])" default_build "''status''" "[NUL]"] by (auto simp: demo_cli_def)

text \<open>
  C34: deinitialising an initialised library closes the connection and returns all descriptors, but it
  leaves the pointer to the freed interface name: initialising again uses the freed memory.
\<close>

theorem reinit_uses_freed_name:
  assumes "api_start st0" "api_run b st0 st" "g_wpa_cli_initialized st"
  shows "\<exists>st'. deinit_wpa_cli st = Val (0, st') \<and> ctrl_conn st' = None \<and> open_fds st' = open_fds st0 \<and>
    init_wpa_cli st' = Undef Use_after_free"
proof -
  obtain st' where "deinit_wpa_cli st = Val (0, st')" "ctrl_conn st' = None" "open_fds st' = open_fds st0"
    "\<not> g_wpa_cli_initialized st'" "ctrl_ifname st' = Dangling"
    using deinit_result [OF api_run_inv [OF assms(2,1)] assms(3)] by blast
  then show ?thesis by (auto simp: init_wpa_cli_def Let_def default_if_unset_client)
qed

theorem reinit_uses_freed_name_witness:
  "\<exists>st st'. init_wpa_cli (demo_cli (\<lambda>_. [])) = Val (0, st) \<and> deinit_wpa_cli st = Val (0, st') \<and> init_wpa_cli st' = Undef Use_after_free"
proof -
  obtain st where i: "init_wpa_cli (demo_cli (\<lambda>_. [])) = Val (0, st)" "g_wpa_cli_initialized st" using demo_init by blast
  have "api_run default_build (demo_cli (\<lambda>_. [])) st" by (rule api_run.init [OF api_run.start i(1)])
  from reinit_uses_freed_name [OF demo_api_start this i(2)] i(1) show ?thesis by blast
qed

text \<open>
  C1: executing a command line. While the library is initialised, a line of one of the ten commands
  that store their reply, of less than 1024 characters and fewer than sixteen words, makes the
  daemon receive exactly the corresponding request; its reply is the C string in the caller's
  buffer and the call returns 0.
\<close>

theorem wpa_cli_execute_stores_reply:
  assumes "g_wpa_cli_initialized st" "ctrl_conn st = Some c" "length (cmd_text name args) < 1024" "length args + 1 < kMaxArgs"
    and "\<forall>a \<in> set args. a \<noteq> [] \<and> (\<forall>x \<in> set a. \<not> is_blank x) \<and> no_nul a"
    and "(name, req, n, takes) \<in> set stored_commands" "n \<le> length args" "takes \<or> args = []"
    and "answers c (cmd_text req args) (length buf - 1) pre r post st" "no_nul r" "buf \<noteq> []"
  shows "\<exists>buf'. wpa_cli_execute b (cmd_text name args) buf st =
      Val (0, buf', after_reply c (cmd_text req args) pre post (st\<lparr>ifname_prefix := None\<rparr>)) \<and>
    length buf' = length buf \<and> cstr_of buf' = r"
  using assms by (rule execute_answered)

lemma demo_connected_fields:
  "g_wpa_cli_initialized (demo_connected p)" "ctrl_conn (demo_connected p) = Some demo_ctrl"
  by (simp_all add: demo_connected_def)

theorem wpa_cli_execute_stores_reply_witness:
  "\<exists>buf' st'. wpa_cli_execute default_build ''set_network 0 priority 5'' (replicate 64 NUL) (demo_connected pong) = Val (0, buf', st') \<and>
    cstr_of buf' = ''OK''"
proof -
  have t: "cmd_text ''set_network'' [''0'', ''priority'', ''5''] = ''set_network 0 priority 5''" by (simp add: cmd_text_def)
  show ?thesis
    using wpa_cli_execute_stores_reply [OF demo_connected_fields, of "''set_network''" "[''0'', ''priority'', ''5'']" "''SET_NETWORK''"
        3 True "replicate 64 NUL" "[Data ''<2>WPS-AP-AVAILABLE'']" "''OK''" "[]" pong default_build]
    unfolding t by (auto simp: kMaxArgs_def is_blank_def stored_commands_def pong_answers)
qed

end
