(* ===== verification/Wrapper_Safety.thy ===== *)
theory Wrapper_Safety
  imports Wrapper_Api
begin

text \<open>
  Executing a command line in a reachable state of the library is defined: the only conditions are
  on the line, the buffer and the size of the daemon's datagrams.
\<close>

section \<open>Executing never goes wrong\<close>

text \<open>Every datagram the daemon sends or has sent is shorter than the local reply buffers.\<close>

definition short_data :: "cli \<Rightarrow> bool" where
  "short_data st \<longleftrightarrow> (\<forall>fd bs. Data bs \<in> set (inbox st fd) \<longrightarrow> length bs < 4096) \<and>
     (\<forall>reqs fd bs. (fd, Data bs) \<in> set (peer st reqs) \<longrightarrow> length bs < 4096)"

lemma recv_reply_consumes:
  fixes st :: cli
  assumes "cb = None \<or> cb = Some wpa_cli_msg_cb" "recv_reply fd evs reply cb st = ((ret, b, len), st')" "inbox st fd = evs"
  shows "set (inbox st' f) \<subseteq> set (inbox st f) \<and> peer st' = peer st \<and>
    (ret = 0 \<longrightarrow> (\<exists>bs. Data bs \<in> set evs \<and> len \<le> length bs))"
  using assms(2,3)
proof (induction evs arbitrary: reply st)
  case Nil
  then show ?case by (auto simp: recv_reply.simps)
next
  case (Cons ev evs)
  let ?st = "st\<lparr>inbox := (inbox st)(fd := evs)\<rparr>"
  have sub: "set (inbox ?st f) \<subseteq> set (inbox st f)" using Cons.prems(2) by auto
  show ?case
  proof (cases ev)
    case (Data bytes)
    let ?b = "memwrite reply (take (length reply) bytes)"
    consider (reply) "((ret, b, len), st') = ((0, ?b, length (take (length reply) bytes)), ?st)"
      | (skip) "recv_reply fd evs ?b cb ?st = ((ret, b, len), st')"
      | (shown) n where "recv_reply fd evs (?b[n := NUL]) cb (wpa_cli_msg_cb (cstr_of (?b[n := NUL])) ?st) = ((ret, b, len), st')"
      using Cons.prems(1) Data assms(1) by (auto simp: recv_reply.simps Let_def split: if_splits)
    then show ?thesis
    proof cases
      case reply
      then show ?thesis using sub Data by (auto intro!: exI [of _ bytes])
    next
      case skip
      from Cons.IH [OF this] sub show ?thesis by auto
    next
      case shown
      from Cons.IH [OF this] sub show ?thesis by (auto simp: wpa_cli_msg_cb_def printf_def)
    qed
  next
    case Sel_intr
    with Cons.prems have "recv_reply fd evs reply cb ?st = ((ret, b, len), st')" by (simp add: recv_reply.simps)
    from Cons.IH [OF this] sub show ?thesis by auto
  qed (use Cons.prems sub in \<open>auto simp: recv_reply.simps\<close>)
qed

lemma sock_send_short:
  assumes "sock_send fd cmd st = (ok, st')" "short_data st"
  shows "short_data st'"
  using assms by (auto simp: sock_send_def short_data_def deliver_def Let_def split: prod.splits if_splits)

lemma request_short:
  fixes st :: cli
  assumes "cb = None \<or> cb = Some wpa_cli_msg_cb" "wpa_ctrl_request c cmd reply cb st = ((ret, b, len), st')" "short_data st"
  shows "short_data st' \<and> (ret = 0 \<longrightarrow> len < 4096)"
proof -
  obtain ok st1 where s: "sock_send (sock c) cmd st = (ok, st1)" by fastforce
  note sh = sock_send_short [OF s assms(3)]
  show ?thesis
  proof (cases ok)
    case True
    with assms(2) s have "recv_reply (sock c) (inbox st1 (sock c)) reply cb st1 = ((ret, b, len), st')"
      by (simp add: wpa_ctrl_request_def)
    from recv_reply_consumes [OF assms(1) this refl] sh show ?thesis
      unfolding short_data_def by (metis order.strict_trans1 subsetD)
  next
    case False
    with assms(2) s sh show ?thesis by (auto simp: wpa_ctrl_request_def)
  qed
qed

lemma fetch_reply_defined:
  assumes "short_data st"
  shows "\<exists>r st'. fetch_reply c cmd st = Val (r, st') \<and> short_data st'"
proof -
  obtain ret b len st' where q: "wpa_ctrl_request c cmd (replicate 4096 NUL) None st = ((ret, b, len), st')"
    by (metis prod_cases3 surj_pair)
  have "short_data st'" "ret = 0 \<longrightarrow> len < 4096" using request_short [OF _ q assms] by simp_all
  moreover have "length b = 4096" "ret \<in> {0, -1, -2}" using request_frame [OF _ q] by simp_all
  ultimately show ?thesis using q by (auto simp: fetch_reply_def)
qed

lemma short_data_updates [simp]:
  "short_data (st\<lparr>networks := l\<rparr>) \<longleftrightarrow> short_data st" "short_data (st\<lparr>ifname_prefix := p\<rparr>) \<longleftrightarrow> short_data st"
  "short_data (printf t st) \<longleftrightarrow> short_data st"
  by (simp_all add: short_data_def printf_def)

lemma update_networks_defined:
  assumes "short_data st"
  shows "\<exists>st'. update_networks ctrl st = Val st' \<and> short_data st'"
proof (cases ctrl)
  case None
  with assms show ?thesis by (simp add: update_networks_def)
next
  case (Some c)
  from fetch_reply_defined [of "st\<lparr>networks := []\<rparr>" c "''LIST_NETWORKS''"] assms obtain r st1 where
    "fetch_reply c ''LIST_NETWORKS'' (st\<lparr>networks := []\<rparr>) = Val (r, st1)" "short_data st1" by auto
  with Some show ?thesis by (cases r) (simp_all add: update_networks_def flush_Nil)
qed

lemma exchange_short:
  assumes "ctrl_exchange c pre cmd buf st = ((ret, sh, b, len), st')" "short_data st"
  shows "short_data st'"
proof -
  obtain cmd' buf' where p: "prefixed_cmd pre cmd buf = (cmd', buf')" by fastforce
  obtain r b1 l1 st1 where q: "wpa_ctrl_request c cmd' (butlast buf') (Some wpa_cli_msg_cb) st = ((r, b1, l1), st1)"
    by (metis prod_cases3 surj_pair)
  from request_short [OF _ q assms(2)] have "short_data st1" by simp
  with assms p q show ?thesis by (auto simp: ctrl_exchange_def Let_def split: if_splits)
qed

lemma print_reply_short: "short_data st \<Longrightarrow> short_data (print_reply b n st)"
  by (simp add: print_reply_def Let_def)

definition runs_defined :: "result_handler \<Rightarrow> bool" where
  "runs_defined h \<longleftrightarrow> (\<forall>c argv buf st. ctrl_conn st = Some c \<longrightarrow> buf \<noteq> [] \<longrightarrow> short_data st \<longrightarrow>
     (\<exists>r buf' st'. h (Some c) argv buf st = Val (r, buf', st') \<and> short_data st'))"

lemma command_with_results_defined:
  assumes "buf \<noteq> []" "short_data st"
  shows "\<exists>r buf' st'. wpa_ctrl_command_with_results (Some c) cmd buf st = Val (r, buf', st') \<and> short_data st'"
proof -
  obtain ret sh b len st1 where x: "ctrl_exchange c (ifname_prefix st) cmd buf st = ((ret, sh, b, len), st1)"
    by (metis prod_cases4 surj_pair)
  from exchange_short [OF x assms(2)] have "short_data st1" .
  with x assms show ?thesis
    by (auto simp: wpa_ctrl_command_with_results_def wpa_ctrl_command_with_results_gen_def print_reply_short)
qed

lemma command_defined:
  assumes "short_data st"
  shows "\<exists>r st'. wpa_ctrl_command (Some c) cmd st = Val (r, st') \<and> short_data st'"
proof -
  obtain ret sh b len st1 where x: "ctrl_exchange c (ifname_prefix st) cmd (replicate 4096 NUL) st = ((ret, sh, b, len), st1)"
    by (metis prod_cases4 surj_pair)
  from exchange_short [OF x assms] have "short_data st1" .
  with x assms show ?thesis by (auto simp: wpa_ctrl_command_def wpa_ctrl_command_gen_def print_reply_short)
qed

lemma cmd_with_results_defined:
  assumes "buf \<noteq> []" "short_data st"
  shows "\<exists>r buf' st'. wpa_cli_cmd_with_results (Some c) cmd n argv buf st = Val (r, buf', st') \<and> short_data st'"
  using command_with_results_defined [OF assms] assms(2) by (auto simp: wpa_cli_cmd_with_results_def split: prod.splits)

lemma then_update_defined:
  assumes "\<exists>r buf' st'. m = Val (r, buf', st') \<and> short_data st'"
  shows "\<exists>r buf' st'. then_update_networks ctrl m = Val (r, buf', st') \<and> short_data st'"
proof -
  obtain r buf' st' where m: "m = Val (r, buf', st')" "short_data st'" using assms by blast
  from update_networks_defined [OF m(2)] obtain st2 where "update_networks ctrl st' = Val st2" "short_data st2" by blast
  with m show ?thesis by (simp add: then_update_networks_def)
qed

lemma printed_only_defined:
  "\<exists>r st'. m = Val (r, st') \<and> short_data st' \<Longrightarrow> \<exists>r buf' st'. printed_only m buf = Val (r, buf', st') \<and> short_data st'"
  by (auto simp: printed_only_def)

lemmas defined_intros = command_with_results_defined cmd_with_results_defined then_update_defined printed_only_defined
  command_defined

lemma results_defined:
  "runs_defined handler_with_results_default_func"
  "runs_defined wpa_cli_cmd_status_with_results" "runs_defined wpa_cli_cmd_ifname_with_results"
  "runs_defined wpa_cli_cmd_scan_with_results" "runs_defined wpa_cli_cmd_scan_results_with_results"
  "runs_defined wpa_cli_cmd_select_network_with_results" "runs_defined wpa_cli_cmd_add_network_with_results"
  "runs_defined wpa_cli_cmd_list_networks_with_results" "runs_defined wpa_cli_cmd_set_network_with_results"
  "runs_defined wpa_cli_cmd_remove_network_with_results" "runs_defined wpa_cli_cmd_enable_network_with_results"
  "runs_defined wpa_cli_cmd_disable_network_with_results" "runs_defined wpa_cli_cmd_save_config_with_results"
proof -
  show "runs_defined wpa_cli_cmd_status_with_results"
    unfolding runs_defined_def wpa_cli_cmd_status_with_results_def
    by (intro allI impI) (simp split: if_split add: defined_intros)
  show "runs_defined wpa_cli_cmd_set_network_with_results"
    unfolding runs_defined_def wpa_cli_cmd_set_network_with_results_def wpa_cli_show_network_variables_def
    by (intro allI impI) (simp split: if_split add: defined_intros)
qed (auto simp: runs_defined_def results_defs intro: defined_intros)

lemma table_runs_defined: "list_all (\<lambda>c. runs_defined (cmd_handler_with_results c)) (wpa_cli_commands b)"
  unfolding table_defs by (simp add: results_defined)

lemma request_defined:
  assumes "ctrl_conn st = Some c" "buf \<noteq> []" "short_data st"
  shows "\<exists>r buf' st'. wpa_request_with_result_buf b (Some c) argv buf st = Val (r, buf', st') \<and> short_data st'"
proof -
  obtain argv1 p where s: "split_ifname argv st = (argv1, st\<lparr>ifname_prefix := p\<rparr>)" using split_ifname_state by blast
  have h: "select_command (wpa_cli_commands b) name = Selected cmd \<Longrightarrow>
      \<exists>r buf' st'. cmd_handler_with_results cmd (Some c) args buf (st\<lparr>ifname_prefix := p\<rparr>) = Val (r, buf', st') \<and> short_data st'"
    for name cmd args
    using table_runs_defined [of b] select_command_in [of "wpa_cli_commands b"] assms
    by (auto simp: list_all_iff runs_defined_def)
  show ?thesis
    using assms(3) s h
    by (auto simp: wpa_request_with_result_buf_def match_loop_select print_ambiguous_def print_unknown_def
        split: list.splits selection.splits dest: select_command_Ambiguous)
qed

section \<open>Properties\<close>

text \<open>
  C3: no line is dangerous in a reachable state. A line of less than 1024 characters with fewer than
  sixteen words, executed with a non-empty buffer, always returns, with every access inside its
  object, as long as the daemon's datagrams are shorter than 4096 bytes; the buffer keeps its size and
  what the daemon queued stays within the bound.
\<close>

theorem wpa_cli_execute_defined:
  assumes "api_start st0" "api_run b st0 st" "short_data st"
    and "length cmd < 1024" "length (blank_words [] cmd) < kMaxArgs" "buf \<noteq> []"
  shows "\<exists>r buf' st'. wpa_cli_execute b cmd buf st = Val (r, buf', st') \<and> length buf' = length buf \<and> short_data st'"
proof (cases "g_wpa_cli_initialized st")
  case False
  then show ?thesis using assms(3) by (auto simp: wpa_cli_execute_def eprintf_def short_data_def)
next
  case True
  note inv = api_run_inv [OF assms(2,1)]
  with True obtain c where c: "ctrl_conn st = Some c" by (auto simp: api_inv_def)
  have "parse_line cmd = Val (take kMaxArgs (blank_words [] cmd))"
    using parse_args_words [of 0 cmd] assms(5) by (auto simp: parse_line_def Let_def)
  with request_defined [OF c assms(6,3)] c True assms(4) obtain r buf' st' where
    "wpa_cli_execute b cmd buf st = Val (r, buf', st')" "short_data st'"
    by (simp add: wpa_cli_execute_def) blast
  with exec_inv [OF inv] show ?thesis by blast
qed

lemma open2_queues: "wpa_ctrl_open2 path cli st = (r, st') \<Longrightarrow> inbox st' = inbox st \<and> peer st' = peer st"
  by (auto simp: wpa_ctrl_open2_def close_fd_def unlink_file_def bind_local_def os_snprintf_def Let_def
      split: option.splits if_splits prod.splits)

lemma open_connection_queues:
  assumes "wpa_cli_open_connection ifname False st = Val (r, st')"
  shows "inbox st' = inbox st \<and> peer st' = peer st"
  using assms
  by (auto simp: wpa_cli_open_connection_def eprintf_def os_snprintf_def Let_def dest: open2_queues
      split: option.splits if_splits prod.splits)

lemma default_if_unset_queues: "inbox (default_if_unset st) = inbox st \<and> peer (default_if_unset st) = peer st"
  by (auto simp: default_if_unset_def wpa_cli_get_default_ifname_def printf_def split: option.splits)

lemma init_queues:
  assumes "init_wpa_cli st = Val (r, st')" "short_data st" "api_start st"
  shows "short_data st'"
proof -
  have "\<not> g_wpa_cli_initialized st" "ctrl_conn st = None" "mon_conn st = None" "ctrl_ifname st \<noteq> Dangling"
    using assms(3) by (simp_all add: api_start_def)
  from init_result [OF this] obtain r1 st1 t name where
    o: "wpa_cli_open_connection name False (default_if_unset st) = Val (r1, st1)"
      "init_wpa_cli st = (if r1 = 0 then Val (0, st1\<lparr>g_wpa_cli_initialized := True\<rparr>) else Val (-2, eprintf t st1))" by blast
  have "short_data st1"
    using open_connection_queues [OF o(1)] assms(2) by (simp add: short_data_def default_if_unset_queues)
  with o(2) assms(1) show ?thesis by (auto simp: short_data_def eprintf_def split: if_splits)
qed

theorem wpa_cli_execute_defined_witness:
  "\<exists>st r buf' st'. init_wpa_cli (demo_cli pong) = Val (0, st) \<and> wpa_cli_execute default_build ''status'' [NUL, NUL] st = Val (r, buf', st')"
proof -
  obtain st where i: "init_wpa_cli (demo_cli pong) = Val (0, st)" using demo_init by blast
  have run: "api_run default_build (demo_cli pong) st" by (rule api_run.init [OF api_run.start i])
  have "short_data (demo_cli pong)" by (auto simp: short_data_def demo_cli_def pong_def)
  with i have "short_data st" using demo_api_start by (rule init_queues)
  moreover have "length (blank_words [] ''status'') < kMaxArgs" by (simp add: kMaxArgs_def is_blank_def)
  ultimately have "\<exists>r buf' st'. wpa_cli_execute default_build ''status'' [NUL, NUL] st = Val (r, buf', st')"
    using wpa_cli_execute_defined [OF demo_api_start run, of "''status''" "[NUL, NUL]"] by simp blast
  with i show ?thesis by blast
qed

end
