(* ===== verification/Wifi_Oper.thy ===== *)
theory Wifi_Oper
  imports Wrapper_Safety Smartlist
begin

text \<open>
  \<^verbatim>\<open>wpa_cli_oper/wpa_cli_oper.c\<close>: scanning for networks and connecting to one, on top of the library.
  The source includes \<^verbatim>\<open>wifi_operator.h\<close>, which the repository does not contain; the types are those of
  \<^verbatim>\<open>wpa_cli_oper.h\<close>. The member \<^verbatim>\<open>password\<close> of the configuration is a single character there, so the
  pointer \<open>set_password\<close> receives is the value of that character. Memory allocation succeeds.
\<close>

record WifiConfig =
  cfg_ssid :: string
  cfg_password :: char
  cfg_flag :: int

record WifiScanItem =
  it_bssid :: string
  it_frequency :: int
  it_signal_level :: int
  it_flags :: string
  it_ssid :: string

record WifiStatus =
  ws_wpa_state :: int
  ws_address :: string

section \<open>Scanning\<close>

text \<open>The tokens \<^verbatim>\<open>strtok_r\<close> returns one after the other for a delimiter of one character.\<close>

function strtok_all :: "char \<Rightarrow> string \<Rightarrow> string list" where
  "strtok_all d s =
     (let s = dropWhile (\<lambda>c. c = d) s
      in if s = [] then []
         else takeWhile (\<lambda>c. c \<noteq> d) s # strtok_all d (dropWhile (\<lambda>c. c \<noteq> d) s))"
  by pat_completeness auto
termination
proof (relation "measure (\<lambda>(d, s). length s)")
  fix d s x assume x: "x = dropWhile (\<lambda>c. c = d) s" and ne: "x \<noteq> []"
  have "length x \<le> length s" using x by (simp add: length_dropWhile_le)
  moreover have "length (dropWhile (\<lambda>c. c \<noteq> d) x) < length x"
  proof (cases x)
    case (Cons a y)
    then have "a \<noteq> d" using x hd_dropWhile [of "\<lambda>c. c = d" s] by auto
    then show ?thesis using Cons length_dropWhile_le [of "\<lambda>c. c \<noteq> d" y] by simp
  qed (use ne in simp)
  ultimately show "((d, dropWhile (\<lambda>c. c \<noteq> d) x), (d, s)) \<in> measure (\<lambda>(d, s). length s)" by simp
qed simp

declare strtok_all.simps [simp del]

text \<open>Each token is copied into the next of five rows of 256 characters.\<close>

fun copy_fields :: "nat \<Rightarrow> string list \<Rightarrow> string list outcome" where
  "copy_fields field_count [] = Val []"
| "copy_fields field_count (p # ps) =
     (if field_count \<ge> 5 \<or> length p \<ge> 256 then Undef Oob_write
      else omap ((#) p) (copy_fields (field_count + 1) ps))"

definition get_wifi_scan_item_from_line :: "string \<Rightarrow> WifiScanItem option outcome" where
  "get_wifi_scan_item_from_line line =
     obind (copy_fields 0 (strtok_all TAB line)) (\<lambda>fields.
       case fields of
         [a, b, c, d, e] \<Rightarrow>
           if length a \<ge> 18 then Undef Oob_write
           else Val (Some \<lparr>it_bssid = a, it_frequency = atoi b, it_signal_level = atoi c, it_flags = d, it_ssid = e\<rparr>)
       | _ \<Rightarrow> Val None)"

fun add_items :: "WifiScanItem smartlist_t \<Rightarrow> string list \<Rightarrow> WifiScanItem smartlist_t outcome" where
  "add_items scan_results [] = Val scan_results"
| "add_items scan_results (p # ps) =
     obind (get_wifi_scan_item_from_line p) (\<lambda>item.
       add_items (case item of None \<Rightarrow> scan_results | Some i \<Rightarrow> smartlist_add scan_results i) ps)"

definition get_wifi_scan_results :: "build \<Rightarrow> cli \<Rightarrow> (WifiScanItem smartlist_t option \<times> cli) outcome" where
  "get_wifi_scan_results b st =
     obind (wpa_cli_execute b ''scan'' (replicate 4096 NUL) st) (\<lambda>(r, buf, st).
       if r < 0 \<or> \<not> strncaseeq (cstr_of buf) ''OK'' 2 then Val (None, st)
       else
         obind (wpa_cli_execute b ''scan_results'' (replicate 4096 NUL) st) (\<lambda>(r, buf, st).
           if r < 0 then Val (None, st)
           else omap (\<lambda>l. (Some l, st)) (add_items smartlist_new (strtok_all NL (cstr_of buf)))))"

section \<open>Connecting\<close>

definition wpa_cli_comm_exec :: "build \<Rightarrow> string \<Rightarrow> cli \<Rightarrow> (int \<times> cli) outcome" where
  "wpa_cli_comm_exec b cmd st =
     omap (\<lambda>(r, buf, st). (if r < 0 then -1 else if \<not> strncaseeq (cstr_of buf) ''OK'' 2 then -1 else 0, st))
       (wpa_cli_execute b cmd (replicate 256 NUL) st)"

text \<open>The reply is copied into the caller's array, which has 16 characters; it is unchanged on failure.\<close>

definition add_network :: "build \<Rightarrow> string \<Rightarrow> nat \<Rightarrow> cli \<Rightarrow> (int \<times> string \<times> cli) outcome" where
  "add_network b network_id len st =
     obind (wpa_cli_execute b ''add_network'' (replicate 256 NUL) st) (\<lambda>(r, buf, st).
       if r < 0 then Val (-1, network_id, st)
       else if length (cstr_of buf) \<ge> len then Undef Oob_write
       else Val (0, cstr_of buf, st))"

definition cmd256 :: "string \<Rightarrow> string" where
  "cmd256 t = fst (os_snprintf 256 t)"

definition set_ssid :: "build \<Rightarrow> string \<Rightarrow> string \<Rightarrow> cli \<Rightarrow> (int \<times> cli) outcome" where
  "set_ssid b network_id ssid st = wpa_cli_comm_exec b (cmd256 (''set_network '' @ network_id @ '' ssid '' @ ssid)) st"

text \<open>
  A password pointer is \<open>Ptr\<close> for a string, \<open>Null\<close>, or \<open>Dangling\<close> for an address that is no
  string. In the case of WPA the format has two conversions and one argument.
\<close>

definition set_password :: "build \<Rightarrow> string \<Rightarrow> int \<Rightarrow> string cptr \<Rightarrow> cli \<Rightarrow> (int \<times> cli) outcome" where
  "set_password b network_id flag password st =
     (if flag = 0 then
        obind (wpa_cli_comm_exec b (cmd256 (''set_network '' @ network_id @ '' key_mgmt NONE'')) st) (\<lambda>(r, st).
          if r \<noteq> 0 then Val (-1, st)
          else case password of
              Ptr p \<Rightarrow> wpa_cli_comm_exec b (cmd256 (''set_network '' @ network_id @ '' wep_key0 '' @ p)) st
            | Null \<Rightarrow> Undef Null_deref
            | Dangling \<Rightarrow> Undef Oob_read)
      else if flag = 1 then Undef Bad_format
      else Val (-1, st))"

definition enable_network :: "build \<Rightarrow> string \<Rightarrow> cli \<Rightarrow> (int \<times> cli) outcome" where
  "enable_network b network_id st = wpa_cli_comm_exec b (cmd256 (''enable_network '' @ network_id)) st"

definition disable_network :: "build \<Rightarrow> string \<Rightarrow> cli \<Rightarrow> (int \<times> cli) outcome" where
  "disable_network b network_id st = wpa_cli_comm_exec b (cmd256 (''disable_network '' @ network_id)) st"

definition remove_network :: "build \<Rightarrow> string \<Rightarrow> cli \<Rightarrow> (int \<times> cli) outcome" where
  "remove_network b network_id st = wpa_cli_comm_exec b (cmd256 (''remove_network '' @ network_id)) st"

text \<open>The cleanup behind the loop, for an identifier that is not empty.\<close>

definition drop_network :: "build \<Rightarrow> string \<Rightarrow> cli \<Rightarrow> (int \<times> cli) outcome" where
  "drop_network b network_id st =
     (if network_id \<noteq> []
      then obind (disable_network b network_id st) (\<lambda>(r, st).
             omap (\<lambda>(r, st). (-1, st)) (remove_network b network_id st))
      else Val (-1, st))"

definition password_ptr :: "char \<Rightarrow> string cptr" where
  "password_ptr c = (if c = NUL then Null else Dangling)"

definition connect_wifi :: "build \<Rightarrow> WifiConfig \<Rightarrow> cli \<Rightarrow> (int \<times> cli) outcome" where
  "connect_wifi b config st =
     obind (add_network b [] 16 st) (\<lambda>(r, network_id, st).
       if r \<noteq> 0 then drop_network b network_id st
       else obind (set_ssid b network_id (cfg_ssid config) st) (\<lambda>(r, st).
         if r \<noteq> 0 then drop_network b network_id st
         else obind (set_password b network_id (cfg_flag config) (password_ptr (cfg_password config)) st) (\<lambda>(r, st).
           if r \<noteq> 0 then drop_network b network_id st
           else obind (enable_network b network_id st) (\<lambda>(r, st).
             if r \<noteq> 0 then drop_network b network_id st else Val (0, st)))))"

text \<open>The operations that are declared and not implemented.\<close>

definition get_wifi_config :: "WifiConfig \<Rightarrow> int" where "get_wifi_config config = -1"
definition get_connected_wifi_list :: "WifiConfig smartlist_t option" where "get_connected_wifi_list = None"
definition disconnect_wifi :: "WifiConfig \<Rightarrow> int" where "disconnect_wifi config = -1"
definition get_wifi_status :: "WifiStatus \<Rightarrow> int" where "get_wifi_status status = -1"

section \<open>Tokens and numbers\<close>

lemma strtok_all_Nil [simp]: "strtok_all d [] = []"
  by (subst strtok_all.simps) simp

lemma strtok_all_step:
  assumes "w \<noteq> []" "d \<notin> set w" "r = [] \<or> (\<exists>t. r = d # t)"
  shows "strtok_all d (w @ r) = w # strtok_all d r"
proof -
  have "dropWhile (\<lambda>c. c = d) (w @ r) = w @ r" using assms(1,2) by (cases w) auto
  moreover have "takeWhile (\<lambda>c. c \<noteq> d) (w @ r) = w" "dropWhile (\<lambda>c. c \<noteq> d) (w @ r) = r"
    using assms(2,3) by (auto simp: takeWhile_append dropWhile_append)
  ultimately show ?thesis using assms(1) by (subst strtok_all.simps) (simp add: Let_def)
qed

lemma strtok_all_delim [simp]: "strtok_all d (d # s) = strtok_all d s"
  by (subst (1 2) strtok_all.simps) simp

lemma strtok_all_word: "w \<noteq> [] \<Longrightarrow> d \<notin> set w \<Longrightarrow> strtok_all d w = [w]"
  using strtok_all_step [of w d "[]"] by simp

lemma strtok_all_Cons: "w \<noteq> [] \<Longrightarrow> d \<notin> set w \<Longrightarrow> strtok_all d (w @ d # s) = w # strtok_all d s"
  using strtok_all_step [of w d "d # s"] by simp

lemma strtok_all_lns: "\<forall>l \<in> set ls. l \<noteq> [] \<and> NL \<notin> set l \<Longrightarrow> strtok_all NL (lns ls) = ls"
  by (induction ls) (auto simp: lns_def strtok_all_Cons)

section \<open>Lines of scan results\<close>

definition format_item :: "WifiScanItem \<Rightarrow> string" where
  "format_item i = it_bssid i @ TAB # show_int (it_frequency i) @ TAB # show_int (it_signal_level i) @ TAB # it_flags i @
     TAB # it_ssid i"

definition field_ok :: "nat \<Rightarrow> string \<Rightarrow> bool" where
  "field_ok n t \<longleftrightarrow> t \<noteq> [] \<and> length t < n \<and> TAB \<notin> set t \<and> NL \<notin> set t \<and> no_nul t"

definition item_ok :: "WifiScanItem \<Rightarrow> bool" where
  "item_ok i \<longleftrightarrow> field_ok 18 (it_bssid i) \<and> field_ok 256 (it_flags i) \<and> field_ok 256 (it_ssid i) \<and>
     length (show_int (it_frequency i)) < 256 \<and> length (show_int (it_signal_level i)) < 256"

lemma strtok_format_item:
  assumes "item_ok i"
  shows "strtok_all TAB (format_item i) =
    [it_bssid i, show_int (it_frequency i), show_int (it_signal_level i), it_flags i, it_ssid i]"
proof -
  have "TAB \<notin> set (show_int i)" for i using show_int_chars [of TAB] by auto
  with assms show ?thesis
    unfolding format_item_def item_ok_def field_ok_def by (simp add: strtok_all_Cons strtok_all_word)
qed

lemma copy_fields_eq:
  "copy_fields n ps = (if (\<exists>p \<in> set (take (5 - n) ps). 256 \<le> length p) \<or> (n \<le> 5 \<and> 5 - n < length ps) \<or> (5 < n \<and> ps \<noteq> [])
     then Undef Oob_write else Val ps)"
  by (induction n ps rule: copy_fields.induct) (auto simp: take_Cons' Suc_diff_le not_less_eq_eq)

lemma scan_item_round_trip_aux:
  assumes "item_ok i"
  shows "get_wifi_scan_item_from_line (format_item i) = Val (Some i)"
  using assms by (auto simp: get_wifi_scan_item_from_line_def strtok_format_item atoi_show_int item_ok_def field_ok_def)

lemma format_item_line: "item_ok i \<Longrightarrow> format_item i \<noteq> [] \<and> NL \<notin> set (format_item i) \<and> no_nul (format_item i)"
  using show_int_chars [of NL] show_int_chars [of NUL]
  by (auto simp: format_item_def item_ok_def field_ok_def no_nul_def)

lemma add_items_format:
  "\<forall>i \<in> set is. item_ok i \<Longrightarrow> \<exists>l'. add_items l (map format_item is) = Val l' \<and> items l' = items l @ is"
proof (induction "is" arbitrary: l)
  case (Cons i "is")
  from Cons.IH [of "smartlist_add l i"] Cons.prems show ?case by (auto simp: scan_item_round_trip_aux)
qed simp

definition scan_header :: string where
  "scan_header = ''bssid / frequency / signal level / flags / ssid''"

lemma scan_header_skipped: "get_wifi_scan_item_from_line scan_header = Val None"
proof -
  have "strtok_all TAB scan_header = [scan_header]" by (rule strtok_all_word) (simp_all add: scan_header_def)
  then show ?thesis by (simp add: get_wifi_scan_item_from_line_def scan_header_def)
qed

definition scan_text :: "WifiScanItem list \<Rightarrow> string" where
  "scan_text is = lns (scan_header # map format_item is)"

lemma scan_text_items:
  assumes "\<forall>i \<in> set is. item_ok i"
  shows "\<exists>l. add_items smartlist_new (strtok_all NL (scan_text is)) = Val l \<and> items l = is" "no_nul (scan_text is)"
    "scan_text is = [] \<or> hd (scan_text is) \<noteq> CHR ''<''"
proof -
  have "strtok_all NL (scan_text is) = scan_header # map format_item is"
    unfolding scan_text_def using assms format_item_line by (intro strtok_all_lns) (auto simp: scan_header_def)
  with add_items_format [OF assms, of smartlist_new]
  show "\<exists>l. add_items smartlist_new (strtok_all NL (scan_text is)) = Val l \<and> items l = is"
    by (auto simp: scan_header_skipped smartlist_new_def)
  show "no_nul (scan_text is)" unfolding scan_text_def using assms format_item_line by (auto simp: scan_header_def)
  show "scan_text is = [] \<or> hd (scan_text is) \<noteq> CHR ''<''" by (simp add: scan_text_def lns_def scan_header_def)
qed

section \<open>Commands with a short reply\<close>

lemma comm_exec_answered:
  assumes "g_wpa_cli_initialized st" "ctrl_conn st = Some c" "length (cmd_text name args) < 1024" "length args + 1 < kMaxArgs"
    and "\<forall>a \<in> set args. a \<noteq> [] \<and> (\<forall>x \<in> set a. \<not> is_blank x) \<and> no_nul a"
    and "(name, req, n, takes) \<in> set stored_commands" "n \<le> length args" "takes \<or> args = []"
    and "answers c (cmd_text req args) 255 pre r post st" "no_nul r"
  shows "wpa_cli_comm_exec b (cmd_text name args) st =
    Val (if strncaseeq r ''OK'' 2 then 0 else -1, after_reply c (cmd_text req args) pre post (st\<lparr>ifname_prefix := None\<rparr>))"
proof -
  have "answers c (cmd_text req args) (length (replicate 256 NUL) - 1) pre r post st" using assms(9) by simp
  from execute_answered [OF assms(1-8) this assms(10), of b] obtain buf' where
    "wpa_cli_execute b (cmd_text name args) (replicate 256 NUL) st =
       Val (0, buf', after_reply c (cmd_text req args) pre post (st\<lparr>ifname_prefix := None\<rparr>))" "cstr_of buf' = r" by auto
  then show ?thesis by (simp add: wpa_cli_comm_exec_def)
qed

section \<open>Properties\<close>


definition home :: WifiScanItem where
  "home = \<lparr>it_bssid = ''50:fa:84:00:30:4e'', it_frequency = 2462, it_signal_level = -63, it_flags = ''[WPA2-PSK-CCMP][ESS]'',
     it_ssid = ''OpenWrt''\<rparr>"

lemma home_ok: "item_ok home"
  by (simp add: item_ok_def home_def field_ok_def show_int_def show_nat.simps)

definition scan_daemon :: "(nat \<times> string) list \<Rightarrow> (nat \<times> sock_ev) list" where
  "scan_daemon reqs = [(3, Data (if reqs = [(3, ''SCAN'')] then ''OK'' else scan_text [home]))]"


text \<open>
  a line of scan results becomes an item exactly when it has five non-empty fields; a line
  with more fields, a field of 256 or more characters among the first five, or a BSSID of 18 or
  more characters is stored outside the local or allocated arrays. A network without a name, whose last
  field is empty, is dropped.
\<close>

theorem scan_line_fields:
  "get_wifi_scan_item_from_line line =
     (let ts = strtok_all TAB line
      in if length ts > 5 \<or> (\<exists>t \<in> set ts. length t \<ge> 256) \<or> (length ts = 5 \<and> length (ts ! 0) \<ge> 18) then Undef Oob_write
         else if length ts = 5
         then Val (Some \<lparr>it_bssid = ts ! 0, it_frequency = atoi (ts ! 1), it_signal_level = atoi (ts ! 2),
                         it_flags = ts ! 3, it_ssid = ts ! 4\<rparr>)
         else Val None)"
proof -
  have "copy_fields 0 ts = (if 5 < length ts \<or> (\<exists>t \<in> set ts. 256 \<le> length t) then Undef Oob_write else Val ts)" for ts
    using copy_fields_eq [of 0 ts] by (cases "length ts \<le> 5") auto
  moreover have "length ts = 5 \<Longrightarrow> ts = [ts ! 0, ts ! 1, ts ! 2, ts ! 3, ts ! 4]" for ts :: "string list"
    by (auto simp: numeral_eq_Suc length_Suc_conv)
  ultimately show ?thesis
    by (auto simp: get_wifi_scan_item_from_line_def Let_def split: list.splits)
qed


text \<open>
  C32: enabling a network and setting its SSID. For an identifier and a SSID that are single words
  the daemon receives the request with these words, and the result is 0 exactly when its
  reply starts with OK in any letter case, otherwise -1.
\<close>

theorem network_commands_correct:
  assumes "g_wpa_cli_initialized st" "ctrl_conn st = Some c" "no_nul r"
    and "\<forall>w \<in> {network_id, name}. w \<noteq> [] \<and> (\<forall>x \<in> set w. \<not> is_blank x) \<and> no_nul w"
    and "length network_id + length name < 230"
  shows "(answers c (''ENABLE_NETWORK '' @ network_id) 255 pre r post st \<longrightarrow>
      enable_network b network_id st = Val (if strncaseeq r ''OK'' 2 then 0 else -1,
        after_reply c (''ENABLE_NETWORK '' @ network_id) pre post (st\<lparr>ifname_prefix := None\<rparr>))) \<and>
    (answers c (''SET_NETWORK '' @ network_id @ '' ssid '' @ name) 255 pre r post st \<longrightarrow>
      set_ssid b network_id name st = Val (if strncaseeq r ''OK'' 2 then 0 else -1,
        after_reply c (''SET_NETWORK '' @ network_id @ '' ssid '' @ name) pre post (st\<lparr>ifname_prefix := None\<rparr>)))"
proof (intro conjI impI)
  assume a: "answers c (''ENABLE_NETWORK '' @ network_id) 255 pre r post st"
  have t: "cmd_text ''enable_network'' [network_id] = ''enable_network '' @ network_id"
    "cmd_text ''ENABLE_NETWORK'' [network_id] = ''ENABLE_NETWORK '' @ network_id" by (simp_all add: cmd_text_def)
  have c: "cmd256 (''enable_network '' @ network_id) = ''enable_network '' @ network_id"
    using assms(5) by (simp add: cmd256_def os_snprintf_def)
  show "enable_network b network_id st = Val (if strncaseeq r ''OK'' 2 then 0 else -1,
        after_reply c (''ENABLE_NETWORK '' @ network_id) pre post (st\<lparr>ifname_prefix := None\<rparr>))"
    unfolding enable_network_def c unfolding t [symmetric]
    by (rule comm_exec_answered [OF assms(1,2) _ _ _ _ _ _ _ assms(3), where n = 1 and takes = True])
      (use a assms(4,5) in \<open>simp_all add: stored_commands_def kMaxArgs_def t\<close>)
next
  assume a: "answers c (''SET_NETWORK '' @ network_id @ '' ssid '' @ name) 255 pre r post st"
  have t: "cmd_text ''set_network'' [network_id, ''ssid'', name] = ''set_network '' @ network_id @ '' ssid '' @ name"
    "cmd_text ''SET_NETWORK'' [network_id, ''ssid'', name] = ''SET_NETWORK '' @ network_id @ '' ssid '' @ name"
    by (simp_all add: cmd_text_def)
  have c: "cmd256 (''set_network '' @ network_id @ '' ssid '' @ name) = ''set_network '' @ network_id @ '' ssid '' @ name"
    using assms(5) by (simp add: cmd256_def os_snprintf_def)
  show "set_ssid b network_id name st = Val (if strncaseeq r ''OK'' 2 then 0 else -1,
        after_reply c (''SET_NETWORK '' @ network_id @ '' ssid '' @ name) pre post (st\<lparr>ifname_prefix := None\<rparr>))"
    unfolding set_ssid_def c unfolding t [symmetric]
    by (rule comm_exec_answered [OF assms(1,2) _ _ _ _ _ _ _ assms(3), where n = 3 and takes = True])
      (use a assms(4,5) in \<open>simp_all add: stored_commands_def kMaxArgs_def t is_blank_def\<close>)
qed

theorem network_commands_correct_witness:
  "\<exists>st'. enable_network default_build ''0'' (demo_connected (\<lambda>_. [(3, Data ''ok'')])) = Val (0, st')"
proof -
  let ?p = "\<lambda>_. [(3 :: nat, Data ''ok'')]"
  have "answers demo_ctrl (''ENABLE_NETWORK '' @ ''0'') 255 [] ''ok'' [] (demo_connected ?p)"
    by (simp add: answers_def arrivals_def deliver_def demo_connected_def demo_cli_def demo_ctrl_def)
  moreover have "strncaseeq ''ok'' ''OK'' 2" by code_simp
  ultimately show ?thesis
    using network_commands_correct [OF demo_connected_fields, of "''ok''" "''0''" "''x''" "[]" "[]" ?p default_build]
    by (auto simp: is_blank_def)
qed

end
