(* ===== verification/Cli_Events.thy ===== *)
theory Cli_Events
  imports Wrapper_Api
begin

text \<open>
  Unsolicited messages of the daemon in \<^verbatim>\<open>libwpa_cli_wrapper.c\<close>: the lists kept from events, the action
  script run for changes of the connection, reception of queued messages, the periodic check of the
  connection and the first connection of the interactive mode. The event loop is seen through the
  timers and sockets registered with it; the line editor through the success of its
  initialisation, the parameter \<open>edit_init\<close>.
\<close>

definition WPA_EVENT_CONNECTED :: string where "WPA_EVENT_CONNECTED = ''CTRL-EVENT-CONNECTED ''"
definition WPA_EVENT_DISCONNECTED :: string where "WPA_EVENT_DISCONNECTED = ''CTRL-EVENT-DISCONNECTED ''"
definition WPA_EVENT_TERMINATING :: string where "WPA_EVENT_TERMINATING = ''CTRL-EVENT-TERMINATING ''"

section \<open>The action script\<close>

text \<open>\<^verbatim>\<open>os_exec\<close> is recorded with the program and its argument text.\<close>

definition wpa_cli_exec :: "string \<Rightarrow> string cptr \<Rightarrow> string \<Rightarrow> cli \<Rightarrow> cli outcome" where
  "wpa_cli_exec program arg1 arg2 st =
     (case arg1 of
        Dangling \<Rightarrow> Undef Use_after_free
      | _ \<Rightarrow>
          let a = (case arg1 of Ptr n \<Rightarrow> n | _ \<Rightarrow> ''global'')
          in Val (st\<lparr>exec_log := exec_log st @ [(program, a @ '' '' @ arg2)]\<rparr>))"

definition setenv :: "string \<Rightarrow> string \<Rightarrow> cli \<Rightarrow> cli" where
  "setenv k v st = st\<lparr>env := (k, v) # filter (\<lambda>(x, _). x \<noteq> k) (env st)\<rparr>"

definition unsetenv :: "string \<Rightarrow> cli \<Rightarrow> cli" where
  "unsetenv k st = st\<lparr>env := filter (\<lambda>(x, _). x \<noteq> k) (env st)\<rparr>"

text \<open>Events handed to the script with the interface of the library, and those with the interface of the message.\<close>

definition own_events :: "string list" where
  "own_events = [''AP-ENABLED '', ''AP-DISABLED '', ''MESH-GROUP-STARTED '', ''MESH-GROUP-REMOVED '', ''MESH-PEER-CONNECTED '',
     ''MESH-PEER-DISCONNECTED '']"

definition if_events :: "string list" where
  "if_events = [''P2P-GROUP-STARTED '', ''P2P-GROUP-REMOVED '', ''P2P-CROSS-CONNECT-ENABLE '', ''P2P-CROSS-CONNECT-DISABLE '',
     ''P2P-GO-NEG-FAILURE '', ''WPS-SUCCESS '', ''WPS-FAIL '', ''AP-STA-CONNECTED '', ''AP-STA-DISCONNECTED '',
     ''ESS-DISASSOC-IMMINENT '', ''HS20-SUBSCRIPTION-REMEDIATION '', ''HS20-DEAUTH-IMMINENT-NOTICE '']"

text \<open>The interface prefix of a message; a name that does not fit the local buffer is left in place.\<close>

definition msg_ifname :: "string \<Rightarrow> string cptr \<Rightarrow> string cptr \<times> string" where
  "msg_ifname msg own =
     (if str_starts msg ''IFNAME='' then
        case os_strchr (drop 7 msg) (CHR '' '') of
          None \<Rightarrow> (own, msg)
        | Some e \<Rightarrow>
            let name = takeWhile (\<lambda>c. c \<noteq> CHR '' '') (drop 7 msg)
            in if 7 + length name < 100 then (Ptr name, tl e) else (own, msg)
      else (own, msg))"

definition skip_priority :: "string \<Rightarrow> string" where
  "skip_priority pos =
     (if at0 pos = CHR ''<'' then (case os_strchr pos (CHR ''>'') of None \<Rightarrow> pos | Some r \<Rightarrow> tl r) else pos)"

text \<open>
  The network identifier and its name in \<^verbatim>\<open>[id=0 id_str=home]\<close>. When no space follows the identifier the
  scan for the name starts behind the terminator of the copy.
\<close>

definition parse_ids :: "string \<Rightarrow> (string \<times> string) outcome" where
  "parse_ids copy =
     (case os_strchr copy (CHR '' '') of
        None \<Rightarrow> Undef Oob_read
      | Some r \<Rightarrow>
          let id = takeWhile (\<lambda>c. c \<noteq> CHR '' '') copy;
              pos2 = dropWhile (\<lambda>c. c \<noteq> CHR ''='') (tl r);
              pos2 = (if at0 pos2 = CHR ''='' then tl pos2 else pos2)
          in Val (id, takeWhile (\<lambda>c. c \<noteq> CHR '']'') pos2))"

text \<open>The environment of the script: the identifier of the network, its name and the control directory.\<close>

definition connected_env :: "string \<Rightarrow> cli \<Rightarrow> (int \<times> cli) outcome" where
  "connected_env pos st =
     (let st = unsetenv ''WPA_CTRL_DIR'' (unsetenv ''WPA_ID_STR'' (unsetenv ''WPA_ID'' st))
      in case os_strstr pos ''[id='' of
           None \<Rightarrow> Val (-1, setenv ''WPA_CTRL_DIR'' (ctrl_iface_dir st) st)
         | Some p \<Rightarrow>
             omap (\<lambda>(id, id_str).
               (atoi id,
                setenv ''WPA_CTRL_DIR'' (ctrl_iface_dir st) (setenv ''WPA_ID_STR'' id_str (setenv ''WPA_ID'' id st))))
               (parse_ids (drop 4 p)))"

definition report_connected :: "int \<Rightarrow> string cptr \<Rightarrow> cli \<Rightarrow> cli outcome" where
  "report_connected new_id ifname st =
     (if wpa_cli_connected st \<le> 0 \<or> new_id \<noteq> wpa_cli_last_id st
      then wpa_cli_exec (action_file st) ifname ''CONNECTED'' (st\<lparr>wpa_cli_connected := 1, wpa_cli_last_id := new_id\<rparr>)
      else Val st)"

definition on_connected :: "string \<Rightarrow> string cptr \<Rightarrow> cli \<Rightarrow> cli outcome" where
  "on_connected pos ifname st = obind (connected_env pos st) (\<lambda>(new_id, st). report_connected new_id ifname st)"

definition wpa_cli_action_process :: "string \<Rightarrow> cli \<Rightarrow> cli outcome" where
  "wpa_cli_action_process msg st =
     (if eloop_terminated st then Val st
      else
        let (ifname, pos) = msg_ifname msg (ctrl_ifname st); pos = skip_priority pos
        in if str_starts pos WPA_EVENT_CONNECTED then on_connected pos ifname st
           else if str_starts pos WPA_EVENT_DISCONNECTED then
             (if wpa_cli_connected st \<noteq> 0
              then wpa_cli_exec (action_file st) ifname ''DISCONNECTED'' (st\<lparr>wpa_cli_connected := 0\<rparr>)
              else Val st)
           else if list_ex (str_starts pos) own_events then wpa_cli_exec (action_file st) (ctrl_ifname st) pos st
           else if list_ex (str_starts pos) if_events then wpa_cli_exec (action_file st) ifname pos st
           else if str_starts pos WPA_EVENT_TERMINATING
           then Val ((printf (lns [''wpa_supplicant is terminating - stop monitoring'']) st)\<lparr>wpa_cli_quit := True\<rparr>)
           else Val st)"

section \<open>Lists kept from events\<close>

definition second_arg :: "string \<Rightarrow> string option" where
  "second_arg start =
     (case os_strchr start (CHR '' '') of
        None \<Rightarrow> None
      | Some s \<Rightarrow> map_option tl (os_strchr (tl s) (CHR '' '')))"

definition cli_event :: "build \<Rightarrow> string \<Rightarrow> cli \<Rightarrow> cli" where
  "cli_event b str st =
     (case os_strchr str (CHR ''>'') of
        None \<Rightarrow> st
      | Some g \<Rightarrow>
          let start = tl g
          in if str_starts start WPA_EVENT_BSS_ADDED then
               (case second_arg start of None \<Rightarrow> st | Some s \<Rightarrow> st\<lparr>bsses := snd (cli_txt_list_add (bsses st) s)\<rparr>)
             else if str_starts start WPA_EVENT_BSS_REMOVED then
               (case second_arg start of None \<Rightarrow> st | Some s \<Rightarrow> st\<lparr>bsses := cli_txt_list_del_addr (bsses st) s\<rparr>)
             else if CONFIG_P2P \<notin> set b then st
             else if str_starts start ''P2P-DEVICE-FOUND '' then
               (case os_strstr start '' p2p_dev_addr='' of None \<Rightarrow> st
                | Some s \<Rightarrow> st\<lparr>p2p_peers := snd (cli_txt_list_add_addr (p2p_peers st) (drop 14 s))\<rparr>)
             else if str_starts start ''P2P-DEVICE-LOST '' then
               (case os_strstr start '' p2p_dev_addr='' of None \<Rightarrow> st
                | Some s \<Rightarrow> st\<lparr>p2p_peers := cli_txt_list_del_addr (p2p_peers st) (drop 14 s)\<rparr>)
             else if str_starts start ''P2P-GROUP-STARTED '' then
               (case os_strchr start (CHR '' '') of None \<Rightarrow> st
                | Some s \<Rightarrow> st\<lparr>p2p_groups := snd (cli_txt_list_add_word (p2p_groups st) (tl s) (CHR '' ''))\<rparr>)
             else if str_starts start ''P2P-GROUP-REMOVED '' then
               (case os_strchr start (CHR '' '') of None \<Rightarrow> st
                | Some s \<Rightarrow> st\<lparr>p2p_groups := cli_txt_list_del_word (p2p_groups st) (tl s) (CHR '' '')\<rparr>)
             else st)"

section \<open>Losing and regaining the connection\<close>

definition ptr_text :: "string cptr \<Rightarrow> string option outcome" where
  "ptr_text p = (case p of Null \<Rightarrow> Val None | Ptr n \<Rightarrow> Val (Some n) | Dangling \<Rightarrow> Undef Use_after_free)"

definition wpa_cli_reconnect :: "cli \<Rightarrow> cli outcome" where
  "wpa_cli_reconnect st =
     obind (wpa_cli_close_connection st) (\<lambda>st.
     obind (ptr_text (ctrl_ifname st)) (\<lambda>ifname.
     omap (\<lambda>(r, st). if r < 0 then st
                     else if interactive st
                     then printf (CHR 0x0D # lns [''Connection to wpa_supplicant re-established'']) st else st)
       (wpa_cli_open_connection ifname True st)))"

definition check_terminating :: "string \<Rightarrow> cli \<Rightarrow> (bool \<times> cli) outcome" where
  "check_terminating msg st =
     (if str_starts (skip_priority msg) WPA_EVENT_TERMINATING \<and> ctrl_conn st \<noteq> None
      then omap (\<lambda>st. (True, st))
        (wpa_cli_close_connection
          ((printf (CHR 0x0D # lns [''Connection to wpa_supplicant lost - trying to reconnect'']) st)\<lparr>wpa_cli_attached := False\<rparr>))
      else Val (False, st))"

definition monitor_msg :: "build \<Rightarrow> string \<Rightarrow> cli \<Rightarrow> cli" where
  "monitor_msg b buf st =
     (let st = cli_event b buf st in if wpa_cli_show_event buf then printf (CHR 0x0D # lns [buf]) st else st)"

text \<open>
  The loop over the queued messages; the fuel is the number of queued events and one more. The second
  call of \<^verbatim>\<open>wpa_ctrl_pending\<close> never reports an error.
\<close>

fun recv_pending_loop :: "nat \<Rightarrow> build \<Rightarrow> wpa_ctrl \<Rightarrow> bool \<Rightarrow> cli \<Rightarrow> cli outcome" where
  "recv_pending_loop 0 b ctrl action_monitor st = Loops"
| "recv_pending_loop (Suc n) b ctrl action_monitor st =
     (case wpa_ctrl_pending ctrl st of
        (False, st) \<Rightarrow> Val (snd (wpa_ctrl_pending ctrl st))
      | (True, st) \<Rightarrow>
          (case wpa_ctrl_recv ctrl (replicate 4095 NUL) st of
             ((ret, reply, len), st) \<Rightarrow>
               if ret \<noteq> 0
               then Val (snd (wpa_ctrl_pending ctrl (printf (lns [''Could not read pending message.'']) st)))
               else
                 let buf = cstr_of (take len reply)
                 in if action_monitor
                    then obind (wpa_cli_action_process buf st) (\<lambda>st. recv_pending_loop n b ctrl action_monitor st)
                    else
                      let st = monitor_msg b buf st
                      in if interactive st
                         then obind (check_terminating buf st) (\<lambda>(t, st).
                                if t then Val st else recv_pending_loop n b ctrl action_monitor st)
                         else recv_pending_loop n b ctrl action_monitor st))"

definition wpa_cli_recv_pending :: "build \<Rightarrow> wpa_ctrl option \<Rightarrow> bool \<Rightarrow> cli \<Rightarrow> cli outcome" where
  "wpa_cli_recv_pending b ctrl action_monitor st =
     (if ctrl_conn st = None then wpa_cli_reconnect st
      else case ctrl of
          None \<Rightarrow> Undef Null_deref
        | Some c \<Rightarrow> recv_pending_loop (length (inbox st (sock c)) + 1) b c action_monitor st)"

section \<open>Timers and callbacks\<close>

definition add_timer :: "timer \<Rightarrow> cli \<Rightarrow> cli" where
  "add_timer t st = st\<lparr>eloop_timeouts := eloop_timeouts st @ [t]\<rparr>"

definition stop_loop :: "cli \<Rightarrow> cli" where
  "stop_loop st = st\<lparr>eloop_terminated := True\<rparr>"

definition wpa_cli_ping :: "cli \<Rightarrow> cli outcome" where
  "wpa_cli_ping st =
     obind
       (case ctrl_conn st of
          None \<Rightarrow> Val st
        | Some c \<Rightarrow>
            obind (wpa_ctrl_command_gen (Some c) ''PING'' False (st\<lparr>ifname_prefix := None\<rparr>)) (\<lambda>(res, st').
              let st' = st'\<lparr>ifname_prefix := ifname_prefix st\<rparr>
              in if res \<noteq> 0
                 then wpa_cli_close_connection (printf (lns [''Connection to wpa_supplicant lost - trying to reconnect'']) st')
                 else Val st'))
       (\<lambda>st. omap (add_timer Ping_timer) (if ctrl_conn st = None then wpa_cli_reconnect st else Val st))"

definition wpa_cli_mon_receive :: "build \<Rightarrow> cli \<Rightarrow> cli outcome" where
  "wpa_cli_mon_receive b st = wpa_cli_recv_pending b (mon_conn st) False st"

definition wpa_cli_edit_cmd_cb :: "build \<Rightarrow> string \<Rightarrow> cli \<Rightarrow> cli outcome" where
  "wpa_cli_edit_cmd_cb b cmd st =
     (let argv = tokenize_cmd cmd in if argv \<noteq> [] then omap snd (wpa_request b (ctrl_conn st) argv st) else Val st)"

definition wpa_cli_edit_eof_cb :: "cli \<Rightarrow> cli" where
  "wpa_cli_edit_eof_cb st = stop_loop st"

definition history_file :: "cli \<Rightarrow> string option" where
  "history_file st = map_option (\<lambda>home. home @ ''/.wpa_cli_history'') (map_of (env st) ''HOME'')"

definition start_edit :: "(string option \<Rightarrow> bool) \<Rightarrow> cli \<Rightarrow> cli" where
  "start_edit edit_init st =
     (if \<not> edit_init (history_file st) then stop_loop st
      else add_timer Ping_timer (st\<lparr>edit_started := True\<rparr>))"

definition try_connection :: "(string option \<Rightarrow> bool) \<Rightarrow> cli \<Rightarrow> cli outcome" where
  "try_connection edit_init st =
     (if ctrl_conn st \<noteq> None then Val (start_edit edit_init st)
      else
        let st = default_if_unset st
        in obind (ptr_text (ctrl_ifname st)) (\<lambda>ifname.
           obind (wpa_cli_open_connection ifname True st) (\<lambda>(r, st).
             if r \<noteq> 0 then
               Val (add_timer Try_connection
                 (if warning_displayed st then st
                  else (printf (lns [''Could not connect to wpa_supplicant: '' @
                          (case ifname of Some n \<Rightarrow> n | None \<Rightarrow> ''(nil)'') @ '' - re-trying'']) st)\<lparr>warning_displayed := True\<rparr>))
             else
               obind (update_bssid_list (ctrl_conn st) st) (\<lambda>st.
               obind (update_networks (ctrl_conn st) st) (\<lambda>st.
                 Val (start_edit edit_init
                   (if warning_displayed st then printf (lns [''Connection established.'']) st else st)))))))"

definition wpa_cli_action_cb :: "string \<Rightarrow> cli \<Rightarrow> cli outcome" where
  "wpa_cli_action_cb msg st = wpa_cli_action_process msg st"

definition wpa_cli_action_receive :: "build \<Rightarrow> wpa_ctrl option \<Rightarrow> cli \<Rightarrow> cli outcome" where
  "wpa_cli_action_receive b ctrl st = wpa_cli_recv_pending b ctrl True st"

definition wpa_cli_terminate :: "cli \<Rightarrow> cli" where
  "wpa_cli_terminate st = stop_loop st"

section \<open>Reception takes every queued message\<close>

lemma exec_inbox: "wpa_cli_exec prog a t st = Val st' \<Longrightarrow> inbox st' = inbox st"
  by (auto simp: wpa_cli_exec_def split: cptr.splits)

lemma setenv_simps [simp]:
  "inbox (setenv k v st) = inbox st" "inbox (unsetenv k st) = inbox st" "inbox (printf t st) = inbox st"
  by (simp_all add: setenv_def unsetenv_def printf_def)

lemma env_state: "setenv k v (st\<lparr>env := e\<rparr>) = st\<lparr>env := (k, v) # filter (\<lambda>(x, _). x \<noteq> k) e\<rparr>"
  "unsetenv k (st\<lparr>env := e\<rparr>) = st\<lparr>env := filter (\<lambda>(x, _). x \<noteq> k) e\<rparr>"
  by (simp_all add: setenv_def unsetenv_def)

lemma connected_env_Val:
  assumes "connected_env pos st = Val (new_id, st')"
  obtains e where "st' = st\<lparr>env := e\<rparr>"
proof -
  have u: "unsetenv ''WPA_ID'' st = st\<lparr>env := filter (\<lambda>(x, _). x \<noteq> ''WPA_ID'') (env st)\<rparr>" by (simp add: unsetenv_def)
  show thesis
  proof (cases "os_strstr pos ''[id=''")
    case None
    then show thesis using assms that unfolding connected_env_def Let_def None option.case u env_state by blast
  next
    case (Some p)
    show thesis
    proof (cases "parse_ids (drop 4 p)")
      case (Val ids)
      obtain i n where "ids = (i, n)" by (cases ids)
      with assms Val that show thesis
        unfolding connected_env_def Let_def Some option.case u env_state by auto
    qed (use assms Some in \<open>simp_all add: connected_env_def\<close>)
  qed
qed

lemma report_connected_inbox: "report_connected new_id ifname st = Val st' \<Longrightarrow> inbox st' = inbox st"
  by (auto simp: report_connected_def dest!: exec_inbox split: if_split_asm)

lemma on_connected_inbox:
  assumes "on_connected pos ifname st = Val st'"
  shows "inbox st' = inbox st"
proof -
  from assms obtain new_id st1 where s: "connected_env pos st = Val (new_id, st1)" "report_connected new_id ifname st1 = Val st'"
    by (auto simp: on_connected_def outcome_simps)
  from s(1) obtain e where "st1 = st\<lparr>env := e\<rparr>" by (rule connected_env_Val)
  with report_connected_inbox [OF s(2)] show ?thesis by simp
qed

lemma action_process_inbox:
  assumes "wpa_cli_action_process msg st = Val st'"
  shows "inbox st' = inbox st"
proof -
  obtain ifname pos where m: "msg_ifname msg (ctrl_ifname st) = (ifname, pos)" by fastforce
  show ?thesis
    using assms unfolding wpa_cli_action_process_def m Let_def prod.case
    by (simp split: if_split_asm) (auto dest!: exec_inbox on_connected_inbox)
qed

lemma cli_event_inbox [simp]: "inbox (cli_event b msg st) = inbox st"
  by (auto simp: cli_event_def Let_def split: option.splits)

lemma monitor_msg_inbox [simp]: "inbox (monitor_msg b msg st) = inbox st"
  by (simp add: monitor_msg_def Let_def)

lemma not_terminating_inbox: "check_terminating msg st = Val (False, st') \<Longrightarrow> st' = st"
  by (auto simp: check_terminating_def outcome_simps split: if_splits)

lemma close_connection_loop_free: "wpa_cli_close_connection st \<noteq> Loops"
  by (auto simp: wpa_cli_close_connection_def Let_def split: option.splits)

lemma obind_Loops: "obind m f = Loops \<longleftrightarrow> m = Loops \<or> (\<exists>x. m = Val x \<and> f x = Loops)"
  by (cases m) auto

lemma omap_Loops: "omap f m = Loops \<longleftrightarrow> m = Loops"
  by (cases m) auto

lemma exec_loop_free: "wpa_cli_exec prog a t st \<noteq> Loops"
  by (cases a) (simp_all add: wpa_cli_exec_def Let_def)

lemma parse_ids_loop_free: "parse_ids t \<noteq> Loops"
  by (simp add: parse_ids_def Let_def split: option.splits)

lemma connected_env_loop_free: "connected_env pos st \<noteq> Loops"
  by (simp add: connected_env_def Let_def omap_Loops parse_ids_loop_free split: option.splits)

lemma on_connected_loop_free: "on_connected pos ifname st \<noteq> Loops"
  by (auto simp: on_connected_def obind_Loops connected_env_loop_free report_connected_def exec_loop_free)

lemma action_process_loop_free: "wpa_cli_action_process msg st \<noteq> Loops"
proof -
  obtain ifname pos where m: "msg_ifname msg (ctrl_ifname st) = (ifname, pos)" by fastforce
  show ?thesis
    unfolding wpa_cli_action_process_def m Let_def prod.case by (simp add: exec_loop_free on_connected_loop_free)
qed

lemma check_terminating_loop_free: "check_terminating msg st \<noteq> Loops"
  by (simp add: check_terminating_def omap_Loops close_connection_loop_free)

lemma pending_recv_consumes:
  assumes "wpa_ctrl_pending c st = (True, st1)" "wpa_ctrl_recv c reply st1 = ((0, r, len), st2)"
  shows "length (inbox st2 (sock c)) < length (inbox st (sock c))"
  using assms by (auto simp: wpa_ctrl_pending_def wpa_ctrl_recv_def split: list.splits sock_ev.splits)

lemma recv_pending_loop_free: "length (inbox st (sock c)) < n \<Longrightarrow> recv_pending_loop n b c action_monitor st \<noteq> Loops"
proof (induction n arbitrary: st)
  case (Suc n)
  obtain p st1 where p: "wpa_ctrl_pending c st = (p, st1)" by fastforce
  obtain ret reply len st2 where r: "wpa_ctrl_recv c (replicate 4095 NUL) st1 = ((ret, reply, len), st2)"
    by (cases "wpa_ctrl_recv c (replicate 4095 NUL) st1") (metis prod.exhaust)
  show ?case
  proof (cases "p \<and> ret = 0")
    case True
    then have shorter: "length (inbox st2 (sock c)) < n" using pending_recv_consumes p r Suc.prems by fastforce
    let ?m = "cstr_of (take len reply)"
    let ?st = "monitor_msg b ?m st2"
    have m: "recv_pending_loop n b c action_monitor ?st \<noteq> Loops" using Suc.IH [of ?st] shorter by simp
    have a: "obind (wpa_cli_action_process ?m st2) (\<lambda>st. recv_pending_loop n b c action_monitor st) \<noteq> Loops"
      using Suc.IH shorter by (auto simp: obind_Loops action_process_loop_free dest!: action_process_inbox)
    have t: "obind (check_terminating ?m ?st) (\<lambda>(t, st). if t then Val st else recv_pending_loop n b c action_monitor st) \<noteq> Loops"
      using m by (auto simp: obind_Loops check_terminating_loop_free dest!: not_terminating_inbox split: if_split_asm)
    show ?thesis
    proof (cases action_monitor)
      case True
      with \<open>p \<and> ret = 0\<close> p r a show ?thesis by simp
    next
      case False
      then have "action_monitor = False" by simp
      with \<open>p \<and> ret = 0\<close> p r t m show ?thesis by (hypsubst) (simp add: Let_def)
    qed
  qed (use p r in \<open>cases p; simp\<close>)
qed simp

lemma ctrl_open_loop_free: "wpa_cli_open_connection ifname attach st \<noteq> Loops"
  by (auto simp: wpa_cli_open_connection_def omap_Loops close_connection_loop_free Let_def split: option.splits prod.splits)

lemma reconnect_loop_free: "wpa_cli_reconnect st \<noteq> Loops"
  by (auto simp: wpa_cli_reconnect_def obind_Loops omap_Loops close_connection_loop_free ctrl_open_loop_free ptr_text_def
      split: cptr.splits)

section \<open>Queued messages are handled in order\<close>

fun process_queue :: "(string \<Rightarrow> cli \<Rightarrow> cli outcome) \<Rightarrow> nat \<Rightarrow> string list \<Rightarrow> cli \<Rightarrow> cli outcome" where
  "process_queue f fd [] st = Val st"
| "process_queue f fd (m # ms) st = obind (f m (st\<lparr>inbox := (inbox st)(fd := map Data ms)\<rparr>)) (process_queue f fd ms)"

definition queueable :: "string \<Rightarrow> bool" where
  "queueable m \<longleftrightarrow> no_nul m \<and> length m \<le> 4095"

lemma recv_queued:
  assumes "inbox st (sock c) = map Data (m # ms)" "queueable m"
  shows "\<exists>reply len. wpa_ctrl_pending c st = (True, st) \<and>
    wpa_ctrl_recv c (replicate 4095 NUL) st = ((0, reply, len), st\<lparr>inbox := (inbox st)(sock c := map Data ms)\<rparr>) \<and>
    cstr_of (take len reply) = m"
  using assms by (auto simp: wpa_ctrl_pending_def wpa_ctrl_recv_def queueable_def memwrite_def)

lemma action_queue:
  assumes "inbox st (sock c) = map Data ms" "\<forall>m \<in> set ms. queueable m" "length ms < n"
  shows "recv_pending_loop n b c True st = process_queue wpa_cli_action_process (sock c) ms st"
  using assms
proof (induction ms arbitrary: n st)
  case Nil
  then obtain k where "n = Suc k" by (cases n) auto
  with Nil show ?case by (simp add: wpa_ctrl_pending_def)
next
  case (Cons m ms)
  then obtain k where n: "n = Suc k" by (cases n) auto
  let ?st = "st\<lparr>inbox := (inbox st)(sock c := map Data ms)\<rparr>"
  obtain reply len where r: "wpa_ctrl_pending c st = (True, st)"
    "wpa_ctrl_recv c (replicate 4095 NUL) st = ((0, reply, len), ?st)" "cstr_of (take len reply) = m"
    using recv_queued [of st c m ms] Cons.prems by auto
  have "recv_pending_loop k b c True st' = process_queue wpa_cli_action_process (sock c) ms st'"
    if "wpa_cli_action_process m ?st = Val st'" for st'
    using Cons.IH [of st' k] Cons.prems n action_process_inbox [OF that] by simp
  then show ?case using r by (cases "wpa_cli_action_process m ?st") (simp_all add: n Let_def)
qed

lemma process_queue_empties:
  assumes "process_queue f fd ms st = Val st'" "inbox st fd = map Data ms"
    and "\<And>m st st'. f m st = Val st' \<Longrightarrow> inbox st' = inbox st"
  shows "inbox st' fd = []"
  using assms(1,2) by (induction ms arbitrary: st) (auto simp: outcome_simps dest!: assms(3))

section \<open>The script follows the state of the link\<close>

text \<open>
  Specification of the calls of the script: the state of the link as far as the daemon reported it; a
  report calls the script exactly when it changes the state.
\<close>

datatype link = Unknown | Down | Up int

definition link_of :: "cli \<Rightarrow> link" where
  "link_of st = (if wpa_cli_connected st < 0 then Unknown else if wpa_cli_connected st = 0 then Down else Up (wpa_cli_last_id st))"

lemma link_of_simps [simp]:
  "link_of (st\<lparr>env := e\<rparr>) = link_of st"
  "link_of (st\<lparr>env := e, wpa_cli_connected := 1, wpa_cli_last_id := nid, exec_log := l\<rparr>) = Up nid"
  "link_of (st\<lparr>wpa_cli_connected := 0, exec_log := l\<rparr>) = Down" "link_of st = Down \<longleftrightarrow> wpa_cli_connected st = 0"
  "Down = link_of st \<longleftrightarrow> wpa_cli_connected st = 0"
  by (auto simp: link_of_def)

definition link_calls :: "link \<Rightarrow> link \<Rightarrow> string list" where
  "link_calls old new =
     (if new = old then [] else [case new of Up _ \<Rightarrow> ''CONNECTED'' | _ \<Rightarrow> ''DISCONNECTED''])"

fun link_run :: "link \<Rightarrow> link list \<Rightarrow> string list" where
  "link_run l [] = []"
| "link_run l (n # ns) = link_calls l n @ link_run n ns"

text \<open>The messages of the daemon: \<open>info\<close> is the text between the event and the identifier, \<open>name\<close> the configured name.\<close>

datatype link_event = Connected string int string | Disconnected string

fun link_msg :: "link_event \<Rightarrow> string" where
  "link_msg (Connected info nid name) =
     ''<3>'' @ WPA_EVENT_CONNECTED @ info @ ''[id='' @ show_int nid @ '' id_str='' @ name @ '']''"
| "link_msg (Disconnected info) = ''<3>'' @ WPA_EVENT_DISCONNECTED @ info"

fun link_target :: "link_event \<Rightarrow> link" where
  "link_target (Connected info nid name) = Up nid"
| "link_target (Disconnected info) = Down"

fun link_event_ok :: "link_event \<Rightarrow> bool" where
  "link_event_ok (Connected info nid name) \<longleftrightarrow> CHR ''['' \<notin> set info \<and> CHR '']'' \<notin> set name"
| "link_event_ok (Disconnected info) \<longleftrightarrow> True"

lemma strstr_after: "c \<notin> set p \<Longrightarrow> os_strstr (p @ c # r) (c # pat) = (if is_prefix pat r then Some (c # r) else os_strstr r (c # pat))"
  by (induction p) auto

lemma show_int_no_space: "CHR '' '' \<notin> set (show_int i)"
proof
  assume "CHR '' '' \<in> set (show_int i)"
  then obtain n where "CHR '' '' \<in> set (show_nat n)" by (auto simp: show_int_def split: if_split_asm)
  with show_nat_digits [of "CHR '' ''" n] show False by (simp add: c_isdigit_def)
qed

lemma takeWhile_until: "c \<notin> set p \<Longrightarrow> takeWhile (\<lambda>x. x \<noteq> c) (p @ c # r) = p"
  by (induction p) auto

lemma parse_ids_msg: "CHR '']'' \<notin> set name \<Longrightarrow> parse_ids (show_int i @ '' id_str='' @ name @ '']'') = Val (show_int i, name)"
  by (simp add: parse_ids_def show_int_no_space takeWhile_until at0_def)

definition link_env :: "string \<Rightarrow> string \<Rightarrow> string \<Rightarrow> cli \<Rightarrow> bool" where
  "link_env nid name dir st \<longleftrightarrow> map_of (env st) ''WPA_ID'' = Some nid \<and> map_of (env st) ''WPA_ID_STR'' = Some name \<and>
     map_of (env st) ''WPA_CTRL_DIR'' = Some dir"

lemma connected_env_msg:
  assumes "CHR ''['' \<notin> set info" "CHR '']'' \<notin> set name"
  shows "\<exists>e. connected_env (WPA_EVENT_CONNECTED @ info @ ''[id='' @ show_int i @ '' id_str='' @ name @ '']'') st = Val (i, st\<lparr>env := e\<rparr>) \<and>
    link_env (show_int i) name (ctrl_iface_dir st) (st\<lparr>env := e\<rparr>)"
proof -
  let ?s = "setenv ''WPA_CTRL_DIR'' (ctrl_iface_dir st) (setenv ''WPA_ID_STR'' name (setenv ''WPA_ID'' (show_int i)
    (unsetenv ''WPA_CTRL_DIR'' (unsetenv ''WPA_ID_STR'' (unsetenv ''WPA_ID'' st)))))"
  have "CHR ''['' \<notin> set (WPA_EVENT_CONNECTED @ info)" using assms(1) by (simp add: WPA_EVENT_CONNECTED_def)
  from strstr_after [OF this, of "''id='' @ show_int i @ '' id_str='' @ name @ '']''" "''id=''"]
  have f: "os_strstr (WPA_EVENT_CONNECTED @ info @ ''[id='' @ show_int i @ '' id_str='' @ name @ '']'') ''[id='' =
      Some (''[id='' @ show_int i @ '' id_str='' @ name @ '']'')"
    by simp
  have "parse_ids (drop 4 (''[id='' @ show_int i @ '' id_str='' @ name @ '']'')) = Val (show_int i, name)"
    using parse_ids_msg [OF assms(2)] by simp
  then have c: "connected_env (WPA_EVENT_CONNECTED @ info @ ''[id='' @ show_int i @ '' id_str='' @ name @ '']'') st = Val (i, ?s)"
    unfolding connected_env_def f Let_def option.case by (simp add: atoi_show_int) (simp add: unsetenv_def)
  moreover have "link_env (show_int i) name (ctrl_iface_dir st) ?s" by (simp add: link_env_def setenv_def)
  moreover have "?s = st\<lparr>env := env ?s\<rparr>" by (simp add: setenv_def unsetenv_def)
  ultimately show ?thesis by metis
qed

definition script_call :: "cli \<Rightarrow> string \<Rightarrow> string \<times> string" where
  "script_call st t = (action_file st, (case ctrl_ifname st of Ptr n \<Rightarrow> n | _ \<Rightarrow> ''global'') @ '' '' @ t)"

lemma exec_own:
  "ctrl_ifname st \<noteq> Dangling \<Longrightarrow> wpa_cli_exec (action_file st) (ctrl_ifname st) t st' =
     Val (st'\<lparr>exec_log := exec_log st' @ [script_call st t]\<rparr>)"
  by (cases "ctrl_ifname st") (simp_all add: wpa_cli_exec_def script_call_def)

lemma plain_pos: "msg_ifname (''<3>'' @ pos) own = (own, ''<3>'' @ pos)" "skip_priority (''<3>'' @ pos) = pos"
  by (simp_all add: msg_ifname_def skip_priority_def str_starts_def at0_def os_strchr_def)

lemma process_connected:
  assumes "\<not> eloop_terminated st" "str_starts pos WPA_EVENT_CONNECTED"
  shows "wpa_cli_action_process (''<3>'' @ pos) st = on_connected pos (ctrl_ifname st) st"
  using assms unfolding wpa_cli_action_process_def plain_pos Let_def prod.case by (simp only: if_False if_True)

lemma process_disconnected:
  assumes "\<not> eloop_terminated st" "\<not> str_starts pos WPA_EVENT_CONNECTED" "str_starts pos WPA_EVENT_DISCONNECTED"
  shows "wpa_cli_action_process (''<3>'' @ pos) st =
    (if wpa_cli_connected st \<noteq> 0
     then wpa_cli_exec (action_file st) (ctrl_ifname st) ''DISCONNECTED'' (st\<lparr>wpa_cli_connected := 0\<rparr>) else Val st)"
  using assms unfolding wpa_cli_action_process_def plain_pos Let_def prod.case by (simp only: if_False if_True)

lemma report_connected_link:
  assumes "ctrl_ifname st \<noteq> Dangling"
  shows "report_connected nid (ctrl_ifname st) (st\<lparr>env := e\<rparr>) =
    (if link_of st = Up nid then Val (st\<lparr>env := e\<rparr>)
     else Val (st\<lparr>env := e, wpa_cli_connected := 1, wpa_cli_last_id := nid,
                 exec_log := exec_log st @ [script_call st ''CONNECTED'']\<rparr>))"
  using exec_own [OF assms, of "''CONNECTED''" "st\<lparr>env := e, wpa_cli_connected := 1, wpa_cli_last_id := nid\<rparr>"]
  by (cases "wpa_cli_connected st \<le> 0"; cases "wpa_cli_last_id st = nid") (simp_all add: report_connected_def link_of_def)

definition same_script :: "cli \<Rightarrow> cli \<Rightarrow> bool" where
  "same_script st st' \<longleftrightarrow> eloop_terminated st' = eloop_terminated st \<and> ctrl_ifname st' = ctrl_ifname st \<and>
     action_file st' = action_file st \<and> ctrl_iface_dir st' = ctrl_iface_dir st \<and> inbox st' = inbox st"

lemma link_step:
  assumes st: "\<not> eloop_terminated st" "ctrl_ifname st \<noteq> Dangling" "link_event_ok ev"
  shows "\<exists>st'. wpa_cli_action_process (link_msg ev) st = Val st' \<and> link_of st' = link_target ev \<and> same_script st st' \<and>
    exec_log st' = exec_log st @ map (script_call st) (link_calls (link_of st) (link_target ev)) \<and>
    (case ev of Connected info nid name \<Rightarrow> link_env (show_int nid) name (ctrl_iface_dir st) st' | _ \<Rightarrow> True)"
proof (cases ev)
  case (Connected info nid name)
  let ?pos = "WPA_EVENT_CONNECTED @ info @ ''[id='' @ show_int nid @ '' id_str='' @ name @ '']''"
  from st(3) Connected obtain e where e: "connected_env ?pos st = Val (nid, st\<lparr>env := e\<rparr>)"
    "link_env (show_int nid) name (ctrl_iface_dir st) (st\<lparr>env := e\<rparr>)"
    using connected_env_msg [of info name nid st] by auto
  have "str_starts ?pos WPA_EVENT_CONNECTED" by (simp add: str_starts_def is_prefix_iff)
  from process_connected [OF st(1) this]
  have "wpa_cli_action_process (link_msg ev) st = report_connected nid (ctrl_ifname st) (st\<lparr>env := e\<rparr>)"
    unfolding on_connected_def e(1) obind.simps prod.case Connected link_msg.simps .
  with report_connected_link [OF st(2), of nid e] show ?thesis
    using e(2) Connected by (cases "link_of st = Up nid") (simp_all add: link_calls_def link_env_def same_script_def)
next
  case (Disconnected info)
  let ?pos = "WPA_EVENT_DISCONNECTED @ info"
  have "\<not> str_starts ?pos WPA_EVENT_CONNECTED" "str_starts ?pos WPA_EVENT_DISCONNECTED"
    by (simp_all add: str_starts_def WPA_EVENT_CONNECTED_def WPA_EVENT_DISCONNECTED_def)
  from process_disconnected [OF st(1) this]
  have "wpa_cli_action_process (link_msg ev) st = (if wpa_cli_connected st \<noteq> 0
      then Val (st\<lparr>wpa_cli_connected := 0, exec_log := exec_log st @ [script_call st ''DISCONNECTED'']\<rparr>) else Val st)"
    unfolding Disconnected link_msg.simps exec_own [OF st(2)] by simp
  with Disconnected show ?thesis
    by (cases "wpa_cli_connected st = 0") (simp_all add: link_calls_def same_script_def)
qed

lemma link_queue:
  assumes "\<not> eloop_terminated st" "ctrl_ifname st \<noteq> Dangling" "\<forall>ev \<in> set evs. link_event_ok ev"
  shows "\<exists>st'. process_queue wpa_cli_action_process fd (map link_msg evs) st = Val st' \<and>
    link_of st' = last (link_of st # map link_target evs) \<and>
    exec_log st' = exec_log st @ map (script_call st) (link_run (link_of st) (map link_target evs))"
  using assms
proof (induction evs arbitrary: st)
  case (Cons ev evs)
  let ?st = "st\<lparr>inbox := (inbox st)(fd := map Data (map link_msg evs))\<rparr>"
  have s: "link_of ?st = link_of st" "script_call ?st = script_call st" by (auto simp: link_of_def script_call_def)
  from link_step [of ?st ev] Cons.prems obtain st1 where st1: "wpa_cli_action_process (link_msg ev) ?st = Val st1"
    "link_of st1 = link_target ev" "same_script ?st st1"
    "exec_log st1 = exec_log st @ map (script_call st) (link_calls (link_of st) (link_target ev))"
    using s by auto
  then have "script_call st1 = script_call st" by (auto simp: script_call_def same_script_def)
  with Cons.IH [of st1] Cons.prems st1 show ?case by (auto simp: same_script_def)
qed simp

section \<open>The list of stations follows the events\<close>

datatype bss_event = Bss_added nat "char list" | Bss_removed nat "char list"

fun bss_msg :: "bss_event \<Rightarrow> string" where
  "bss_msg (Bss_added n addr) = ''<2>'' @ WPA_EVENT_BSS_ADDED @ show_nat n @ '' '' @ MACSTR addr"
| "bss_msg (Bss_removed n addr) = ''<2>'' @ WPA_EVENT_BSS_REMOVED @ show_nat n @ '' '' @ MACSTR addr"

fun bss_effect :: "bss_event \<Rightarrow> string set \<Rightarrow> string set" where
  "bss_effect (Bss_added n addr) known = insert (MACSTR addr) known"
| "bss_effect (Bss_removed n addr) known = known - {MACSTR addr}"

fun bss_event_ok :: "bss_event \<Rightarrow> bool" where
  "bss_event_ok (Bss_added n addr) \<longleftrightarrow> length addr = ETH_ALEN"
| "bss_event_ok (Bss_removed n addr) \<longleftrightarrow> length addr = ETH_ALEN"

lemma hexdig_not_nul: "n < 16 \<Longrightarrow> hexdig n \<noteq> NUL"
proof
  assume "n < 16" and "hexdig n = NUL"
  then have "(of_char (hexdig n) :: int) = 0" by simp
  moreover have "(of_char (hexdig n) :: int) = (if n < 10 then 48 + int n else 87 + int n)"
    using \<open>n < 16\<close> of_char_char_of_int [of "48 + n"] of_char_char_of_int [of "87 + n"] by (simp add: hexdig_def)
  ultimately show False by (simp split: if_split_asm)
qed

lemma hex02_no_nul: "no_nul (hex02 (of_char c))"
proof -
  have "(of_char c :: nat) < 256" by simp
  then have "(of_char c :: nat) div 16 < 16" by (subst div_less_iff_less_mult) simp_all
  from hexdig_not_nul [OF this] hexdig_not_nul [of "of_char c mod 16"] show ?thesis
    by (auto simp: hex02_def no_nul_def)
qed

lemma macstr_no_nul: "no_nul (macstr_loop addr)"
  using hex02_no_nul by (induction addr rule: macstr_loop.induct) (auto simp: no_nul_def)

lemma length_macstr: "length (macstr_loop addr) = 3 * length addr - 1"
  by (induction addr rule: macstr_loop.induct) (auto simp: hex02_def Let_def)

lemma addr_text_macstr: "length addr = ETH_ALEN \<Longrightarrow> addr_text (MACSTR addr) = Some (MACSTR addr)"
  using hwaddr_parse_macstr [of addr ETH_ALEN "[]"] length_macstr [of addr]
  by (simp add: addr_text_def hwaddr_aton_def hwaddr_parse_def MACSTR_def memwrite_def os_snprintf_def ETH_ALEN_def)

lemma second_arg_event:
  assumes "CHR '' '' \<notin> set ev"
  shows "second_arg ((ev @ '' '') @ show_nat n @ '' '' @ a) = Some a"
proof -
  have "CHR '' '' \<notin> set (show_nat n)" using show_int_no_space [of "int n"] by (simp add: show_int_def)
  then show ?thesis using assms by (simp add: second_arg_def)
qed

lemma bss_step:
  assumes "txt_list_ok (bsses st)" "bss_event_ok ev"
  shows "\<exists>l. cli_event b (bss_msg ev) st = st\<lparr>bsses := l\<rparr> \<and> txt_list_ok l \<and> set l = bss_effect ev (set (bsses st)) \<and>
    \<not> wpa_cli_show_event (bss_msg ev)"
proof (cases ev)
  case (Bss_added n addr)
  have "second_arg (WPA_EVENT_BSS_ADDED @ show_nat n @ '' '' @ MACSTR addr) = Some (MACSTR addr)"
    using second_arg_event [of "''CTRL-EVENT-BSS-ADDED''"] by (simp add: WPA_EVENT_BSS_ADDED_def)
  then show ?thesis
    using Bss_added assms cli_list.add_law [of "bsses st" "MACSTR addr"] macstr_no_nul [of addr]
    by (intro exI [of _ "snd (cli_txt_list_add (bsses st) (MACSTR addr))"])
      (simp add: cli_event_def wpa_cli_show_event_def os_strchr_def str_starts_def is_prefix_iff MACSTR_def)
next
  case (Bss_removed n addr)
  have "second_arg (WPA_EVENT_BSS_REMOVED @ show_nat n @ '' '' @ MACSTR addr) = Some (MACSTR addr)"
    using second_arg_event [of "''CTRL-EVENT-BSS-REMOVED''"] by (simp add: WPA_EVENT_BSS_REMOVED_def)
  moreover have "\<not> str_starts (WPA_EVENT_BSS_REMOVED @ r) WPA_EVENT_BSS_ADDED" for r
    by (simp add: WPA_EVENT_BSS_REMOVED_def WPA_EVENT_BSS_ADDED_def str_starts_def)
  moreover have "str_starts (WPA_EVENT_BSS_REMOVED @ r) WPA_EVENT_BSS_REMOVED" for r by (simp add: str_starts_def is_prefix_iff)
  ultimately show ?thesis
    using Bss_removed assms cli_list.del_law [of "bsses st" "MACSTR addr"] macstr_no_nul [of addr] addr_text_macstr [of addr]
    by (intro exI [of _ "cli_txt_list_del (bsses st) (MACSTR addr)"])
      (simp add: cli_event_def wpa_cli_show_event_def os_strchr_def cli_txt_list_del_addr_def MACSTR_def)
qed

lemma bss_steps:
  assumes "txt_list_ok (bsses st)" "\<forall>ev \<in> set evs. bss_event_ok ev"
  shows "\<exists>l. fold (monitor_msg b) (map bss_msg evs) st = st\<lparr>bsses := l\<rparr> \<and> txt_list_ok l \<and>
    set l = fold bss_effect evs (set (bsses st))"
  using assms
proof (induction evs arbitrary: st)
  case Nil
  then show ?case by (intro exI [of _ "bsses st"]) simp
next
  case (Cons ev evs)
  then obtain l where l: "cli_event b (bss_msg ev) st = st\<lparr>bsses := l\<rparr>" "txt_list_ok l"
    "set l = bss_effect ev (set (bsses st))" "\<not> wpa_cli_show_event (bss_msg ev)"
    using bss_step [of st ev b] by auto
  then have "monitor_msg b (bss_msg ev) st = st\<lparr>bsses := l\<rparr>" by (simp add: monitor_msg_def)
  with Cons.IH [of "st\<lparr>bsses := l\<rparr>"] Cons.prems(2) l(2,3) show ?case by auto
qed

lemma lists_inbox_commute:
  "bsses (st\<lparr>inbox := f\<rparr>) = bsses (st :: cli)" "p2p_peers (st\<lparr>inbox := f\<rparr>) = p2p_peers st" "p2p_groups (st\<lparr>inbox := f\<rparr>) = p2p_groups st"
  "st\<lparr>inbox := f, bsses := l\<rparr> = st\<lparr>bsses := l, inbox := f\<rparr>" "st\<lparr>inbox := f, p2p_peers := l\<rparr> = st\<lparr>p2p_peers := l, inbox := f\<rparr>"
  "st\<lparr>inbox := f, p2p_groups := l\<rparr> = st\<lparr>p2p_groups := l, inbox := f\<rparr>"
  by simp_all

lemma cli_event_commutes: "cli_event b m (st\<lparr>inbox := f\<rparr>) = (cli_event b m st)\<lparr>inbox := f\<rparr>"
  unfolding cli_event_def Let_def lists_inbox_commute by (simp only: if_distrib [of "inbox_update (\<lambda>_. f)"] option.case_distrib [of "inbox_update (\<lambda>_. f)"])

lemma monitor_msg_commutes: "monitor_msg b m (st\<lparr>inbox := f\<rparr>) = (monitor_msg b m st)\<lparr>inbox := f\<rparr>"
  by (simp add: monitor_msg_def Let_def printf_def cli_event_commutes)

lemma fold_monitor_commutes: "fold (monitor_msg b) ms (st\<lparr>inbox := f\<rparr>) = (fold (monitor_msg b) ms st)\<lparr>inbox := f\<rparr>"
  by (induction ms arbitrary: st) (simp_all only: fold_simps monitor_msg_commutes)

lemma inbox_twice: "st\<lparr>inbox := f, inbox := g\<rparr> = (st :: cli)\<lparr>inbox := g\<rparr>"
  by simp

lemma monitor_queue:
  assumes "inbox st (sock c) = map Data ms" "\<forall>m \<in> set ms. queueable m" "length ms < n"
    and "\<forall>m \<in> set ms. \<not> str_starts (skip_priority m) WPA_EVENT_TERMINATING"
  shows "recv_pending_loop n b c False st = Val ((fold (monitor_msg b) ms st)\<lparr>inbox := (inbox st)(sock c := [])\<rparr>)"
  using assms
proof (induction ms arbitrary: n st)
  case Nil
  then obtain k where "n = Suc k" by (cases n) auto
  moreover have "(inbox st)(sock c := []) = inbox st" using Nil by (simp add: fun_upd_idem)
  ultimately show ?case using Nil by (simp add: wpa_ctrl_pending_def)
next
  case (Cons m ms)
  then obtain k where n: "n = Suc k" by (cases n) auto
  let ?st = "st\<lparr>inbox := (inbox st)(sock c := map Data ms)\<rparr>"
  obtain reply len where r: "wpa_ctrl_pending c st = (True, st)"
    "wpa_ctrl_recv c (replicate 4095 NUL) st = ((0, reply, len), ?st)" "cstr_of (take len reply) = m"
    using recv_queued [of st c m ms] Cons.prems by auto
  let ?st1 = "monitor_msg b m ?st"
  have "check_terminating m ?st1 = Val (False, ?st1)" using Cons.prems(4) by (simp add: check_terminating_def)
  then have "recv_pending_loop n b c False st = recv_pending_loop k b c False ?st1" using r by (simp add: n Let_def)
  also have "\<dots> = Val ((fold (monitor_msg b) ms ?st1)\<lparr>inbox := (inbox ?st1)(sock c := [])\<rparr>)"
    by (intro Cons.IH) (use Cons.prems n in simp_all)
  also have "fold (monitor_msg b) ms ?st1 = (fold (monitor_msg b) (m # ms) st)\<lparr>inbox := (inbox st)(sock c := map Data ms)\<rparr>"
    by (simp only: fold_monitor_commutes monitor_msg_commutes fold_simps)
  also have "(inbox ?st1)(sock c := []) = (inbox st)(sock c := [])" by (simp add: fun_eq_iff)
  finally show ?case by (simp only: inbox_twice)
qed

section \<open>Properties\<close>


lemma small_numbers: "show_nat 0 = ''0''" "show_nat 1 = ''1''" "show_int 0 = ''0''" "show_int 1 = ''1''"
  by code_simp+

definition link_demo :: "link_event list" where
  "link_demo = [Disconnected ''bssid=02:00'', Connected ''- Connection to 02:00 completed '' 0 ''home'',
     Connected ''- Connection to 02:00 completed '' 0 ''home'', Connected ''- Connection to 02:01 completed '' 1 []]"

lemma link_demo_ok: "\<forall>ev \<in> set link_demo. link_event_ok ev \<and> queueable (link_msg ev)"
  by (simp add: link_demo_def queueable_def WPA_EVENT_CONNECTED_def WPA_EVENT_DISCONNECTED_def small_numbers)


text \<open>
  C33: Reception ends for every queue of messages, errors of the socket included: the loop of
  \<^verbatim>\<open>wpa_cli_recv_pending\<close> takes at least one queued event in each round.
\<close>

theorem recv_pending_terminates:
  "wpa_cli_recv_pending b ctrl action_monitor st \<noteq> Loops"
  by (simp add: wpa_cli_recv_pending_def reconnect_loop_free recv_pending_loop_free del: recv_pending_loop.simps split: option.split)

text \<open>
  C9: Monitoring in the interactive mode: after queued reports of found and lost stations the list kept
  for completion is the set of the stations found and not lost since, without repetitions, and the
  reports are not printed.
\<close>

theorem recv_pending_tracks_bsses:
  assumes "ctrl_conn st \<noteq> None" "mon_conn st = Some c" "txt_list_ok (bsses st)"
    and "inbox st (sock c) = map Data (map bss_msg evs)" "\<forall>ev \<in> set evs. bss_event_ok ev \<and> queueable (bss_msg ev)"
  shows "\<exists>l. wpa_cli_mon_receive b st = Val (st\<lparr>bsses := l, inbox := (inbox st)(sock c := [])\<rparr>) \<and> txt_list_ok l \<and>
    set l = fold bss_effect evs (set (bsses st))"
proof -
  have "\<not> str_starts (skip_priority (bss_msg ev)) WPA_EVENT_TERMINATING" for ev
    by (cases ev) (simp_all add: skip_priority_def at0_def os_strchr_def str_starts_def WPA_EVENT_TERMINATING_def
        WPA_EVENT_BSS_ADDED_def WPA_EVENT_BSS_REMOVED_def)
  then have "wpa_cli_mon_receive b st = Val ((fold (monitor_msg b) (map bss_msg evs) st)\<lparr>inbox := (inbox st)(sock c := [])\<rparr>)"
    using monitor_queue [OF assms(4), of "length evs + 1" b] assms(1,2,4,5)
    by (auto simp: wpa_cli_mon_receive_def wpa_cli_recv_pending_def)
  with bss_steps [OF assms(3), of evs b] assms(5) show ?thesis by fastforce
qed

definition bss_demo :: "bss_event list" where
  "bss_demo = [Bss_added 0 (replicate 6 (CHR ''a'')), Bss_added 1 (replicate 6 (CHR ''b'')), Bss_removed 0 (replicate 6 (CHR ''a''))]"

lemma bss_demo_ok: "\<forall>ev \<in> set bss_demo. bss_event_ok ev \<and> queueable (bss_msg ev)"
  using macstr_no_nul [of "replicate 6 (CHR ''a'')"] macstr_no_nul [of "replicate 6 (CHR ''b'')"]
    length_macstr [of "replicate 6 (CHR ''a'')"] length_macstr [of "replicate 6 (CHR ''b'')"]
  by (simp add: bss_demo_def queueable_def WPA_EVENT_BSS_ADDED_def WPA_EVENT_BSS_REMOVED_def ETH_ALEN_def MACSTR_def
      small_numbers [simplified] del: macstr_loop.simps)

theorem recv_pending_tracks_bsses_witness:
  "\<exists>l. wpa_cli_mon_receive [] ((demo_connected (\<lambda>_. []))\<lparr>mon_conn := Some demo_ctrl, inbox := (\<lambda>_. map Data (map bss_msg bss_demo))\<rparr>) =
     Val ((demo_connected (\<lambda>_. []))\<lparr>mon_conn := Some demo_ctrl, bsses := l,
       inbox := (\<lambda>_. map Data (map bss_msg bss_demo))(sock demo_ctrl := [])\<rparr>) \<and>
     set l = {MACSTR (replicate 6 (CHR ''b''))}"
proof -
  let ?st = "(demo_connected (\<lambda>_. []))\<lparr>mon_conn := Some demo_ctrl, inbox := (\<lambda>_. map Data (map bss_msg bss_demo))\<rparr>"
  have "ctrl_conn ?st \<noteq> None" "bsses ?st = []" by (simp_all add: demo_connected_def demo_cli_def)
  moreover have "fold bss_effect bss_demo {} = {MACSTR (replicate 6 (CHR ''b''))}"
  proof -
    have "MACSTR (replicate 6 (CHR ''a'')) \<noteq> MACSTR (replicate 6 (CHR ''b''))" by code_simp
    then show ?thesis by (auto simp: bss_demo_def)
  qed
  ultimately show ?thesis
    using recv_pending_tracks_bsses [of ?st demo_ctrl bss_demo "[]"] bss_demo_ok by (auto simp: txt_list_ok_def)
qed

text \<open>
  A report of a connection whose identifier is not followed by a space makes
  \<^verbatim>\<open>wpa_cli_action_process\<close> read behind its copy of the text.
\<close>

theorem action_process_overread:
  assumes "\<not> eloop_terminated st" "CHR ''['' \<notin> set info" "CHR '' '' \<notin> set rest"
  shows "wpa_cli_action_process (''<3>'' @ WPA_EVENT_CONNECTED @ info @ ''[id='' @ rest) st = Undef Oob_read"
proof -
  have "CHR ''['' \<notin> set (WPA_EVENT_CONNECTED @ info)" using assms(2) by (simp add: WPA_EVENT_CONNECTED_def)
  from strstr_after [OF this, of "''id='' @ rest" "''id=''"]
  have f: "os_strstr (WPA_EVENT_CONNECTED @ info @ ''[id='' @ rest) ''[id='' = Some (''[id='' @ rest)" by simp
  have "str_starts (WPA_EVENT_CONNECTED @ info @ ''[id='' @ rest) WPA_EVENT_CONNECTED" by (simp add: str_starts_def is_prefix_iff)
  from process_connected [OF assms(1) this] show ?thesis
    using assms(3) unfolding on_connected_def connected_env_def Let_def f option.case
    by (simp add: parse_ids_def os_strchr_None [THEN iffD2])
qed

theorem action_process_overread_witness:
  "wpa_cli_action_process ''<3>CTRL-EVENT-CONNECTED - completed [id=0]'' (demo_connected (\<lambda>_. [])) = Undef Oob_read"
  using action_process_overread [of "demo_connected (\<lambda>_. [])" "''- completed ''" "''0]''"]
  by (simp add: demo_connected_def demo_cli_def WPA_EVENT_CONNECTED_def)

end
