(* ===== verification/Dl_List.thy ===== *)
theory Dl_List
  imports Wpa_Prelude
begin

text \<open>
  \<^verbatim>\<open>src/utils/list.h\<close>: doubly linked rings through an explicit store of nodes. The list anchored at a head is
  the sequence of the other nodes of its ring; the operations on the links refine insertion into and
  deletion from that sequence.
\<close>

record dl_list =
  l_next :: "nat option"
  l_prev :: "nat option"

type_synonym store = "nat \<Rightarrow> dl_list option"

section \<open>Operations\<close>

definition node_at :: "store \<Rightarrow> nat option \<Rightarrow> (nat \<times> dl_list) outcome" where
  "node_at h p =
     (case p of
        None \<Rightarrow> Undef Null_deref
      | Some a \<Rightarrow> (case h a of None \<Rightarrow> Undef Use_after_free | Some n \<Rightarrow> Val (a, n)))"

definition set_next :: "nat option \<Rightarrow> nat option \<Rightarrow> store \<Rightarrow> store outcome" where
  "set_next p v h = omap (\<lambda>(a, n). h(a \<mapsto> n\<lparr>l_next := v\<rparr>)) (node_at h p)"

definition set_prev :: "nat option \<Rightarrow> nat option \<Rightarrow> store \<Rightarrow> store outcome" where
  "set_prev p v h = omap (\<lambda>(a, n). h(a \<mapsto> n\<lparr>l_prev := v\<rparr>)) (node_at h p)"

definition next_of :: "nat option \<Rightarrow> store \<Rightarrow> nat option outcome" where
  "next_of p h = omap (\<lambda>(a, n). l_next n) (node_at h p)"

definition prev_of :: "nat option \<Rightarrow> store \<Rightarrow> nat option outcome" where
  "prev_of p h = omap (\<lambda>(a, n). l_prev n) (node_at h p)"

definition dl_list_init :: "nat \<Rightarrow> store \<Rightarrow> store outcome" where
  "dl_list_init list h = obind (set_next (Some list) (Some list) h) (set_prev (Some list) (Some list))"

definition dl_list_add :: "nat option \<Rightarrow> nat \<Rightarrow> store \<Rightarrow> store outcome" where
  "dl_list_add list item h =
     obind (next_of list h) (\<lambda>n.
     obind (set_next (Some item) n h) (\<lambda>h.
     obind (set_prev (Some item) list h) (\<lambda>h.
     obind (next_of list h) (\<lambda>n.
     obind (set_prev n (Some item) h) (\<lambda>h.
     set_next list (Some item) h)))))"

definition dl_list_add_tail :: "nat \<Rightarrow> nat \<Rightarrow> store \<Rightarrow> store outcome" where
  "dl_list_add_tail list item h = obind (prev_of (Some list) h) (\<lambda>p. dl_list_add p item h)"

definition dl_list_del :: "nat \<Rightarrow> store \<Rightarrow> store outcome" where
  "dl_list_del item h =
     obind (next_of (Some item) h) (\<lambda>n.
     obind (prev_of (Some item) h) (\<lambda>p.
     obind (set_prev n p h) (\<lambda>h.
     obind (next_of (Some item) h) (\<lambda>n.
     obind (prev_of (Some item) h) (\<lambda>p.
     obind (set_next p n h) (\<lambda>h.
     obind (set_next (Some item) None h) (set_prev (Some item) None)))))))"

definition dl_list_empty :: "nat \<Rightarrow> store \<Rightarrow> bool outcome" where
  "dl_list_empty list h = omap (\<lambda>n. n = Some list) (next_of (Some list) h)"

text \<open>The loop over the ring; \<open>fuel\<close> bounds its length, which is not bounded for links that miss the head.\<close>

fun len_loop :: "nat \<Rightarrow> nat \<Rightarrow> nat option \<Rightarrow> nat \<Rightarrow> store \<Rightarrow> nat outcome" where
  "len_loop 0 list item n h = Loops"
| "len_loop (Suc fuel) list item n h =
     (if item = Some list then Val n
      else obind (next_of item h) (\<lambda>item. len_loop fuel list item (n + 1) h))"

definition dl_list_len :: "nat \<Rightarrow> nat \<Rightarrow> store \<Rightarrow> nat outcome" where
  "dl_list_len fuel list h = obind (next_of (Some list) h) (\<lambda>item. len_loop fuel list item 0 h)"

text \<open>
  The two loops of the event loop over its timeouts: ordered insertion before the first entry that
  is later, and removal of all entries that match with \<^verbatim>\<open>dl_list_for_each_safe\<close>.
\<close>

fun insert_walk :: "nat \<Rightarrow> (nat \<Rightarrow> bool) \<Rightarrow> nat \<Rightarrow> nat \<Rightarrow> nat option \<Rightarrow> store \<Rightarrow> store outcome" where
  "insert_walk 0 before head item tmp h = Loops"
| "insert_walk (Suc fuel) before head item tmp h =
     (if tmp = Some head then dl_list_add_tail head item h
      else obind (node_at h tmp) (\<lambda>(a, n).
        if before a then dl_list_add (l_prev n) item h
        else insert_walk fuel before head item (l_next n) h))"

definition insert_ordered :: "nat \<Rightarrow> (nat \<Rightarrow> bool) \<Rightarrow> nat \<Rightarrow> nat \<Rightarrow> store \<Rightarrow> store outcome" where
  "insert_ordered fuel before head item h = obind (next_of (Some head) h) (\<lambda>tmp. insert_walk fuel before head item tmp h)"

fun remove_walk :: "nat \<Rightarrow> (nat \<Rightarrow> bool) \<Rightarrow> nat \<Rightarrow> nat option \<Rightarrow> nat option \<Rightarrow> nat \<Rightarrow> store \<Rightarrow> (nat \<times> store) outcome" where
  "remove_walk 0 match head item n removed h = Loops"
| "remove_walk (Suc fuel) match head item n removed h =
     (if item = Some head then Val (removed, h)
      else obind (node_at h item) (\<lambda>(a, _).
        obind (if match a then omap (Pair (removed + 1)) (dl_list_del a h) else Val (removed, h)) (\<lambda>(removed, h).
          obind (next_of n h) (\<lambda>n'. remove_walk fuel match head n n' removed h))))"

definition remove_matching :: "nat \<Rightarrow> (nat \<Rightarrow> bool) \<Rightarrow> nat \<Rightarrow> store \<Rightarrow> (nat \<times> store) outcome" where
  "remove_matching fuel match head h =
     obind (next_of (Some head) h) (\<lambda>item.
     obind (next_of item h) (\<lambda>n. remove_walk fuel match head item n 0 h))"

section \<open>Rings\<close>

definition nx :: "store \<Rightarrow> nat \<Rightarrow> nat option" where
  "nx h a = Option.bind (h a) l_next"

definition pv :: "store \<Rightarrow> nat \<Rightarrow> nat option" where
  "pv h a = Option.bind (h a) l_prev"

fun linked :: "(nat \<Rightarrow> nat option) \<Rightarrow> (nat \<Rightarrow> nat option) \<Rightarrow> nat list \<Rightarrow> bool" where
  "linked n p (u # v # r) \<longleftrightarrow> n u = Some v \<and> p v = Some u \<and> linked n p (v # r)"
| "linked n p _ \<longleftrightarrow> True"

definition ring :: "store \<Rightarrow> nat \<Rightarrow> nat list \<Rightarrow> bool" where
  "ring h head xs \<longleftrightarrow> distinct (head # xs) \<and> linked (nx h) (pv h) (head # xs @ [head])"

lemma linked_append:
  "linked n p (as @ u # v # bs) \<longleftrightarrow> linked n p (as @ [u]) \<and> n u = Some v \<and> p v = Some u \<and> linked n p (v # bs)"
proof (induction as)
  case (Cons a as)
  then show ?case by (cases as) auto
qed simp

lemma linked_cong:
  "\<forall>x \<in> set (butlast xs). n x = n' x \<Longrightarrow> \<forall>x \<in> set (tl xs). p x = p' x \<Longrightarrow> linked n p xs \<longleftrightarrow> linked n' p' xs"
  by (induction n p xs rule: linked.induct) auto

lemma nx_Some: "nx h a = Some b \<Longrightarrow> \<exists>m. h a = Some m \<and> l_next m = Some b"
  by (cases "h a") (auto simp: nx_def)

lemma pv_Some: "pv h a = Some b \<Longrightarrow> \<exists>m. h a = Some m \<and> l_prev m = Some b"
  by (cases "h a") (auto simp: pv_def)

text \<open>The node before and the node behind a position of the ring.\<close>

lemma ring_split:
  assumes "ring h head (as @ bs)"
  obtains p u v q where "head # as = p @ [u]" "bs @ [head] = v # q" "u = last (head # as)" "v = hd (bs @ [head])"
    and "linked (nx h) (pv h) (p @ [u])" "nx h u = Some v" "pv h v = Some u" "linked (nx h) (pv h) (v # q)"
    and "distinct (p @ [u] @ butlast (v # q))" "distinct (tl (p @ [u]) @ v # q)"
proof -
  let ?p = "butlast (head # as)" and ?u = "last (head # as)" and ?v = "hd (bs @ [head])" and ?q = "tl (bs @ [head])"
  have e: "head # as = ?p @ [?u]" by simp
  have f: "bs @ [head] = ?v # ?q" by simp
  have "linked (nx h) (pv h) (?p @ ?u # ?v # ?q)" using assms e f unfolding ring_def
    by (metis append.assoc append_Cons append_Nil)
  then have l: "linked (nx h) (pv h) (?p @ [?u])" "nx h ?u = Some ?v" "pv h ?v = Some ?u" "linked (nx h) (pv h) (?v # ?q)"
    by (simp_all only: linked_append)
  have d: "distinct (head # as @ bs)" using assms by (simp add: ring_def)
  have "butlast (?v # ?q) = bs" using f by (metis butlast_snoc)
  then have d1: "distinct (?p @ [?u] @ butlast (?v # ?q))" using d e by (metis append.assoc append_Cons)
  have "tl (?p @ [?u]) = as" using e by (metis list.sel(3))
  then have d2: "distinct (tl (?p @ [?u]) @ ?v # ?q)" using d f by (metis append.assoc distinct_append distinct.simps(2) distinct1_rotate rotate1.simps(2))
  show thesis using that [OF e f refl refl l d1 d2] .
qed

lemmas node_ops = node_at_def set_next_def set_prev_def next_of_def prev_of_def

lemma dl_list_add_links:
  assumes "nx h u = Some v" "pv h v = Some w" "h item = Some m" "item \<noteq> u" "item \<noteq> v"
  shows "\<exists>h'. dl_list_add (Some u) item h = Val h' \<and> nx h' = (nx h)(u := Some item, item := Some v) \<and>
    pv h' = (pv h)(v := Some item, item := Some u) \<and> dom h' = dom h"
proof -
  from nx_Some [OF assms(1)] obtain mu where mu: "h u = Some mu" "l_next mu = Some v" by blast
  from pv_Some [OF assms(2)] obtain mv where mv: "h v = Some mv" by blast
  let ?h = "h(item \<mapsto> m\<lparr>l_next := Some v, l_prev := Some u\<rparr>)"
  let ?h1 = "?h(v \<mapsto> mv\<lparr>l_prev := Some item\<rparr>)"
  let ?h2 = "?h1(u \<mapsto> (the (?h1 u))\<lparr>l_next := Some item\<rparr>)"
  have "dl_list_add (Some u) item h = Val ?h2"
    using mu mv assms(3-5) by (simp add: dl_list_add_def node_ops)
  moreover have "nx ?h2 = (nx h)(u := Some item, item := Some v)" "pv ?h2 = (pv h)(v := Some item, item := Some u)"
    using mu mv assms(3-5) by (auto simp: fun_eq_iff nx_def pv_def)
  moreover have "dom ?h2 = dom h" using mu mv assms(3) by auto
  ultimately show ?thesis by blast
qed

lemma ring_add:
  assumes r: "ring h head (as @ bs)" and item: "h item = Some m" "item \<notin> set (head # as @ bs)"
  shows "\<exists>h'. dl_list_add (Some (last (head # as))) item h = Val h' \<and> ring h' head (as @ item # bs) \<and> dom h' = dom h"
proof -
  from r obtain p u v q where s: "head # as = p @ [u]" "bs @ [head] = v # q" "u = last (head # as)"
    and l: "linked (nx h) (pv h) (p @ [u])" "nx h u = Some v" "pv h v = Some u" "linked (nx h) (pv h) (v # q)"
    and d: "distinct (p @ [u] @ butlast (v # q))" "distinct (tl (p @ [u]) @ v # q)"
    by (elim ring_split)
  have m: "set (p @ [u]) \<subseteq> set (head # as @ bs)" "set (v # q) \<subseteq> set (head # as @ bs)"
    unfolding s(1) [symmetric] s(2) [symmetric] by auto
  then have i: "item \<noteq> u" "item \<noteq> v" "item \<notin> set (p @ [u])" "item \<notin> set (v # q)" using item(2) by auto
  from dl_list_add_links [OF l(2,3) item(1) i(1,2)] obtain h' where h':
    "dl_list_add (Some u) item h = Val h'" "nx h' = (nx h)(u := Some item, item := Some v)"
    "pv h' = (pv h)(v := Some item, item := Some u)" "dom h' = dom h" by blast
  have "set (tl (p @ [u])) \<subseteq> set (p @ [u])" "set (butlast (v # q)) \<subseteq> set (v # q)"
    by (auto dest: in_set_butlastD list.set_sel(2) [rotated])
  moreover have "v \<notin> set (tl (p @ [u]))" "u \<notin> set (butlast (v # q))" "v \<notin> set q" "u \<notin> set p" using d by auto
  ultimately have "linked (nx h') (pv h') (p @ [u])" "linked (nx h') (pv h') (v # q)"
    using l(1,4) i unfolding h'
    by (subst linked_cong [where n' = "nx h" and p' = "pv h"]; force)+
  then have "linked (nx h') (pv h') (p @ u # item # v # q)" using i by (simp add: linked_append h')
  moreover have "p @ u # item # v # q = head # (as @ item # bs) @ [head]" using s(1,2) by simp
  moreover have "distinct (head # as @ item # bs)" using r item(2) by (auto simp: ring_def)
  ultimately have "ring h' head (as @ item # bs)" by (simp add: ring_def)
  with h'(1,4) s(3) show ?thesis by auto
qed

lemma dl_list_del_links:
  assumes "nx h item = Some v" "pv h item = Some u" "nx h u = Some item" "pv h v = Some item" "item \<noteq> u" "item \<noteq> v"
  shows "\<exists>h'. dl_list_del item h = Val h' \<and> nx h' = (nx h)(u := Some v, item := None) \<and>
    pv h' = (pv h)(v := Some u, item := None) \<and> dom h' = dom h"
proof -
  from nx_Some [OF assms(1)] pv_Some [OF assms(2)] obtain m where m: "h item = Some m" "l_next m = Some v" "l_prev m = Some u" by auto
  from nx_Some [OF assms(3)] obtain mu where mu: "h u = Some mu" by blast
  from pv_Some [OF assms(4)] obtain mv where mv: "h v = Some mv" by blast
  let ?h1 = "h(v \<mapsto> mv\<lparr>l_prev := Some u\<rparr>)"
  let ?h2 = "?h1(u \<mapsto> (the (?h1 u))\<lparr>l_next := Some v\<rparr>)"
  let ?h3 = "?h2(item \<mapsto> m\<lparr>l_next := None, l_prev := None\<rparr>)"
  have "dl_list_del item h = Val ?h3" using m mu mv assms(5,6) by (auto simp: dl_list_del_def node_ops)
  moreover have "nx ?h3 = (nx h)(u := Some v, item := None)" "pv ?h3 = (pv h)(v := Some u, item := None)"
    using m mu mv assms(5,6) by (auto simp: fun_eq_iff nx_def pv_def)
  moreover have "dom ?h3 = dom h" using m mu mv by auto
  ultimately show ?thesis by blast
qed

lemma ring_del:
  assumes r: "ring h head (as @ item # bs)"
  shows "\<exists>h'. dl_list_del item h = Val h' \<and> ring h' head (as @ bs) \<and> dom h' = dom h \<and> nx h' item = None \<and> pv h' item = None"
proof -
  from r obtain p u w q' where s: "head # as = p @ [u]" "(item # bs) @ [head] = w # q'"
    and l: "linked (nx h) (pv h) (p @ [u])" "nx h u = Some w" "pv h w = Some u" "linked (nx h) (pv h) (w # q')"
    and d: "distinct (p @ [u] @ butlast (w # q'))" "distinct (tl (p @ [u]) @ w # q')"
    by (elim ring_split)
  from s(2) have w: "w = item" "q' = bs @ [head]" by auto
  obtain v q where vq: "bs @ [head] = v # q" by (cases bs) auto
  have l4: "nx h item = Some v" "pv h v = Some item" "linked (nx h) (pv h) (v # q)" using l(4) w vq by auto
  have di: "distinct (head # as @ item # bs)" using r by (simp add: ring_def)
  have m: "set (p @ [u]) \<subseteq> set (head # as)" "set (v # q) \<subseteq> set (head # bs)"
    unfolding s(1) [symmetric] vq [symmetric] by auto
  then have i: "item \<noteq> u" "item \<noteq> v" "item \<notin> set (p @ [u])" "item \<notin> set (v # q)" using di by auto
  from dl_list_del_links [OF l4(1) _ _ l4(2) i(1,2)] l(2,3) w obtain h' where h':
    "dl_list_del item h = Val h'" "nx h' = (nx h)(u := Some v, item := None)" "pv h' = (pv h)(v := Some u, item := None)" "dom h' = dom h"
    by blast
  have "set (tl (p @ [u])) \<subseteq> set (p @ [u])" "set (butlast (v # q)) \<subseteq> set (v # q)"
    by (auto dest: in_set_butlastD list.set_sel(2) [rotated])
  moreover have "v \<notin> set (tl (p @ [u]))" "u \<notin> set (butlast (v # q))" "v \<notin> set q" "u \<notin> set p"
    using d unfolding w vq by auto
  ultimately have "linked (nx h') (pv h') (p @ [u])" "linked (nx h') (pv h') (v # q)"
    using l(1) l4(3) i unfolding h'
    by (subst linked_cong [where n' = "nx h" and p' = "pv h"]; force)+
  then have "linked (nx h') (pv h') (p @ u # v # q)" using i by (simp add: linked_append h')
  moreover have "p @ u # v # q = head # (as @ bs) @ [head]" using s(1) vq by simp
  moreover have "distinct (head # as @ bs)" using di by auto
  ultimately have "ring h' head (as @ bs)" by (simp add: ring_def)
  with h' show ?thesis by auto
qed

section \<open>Walking a ring\<close>

lemma next_of_nx: "nx h a = Some b \<Longrightarrow> next_of (Some a) h = Val (Some b)"
  by (auto simp: next_of_def node_at_def dest!: nx_Some)

lemma prev_of_pv: "pv h a = Some b \<Longrightarrow> prev_of (Some a) h = Val (Some b)"
  by (auto simp: prev_of_def node_at_def dest!: pv_Some)

lemma ring_links:
  assumes "ring h head (as @ bs)"
  shows "nx h (last (head # as)) = Some (hd (bs @ [head]))" "pv h (hd (bs @ [head])) = Some (last (head # as))"
  using assms by (auto elim!: ring_split)

lemma ring_head:
  assumes "ring h head xs"
  shows "next_of (Some head) h = Val (Some (hd (xs @ [head])))" "prev_of (Some head) h = Val (Some (last (head # xs)))"
  using ring_links [of h head "[]" xs] ring_links [of h head xs "[]"] assms by (simp_all add: next_of_nx prev_of_pv)

lemma ring_node:
  assumes "ring h head (as @ b # bs)"
  shows "\<exists>n. node_at h (Some b) = Val (b, n) \<and> l_next n = Some (hd (bs @ [head])) \<and> l_prev n = Some (last (head # as))"
  using ring_links [of h head as "b # bs"] ring_links [of h head "as @ [b]" bs] assms
  by (auto simp: node_at_def dest!: nx_Some pv_Some)

lemma ring_add_tail:
  assumes "ring h head xs" "h item = Some m" "item \<notin> set (head # xs)"
  shows "\<exists>h'. dl_list_add_tail head item h = Val h' \<and> ring h' head (xs @ [item]) \<and> dom h' = dom h"
  using ring_add [of h head xs "[]" item m] ring_head [OF assms(1)] assms by (simp add: dl_list_add_tail_def)

lemma insert_walk_ring:
  assumes "ring h head (as @ bs)" "h item = Some m" "item \<notin> set (head # as @ bs)" "length bs < fuel"
  shows "\<exists>h'. insert_walk fuel before head item (Some (hd (bs @ [head]))) h = Val h' \<and>
    ring h' head (as @ takeWhile (\<lambda>x. \<not> before x) bs @ item # dropWhile (\<lambda>x. \<not> before x) bs) \<and> dom h' = dom h"
  using assms
proof (induction bs arbitrary: as fuel)
  case Nil
  then obtain f where "fuel = Suc f" by (cases fuel) auto
  with ring_add_tail [of h head as item m] Nil show ?case by simp
next
  case (Cons b bs)
  then obtain f where f: "fuel = Suc f" by (cases fuel) auto
  from ring_node [OF Cons.prems(1)] obtain n where n: "node_at h (Some b) = Val (b, n)"
    "l_next n = Some (hd (bs @ [head]))" "l_prev n = Some (last (head # as))" by blast
  have b: "b \<noteq> head" using Cons.prems(1) by (auto simp: ring_def)
  show ?case
  proof (cases "before b")
    case True
    with ring_add [of h head as "b # bs" item m] Cons.prems n b f show ?thesis by simp
  next
    case False
    with Cons.IH [of "as @ [b]" f] Cons.prems n b f show ?thesis by simp
  qed
qed

lemma ring_next_not: "ring h head (as @ b # bs) \<Longrightarrow> b \<noteq> head"
  by (auto simp: ring_def)

lemma remove_walk_ring:
  assumes "ring h head (as @ bs)" "next_of (Some (hd (bs @ [head]))) h = Val n" "length bs < fuel"
  shows "\<exists>h'. remove_walk fuel match head (Some (hd (bs @ [head]))) n k h = Val (k + length (filter match bs), h') \<and>
    ring h' head (as @ filter (\<lambda>x. \<not> match x) bs) \<and> dom h' = dom h"
  using assms
proof (induction bs arbitrary: as fuel n k h)
  case Nil
  then obtain f where "fuel = Suc f" by (cases fuel) auto
  with Nil show ?case by simp
next
  case (Cons b bs)
  then obtain f where f: "fuel = Suc f" by (cases fuel) auto
  from ring_node [OF Cons.prems(1)] obtain m where m: "node_at h (Some b) = Val (b, m)" "l_next m = Some (hd (bs @ [head]))" by blast
  with Cons.prems(2) have n: "n = Some (hd (bs @ [head]))" by (simp add: next_of_def)
  note b = ring_next_not [OF Cons.prems(1)]
  define as' where "as' = (if match b then as else as @ [b])"
  obtain h1 where h1: "(if match b then omap (Pair (k + 1)) (dl_list_del b h) else Val (k, h)) = Val (if match b then k + 1 else k, h1)"
    "ring h1 head (as' @ bs)" "dom h1 = dom h"
    using ring_del [OF Cons.prems(1)] Cons.prems(1) unfolding as'_def by (cases "match b") auto
  from ring_links [OF h1(2)] have "\<exists>z. nx h1 (hd (bs @ [head])) = Some z"
    using h1(2) ring_links [of h1 head "as' @ [hd bs]" "tl bs"] ring_links [of h1 head "[]" as'] by (cases bs) auto
  then obtain z where z: "next_of (Some (hd (bs @ [head]))) h1 = Val (Some z)" by (auto simp: next_of_nx)
  let ?k = "if match b then k + 1 else k"
  from Cons.IH [OF h1(2) z, of f ?k] Cons.prems(3) f obtain h2 where h2:
    "remove_walk f match head (Some (hd (bs @ [head]))) (Some z) ?k h1 = Val (?k + length (filter match bs), h2)"
    "ring h2 head (as' @ filter (\<lambda>x. \<not> match x) bs)" "dom h2 = dom h1" by auto
  have "remove_walk fuel match head (Some b) n k h = Val (?k + length (filter match bs), h2)"
    unfolding f remove_walk.simps m(1) obind.simps prod.case h1(1) n z h2(1) using b by simp
  moreover have "as' @ filter (\<lambda>x. \<not> match x) bs = as @ filter (\<lambda>x. \<not> match x) (b # bs)" by (simp add: as'_def)
  ultimately show ?case using h2(2,3) h1(3) by simp
qed

lemma len_loop_ring:
  assumes "ring h head (as @ bs)" "length bs < fuel"
  shows "len_loop fuel head (Some (hd (bs @ [head]))) n h = Val (n + length bs)"
  using assms
proof (induction bs arbitrary: as fuel n)
  case Nil
  then show ?case by (cases fuel) auto
next
  case (Cons b bs)
  then obtain f where f: "fuel = Suc f" by (cases fuel) auto
  from ring_node [OF Cons.prems(1)] obtain m where "node_at h (Some b) = Val (b, m)" "l_next m = Some (hd (bs @ [head]))" by blast
  with Cons.IH [of "as @ [b]" f] Cons.prems f ring_next_not [OF Cons.prems(1)] show ?case by (simp add: next_of_def)
qed

section \<open>Properties\<close>

text \<open>
  C30: The operations of \<^verbatim>\<open>list.h\<close> on the links refine operations on the sequence of a list: a fresh head is the
  empty list, adding behind a node inserts there, deleting removes the node and clears its links, and
  emptiness and length are those of the sequence. No other node is allocated or freed.
\<close>

theorem dl_list_refines_sequence:
  assumes "ring h head (as @ bs)" "h item = Some m" "item \<notin> set (head # as @ bs)"
  shows "\<exists>h'. dl_list_add (Some (last (head # as))) item h = Val h' \<and> ring h' head (as @ item # bs) \<and>
    (\<exists>h''. dl_list_del item h' = Val h'' \<and> ring h'' head (as @ bs) \<and> dom h'' = dom h) \<and>
    dl_list_empty head h' = Val False \<and> dl_list_empty head h = Val (as @ bs = []) \<and>
    dl_list_len (length (as @ bs) + 1) head h = Val (length (as @ bs)) \<and>
    (\<exists>h0. dl_list_init item h = Val h0 \<and> ring h0 item [])"
proof -
  from ring_add [OF assms] obtain h' where h': "dl_list_add (Some (last (head # as))) item h = Val h'"
    "ring h' head (as @ item # bs)" "dom h' = dom h" by blast
  from ring_del [OF h'(2)] h'(3) have d: "\<exists>h''. dl_list_del item h' = Val h'' \<and> ring h'' head (as @ bs) \<and> dom h'' = dom h" by auto
  have e: "dl_list_empty head g = Val (xs = [])" if "ring g head xs" for g xs
    using ring_head(1) [OF that] that by (cases xs) (auto simp: dl_list_empty_def ring_def)
  have l: "dl_list_len (length (as @ bs) + 1) head h = Val (length (as @ bs))"
    using len_loop_ring [of h head "[]" "as @ bs" "length (as @ bs) + 1" 0] ring_head(1) [OF assms(1)] assms(1)
    by (simp add: dl_list_len_def)
  have "\<exists>h0. dl_list_init item h = Val h0 \<and> ring h0 item []"
    using assms(2) by (auto simp: dl_list_init_def node_ops ring_def nx_def pv_def)
  with h' d e [OF h'(2)] e [OF assms(1)] l show ?thesis by auto
qed

definition two_nodes :: store where
  "two_nodes = [0 \<mapsto> \<lparr>l_next = Some 1, l_prev = Some 1\<rparr>, 1 \<mapsto> \<lparr>l_next = Some 0, l_prev = Some 0\<rparr>, 2 \<mapsto> \<lparr>l_next = None, l_prev = None\<rparr>]"

lemma two_nodes_ring: "ring two_nodes 0 [1]" "two_nodes 2 = Some \<lparr>l_next = None, l_prev = None\<rparr>"
  by (simp_all add: ring_def two_nodes_def nx_def pv_def)

theorem dl_list_refines_sequence_witness: "\<exists>h'. dl_list_add (Some 1) 2 two_nodes = Val h' \<and> ring h' 0 [1, 2]"
  using dl_list_refines_sequence [of two_nodes 0 "[1]" "[]" 2] two_nodes_ring by auto

text \<open>
  The loops over a list: ordered insertion puts the item before the first entry that is later and
  behind all others, and removal during the iteration takes out exactly the matching entries and counts them; both
  end within one round more than the list has entries.
\<close>

theorem dl_list_loops_refine:
  assumes "ring h head xs" "h item = Some m" "item \<notin> set (head # xs)"
  shows "(\<exists>h'. insert_ordered (length xs + 1) before head item h = Val h' \<and>
      ring h' head (takeWhile (\<lambda>x. \<not> before x) xs @ item # dropWhile (\<lambda>x. \<not> before x) xs)) \<and>
    (\<exists>h'. remove_matching (length xs + 1) match head h = Val (length (filter match xs), h') \<and>
      ring h' head (filter (\<lambda>x. \<not> match x) xs))"
proof -
  have "\<exists>z. nx h (hd (xs @ [head])) = Some z"
    using ring_links [of h head "[hd xs]" "tl xs"] ring_links [of h head "[]" "[]"] assms(1) by (cases xs) auto
  then obtain z where "next_of (Some (hd (xs @ [head]))) h = Val (Some z)" by (auto simp: next_of_nx)
  with remove_walk_ring [of h head "[]" xs "Some z" "length xs + 1" match 0] insert_walk_ring [of h head "[]" xs item m "length xs + 1" before]
    ring_head(1) [OF assms(1)] assms
  show ?thesis by (auto simp: insert_ordered_def remove_matching_def)
qed

theorem dl_list_loops_refine_witness:
  "\<exists>h'. insert_ordered 2 (\<lambda>x. x = 1) 0 2 two_nodes = Val h' \<and> ring h' 0 [2, 1]"
  using dl_list_loops_refine [of two_nodes 0 "[1]" 2 _ "\<lambda>x. x = 1"] two_nodes_ring by (auto simp: numeral_2_eq_2)

end
