(* ===== verification/Eloop.thy ===== *)
theory Eloop
  imports Wpa_Prelude
begin

text \<open>
  The event loop of \<^verbatim>\<open>src/utils/eloop.c\<close> in its variant with \<^verbatim>\<open>select\<close>: tables of sockets, timeouts ordered
  by time, signals, and the loop. Handlers are identified by values of a type parameter; what they do
  is the argument \<open>act\<close>, a function on the state of the loop, in which the state of the program is the
  field \<open>el_app\<close>. What \<^verbatim>\<open>select\<close> reports, the signals that arrive meanwhile and the clock behind it are
  given as a list of events, one for every round. Memory allocation succeeds.
\<close>

section \<open>Time\<close>

record os_reltime =
  rt_sec :: int
  rt_usec :: int

definition os_reltime_before :: "os_reltime \<Rightarrow> os_reltime \<Rightarrow> bool" where
  "os_reltime_before a b \<longleftrightarrow> rt_sec a < rt_sec b \<or> (rt_sec a = rt_sec b \<and> rt_usec a < rt_usec b)"

definition os_reltime_sub :: "os_reltime \<Rightarrow> os_reltime \<Rightarrow> os_reltime" where
  "os_reltime_sub a b =
     (let s = rt_sec a - rt_sec b; u = rt_usec a - rt_usec b
      in if u < 0 then \<lparr>rt_sec = s - 1, rt_usec = u + 1000000\<rparr> else \<lparr>rt_sec = s, rt_usec = u\<rparr>)"

text \<open>The type \<^verbatim>\<open>os_time_t\<close> has 64 bits; the addition of the seconds wraps around.\<close>

definition time_add :: "int \<Rightarrow> int \<Rightarrow> int" where
  "time_add a b = (a + b + 2 ^ 63) mod 2 ^ 64 - 2 ^ 63"

function usec_carry :: "os_reltime \<Rightarrow> os_reltime" where
  "usec_carry t =
     (if rt_usec t \<ge> 1000000 then usec_carry \<lparr>rt_sec = rt_sec t + 1, rt_usec = rt_usec t - 1000000\<rparr> else t)"
  by pat_completeness auto
termination
  by (relation "measure (\<lambda>t. nat (rt_usec t))") auto

declare usec_carry.simps [simp del]

section \<open>The state\<close>

datatype 'd ctx = ELOOP_ALL_CTX | Ctx 'd

datatype eloop_event_type = EVENT_TYPE_READ | EVENT_TYPE_WRITE | EVENT_TYPE_EXCEPTION

record ('h, 'd) eloop_sock =
  es_sock :: int
  es_eloop_data :: "'d ctx"
  es_user_data :: "'d ctx"
  es_handler :: 'h

record ('h, 'd) eloop_timeout =
  et_time :: os_reltime
  et_eloop_data :: "'d ctx"
  et_user_data :: "'d ctx"
  et_handler :: 'h

record ('h, 'd) eloop_signal =
  sg_sig :: int
  sg_user_data :: "'d ctx"
  sg_handler :: 'h
  sg_signaled :: nat

record ('h, 'd) eloop_sock_table =
  tb_table :: "('h, 'd) eloop_sock list"
  tb_changed :: bool

record ('h, 'd, 'a) eloop_data =
  el_max_sock :: int
  el_count :: int
  el_readers :: "('h, 'd) eloop_sock_table"
  el_writers :: "('h, 'd) eloop_sock_table"
  el_exceptions :: "('h, 'd) eloop_sock_table"
  el_timeout :: "('h, 'd) eloop_timeout list"
  el_signals :: "('h, 'd) eloop_signal list"
  el_signaled :: nat
  el_pending_terminate :: bool
  el_terminate :: bool
  el_now :: os_reltime
  el_tv :: "os_reltime option"
  el_app :: 'a

definition empty_table :: "('h, 'd) eloop_sock_table" where
  "empty_table = \<lparr>tb_table = [], tb_changed = False\<rparr>"

definition eloop_init :: "('h, 'd, 'a) eloop_data \<Rightarrow> ('h, 'd, 'a) eloop_data" where
  "eloop_init st = st\<lparr>el_max_sock := 0, el_count := 0, el_readers := empty_table, el_writers := empty_table,
     el_exceptions := empty_table, el_timeout := [], el_signals := [], el_signaled := 0,
     el_pending_terminate := False, el_terminate := False\<rparr>"

section \<open>Sockets\<close>

fun eloop_get_sock_table :: "eloop_event_type \<Rightarrow> ('h, 'd, 'a) eloop_data \<Rightarrow> ('h, 'd) eloop_sock_table" where
  "eloop_get_sock_table EVENT_TYPE_READ st = el_readers st"
| "eloop_get_sock_table EVENT_TYPE_WRITE st = el_writers st"
| "eloop_get_sock_table EVENT_TYPE_EXCEPTION st = el_exceptions st"

fun set_sock_table :: "eloop_event_type \<Rightarrow> ('h, 'd) eloop_sock_table \<Rightarrow> ('h, 'd, 'a) eloop_data \<Rightarrow> ('h, 'd, 'a) eloop_data" where
  "set_sock_table EVENT_TYPE_READ t st = st\<lparr>el_readers := t\<rparr>"
| "set_sock_table EVENT_TYPE_WRITE t st = st\<lparr>el_writers := t\<rparr>"
| "set_sock_table EVENT_TYPE_EXCEPTION t st = st\<lparr>el_exceptions := t\<rparr>"

definition eloop_sock_table_add_sock ::
  "eloop_event_type \<Rightarrow> int \<Rightarrow> 'h \<Rightarrow> 'd ctx \<Rightarrow> 'd ctx \<Rightarrow> ('h, 'd, 'a) eloop_data \<Rightarrow> ('h, 'd, 'a) eloop_data" where
  "eloop_sock_table_add_sock type sock handler eloop_data user_data st =
     (let new_max_sock = (if sock > el_max_sock st then sock else el_max_sock st);
          table = eloop_get_sock_table type st;
          e = \<lparr>es_sock = sock, es_eloop_data = eloop_data, es_user_data = user_data, es_handler = handler\<rparr>
      in (set_sock_table type \<lparr>tb_table = tb_table table @ [e], tb_changed = True\<rparr> st)
           \<lparr>el_max_sock := new_max_sock, el_count := el_count st + 1\<rparr>)"

text \<open>The first entry of the socket is removed and the entries behind it move up.\<close>

fun remove_first :: "('a \<Rightarrow> bool) \<Rightarrow> 'a list \<Rightarrow> 'a list" where
  "remove_first P [] = []"
| "remove_first P (x # xs) = (if P x then xs else x # remove_first P xs)"

definition eloop_sock_table_remove_sock ::
  "eloop_event_type \<Rightarrow> int \<Rightarrow> ('h, 'd, 'a) eloop_data \<Rightarrow> ('h, 'd, 'a) eloop_data" where
  "eloop_sock_table_remove_sock type sock st =
     (let table = eloop_get_sock_table type st
      in if \<not> list_ex (\<lambda>e. es_sock e = sock) (tb_table table) then st
         else (set_sock_table type \<lparr>tb_table = remove_first (\<lambda>e. es_sock e = sock) (tb_table table), tb_changed = True\<rparr> st)
                \<lparr>el_count := el_count st - 1\<rparr>)"

text \<open>A negative descriptor fails the assertion, which ends the program.\<close>

definition eloop_register_sock ::
  "int \<Rightarrow> eloop_event_type \<Rightarrow> 'h \<Rightarrow> 'd ctx \<Rightarrow> 'd ctx \<Rightarrow> ('h, 'd, 'a) eloop_data \<Rightarrow> ('h, 'd, 'a) eloop_data option" where
  "eloop_register_sock sock type handler eloop_data user_data st =
     (if sock < 0 then None else Some (eloop_sock_table_add_sock type sock handler eloop_data user_data st))"

definition eloop_unregister_sock :: "int \<Rightarrow> eloop_event_type \<Rightarrow> ('h, 'd, 'a) eloop_data \<Rightarrow> ('h, 'd, 'a) eloop_data" where
  "eloop_unregister_sock sock type st = eloop_sock_table_remove_sock type sock st"

definition eloop_register_read_sock ::
  "int \<Rightarrow> 'h \<Rightarrow> 'd ctx \<Rightarrow> 'd ctx \<Rightarrow> ('h, 'd, 'a) eloop_data \<Rightarrow> ('h, 'd, 'a) eloop_data option" where
  "eloop_register_read_sock sock handler eloop_data user_data st =
     eloop_register_sock sock EVENT_TYPE_READ handler eloop_data user_data st"

definition eloop_unregister_read_sock :: "int \<Rightarrow> ('h, 'd, 'a) eloop_data \<Rightarrow> ('h, 'd, 'a) eloop_data" where
  "eloop_unregister_read_sock sock st = eloop_unregister_sock sock EVENT_TYPE_READ st"

section \<open>Timeouts\<close>

text \<open>\<^verbatim>\<open>dl_list_for_each\<close> with an insertion before the first entry that is later, else at the end.\<close>

definition insert_timeout :: "('h, 'd) eloop_timeout \<Rightarrow> ('h, 'd) eloop_timeout list \<Rightarrow> ('h, 'd) eloop_timeout list" where
  "insert_timeout t ts =
     takeWhile (\<lambda>x. \<not> os_reltime_before (et_time t) (et_time x)) ts @ t #
     dropWhile (\<lambda>x. \<not> os_reltime_before (et_time t) (et_time x)) ts"

definition eloop_register_timeout ::
  "int \<Rightarrow> int \<Rightarrow> 'h \<Rightarrow> 'd ctx \<Rightarrow> 'd ctx \<Rightarrow> ('h, 'd, 'a) eloop_data \<Rightarrow> ('h, 'd, 'a) eloop_data" where
  "eloop_register_timeout secs usecs handler eloop_data user_data st =
     (let now_sec = rt_sec (el_now st); s = time_add now_sec secs
      in if s < now_sec then st
         else let time = usec_carry \<lparr>rt_sec = s, rt_usec = rt_usec (el_now st) + usecs\<rparr>
           in st\<lparr>el_timeout := insert_timeout
                  \<lparr>et_time = time, et_eloop_data = eloop_data, et_user_data = user_data, et_handler = handler\<rparr>
                  (el_timeout st)\<rparr>)"

definition cancel_matches :: "'h \<Rightarrow> 'd ctx \<Rightarrow> 'd ctx \<Rightarrow> ('h, 'd) eloop_timeout \<Rightarrow> bool" where
  "cancel_matches handler eloop_data user_data t \<longleftrightarrow>
     et_handler t = handler \<and> (et_eloop_data t = eloop_data \<or> eloop_data = ELOOP_ALL_CTX) \<and>
     (et_user_data t = user_data \<or> user_data = ELOOP_ALL_CTX)"

definition eloop_cancel_timeout ::
  "'h \<Rightarrow> 'd ctx \<Rightarrow> 'd ctx \<Rightarrow> ('h, 'd, 'a) eloop_data \<Rightarrow> nat \<times> ('h, 'd, 'a) eloop_data" where
  "eloop_cancel_timeout handler eloop_data user_data st =
     (length (filter (cancel_matches handler eloop_data user_data) (el_timeout st)),
      st\<lparr>el_timeout := filter (\<lambda>t. \<not> cancel_matches handler eloop_data user_data t) (el_timeout st)\<rparr>)"

definition timeout_is :: "'h \<Rightarrow> 'd ctx \<Rightarrow> 'd ctx \<Rightarrow> ('h, 'd) eloop_timeout \<Rightarrow> bool" where
  "timeout_is handler eloop_data user_data t \<longleftrightarrow>
     et_handler t = handler \<and> et_eloop_data t = eloop_data \<and> et_user_data t = user_data"

definition eloop_cancel_timeout_one ::
  "'h \<Rightarrow> 'd ctx \<Rightarrow> 'd ctx \<Rightarrow> ('h, 'd, 'a) eloop_data \<Rightarrow> (bool \<times> os_reltime) \<times> ('h, 'd, 'a) eloop_data" where
  "eloop_cancel_timeout_one handler eloop_data user_data st =
     (let none = \<lparr>rt_sec = 0, rt_usec = 0\<rparr>
      in case find (timeout_is handler eloop_data user_data) (el_timeout st) of
           None \<Rightarrow> ((False, none), st)
         | Some t \<Rightarrow>
             ((True, if os_reltime_before (el_now st) (et_time t) then os_reltime_sub (et_time t) (el_now st) else none),
              st\<lparr>el_timeout := remove_first (timeout_is handler eloop_data user_data) (el_timeout st)\<rparr>))"

definition eloop_is_timeout_registered :: "'h \<Rightarrow> 'd ctx \<Rightarrow> 'd ctx \<Rightarrow> ('h, 'd, 'a) eloop_data \<Rightarrow> bool" where
  "eloop_is_timeout_registered handler eloop_data user_data st =
     list_ex (timeout_is handler eloop_data user_data) (el_timeout st)"

definition eloop_deplete_timeout ::
  "int \<Rightarrow> int \<Rightarrow> 'h \<Rightarrow> 'd ctx \<Rightarrow> 'd ctx \<Rightarrow> ('h, 'd, 'a) eloop_data \<Rightarrow> int \<times> ('h, 'd, 'a) eloop_data" where
  "eloop_deplete_timeout req_secs req_usecs handler eloop_data user_data st =
     (case find (timeout_is handler eloop_data user_data) (el_timeout st) of
        None \<Rightarrow> (-1, st)
      | Some t \<Rightarrow>
          let requested = \<lparr>rt_sec = req_secs, rt_usec = req_usecs\<rparr>; remaining = os_reltime_sub (et_time t) (el_now st)
          in if os_reltime_before requested remaining
             then (1, eloop_register_timeout req_secs req_usecs handler eloop_data user_data
                        (snd (eloop_cancel_timeout handler eloop_data user_data st)))
             else (0, st))"

definition eloop_replenish_timeout ::
  "int \<Rightarrow> int \<Rightarrow> 'h \<Rightarrow> 'd ctx \<Rightarrow> 'd ctx \<Rightarrow> ('h, 'd, 'a) eloop_data \<Rightarrow> int \<times> ('h, 'd, 'a) eloop_data" where
  "eloop_replenish_timeout req_secs req_usecs handler eloop_data user_data st =
     (case find (timeout_is handler eloop_data user_data) (el_timeout st) of
        None \<Rightarrow> (-1, st)
      | Some t \<Rightarrow>
          let requested = \<lparr>rt_sec = req_secs, rt_usec = req_usecs\<rparr>; remaining = os_reltime_sub (et_time t) (el_now st)
          in if os_reltime_before remaining requested
             then (1, eloop_register_timeout req_secs req_usecs handler eloop_data user_data
                        (snd (eloop_cancel_timeout handler eloop_data user_data st)))
             else (0, st))"

section \<open>Signals\<close>

definition SIGHUP :: int where "SIGHUP = 1"
definition SIGINT :: int where "SIGINT = 2"
definition SIGTERM :: int where "SIGTERM = 15"

fun count_signal :: "int \<Rightarrow> ('h, 'd) eloop_signal list \<Rightarrow> ('h, 'd) eloop_signal list" where
  "count_signal sig [] = []"
| "count_signal sig (s # ss) = (if sg_sig s = sig then s\<lparr>sg_signaled := sg_signaled s + 1\<rparr> # ss else s # count_signal sig ss)"

text \<open>The alarm that ends a program stuck for two seconds is left out.\<close>

definition eloop_handle_signal :: "int \<Rightarrow> ('h, 'd, 'a) eloop_data \<Rightarrow> ('h, 'd, 'a) eloop_data" where
  "eloop_handle_signal sig st =
     (let st = (if (sig = SIGINT \<or> sig = SIGTERM) \<and> \<not> el_pending_terminate st then st\<lparr>el_pending_terminate := True\<rparr> else st)
      in st\<lparr>el_signaled := el_signaled st + 1, el_signals := count_signal sig (el_signals st)\<rparr>)"

definition eloop_register_signal ::
  "int \<Rightarrow> 'h \<Rightarrow> 'd ctx \<Rightarrow> ('h, 'd, 'a) eloop_data \<Rightarrow> ('h, 'd, 'a) eloop_data" where
  "eloop_register_signal sig handler user_data st =
     st\<lparr>el_signals := el_signals st @ [\<lparr>sg_sig = sig, sg_user_data = user_data, sg_handler = handler, sg_signaled = 0\<rparr>]\<rparr>"

definition eloop_register_signal_terminate :: "'h \<Rightarrow> 'd ctx \<Rightarrow> ('h, 'd, 'a) eloop_data \<Rightarrow> ('h, 'd, 'a) eloop_data" where
  "eloop_register_signal_terminate handler user_data st =
     eloop_register_signal SIGTERM handler user_data (eloop_register_signal SIGINT handler user_data st)"

definition eloop_register_signal_reconfig :: "'h \<Rightarrow> 'd ctx \<Rightarrow> ('h, 'd, 'a) eloop_data \<Rightarrow> ('h, 'd, 'a) eloop_data" where
  "eloop_register_signal_reconfig handler user_data st = eloop_register_signal SIGHUP handler user_data st"

section \<open>The loop\<close>

datatype ('h, 'd) call =
    Sock_call 'h int "'d ctx" "'d ctx"
  | Timeout_call 'h "'d ctx" "'d ctx"
  | Signal_call 'h int "'d ctx"

type_synonym ('h, 'd, 'a) action = "('h, 'd) call \<Rightarrow> ('h, 'd, 'a) eloop_data \<Rightarrow> ('h, 'd, 'a) eloop_data"

fun pending_signals :: "('h, 'd, 'a) action \<Rightarrow> nat list \<Rightarrow> ('h, 'd, 'a) eloop_data \<Rightarrow> ('h, 'd, 'a) eloop_data" where
  "pending_signals act [] st = st"
| "pending_signals act (i # is) st =
     (let s = el_signals st ! i
      in pending_signals act is
        (if sg_signaled s \<noteq> 0
         then act (Signal_call (sg_handler s) (sg_sig s) (sg_user_data s)) (st\<lparr>el_signals := (el_signals st)[i := s\<lparr>sg_signaled := 0\<rparr>]\<rparr>)
         else st))"

definition eloop_process_pending_signals :: "('h, 'd, 'a) action \<Rightarrow> ('h, 'd, 'a) eloop_data \<Rightarrow> ('h, 'd, 'a) eloop_data" where
  "eloop_process_pending_signals act st =
     (if el_signaled st = 0 then st
      else pending_signals act [0..<length (el_signals st)] (st\<lparr>el_signaled := 0, el_pending_terminate := False\<rparr>))"

text \<open>The descriptors handed to \<^verbatim>\<open>select\<close>, of which it looks at those up to \<open>el_max_sock\<close>.\<close>

definition eloop_sock_table_set_fds :: "('h, 'd) eloop_sock_table \<Rightarrow> int set" where
  "eloop_sock_table_set_fds table = es_sock ` set (tb_table table)"

text \<open>
  The entries from a position of the table on. A handler that registers or removes a socket sets the
  flag of the table, which ends the iteration, so the entries still to come are those of the table.
\<close>

fun dispatch_entries ::
  "('h, 'd, 'a) action \<Rightarrow> eloop_event_type \<Rightarrow> int set \<Rightarrow> ('h, 'd) eloop_sock list \<Rightarrow> ('h, 'd, 'a) eloop_data \<Rightarrow>
     ('h, 'd, 'a) eloop_data" where
  "dispatch_entries act type fds [] st = st"
| "dispatch_entries act type fds (e # es) st =
     (if es_sock e \<in> fds then
        let st = act (Sock_call (es_handler e) (es_sock e) (es_eloop_data e) (es_user_data e)) st
        in if tb_changed (eloop_get_sock_table type st) then st else dispatch_entries act type fds es st
      else dispatch_entries act type fds es st)"

definition eloop_sock_table_dispatch ::
  "('h, 'd, 'a) action \<Rightarrow> eloop_event_type \<Rightarrow> int set \<Rightarrow> ('h, 'd, 'a) eloop_data \<Rightarrow> ('h, 'd, 'a) eloop_data" where
  "eloop_sock_table_dispatch act type fds st =
     (let table = eloop_get_sock_table type st
      in dispatch_entries act type fds (tb_table table) (set_sock_table type (table\<lparr>tb_changed := False\<rparr>) st))"

record select_event =
  sel_res :: int
  sel_eintr :: bool
  sel_rfds :: "int set"
  sel_wfds :: "int set"
  sel_efds :: "int set"
  sel_signals :: "int list"
  sel_time :: os_reltime

text \<open>The time \<^verbatim>\<open>select\<close> waits at most: until the first timeout.\<close>

definition select_timeout :: "('h, 'd, 'a) eloop_data \<Rightarrow> os_reltime option" where
  "select_timeout st =
     (case el_timeout st of
        [] \<Rightarrow> None
      | t # _ \<Rightarrow> Some (if os_reltime_before (el_now st) (et_time t) then os_reltime_sub (et_time t) (el_now st)
                      else \<lparr>rt_sec = 0, rt_usec = 0\<rparr>))"

definition run_timeout :: "('h, 'd, 'a) action \<Rightarrow> ('h, 'd, 'a) eloop_data \<Rightarrow> ('h, 'd, 'a) eloop_data" where
  "run_timeout act st =
     (case el_timeout st of
        [] \<Rightarrow> st
      | t # ts \<Rightarrow>
          if \<not> os_reltime_before (el_now st) (et_time t)
          then act (Timeout_call (et_handler t) (et_eloop_data t) (et_user_data t)) (st\<lparr>el_timeout := ts\<rparr>)
          else st)"

definition clear_changed :: "('h, 'd, 'a) eloop_data \<Rightarrow> ('h, 'd, 'a) eloop_data" where
  "clear_changed st = st\<lparr>el_readers := (el_readers st)\<lparr>tb_changed := False\<rparr>, el_writers := (el_writers st)\<lparr>tb_changed := False\<rparr>,
     el_exceptions := (el_exceptions st)\<lparr>tb_changed := False\<rparr>\<rparr>"

definition any_changed :: "('h, 'd, 'a) eloop_data \<Rightarrow> bool" where
  "any_changed st \<longleftrightarrow> tb_changed (el_readers st) \<or> tb_changed (el_writers st) \<or> tb_changed (el_exceptions st)"

definition watched :: "eloop_event_type \<Rightarrow> int set \<Rightarrow> ('h, 'd, 'a) eloop_data \<Rightarrow> int set" where
  "watched type ready st = {s \<in> eloop_sock_table_set_fds (eloop_get_sock_table type st). s \<le> el_max_sock st \<and> s \<in> ready}"

text \<open>A round from the call of \<^verbatim>\<open>select\<close> on. The result \<open>None\<close> is the error of \<^verbatim>\<open>select\<close>, which leaves the loop.\<close>

definition eloop_round ::
  "('h, 'd, 'a) action \<Rightarrow> select_event \<Rightarrow> ('h, 'd, 'a) eloop_data \<Rightarrow> ('h, 'd, 'a) eloop_data option" where
  "eloop_round act ev st =
     (let st = st\<lparr>el_tv := select_timeout st\<rparr>;
          rfds = watched EVENT_TYPE_READ (sel_rfds ev) st;
          wfds = watched EVENT_TYPE_WRITE (sel_wfds ev) st;
          efds = watched EVENT_TYPE_EXCEPTION (sel_efds ev) st;
          st = fold eloop_handle_signal (sel_signals ev) (st\<lparr>el_now := sel_time ev\<rparr>)
      in if sel_res ev < 0 \<and> \<not> sel_eintr ev then None
         else
           let st = run_timeout act (eloop_process_pending_signals act (clear_changed st))
           in if sel_res ev \<le> 0 \<or> any_changed st then Some st
              else Some (eloop_sock_table_dispatch act EVENT_TYPE_EXCEPTION efds
                          (eloop_sock_table_dispatch act EVENT_TYPE_WRITE wfds
                            (eloop_sock_table_dispatch act EVENT_TYPE_READ rfds st))))"

definition loop_continues :: "('h, 'd, 'a) eloop_data \<Rightarrow> bool" where
  "loop_continues st \<longleftrightarrow> \<not> el_terminate st \<and>
     (el_timeout st \<noteq> [] \<or> tb_table (el_readers st) \<noteq> [] \<or> tb_table (el_writers st) \<noteq> [] \<or> tb_table (el_exceptions st) \<noteq> [])"

text \<open>
  The loop: the flag of the result tells whether it has returned; it has not when the events are
  used up, where \<^verbatim>\<open>select\<close> waits.
\<close>

definition before_select :: "('h, 'd, 'a) action \<Rightarrow> ('h, 'd, 'a) eloop_data \<Rightarrow> ('h, 'd, 'a) eloop_data" where
  "before_select act st = (if el_pending_terminate st then eloop_process_pending_signals act st else st)"

definition select_failed :: "select_event \<Rightarrow> ('h, 'd, 'a) eloop_data \<Rightarrow> ('h, 'd, 'a) eloop_data" where
  "select_failed ev st = fold eloop_handle_signal (sel_signals ev) (st\<lparr>el_tv := select_timeout st, el_now := sel_time ev\<rparr>)"

fun eloop_run ::
  "('h, 'd, 'a) action \<Rightarrow> select_event list \<Rightarrow> ('h, 'd, 'a) eloop_data \<Rightarrow> bool \<times> ('h, 'd, 'a) eloop_data" where
  "eloop_run act [] st =
     (if \<not> loop_continues st then (True, st\<lparr>el_terminate := False\<rparr>)
      else if el_terminate (before_select act st) then (True, (before_select act st)\<lparr>el_terminate := False\<rparr>)
      else (False, before_select act st))"
| "eloop_run act (ev # evs) st =
     (if \<not> loop_continues st then (True, st\<lparr>el_terminate := False\<rparr>)
      else if el_terminate (before_select act st) then (True, (before_select act st)\<lparr>el_terminate := False\<rparr>)
      else case eloop_round act ev (before_select act st) of
          None \<Rightarrow> (True, select_failed ev (before_select act st))
        | Some st \<Rightarrow> eloop_run act evs st)"

definition eloop_terminate :: "('h, 'd, 'a) eloop_data \<Rightarrow> ('h, 'd, 'a) eloop_data" where
  "eloop_terminate st = st\<lparr>el_terminate := True\<rparr>"

definition eloop_terminated :: "('h, 'd, 'a) eloop_data \<Rightarrow> bool" where
  "eloop_terminated st \<longleftrightarrow> el_terminate st \<or> el_pending_terminate st"

section \<open>Ordered insertion\<close>

text \<open>What ordering a queue of entries by time takes: a strict weak order on the times.\<close>

locale time_order =
  fixes before :: "'t \<Rightarrow> 't \<Rightarrow> bool" and time :: "'e \<Rightarrow> 't"
  assumes irrefl: "\<not> before a a"
    and trans: "before a b \<Longrightarrow> before b c \<Longrightarrow> before a c"
    and neg_trans: "\<not> before a b \<Longrightarrow> \<not> before b c \<Longrightarrow> \<not> before a c"
begin

lemma asym: "before a b \<Longrightarrow> \<not> before b a"
  using irrefl trans by blast

lemma insert_in_order:
  assumes "sorted_wrt (\<lambda>a b. \<not> before (time b) (time a)) es"
  shows "sorted_wrt (\<lambda>a b. \<not> before (time b) (time a))
    (takeWhile (\<lambda>x. \<not> before (time e) (time x)) es @ e # dropWhile (\<lambda>x. \<not> before (time e) (time x)) es)"
  using assms
proof (induction es)
  case (Cons a es)
  show ?case
  proof (cases "before (time e) (time a)")
    case True
    then have "\<not> before (time x) (time e)" if "x = a \<or> x \<in> set es" for x
      using that Cons.prems asym neg_trans [of "time x" "time a" "time e"] by auto
    with True Cons.prems show ?thesis by simp
  next
    case False
    have "\<not> before (time x) (time a)"
      if "x \<in> set (takeWhile (\<lambda>x. \<not> before (time e) (time x)) es) \<or> x \<in> set (dropWhile (\<lambda>x. \<not> before (time e) (time x)) es)" for x
      using that Cons.prems by (auto dest: set_takeWhileD set_dropWhileD)
    with False Cons show ?thesis by auto
  qed
qed simp

end

definition tv_of :: "os_reltime \<Rightarrow> int" where
  "tv_of t = rt_sec t * 1000000 + rt_usec t"

definition time_ok :: "os_reltime \<Rightarrow> bool" where
  "time_ok t \<longleftrightarrow> 0 \<le> rt_usec t \<and> rt_usec t < 1000000"

interpretation reltime: time_order os_reltime_before "et_time :: ('h, 'd) eloop_timeout \<Rightarrow> os_reltime"
  by unfold_locales (auto simp: os_reltime_before_def)

lemma before_tv: "time_ok a \<Longrightarrow> time_ok b \<Longrightarrow> os_reltime_before a b \<longleftrightarrow> tv_of a < tv_of b"
  by (auto simp: os_reltime_before_def time_ok_def tv_of_def)

lemma sub_tv: "time_ok a \<Longrightarrow> time_ok b \<Longrightarrow> time_ok (os_reltime_sub a b) \<and> tv_of (os_reltime_sub a b) = tv_of a - tv_of b"
  by (auto simp: os_reltime_sub_def time_ok_def tv_of_def Let_def)

lemma usec_carry_ok: "0 \<le> rt_usec t \<Longrightarrow> time_ok (usec_carry t) \<and> tv_of (usec_carry t) = tv_of t"
proof (induction t rule: usec_carry.induct)
  case (1 t)
  show ?case
  proof (cases "1000000 \<le> rt_usec t")
    case True
    then have "usec_carry t = usec_carry \<lparr>rt_sec = rt_sec t + 1, rt_usec = rt_usec t - 1000000\<rparr>" by (subst usec_carry.simps) simp
    with 1 True show ?thesis by (simp add: tv_of_def)
  next
    case False
    then have "usec_carry t = t" by (subst usec_carry.simps) simp
    with 1 False show ?thesis by (simp add: time_ok_def)
  qed
qed

text \<open>Without an overflow of the seconds the deadline is the time now and the requested span.\<close>

lemma time_add_small: "- (2 ^ 63) \<le> a + b \<Longrightarrow> a + b < 2 ^ 63 \<Longrightarrow> time_add a b = a + b"
  by (simp add: time_add_def)

section \<open>The invariant\<close>

definition all_socks :: "('h, 'd, 'a) eloop_data \<Rightarrow> ('h, 'd) eloop_sock list" where
  "all_socks st = tb_table (el_readers st) @ tb_table (el_writers st) @ tb_table (el_exceptions st)"

definition timers_ok :: "('h, 'd) eloop_timeout list \<Rightarrow> bool" where
  "timers_ok ts \<longleftrightarrow> sorted_wrt (\<lambda>a b. \<not> os_reltime_before (et_time b) (et_time a)) ts \<and> (\<forall>t \<in> set ts. time_ok (et_time t))"

definition eloop_inv :: "('h, 'd, 'a) eloop_data \<Rightarrow> bool" where
  "eloop_inv st \<longleftrightarrow> timers_ok (el_timeout st) \<and> time_ok (el_now st) \<and> el_count st = int (length (all_socks st)) \<and>
     (\<forall>e \<in> set (all_socks st). 0 \<le> es_sock e \<and> es_sock e \<le> el_max_sock st)"

text \<open>What handlers may do: call the functions of the event loop and change the state of the program.\<close>

inductive api_call :: "('h, 'd, 'a) eloop_data \<Rightarrow> ('h, 'd, 'a) eloop_data \<Rightarrow> bool" where
  register_sock: "eloop_register_sock s type h d u st = Some st' \<Longrightarrow> api_call st st'"
| unregister_sock: "api_call st (eloop_unregister_sock s type st)"
| register_timeout: "0 \<le> secs \<Longrightarrow> 0 \<le> usecs \<Longrightarrow> api_call st (eloop_register_timeout secs usecs h d u st)"
| cancel_timeout: "api_call st (snd (eloop_cancel_timeout h d u st))"
| cancel_timeout_one: "api_call st (snd (eloop_cancel_timeout_one h d u st))"
| deplete: "0 \<le> secs \<Longrightarrow> 0 \<le> usecs \<Longrightarrow> api_call st (snd (eloop_deplete_timeout secs usecs h d u st))"
| replenish: "0 \<le> secs \<Longrightarrow> 0 \<le> usecs \<Longrightarrow> api_call st (snd (eloop_replenish_timeout secs usecs h d u st))"
| register_signal: "api_call st (eloop_register_signal sig h u st)"
| terminate: "api_call st (eloop_terminate st)"
| program: "api_call st (st\<lparr>el_app := a\<rparr>)"
| clock: "time_ok t \<Longrightarrow> api_call st (st\<lparr>el_now := t\<rparr>)"

inductive_cases api_callE: "api_call st st'"

definition act_ok :: "('h, 'd, 'a) action \<Rightarrow> bool" where
  "act_ok act \<longleftrightarrow> (\<forall>c st. api_call\<^sup>*\<^sup>* st (act c st))"

lemma timers_ok_sub:
  assumes "timers_ok ts"
  shows "timers_ok (filter P ts)" "timers_ok (remove_first P ts)" "timers_ok (tl ts)"
proof -
  show "timers_ok (filter P ts)" using assms by (auto simp: timers_ok_def sorted_wrt_filter)
  show "timers_ok (remove_first P ts)"
    using assms
  proof (induction ts)
    case (Cons t ts)
    moreover have "set (remove_first P ts) \<subseteq> set ts" by (induction ts) auto
    ultimately show ?case by (auto simp: timers_ok_def)
  qed simp
  show "timers_ok (tl ts)" using assms by (cases ts) (auto simp: timers_ok_def)
qed

lemma timers_ok_insert: "timers_ok ts \<Longrightarrow> time_ok (et_time t) \<Longrightarrow> timers_ok (insert_timeout t ts)"
  using reltime.insert_in_order [of ts t]
  by (auto simp: timers_ok_def insert_timeout_def dest: set_takeWhileD set_dropWhileD)

lemma register_timeout_fields:
  "\<exists>ts. eloop_register_timeout secs usecs h d u st = st\<lparr>el_timeout := ts\<rparr> \<and>
     (timers_ok (el_timeout st) \<and> time_ok (el_now st) \<and> 0 \<le> usecs \<longrightarrow> timers_ok ts)"
proof (cases "time_add (rt_sec (el_now st)) secs < rt_sec (el_now st)")
  case True
  then show ?thesis by (intro exI [of _ "el_timeout st"]) (simp add: eloop_register_timeout_def)
next
  case False
  let ?t = "\<lparr>et_time = usec_carry \<lparr>rt_sec = time_add (rt_sec (el_now st)) secs, rt_usec = rt_usec (el_now st) + usecs\<rparr>,
    et_eloop_data = d, et_user_data = u, et_handler = h\<rparr>"
  have "time_ok (el_now st) \<and> 0 \<le> usecs \<longrightarrow> time_ok (et_time ?t)" by (auto simp: time_ok_def [of "el_now st"] intro: usec_carry_ok [THEN conjunct1])
  then show ?thesis using False timers_ok_insert [of "el_timeout st" ?t]
    by (intro exI [of _ "insert_timeout ?t (el_timeout st)"]) (auto simp: eloop_register_timeout_def Let_def)
qed

lemma eloop_inv_timeout: "eloop_inv st \<Longrightarrow> timers_ok ts \<Longrightarrow> eloop_inv (st\<lparr>el_timeout := ts\<rparr>)"
  by (simp add: eloop_inv_def all_socks_def)

lemma register_timeout_inv: "eloop_inv st \<Longrightarrow> 0 \<le> usecs \<Longrightarrow> eloop_inv (eloop_register_timeout secs usecs h d u st)"
  using register_timeout_fields [of secs usecs h d u st] by (auto simp: eloop_inv_def all_socks_def)

lemma cancel_timeout_inv: "eloop_inv st \<Longrightarrow> eloop_inv (snd (eloop_cancel_timeout h d u st))"
  by (simp add: eloop_cancel_timeout_def eloop_inv_timeout timers_ok_sub eloop_inv_def [of st])

lemma add_sock_fields:
  assumes "st' = eloop_sock_table_add_sock type s h d u st"
  shows "set (all_socks st') = insert \<lparr>es_sock = s, es_eloop_data = d, es_user_data = u, es_handler = h\<rparr> (set (all_socks st))"
    "length (all_socks st') = length (all_socks st) + 1" "el_count st' = el_count st + 1" "el_max_sock st' = max s (el_max_sock st)"
    "el_timeout st' = el_timeout st" "el_now st' = el_now st"
  using assms by (cases type; auto simp: all_socks_def eloop_sock_table_add_sock_def Let_def)+

lemma add_sock_inv: "eloop_inv st \<Longrightarrow> 0 \<le> s \<Longrightarrow> eloop_inv (eloop_sock_table_add_sock type s h d u st)"
  by (auto simp: eloop_inv_def add_sock_fields [OF refl])

lemma remove_first_length: "list_ex P xs \<Longrightarrow> length xs = length (remove_first P xs) + 1"
  by (induction xs) auto

lemma remove_first_subset: "x \<in> set (remove_first P xs) \<Longrightarrow> x \<in> set xs"
  by (induction xs) (auto split: if_split_asm)

lemma remove_sock_fields:
  assumes "st' = eloop_sock_table_remove_sock type s st"
  shows "set (all_socks st') \<subseteq> set (all_socks st)"
    "int (length (all_socks st')) - el_count st' = int (length (all_socks st)) - el_count st" "el_max_sock st' = el_max_sock st"
    "el_timeout st' = el_timeout st" "el_now st' = el_now st"
proof -
  let ?t = "tb_table (eloop_get_sock_table type st)" and ?P = "\<lambda>e. es_sock e = s"
  have r: "list_ex ?P ?t \<Longrightarrow> int (length (remove_first ?P ?t)) = int (length ?t) - 1" "set (remove_first ?P ?t) \<subseteq> set ?t"
    using remove_first_length [of ?P ?t] remove_first_subset [of _ ?P ?t] by auto
  show "set (all_socks st') \<subseteq> set (all_socks st)"
    "int (length (all_socks st')) - el_count st' = int (length (all_socks st)) - el_count st" "el_max_sock st' = el_max_sock st"
    "el_timeout st' = el_timeout st" "el_now st' = el_now st"
    unfolding assms eloop_sock_table_remove_sock_def Let_def using r
    by (cases type; cases "list_ex ?P ?t"; force simp: all_socks_def)+
qed

lemma remove_sock_inv: "eloop_inv st \<Longrightarrow> eloop_inv (eloop_sock_table_remove_sock type s st)"
  using remove_sock_fields [OF refl, of type s st] by (auto simp: eloop_inv_def)

lemma api_call_inv: "api_call st st' \<Longrightarrow> eloop_inv st \<Longrightarrow> eloop_inv st'"
proof (induction rule: api_call.induct)
  case (register_sock s type h d u st st')
  then show ?case by (auto simp: eloop_register_sock_def add_sock_inv split: if_splits)
next
  case (cancel_timeout_one st h d u)
  then show ?case
    by (auto simp: eloop_cancel_timeout_one_def Let_def eloop_inv_timeout timers_ok_sub eloop_inv_def [of st] split: option.split)
next
  case (deplete secs usecs st h d u)
  then show ?case
    by (auto simp: eloop_deplete_timeout_def Let_def register_timeout_inv cancel_timeout_inv split: option.split)
next
  case (replenish secs usecs st h d u)
  then show ?case
    by (auto simp: eloop_replenish_timeout_def Let_def register_timeout_inv cancel_timeout_inv split: option.split)
next
  case (unregister_sock st s type)
  then show ?case by (simp add: eloop_unregister_sock_def remove_sock_inv)
next
  case (register_timeout secs usecs st h d u)
  then show ?case by (simp add: register_timeout_inv)
next
  case (cancel_timeout st h d u)
  then show ?case by (simp add: cancel_timeout_inv)
qed (simp_all add: eloop_register_signal_def eloop_terminate_def eloop_inv_def all_socks_def)

lemma api_calls_inv: "api_call\<^sup>*\<^sup>* st st' \<Longrightarrow> eloop_inv st \<Longrightarrow> eloop_inv st'"
  by (induction rule: rtranclp_induct) (auto intro: api_call_inv)

lemma act_inv: "act_ok act \<Longrightarrow> eloop_inv st \<Longrightarrow> eloop_inv (act c st)"
  by (auto simp: act_ok_def intro: api_calls_inv)

lemma inv_other [simp]:
  "eloop_inv (st\<lparr>el_terminate := b\<rparr>) \<longleftrightarrow> eloop_inv st" "eloop_inv (st\<lparr>el_tv := v\<rparr>) \<longleftrightarrow> eloop_inv st"
  "eloop_inv (st\<lparr>el_signals := ss\<rparr>) \<longleftrightarrow> eloop_inv st" "eloop_inv (st\<lparr>el_signaled := n\<rparr>) \<longleftrightarrow> eloop_inv st"
  "eloop_inv (st\<lparr>el_pending_terminate := b\<rparr>) \<longleftrightarrow> eloop_inv st"
  by (simp_all add: eloop_inv_def all_socks_def)

lemma handle_signal_inv [simp]: "eloop_inv (eloop_handle_signal sig st) \<longleftrightarrow> eloop_inv st"
  by (simp add: eloop_handle_signal_def Let_def)

lemma handle_signals_inv [simp]: "eloop_inv (fold eloop_handle_signal sigs st) \<longleftrightarrow> eloop_inv st"
  by (induction sigs arbitrary: st) simp_all

lemma inv_now: "eloop_inv st \<Longrightarrow> time_ok t \<Longrightarrow> eloop_inv (st\<lparr>el_now := t\<rparr>)"
  by (simp add: eloop_inv_def all_socks_def)

lemma pending_signals_inv: "act_ok act \<Longrightarrow> eloop_inv st \<Longrightarrow> eloop_inv (pending_signals act is st)"
  by (induction "is" arbitrary: st) (simp_all add: Let_def act_inv)

lemma process_pending_inv: "act_ok act \<Longrightarrow> eloop_inv st \<Longrightarrow> eloop_inv (eloop_process_pending_signals act st)"
  by (simp add: eloop_process_pending_signals_def pending_signals_inv)

lemma run_timeout_inv: "act_ok act \<Longrightarrow> eloop_inv st \<Longrightarrow> eloop_inv (run_timeout act st)"
  using timers_ok_sub(3) [of "el_timeout st"]
  by (auto simp: run_timeout_def act_inv eloop_inv_timeout eloop_inv_def [of st] split: list.split)

lemma clear_changed_inv: "eloop_inv (clear_changed st) \<longleftrightarrow> eloop_inv st"
  by (simp add: clear_changed_def eloop_inv_def all_socks_def)

lemma dispatch_entries_inv: "act_ok act \<Longrightarrow> eloop_inv st \<Longrightarrow> eloop_inv (dispatch_entries act type fds es st)"
  by (induction es arbitrary: st) (simp_all add: Let_def act_inv)

lemma dispatch_inv: "act_ok act \<Longrightarrow> eloop_inv st \<Longrightarrow> eloop_inv (eloop_sock_table_dispatch act type fds st)"
  unfolding eloop_sock_table_dispatch_def Let_def
  by (rule dispatch_entries_inv, assumption) (cases type; simp add: eloop_inv_def all_socks_def)

lemma round_inv:
  assumes "act_ok act" "eloop_inv st" "time_ok (sel_time ev)" "eloop_round act ev st = Some st'"
  shows "eloop_inv st'"
proof -
  let ?s = "fold eloop_handle_signal (sel_signals ev) (st\<lparr>el_tv := select_timeout st, el_now := sel_time ev\<rparr>)"
  have "eloop_inv ?s" using assms(2,3) inv_now [of "st\<lparr>el_tv := select_timeout st\<rparr>"] by simp
  then have "eloop_inv (run_timeout act (eloop_process_pending_signals act (clear_changed ?s)))"
    using assms(1) by (simp add: run_timeout_inv process_pending_inv clear_changed_inv)
  then show ?thesis using assms(1,4) by (auto simp: eloop_round_def Let_def dispatch_inv split: if_split_asm)
qed

lemma before_select_inv: "act_ok act \<Longrightarrow> eloop_inv st \<Longrightarrow> eloop_inv (before_select act st)"
  by (simp add: before_select_def process_pending_inv)

lemma select_failed_inv: "eloop_inv st \<Longrightarrow> time_ok (sel_time ev) \<Longrightarrow> eloop_inv (select_failed ev st)"
  using inv_now [of "st\<lparr>el_tv := select_timeout st\<rparr>"] by (simp add: select_failed_def)

lemma run_inv:
  assumes "act_ok act" "\<forall>ev \<in> set evs. time_ok (sel_time ev)" "eloop_inv st"
  shows "eloop_inv (snd (eloop_run act evs st))"
  using assms(2,3)
proof (induction evs arbitrary: st)
  case Nil
  then show ?case using assms(1) by (simp add: before_select_inv)
next
  case (Cons ev evs)
  then have s: "eloop_inv (before_select act st)" using assms(1) by (simp add: before_select_inv)
  with Cons round_inv [OF assms(1) s, of ev] show ?case by (auto simp: select_failed_inv split: option.split)
qed

section \<open>Dispatching\<close>

definition entry_call :: "('h, 'd) eloop_sock \<Rightarrow> ('h, 'd) call" where
  "entry_call e = Sock_call (es_handler e) (es_sock e) (es_eloop_data e) (es_user_data e)"

text \<open>The same handlers, called only while they are registered.\<close>

definition guarded :: "eloop_event_type \<Rightarrow> ('h, 'd, 'a) action \<Rightarrow> ('h, 'd, 'a) action" where
  "guarded type act c st = (if c \<in> entry_call ` set (tb_table (eloop_get_sock_table type st)) then act c st else st)"

lemma set_sock_table_same [simp]: "eloop_get_sock_table type (set_sock_table type t st) = t"
  by (cases type) simp_all

lemma set_sock_table_other: "type \<noteq> type' \<Longrightarrow> eloop_get_sock_table type (set_sock_table type' t st) = eloop_get_sock_table type st"
  by (cases type; cases type') simp_all

lemma table_other [simp]:
  "eloop_get_sock_table type (st\<lparr>el_timeout := ts\<rparr>) = eloop_get_sock_table type st"
  "eloop_get_sock_table type (st\<lparr>el_signals := ss\<rparr>) = eloop_get_sock_table type st"
  "eloop_get_sock_table type (st\<lparr>el_terminate := b\<rparr>) = eloop_get_sock_table type st"
  "eloop_get_sock_table type (st\<lparr>el_app := a\<rparr>) = eloop_get_sock_table type st"
  "eloop_get_sock_table type (st\<lparr>el_now := t\<rparr>) = eloop_get_sock_table type st"
  "eloop_get_sock_table type (st\<lparr>el_count := n\<rparr>) = eloop_get_sock_table type st"
  "eloop_get_sock_table type (st\<lparr>el_max_sock := m\<rparr>) = eloop_get_sock_table type st"
  by (cases type; simp)+

lemma table_register_timeout [simp]:
  "eloop_get_sock_table type (eloop_register_timeout secs usecs h d u st) = eloop_get_sock_table type st"
  using register_timeout_fields [of secs usecs h d u st] by auto

lemma table_cancel_timeout [simp]:
  "eloop_get_sock_table type (snd (eloop_cancel_timeout h d u st)) = eloop_get_sock_table type st"
  by (simp add: eloop_cancel_timeout_def)

text \<open>A table changes only together with its flag, which no call resets.\<close>

definition flagged :: "('h, 'd) eloop_sock_table \<Rightarrow> ('h, 'd) eloop_sock_table \<Rightarrow> bool" where
  "flagged t t' \<longleftrightarrow> t' = t \<or> tb_changed t'"

lemma api_call_flagged: "api_call st st' \<Longrightarrow> flagged (eloop_get_sock_table type st) (eloop_get_sock_table type st')"
proof (induction rule: api_call.induct)
  case (register_sock s type' h d u st st')
  then have "st' = eloop_sock_table_add_sock type' s h d u st" by (simp add: eloop_register_sock_def split: if_split_asm)
  then show ?case
    by (cases "type = type'") (simp_all add: flagged_def eloop_sock_table_add_sock_def Let_def set_sock_table_other)
next
  case (unregister_sock st s type')
  show ?case
    by (cases "type = type'")
      (simp_all add: flagged_def eloop_unregister_sock_def eloop_sock_table_remove_sock_def Let_def set_sock_table_other)
next
  case (cancel_timeout_one st h d u)
  show ?case by (simp add: flagged_def eloop_cancel_timeout_one_def Let_def split: option.split)
next
  case (deplete secs usecs st h d u)
  show ?case by (simp add: flagged_def eloop_deplete_timeout_def Let_def split: option.split)
next
  case (replenish secs usecs st h d u)
  show ?case by (simp add: flagged_def eloop_replenish_timeout_def Let_def split: option.split)
qed (simp_all add: flagged_def eloop_register_signal_def eloop_terminate_def)

lemma api_calls_flagged: "api_call\<^sup>*\<^sup>* st st' \<Longrightarrow> flagged (eloop_get_sock_table type st) (eloop_get_sock_table type st')"
proof (induction rule: rtranclp_induct)
  case (step y z)
  from step.IH api_call_flagged [OF step.hyps(2), of type] show ?case by (auto simp: flagged_def)
qed (simp add: flagged_def)

lemma dispatch_entries_guarded:
  assumes "act_ok act" "set es \<subseteq> set (tb_table (eloop_get_sock_table type st))"
  shows "dispatch_entries act type fds es st = dispatch_entries (guarded type act) type fds es st"
  using assms(2)
proof (induction es arbitrary: st)
  case (Cons e es)
  let ?st = "act (entry_call e) st"
  have g: "guarded type act (entry_call e) st = ?st" using Cons.prems by (simp add: guarded_def)
  have "tb_changed (eloop_get_sock_table type ?st) \<or> eloop_get_sock_table type ?st = eloop_get_sock_table type st"
    using assms(1) api_calls_flagged [of st ?st type] by (auto simp: act_ok_def flagged_def)
  then show ?case using Cons g by (auto simp: entry_call_def [symmetric] Let_def)
qed simp

section \<open>Timers\<close>

definition timeout_call :: "('h, 'd) eloop_timeout \<Rightarrow> ('h, 'd) call" where
  "timeout_call t = Timeout_call (et_handler t) (et_eloop_data t) (et_user_data t)"

abbreviation tv_key :: "('h, 'd) eloop_timeout \<Rightarrow> int" where
  "tv_key t \<equiv> tv_of (et_time t)"

lemma insort_insert_after:
  fixes f :: "'e \<Rightarrow> 'k::linorder"
  assumes "sorted (map f ys)"
  shows "insort_key f a (takeWhile (\<lambda>y. f y \<le> f x) ys @ x # dropWhile (\<lambda>y. f y \<le> f x) ys) =
    takeWhile (\<lambda>y. f y \<le> f x) (insort_key f a ys) @ x # dropWhile (\<lambda>y. f y \<le> f x) (insort_key f a ys)"
  using assms by (induction ys) (auto dest: order_trans)

lemma sort_key_snoc:
  "sort_key f (xs @ [x]) = takeWhile (\<lambda>y. f y \<le> f x) (sort_key f xs) @ x # dropWhile (\<lambda>y. f y \<le> f x) (sort_key f xs)"
  by (induction xs) (simp_all add: insort_insert_after)

lemma insert_timeout_tv:
  assumes "time_ok (et_time t)" "\<forall>x \<in> set ts. time_ok (et_time x)"
  shows "insert_timeout t ts = takeWhile (\<lambda>x. tv_key x \<le> tv_key t) ts @ t # dropWhile (\<lambda>x. tv_key x \<le> tv_key t) ts"
proof -
  have "x \<in> set ts \<Longrightarrow> (\<not> os_reltime_before (et_time t) (et_time x)) = (tv_key x \<le> tv_key t)" for x
    using assms before_tv by fastforce
  then show ?thesis unfolding insert_timeout_def by (metis (mono_tags, lifting) takeWhile_cong dropWhile_cong)
qed

lemma fold_insert_timeout: "\<forall>t \<in> set ts. time_ok (et_time t) \<Longrightarrow> fold insert_timeout ts [] = sort_key tv_key ts"
  by (induction ts rule: rev_induct) (simp_all add: sort_key_snoc insert_timeout_tv)

text \<open>Handlers that only record their calls, and rounds in which only time passes.\<close>

definition log_act :: "('h, 'd, ('h, 'd) call list) action" where
  "log_act c st = st\<lparr>el_app := el_app st @ [c]\<rparr>"

definition idle :: "select_event \<Rightarrow> bool" where
  "idle ev \<longleftrightarrow> sel_res ev = 0 \<and> sel_signals ev = []"

definition quiet :: "('h, 'd, 'a) eloop_data \<Rightarrow> bool" where
  "quiet st \<longleftrightarrow> all_socks st = [] \<and> el_signaled st = 0 \<and> \<not> el_pending_terminate st \<and> \<not> el_terminate st"

lemma idle_round:
  assumes "quiet st" "idle ev" "el_timeout st = t # ts" "\<not> os_reltime_before (sel_time ev) (et_time t)"
  shows "\<exists>st'. eloop_round log_act ev st = Some st' \<and> quiet st' \<and> el_timeout st' = ts \<and> el_app st' = el_app st @ [timeout_call t]"
  using assms by (simp add: eloop_round_def Let_def idle_def quiet_def eloop_process_pending_signals_def clear_changed_def run_timeout_def
      log_act_def timeout_call_def all_socks_def)

lemma idle_run:
  assumes "quiet st" "\<forall>ev \<in> set evs. idle ev \<and> (\<forall>t \<in> set (el_timeout st). \<not> os_reltime_before (sel_time ev) (et_time t))"
    and "length (el_timeout st) \<le> length evs"
  shows "\<exists>st'. eloop_run log_act evs st = (True, st') \<and> el_timeout st' = [] \<and> el_app st' = el_app st @ map timeout_call (el_timeout st)"
  using assms
proof (induction evs arbitrary: st)
  case Nil
  then show ?case by (simp add: loop_continues_def quiet_def all_socks_def)
next
  case (Cons ev evs)
  show ?case
  proof (cases "el_timeout st")
    case Nil
    then show ?thesis using Cons.prems(1) by (simp add: loop_continues_def quiet_def all_socks_def)
  next
    case (Cons t ts)
    with Cons.prems idle_round [OF Cons.prems(1), of ev t ts] obtain st1 where st1:
      "eloop_round log_act ev st = Some st1" "quiet st1" "el_timeout st1 = ts" "el_app st1 = el_app st @ [timeout_call t]" by auto
    have "loop_continues st" "before_select log_act st = st" "\<not> el_terminate st"
      using Cons.prems(1) Cons by (simp_all add: loop_continues_def quiet_def before_select_def)
    with Cons.IH [OF st1(2)] Cons.prems Cons st1 show ?thesis by (simp add: timeout_call_def)
  qed
qed

datatype ('h, 'd) request = Request (rq_secs: int) (rq_usecs: int) (rq_handler: 'h) (rq_data: "'d ctx") (rq_user: "'d ctx")

definition register_request :: "('h, 'd) request \<Rightarrow> ('h, 'd, 'a) eloop_data \<Rightarrow> ('h, 'd, 'a) eloop_data" where
  "register_request r st = eloop_register_timeout (rq_secs r) (rq_usecs r) (rq_handler r) (rq_data r) (rq_user r) st"

definition request_ok :: "os_reltime \<Rightarrow> ('h, 'd) request \<Rightarrow> bool" where
  "request_ok now r \<longleftrightarrow> 0 \<le> rq_secs r \<and> 0 \<le> rq_usecs r \<and> - (2 ^ 63) \<le> rt_sec now + rq_secs r \<and> rt_sec now + rq_secs r < 2 ^ 63"

definition request_span :: "('h, 'd) request \<Rightarrow> int" where
  "request_span r = rq_secs r * 1000000 + rq_usecs r"

definition request_call :: "('h, 'd) request \<Rightarrow> ('h, 'd) call" where
  "request_call r = Timeout_call (rq_handler r) (rq_data r) (rq_user r)"

definition request_entry :: "os_reltime \<Rightarrow> ('h, 'd) request \<Rightarrow> ('h, 'd) eloop_timeout" where
  "request_entry now r = \<lparr>et_time = usec_carry \<lparr>rt_sec = rt_sec now + rq_secs r, rt_usec = rt_usec now + rq_usecs r\<rparr>,
     et_eloop_data = rq_data r, et_user_data = rq_user r, et_handler = rq_handler r\<rparr>"

lemma request_entry_time:
  assumes "time_ok now" "request_ok now r"
  shows "time_ok (et_time (request_entry now r))" "tv_key (request_entry now r) = tv_of now + request_span r"
  using assms usec_carry_ok [of "\<lparr>rt_sec = rt_sec now + rq_secs r, rt_usec = rt_usec now + rq_usecs r\<rparr>"]
  by (auto simp: request_entry_def request_span_def request_ok_def time_ok_def [of now] tv_of_def [of now] tv_of_def [of "\<lparr>rt_sec = _, rt_usec = _\<rparr>"])

lemma register_request_entry:
  assumes "time_ok (el_now st)" "request_ok (el_now st) r"
  shows "register_request r st = st\<lparr>el_timeout := insert_timeout (request_entry (el_now st) r) (el_timeout st)\<rparr>"
  using assms time_add_small [of "rt_sec (el_now st)" "rq_secs r"]
  by (simp add: register_request_def eloop_register_timeout_def request_entry_def request_ok_def)

lemma register_requests:
  assumes "time_ok (el_now st)" "\<forall>r \<in> set rs. request_ok (el_now st) r"
  shows "fold register_request rs st = st\<lparr>el_timeout := fold insert_timeout (map (request_entry (el_now st)) rs) (el_timeout st)\<rparr>"
  using assms by (induction rs arbitrary: st) (simp_all add: register_request_entry)

lemma requests_sorted:
  assumes "time_ok now" "\<forall>r \<in> set rs. request_ok now r"
  shows "fold insert_timeout (map (request_entry now) rs) [] = map (request_entry now) (sort_key request_span rs)"
proof -
  have "fold insert_timeout (map (request_entry now) rs) [] = sort_key tv_key (map (request_entry now) rs)"
    using assms request_entry_time(1) by (intro fold_insert_timeout) auto
  also have "\<dots> = map (request_entry now) (sort_key request_span rs)"
    using assms(2)
  proof (induction rs)
    case (Cons r rs)
    have "insort_key tv_key (request_entry now r) (map (request_entry now) ys) = map (request_entry now) (insort_key request_span r ys)"
      if "\<forall>y \<in> set ys. request_ok now y" for ys
      using that Cons.prems by (induction ys) (simp_all add: request_entry_time(2) [OF assms(1)])
    with Cons show ?case by simp
  qed simp
  finally show ?thesis .
qed

section \<open>Properties\<close>

text \<open>
  C21: The event loop keeps its data consistent whatever the handlers do through its functions: the
  timeouts stay ordered by time with normalised microseconds, the total count is the number of registered sockets,
  and no registered socket is above the bound handed to \<^verbatim>\<open>select\<close>.
\<close>

theorem eloop_run_invariant:
  assumes "act_ok act" "\<forall>ev \<in> set evs. time_ok (sel_time ev)" "eloop_inv st" "eloop_run act evs st = (r, st')"
  shows "sorted_wrt (\<lambda>a b. \<not> os_reltime_before (et_time b) (et_time a)) (el_timeout st') \<and>
    el_count st' = int (length (tb_table (el_readers st')) + length (tb_table (el_writers st')) + length (tb_table (el_exceptions st'))) \<and>
    (\<forall>type. \<forall>e \<in> set (tb_table (eloop_get_sock_table type st')). 0 \<le> es_sock e \<and> es_sock e \<le> el_max_sock st')"
proof -
  have inv: "eloop_inv st'" using run_inv [OF assms(1-3)] assms(4) by simp
  have "set (tb_table (eloop_get_sock_table type st')) \<subseteq> set (all_socks st')" for type by (cases type) (auto simp: all_socks_def)
  with inv show ?thesis by (auto simp: eloop_inv_def timers_ok_def all_socks_def)
qed

definition demo_loop :: "(nat, nat, (nat, nat) call list) eloop_data" where
  "demo_loop = eloop_init \<lparr>el_max_sock = 0, el_count = 0, el_readers = empty_table, el_writers = empty_table,
     el_exceptions = empty_table, el_timeout = [], el_signals = [], el_signaled = 0, el_pending_terminate = False,
     el_terminate = False, el_now = \<lparr>rt_sec = 100, rt_usec = 999999\<rparr>, el_tv = None, el_app = []\<rparr>"

lemma demo_loop_ok: "eloop_inv demo_loop" "quiet demo_loop" "time_ok (el_now demo_loop)" "el_timeout demo_loop = []"
  "el_app demo_loop = []" "el_now demo_loop = \<lparr>rt_sec = 100, rt_usec = 999999\<rparr>"
  by (simp_all add: demo_loop_def eloop_init_def eloop_inv_def quiet_def timers_ok_def time_ok_def all_socks_def empty_table_def)

lemma log_act_ok: "act_ok log_act"
  by (auto simp: act_ok_def log_act_def intro: api_call.program)

theorem eloop_run_invariant_witness:
  "\<exists>r st'. eloop_run log_act [] (the (eloop_register_read_sock 7 0 (Ctx 1) (Ctx 2) demo_loop)) = (r, st') \<and>
     el_count st' = int (length (tb_table (el_readers st')) + length (tb_table (el_writers st')) + length (tb_table (el_exceptions st')))"
proof -
  let ?st = "the (eloop_register_read_sock 7 0 (Ctx 1) (Ctx 2) demo_loop)"
  have "eloop_inv ?st" by (simp add: eloop_register_read_sock_def eloop_register_sock_def add_sock_inv demo_loop_ok)
  with eloop_run_invariant [OF log_act_ok _ this, of "[]"] show ?thesis by (cases "eloop_run log_act [] ?st") auto
qed


definition demo_requests :: "(nat, nat) request list" where
  "demo_requests = [Request 2 0 0 (Ctx 1) (Ctx 1), Request 0 5 0 (Ctx 2) (Ctx 2), Request 1 1000000 0 (Ctx 3) (Ctx 3)]"

definition demo_idle :: select_event where
  "demo_idle = \<lparr>sel_res = 0, sel_eintr = False, sel_rfds = {}, sel_wfds = {}, sel_efds = {}, sel_signals = [],
     sel_time = \<lparr>rt_sec = 103, rt_usec = 0\<rparr>\<rparr>"




text \<open>
  Moving a deadline: \<^verbatim>\<open>eloop_deplete_timeout\<close> and \<^verbatim>\<open>eloop_replenish_timeout\<close> return -1 exactly when the timeout is not
  registered and 1 exactly when its remaining time is longer, or shorter, than requested; then it is registered once
  with the requested span, and otherwise nothing changes. Cancelling removes every match and
  reports how many there were.
\<close>

theorem eloop_adjust_timeout:
  assumes "eloop_inv st" "request_ok (el_now st) (Request secs usecs h (Ctx d) (Ctx u))" "usecs < 1000000"
    and "find (timeout_is h (Ctx d) (Ctx u)) (el_timeout st) = f"
    and "eloop_deplete_timeout secs usecs h (Ctx d) (Ctx u) st = (r, st1)"
    and "eloop_replenish_timeout secs usecs h (Ctx d) (Ctx u) st = (r', st2)"
    and "eloop_cancel_timeout h (Ctx d) (Ctx u) st = (n, st3)"
  shows "(case f of
      None \<Rightarrow> r = -1 \<and> r' = -1 \<and> st1 = st \<and> st2 = st \<and> n = 0 \<and> st3 = st
    | Some t \<Rightarrow>
        let rest = tv_key t - tv_of (el_now st); req = secs * 1000000 + usecs;
            moved = register_request (Request secs usecs h (Ctx d) (Ctx u)) st3
        in r = (if req < rest then 1 else 0) \<and> r' = (if rest < req then 1 else 0) \<and>
           st1 = (if r = 1 then moved else st) \<and> st2 = (if r' = 1 then moved else st) \<and> 0 < n \<and>
           \<not> eloop_is_timeout_registered h (Ctx d) (Ctx u) st3 \<and>
           filter (timeout_is h (Ctx d) (Ctx u)) (el_timeout moved) =
             [request_entry (el_now st) (Request secs usecs h (Ctx d) (Ctx u))])"
proof -
  have m: "cancel_matches h (Ctx d) (Ctx u) = timeout_is h (Ctx d) (Ctx u)"
    by (auto simp: fun_eq_iff cancel_matches_def timeout_is_def)
  have c: "n = length (filter (timeout_is h (Ctx d) (Ctx u)) (el_timeout st))"
    "st3 = st\<lparr>el_timeout := filter (\<lambda>t. \<not> timeout_is h (Ctx d) (Ctx u) t) (el_timeout st)\<rparr>"
    using assms(7) by (simp_all add: eloop_cancel_timeout_def m)
  show ?thesis
  proof (cases f)
    case None
    with assms(4) have "filter (timeout_is h (Ctx d) (Ctx u)) (el_timeout st) = []"
      "filter (\<lambda>t. \<not> timeout_is h (Ctx d) (Ctx u) t) (el_timeout st) = el_timeout st"
      by (auto simp: find_None_iff filter_empty_conv)
    with None assms(4-6) c show ?thesis by (simp add: eloop_deplete_timeout_def eloop_replenish_timeout_def)
  next
    case (Some t)
    with assms(4) have t: "t \<in> set (el_timeout st)" "timeout_is h (Ctx d) (Ctx u) t" by (auto simp: find_Some_iff)
    let ?r = "\<lparr>rt_sec = secs, rt_usec = usecs\<rparr>" and ?rest = "os_reltime_sub (et_time t) (el_now st)"
    let ?q = "Request secs usecs h (Ctx d) (Ctx u)"
    have "time_ok ?r" "time_ok (et_time t)" "time_ok (el_now st)"
      using assms(1-3) t(1) by (auto simp: time_ok_def [of ?r] request_ok_def eloop_inv_def timers_ok_def)
    then have b: "os_reltime_before ?r ?rest \<longleftrightarrow> secs * 1000000 + usecs < tv_key t - tv_of (el_now st)"
      "os_reltime_before ?rest ?r \<longleftrightarrow> tv_key t - tv_of (el_now st) < secs * 1000000 + usecs"
      using sub_tv [of "et_time t" "el_now st"] before_tv [of ?r ?rest] before_tv [of ?rest ?r] by (auto simp: tv_of_def [of ?r])
    have "0 < n" using t c(1) by (auto simp: filter_empty_conv)
    moreover have "\<not> eloop_is_timeout_registered h (Ctx d) (Ctx u) st3" by (simp add: c(2) eloop_is_timeout_registered_def list_ex_iff)
    moreover have "filter (timeout_is h (Ctx d) (Ctx u)) (el_timeout (register_request ?q st3)) = [request_entry (el_now st) ?q]"
    proof -
      have "timeout_is h (Ctx d) (Ctx u) (request_entry (el_now st) ?q)" by (simp add: timeout_is_def request_entry_def)
      moreover have "filter (timeout_is h (Ctx d) (Ctx u)) (takeWhile P (el_timeout st3)) = []"
        "filter (timeout_is h (Ctx d) (Ctx u)) (dropWhile P (el_timeout st3)) = []" for P
        by (auto simp: c(2) filter_empty_conv dest: set_takeWhileD set_dropWhileD)
      ultimately show ?thesis
        using register_request_entry [of st3 ?q] \<open>time_ok (el_now st)\<close> assms(2) c(2) by (simp add: insert_timeout_def)
    qed
    moreover have "st1 = (if r = 1 then register_request ?q st3 else st)" "r = (if os_reltime_before ?r ?rest then 1 else 0)"
      using assms(4,5,7) Some by (auto simp: eloop_deplete_timeout_def Let_def register_request_def split: if_split_asm)
    moreover have "st2 = (if r' = 1 then register_request ?q st3 else st)" "r' = (if os_reltime_before ?rest ?r then 1 else 0)"
      using assms(4,6,7) Some by (auto simp: eloop_replenish_timeout_def Let_def register_request_def split: if_split_asm)
    ultimately show ?thesis using Some b by (simp add: Let_def)
  qed
qed

theorem eloop_adjust_timeout_witness:
  "fst (eloop_deplete_timeout 1 0 0 (Ctx 1) (Ctx 1) (fold register_request demo_requests demo_loop)) = 1"
proof -
  let ?st = "fold register_request demo_requests demo_loop"
  have ok: "time_ok (el_now demo_loop)" "\<forall>r \<in> set demo_requests. request_ok (el_now demo_loop) r"
    by (simp_all add: demo_loop_ok(3)) (simp add: demo_loop_ok demo_requests_def request_ok_def)
  have e: "?st = demo_loop\<lparr>el_timeout := map (request_entry (el_now demo_loop)) (sort_key request_span demo_requests)\<rparr>"
    using register_requests [OF ok] requests_sorted [OF ok] by (simp add: demo_loop_ok)
  have s: "sort_key request_span demo_requests = [Request 0 5 0 (Ctx 2) (Ctx 2), Request 2 0 0 (Ctx 1) (Ctx 1), Request 1 1000000 0 (Ctx 3) (Ctx 3)]"
    by (simp add: demo_requests_def request_span_def)
  let ?t = "request_entry (el_now demo_loop) (Request 2 0 (0::nat) (Ctx (1::nat)) (Ctx 1))"
  have t: "find (timeout_is 0 (Ctx 1) (Ctx 1)) (el_timeout ?st) = Some ?t"
    unfolding e s by (simp add: timeout_is_def request_entry_def)
  have "eloop_inv ?st" by (simp add: demo_requests_def register_request_def register_timeout_inv demo_loop_ok)
  moreover have "el_now ?st = el_now demo_loop" by (simp add: e)
  moreover have "request_ok (el_now demo_loop) (Request 2 0 (0::nat) (Ctx (1::nat)) (Ctx 1))"
    by (simp add: demo_loop_ok request_ok_def)
  from request_entry_time(2) [OF ok(1) this] have "tv_key ?t = tv_of (el_now demo_loop) + 2000000"
    by (simp add: request_span_def)
  ultimately show ?thesis
    using eloop_adjust_timeout [of ?st 1 0 0 1 1 "Some ?t"] t
    by (cases "eloop_deplete_timeout 1 0 0 (Ctx 1) (Ctx 1) ?st"; cases "eloop_replenish_timeout 1 0 0 (Ctx 1) (Ctx 1) ?st";
        cases "eloop_cancel_timeout 0 (Ctx 1) (Ctx 1) ?st") (simp add: Let_def request_ok_def demo_loop_ok)
qed

end
