(* ===== verification/Edit.thy ===== *)
theory Edit
  imports Smartlist Hex_Utils
begin

text \<open>
  The line editor of \<^verbatim>\<open>src/utils/edit.c\<close>: the line buffer with its cursor, the history, completion,
  incremental search and the decoding of keys. The callback for commands and for the end of input is
  seen as the list of its calls; the callback for completions is the argument \<open>cb\<close>. The
  history is the list of its entries from the head of the ring on, the current entry its position there.
\<close>

definition CMD_BUF_LEN :: nat where "CMD_BUF_LEN = 4096"
definition HISTORY_MAX :: nat where "HISTORY_MAX = 100"

datatype edit_call = Cmd_cb string | Eof_cb

record edit =
  ed_buf :: cbuf
  ed_pos :: nat
  ed_len :: nat
  ed_curr :: string
  ed_curr_valid :: bool
  ed_ps2 :: "string option"
  ed_history :: "string list"
  ed_hcurr :: "nat option"
  ed_esc :: int
  ed_esc_buf :: string
  ed_search_buf :: string
  ed_search_skip :: nat
  ed_search :: bool
  ed_last_tab :: bool
  ed_out :: string
  ed_calls :: "edit_call list"

section \<open>Memory\<close>

definition mem_move :: "nat \<Rightarrow> nat \<Rightarrow> nat \<Rightarrow> cbuf \<Rightarrow> cbuf outcome" where
  "mem_move dst src n b =
     (if src + n > length b then Undef Oob_read
      else if dst + n > length b then Undef Oob_write
      else Val (put_at b dst (take n (drop src b))))"

definition mem_copy :: "nat \<Rightarrow> string \<Rightarrow> cbuf \<Rightarrow> cbuf outcome" where
  "mem_copy dst s b = (if dst + length s > length b then Undef Oob_write else Val (put_at b dst s))"

definition poke :: "nat \<Rightarrow> char \<Rightarrow> cbuf \<Rightarrow> cbuf outcome" where
  "poke i c b = (if i < length b then Val (b[i := c]) else Undef Oob_write)"

definition with_buf :: "(cbuf \<Rightarrow> cbuf outcome) \<Rightarrow> edit \<Rightarrow> edit outcome" where
  "with_buf f st = omap (\<lambda>b. st\<lparr>ed_buf := b\<rparr>) (f (ed_buf st))"

section \<open>Drawing\<close>

definition put :: "string \<Rightarrow> edit \<Rightarrow> edit" where
  "put t st = st\<lparr>ed_out := ed_out st @ t\<rparr>"

definition ps2_text :: "edit \<Rightarrow> string" where
  "ps2_text st = (case ed_ps2 st of None \<Rightarrow> [] | Some p \<Rightarrow> p)"

definition edit_clear_line :: "edit \<Rightarrow> edit" where
  "edit_clear_line st = put (CR # replicate (ed_len st + 2 + length (ps2_text st)) (CHR '' '')) st"

definition edit_redraw :: "edit \<Rightarrow> edit outcome" where
  "edit_redraw st =
     obind (with_buf (poke (ed_len st) NUL) st) (\<lambda>st.
       let st = put (CR # ps2_text st @ ''> '' @ cstr_of (ed_buf st)) st
       in if ed_pos st \<noteq> ed_len st
          then omap (\<lambda>b. put (CR # ps2_text st @ ''> '' @ cstr_of b) st) (poke (ed_pos st) NUL (ed_buf st))
          else Val st)"

section \<open>Moving and deleting\<close>

definition move_start :: "edit \<Rightarrow> edit outcome" where
  "move_start st = edit_redraw (st\<lparr>ed_pos := 0\<rparr>)"

definition move_end :: "edit \<Rightarrow> edit outcome" where
  "move_end st = edit_redraw (st\<lparr>ed_pos := ed_len st\<rparr>)"

definition move_left :: "edit \<Rightarrow> edit outcome" where
  "move_left st = (if ed_pos st > 0 then edit_redraw (st\<lparr>ed_pos := ed_pos st - 1\<rparr>) else Val st)"

definition move_right :: "edit \<Rightarrow> edit outcome" where
  "move_right st = (if ed_pos st < ed_len st then edit_redraw (st\<lparr>ed_pos := ed_pos st + 1\<rparr>) else Val st)"

text \<open>The scans to the left and to the right of a position while a condition holds.\<close>

fun back_while :: "(char \<Rightarrow> bool) \<Rightarrow> cbuf \<Rightarrow> nat \<Rightarrow> nat" where
  "back_while P b 0 = 0"
| "back_while P b (Suc p) = (if P (b ! p) then back_while P b p else Suc p)"

function forth_while :: "(char \<Rightarrow> bool) \<Rightarrow> cbuf \<Rightarrow> nat \<Rightarrow> nat \<Rightarrow> nat" where
  "forth_while P b len p = (if p < len \<and> P (b ! p) then forth_while P b len (p + 1) else p)"
  by pat_completeness auto
termination
  by (relation "measure (\<lambda>(P, b, len, p). len - p)") auto

declare forth_while.simps [simp del]

definition word_start :: "cbuf \<Rightarrow> nat \<Rightarrow> nat" where
  "word_start b p = back_while (\<lambda>c. c \<noteq> CHR '' '') b (back_while (\<lambda>c. c = CHR '' '') b p)"

definition move_word_left :: "edit \<Rightarrow> edit outcome" where
  "move_word_left st = edit_redraw (st\<lparr>ed_pos := word_start (ed_buf st) (ed_pos st)\<rparr>)"

definition move_word_right :: "edit \<Rightarrow> edit outcome" where
  "move_word_right st =
     edit_redraw (st\<lparr>ed_pos := forth_while (\<lambda>c. c \<noteq> CHR '' '') (ed_buf st) (ed_len st)
       (forth_while (\<lambda>c. c = CHR '' '') (ed_buf st) (ed_len st) (ed_pos st))\<rparr>)"

definition delete_left :: "edit \<Rightarrow> edit outcome" where
  "delete_left st =
     (if ed_pos st = 0 then Val st
      else
        obind (with_buf (mem_move (ed_pos st - 1) (ed_pos st) (ed_len st - ed_pos st)) (edit_clear_line st)) (\<lambda>st.
          edit_redraw (st\<lparr>ed_pos := ed_pos st - 1, ed_len := ed_len st - 1\<rparr>)))"

definition delete_current :: "edit \<Rightarrow> edit outcome" where
  "delete_current st =
     (if ed_pos st = ed_len st then Val st
      else
        obind (with_buf (mem_move (ed_pos st) (ed_pos st + 1) (ed_len st - ed_pos st)) (edit_clear_line st)) (\<lambda>st.
          edit_redraw (st\<lparr>ed_len := ed_len st - 1\<rparr>)))"

definition delete_word :: "edit \<Rightarrow> edit outcome" where
  "delete_word st =
     (let p = word_start (ed_buf st) (ed_pos st)
      in obind (with_buf (mem_move p (ed_pos st) (ed_len st - ed_pos st)) (edit_clear_line st)) (\<lambda>st.
           edit_redraw (st\<lparr>ed_len := ed_len st - (ed_pos st - p), ed_pos := p\<rparr>)))"

definition clear_left :: "edit \<Rightarrow> edit outcome" where
  "clear_left st =
     (if ed_pos st = 0 then Val st
      else
        obind (with_buf (mem_move 0 (ed_pos st) (ed_len st - ed_pos st)) (edit_clear_line st)) (\<lambda>st.
          edit_redraw (st\<lparr>ed_len := ed_len st - ed_pos st, ed_pos := 0\<rparr>)))"

definition clear_right :: "edit \<Rightarrow> edit outcome" where
  "clear_right st =
     (if ed_pos st = ed_len st then Val st else edit_redraw ((edit_clear_line st)\<lparr>ed_len := ed_pos st\<rparr>))"

section \<open>History\<close>

definition history_add :: "string \<Rightarrow> edit \<Rightarrow> edit" where
  "history_add str st =
     (if str = [] then st
      else if str \<in> set (ed_history st) then st\<lparr>ed_history := str # remove1 str (ed_history st), ed_hcurr := Some 0\<rparr>
      else
        let h = (if length (ed_history st) \<ge> HISTORY_MAX then butlast (ed_history st) else ed_history st)
        in st\<lparr>ed_history := str # h, ed_hcurr := Some 0\<rparr>)"

definition history_use :: "nat \<Rightarrow> edit \<Rightarrow> edit outcome" where
  "history_use i st =
     (let s = ed_history st ! i; st = (edit_clear_line st)\<lparr>ed_len := length s, ed_pos := length s\<rparr>
      in obind (with_buf (mem_copy 0 s) st) edit_redraw)"

definition history_prev :: "edit \<Rightarrow> edit outcome" where
  "history_prev st =
     (case ed_hcurr st of
        None \<Rightarrow> Val st
      | Some i \<Rightarrow>
          if i = 0 \<and> \<not> ed_curr_valid st then
            obind (with_buf (poke (ed_len st) NUL) st) (\<lambda>st.
              history_use i (st\<lparr>ed_curr := cstr_of (ed_buf st), ed_curr_valid := True\<rparr>))
          else if i = length (ed_history st) - 1 then Val st
          else history_use (i + 1) (st\<lparr>ed_hcurr := Some (i + 1)\<rparr>))"

definition history_next :: "edit \<Rightarrow> edit outcome" where
  "history_next st =
     (if ed_hcurr st = None \<or> ed_hcurr st = Some 0 then
        if ed_curr_valid st then
          let n = length (ed_curr st);
              st = (edit_clear_line (st\<lparr>ed_curr_valid := False\<rparr>))\<lparr>ed_len := n, ed_pos := n\<rparr>
          in obind (with_buf (mem_copy 0 (ed_curr st)) st) edit_redraw
        else Val st
      else let i = the (ed_hcurr st) - 1 in history_use i (st\<lparr>ed_hcurr := Some i\<rparr>))"

text \<open>The pieces \<^verbatim>\<open>fgets\<close> reads, each cut at the first carriage return, newline or NUL.\<close>

function fgets_all :: "nat \<Rightarrow> string \<Rightarrow> string list" where
  "fgets_all n f =
     (if f = [] \<or> n = 0 then []
      else let line = takeWhile (\<lambda>c. c \<noteq> NL) f; k = min n (length line + (if length line < length f then 1 else 0))
        in take k f # fgets_all n (drop k f))"
  by pat_completeness auto
termination
  by (relation "measure (\<lambda>(n, f). length f)") (auto simp: Let_def min_def)

declare fgets_all.simps [simp del]

definition history_line :: "string \<Rightarrow> string" where
  "history_line buf = takeWhile (\<lambda>c. c \<noteq> CR \<and> c \<noteq> NL \<and> c \<noteq> NUL) buf"

definition history_read :: "string option \<Rightarrow> edit \<Rightarrow> edit" where
  "history_read file st =
     (case file of
        None \<Rightarrow> st
      | Some f \<Rightarrow> fold (\<lambda>buf. history_add (history_line buf)) (fgets_all (CMD_BUF_LEN - 1) f) st)"

definition history_write :: "(string \<Rightarrow> bool) option \<Rightarrow> edit \<Rightarrow> string" where
  "history_write filter_cb st =
     concat (map (\<lambda>h. case filter_cb of None \<Rightarrow> h @ [NL] | Some f \<Rightarrow> if f h then [] else h @ [NL]) (rev (ed_history st)))"

definition history_debug_dump :: "edit \<Rightarrow> edit outcome" where
  "history_debug_dump st =
     (let lines = map (\<lambda>i. (if ed_hcurr st = Some i then ''[C]'' else []) @ ed_history st ! i @ [NL]) (rev [0..<length (ed_history st)]);
          st = put (CR # concat lines) (edit_clear_line st);
          st = (if ed_curr_valid st then put (''{'' @ ed_curr st @ ''}'' @ [NL]) st else st)
      in edit_redraw st)"

section \<open>Typing\<close>

definition insert_char :: "nat \<Rightarrow> edit \<Rightarrow> edit outcome" where
  "insert_char c st =
     (if ed_len st \<ge> CMD_BUF_LEN - 1 then Val st
      else if ed_len st = ed_pos st then
        omap (\<lambda>st. put [char_of c] (st\<lparr>ed_pos := ed_pos st + 1, ed_len := ed_len st + 1\<rparr>)) (with_buf (poke (ed_pos st) (char_of c)) st)
      else
        obind (with_buf (mem_move (ed_pos st + 1) (ed_pos st) (ed_len st - ed_pos st)) st) (\<lambda>st.
        obind (with_buf (poke (ed_pos st) (char_of c)) st) (\<lambda>st.
          edit_redraw (st\<lparr>ed_pos := ed_pos st + 1, ed_len := ed_len st + 1\<rparr>))))"

definition process_cmd :: "edit \<Rightarrow> edit outcome" where
  "process_cmd st =
     (let st = st\<lparr>ed_curr_valid := False\<rparr>
      in if ed_len st = 0 then Val (put (NL # ps2_text st @ ''> '') st)
         else
           obind (with_buf (poke (ed_len st) NUL) (put [NL] st)) (\<lambda>st.
             let cmd = cstr_of (ed_buf st); st = (history_add cmd st)\<lparr>ed_pos := 0, ed_len := 0\<rparr>
             in Val (put (ps2_text st @ ''> '') (st\<lparr>ed_calls := ed_calls st @ [Cmd_cb cmd]\<rparr>))))"

section \<open>Completion\<close>

fun common_len :: "string \<Rightarrow> string \<Rightarrow> nat" where
  "common_len (a # as) (b # bs) = (if a = b then Suc (common_len as bs) else 0)"
| "common_len _ _ = 0"

definition max_common_length :: "string list \<Rightarrow> nat" where
  "max_common_length c = fold (\<lambda>s len. min (common_len (hd c) s) len) (tl c) (length (hd c))"

definition filter_strings :: "string list \<Rightarrow> string \<Rightarrow> nat \<Rightarrow> string list" where
  "filter_strings c str len = filter (\<lambda>s. strncaseeq s str len) c"

definition show_completions :: "string list \<Rightarrow> edit \<Rightarrow> edit outcome" where
  "show_completions c st =
     (let names = c_qsort os_strcmp c
      in edit_redraw (put (CR # concat (map (\<lambda>i. (if i > 0 then '' '' else []) @ names ! i) [0..<length names]) @ [NL]) (edit_clear_line st)))"

definition insert_completion :: "string \<Rightarrow> nat \<Rightarrow> nat \<Rightarrow> bool \<Rightarrow> edit \<Rightarrow> edit outcome" where
  "insert_completion c plen len add_space st =
     (let n = len + (if add_space then 1 else 0)
      in obind (with_buf (mem_move (ed_pos st + n) (ed_pos st) (ed_len st - ed_pos st)) st) (\<lambda>st.
         obind (with_buf (mem_copy (ed_pos st - plen) (take (plen + len) c)) st) (\<lambda>st.
         obind (if add_space then with_buf (poke (ed_pos st + len) (CHR '' '')) st else Val st) (\<lambda>st.
           edit_redraw (st\<lparr>ed_pos := ed_pos st + n, ed_len := ed_len st + n\<rparr>)))))"

type_synonym completion = "string \<Rightarrow> nat \<Rightarrow> string list option"

definition complete :: "completion option \<Rightarrow> bool \<Rightarrow> edit \<Rightarrow> edit outcome" where
  "complete cb list st =
     (case cb of
        None \<Rightarrow> Val st
      | Some completion_cb \<Rightarrow>
          obind (with_buf (poke (ed_len st) NUL) st) (\<lambda>st.
            case completion_cb (cstr_of (ed_buf st)) (ed_pos st) of
              None \<Rightarrow> Val st
            | Some c \<Rightarrow>
                let start = back_while (\<lambda>c. c \<noteq> CHR '' '') (ed_buf st) (ed_pos st); plen = ed_pos st - start;
                    c = filter_strings c (cstr_of (drop start (ed_buf st))) plen
                in if c = [] then Val st
                   else
                     let len = max_common_length c
                     in if len \<le> plen \<and> length c > 1 then (if list then show_completions c st else Val st)
                        else
                          let room = CMD_BUF_LEN - 1 - ed_len st; len = min (len - plen) room
                          in insert_completion (hd c) plen len (length c = 1 \<and> len < room) st))"

section \<open>Keys\<close>

text \<open>The codes of \<^verbatim>\<open>enum edit_key_code\<close>; a key that stands for a character has the code of the character.\<close>

abbreviation EDIT_KEY_NONE :: nat where "EDIT_KEY_NONE \<equiv> 256"
abbreviation EDIT_KEY_TAB :: nat where "EDIT_KEY_TAB \<equiv> 257"
abbreviation EDIT_KEY_UP :: nat where "EDIT_KEY_UP \<equiv> 258"
abbreviation EDIT_KEY_DOWN :: nat where "EDIT_KEY_DOWN \<equiv> 259"
abbreviation EDIT_KEY_RIGHT :: nat where "EDIT_KEY_RIGHT \<equiv> 260"
abbreviation EDIT_KEY_LEFT :: nat where "EDIT_KEY_LEFT \<equiv> 261"
abbreviation EDIT_KEY_ENTER :: nat where "EDIT_KEY_ENTER \<equiv> 262"
abbreviation EDIT_KEY_BACKSPACE :: nat where "EDIT_KEY_BACKSPACE \<equiv> 263"
abbreviation EDIT_KEY_INSERT :: nat where "EDIT_KEY_INSERT \<equiv> 264"
abbreviation EDIT_KEY_DELETE :: nat where "EDIT_KEY_DELETE \<equiv> 265"
abbreviation EDIT_KEY_HOME :: nat where "EDIT_KEY_HOME \<equiv> 266"
abbreviation EDIT_KEY_END :: nat where "EDIT_KEY_END \<equiv> 267"
abbreviation EDIT_KEY_PAGE_UP :: nat where "EDIT_KEY_PAGE_UP \<equiv> 268"
abbreviation EDIT_KEY_PAGE_DOWN :: nat where "EDIT_KEY_PAGE_DOWN \<equiv> 269"
abbreviation EDIT_KEY_F1 :: nat where "EDIT_KEY_F1 \<equiv> 270"
abbreviation EDIT_KEY_F2 :: nat where "EDIT_KEY_F2 \<equiv> 271"
abbreviation EDIT_KEY_F3 :: nat where "EDIT_KEY_F3 \<equiv> 272"
abbreviation EDIT_KEY_F4 :: nat where "EDIT_KEY_F4 \<equiv> 273"
abbreviation EDIT_KEY_F5 :: nat where "EDIT_KEY_F5 \<equiv> 274"
abbreviation EDIT_KEY_F6 :: nat where "EDIT_KEY_F6 \<equiv> 275"
abbreviation EDIT_KEY_F7 :: nat where "EDIT_KEY_F7 \<equiv> 276"
abbreviation EDIT_KEY_F8 :: nat where "EDIT_KEY_F8 \<equiv> 277"
abbreviation EDIT_KEY_F9 :: nat where "EDIT_KEY_F9 \<equiv> 278"
abbreviation EDIT_KEY_F10 :: nat where "EDIT_KEY_F10 \<equiv> 279"
abbreviation EDIT_KEY_F11 :: nat where "EDIT_KEY_F11 \<equiv> 280"
abbreviation EDIT_KEY_F12 :: nat where "EDIT_KEY_F12 \<equiv> 281"
abbreviation EDIT_KEY_CTRL_UP :: nat where "EDIT_KEY_CTRL_UP \<equiv> 282"
abbreviation EDIT_KEY_CTRL_DOWN :: nat where "EDIT_KEY_CTRL_DOWN \<equiv> 283"
abbreviation EDIT_KEY_CTRL_RIGHT :: nat where "EDIT_KEY_CTRL_RIGHT \<equiv> 284"
abbreviation EDIT_KEY_CTRL_LEFT :: nat where "EDIT_KEY_CTRL_LEFT \<equiv> 285"
abbreviation EDIT_KEY_CTRL_A :: nat where "EDIT_KEY_CTRL_A \<equiv> 286"
abbreviation EDIT_KEY_CTRL_B :: nat where "EDIT_KEY_CTRL_B \<equiv> 287"
abbreviation EDIT_KEY_CTRL_D :: nat where "EDIT_KEY_CTRL_D \<equiv> 288"
abbreviation EDIT_KEY_CTRL_E :: nat where "EDIT_KEY_CTRL_E \<equiv> 289"
abbreviation EDIT_KEY_CTRL_F :: nat where "EDIT_KEY_CTRL_F \<equiv> 290"
abbreviation EDIT_KEY_CTRL_G :: nat where "EDIT_KEY_CTRL_G \<equiv> 291"
abbreviation EDIT_KEY_CTRL_H :: nat where "EDIT_KEY_CTRL_H \<equiv> 292"
abbreviation EDIT_KEY_CTRL_J :: nat where "EDIT_KEY_CTRL_J \<equiv> 293"
abbreviation EDIT_KEY_CTRL_K :: nat where "EDIT_KEY_CTRL_K \<equiv> 294"
abbreviation EDIT_KEY_CTRL_L :: nat where "EDIT_KEY_CTRL_L \<equiv> 295"
abbreviation EDIT_KEY_CTRL_N :: nat where "EDIT_KEY_CTRL_N \<equiv> 296"
abbreviation EDIT_KEY_CTRL_O :: nat where "EDIT_KEY_CTRL_O \<equiv> 297"
abbreviation EDIT_KEY_CTRL_P :: nat where "EDIT_KEY_CTRL_P \<equiv> 298"
abbreviation EDIT_KEY_CTRL_R :: nat where "EDIT_KEY_CTRL_R \<equiv> 299"
abbreviation EDIT_KEY_CTRL_T :: nat where "EDIT_KEY_CTRL_T \<equiv> 300"
abbreviation EDIT_KEY_CTRL_U :: nat where "EDIT_KEY_CTRL_U \<equiv> 301"
abbreviation EDIT_KEY_CTRL_V :: nat where "EDIT_KEY_CTRL_V \<equiv> 302"
abbreviation EDIT_KEY_CTRL_W :: nat where "EDIT_KEY_CTRL_W \<equiv> 303"
abbreviation EDIT_KEY_ALT_UP :: nat where "EDIT_KEY_ALT_UP \<equiv> 304"
abbreviation EDIT_KEY_ALT_DOWN :: nat where "EDIT_KEY_ALT_DOWN \<equiv> 305"
abbreviation EDIT_KEY_ALT_RIGHT :: nat where "EDIT_KEY_ALT_RIGHT \<equiv> 306"
abbreviation EDIT_KEY_ALT_LEFT :: nat where "EDIT_KEY_ALT_LEFT \<equiv> 307"
abbreviation EDIT_KEY_SHIFT_UP :: nat where "EDIT_KEY_SHIFT_UP \<equiv> 308"
abbreviation EDIT_KEY_SHIFT_DOWN :: nat where "EDIT_KEY_SHIFT_DOWN \<equiv> 309"
abbreviation EDIT_KEY_SHIFT_RIGHT :: nat where "EDIT_KEY_SHIFT_RIGHT \<equiv> 310"
abbreviation EDIT_KEY_SHIFT_LEFT :: nat where "EDIT_KEY_SHIFT_LEFT \<equiv> 311"
abbreviation EDIT_KEY_ALT_SHIFT_UP :: nat where "EDIT_KEY_ALT_SHIFT_UP \<equiv> 312"
abbreviation EDIT_KEY_ALT_SHIFT_DOWN :: nat where "EDIT_KEY_ALT_SHIFT_DOWN \<equiv> 313"
abbreviation EDIT_KEY_ALT_SHIFT_RIGHT :: nat where "EDIT_KEY_ALT_SHIFT_RIGHT \<equiv> 314"
abbreviation EDIT_KEY_ALT_SHIFT_LEFT :: nat where "EDIT_KEY_ALT_SHIFT_LEFT \<equiv> 315"
abbreviation EDIT_KEY_EOF :: nat where "EDIT_KEY_EOF \<equiv> 316"

definition arrow_key :: "nat \<Rightarrow> nat \<Rightarrow> nat \<Rightarrow> nat \<Rightarrow> char \<Rightarrow> nat" where
  "arrow_key up down right left final =
     (if final = CHR ''A'' then up else if final = CHR ''B'' then down else if final = CHR ''C'' then right
      else if final = CHR ''D'' then left else EDIT_KEY_NONE)"

definition esc_seq_to_key1_no :: "char \<Rightarrow> nat" where
  "esc_seq_to_key1_no = arrow_key EDIT_KEY_UP EDIT_KEY_DOWN EDIT_KEY_RIGHT EDIT_KEY_LEFT"

definition esc_seq_to_key1_shift :: "char \<Rightarrow> nat" where
  "esc_seq_to_key1_shift = arrow_key EDIT_KEY_SHIFT_UP EDIT_KEY_SHIFT_DOWN EDIT_KEY_SHIFT_RIGHT EDIT_KEY_SHIFT_LEFT"

definition esc_seq_to_key1_alt :: "char \<Rightarrow> nat" where
  "esc_seq_to_key1_alt = arrow_key EDIT_KEY_ALT_UP EDIT_KEY_ALT_DOWN EDIT_KEY_ALT_RIGHT EDIT_KEY_ALT_LEFT"

definition esc_seq_to_key1_alt_shift :: "char \<Rightarrow> nat" where
  "esc_seq_to_key1_alt_shift =
     arrow_key EDIT_KEY_ALT_SHIFT_UP EDIT_KEY_ALT_SHIFT_DOWN EDIT_KEY_ALT_SHIFT_RIGHT EDIT_KEY_ALT_SHIFT_LEFT"

definition esc_seq_to_key1_ctrl :: "char \<Rightarrow> nat" where
  "esc_seq_to_key1_ctrl = arrow_key EDIT_KEY_CTRL_UP EDIT_KEY_CTRL_DOWN EDIT_KEY_CTRL_RIGHT EDIT_KEY_CTRL_LEFT"

definition tilde_keys :: "(int \<times> nat) list" where
  "tilde_keys = [(2, EDIT_KEY_INSERT), (3, EDIT_KEY_DELETE), (5, EDIT_KEY_PAGE_UP), (6, EDIT_KEY_PAGE_DOWN), (15, EDIT_KEY_F5),
     (17, EDIT_KEY_F6), (18, EDIT_KEY_F7), (19, EDIT_KEY_F8), (20, EDIT_KEY_F9), (21, EDIT_KEY_F10), (23, EDIT_KEY_F11), (24, EDIT_KEY_F12)]"

definition key_of :: "('k \<times> nat) list \<Rightarrow> 'k \<Rightarrow> nat" where
  "key_of ks k = (case map_of ks k of None \<Rightarrow> EDIT_KEY_NONE | Some c \<Rightarrow> c)"

definition esc_seq_to_key1 :: "int \<Rightarrow> int \<Rightarrow> char \<Rightarrow> nat" where
  "esc_seq_to_key1 param1 param2 final =
     (if param1 < 0 \<and> param2 < 0 then esc_seq_to_key1_no final
      else if param1 = 1 \<and> param2 = 2 then esc_seq_to_key1_shift final
      else if param1 = 1 \<and> param2 = 3 then esc_seq_to_key1_alt final
      else if param1 = 1 \<and> param2 = 4 then esc_seq_to_key1_alt_shift final
      else if param1 = 1 \<and> param2 = 5 then esc_seq_to_key1_ctrl final
      else if param2 < 0 \<and> final = CHR ''~'' then key_of tilde_keys param1
      else EDIT_KEY_NONE)"

definition esc_seq_to_key2 :: "int \<Rightarrow> int \<Rightarrow> char \<Rightarrow> nat" where
  "esc_seq_to_key2 param1 param2 final =
     (if param1 \<ge> 0 \<or> param2 \<ge> 0 then EDIT_KEY_NONE
      else key_of [(CHR ''F'', EDIT_KEY_END), (CHR ''H'', EDIT_KEY_HOME), (CHR ''P'', EDIT_KEY_F1), (CHR ''Q'', EDIT_KEY_F2),
        (CHR ''R'', EDIT_KEY_F3), (CHR ''S'', EDIT_KEY_F4)] final)"

definition esc_seq_to_key :: "string \<Rightarrow> edit \<Rightarrow> (nat \<times> edit) outcome" where
  "esc_seq_to_key seq st =
     (let final = (if seq = [] then NUL else last seq);
          (param1, param2) = (if c_isdigit (at0 (tl seq))
            then (atoi (tl seq), case os_strchr seq (CHR '';'') of None \<Rightarrow> -1 | Some p \<Rightarrow> atoi (tl p)) else (-1, -1));
          ret = (if at0 seq = CHR ''['' then esc_seq_to_key1 param1 param2 final
                 else if at0 seq = CHR ''O'' then esc_seq_to_key2 param1 param2 final else EDIT_KEY_NONE)
      in if ret \<noteq> EDIT_KEY_NONE then Val (ret, st)
         else omap (Pair EDIT_KEY_NONE)
           (edit_redraw (put (CR # ''Unknown escape sequence '' @ SQ # seq @ [SQ, NL]) (edit_clear_line st))))"

definition show_esc_buf :: "char \<Rightarrow> nat \<Rightarrow> edit \<Rightarrow> edit outcome" where
  "show_esc_buf c i st =
     edit_redraw (put (CR # ''ESC buffer '' @ SQ # cstr_of (ed_esc_buf st) @ [SQ] @ '' c='' @ [SQ, c, SQ] @ '' ['' @ show_nat i @ '']'' @ [NL])
       (edit_clear_line st))"

definition plain_keys :: "(nat \<times> nat) list" where
  "plain_keys = [(1, EDIT_KEY_CTRL_A), (2, EDIT_KEY_CTRL_B), (4, EDIT_KEY_CTRL_D), (5, EDIT_KEY_CTRL_E), (6, EDIT_KEY_CTRL_F),
     (7, EDIT_KEY_CTRL_G), (8, EDIT_KEY_CTRL_H), (9, EDIT_KEY_TAB), (10, EDIT_KEY_CTRL_J), (13, EDIT_KEY_ENTER), (11, EDIT_KEY_CTRL_K),
     (12, EDIT_KEY_CTRL_L), (14, EDIT_KEY_CTRL_N), (15, EDIT_KEY_CTRL_O), (16, EDIT_KEY_CTRL_P), (18, EDIT_KEY_CTRL_R),
     (20, EDIT_KEY_CTRL_T), (21, EDIT_KEY_CTRL_U), (22, EDIT_KEY_CTRL_V), (23, EDIT_KEY_CTRL_W), (127, EDIT_KEY_BACKSPACE)]"

definition plain_key :: "nat \<Rightarrow> edit \<Rightarrow> nat \<times> edit" where
  "plain_key c st =
     (if c = 27 then (EDIT_KEY_NONE, st\<lparr>ed_esc := 0\<rparr>)
      else (case map_of plain_keys c of Some k \<Rightarrow> k | None \<Rightarrow> c, st))"

text \<open>A character behind ESC: it is stored, or, when the buffer is full, shown and then taken as a key of its own.\<close>

definition esc_store :: "nat \<Rightarrow> edit \<Rightarrow> edit outcome" where
  "esc_store c st =
     (if ed_esc st < 0 then Val st
      else if ed_esc st = 6 then omap (\<lambda>st. st\<lparr>ed_esc := -1\<rparr>) (show_esc_buf (char_of c) 0 st)
      else Val (st\<lparr>ed_esc_buf := take (nat (ed_esc st)) (ed_esc_buf st) @ [char_of c], ed_esc := ed_esc st + 1\<rparr>))"

definition edit_read_key :: "nat option \<Rightarrow> edit \<Rightarrow> (nat \<times> edit) outcome" where
  "edit_read_key inp st =
     (case inp of
        None \<Rightarrow> Val (EDIT_KEY_EOF, st)
      | Some c \<Rightarrow>
          if ed_esc st \<ge> 0 \<and> c = 27 then Val (EDIT_KEY_NONE, st\<lparr>ed_esc := 0\<rparr>)
          else
            obind (esc_store c st) (\<lambda>st.
              if ed_esc st = 1 then
                (if at0 (ed_esc_buf st) \<noteq> CHR ''['' \<and> at0 (ed_esc_buf st) \<noteq> CHR ''O''
                 then omap (\<lambda>st. (EDIT_KEY_NONE, st\<lparr>ed_esc := -1\<rparr>)) (show_esc_buf (char_of c) 1 st)
                 else Val (EDIT_KEY_NONE, st))
              else if ed_esc st > 1 then
                (if (48 \<le> c \<and> c \<le> 57) \<or> c = 59 then Val (EDIT_KEY_NONE, st)
                 else if c = 126 \<or> (65 \<le> c \<and> c \<le> 90) then esc_seq_to_key (ed_esc_buf st) (st\<lparr>ed_esc := -1\<rparr>)
                 else omap (\<lambda>st. (EDIT_KEY_NONE, st\<lparr>ed_esc := -1\<rparr>)) (show_esc_buf (char_of c) 2 st))
              else Val (plain_key c st)))"

section \<open>Search\<close>

definition search_find :: "edit \<Rightarrow> string option \<times> edit" where
  "search_find st =
     (if ed_search_buf st = [] then (None, st)
      else
        let found = filter (\<lambda>h. os_strstr h (ed_search_buf st) \<noteq> None) (ed_history st)
        in if ed_search_skip st < length found then (Some (found ! ed_search_skip st), st)
           else (None, st\<lparr>ed_search_skip := 0\<rparr>))"

definition CLEAR_END_LINE :: string where "CLEAR_END_LINE = CHR 0x1B # ''[K''"

definition search_redraw :: "edit \<Rightarrow> edit" where
  "search_redraw st =
     (case search_find st of
        (m, st) \<Rightarrow> put (CR # ''search '' @ SQ # ed_search_buf st @ [SQ] @ '': '' @ (case m of None \<Rightarrow> [] | Some t \<Rightarrow> t) @ CLEAR_END_LINE @
                     CR # ''search '' @ SQ # ed_search_buf st) st)"

definition search_start :: "edit \<Rightarrow> edit" where
  "search_start st = search_redraw ((edit_clear_line st)\<lparr>ed_search_buf := [], ed_search_skip := 0\<rparr>)"

definition search_clear :: "edit \<Rightarrow> edit" where
  "search_clear st = put (CR # CLEAR_END_LINE) (search_redraw st)"

definition search_stop :: "edit \<Rightarrow> edit outcome" where
  "search_stop st =
     (case search_find st of
        (m, st) \<Rightarrow>
          let st = search_clear (st\<lparr>ed_search_buf := []\<rparr>)
          in case m of
               None \<Rightarrow> edit_redraw st
             | Some t \<Rightarrow>
                 let t = take (CMD_BUF_LEN - 1) t
                 in obind (with_buf (mem_copy 0 (t @ [NUL])) st) (\<lambda>st. edit_redraw (st\<lparr>ed_len := length t, ed_pos := length t\<rparr>)))"

definition search_cancel :: "edit \<Rightarrow> edit outcome" where
  "search_cancel st = edit_redraw (search_clear (st\<lparr>ed_search_buf := []\<rparr>))"

definition search_backspace :: "edit \<Rightarrow> edit" where
  "search_backspace st =
     (if ed_search_buf st = [] then st
      else search_redraw (st\<lparr>ed_search_buf := butlast (ed_search_buf st), ed_search_skip := 0\<rparr>))"

definition search_next :: "edit \<Rightarrow> edit" where
  "search_next st = search_redraw (snd (search_find (st\<lparr>ed_search_skip := ed_search_skip st + 1\<rparr>)))"

definition search_char :: "nat \<Rightarrow> edit \<Rightarrow> edit" where
  "search_char c st =
     (if length (ed_search_buf st) = 20 then st
      else search_redraw (st\<lparr>ed_search_buf := ed_search_buf st @ [char_of c], ed_search_skip := 0\<rparr>))"

definition search_key :: "nat \<Rightarrow> edit \<Rightarrow> (nat \<times> edit) outcome" where
  "search_key c st =
     (if c \<in> {EDIT_KEY_ENTER, EDIT_KEY_CTRL_J, EDIT_KEY_LEFT, EDIT_KEY_RIGHT, EDIT_KEY_HOME, EDIT_KEY_END, EDIT_KEY_CTRL_A, EDIT_KEY_CTRL_E}
      then omap (Pair c) (search_stop st)
      else if c = EDIT_KEY_DOWN \<or> c = EDIT_KEY_UP then omap (Pair EDIT_KEY_EOF) (search_cancel st)
      else if c = EDIT_KEY_CTRL_H \<or> c = EDIT_KEY_BACKSPACE then Val (EDIT_KEY_NONE, search_backspace st)
      else if c = EDIT_KEY_CTRL_R then Val (EDIT_KEY_NONE, search_next st)
      else Val (EDIT_KEY_NONE, if 32 \<le> c \<and> c \<le> 255 then search_char c st else st))"

section \<open>The dispatch of keys\<close>

definition edit_eof :: "edit \<Rightarrow> edit" where
  "edit_eof st = st\<lparr>ed_calls := ed_calls st @ [Eof_cb]\<rparr>"

definition edit_do_key :: "completion option \<Rightarrow> nat \<Rightarrow> edit \<Rightarrow> edit outcome" where
  "edit_do_key cb c st =
     (let st = (if c \<noteq> EDIT_KEY_TAB \<and> c \<noteq> EDIT_KEY_NONE then st\<lparr>ed_last_tab := False\<rparr> else st)
      in if c = EDIT_KEY_NONE then Val st
         else if c = EDIT_KEY_EOF then Val (edit_eof st)
         else if c = EDIT_KEY_TAB then omap (\<lambda>st. st\<lparr>ed_last_tab := True\<rparr>) (complete cb (ed_last_tab st) st)
         else if c = EDIT_KEY_UP \<or> c = EDIT_KEY_CTRL_P then history_prev st
         else if c = EDIT_KEY_DOWN \<or> c = EDIT_KEY_CTRL_N then history_next st
         else if c = EDIT_KEY_RIGHT \<or> c = EDIT_KEY_CTRL_F then move_right st
         else if c = EDIT_KEY_LEFT \<or> c = EDIT_KEY_CTRL_B then move_left st
         else if c = EDIT_KEY_CTRL_RIGHT then move_word_right st
         else if c = EDIT_KEY_CTRL_LEFT then move_word_left st
         else if c = EDIT_KEY_DELETE then delete_current st
         else if c = EDIT_KEY_END then move_end st
         else if c = EDIT_KEY_HOME \<or> c = EDIT_KEY_CTRL_A then move_start st
         else if c = EDIT_KEY_F2 then history_debug_dump st
         else if c = EDIT_KEY_CTRL_D then (if ed_len st > 0 then delete_current st else Val (edit_eof (put [NL] st)))
         else if c = EDIT_KEY_CTRL_E then move_end st
         else if c = EDIT_KEY_CTRL_H \<or> c = EDIT_KEY_BACKSPACE then delete_left st
         else if c = EDIT_KEY_ENTER \<or> c = EDIT_KEY_CTRL_J then process_cmd st
         else if c = EDIT_KEY_CTRL_K then clear_right st
         else if c = EDIT_KEY_CTRL_L then edit_redraw (edit_clear_line st)
         else if c = EDIT_KEY_CTRL_R then Val (search_start (st\<lparr>ed_search := True\<rparr>))
         else if c = EDIT_KEY_CTRL_U then clear_left st
         else if c = EDIT_KEY_CTRL_W then delete_word st
         else if 32 \<le> c \<and> c \<le> 255 then insert_char c st
         else Val st)"

definition edit_read_char :: "completion option \<Rightarrow> nat option \<Rightarrow> edit \<Rightarrow> edit outcome" where
  "edit_read_char cb inp st =
     obind (edit_read_key inp st) (\<lambda>(c, st).
       if ed_search st then
         obind (search_key c st) (\<lambda>(c, st).
           if c = EDIT_KEY_NONE then Val st
           else if c = EDIT_KEY_EOF then Val (st\<lparr>ed_search := False\<rparr>)
           else edit_do_key cb c (st\<lparr>ed_search := False\<rparr>))
       else edit_do_key cb c st)"

definition edit_init :: "string option \<Rightarrow> string option \<Rightarrow> edit \<Rightarrow> edit" where
  "edit_init history_file ps st =
     (let st = history_read history_file (st\<lparr>ed_curr := [], ed_history := [], ed_hcurr := None\<rparr>); st = st\<lparr>ed_ps2 := ps\<rparr>
      in put (ps2_text st @ ''> '') st)"

definition edit_deinit :: "bool \<Rightarrow> (string \<Rightarrow> bool) option \<Rightarrow> edit \<Rightarrow> string option \<times> edit" where
  "edit_deinit history_file filter_cb st =
     (if history_file then Some (history_write filter_cb st) else None,
      put [CR] (edit_clear_line (st\<lparr>ed_history := []\<rparr>)))"

text \<open>The static variables before the first call.\<close>

definition edit_static :: edit where
  "edit_static = \<lparr>ed_buf = replicate CMD_BUF_LEN NUL, ed_pos = 0, ed_len = 0, ed_curr = [], ed_curr_valid = False, ed_ps2 = None,
     ed_history = [], ed_hcurr = None, ed_esc = -1, ed_esc_buf = [], ed_search_buf = [], ed_search_skip = 0, ed_search = False,
     ed_last_tab = False, ed_out = [], ed_calls = []\<rparr>"

end
