(* ===== verification/Edit_Line.thy ===== *)
theory Edit_Line
  imports Edit
begin
text \<open>
  The line of the editor as the texts before and behind the cursor: what each editing key does to them, the
  invariant of the editor, and that moving in the history, commands and completion keep it.
\<close>

section \<open>The line as two texts\<close>

text \<open>The line buffer seen as the texts before and behind the cursor.\<close>

definition view :: "edit \<Rightarrow> string \<Rightarrow> string \<Rightarrow> bool" where
  "view st b a \<longleftrightarrow> (\<exists>c r. ed_buf st = b @ a @ c # r) \<and> length (ed_buf st) = CMD_BUF_LEN \<and>
     ed_pos st = length b \<and> ed_len st = length b + length a"

lemma viewE:
  assumes "view st b a"
  obtains c r where "ed_buf st = b @ a @ c # r" "ed_pos st = length b" "ed_len st = length b + length a"
    "length (b @ a @ c # r) = CMD_BUF_LEN"
  using assms by (auto simp: view_def)

lemma view_length: "view st b a \<Longrightarrow> length b + length a < CMD_BUF_LEN"
  by (auto simp: view_def)

lemma put_at_append: "put_at (xs @ ys) (length xs) s = xs @ s @ drop (length s) ys"
  by (simp add: put_at_def memwrite_def)

text \<open>What drawing and the messages of the editor leave alone.\<close>

definition rest :: "edit \<Rightarrow> edit" where
  "rest st = st\<lparr>ed_buf := [], ed_pos := 0, ed_len := 0, ed_out := []\<rparr>"

lemma rest_update [simp]:
  "rest (st\<lparr>ed_buf := x\<rparr>) = rest st" "rest (st\<lparr>ed_pos := p\<rparr>) = rest st" "rest (st\<lparr>ed_len := l\<rparr>) = rest st"
  "rest (st\<lparr>ed_out := t\<rparr>) = rest st" "rest (put t st) = rest st" "rest (edit_clear_line st) = rest st"
  by (simp_all add: rest_def put_def edit_clear_line_def)

lemma rest_fields:
  "ed_history (rest st) = ed_history st" "ed_hcurr (rest st) = ed_hcurr st" "ed_curr (rest st) = ed_curr st" "ed_curr_valid (rest st) = ed_curr_valid st"
  "ed_ps2 (rest st) = ed_ps2 st" "ed_esc (rest st) = ed_esc st" "ed_esc_buf (rest st) = ed_esc_buf st" "ed_search_buf (rest st) = ed_search_buf st"
  "ed_search_skip (rest st) = ed_search_skip st" "ed_search (rest st) = ed_search st" "ed_last_tab (rest st) = ed_last_tab st" "ed_calls (rest st) = ed_calls st"
  by (simp_all add: rest_def)

lemma restD:
  assumes "rest st' = rest st"
  shows "ed_history st' = ed_history st" "ed_hcurr st' = ed_hcurr st" "ed_curr st' = ed_curr st" "ed_curr_valid st' = ed_curr_valid st"
    "ed_ps2 st' = ed_ps2 st" "ed_esc st' = ed_esc st" "ed_esc_buf st' = ed_esc_buf st" "ed_search_buf st' = ed_search_buf st"
    "ed_search_skip st' = ed_search_skip st" "ed_search st' = ed_search st" "ed_last_tab st' = ed_last_tab st" "ed_calls st' = ed_calls st"
  using assms by (metis rest_fields(1), metis rest_fields(2), metis rest_fields(3), metis rest_fields(4), metis rest_fields(5), metis rest_fields(6), metis rest_fields(7), metis rest_fields(8), metis rest_fields(9), metis rest_fields(10), metis rest_fields(11), metis rest_fields(12))

lemma redraw_view:
  assumes "view st b a"
  shows "\<exists>st'. edit_redraw st = Val st' \<and> view st' b a \<and> rest st' = rest st"
proof -
  from assms obtain c r where v: "ed_buf st = b @ a @ c # r" "ed_pos st = length b" "ed_len st = length b + length a"
    "length (b @ a @ c # r) = CMD_BUF_LEN" by (rule viewE)
  have u: "(b @ a @ c # r)[length b + length a := NUL] = b @ a @ NUL # r" by (simp add: list_update_append)
  show ?thesis
    using v unfolding edit_redraw_def with_buf_def poke_def put_def
    by (auto simp: u Let_def view_def)
qed

lemma put_view [simp]: "view (put t st) b a \<longleftrightarrow> view st b a" "view (edit_clear_line st) b a \<longleftrightarrow> view st b a"
  by (simp_all add: view_def put_def edit_clear_line_def)

lemma put_fields [simp]:
  "ed_buf (put t st) = ed_buf st" "ed_pos (put t st) = ed_pos st" "ed_len (put t st) = ed_len st"
  "ed_buf (edit_clear_line st) = ed_buf st" "ed_pos (edit_clear_line st) = ed_pos st" "ed_len (edit_clear_line st) = ed_len st"
  by (simp_all add: put_def edit_clear_line_def)

text \<open>An operation that moves the cursor or changes the text and then draws the line.\<close>

definition edits :: "(edit \<Rightarrow> edit outcome) \<Rightarrow> edit \<Rightarrow> string \<Rightarrow> string \<Rightarrow> bool" where
  "edits f st b a \<longleftrightarrow> (\<exists>st'. f st = Val st' \<and> view st' b a \<and> rest st' = rest st)"

lemma edits_redraw:
  assumes "f st = edit_redraw st1" "view st1 b a" "rest st1 = rest st"
  shows "edits f st b a"
  using redraw_view [OF assms(2)] assms(1,3) by (auto simp: edits_def)

lemma edits_stay: "f st = Val st \<Longrightarrow> view st b a \<Longrightarrow> edits f st b a"
  by (simp add: edits_def)

lemma view_cursor:
  assumes "view st b a" "b @ a = b' @ a'"
  shows "view (st\<lparr>ed_pos := length b'\<rparr>) b' a'"
proof -
  have "length b + length a = length b' + length a'" using assms(2) by (metis length_append)
  then show ?thesis using assms by (auto simp: view_def) (metis append.assoc)
qed

lemma move_edits:
  assumes "view st b a" "b @ a = b' @ a'" "f st = edit_redraw (st\<lparr>ed_pos := length b'\<rparr>)"
  shows "edits f st b' a'"
  using edits_redraw [of f st, OF assms(3) view_cursor [OF assms(1,2)]] by simp

text \<open>Moving the rest of the line to the left, over characters that are dropped.\<close>

lemma shift_edits:
  assumes v: "view st (b' @ d) a"
    and f: "f st = obind (with_buf (mem_move (length b') (length b' + length d) (length a)) (edit_clear_line st)) (\<lambda>st. edit_redraw (g st))"
    and g: "\<And>buf. ed_buf (g ((edit_clear_line st)\<lparr>ed_buf := buf\<rparr>)) = buf \<and> ed_pos (g ((edit_clear_line st)\<lparr>ed_buf := buf\<rparr>)) = length b' \<and>
      ed_len (g ((edit_clear_line st)\<lparr>ed_buf := buf\<rparr>)) = length b' + length a \<and> rest (g ((edit_clear_line st)\<lparr>ed_buf := buf\<rparr>)) = rest st"
  shows "edits f st b' a"
proof -
  from v obtain c r where v: "ed_buf st = b' @ d @ a @ c # r" "length (b' @ d @ a @ c # r) = CMD_BUF_LEN"
    by (auto elim: viewE)
  have t: "take (length a) (drop (length b' + length d) (ed_buf st)) = a" using v(1) by simp
  have p: "put_at (ed_buf st) (length b') a = b' @ a @ drop (length a) (d @ a @ c # r)"
    unfolding v(1) by (rule put_at_append)
  obtain c' r' where cr: "drop (length a) (d @ a @ c # r) = c' # r'"
    by (cases "drop (length a) (d @ a @ c # r)") auto
  let ?buf = "b' @ a @ c' # r'" and ?s = "g ((edit_clear_line st)\<lparr>ed_buf := b' @ a @ c' # r'\<rparr>)"
  have "length ?buf = CMD_BUF_LEN" using v(2) unfolding cr [symmetric] by simp
  then have view: "view ?s b' a" using g [of ?buf] by (auto simp: view_def)
  have "mem_move (length b') (length b' + length d) (length a) (ed_buf st) = Val ?buf"
    using v(2) unfolding mem_move_def t p cr by (simp add: v(1))
  then have "f st = edit_redraw ?s" unfolding f with_buf_def by simp
  from edits_redraw [of f st, OF this view] g show ?thesis by blast
qed

lemma back_while_rev:
  "p \<le> length b \<Longrightarrow> take (back_while P b p) b = rev (dropWhile P (rev (take p b))) \<and> back_while P b p \<le> p"
  by (induction p) (auto simp: take_Suc_conv_app_nth)

definition word_left :: "string \<Rightarrow> string" where
  "word_left b = rev (dropWhile (\<lambda>c. c \<noteq> CHR '' '') (dropWhile (\<lambda>c. c = CHR '' '') (rev b)))"

lemma word_start_take:
  assumes "p \<le> length b"
  shows "take (word_start b p) b = word_left (take p b)" "word_start b p \<le> p"
proof -
  note s = back_while_rev [OF assms, of "\<lambda>c. c = CHR '' ''"]
  then have "back_while (\<lambda>c. c = CHR '' '') b p \<le> length b" using assms by simp
  from back_while_rev [OF this, of "\<lambda>c. c \<noteq> CHR '' ''"] s
  show "take (word_start b p) b = word_left (take p b)" "word_start b p \<le> p"
    by (simp_all add: word_start_def word_left_def)
qed

lemma word_left_prefix: "\<exists>d. b = word_left b @ d"
proof -
  have "\<exists>w. rev b = w @ dropWhile (\<lambda>c. c \<noteq> CHR '' '') (dropWhile (\<lambda>c. c = CHR '' '') (rev b))"
    by (metis append.assoc takeWhile_dropWhile_id)
  then obtain w where "rev b = w @ rev (word_left b)" by (auto simp: word_left_def)
  then have "b = word_left b @ rev w" by (metis rev_append rev_rev_ident)
  then show ?thesis ..
qed

lemma word_start_view:
  assumes "view st b a"
  shows "word_start (ed_buf st) (length b) = length (word_left b)"
proof -
  from assms obtain x where e: "ed_buf st = b @ x" by (auto elim: viewE)
  then have "take (word_start (ed_buf st) (length b)) (ed_buf st) = word_left b" "word_start (ed_buf st) (length b) \<le> length b"
    using word_start_take [of "length b" "ed_buf st"] by simp_all
  then show ?thesis using e by (metis length_append length_take min.absorb2 trans_le_add1)
qed

lemma forth_while_takeWhile:
  "p \<le> l \<Longrightarrow> l \<le> length b \<Longrightarrow> forth_while P b l p = p + length (takeWhile P (drop p (take l b)))"
proof (induction P b l p rule: forth_while.induct)
  case (1 P b l p)
  show ?case
  proof (cases "p < l")
    case True
    with 1 have d: "drop p (take l b) = b ! p # drop (Suc p) (take l b)" by (simp add: Cons_nth_drop_Suc [symmetric] min_def)
    from True 1 show ?thesis unfolding d by (subst forth_while.simps) auto
  next
    case False
    with 1 show ?thesis by (subst forth_while.simps) simp
  qed
qed

definition word_right :: "string \<Rightarrow> string" where
  "word_right a = takeWhile (\<lambda>c. c = CHR '' '') a @ takeWhile (\<lambda>c. c \<noteq> CHR '' '') (dropWhile (\<lambda>c. c = CHR '' '') a)"

lemma move_word_edits:
  assumes v: "view st b a"
  shows "edits move_word_left st (word_left b) (drop (length (word_left b)) b @ a)"
    "edits move_word_right st (b @ word_right a) (drop (length (word_right a)) a)"
proof -
  from v obtain c r where e: "ed_buf st = b @ a @ c # r" "ed_pos st = length b" "ed_len st = length b + length a" by (rule viewE)
  have w: "word_start (ed_buf st) (ed_pos st) = length (word_left b)" using word_start_view [OF v] e(2) by simp
  obtain d where d: "b = word_left b @ d" using word_left_prefix by blast
  then have "drop (length (word_left b)) b = d" by (metis append_eq_conv_conj)
  with d have "b @ a = word_left b @ drop (length (word_left b)) b @ a" by simp
  then show "edits move_word_left st (word_left b) (drop (length (word_left b)) b @ a)"
    by (rule move_edits [OF v]) (simp add: move_word_left_def w)
  let ?p = "forth_while (\<lambda>c. c = CHR '' '') (ed_buf st) (ed_len st) (ed_pos st)"
  have p: "?p = length b + length (takeWhile (\<lambda>c. c = CHR '' '') a)"
    using forth_while_takeWhile [of "length b" "ed_len st" "ed_buf st"] e by simp
  have a: "takeWhile (\<lambda>c. c = CHR '' '') a @ dropWhile (\<lambda>c. c = CHR '' '') a = a" by simp
  have "length (takeWhile (\<lambda>c. c = CHR '' '') a) \<le> length a" by (metis a length_append le_add1)
  then have q: "forth_while (\<lambda>c. c \<noteq> CHR '' '') (ed_buf st) (ed_len st) ?p = length b + length (word_right a)"
    using forth_while_takeWhile [of ?p "ed_len st" "ed_buf st" "\<lambda>c. c \<noteq> CHR '' ''"] e p
    by (simp add: word_right_def dropWhile_eq_drop)
  have "\<exists>t. a = word_right a @ t" unfolding word_right_def using a by (metis append.assoc takeWhile_dropWhile_id)
  then have "b @ a = (b @ word_right a) @ drop (length (word_right a)) a" by (metis append.assoc append_eq_conv_conj)
  then show "edits move_word_right st (b @ word_right a) (drop (length (word_right a)) a)"
    by (rule move_edits [OF v]) (simp add: move_word_right_def q)
qed

lemma move_ops:
  assumes v: "view st b a"
  shows "edits move_start st [] (b @ a)" "edits move_end st (b @ a) []"
    "edits move_left st (butlast b) (if b = [] then a else last b # a)"
    "edits move_right st (if a = [] then b else b @ [hd a]) (tl a)"
proof -
  from v have e: "ed_pos st = length b" "ed_len st = length b + length a" by (auto elim: viewE)
  show "edits move_start st [] (b @ a)" by (rule move_edits [OF v]) (simp_all add: move_start_def)
  show "edits move_end st (b @ a) []" by (rule move_edits [OF v]) (simp_all add: move_end_def e)
  show "edits move_left st (butlast b) (if b = [] then a else last b # a)"
  proof (cases "b = []")
    case True
    then show ?thesis using v e by (simp add: move_left_def edits_stay)
  next
    case False
    then have "edits move_left st (butlast b) (last b # a)"
      by (intro move_edits [OF v]) (simp_all add: move_left_def e)
    with False show ?thesis by simp
  qed
  show "edits move_right st (if a = [] then b else b @ [hd a]) (tl a)"
  proof (cases a)
    case Nil
    then show ?thesis using v e by (simp add: move_right_def edits_stay)
  next
    case (Cons x t)
    then have "edits move_right st (b @ [x]) t" by (intro move_edits [OF v]) (simp_all add: move_right_def e)
    with Cons show ?thesis by simp
  qed
qed

lemma delete_ops:
  assumes v: "view st b a"
  shows "edits delete_left st (butlast b) a" "edits delete_word st (word_left b) a" "edits clear_left st [] a" "edits clear_right st b []"
    "edits delete_current st b (tl a)"
proof -
  from v obtain c r where e: "ed_buf st = b @ a @ c # r" "ed_pos st = length b" "ed_len st = length b + length a"
    "length (b @ a @ c # r) = CMD_BUF_LEN" by (rule viewE)
  show "edits delete_left st (butlast b) a"
  proof (cases "b = []")
    case True
    then show ?thesis using v e by (simp add: delete_left_def edits_stay)
  next
    case False
    then obtain b' x where b: "b = b' @ [x]" by (cases b rule: rev_cases) auto
    have "edits delete_left st b' a"
      using v unfolding b
      by (rule shift_edits [where g = "\<lambda>st. st\<lparr>ed_pos := ed_pos st - 1, ed_len := ed_len st - 1\<rparr>"]) (simp_all add: delete_left_def e b)
    with b show ?thesis by simp
  qed
  show "edits delete_word st (word_left b) a"
  proof -
    obtain d where d: "b = word_left b @ d" using word_left_prefix by blast
    have w: "word_start (ed_buf st) (ed_pos st) = length (word_left b)" using word_start_view [OF v] e(2) by simp
    have l: "length b = length (word_left b) + length d" using d by (metis length_append)
    from v d have "view st (word_left b @ d) a" by simp
    then show ?thesis
      by (rule shift_edits [where g = "\<lambda>st. st\<lparr>ed_len := ed_len st - (ed_pos st - length (word_left b)), ed_pos := length (word_left b)\<rparr>"])
        (unfold delete_word_def w Let_def, simp_all add: e(2,3) l)
  qed
  show "edits clear_left st [] a"
  proof (cases "b = []")
    case True
    then show ?thesis using v e by (simp add: clear_left_def edits_stay)
  next
    case False
    from v have "view st ([] @ b) a" by simp
    then show ?thesis
      by (rule shift_edits [where g = "\<lambda>st. st\<lparr>ed_len := ed_len st - ed_pos st, ed_pos := 0\<rparr>"]) (simp_all add: clear_left_def e(2,3) False)
  qed
  show "edits clear_right st b []"
  proof (cases "a = []")
    case True
    then show ?thesis using v e by (simp add: clear_right_def edits_stay)
  next
    case False
    then have "clear_right st = edit_redraw ((edit_clear_line st)\<lparr>ed_len := ed_pos st\<rparr>)" using e by (simp add: clear_right_def)
    moreover have "view ((edit_clear_line st)\<lparr>ed_len := ed_pos st\<rparr>) b []" using False e by (cases a) (auto simp: view_def)
    ultimately show ?thesis using edits_redraw [of clear_right st] by simp
  qed
  show "edits delete_current st b (tl a)"
  proof (cases a)
    case Nil
    then show ?thesis using v e by (simp add: delete_current_def edits_stay)
  next
    case (Cons x t)
    let ?buf = "b @ t @ c # drop (length t + 1) (x # t @ c # r)"
    have "take (length a) (drop (length b + 1) (ed_buf st)) = t @ [c]" using e(1) Cons by simp
    moreover have "put_at (ed_buf st) (length b) (t @ [c]) = ?buf" using put_at_append [of b "a @ c # r" "t @ [c]"] e(1) Cons by simp
    ultimately have "mem_move (length b) (length b + 1) (length a) (ed_buf st) = Val ?buf"
      using e(1,4) Cons unfolding mem_move_def by simp
    then have "delete_current st = edit_redraw ((edit_clear_line st)\<lparr>ed_buf := ?buf, ed_len := ed_len st - 1\<rparr>)"
      using Cons e(2,3) by (simp add: delete_current_def with_buf_def)
    moreover have "view ((edit_clear_line st)\<lparr>ed_buf := ?buf, ed_len := ed_len st - 1\<rparr>) b t"
      using e Cons by (auto simp: view_def)
    ultimately show ?thesis using edits_redraw [of delete_current st] Cons by simp
  qed
qed

lemma insert_op:
  assumes v: "view st b a" and c: "c < 256"
  shows "if length b + length a < CMD_BUF_LEN - 1 then edits (insert_char c) st (b @ [char_of c]) a else insert_char c st = Val st"
proof (cases "length b + length a < CMD_BUF_LEN - 1")
  case True
  from v obtain x r where e: "ed_buf st = b @ a @ x # r" "ed_pos st = length b" "ed_len st = length b + length a"
    "length (b @ a @ x # r) = CMD_BUF_LEN" by (rule viewE)
  then obtain y r' where r: "r = y # r'" using True by (cases r) auto
  show ?thesis
  proof (cases a)
    case Nil
    then have "insert_char c st = Val (put [char_of c] (st\<lparr>ed_buf := b @ char_of c # r, ed_pos := length b + 1, ed_len := length b + 1\<rparr>))"
      using True e by (simp add: insert_char_def with_buf_def poke_def list_update_append)
    moreover have "view (put [char_of c] (st\<lparr>ed_buf := b @ char_of c # r, ed_pos := length b + 1, ed_len := length b + 1\<rparr>)) (b @ [char_of c]) a"
      using e Nil r by (auto simp: view_def put_def)
    ultimately show ?thesis using True by (simp add: edits_def)
  next
    case (Cons z t)
    let ?b1 = "take (length b + 1) (ed_buf st) @ a @ r" and ?b2 = "b @ char_of c # a @ r"
    have l: "take (length a) (drop (length b) (ed_buf st)) = a" using e(1) by simp
    have "put_at (ed_buf st) (length b + 1) a = ?b1" using e(1) Cons by (simp add: put_at_def memwrite_def)
    then have m: "mem_move (length b + 1) (length b) (length a) (ed_buf st) = Val ?b1"
      using e True unfolding mem_move_def l by simp
    have u: "?b1[length b := char_of c] = ?b2" using e(1) Cons by (simp add: list_update_append)
    let ?s = "st\<lparr>ed_buf := ?b2, ed_pos := length b + 1, ed_len := length b + length a + 1\<rparr>"
    have "insert_char c st = edit_redraw ?s"
      using True Cons e m u by (simp add: insert_char_def with_buf_def poke_def)
    moreover have "view ?s (b @ [char_of c]) a" using e r by (auto simp: view_def)
    ultimately show ?thesis using True edits_redraw [of "insert_char c" st ?s] by simp
  qed
next
  case False
  with v show ?thesis by (auto simp: insert_char_def view_def)
qed


section \<open>The invariant of the editor\<close>

definition history_ok :: "edit \<Rightarrow> bool" where
  "history_ok st \<longleftrightarrow> distinct (ed_history st) \<and> length (ed_history st) \<le> HISTORY_MAX \<and>
     (\<forall>h \<in> set (ed_history st). h \<noteq> [] \<and> no_nul h \<and> length h < CMD_BUF_LEN) \<and>
     (case ed_hcurr st of None \<Rightarrow> ed_history st = [] | Some i \<Rightarrow> i < length (ed_history st))"

lemma history_ok_update [simp]:
  "history_ok (st\<lparr>ed_esc := e\<rparr>) = history_ok st" "history_ok (st\<lparr>ed_esc_buf := t\<rparr>) = history_ok st" "history_ok (st\<lparr>ed_curr_valid := v\<rparr>) = history_ok st"
  "history_ok (st\<lparr>ed_calls := cs\<rparr>) = history_ok st" "history_ok (st\<lparr>ed_ps2 := p\<rparr>) = history_ok st"
  by (simp_all add: history_ok_def split: option.split)

definition rest_ok :: "edit \<Rightarrow> bool" where
  "rest_ok st \<longleftrightarrow> history_ok st \<and> no_nul (ed_curr st) \<and> length (ed_curr st) < CMD_BUF_LEN \<and>
     -1 \<le> ed_esc st \<and> ed_esc st \<le> 6 \<and> (0 < ed_esc st \<longrightarrow> int (length (ed_esc_buf st)) = ed_esc st) \<and> length (ed_search_buf st) \<le> 20"

definition line_ok :: "edit \<Rightarrow> bool" where
  "line_ok st \<longleftrightarrow> (\<exists>b a. view st b a \<and> no_nul (b @ a))"

definition edit_inv :: "edit \<Rightarrow> bool" where
  "edit_inv st \<longleftrightarrow> line_ok st \<and> rest_ok st"

definition keeps :: "(edit \<Rightarrow> edit outcome) \<Rightarrow> edit \<Rightarrow> bool" where
  "keeps f st \<longleftrightarrow> (\<exists>st'. f st = Val st' \<and> edit_inv st')"

lemma rest_ok_rest: "rest st' = rest st \<Longrightarrow> rest_ok st' = rest_ok st"
proof -
  have r: "rest_ok (rest st) = rest_ok st" for st by (simp add: rest_ok_def history_ok_def rest_fields split: option.split)
  show "rest st' = rest st \<Longrightarrow> rest_ok st' = rest_ok st" by (metis r)
qed

lemma edits_keeps:
  assumes "edits f st b a" "no_nul (b @ a)" "rest_ok st"
  shows "keeps f st"
  using assms rest_ok_rest unfolding edits_def keeps_def edit_inv_def line_ok_def by blast

lemma no_nul_append [simp]: "no_nul (b @ a) \<longleftrightarrow> no_nul b \<and> no_nul a"
  by (auto simp: no_nul_def)

lemma no_nul_sub: "set b \<subseteq> set a \<Longrightarrow> no_nul a \<Longrightarrow> no_nul b"
  by (auto simp: no_nul_def)

lemma set_word_left: "set (word_left b) \<subseteq> set b"
  using word_left_prefix [of b] by (metis Un_upper1 set_append)

lemma set_word_right: "set (word_right a) \<subseteq> set a"
  by (auto simp: word_right_def dest: set_takeWhileD set_dropWhileD)

section \<open>Keys that edit the line\<close>

text \<open>A line editor on the texts before and behind the cursor.\<close>

definition line_key :: "nat \<Rightarrow> string \<Rightarrow> string \<Rightarrow> (string \<times> string) option" where
  "line_key c b a =
     (if c \<in> {EDIT_KEY_RIGHT, EDIT_KEY_CTRL_F} then Some (if a = [] then b else b @ [hd a], tl a)
      else if c \<in> {EDIT_KEY_LEFT, EDIT_KEY_CTRL_B} then Some (butlast b, if b = [] then a else last b # a)
      else if c = EDIT_KEY_CTRL_RIGHT then Some (b @ word_right a, drop (length (word_right a)) a)
      else if c = EDIT_KEY_CTRL_LEFT then Some (word_left b, drop (length (word_left b)) b @ a)
      else if c \<in> {EDIT_KEY_END, EDIT_KEY_CTRL_E} then Some (b @ a, [])
      else if c \<in> {EDIT_KEY_HOME, EDIT_KEY_CTRL_A} then Some ([], b @ a)
      else if c = EDIT_KEY_DELETE \<or> c = EDIT_KEY_CTRL_D \<and> b @ a \<noteq> [] then Some (b, tl a)
      else if c \<in> {EDIT_KEY_CTRL_H, EDIT_KEY_BACKSPACE} then Some (butlast b, a)
      else if c = EDIT_KEY_CTRL_K then Some (b, [])
      else if c = EDIT_KEY_CTRL_L then Some (b, a)
      else if c = EDIT_KEY_CTRL_U then Some ([], a)
      else if c = EDIT_KEY_CTRL_W then Some (word_left b, a)
      else if 32 \<le> c \<and> c \<le> 255 then Some (if length (b @ a) < CMD_BUF_LEN - 1 then b @ [char_of c] else b, a)
      else None)"

lemma redraw_edits: "view st b a \<Longrightarrow> edits (\<lambda>st. edit_redraw (edit_clear_line st)) st b a"
  by (rule edits_redraw [of _ st "edit_clear_line st"]) simp_all

lemma insert_edits:
  assumes "view st b a" "c < 256"
  shows "edits (insert_char c) st (if length (b @ a) < CMD_BUF_LEN - 1 then b @ [char_of c] else b) a"
  using insert_op [OF assms] assms(1) by (auto split: if_splits intro: edits_stay)

lemma line_key_cases:
  assumes "line_key c b a = Some x"
  obtains (right) "c \<in> {EDIT_KEY_RIGHT, EDIT_KEY_CTRL_F}" | (left) "c \<in> {EDIT_KEY_LEFT, EDIT_KEY_CTRL_B}" | (word_right) "c \<in> {EDIT_KEY_CTRL_RIGHT}"
    | (word_left) "c \<in> {EDIT_KEY_CTRL_LEFT}" | (line_end) "c \<in> {EDIT_KEY_END, EDIT_KEY_CTRL_E}" | (line_start) "c \<in> {EDIT_KEY_HOME, EDIT_KEY_CTRL_A}"
    | (delete) "c \<in> {EDIT_KEY_DELETE}" | (backspace) "c \<in> {EDIT_KEY_CTRL_H, EDIT_KEY_BACKSPACE}" | (clear_right) "c \<in> {EDIT_KEY_CTRL_K}"
    | (redraw) "c \<in> {EDIT_KEY_CTRL_L}" | (clear_left) "c \<in> {EDIT_KEY_CTRL_U}" | (delete_word) "c \<in> {EDIT_KEY_CTRL_W}"
    | (ctrl_d) "c = EDIT_KEY_CTRL_D" "b @ a \<noteq> []" | (char) "32 \<le> c" "c \<le> 255"
proof -
  have "c \<in> {EDIT_KEY_RIGHT, EDIT_KEY_CTRL_F} \<or> c \<in> {EDIT_KEY_LEFT, EDIT_KEY_CTRL_B} \<or> c \<in> {EDIT_KEY_CTRL_RIGHT} \<or> c \<in> {EDIT_KEY_CTRL_LEFT} \<or> c \<in> {EDIT_KEY_END, EDIT_KEY_CTRL_E} \<or>
    c \<in> {EDIT_KEY_HOME, EDIT_KEY_CTRL_A} \<or> c \<in> {EDIT_KEY_DELETE} \<or> c \<in> {EDIT_KEY_CTRL_H, EDIT_KEY_BACKSPACE} \<or> c \<in> {EDIT_KEY_CTRL_K} \<or> c \<in> {EDIT_KEY_CTRL_L} \<or>
    c \<in> {EDIT_KEY_CTRL_U} \<or> c \<in> {EDIT_KEY_CTRL_W} \<or> c = EDIT_KEY_CTRL_D \<and> b @ a \<noteq> [] \<or> 32 \<le> c \<and> c \<le> 255" (is ?keys)
  proof (rule ccontr)
    assume "\<not> ?keys"
    then have "line_key c b a = None" by (simp add: line_key_def)
    with assms show False by simp
  qed
  then show thesis using that by blast
qed

lemma line_key_edits:
  assumes "view st b a" "line_key c b a = Some (b', a')"
  shows "\<exists>st'. edit_do_key cb c st = Val st' \<and> view st' b' a' \<and> rest st' = rest (st\<lparr>ed_last_tab := False\<rparr>)"
proof -
  let ?st = "st\<lparr>ed_last_tab := False\<rparr>"
  have v: "view ?st b a" and l: "ed_len ?st = length b + length a" using assms(1) by (auto simp: view_def)
  have h: ?thesis if "edits f ?st b1 a1" "line_key c b a = Some (b1, a1)" "edit_do_key cb c st = f ?st" for f b1 a1
    using that assms(2) by (auto simp: edits_def)
  note s = edit_do_key_def line_key_def
  from assms(2) show ?thesis
  proof (cases rule: line_key_cases)
    case right
    then show ?thesis by (elim insertE emptyE; intro h [OF move_ops(4) [OF v]]; simp add: s)
  next
    case left
    then show ?thesis by (elim insertE emptyE; intro h [OF move_ops(3) [OF v]]; simp add: s)
  next
    case word_right
    then show ?thesis by (elim insertE emptyE; intro h [OF move_word_edits(2) [OF v]]; simp add: s)
  next
    case word_left
    then show ?thesis by (elim insertE emptyE; intro h [OF move_word_edits(1) [OF v]]; simp add: s)
  next
    case line_end
    then show ?thesis by (elim insertE emptyE; intro h [OF move_ops(2) [OF v]]; simp add: s)
  next
    case line_start
    then show ?thesis by (elim insertE emptyE; intro h [OF move_ops(1) [OF v]]; simp add: s)
  next
    case delete
    then show ?thesis by (elim insertE emptyE; intro h [OF delete_ops(5) [OF v]]; simp add: s)
  next
    case backspace
    then show ?thesis by (elim insertE emptyE; intro h [OF delete_ops(1) [OF v]]; simp add: s)
  next
    case clear_right
    then show ?thesis by (elim insertE emptyE; intro h [OF delete_ops(4) [OF v]]; simp add: s)
  next
    case redraw
    then show ?thesis by (elim insertE emptyE; intro h [OF redraw_edits [OF v]]; simp add: s)
  next
    case clear_left
    then show ?thesis by (elim insertE emptyE; intro h [OF delete_ops(3) [OF v]]; simp add: s)
  next
    case delete_word
    then show ?thesis by (elim insertE emptyE; intro h [OF delete_ops(2) [OF v]]; simp add: s)
  next
    case ctrl_d
    then show ?thesis using l by (intro h [OF delete_ops(5) [OF v]]) (auto simp: s)
  next
    case char
    then show ?thesis by (intro h [OF insert_edits [OF v, of c]]) (simp_all add: s)
  qed
qed

lemma char_of_printable: "32 \<le> c \<Longrightarrow> c \<le> 255 \<Longrightarrow> char_of (c::nat) \<noteq> NUL"
proof
  assume "32 \<le> c" "c \<le> 255" "char_of c = NUL"
  then have "of_char (char_of c :: char) = (0::nat)" by simp
  with \<open>32 \<le> c\<close> \<open>c \<le> 255\<close> show False by simp
qed

lemma line_key_no_nul:
  assumes "line_key c b a = Some (b', a')" "no_nul (b @ a)"
  shows "no_nul (b' @ a')"
proof (cases "32 \<le> c \<and> c \<le> 255")
  case True
  with assms char_of_printable [of c] show ?thesis by (auto simp: line_key_def no_nul_def split: if_splits)
next
  case False
  then have "set b' \<union> set a' \<subseteq> set b \<union> set a"
    using assms(1) set_word_left [of b] set_word_right [of a] set_drop_subset [of "length (word_left b)" b] set_drop_subset [of "length (word_right a)" a]
    by (cases a) (auto simp: line_key_def split: if_splits dest: in_set_butlastD)
  with assms(2) show ?thesis by (auto simp: no_nul_def)
qed

text \<open>Storing a text as the whole line, and terminating the line.\<close>

lemma load_line:
  assumes "length (ed_buf st) = CMD_BUF_LEN" "length (s @ e) \<le> CMD_BUF_LEN" "length s < CMD_BUF_LEN"
  shows "\<exists>st1. with_buf (mem_copy 0 (s @ e)) st = Val st1 \<and> ed_len st1 = ed_len st \<and> ed_pos st1 = ed_pos st \<and>
    view (st1\<lparr>ed_len := length s, ed_pos := length s\<rparr>) s [] \<and> rest st1 = rest st"
proof -
  have p: "put_at (ed_buf st) 0 (s @ e) = s @ e @ drop (length (s @ e)) (ed_buf st)"
    using put_at_append [of "[]" "ed_buf st" "s @ e"] by simp
  have "length (e @ drop (length (s @ e)) (ed_buf st)) = CMD_BUF_LEN - length s" using assms by simp
  then obtain c r where "e @ drop (length (s @ e)) (ed_buf st) = c # r" "length (c # r) = CMD_BUF_LEN - length s"
    using assms(3) by (metis Suc_length_conv diff_is_0_eq gr0_conv_Suc leD not_gr_zero)
  with assms p show ?thesis by (simp add: with_buf_def mem_copy_def view_def)
qed

lemma replace_line:
  assumes "length (ed_buf st) = CMD_BUF_LEN" "length s < CMD_BUF_LEN"
  shows "\<exists>st'. obind (with_buf (mem_copy 0 s) (st\<lparr>ed_len := length s, ed_pos := length s\<rparr>)) edit_redraw = Val st' \<and> view st' s [] \<and> rest st' = rest st"
proof -
  let ?st = "st\<lparr>ed_len := length s, ed_pos := length s\<rparr>"
  from load_line [of ?st s "[]"] assms obtain st1 where
    "with_buf (mem_copy 0 s) ?st = Val st1" "ed_len st1 = length s" "ed_pos st1 = length s" "view (st1\<lparr>ed_len := length s, ed_pos := length s\<rparr>) s []" "rest st1 = rest st"
    by auto
  then have "view st1 s []" by (simp add: view_def)
  with redraw_view [OF this] \<open>with_buf (mem_copy 0 s) ?st = Val st1\<close> \<open>rest st1 = rest st\<close> show ?thesis by auto
qed

lemma terminate_line:
  assumes "view st b a"
  shows "\<exists>st1 r. with_buf (poke (ed_len st) NUL) st = Val st1 \<and> st1 = st\<lparr>ed_buf := b @ a @ NUL # r\<rparr> \<and> view st1 b a \<and>
    (no_nul (b @ a) \<longrightarrow> cstr_of (ed_buf st1) = b @ a)"
proof -
  from assms obtain c r where v: "ed_buf st = b @ a @ c # r" "ed_pos st = length b" "ed_len st = length b + length a"
    "length (b @ a @ c # r) = CMD_BUF_LEN" by (rule viewE)
  then have "(ed_buf st)[ed_len st := NUL] = (b @ a) @ NUL # r" by (simp add: list_update_append)
  then have "with_buf (poke (ed_len st) NUL) st = Val (st\<lparr>ed_buf := b @ a @ NUL # r\<rparr>)" using v by (simp add: with_buf_def poke_def)
  moreover have "cstr_of ((b @ a) @ NUL # r) = b @ a" if "no_nul (b @ a)" using that by (rule cstr_of_append_NUL)
  ultimately show ?thesis using v by (auto simp: view_def)
qed

section \<open>The history\<close>

lemma history_add_ok:
  assumes "history_ok st" "no_nul s" "length s < CMD_BUF_LEN"
  shows "history_ok (history_add s st)"
proof -
  have "h \<in> set (ed_history st)" if "h \<in> set (butlast (ed_history st))" for h using that by (rule in_set_butlastD)
  with assms show ?thesis
    by (auto simp: history_ok_def history_add_def Let_def HISTORY_MAX_def distinct_butlast length_remove1 set_remove1_eq split: option.splits
      dest: in_set_butlastD)
qed

lemma history_add_fields [simp]:
  "ed_buf (history_add s st) = ed_buf st" "ed_pos (history_add s st) = ed_pos st" "ed_len (history_add s st) = ed_len st"
  "ed_curr (history_add s st) = ed_curr st" "ed_esc (history_add s st) = ed_esc st" "ed_esc_buf (history_add s st) = ed_esc_buf st"
  "ed_search_buf (history_add s st) = ed_search_buf st" "ed_search (history_add s st) = ed_search st" "ed_calls (history_add s st) = ed_calls st"
  by (simp_all add: history_add_def Let_def)

lemma history_use_keeps:
  assumes "edit_inv st" "i < length (ed_history st)"
  shows "keeps (history_use i) st"
proof -
  let ?s = "ed_history st ! i"
  have "?s \<in> set (ed_history st)" using assms(2) by simp
  then have s: "no_nul ?s" "length ?s < CMD_BUF_LEN" using assms(1) by (auto simp: edit_inv_def rest_ok_def history_ok_def)
  have "length (ed_buf (edit_clear_line st)) = CMD_BUF_LEN" using assms(1) by (auto simp: edit_inv_def line_ok_def view_def)
  from replace_line [OF this s(2)] have "edits (history_use i) st ?s []" by (simp add: edits_def history_use_def Let_def)
  then show ?thesis using s assms(1) by (intro edits_keeps [of _ _ ?s "[]"]) (simp_all add: edit_inv_def no_nul_def)
qed

lemma inv_fields:
  assumes "edit_inv st"
  shows "edit_inv (st\<lparr>ed_last_tab := t\<rparr>)" "edit_inv (st\<lparr>ed_search := s\<rparr>)" "edit_inv (st\<lparr>ed_curr_valid := t\<rparr>)" "edit_inv (put x st)" "edit_inv (edit_clear_line st)"
    "edit_inv (edit_eof st)" "edit_inv (st\<lparr>ed_search_skip := n\<rparr>)" "length q \<le> 20 \<Longrightarrow> edit_inv (st\<lparr>ed_search_buf := q\<rparr>)"
    "i < length (ed_history st) \<Longrightarrow> edit_inv (st\<lparr>ed_hcurr := Some i\<rparr>)" "edit_inv (st\<lparr>ed_esc := -1\<rparr>)" "edit_inv (st\<lparr>ed_esc := 0\<rparr>)"
    "no_nul x \<Longrightarrow> length x < CMD_BUF_LEN \<Longrightarrow> edit_inv (st\<lparr>ed_curr := x\<rparr>)"
  using assms by (auto simp: edit_inv_def line_ok_def view_def rest_ok_def history_ok_def put_def edit_clear_line_def edit_eof_def split: option.splits)

lemma redraw_keeps: "edit_inv st \<Longrightarrow> keeps edit_redraw st"
  unfolding edit_inv_def line_ok_def by (auto intro!: edits_keeps edits_redraw [where st = st])

lemma history_prev_keeps:
  assumes "edit_inv st"
  shows "keeps history_prev st"
proof (cases "ed_hcurr st")
  case None
  with assms show ?thesis by (simp add: keeps_def history_prev_def)
next
  case (Some i)
  then have i: "i < length (ed_history st)" using assms by (simp add: edit_inv_def rest_ok_def history_ok_def)
  consider (save) "i = 0" "\<not> ed_curr_valid st" | (end_of_list) "i = length (ed_history st) - 1" "\<not> (i = 0 \<and> \<not> ed_curr_valid st)"
    | (older) "i + 1 < length (ed_history st)" "\<not> (i = 0 \<and> \<not> ed_curr_valid st)" using i by linarith
  then show ?thesis
  proof cases
    case save
    from assms obtain b a where v: "view st b a" "no_nul (b @ a)" by (auto simp: edit_inv_def line_ok_def)
    from terminate_line [OF v(1)] v(2) obtain st1 r where t: "with_buf (poke (ed_len st) NUL) st = Val st1" "st1 = st\<lparr>ed_buf := b @ a @ NUL # r\<rparr>"
      "view st1 b a" "cstr_of (ed_buf st1) = b @ a" by blast
    have "edit_inv st1" using assms v(2) t(3) rest_ok_rest [of st1 st] t(2) by (auto simp: edit_inv_def line_ok_def)
    then have "edit_inv (st1\<lparr>ed_curr := b @ a, ed_curr_valid := True\<rparr>)" using v view_length [OF v(1)] by (intro inv_fields) auto
    from history_use_keeps [OF this, of i] i t save Some show ?thesis by (simp add: keeps_def history_prev_def)
  next
    case end_of_list
    with assms Some show ?thesis by (auto simp: keeps_def history_prev_def)
  next
    case older
    with history_use_keeps [OF inv_fields(9) [OF assms], of "i + 1" "i + 1"] Some show ?thesis by (auto simp: keeps_def history_prev_def)
  qed
qed

lemma history_next_keeps:
  assumes "edit_inv st"
  shows "keeps history_next st"
proof (cases "ed_hcurr st = None \<or> ed_hcurr st = Some 0")
  case True
  let ?st = "edit_clear_line (st\<lparr>ed_curr_valid := False\<rparr>)"
  have s: "no_nul (ed_curr st)" "length (ed_curr st) < CMD_BUF_LEN" and l: "length (ed_buf ?st) = CMD_BUF_LEN"
    using assms by (auto simp: edit_inv_def rest_ok_def line_ok_def view_def)
  have "ed_curr ?st = ed_curr st" by (simp add: edit_clear_line_def put_def)
  with replace_line [OF l s(2)] have "edits (\<lambda>_. history_next st) ?st (ed_curr st) []" if "ed_curr_valid st"
    using that True by (simp add: edits_def history_next_def Let_def)
  then have "ed_curr_valid st \<Longrightarrow> keeps (\<lambda>_. history_next st) ?st"
    using s inv_fields(5) [OF inv_fields(3) [OF assms]] by (intro edits_keeps [of _ _ "ed_curr st" "[]"]) (auto simp: edit_inv_def no_nul_def)
  with assms True show ?thesis by (cases "ed_curr_valid st") (auto simp: keeps_def history_next_def)
next
  case False
  then obtain i where i: "ed_hcurr st = Some (Suc i)" by (metis not0_implies_Suc option.exhaust)
  then have "i < length (ed_history st)" using assms by (simp add: edit_inv_def rest_ok_def history_ok_def)
  from history_use_keeps [OF inv_fields(9) [OF assms this], of i] this i show ?thesis by (simp add: keeps_def history_next_def)
qed

section \<open>Commands and completion\<close>

lemma process_cmd_line:
  assumes "view st b a" "no_nul (b @ a)" "b @ a \<noteq> []"
  shows "\<exists>st'. process_cmd st = Val st' \<and> view st' [] [] \<and> rest st' = rest ((history_add (b @ a) (st\<lparr>ed_curr_valid := False\<rparr>))\<lparr>ed_calls := ed_calls st @ [Cmd_cb (b @ a)]\<rparr>)"
proof -
  let ?st = "put [NL] (st\<lparr>ed_curr_valid := False\<rparr>)"
  have v: "view ?st b a" using assms(1) by (simp add: view_def)
  have l: "ed_len st \<noteq> 0" using assms(1,3) by (auto simp: view_def)
  from terminate_line [OF v] assms(2) obtain st1 r where t: "with_buf (poke (ed_len ?st) NUL) ?st = Val st1"
    "st1 = ?st\<lparr>ed_buf := b @ a @ NUL # r\<rparr>" "view st1 b a" "cstr_of (ed_buf st1) = b @ a" by blast
  let ?st2 = "(history_add (b @ a) st1)\<lparr>ed_pos := 0, ed_len := 0\<rparr>"
  have "process_cmd st = Val (put (ps2_text ?st2 @ ''> '') (?st2\<lparr>ed_calls := ed_calls ?st2 @ [Cmd_cb (b @ a)]\<rparr>))"
    using l t(1,4) by (simp add: process_cmd_def Let_def ps2_text_def)
  moreover have "view ?st2 [] []" using t(3) unfolding view_def t(2) by (cases b; cases a) auto
  moreover have "rest (?st2\<lparr>ed_calls := ed_calls ?st2 @ [Cmd_cb (b @ a)]\<rparr>) =
    rest ((history_add (b @ a) (st\<lparr>ed_curr_valid := False\<rparr>))\<lparr>ed_calls := ed_calls st @ [Cmd_cb (b @ a)]\<rparr>)"
    unfolding t(2) by (simp add: rest_def put_def history_add_def Let_def)
  ultimately show ?thesis by (auto simp: view_def)
qed

lemma process_cmd_keeps:
  assumes "edit_inv st"
  shows "keeps process_cmd st"
proof -
  from assms obtain b a where v: "view st b a" "no_nul (b @ a)" by (auto simp: edit_inv_def line_ok_def)
  show ?thesis
  proof (cases "b @ a = []")
    case True
    with v have "ed_len st = 0" by (simp add: view_def)
    with inv_fields(4) [OF inv_fields(3) [OF assms]] show ?thesis by (simp add: keeps_def process_cmd_def Let_def)
  next
    case False
    from process_cmd_line [OF v False] obtain st' where p: "process_cmd st = Val st'" "view st' [] []"
      and r: "rest st' = rest ((history_add (b @ a) (st\<lparr>ed_curr_valid := False\<rparr>))\<lparr>ed_calls := ed_calls st @ [Cmd_cb (b @ a)]\<rparr>)" by blast
    have "history_ok (st\<lparr>ed_curr_valid := False\<rparr>)" using assms by (simp add: edit_inv_def rest_ok_def history_ok_def split: option.splits)
    from history_add_ok [OF this v(2)] view_length [OF v(1)] have "history_ok (history_add (b @ a) (st\<lparr>ed_curr_valid := False\<rparr>))" by simp
    then have "rest_ok ((history_add (b @ a) (st\<lparr>ed_curr_valid := False\<rparr>))\<lparr>ed_calls := ed_calls st @ [Cmd_cb (b @ a)]\<rparr>)"
      using assms by (simp add: edit_inv_def rest_ok_def history_ok_def split: option.splits)
    with p(2) rest_ok_rest [OF r] have "edit_inv st'" unfolding edit_inv_def line_ok_def by (metis append_Nil cstr_of_no_nul no_nul_cstr_of takeWhile.simps(1) cstr_of_def)
    with p(1) show ?thesis by (simp add: keeps_def)
  qed
qed

lemma filter_strings_length:
  assumes "s \<in> set (filter_strings c str n)" "n \<le> length str"
  shows "n \<le> length s" "s \<in> set c"
proof -
  from assms(1) have "map c_tolower (take n s) = map c_tolower (take n str)" "s \<in> set c" by (auto simp: filter_strings_def strncaseeq_def)
  from map_eq_imp_length_eq [OF this(1)] assms(2) show "n \<le> length s" by simp
  show "s \<in> set c" by fact
qed

lemma max_common_length_le: "max_common_length c \<le> length (hd c)"
proof -
  have "fold (\<lambda>s len. min (common_len x s) len) xs n \<le> n" for x :: string and xs n
    by (induction xs arbitrary: n) (simp, metis fold_simps(2) min.cobounded2 order_trans)
  then show ?thesis by (simp add: max_common_length_def)
qed

lemma put_at_splice: "length m = length t \<Longrightarrow> put_at (xs @ m @ ys) (length xs) t = xs @ t @ ys"
  by (simp add: put_at_append)

lemma insert_completion_edits:
  assumes v: "view st (p @ q) a" and t: "length q + len \<le> length c" and n: "n = len + (if sp then 1 else 0)"
    and room: "length (p @ q @ a) + n < CMD_BUF_LEN"
  shows "edits (insert_completion c (length q) len sp) st (p @ take (length q + len) c @ (if sp then '' '' else [])) a"
proof -
  let ?t = "take (length q + len) c" and ?s = "if sp then '' '' else []"
  from v obtain x r where e: "ed_buf st = p @ q @ a @ x # r" "ed_pos st = length (p @ q)" "ed_len st = length (p @ q) + length a"
    "length (p @ q @ a @ x # r) = CMD_BUF_LEN" by (auto elim!: viewE)
  obtain m where m: "m = take n (a @ x # r)" by blast
  have lm: "length m = n" using room e(4) m by simp
  obtain y r' where y: "drop n (x # r) = y # r'" using room e(4) by (cases "drop n (x # r)") auto
  have d: "drop (n + length a) (a @ x # r) = y # r'" using y by (simp add: add.commute)
  let ?b1 = "p @ q @ m @ a @ y # r'"
  have "ed_buf st = (p @ q @ m) @ drop n (a @ x # r)" using e(1) m by (metis append.assoc append_take_drop_id)
  then have "put_at (ed_buf st) (length (p @ q) + n) a = ?b1"
    using put_at_append [of "p @ q @ m" "drop n (a @ x # r)" a] lm d by (simp add: add.assoc add.commute [of n] del: drop_append)
  then have m1: "mem_move (length (p @ q) + n) (length (p @ q)) (length a) (ed_buf st) = Val ?b1"
    using e(1,4) room unfolding mem_move_def by simp
  obtain m1 m2 where mm: "m = m1 @ m2" "length m1 = len" "length m2 = length ?s"
  proof
    show "m = take len m @ drop len m" by simp
  qed (use lm n in auto)
  have "put_at ?b1 (length p) ?t = p @ ?t @ m2 @ a @ y # r'"
    using put_at_splice [of "q @ m1" ?t p "m2 @ a @ y # r'"] t mm by simp
  then have m2: "mem_copy (length (p @ q) - length q) ?t ?b1 = Val (p @ ?t @ m2 @ a @ y # r')"
    using t mm by (simp add: mem_copy_def)
  let ?b2 = "p @ ?t @ ?s @ a @ y # r'" and ?new = "p @ ?t @ ?s"
  have m3: "(if sp then poke (length (p @ q) + len) (CHR '' '') (p @ ?t @ m2 @ a @ y # r') else Val (p @ ?t @ m2 @ a @ y # r')) = Val ?b2"
    using mm(3) t by (cases m2) (auto simp: poke_def list_update_append nth_append split: if_splits)
  have len: "length ?b1 = CMD_BUF_LEN" using e(1,4) room y lm by (auto dest: arg_cong [of _ _ length])
  have "insert_completion c (length q) len sp st = edit_redraw (st\<lparr>ed_buf := ?b2, ed_pos := length ?new, ed_len := length (?new @ a)\<rparr>)"
    using e(2,3) m1 m2 m3 t n by (simp add: insert_completion_def Let_def with_buf_def ac_simps split: if_splits)
  moreover have "view (st\<lparr>ed_buf := ?b2, ed_pos := length ?new, ed_len := length (?new @ a)\<rparr>) ?new a"
    using len lm n t by (auto simp: view_def)
  ultimately show ?thesis by (rule edits_redraw) simp
qed

end
