(* ===== verification/Edit_Session.thy ===== *)
theory Edit_Session
  imports Edit_Line
begin

text \<open>
  Sessions of the line editor: completion, searching and the decoding of keys keep the invariant for every
  sequence of input bytes, typed commands reach the callback, and the history is a list of the most recent
  commands that survives in its file.
\<close>

text \<open>A completion callback returns C strings.\<close>

definition completion_ok :: "completion option \<Rightarrow> bool" where
  "completion_ok cb \<longleftrightarrow> (\<forall>f cmd p c s. cb = Some f \<and> f cmd p = Some c \<and> s \<in> set c \<longrightarrow> no_nul s)"

lemma complete_insert:
  assumes v: "view st b a" and n: "no_nul (b @ a)" and r: "rest_ok st"
    and c: "c \<noteq> []" "\<forall>s \<in> set c. no_nul s \<and> length q \<le> length s" and q: "b = p @ q"
    and len: "len = min (max_common_length c - length q) (CMD_BUF_LEN - 1 - ed_len st)"
  shows "keeps (insert_completion (hd c) (length q) len (length c = 1 \<and> len < CMD_BUF_LEN - 1 - ed_len st)) st"
proof -
  let ?sp = "length c = 1 \<and> len < CMD_BUF_LEN - 1 - ed_len st"
  have "hd c \<in> set c" using c(1) by simp
  with c(2) have h: "no_nul (hd c)" "length q \<le> length (hd c)" by auto
  have e: "ed_len st = length (p @ q @ a)" "length (p @ q @ a) < CMD_BUF_LEN" using v q view_length [OF v] by (auto simp: view_def)
  have l: "length q + len \<le> length (hd c)" using len h(2) max_common_length_le [of c] by auto
  have "edits (insert_completion (hd c) (length q) len ?sp) st (p @ take (length q + len) (hd c) @ (if ?sp then '' '' else [])) a"
    by (rule insert_completion_edits [OF _ l refl]) (use v q len e in auto)
  moreover have "no_nul (take (length q + len) (hd c))" using h(1) by (auto simp: no_nul_def dest: in_set_takeD)
  ultimately show ?thesis using n q r by (elim edits_keeps) (auto simp: no_nul_def)
qed

lemma complete_keeps:
  assumes inv: "edit_inv st" and cb: "completion_ok cb"
  shows "keeps (complete cb list) st"
proof (cases cb)
  case None
  with inv show ?thesis by (simp add: keeps_def complete_def)
next
  case (Some f)
  from inv obtain b a where v: "view st b a" "no_nul (b @ a)" by (auto simp: edit_inv_def line_ok_def)
  from terminate_line [OF v(1)] v(2) obtain st1 r where t: "with_buf (poke (ed_len st) NUL) st = Val st1" "st1 = st\<lparr>ed_buf := b @ a @ NUL # r\<rparr>"
    "view st1 b a" "cstr_of (ed_buf st1) = b @ a" by blast
  have inv1: "edit_inv st1" using inv v(2) t(3) rest_ok_rest [of st1 st] t(2) by (auto simp: edit_inv_def line_ok_def)
  have k: ?thesis if "keeps g st1" "complete cb list st = g st1" for g using that by (simp add: keeps_def)
  show ?thesis
  proof (cases "f (cstr_of (ed_buf st1)) (ed_pos st1)")
    case None
    with inv1 t(1) Some show ?thesis by (simp add: keeps_def complete_def)
  next
    case (Some c)
    let ?i = "back_while (\<lambda>c. c \<noteq> CHR '' '') (ed_buf st1) (ed_pos st1)"
    let ?p = "take ?i b" and ?q = "drop ?i b"
    have pos: "ed_pos st1 = length b" and buf: "ed_buf st1 = b @ a @ NUL # r" using t(2,3) by (auto simp: view_def)
    have i: "?i \<le> length b" using back_while_rev [of "ed_pos st1" "ed_buf st1"] pos buf by simp
    have "cstr_of ((?q @ a) @ NUL # r) = ?q @ a" using v(2) by (intro cstr_of_append_NUL) (auto simp: no_nul_def dest: in_set_dropD)
    then have str: "cstr_of (drop ?i (ed_buf st1)) = ?q @ a" using i buf by simp
    have plen: "ed_pos st1 - ?i = length ?q" using pos by simp
    define fc where "fc = filter_strings c (?q @ a) (length ?q)"
    have fc: "no_nul s \<and> length ?q \<le> length s" if "s \<in> set fc" for s
      using filter_strings_length [of s c "?q @ a" "length ?q"] that cb \<open>cb = Some f\<close> Some unfolding fc_def completion_ok_def by auto
    note ins = complete_insert [OF t(3) v(2) _ _ _ append_take_drop_id [symmetric] refl]
    have red: "keeps (show_completions fc) st1"
      using redraw_keeps inv1 unfolding show_completions_def Let_def by (simp add: keeps_def inv_fields)
    have step: "complete cb list st = (if fc = [] then Val st1 else if max_common_length fc \<le> length ?q \<and> length fc > 1
      then (if list then show_completions fc st1 else Val st1)
      else insert_completion (hd fc) (length ?q) (min (max_common_length fc - length ?q) (CMD_BUF_LEN - 1 - ed_len st1))
        (length fc = 1 \<and> min (max_common_length fc - length ?q) (CMD_BUF_LEN - 1 - ed_len st1) < CMD_BUF_LEN - 1 - ed_len st1) st1)"
      using t(1) Some \<open>cb = Some f\<close> unfolding complete_def Let_def by (simp add: str plen fc_def del: length_drop)
    have "rest_ok st1" using inv1 by (simp add: edit_inv_def)
    from ins [OF this, of fc ?i] fc have "fc \<noteq> [] \<Longrightarrow> keeps (insert_completion (hd fc) (length ?q) (min (max_common_length fc - length ?q) (CMD_BUF_LEN - 1 - ed_len st1))
        (length fc = 1 \<and> min (max_common_length fc - length ?q) (CMD_BUF_LEN - 1 - ed_len st1) < CMD_BUF_LEN - 1 - ed_len st1)) st1" by blast
    with red inv1 step show ?thesis by (simp add: keeps_def del: length_drop split: if_splits)
  qed
qed

section \<open>Searching\<close>

lemma search_find_inv: "edit_inv st \<Longrightarrow> edit_inv (snd (search_find st))"
  by (simp add: search_find_def Let_def inv_fields)

lemma search_find_result: "search_find st = (Some t, st') \<Longrightarrow> t \<in> set (ed_history st)"
  by (auto simp: search_find_def Let_def split: if_splits) (metis filter_is_subset nth_mem subsetD)

lemma search_redraw_inv: "edit_inv st \<Longrightarrow> edit_inv (search_redraw st)"
  using search_find_inv [of st] by (cases "search_find st") (simp add: search_redraw_def inv_fields)

lemma search_start_inv: "edit_inv st \<Longrightarrow> edit_inv (search_start st)"
  unfolding search_start_def by (intro search_redraw_inv inv_fields) simp_all

lemma search_cancel_keeps: "edit_inv st \<Longrightarrow> keeps search_cancel st"
  using redraw_keeps [OF inv_fields(4) [OF search_redraw_inv [OF inv_fields(8)], of st "[]"]] unfolding search_cancel_def search_clear_def keeps_def by simp

lemma search_stop_keeps:
  assumes "edit_inv st"
  shows "keeps search_stop st"
proof -
  obtain m st1 where m: "search_find st = (m, st1)" by (cases "search_find st")
  then have "edit_inv st1" using search_find_inv [OF assms] by simp
  then have inv: "edit_inv (search_clear (st1\<lparr>ed_search_buf := []\<rparr>))" (is "edit_inv ?st")
    unfolding search_clear_def by (intro search_redraw_inv inv_fields) simp_all
  show ?thesis
  proof (cases m)
    case None
    with m redraw_keeps [OF inv] show ?thesis by (simp add: keeps_def search_stop_def Let_def)
  next
    case (Some t)
    with m have "t \<in> set (ed_history st)" using search_find_result by blast
    then have t: "no_nul t" "length t < CMD_BUF_LEN" using assms by (auto simp: edit_inv_def rest_ok_def history_ok_def)
    have "length (ed_buf ?st) = CMD_BUF_LEN" using inv by (auto simp: edit_inv_def line_ok_def view_def)
    from load_line [OF this, of t "[NUL]"] t obtain st2 where w: "with_buf (mem_copy 0 (t @ [NUL])) ?st = Val st2"
      and v: "view (st2\<lparr>ed_len := length t, ed_pos := length t\<rparr>) t []" and r: "rest st2 = rest ?st" by auto
    have "rest_ok (st2\<lparr>ed_len := length t, ed_pos := length t\<rparr>)" using inv rest_ok_rest [of "st2\<lparr>ed_len := length t, ed_pos := length t\<rparr>" ?st] r
      by (simp add: edit_inv_def)
    moreover have "no_nul (t @ [])" using t by simp
    ultimately have "edit_inv (st2\<lparr>ed_len := length t, ed_pos := length t\<rparr>)" using v unfolding edit_inv_def line_ok_def by blast
    from redraw_keeps [OF this] w m Some t show ?thesis by (simp add: keeps_def search_stop_def Let_def)
  qed
qed

lemma search_key_keeps:
  assumes "edit_inv st"
  shows "\<exists>k st'. search_key c st = Val (k, st') \<and> edit_inv st'"
proof -
  have s: "length (ed_search_buf st) \<le> 20" using assms by (simp add: edit_inv_def rest_ok_def)
  have "edit_inv (search_backspace st)" "edit_inv (search_next st)" "edit_inv (search_char c st)"
    unfolding search_backspace_def search_next_def search_char_def
    using assms s by (auto intro!: search_redraw_inv search_find_inv inv_fields)
  with search_stop_keeps [OF assms] search_cancel_keeps [OF assms] assms show ?thesis by (auto simp: search_key_def keeps_def)
qed


section \<open>Keys\<close>

lemma show_esc_buf_keeps: "edit_inv st \<Longrightarrow> keeps (show_esc_buf c i) st"
  using redraw_keeps [OF inv_fields(4) [OF inv_fields(5)], of st] unfolding show_esc_buf_def keeps_def by blast

lemma esc_seq_to_key_keeps:
  assumes "edit_inv st"
  shows "\<exists>k st'. esc_seq_to_key seq st = Val (k, st') \<and> edit_inv st'"
  using redraw_keeps [OF inv_fields(4) [OF inv_fields(5) [OF assms]]] assms unfolding esc_seq_to_key_def keeps_def Let_def
  by (auto split: prod.split) (metis omap.simps(1))+

lemma esc_store_keeps:
  assumes "edit_inv st"
  shows "keeps (esc_store c) st"
proof -
  have e: "-1 \<le> ed_esc st" "ed_esc st \<le> 6" "0 < ed_esc st \<longrightarrow> int (length (ed_esc_buf st)) = ed_esc st" using assms by (auto simp: edit_inv_def rest_ok_def)
  show ?thesis
  proof (cases "0 \<le> ed_esc st \<and> ed_esc st < 6")
    case True
    then have "int (length (take (nat (ed_esc st)) (ed_esc_buf st) @ [char_of c])) = ed_esc st + 1" using e(3) by (cases "ed_esc st = 0") auto
    then have "rest_ok (st\<lparr>ed_esc_buf := take (nat (ed_esc st)) (ed_esc_buf st) @ [char_of c], ed_esc := ed_esc st + 1\<rparr>)"
      using assms True by (simp add: edit_inv_def rest_ok_def)
    with True assms show ?thesis by (auto simp: keeps_def esc_store_def edit_inv_def line_ok_def view_def)
  next
    case False
    then consider "ed_esc st < 0" | "ed_esc st = 6" using e by linarith
    then show ?thesis
    proof cases
      case 1
      with assms show ?thesis by (simp add: keeps_def esc_store_def)
    next
      case 2
      with show_esc_buf_keeps [OF assms, of "char_of c" 0] inv_fields(10) show ?thesis by (auto simp: keeps_def esc_store_def)
    qed
  qed
qed

lemma edit_read_key_keeps:
  assumes "edit_inv st"
  shows "\<exists>k st'. edit_read_key inp st = Val (k, st') \<and> edit_inv st'"
proof (cases inp)
  case None
  with assms show ?thesis by (simp add: edit_read_key_def)
next
  case (Some c)
  from esc_store_keeps [OF assms, of c] obtain st1 where s: "esc_store c st = Val st1" and i: "edit_inv st1" by (auto simp: keeps_def)
  have p: "edit_inv (snd (plain_key c st1))" using i inv_fields(11) [OF i] by (simp add: plain_key_def)
  have u: "\<exists>st'. omap (\<lambda>st. (EDIT_KEY_NONE, st\<lparr>ed_esc := -1\<rparr>)) (show_esc_buf x n st1) = Val (EDIT_KEY_NONE, st') \<and> edit_inv st'" for x n
    using show_esc_buf_keeps [OF i, of x n] inv_fields(10) by (auto simp: keeps_def)
  show ?thesis
    using esc_seq_to_key_keeps [OF inv_fields(10) [OF i], of "ed_esc_buf st1"] u i p inv_fields(11) [OF assms] s Some
    unfolding edit_read_key_def by (auto intro: prod.exhaust_sel)
qed

lemma history_debug_dump_keeps: "edit_inv st \<Longrightarrow> keeps history_debug_dump st"
  unfolding history_debug_dump_def keeps_def Let_def by (rule redraw_keeps [unfolded keeps_def]) (simp add: inv_fields)

text \<open>The keys that do more than edit the line.\<close>

lemma other_key_keeps:
  assumes inv: "edit_inv st" and cb: "completion_ok cb" and v: "view st b a" and None: "line_key c b a = None"
  shows "keeps (edit_do_key cb c) st"
proof -
  let ?st = "st\<lparr>ed_last_tab := False\<rparr>"
  have i: "edit_inv ?st" using inv by (rule inv_fields)
  have d: "keeps f ?st \<Longrightarrow> edit_do_key cb c st = f ?st \<Longrightarrow> ?thesis" for f by (simp add: keeps_def)
  have tab: "keeps (\<lambda>st. omap (\<lambda>st. st\<lparr>ed_last_tab := True\<rparr>) (complete cb (ed_last_tab st) st)) st"
    using complete_keeps [OF inv cb, of "ed_last_tab st"] inv_fields(1) by (auto simp: keeps_def)
  have l: "ed_len st = length b + length a" using v by (simp add: view_def)
  consider (tab) "c = EDIT_KEY_TAB" | (prev) "c \<in> {EDIT_KEY_UP, EDIT_KEY_CTRL_P}" | (nxt) "c \<in> {EDIT_KEY_DOWN, EDIT_KEY_CTRL_N}"
    | (dump) "c = EDIT_KEY_F2" | (cmd) "c \<in> {EDIT_KEY_ENTER, EDIT_KEY_CTRL_J}" | (srch) "c = EDIT_KEY_CTRL_R" | (none) "c = EDIT_KEY_NONE"
    | (fin) "c = EDIT_KEY_EOF \<or> c = EDIT_KEY_CTRL_D \<and> b @ a = []"
    | (other) "c \<notin> {EDIT_KEY_NONE, EDIT_KEY_TAB, EDIT_KEY_UP, EDIT_KEY_CTRL_P, EDIT_KEY_DOWN, EDIT_KEY_CTRL_N, EDIT_KEY_F2, EDIT_KEY_ENTER, EDIT_KEY_CTRL_J, EDIT_KEY_CTRL_R, EDIT_KEY_EOF}"
      "c = EDIT_KEY_CTRL_D \<longrightarrow> b @ a \<noteq> []" by blast
  then show ?thesis
  proof cases
    case tab
    then show ?thesis using \<open>keeps (\<lambda>st. omap (\<lambda>st. st\<lparr>ed_last_tab := True\<rparr>) (complete cb (ed_last_tab st) st)) st\<close> by (simp add: keeps_def edit_do_key_def)
  next
    case prev
    then show ?thesis by (elim insertE emptyE; intro d [OF history_prev_keeps [OF i]]; simp add: edit_do_key_def)
  next
    case nxt
    then show ?thesis by (elim insertE emptyE; intro d [OF history_next_keeps [OF i]]; simp add: edit_do_key_def)
  next
    case dump
    then show ?thesis by (intro d [OF history_debug_dump_keeps [OF i]]) (simp add: edit_do_key_def)
  next
    case cmd
    then show ?thesis by (elim insertE emptyE; intro d [OF process_cmd_keeps [OF i]]; simp add: edit_do_key_def)
  next
    case srch
    then show ?thesis using search_start_inv [OF inv_fields(2) [OF i]] by (simp add: keeps_def edit_do_key_def)
  next
    case none
    then show ?thesis using inv by (simp add: keeps_def edit_do_key_def)
  next
    case fin
    then show ?thesis using inv_fields(6) [OF i] inv_fields(6) [OF inv_fields(4) [OF i]] l by (auto simp: keeps_def edit_do_key_def)
  next
    case other
    have "c \<notin> {EDIT_KEY_RIGHT, EDIT_KEY_CTRL_F, EDIT_KEY_LEFT, EDIT_KEY_CTRL_B, EDIT_KEY_CTRL_RIGHT, EDIT_KEY_CTRL_LEFT, EDIT_KEY_END, EDIT_KEY_CTRL_E,
      EDIT_KEY_HOME, EDIT_KEY_CTRL_A, EDIT_KEY_DELETE, EDIT_KEY_CTRL_H, EDIT_KEY_BACKSPACE, EDIT_KEY_CTRL_K, EDIT_KEY_CTRL_L, EDIT_KEY_CTRL_U, EDIT_KEY_CTRL_W}"
      using None by (auto simp: line_key_def)
    moreover have "\<not> (32 \<le> c \<and> c \<le> 255)" "c \<noteq> EDIT_KEY_CTRL_D" using None other(2) by (auto simp: line_key_def)
    ultimately have "edit_do_key cb c st = Val ?st" using other(1) by (auto simp: edit_do_key_def Let_def)
    then show ?thesis using i by (simp add: keeps_def)
  qed
qed

lemma edit_do_key_keeps:
  assumes inv: "edit_inv st" and cb: "completion_ok cb"
  shows "keeps (edit_do_key cb c) st"
proof -
  from inv obtain b a where v: "view st b a" "no_nul (b @ a)" by (auto simp: edit_inv_def line_ok_def)
  show ?thesis
  proof (cases "line_key c b a")
    case (Some x)
    then obtain b' a' where k: "line_key c b a = Some (b', a')" by (cases x) auto
    from line_key_edits [OF v(1) k] obtain st' where e: "edit_do_key cb c st = Val st'" "view st' b' a'" "rest st' = rest (st\<lparr>ed_last_tab := False\<rparr>)" by blast
    from rest_ok_rest [OF e(3)] inv_fields(1) [OF inv] have "rest_ok st'" by (simp add: edit_inv_def)
    with e(1,2) line_key_no_nul [OF k v(2)] show ?thesis unfolding keeps_def edit_inv_def line_ok_def by blast
  qed (rule other_key_keeps [OF inv cb v(1)])
qed

lemma edit_read_char_keeps:
  assumes "edit_inv st" "completion_ok cb"
  shows "keeps (edit_read_char cb inp) st"
proof -
  from edit_read_key_keeps [OF assms(1)] obtain k st1 where k: "edit_read_key inp st = Val (k, st1)" and i: "edit_inv st1" by blast
  from search_key_keeps [OF i] obtain k2 st2 where k2: "search_key k st1 = Val (k2, st2)" and i2: "edit_inv st2" by blast
  have "keeps (edit_do_key cb k) st1" "keeps (edit_do_key cb k2) (st2\<lparr>ed_search := False\<rparr>)"
    using edit_do_key_keeps assms(2) i inv_fields(2) [OF i2] by blast+
  with i2 inv_fields(2) [OF i2] k k2 show ?thesis unfolding edit_read_char_def keeps_def by simp
qed

section \<open>The history file\<close>

lemma fgets_all_pieces: "buf \<in> set (fgets_all n f) \<Longrightarrow> length buf \<le> n"
proof (induction n f rule: fgets_all.induct)
  case (1 n f)
  then show ?case by (subst (asm) (2) fgets_all.simps) (auto simp: Let_def split: if_splits)
qed

lemma history_line_ok: "no_nul (history_line buf)" "length (history_line buf) \<le> length buf"
  by (auto simp: history_line_def no_nul_def length_takeWhile_le dest: set_takeWhileD)

lemma history_read_ok:
  assumes "history_ok st"
  shows "history_ok (history_read file st)"
proof (cases "file")
  case (Some f)
  have "history_ok (fold (\<lambda>buf. history_add (history_line buf)) bufs st)" if "\<forall>buf \<in> set bufs. length buf < CMD_BUF_LEN" for bufs
    using that assms
  proof (induction bufs arbitrary: st)
    case (Cons x xs)
    have "length (history_line x) < CMD_BUF_LEN" using Cons.prems(1) history_line_ok(2) [of x] by auto
    from history_add_ok [OF Cons.prems(2) history_line_ok(1) this] Cons show ?case by simp
  qed simp
  moreover have "length buf < CMD_BUF_LEN" if "buf \<in> set (fgets_all (CMD_BUF_LEN - 1) f)" for buf
    using fgets_all_pieces [OF that] by (simp add: CMD_BUF_LEN_def)
  ultimately show ?thesis using Some by (simp add: history_read_def)
qed (use assms in \<open>simp add: history_read_def\<close>)

lemma history_read_fields [simp]:
  "ed_buf (history_read file st) = ed_buf st" "ed_pos (history_read file st) = ed_pos st" "ed_len (history_read file st) = ed_len st"
  "ed_curr (history_read file st) = ed_curr st" "ed_esc (history_read file st) = ed_esc st" "ed_esc_buf (history_read file st) = ed_esc_buf st"
  "ed_search_buf (history_read file st) = ed_search_buf st" "ed_search (history_read file st) = ed_search st" "ed_calls (history_read file st) = ed_calls st"
proof -
  have f: "g (fold (\<lambda>buf. history_add (history_line buf)) bufs st) = g st" if "\<And>s st. g (history_add s st) = g st" for g :: "edit \<Rightarrow> 'x" and bufs
    by (induction bufs arbitrary: st) (simp_all add: that)
  show "ed_buf (history_read file st) = ed_buf st" "ed_pos (history_read file st) = ed_pos st" "ed_len (history_read file st) = ed_len st"
    "ed_curr (history_read file st) = ed_curr st" "ed_esc (history_read file st) = ed_esc st" "ed_esc_buf (history_read file st) = ed_esc_buf st"
    "ed_search_buf (history_read file st) = ed_search_buf st" "ed_search (history_read file st) = ed_search st" "ed_calls (history_read file st) = ed_calls st"
    by (simp_all add: history_read_def f split: option.split)
qed

text \<open>The bytes of the terminal, one after the other.\<close>

primrec edit_inputs :: "completion option \<Rightarrow> nat option list \<Rightarrow> edit \<Rightarrow> edit outcome" where
  "edit_inputs cb [] st = Val st"
| "edit_inputs cb (i # is) st = obind (edit_read_char cb i st) (edit_inputs cb is)"

lemma edit_inputs_last [simp]: "obind x (edit_inputs cb []) = x"
  by (cases x) simp_all

lemma edit_inputs_append: "edit_inputs cb (xs @ ys) st = obind (edit_inputs cb xs st) (edit_inputs cb ys)"
proof (induction xs arbitrary: st)
  case (Cons x xs)
  then show ?case by (cases "edit_read_char cb x st") simp_all
qed simp

lemma edit_inputs_keeps: "edit_inv st \<Longrightarrow> completion_ok cb \<Longrightarrow> keeps (edit_inputs cb is) st"
proof (induction "is" arbitrary: st)
  case (Cons i "is")
  from edit_read_char_keeps [OF Cons.prems] obtain st1 where "edit_read_char cb i st = Val st1" "edit_inv st1" by (auto simp: keeps_def)
  with Cons.IH [of st1] Cons.prems(2) show ?case by (simp add: keeps_def)
qed (simp add: keeps_def)

lemma edit_init_inv: "edit_inv (edit_init file ps edit_static)"
proof -
  have "replicate CMD_BUF_LEN NUL = NUL # replicate (CMD_BUF_LEN - 1) NUL" by (simp add: CMD_BUF_LEN_def flip: replicate_Suc)
  then have v: "view edit_static [] []" by (simp add: view_def edit_static_def CMD_BUF_LEN_def)
  have h: "history_ok (edit_static\<lparr>ed_curr := [], ed_history := [], ed_hcurr := None\<rparr>)" by (simp add: edit_static_def history_ok_def)
  have "rest_ok (history_read file (edit_static\<lparr>ed_curr := [], ed_history := [], ed_hcurr := None\<rparr>))"
    using history_read_ok [OF h, of "file"] by (simp add: rest_ok_def no_nul_def) (simp add: edit_static_def CMD_BUF_LEN_def)
  moreover have "line_ok (history_read file (edit_static\<lparr>ed_curr := [], ed_history := [], ed_hcurr := None\<rparr>))"
    unfolding line_ok_def by (rule exI [of _ "[]"], rule exI [of _ "[]"]) (use v in \<open>simp add: view_def no_nul_def\<close>)
  ultimately show ?thesis by (simp add: edit_inv_def edit_init_def Let_def rest_ok_def line_ok_def view_def put_def history_ok_def split: option.splits)
qed

text \<open>The bytes a terminal sends for a key.\<close>

definition typed :: "nat \<Rightarrow> nat list" where
  "typed k = (case map_of (map (\<lambda>(b, k). (k, [b])) plain_keys @
     [(EDIT_KEY_RIGHT, [27, 91, 67]), (EDIT_KEY_LEFT, [27, 91, 68]), (EDIT_KEY_CTRL_RIGHT, [27, 91, 49, 59, 53, 67]), (EDIT_KEY_CTRL_LEFT, [27, 91, 49, 59, 53, 68]),
      (EDIT_KEY_END, [27, 79, 70]), (EDIT_KEY_HOME, [27, 79, 72]), (EDIT_KEY_DELETE, [27, 91, 51, 126])]) k of Some bs \<Rightarrow> bs | None \<Rightarrow> [k])"

lemma decode_sequences:
  "esc_seq_to_key ''[C'' st = Val (EDIT_KEY_RIGHT, st)" "esc_seq_to_key ''[D'' st = Val (EDIT_KEY_LEFT, st)"
  "esc_seq_to_key ''[1;5C'' st = Val (EDIT_KEY_CTRL_RIGHT, st)" "esc_seq_to_key ''[1;5D'' st = Val (EDIT_KEY_CTRL_LEFT, st)"
  "esc_seq_to_key ''OF'' st = Val (EDIT_KEY_END, st)" "esc_seq_to_key ''OH'' st = Val (EDIT_KEY_HOME, st)"
  "esc_seq_to_key ''[3~'' st = Val (EDIT_KEY_DELETE, st)"
  by (simp_all add: esc_seq_to_key_def at0_def c_isdigit_def c_isspace_def atoi_def os_strchr_def esc_seq_to_key1_def esc_seq_to_key2_def esc_seq_to_key1_no_def
    esc_seq_to_key1_ctrl_def arrow_key_def key_of_def tilde_keys_def Let_def)

lemma edit_do_key_none [simp]: "edit_do_key cb EDIT_KEY_NONE st = Val st"
  by (simp add: edit_do_key_def)

lemma plain_byte:
  assumes "ed_esc st = -1" "\<not> ed_search st" "c \<noteq> 27"
  shows "edit_read_char cb (Some c) st = edit_do_key cb (case map_of plain_keys c of Some k \<Rightarrow> k | None \<Rightarrow> c) st"
  using assms by (simp add: edit_read_char_def edit_read_key_def esc_store_def plain_key_def)

lemma char_of_code: "of_char c = (n::nat) \<Longrightarrow> char_of n = (c::char)"
  by auto

lemma esc_chars:
  "char_of (91::nat) = CHR ''[''" "char_of (79::nat) = CHR ''O''" "char_of (67::nat) = CHR ''C''" "char_of (68::nat) = CHR ''D''" "char_of (49::nat) = CHR ''1''"
  "char_of (59::nat) = CHR '';''" "char_of (53::nat) = CHR ''5''" "char_of (70::nat) = CHR ''F''" "char_of (72::nat) = CHR ''H''" "char_of (51::nat) = CHR ''3''"
  "char_of (126::nat) = CHR ''~''"
  by (simp_all add: char_of_code)

text \<open>The states while an escape sequence is read.\<close>

definition in_seq :: "string \<Rightarrow> edit \<Rightarrow> edit" where
  "in_seq s st = st\<lparr>ed_esc_buf := s, ed_esc := int (length s)\<rparr>"

lemma in_seq_fields [simp]:
  "ed_esc (in_seq s st) = int (length s)" "ed_esc_buf (in_seq s st) = s" "ed_search (in_seq s st) = ed_search st"
  "in_seq s (in_seq t st) = in_seq s st" "(in_seq s st)\<lparr>ed_esc_buf := t, ed_esc := e\<rparr> = st\<lparr>ed_esc_buf := t, ed_esc := e\<rparr>"
  by (simp_all add: in_seq_def)

lemma esc_byte: "ed_esc st = -1 \<Longrightarrow> \<not> ed_search st \<Longrightarrow> edit_read_char cb (Some 27) st = Val (st\<lparr>ed_esc := 0\<rparr>)"
  by (simp add: edit_read_char_def edit_read_key_def esc_store_def plain_key_def)

lemma intro_byte:
  assumes "\<not> ed_search st" "c = 91 \<or> c = 79"
  shows "edit_read_char cb (Some c) (st\<lparr>ed_esc := 0\<rparr>) = Val (in_seq [char_of c] st)"
  using assms by (elim disjE) (simp_all add: edit_read_char_def edit_read_key_def esc_store_def at0_def esc_chars in_seq_def)

lemma param_byte:
  assumes "s \<noteq> []" "length s < 6" "\<not> ed_search st" "(48 \<le> c \<and> c \<le> 57) \<or> c = 59"
  shows "edit_read_char cb (Some c) (in_seq s st) = Val (in_seq (s @ [char_of c]) st)"
proof -
  have "c \<noteq> 27" "int (length s) \<noteq> 0" "int (length s) < 6" using assms by auto
  with assms show ?thesis by (simp add: edit_read_char_def edit_read_key_def esc_store_def) (simp add: in_seq_def)
qed

lemma final_byte:
  assumes "s \<noteq> []" "length s < 6" "\<not> ed_search st" "c = 126 \<or> (65 \<le> c \<and> c \<le> 90)"
    and k: "esc_seq_to_key (s @ [char_of c]) (st\<lparr>ed_esc_buf := s @ [char_of c], ed_esc := -1\<rparr>) = Val (k, st\<lparr>ed_esc_buf := s @ [char_of c], ed_esc := -1\<rparr>)"
  shows "edit_read_char cb (Some c) (in_seq s st) = edit_do_key cb k (st\<lparr>ed_esc_buf := s @ [char_of c], ed_esc := -1\<rparr>)"
proof -
  have "c \<noteq> 27" "\<not> ((48 \<le> c \<and> c \<le> 57) \<or> c = 59)" "int (length s) \<noteq> 0" "int (length s) < 6" using assms(1,2,4) by auto
  with assms show ?thesis by (auto simp: edit_read_char_def edit_read_key_def esc_store_def)
qed

lemma typed_sequences:
  assumes "ed_esc st = -1" "\<not> ed_search st"
    "k \<in> {EDIT_KEY_RIGHT, EDIT_KEY_LEFT, EDIT_KEY_CTRL_RIGHT, EDIT_KEY_CTRL_LEFT, EDIT_KEY_END, EDIT_KEY_HOME, EDIT_KEY_DELETE}"
  shows "edit_inputs cb (map Some (typed k)) st = edit_do_key cb k (st\<lparr>ed_esc_buf := map char_of (tl (typed k)), ed_esc := -1\<rparr>)"
proof -
  note b = esc_byte [OF assms(1,2)] intro_byte [OF assms(2)] param_byte final_byte decode_sequences esc_chars assms(2)
  from assms(3) show ?thesis by (elim insertE emptyE; simp add: typed_def plain_keys_def b)
qed

lemma typed_key:
  assumes "ed_esc st = -1" "\<not> ed_search st" "line_key k b a \<noteq> None \<or> k = EDIT_KEY_ENTER" "k \<noteq> 127"
  shows "\<exists>t. edit_inputs cb (map Some (typed k)) st = edit_do_key cb k (st\<lparr>ed_esc_buf := t, ed_esc := -1\<rparr>)"
proof -
  have st: "edit_do_key cb k st = edit_do_key cb k (st\<lparr>ed_esc_buf := ed_esc_buf st, ed_esc := -1\<rparr>)" using assms(1) by (cases st) simp
  consider (seq) "k \<in> {EDIT_KEY_RIGHT, EDIT_KEY_LEFT, EDIT_KEY_CTRL_RIGHT, EDIT_KEY_CTRL_LEFT, EDIT_KEY_END, EDIT_KEY_HOME, EDIT_KEY_DELETE}"
    | (ctrl) "k \<in> {EDIT_KEY_CTRL_F, EDIT_KEY_CTRL_B, EDIT_KEY_CTRL_E, EDIT_KEY_CTRL_A, EDIT_KEY_CTRL_D, EDIT_KEY_CTRL_H, EDIT_KEY_BACKSPACE, EDIT_KEY_CTRL_K, EDIT_KEY_CTRL_L,
        EDIT_KEY_CTRL_U, EDIT_KEY_CTRL_W, EDIT_KEY_ENTER}" | (char) "32 \<le> k" "k \<le> 255"
    using assms(3) by (auto elim!: line_key_cases)
  then show ?thesis
  proof cases
    case seq
    from typed_sequences [OF assms(1,2) seq] show ?thesis by blast
  next
    case ctrl
    then have "edit_inputs cb (map Some (typed k)) st = edit_do_key cb k st"
      by (elim insertE emptyE; simp add: typed_def plain_keys_def plain_byte [OF assms(1,2)])
    then show ?thesis using st by metis
  next
    case char
    then have "typed k = [k]" by (simp add: typed_def plain_keys_def)
    moreover have "map_of plain_keys k = None" using char assms(4) by (simp add: plain_keys_def)
    ultimately have "edit_inputs cb (map Some (typed k)) st = edit_do_key cb k st" using char by (simp add: plain_byte [OF assms(1,2)])
    then show ?thesis using st by metis
  qed
qed


section \<open>Typing a command\<close>

text \<open>The line at a moment at which no escape sequence and no search is under way.\<close>

definition at_line :: "edit \<Rightarrow> string \<Rightarrow> string \<Rightarrow> bool" where
  "at_line st b a \<longleftrightarrow> view st b a \<and> no_nul (b @ a) \<and> ed_esc st = -1 \<and> \<not> ed_search st"

primrec line_keys :: "nat list \<Rightarrow> string \<Rightarrow> string \<Rightarrow> (string \<times> string) option" where
  "line_keys [] b a = Some (b, a)"
| "line_keys (k # ks) b a = (case line_key k b a of None \<Rightarrow> None | Some (b', a') \<Rightarrow> line_keys ks b' a')"

lemma at_line_key:
  assumes "at_line st b a" "line_key k b a = Some (b', a')" "k \<noteq> 127"
  shows "\<exists>st'. edit_inputs cb (map Some (typed k)) st = Val st' \<and> at_line st' b' a' \<and>
    ed_history st' = ed_history st \<and> ed_hcurr st' = ed_hcurr st \<and> ed_calls st' = ed_calls st"
proof -
  from assms obtain t where t: "edit_inputs cb (map Some (typed k)) st = edit_do_key cb k (st\<lparr>ed_esc_buf := t, ed_esc := -1\<rparr>)"
    using typed_key [of st k b a cb] by (auto simp: at_line_def)
  have "view (st\<lparr>ed_esc_buf := t, ed_esc := -1\<rparr>) b a" using assms(1) by (simp add: at_line_def view_def)
  from line_key_edits [OF this assms(2), of cb] obtain st' where s: "edit_do_key cb k (st\<lparr>ed_esc_buf := t, ed_esc := -1\<rparr>) = Val st'" "view st' b' a'"
    and r: "rest st' = rest (st\<lparr>ed_esc_buf := t, ed_esc := -1, ed_last_tab := False\<rparr>)" by auto
  from restD [OF r] s t line_key_no_nul [OF assms(2)] assms(1) show ?thesis by (auto simp: at_line_def)
qed

lemma at_line_keys:
  "at_line st b a \<Longrightarrow> line_keys ks b a = Some (b', a') \<Longrightarrow> 127 \<notin> set ks \<Longrightarrow>
   \<exists>st'. edit_inputs cb (map Some (concat (map typed ks))) st = Val st' \<and> at_line st' b' a' \<and>
     ed_history st' = ed_history st \<and> ed_hcurr st' = ed_hcurr st \<and> ed_calls st' = ed_calls st"
proof (induction ks arbitrary: st b a)
  case (Cons k ks)
  from Cons.prems(2) obtain b1 a1 where k: "line_key k b a = Some (b1, a1)" "line_keys ks b1 a1 = Some (b', a')" by (auto split: option.splits)
  from at_line_key [OF Cons.prems(1) k(1), of cb] Cons.prems(3) obtain st1 where s: "edit_inputs cb (map Some (typed k)) st = Val st1" "at_line st1 b1 a1"
    "ed_history st1 = ed_history st" "ed_hcurr st1 = ed_hcurr st" "ed_calls st1 = ed_calls st" by auto
  from Cons.IH [OF s(2) k(2)] Cons.prems(3) s show ?case by (auto simp: edit_inputs_append)
qed simp

lemma at_line_enter:
  assumes "at_line st b a" "b @ a \<noteq> []"
  shows "\<exists>st'. edit_read_char cb (Some 13) st = Val st' \<and> at_line st' [] [] \<and>
    ed_history st' = ed_history (history_add (b @ a) st) \<and> ed_calls st' = ed_calls st @ [Cmd_cb (b @ a)]"
proof -
  let ?st = "st\<lparr>ed_last_tab := False\<rparr>"
  have v: "view ?st b a" "no_nul (b @ a)" and e: "ed_esc st = -1" "\<not> ed_search st" using assms(1) by (auto simp: at_line_def view_def)
  have "edit_read_char cb (Some 13) st = process_cmd ?st"
    using plain_byte [OF e, of 13 cb] by (simp add: plain_keys_def edit_do_key_def)
  moreover from process_cmd_line [OF v assms(2)] obtain st' where p: "process_cmd ?st = Val st'" "view st' [] []"
    and r: "rest st' = rest ((history_add (b @ a) (?st\<lparr>ed_curr_valid := False\<rparr>))\<lparr>ed_calls := ed_calls ?st @ [Cmd_cb (b @ a)]\<rparr>)" by blast
  moreover have "ed_history (history_add (b @ a) (?st\<lparr>ed_curr_valid := False\<rparr>)) = ed_history (history_add (b @ a) st)"
    by (simp add: history_add_def Let_def)
  ultimately show ?thesis using restD [OF r] e by (auto simp: at_line_def no_nul_def)
qed

section \<open>The history as the most recent commands\<close>

definition recent :: "string list \<Rightarrow> string list" where
  "recent xs = rev (remdups (filter (\<lambda>x. x \<noteq> []) xs))"

lemma remdups_snoc: "remdups (xs @ [x]) = removeAll x (remdups xs) @ [x]"
  by (induction xs) auto

lemma recent_snoc: "x \<noteq> [] \<Longrightarrow> recent (xs @ [x]) = x # removeAll x (recent xs)"
  by (simp add: recent_def remdups_snoc rev_filter [symmetric] removeAll_filter_not_eq)

lemma take_removeAll_mem:
  "distinct xs \<Longrightarrow> x \<in> set (take (Suc n) xs) \<Longrightarrow> take n (removeAll x xs) = remove1 x (take (Suc n) xs)"
proof (induction xs arbitrary: n)
  case (Cons y ys)
  show ?case
  proof (cases "x = y")
    case True
    with Cons.prems show ?thesis by simp
  next
    case False
    with Cons show ?thesis by (cases n) auto
  qed
qed simp

lemma take_removeAll_new: "x \<notin> set (take (Suc n) xs) \<Longrightarrow> take n (removeAll x xs) = take n xs"
proof (induction xs arbitrary: n)
  case (Cons y ys)
  then show ?case by (cases n) auto
qed simp

lemma butlast_take_Suc: "Suc n \<le> length xs \<Longrightarrow> butlast (take (Suc n) xs) = take n xs"
  by (simp add: butlast_take)

lemma history_add_recent:
  assumes "ed_history st = take HISTORY_MAX (recent xs)"
  shows "ed_history (history_add x st) = take HISTORY_MAX (recent (xs @ [x]))"
proof (cases "x = []")
  case True
  then show ?thesis using assms by (simp add: history_add_def recent_def)
next
  case False
  obtain n where n: "HISTORY_MAX = Suc n" by (simp add: HISTORY_MAX_def)
  have d: "distinct (recent xs)" by (simp add: recent_def)
  show ?thesis
  proof (cases "x \<in> set (take HISTORY_MAX (recent xs))")
    case True
    with take_removeAll_mem [OF d, of x n] False assms show ?thesis by (simp add: history_add_def recent_snoc n)
  next
    case new: False
    from take_removeAll_new [of x n "recent xs"] new n have "take n (removeAll x (recent xs)) = take n (recent xs)" by simp
    moreover have "(if HISTORY_MAX \<le> length (ed_history st) then butlast (ed_history st) else ed_history st) = take n (recent xs)"
      using butlast_take_Suc [of n "recent xs"] assms n by auto
    ultimately show ?thesis using False new assms by (simp add: history_add_def recent_snoc Let_def n)
  qed
qed

lemma history_adds_recent:
  "ed_history st = take HISTORY_MAX (recent ys) \<Longrightarrow> ed_history (fold history_add xs st) = take HISTORY_MAX (recent (ys @ xs))"
proof (induction xs arbitrary: st ys)
  case (Cons x xs)
  from Cons.IH [OF history_add_recent [OF Cons.prems]] show ?case by simp
qed simp

section \<open>The history file read back\<close>

lemma fgets_line:
  assumes "NL \<notin> set h" "length h < n"
  shows "fgets_all n (h @ NL # r) = (h @ [NL]) # fgets_all n r"
proof -
  have t: "takeWhile (\<lambda>c. c \<noteq> NL) (h @ NL # r) = h" using assms(1) by (induction h) auto
  have "min n (Suc (length h)) = Suc (length h)" using assms(2) by simp
  then show ?thesis using assms(2) by (subst fgets_all.simps) (simp add: t)
qed

lemma fgets_long_line:
  assumes "NL \<notin> set h" "length h = n" "0 < n"
  shows "fgets_all n (h @ NL # r) = h # [NL] # fgets_all n r"
proof -
  have t: "takeWhile (\<lambda>c. c \<noteq> NL) (h @ NL # r) = h" using assms(1) by (induction h) auto
  have "fgets_all n (h @ NL # r) = h # fgets_all n (NL # r)"
    using assms(2,3) by (subst fgets_all.simps) (simp add: t Let_def min_def)
  moreover have "fgets_all n (NL # r) = [NL] # fgets_all n r"
    using fgets_line [of "[]" n r] assms(3) by simp
  ultimately show ?thesis by simp
qed

lemma history_line_id:
  assumes "CR \<notin> set h" "NL \<notin> set h" "no_nul h"
  shows "history_line h = h" "history_line (h @ [NL]) = h"
proof -
  have a: "\<forall>c \<in> set h. c \<noteq> CR \<and> c \<noteq> NL \<and> c \<noteq> NUL" using assms by (auto simp: no_nul_def)
  then show "history_line h = h" by (simp add: history_line_def takeWhile_eq_all_conv)
  from a show "history_line (h @ [NL]) = h" by (simp add: history_line_def takeWhile_append2)
qed

lemma history_file_lines:
  assumes "\<forall>h \<in> set hs. h \<noteq> [] \<and> no_nul h \<and> length h < CMD_BUF_LEN \<and> CR \<notin> set h \<and> NL \<notin> set h"
  shows "filter (\<lambda>x. x \<noteq> []) (map history_line (fgets_all (CMD_BUF_LEN - 1) (concat (map (\<lambda>h. h @ [NL]) hs)))) = hs"
  using assms
proof (induction hs)
  case Nil
  then show ?case by (subst fgets_all.simps) simp
next
  case (Cons h hs)
  then have h: "h \<noteq> []" "no_nul h" "length h < CMD_BUF_LEN" "CR \<notin> set h" "NL \<notin> set h" by auto
  note id = history_line_id [OF h(4,5,2)]
  have nl: "history_line [NL] = []" by (simp add: history_line_def)
  show ?case
  proof (cases "length h < CMD_BUF_LEN - 1")
    case True
    from fgets_line [OF h(5) True] Cons h(1) id show ?thesis by simp
  next
    case False
    with h(3) have "length h = CMD_BUF_LEN - 1" "0 < CMD_BUF_LEN - 1" by (auto simp: CMD_BUF_LEN_def)
    from fgets_long_line [OF h(5) this] Cons h(1) id nl show ?thesis by simp
  qed
qed


section \<open>Properties\<close>

text \<open>
  C24: Whatever bytes arrive on the terminal and whatever the history file holds, the editor stays inside its
  buffers: every byte is handled without undefined behaviour, the cursor stays within the line, the line leaves room for
  its terminator, the history has at most a hundred different entries that fit the line, and the escape and search buffers hold at most
  six and twenty characters.
\<close>

theorem edit_stays_in_buffers:
  assumes "completion_ok cb"
  shows "\<exists>st. edit_inputs cb inp (edit_init history_file ps edit_static) = Val st \<and>
    length (ed_buf st) = CMD_BUF_LEN \<and> ed_pos st \<le> ed_len st \<and> ed_len st < CMD_BUF_LEN \<and>
    distinct (ed_history st) \<and> length (ed_history st) \<le> HISTORY_MAX \<and> (\<forall>h \<in> set (ed_history st). length h < CMD_BUF_LEN) \<and>
    (case ed_hcurr st of None \<Rightarrow> ed_history st = [] | Some i \<Rightarrow> i < length (ed_history st)) \<and>
    (0 < ed_esc st \<longrightarrow> int (length (ed_esc_buf st)) = ed_esc st \<and> ed_esc st \<le> 6) \<and> length (ed_search_buf st) \<le> 20"
proof -
  from edit_inputs_keeps [OF edit_init_inv assms, of inp history_file ps] obtain st where "edit_inputs cb inp (edit_init history_file ps edit_static) = Val st" "edit_inv st"
    by (auto simp: keeps_def)
  then show ?thesis by (intro exI [of _ st]) (auto simp: edit_inv_def line_ok_def view_def rest_ok_def history_ok_def)
qed

definition demo_completion :: "completion option" where
  "demo_completion = Some (\<lambda>cmd p. Some [''scan'', ''scan_results'', ''status''])"

theorem edit_stays_in_buffers_witness:
  "completion_ok demo_completion \<and>
   (\<exists>st. edit_inputs demo_completion [Some 115, Some 9, Some 27, Some 91, Some 68, None] (edit_init None None edit_static) = Val st \<and> ed_pos st \<le> ed_len st)"
proof -
  have c: "completion_ok demo_completion" by (auto simp: completion_ok_def demo_completion_def no_nul_def)
  with edit_stays_in_buffers [OF c, of "[Some 115, Some 9, Some 27, Some 91, Some 68, None]" None None] show ?thesis by blast
qed

text \<open>
  C23: Typing a command: for every sequence of editing keys, sent as the bytes a terminal sends for them, the line is
  edited as by an editor on the texts before and behind the cursor; the return key hands the whole line, wherever the cursor is,
  to the command callback once, puts it in front of the history and leaves an empty line.
\<close>

theorem edit_session_refines_line:
  assumes "at_line st b a" "line_keys ks b a = Some (b', a')" "127 \<notin> set ks" "b' @ a' \<noteq> []"
  shows "\<exists>st'. edit_inputs cb (map Some (concat (map typed ks) @ typed EDIT_KEY_ENTER)) st = Val st' \<and> at_line st' [] [] \<and>
    ed_calls st' = ed_calls st @ [Cmd_cb (b' @ a')] \<and> ed_history st' = ed_history (history_add (b' @ a') st)"
proof -
  from at_line_keys [OF assms(1-3), of cb] obtain st1 where s: "edit_inputs cb (map Some (concat (map typed ks))) st = Val st1" "at_line st1 b' a'"
    "ed_history st1 = ed_history st" "ed_hcurr st1 = ed_hcurr st" "ed_calls st1 = ed_calls st" by blast
  have "ed_history (history_add (b' @ a') st1) = ed_history (history_add (b' @ a') st)" using s(3) by (simp add: history_add_def Let_def)
  moreover have "typed EDIT_KEY_ENTER = [13]" by (simp add: typed_def plain_keys_def)
  ultimately show ?thesis using at_line_enter [OF s(2) assms(4), of cb] s by (auto simp: edit_inputs_append)
qed

theorem edit_session_refines_line_witness:
  "\<exists>st'. edit_inputs None (map Some (concat (map typed [116, 117, 115, EDIT_KEY_HOME, 115, 116, 97]) @ typed EDIT_KEY_ENTER)) edit_static = Val st' \<and>
     ed_calls st' = [Cmd_cb ''status''] \<and> ed_history st' = [''status'']"
proof -
  have "replicate CMD_BUF_LEN NUL = NUL # replicate (CMD_BUF_LEN - 1) NUL" by (simp add: CMD_BUF_LEN_def flip: replicate_Suc)
  then have v: "at_line edit_static [] []" by (simp add: at_line_def view_def edit_static_def CMD_BUF_LEN_def no_nul_def)
  have c: "char_of (116::nat) = CHR ''t''" "char_of (117::nat) = CHR ''u''" "char_of (115::nat) = CHR ''s''" "char_of (97::nat) = CHR ''a''" by (simp_all add: char_of_code)
  have k: "line_keys [116, 117, 115, EDIT_KEY_HOME, 115, 116, 97] [] [] = Some (''sta'', ''tus'')" by (simp add: line_key_def CMD_BUF_LEN_def c)
  have h: "ed_calls edit_static = []" "ed_history (history_add ''status'' edit_static) = [''status'']"
    by (simp_all add: edit_static_def history_add_def HISTORY_MAX_def Let_def)
  from edit_session_refines_line [OF v k, of None] h show ?thesis by auto
qed

text \<open>
  C25: The history file: the history that \<^verbatim>\<open>edit_deinit\<close> writes is read back by the next \<^verbatim>\<open>edit_init\<close> in the same order, less the
  commands the filter rejects, also for commands as long as the line, which are read in two pieces.
\<close>

theorem history_file_round_trip:
  assumes "history_ok st" "\<forall>h \<in> set (ed_history st). CR \<notin> set h \<and> NL \<notin> set h"
  shows "ed_history (edit_init (fst (edit_deinit True (Some sensitive) st)) ps st0) = filter (\<lambda>h. \<not> sensitive h) (ed_history st)"
proof -
  let ?hs = "rev (filter (\<lambda>h. \<not> sensitive h) (ed_history st))"
  have w: "history_write (Some sensitive) st = concat (map (\<lambda>h. h @ [NL]) ?hs)"
  proof -
    have "concat (map (\<lambda>h. if sensitive h then [] else h @ [NL]) xs) = concat (map (\<lambda>h. h @ [NL]) (filter (\<lambda>h. \<not> sensitive h) xs))" for xs
      by (induction xs) auto
    then show ?thesis by (simp add: history_write_def rev_filter)
  qed
  have "\<forall>h \<in> set ?hs. h \<noteq> [] \<and> no_nul h \<and> length h < CMD_BUF_LEN \<and> CR \<notin> set h \<and> NL \<notin> set h" using assms by (auto simp: history_ok_def)
  note l = history_file_lines [OF this]
  let ?xs = "map history_line (fgets_all (CMD_BUF_LEN - 1) (concat (map (\<lambda>h. h @ [NL]) ?hs)))"
  have "recent ?xs = rev (remdups ?hs)" using l by (simp add: recent_def)
  also have "\<dots> = filter (\<lambda>h. \<not> sensitive h) (ed_history st)" using assms(1) by (simp add: history_ok_def distinct_remdups_id)
  finally have r: "recent ?xs = filter (\<lambda>h. \<not> sensitive h) (ed_history st)" .
  have "length (filter (\<lambda>h. \<not> sensitive h) (ed_history st)) \<le> HISTORY_MAX"
    by (rule order_trans [OF length_filter_le]) (use assms(1) in \<open>simp add: history_ok_def\<close>)
  then have "take HISTORY_MAX (recent ?xs) = filter (\<lambda>h. \<not> sensitive h) (ed_history st)" using r by simp
  moreover have "fold (\<lambda>buf. history_add (history_line buf)) (fgets_all (CMD_BUF_LEN - 1) (concat (map (\<lambda>h. h @ [NL]) ?hs))) s = fold history_add ?xs s" for s
    by (simp add: fold_map comp_def)
  ultimately show ?thesis
    using history_adds_recent [of "st0\<lparr>ed_curr := [], ed_history := [], ed_hcurr := None\<rparr>" "[]" ?xs]
    by (simp add: edit_init_def edit_deinit_def history_read_def w Let_def put_def recent_def)
qed

theorem history_file_round_trip_witness:
  "ed_history (edit_init (fst (edit_deinit True (Some (\<lambda>h. h = ''password 0 secret''))
      (edit_static\<lparr>ed_history := [''status'', ''password 0 secret'', ''scan''], ed_hcurr := Some 0\<rparr>))) None edit_static) = [''status'', ''scan'']"
  using history_file_round_trip [of "edit_static\<lparr>ed_history := [''status'', ''password 0 secret'', ''scan''], ed_hcurr := Some 0\<rparr>"
      "\<lambda>h. h = ''password 0 secret''" None edit_static]
  by (simp add: history_ok_def HISTORY_MAX_def CMD_BUF_LEN_def no_nul_def)

text \<open>
  The history is a list of the most recent different commands: after any sequence of commands it holds, latest
  first, the last hundred different non-empty ones.
\<close>

theorem history_keeps_recent:
  assumes "ed_history st = []"
  shows "ed_history (fold history_add cmds st) = take HISTORY_MAX (rev (remdups (filter (\<lambda>x. x \<noteq> []) cmds)))"
  using history_adds_recent [of st "[]" cmds] assms by (simp add: recent_def)

theorem history_keeps_recent_witness:
  "ed_history (fold history_add [''scan'', ''status'', [], ''scan''] edit_static) = [''scan'', ''status'']"
  using history_keeps_recent [of edit_static "[''scan'', ''status'', [], ''scan'']"] by (simp add: edit_static_def HISTORY_MAX_def)

end
