(* ===== verification/Common_Arrays.thy ===== *)
theory Common_Arrays
  imports Smartlist Hex_Utils "HOL-Library.Word"
begin

unbundle bit_operations_syntax

text \<open>
  The rest of \<^verbatim>\<open>src/utils/common.c\<close>: counters and merged byte arrays, NTP time stamps, lists of frequency ranges,
  zero-terminated integer arrays, random hardware addresses, tokens and the escaping of quotes. Bytes with
  arithmetic are 8-bit words, time stamps 32-bit words. Memory allocation succeeds.
\<close>

section \<open>Byte arrays\<close>

fun inc_loop :: "nat \<Rightarrow> 8 word list \<Rightarrow> 8 word list" where
  "inc_loop 0 counter = counter"
| "inc_loop (Suc pos) counter =
     (let counter = counter[pos := counter ! pos + 1]
      in if counter ! pos \<noteq> 0 then counter else inc_loop pos counter)"

definition inc_byte_array :: "8 word list \<Rightarrow> 8 word list" where
  "inc_byte_array counter = inc_loop (length counter) counter"

record os_time =
  t_sec :: int
  t_usec :: int

definition be32_bytes :: "32 word \<Rightarrow> 8 word list" where
  "be32_bytes w = [ucast (drop_bit 24 w), ucast (drop_bit 16 w), ucast (drop_bit 8 w), ucast w]"

definition ntp_fraction :: "32 word \<Rightarrow> 32 word" where
  "ntp_fraction usec = 4295 * usec - drop_bit 5 usec - drop_bit 9 usec"

definition wpa_get_ntp_timestamp :: "os_time \<Rightarrow> 8 word list" where
  "wpa_get_ntp_timestamp now = be32_bytes (word_of_int (t_sec now) + 2208988800) @ be32_bytes (ntp_fraction (word_of_int (t_usec now)))"

text \<open>The text \<^verbatim>\<open>vsnprintf\<close> produces is an argument, \<open>None\<close> when it fails.\<close>

definition wpa_scnprintf :: "cbuf \<Rightarrow> string option \<Rightarrow> nat \<times> cbuf" where
  "wpa_scnprintf buf txt =
     (if buf = [] then (0, buf)
      else case txt of
        None \<Rightarrow> (0, buf)
      | Some t \<Rightarrow>
          let buf' = cstrwrite buf (take (length buf - 1) t)
          in if length t \<ge> length buf then (length buf - 1, buf') else (length t, buf'))"

definition merge_byte_arrays :: "cbuf \<Rightarrow> cbuf option \<Rightarrow> cbuf option \<Rightarrow> nat \<times> cbuf" where
  "merge_byte_arrays res src1 src2 =
     (let n = length res; res = replicate n NUL;
          step2 = (\<lambda>(len, res).
            case src2 of
              None \<Rightarrow> (len, res)
            | Some s \<Rightarrow> if len + length s \<ge> n then (n, put_at res len (take (n - len) s)) else (len + length s, put_at res len s))
      in case src1 of
           None \<Rightarrow> step2 (0, res)
         | Some s \<Rightarrow> if length s \<ge> n then (n, put_at res 0 (take n s)) else step2 (length s, put_at res 0 s))"

section \<open>Frequency ranges\<close>

record wpa_freq_range =
  fr_min :: "32 word"
  fr_max :: "32 word"

text \<open>One entry of the list, with the text behind its comma.\<close>

definition range_step :: "string \<Rightarrow> wpa_freq_range \<times> string option" where
  "range_step p =
     (let mn = word_of_int (atoi p); pos2 = os_strchr p (CHR ''-''); pos3 = os_strchr p (CHR '','');
          mx = (case pos2 of
                  None \<Rightarrow> mn
                | Some q \<Rightarrow> if pos3 = None \<or> length (the pos3) < length q then word_of_int (atoi (tl q)) else mn)
      in (\<lparr>fr_min = mn, fr_max = mx\<rparr>, map_option tl pos3))"

lemma range_step_shorter: "snd (range_step p) = Some r \<Longrightarrow> length r < length p"
  by (auto simp: range_step_def Let_def dest: os_strchr_Some)

function range_loop :: "string option \<Rightarrow> wpa_freq_range list" where
  "range_loop None = []"
| "range_loop (Some p) = (if p = [] then [] else fst (range_step p) # range_loop (snd (range_step p)))"
  by pat_completeness auto
termination
  by (relation "measure (\<lambda>p. case p of None \<Rightarrow> 0 | Some s \<Rightarrow> Suc (length s))") (auto split: option.split dest: range_step_shorter)

definition freq_range_list_parse :: "string option \<Rightarrow> wpa_freq_range list" where
  "freq_range_list_parse value = range_loop value"

definition freq_range_list_includes :: "wpa_freq_range list option \<Rightarrow> 32 word \<Rightarrow> bool" where
  "freq_range_list_includes list freq =
     (case list of None \<Rightarrow> False | Some rs \<Rightarrow> (\<exists>r \<in> set rs. fr_min r \<le> freq \<and> freq \<le> fr_max r))"

definition range_text :: "bool \<Rightarrow> wpa_freq_range \<Rightarrow> string" where
  "range_text first r =
     (if first then [] else '','') @
     (if fr_min r = fr_max r then show_nat (unat (fr_min r)) else show_nat (unat (fr_min r)) @ ''-'' @ show_nat (unat (fr_max r)))"

fun ranges_print :: "nat \<Rightarrow> bool \<Rightarrow> wpa_freq_range list \<Rightarrow> string option" where
  "ranges_print room first [] = Some []"
| "ranges_print room first (r # rs) =
     (let t = range_text first r
      in if os_snprintf_error room (int (length t)) then None
         else map_option ((@) t) (ranges_print (room - length t) False rs))"

definition freq_range_list_str :: "wpa_freq_range list \<Rightarrow> string option" where
  "freq_range_list_str list = (if list = [] then None else ranges_print (length list * 30) True list)"

section \<open>Integer arrays\<close>

text \<open>An array is a block of memory, used up to the first zero; \<open>None\<close> is the null pointer.\<close>

fun array_len :: "int list \<Rightarrow> nat outcome" where
  "array_len [] = Undef Oob_read"
| "array_len (x # a) = (if x = 0 then Val 0 else omap Suc (array_len a))"

definition int_array_len :: "int list option \<Rightarrow> nat outcome" where
  "int_array_len a = (case a of None \<Rightarrow> Val 0 | Some a \<Rightarrow> array_len a)"

definition int_array_concat :: "int list option \<Rightarrow> int list option \<Rightarrow> int list outcome" where
  "int_array_concat res a =
     obind (int_array_len res) (\<lambda>reslen.
     obind (int_array_len a) (\<lambda>alen.
       case a of
         None \<Rightarrow> Undef Null_deref
       | Some a \<Rightarrow> Val (take reslen (case res of None \<Rightarrow> [] | Some r \<Rightarrow> r) @ take (alen + 1) a)))"

definition s32 :: "int \<Rightarrow> int" where
  "s32 i = sint (word_of_int i :: 32 word)"

definition freq_cmp :: "int \<Rightarrow> int \<Rightarrow> int" where
  "freq_cmp a b = (if a = 0 then 1 else if b = 0 then -1 else s32 (a - b))"

text \<open>The loop over the sorted array: \<open>i\<close> is the last element kept, \<open>j\<close> the next one to look at.\<close>

function uniq_loop :: "nat \<Rightarrow> nat \<Rightarrow> int list \<Rightarrow> (nat \<times> int list) outcome" where
  "uniq_loop i j a =
     (if i \<ge> length a then Undef Oob_read
      else if a ! i = 0 then Val (i, a)
      else if j \<ge> length a then Undef Oob_read
      else if a ! j = 0 then Val (i, a)
      else if a ! i = a ! j then uniq_loop i (j + 1) a
      else if i + 1 \<ge> length a then Undef Oob_write
      else uniq_loop (i + 1) (j + 1) (a[i + 1 := a ! j]))"
  by pat_completeness auto
termination
  by (relation "measure (\<lambda>(i, j, a). length a - j)") auto

declare uniq_loop.simps [simp del]

definition int_array_sort_unique :: "int list option \<Rightarrow> int list option outcome" where
  "int_array_sort_unique a =
     (case a of
        None \<Rightarrow> Val None
      | Some a \<Rightarrow>
          obind (array_len a) (\<lambda>alen.
          obind (uniq_loop 0 1 (c_qsort freq_cmp (take alen a) @ drop alen a)) (\<lambda>(i, a).
            let i = (if a ! i \<noteq> 0 then i + 1 else i)
            in if i < length a then Val (Some (a[i := 0])) else Undef Oob_write)))"

definition int_array_add_unique :: "int list option \<Rightarrow> int \<Rightarrow> int list outcome" where
  "int_array_add_unique res x =
     (case res of
        None \<Rightarrow> Val [x, 0]
      | Some r \<Rightarrow>
          obind (array_len r) (\<lambda>reslen. if x \<in> set (take reslen r) then Val r else Val (take reslen r @ [x, 0])))"

section \<open>Random addresses\<close>

definition local_unicast :: "8 word list \<Rightarrow> 8 word list" where
  "local_unicast addr = addr[0 := ((addr ! 0 AND 0xfe) OR 0x02)]"

text \<open>The bytes \<^verbatim>\<open>os_get_random\<close> delivers are an argument, \<open>None\<close> when it fails.\<close>

definition random_mac_addr :: "8 word list option \<Rightarrow> 8 word list \<Rightarrow> int \<times> 8 word list" where
  "random_mac_addr rnd addr = (case rnd of None \<Rightarrow> (-1, addr) | Some r \<Rightarrow> (0, local_unicast (take ETH_ALEN r @ drop ETH_ALEN addr)))"

definition random_mac_addr_keep_oui :: "8 word list option \<Rightarrow> 8 word list \<Rightarrow> int \<times> 8 word list" where
  "random_mac_addr_keep_oui rnd addr =
     (case rnd of None \<Rightarrow> (-1, addr) | Some r \<Rightarrow> (0, local_unicast (take 3 addr @ take 3 r @ drop 6 addr)))"

section \<open>Tokens\<close>

text \<open>The token and the place behind it as positions in the text, which is taken with what follows in memory.\<close>

definition cstr_token :: "string \<Rightarrow> string \<Rightarrow> nat option \<Rightarrow> (nat \<times> nat) option" where
  "cstr_token str delim prev =
     (let start = (case prev of None \<Rightarrow> 0 | Some l \<Rightarrow> l); rest = cstr_of (drop start str);
          skip = takeWhile (\<lambda>c. c \<in> set delim) rest; tok = dropWhile (\<lambda>c. c \<in> set delim) rest; token = start + length skip
      in if tok = [] then None
         else Some (token, token + 1 + length (takeWhile (\<lambda>c. c \<notin> set delim) (tl tok))))"

text \<open>The token, the text with the delimiter behind the token overwritten, and the context of the next call.\<close>

definition str_token :: "cbuf \<Rightarrow> string \<Rightarrow> nat option \<Rightarrow> (nat option \<times> cbuf \<times> nat option)" where
  "str_token str delim context =
     (case cstr_token str delim context of
        None \<Rightarrow> (None, str, context)
      | Some (token, q) \<Rightarrow> if str ! q \<noteq> NUL then (Some token, str[q := NUL], Some (q + 1)) else (Some token, str, Some q))"

section \<open>Escaped quotes\<close>

text \<open>
  The text written, and how the loop ends: \<open>None\<close> for the early return of zero, otherwise whether a NUL is
  stored behind the text.
\<close>

fun unescape_loop :: "nat \<Rightarrow> string \<Rightarrow> string \<times> bool option" where
  "unescape_loop room [] = ([], Some (0 < room))"
| "unescape_loop room (c # inp) =
     (if room = 0 then ([], None)
      else if c = SQ then ([], Some True)
      else if c = BSL then
        (case inp of
           [] \<Rightarrow> ([], None)
         | d # inp \<Rightarrow> apfst (Cons d) (unescape_loop (room - 1) inp))
      else apfst (Cons c) (unescape_loop (room - 1) inp))"

definition store_text :: "cbuf \<Rightarrow> string \<times> bool option \<Rightarrow> nat \<times> cbuf" where
  "store_text outp r =
     (case r of
        (t, None) \<Rightarrow> (0, put_at outp 0 t)
      | (t, Some z) \<Rightarrow> (length t, put_at outp 0 (t @ (if z then [NUL] else []))))"

definition utf8_unescape :: "string option \<Rightarrow> nat \<Rightarrow> cbuf option \<Rightarrow> nat \<times> cbuf option" where
  "utf8_unescape inp in_size outp =
     (case (inp, outp) of
        (Some inp, Some outp) \<Rightarrow>
          let inp = (if in_size = 0 then cstr_of inp else take in_size inp);
              inp = (if at0 inp = SQ \<and> inp \<noteq> [] then tl inp else inp)
          in case store_text outp (unescape_loop (length outp) inp) of (n, b) \<Rightarrow> (n, Some b)
      | _ \<Rightarrow> (0, outp))"

fun escape_loop :: "nat \<Rightarrow> string \<Rightarrow> string \<times> bool option" where
  "escape_loop room [] = ([], Some (0 < room))"
| "escape_loop room (c # inp) =
     (if room = 0 then ([], None)
      else if c = BSL \<or> c = SQ then
        (if room = 1 then ([], None) else apfst (\<lambda>t. BSL # c # t) (escape_loop (room - 2) inp))
      else apfst (Cons c) (escape_loop (room - 1) inp))"

definition utf8_escape :: "string option \<Rightarrow> nat \<Rightarrow> cbuf option \<Rightarrow> nat \<times> cbuf option" where
  "utf8_escape inp in_size outp =
     (case (inp, outp) of
        (Some inp, Some outp) \<Rightarrow>
          case store_text outp (escape_loop (length outp) (if in_size = 0 then cstr_of inp else take in_size inp)) of (n, b) \<Rightarrow> (n, Some b)
      | _ \<Rightarrow> (0, outp))"

definition is_ctrl_char :: "char \<Rightarrow> bool" where
  "is_ctrl_char c \<longleftrightarrow> 0 < (of_char c :: nat) \<and> (of_char c :: nat) < 32"


section \<open>Counters\<close>

definition be_val :: "8 word list \<Rightarrow> nat" where
  "be_val bs = foldl (\<lambda>n b. 256 * n + unat b) 0 bs"

lemma be_val_snoc: "be_val (xs @ [x]) = 256 * be_val xs + unat x"
  by (simp add: be_val_def)

lemma inc_loop_append: "inc_loop (length xs) (xs @ ys) = inc_byte_array xs @ ys"
proof (induction xs arbitrary: ys rule: rev_induct)
  case (snoc x xs)
  show ?case
    using snoc [of "0 # ys"] snoc [of "[0]"] by (auto simp: inc_byte_array_def nth_append Let_def list_update_append)
qed (simp add: inc_byte_array_def)

lemma inc_byte_array_snoc: "inc_byte_array (xs @ [x]) = (if x + 1 \<noteq> 0 then xs @ [x + 1] else inc_byte_array xs @ [0])"
  using inc_loop_append [of xs "[0]"] by (simp add: inc_byte_array_def [of "xs @ [x]"] nth_append Let_def list_update_append)

text \<open>
  A byte array is incremented as one number, the most significant byte first, with wrap-around at the end of its range.
\<close>

theorem inc_byte_array_counts:
  "length (inc_byte_array c) = length c \<and> be_val (inc_byte_array c) = (be_val c + 1) mod 256 ^ length c"
proof -
  have "length (inc_byte_array c) = length c \<and> be_val c < 256 ^ length c \<and> be_val (inc_byte_array c) = (be_val c + 1) mod 256 ^ length c"
  proof (induction c rule: rev_induct)
    case Nil
    show ?case by (simp add: inc_byte_array_def be_val_def)
  next
    case (snoc x c)
    have x: "unat x < 256" and y: "unat (x + 1) = (unat x + 1) mod 256" using unsigned_less [of x] by (simp_all add: unat_word_ariths(1))
    have b: "be_val c + 1 \<le> 256 ^ length c" using snoc by simp
    then have bd: "256 * be_val c + 256 \<le> 256 * 256 ^ length c" by linarith
    show ?case
    proof (cases "x + 1 = 0")
      case True
      then have u: "unat x = 255" using x y by (auto simp: unat_eq_0 [symmetric] dest!: dvd_imp_le)
      have "256 * ((be_val c + 1) mod 256 ^ length c) = (256 * be_val c + 256) mod (256 * 256 ^ length c)"
        by (simp add: mult_mod_right algebra_simps)
      with True u snoc bd show ?thesis by (simp add: inc_byte_array_snoc be_val_snoc add.commute)
    next
      case False
      then have "unat (x + 1) \<noteq> 0" by (simp add: unat_eq_0)
      then have "unat x + 1 < 256" using x y by (cases "unat x = 255") auto
      then show ?thesis using False snoc bd y by (simp add: inc_byte_array_snoc be_val_snoc)
    qed
  qed
  then show ?thesis by simp
qed

lemma drop_bit_word_div: "uint (drop_bit n w) = uint w div 2 ^ n" for w :: "32 word"
  using uint_lt2p [of w] by (simp only: unsigned_drop_bit_eq) (simp add: drop_bit_eq_div take_bit_int_eq_self)

text \<open>
  The fraction of the NTP time stamp: for microseconds below a million the 32-bit product, which wraps around on the
  way, is the fraction of a second in units of \<open>2\<^sup>-\<^sup>3\<^sup>2\<close>, at most 500 units too small and 2 too large.
\<close>

theorem ntp_fraction_close:
  assumes "uint usec < 1000000"
  shows "2 ^ 32 * uint usec \<le> 1000000 * (uint (ntp_fraction usec) + 500) \<and> 1000000 * (uint (ntp_fraction usec) - 2) \<le> 2 ^ 32 * uint usec"
proof -
  let ?n = "uint usec"
  let ?f = "4295 * ?n - ?n div 32 - ?n div 512"
  have n: "0 \<le> ?n" "?n < 1000000" using assms by auto
  then have "0 \<le> ?f" "?f < 4294967296" by linarith+
  then have f: "0 \<le> ?f" "?f < 2 ^ 32" by simp_all
  have "uint (ntp_fraction usec) = ?f mod 2 ^ 32"
    by (simp add: ntp_fraction_def uint_word_ariths drop_bit_word_div mod_simps)
  also have "\<dots> = ?f" using f by (rule mod_pos_pos_trivial)
  finally have u: "uint (ntp_fraction usec) = ?f" .
  obtain a b where ab: "a = ?n div 32" "b = ?n div 512" by blast
  then have "?n - 31 \<le> 32 * a" "?n - 511 \<le> 512 * b" "32 * a \<le> ?n" "512 * b \<le> ?n" by linarith+
  with n have "4294967296 * ?n \<le> 4295000000 * ?n - 1000000 * a - 1000000 * b + 500000000"
    "4295000000 * ?n - 1000000 * a - 1000000 * b - 2000000 \<le> 4294967296 * ?n" by linarith+
  then show ?thesis unfolding u ab by (simp add: algebra_simps)
qed

theorem ntp_fraction_close_witness:
  "2 ^ 32 * 999999 \<le> 1000000 * (uint (ntp_fraction 999999) + 500)"
  using ntp_fraction_close [of 999999] by simp

text \<open>
  Merged arrays: the result starts with the two sources one behind the other, cut at its length, and is zero behind them.
\<close>

theorem merge_byte_arrays_prefix:
  "merge_byte_arrays res src1 src2 =
     (let s = (case src1 of None \<Rightarrow> [] | Some s \<Rightarrow> s) @ (case src2 of None \<Rightarrow> [] | Some s \<Rightarrow> s)
      in (min (length res) (length s), take (length res) (s @ replicate (length res) NUL)))"
proof -
  have p: "put_at (s @ replicate (n - length s) NUL) (length s) t = s @ t @ replicate (n - length s - length t) NUL" for s t n
    by (simp add: put_at_def memwrite_def)
  have p0: "put_at (replicate n NUL) 0 t = t @ replicate (n - length t) NUL" for t n
    by (simp add: put_at_def memwrite_def)
  show ?thesis
    by (auto simp: merge_byte_arrays_def p p0 Let_def min_def not_le take_replicate split: option.split)
qed


section \<open>Frequency ranges read back\<close>

lemma length_range_text: "length (range_text first r) < 30"
proof -
  have l: "length (show_nat (unat w)) \<le> 10" for w :: "32 word"
  proof -
    have "unat w < 2 ^ LENGTH(32)" by (rule unsigned_less)
    then show ?thesis using length_show_nat [of "unat w" 9] by simp
  qed
  show ?thesis using l [of "fr_min r"] l [of "fr_max r"] by (auto simp: range_text_def)
qed

fun ranges_text :: "bool \<Rightarrow> wpa_freq_range list \<Rightarrow> string" where
  "ranges_text first [] = []"
| "ranges_text first (r # rs) = range_text first r @ ranges_text False rs"

lemma ranges_print_fits: "30 * length rs \<le> room \<Longrightarrow> ranges_print room first rs = Some (ranges_text first rs)"
proof (induction rs arbitrary: room first)
  case (Cons r rs)
  from length_range_text [of first r] Cons.prems have "length (range_text first r) < room" "30 * length rs \<le> room - length (range_text first r)" by auto
  with Cons.IH show ?case by (simp add: Let_def)
qed simp

lemma atoi_prefix:
  assumes "r = [] \<or> \<not> c_isdigit (hd r)"
  shows "atoi (show_nat n @ r) = int n"
proof -
  obtain c t where c: "show_nat n = c # t" by (cases "show_nat n") auto
  have d: "c_isdigit c" using show_nat_digits [of c n] c by simp
  have "digits_val v r = v" for v using assms by (cases r) auto
  then have "digits_val 0 (show_nat n @ r) = int n" by (simp add: digits_val_append show_nat_digits digits_val_show_nat)
  then show ?thesis using digit_not [OF d] by (simp add: atoi_def c del: digits_val.simps)
qed

lemma digit_not_sep: "\<not> c_isdigit (CHR ''-'')" "\<not> c_isdigit (CHR '','')"
  by (simp_all add: c_isdigit_def)

lemma sep_not_in_number: "CHR ''-'' \<notin> set (show_nat n)" "CHR '','' \<notin> set (show_nat n)"
  using show_nat_digits digit_not_sep by auto

definition range_ok :: "wpa_freq_range \<Rightarrow> bool" where
  "range_ok r \<longleftrightarrow> unat (fr_min r) < 2 ^ 31 \<and> unat (fr_max r) < 2 ^ 31"

lemma word_of_unat: "word_of_int (int (unat w)) = (w :: 32 word)"
  by simp

lemma os_strchr_skip: "c \<notin> set p \<Longrightarrow> os_strchr (p @ r) c = os_strchr r c"
  by (induction p) (auto simp: os_strchr_def)

lemma os_strchr_hd: "os_strchr (c # r) c = Some (c # r)"
  by (simp add: os_strchr_def)

lemma os_strchr_no: "c \<notin> set r \<Longrightarrow> os_strchr r c = None"
  by (simp add: os_strchr_None)

lemma range_step_text:
  assumes "t = [] \<or> hd t = CHR '',''"
  shows "range_step (range_text True r @ t) = (r, if t = [] then None else Some (tl t))"
proof -
  have h: "t = [] \<or> \<not> c_isdigit (hd t)" using assms digit_not_sep by auto
  show ?thesis
  proof (cases "fr_min r = fr_max r")
    case True
    then have e: "range_text True r = show_nat (unat (fr_min r))" by (simp add: range_text_def)
    show ?thesis
    proof (cases t)
      case Nil
      then show ?thesis using True atoi_prefix [of "[]"]
        by (simp add: e range_step_def Let_def os_strchr_no sep_not_in_number)
    next
      case (Cons c u)
      with assms have c: "c = CHR '',''" by simp
      have "\<not> length (c # u) < length q" if "os_strchr (c # u) (CHR ''-'') = Some q" for q
        using os_strchr_Some [OF that] by (metis length_append not_add_less2)
      with Cons c h show ?thesis using True atoi_prefix [OF h]
        by (auto simp: e range_step_def Let_def os_strchr_skip sep_not_in_number os_strchr_hd split: option.split)
    qed
  next
    case False
    let ?m = "''-'' @ show_nat (unat (fr_max r)) @ t"
    have e: "range_text True r @ t = show_nat (unat (fr_min r)) @ ?m" using False by (simp add: range_text_def)
    have a: "atoi (show_nat (unat (fr_min r)) @ ?m) = int (unat (fr_min r))" by (rule atoi_prefix) (simp add: digit_not_sep)
    have b: "atoi (show_nat (unat (fr_max r)) @ t) = int (unat (fr_max r))" by (rule atoi_prefix [OF h])
    have c: "os_strchr ?m (CHR '','') = (if t = [] then None else Some t)"
    proof -
      have "os_strchr ?m (CHR '','') = os_strchr t (CHR '','')"
        using os_strchr_skip [of "CHR '',''" "''-'' @ show_nat (unat (fr_max r))" t] sep_not_in_number by simp
      then show ?thesis using assms by (cases t) (auto simp: os_strchr_def)
    qed
    show ?thesis unfolding e range_step_def Let_def a
      using b c by (simp add: os_strchr_skip sep_not_in_number os_strchr_hd)
  qed
qed

lemma ranges_text_hd: "ranges_text False rs = [] \<or> hd (ranges_text False rs) = CHR '',''"
  by (cases rs) (simp_all add: range_text_def)

lemma ranges_text_tl: "rs \<noteq> [] \<Longrightarrow> tl (ranges_text False rs) = ranges_text True rs \<and> ranges_text False rs \<noteq> [] \<and> ranges_text True rs \<noteq> []"
  by (cases rs) (auto simp: range_text_def)

lemma range_loop_text: "rs \<noteq> [] \<Longrightarrow> range_loop (Some (ranges_text True rs)) = rs"
proof (induction rs)
  case (Cons r rs)
  have "range_text True r \<noteq> []" by (simp add: range_text_def)
  with Cons.IH ranges_text_tl [of rs] show ?case
    using range_step_text [OF ranges_text_hd, of r rs] by (cases "rs = []") simp_all
qed simp

text \<open>
  A list of frequency ranges, with frequencies in the range of \<^verbatim>\<open>atoi\<close>, is printed in a buffer that is always large
  enough, and reading the text gives the list back.
\<close>

theorem freq_range_round_trip:
  assumes "rs \<noteq> []" "\<forall>r \<in> set rs. range_ok r"
  shows "\<exists>t. freq_range_list_str rs = Some t \<and> freq_range_list_parse (Some t) = rs"
  using ranges_print_fits [of rs "length rs * 30" True] range_loop_text [OF assms(1)] assms(1)
  by (simp add: freq_range_list_str_def freq_range_list_parse_def)

theorem freq_range_round_trip_witness:
  "\<exists>t. freq_range_list_str [\<lparr>fr_min = 2412, fr_max = 2432\<rparr>, \<lparr>fr_min = 5180, fr_max = 5180\<rparr>] = Some t \<and>
     freq_range_list_parse (Some t) = [\<lparr>fr_min = 2412, fr_max = 2432\<rparr>, \<lparr>fr_min = 5180, fr_max = 5180\<rparr>]"
  by (rule freq_range_round_trip) (simp_all add: range_ok_def)


section \<open>Sets of integers in zero-terminated arrays\<close>

definition freqs_ok :: "int list \<Rightarrow> bool" where
  "freqs_ok xs \<longleftrightarrow> (\<forall>x \<in> set xs. 0 < x \<and> x < 2 ^ 31)"

lemma array_len_zero: "0 \<notin> set xs \<Longrightarrow> array_len (xs @ 0 # z) = Val (length xs)"
  by (induction xs) auto

lemma freq_cmp_positive: "0 < a \<Longrightarrow> a < 2 ^ 31 \<Longrightarrow> 0 < b \<Longrightarrow> b < 2 ^ 31 \<Longrightarrow> freq_cmp a b = a - b"
  unfolding freq_cmp_def s32_def sint_sbintrunc' by (simp add: signed_take_bit_int_eq_self)

lemma qsort_freqs: "freqs_ok xs \<Longrightarrow> c_qsort freq_cmp xs = sort xs"
proof (induction xs)
  case (Cons x xs)
  have "c_insert freq_cmp x ys = insort x ys" if "freqs_ok ys" for ys
    using that Cons.prems by (induction ys) (auto simp: freqs_ok_def freq_cmp_positive)
  moreover have "freqs_ok (sort xs)" using Cons.prems by (simp add: freqs_ok_def)
  ultimately show ?case using Cons by (simp add: freqs_ok_def)
qed simp

fun dedup :: "int list \<Rightarrow> int list \<Rightarrow> int list" where
  "dedup K [] = K"
| "dedup K (t # T) = (if last K = t then dedup K T else dedup (K @ [t]) T)"

lemma dedup_props: "K \<noteq> [] \<Longrightarrow> set (dedup K T) = set K \<union> set T \<and> dedup K T \<noteq> [] \<and> length (dedup K T) \<le> length K + length T"
proof (induction T arbitrary: K)
  case (Cons t T)
  from Cons.IH [OF Cons.prems] Cons.IH [of "K @ [t]"] Cons.prems show ?case by (auto simp: le_SucI)
qed simp

lemma dedup_strict:
  "K \<noteq> [] \<Longrightarrow> sorted_wrt (<) K \<Longrightarrow> sorted T \<Longrightarrow> \<forall>t \<in> set T. last K \<le> t \<Longrightarrow> sorted_wrt (<) (dedup K T)"
proof (induction T arbitrary: K)
  case (Cons t T)
  have "x \<le> last K" if "x \<in> set K" for x
    using that Cons.prems(1,2) by (cases K rule: rev_cases) (auto simp: sorted_wrt_append less_imp_le)
  then have "x < t" if "x \<in> set K" "last K \<noteq> t" for x using that Cons.prems(4) by fastforce
  then have "last K \<noteq> t \<Longrightarrow> sorted_wrt (<) (K @ [t])" using Cons.prems(2) by (simp add: sorted_wrt_append)
  with Cons show ?case by auto
qed simp

lemma uniq_loop_dedup:
  "K \<noteq> [] \<Longrightarrow> 0 \<notin> set K \<Longrightarrow> 0 \<notin> set T \<Longrightarrow>
   \<exists>M'. uniq_loop (length K - 1) (length K + length M) (K @ M @ T @ 0 # z) = Val (length (dedup K T) - 1, dedup K T @ M' @ 0 # z)"
proof (induction T arbitrary: K M)
  case Nil
  have "last K \<noteq> 0" using Nil by (metis last_in_set)
  then have "(K @ M @ 0 # z) ! (length K - 1) \<noteq> 0" using Nil by (simp add: nth_append last_conv_nth)
  then show ?case using Nil by (subst uniq_loop.simps) (auto simp: nth_append)
next
  case (Cons t T)
  let ?a = "K @ M @ (t # T) @ 0 # z" and ?i = "length K - 1" and ?j = "length K + length M"
  have "last K \<noteq> 0" using Cons.prems by (metis last_in_set)
  then have i: "?a ! ?i = last K" "last K \<noteq> 0" "Suc ?i = length K" using Cons.prems by (auto simp: nth_append last_conv_nth)
  have j: "?a ! ?j = t" "t \<noteq> 0" using Cons.prems by (auto simp: nth_append)
  show ?case
  proof (cases "last K = t")
    case True
    then have "uniq_loop ?i ?j ?a = uniq_loop ?i (?j + 1) ?a" using i j by (subst uniq_loop.simps) simp
    with Cons.IH [of K "M @ [t]"] Cons.prems True show ?thesis by simp
  next
    case False
    then have s: "uniq_loop ?i ?j ?a = uniq_loop (length K) (?j + 1) (?a[length K := t])" using i j by (subst uniq_loop.simps) simp
    show ?thesis
    proof (cases M)
      case Nil
      with s Cons.IH [of "K @ [t]" "[]"] Cons.prems False show ?thesis by (simp add: list_update_append)
    next
      case (Cons m M1)
      with s Cons.IH [of "K @ [t]" "M1 @ [t]"] Cons.prems False show ?thesis by (simp add: list_update_append)
    qed
  qed
qed

text \<open>
  Sorting a zero-terminated array and removing duplicates: for positive frequencies the array ends up with the
  different values in ascending order, terminated again, and no access leaves the array.
\<close>

theorem int_array_sort_unique_correct:
  assumes "freqs_ok xs"
  shows "\<exists>a. int_array_sort_unique (Some (xs @ 0 # z)) = Val (Some a) \<and>
    sorted_wrt (<) (takeWhile (\<lambda>x. x \<noteq> 0) a) \<and> set (takeWhile (\<lambda>x. x \<noteq> 0) a) = set xs \<and> array_len a = Val (card (set xs))"
proof -
  have n: "0 \<notin> set xs" using assms by (auto simp: freqs_ok_def)
  have start: "int_array_sort_unique (Some (xs @ 0 # z)) = obind (uniq_loop 0 1 (sort xs @ 0 # z)) (\<lambda>(i, a).
    let i = (if a ! i \<noteq> 0 then i + 1 else i) in if i < length a then Val (Some (a[i := 0])) else Undef Oob_write)"
    using array_len_zero [OF n] qsort_freqs [OF assms] by (simp add: int_array_sort_unique_def)
  show ?thesis
  proof (cases "sort xs")
    case Nil
    then have "uniq_loop 0 1 (sort xs @ 0 # z) = Val (0, 0 # z)" by (subst uniq_loop.simps) simp
    moreover have "xs = []" using Nil by (metis length_0_conv length_sort)
    ultimately show ?thesis using start by simp
  next
    case (Cons x T)
    let ?k = "dedup [x] T"
    have sx: "set xs = insert x (set T)" "sorted (x # T)" using Cons by (metis list.simps(15) set_sort, metis sorted_sort)
    then have T: "0 \<notin> set T" "x \<noteq> 0" using n by auto
    have k: "set ?k = set xs" "?k \<noteq> []" using dedup_props [of "[x]" T] sx by auto
    have st: "sorted_wrt (<) ?k" by (rule dedup_strict) (use sx in auto)
    from uniq_loop_dedup [of "[x]" T "[]" z] T Cons obtain M where u: "uniq_loop 0 1 (sort xs @ 0 # z) = Val (length ?k - 1, ?k @ M @ 0 # z)" by auto
    have "last ?k \<noteq> 0" using k n by (metis last_in_set)
    then have i: "(?k @ M @ 0 # z) ! (length ?k - 1) \<noteq> 0" using k(2) by (simp add: nth_append last_conv_nth)
    obtain y ys where y: "M @ 0 # z = y # ys" by (cases "M @ 0 # z") auto
    have "int_array_sort_unique (Some (xs @ 0 # z)) = Val (Some (?k @ 0 # ys))"
      unfolding start u using i k(2) y by (simp add: list_update_append)
    moreover have "takeWhile (\<lambda>x. x \<noteq> 0) (?k @ 0 # ys) = ?k" using k(1) n by (subst takeWhile_append2) auto
    moreover have "array_len (?k @ 0 # ys) = Val (length ?k)" using k(1) n by (intro array_len_zero) auto
    moreover have "length ?k = card (set xs)" using st k(1) by (metis distinct_card strict_sorted_iff)
    ultimately show ?thesis using st k(1) by auto
  qed
qed

theorem int_array_sort_unique_correct_witness:
  "\<exists>a. int_array_sort_unique (Some ([5180, 2412, 5180] @ 0 # [7])) = Val (Some a) \<and> array_len a = Val (card (set [5180, 2412, 5180 :: int]))"
  using int_array_sort_unique_correct [of "[5180, 2412, 5180]" "[7]"] by (auto simp: freqs_ok_def)

lemma int_array_add_unique_set:
  assumes "0 \<notin> set xs" "x \<noteq> 0"
  shows "\<exists>ys z'. int_array_add_unique (Some (xs @ 0 # z)) x = Val (ys @ 0 # z') \<and> 0 \<notin> set ys \<and> set ys = insert x (set xs) \<and> (distinct xs \<longrightarrow> distinct ys)"
proof (cases "x \<in> set xs")
  case True
  then show ?thesis using array_len_zero [OF assms(1), of z] assms by (intro exI [of _ xs] exI [of _ z]) (auto simp: int_array_add_unique_def)
next
  case False
  then show ?thesis using array_len_zero [OF assms(1), of z] assms by (intro exI [of _ "xs @ [x]"] exI [of _ "[]"]) (auto simp: int_array_add_unique_def)
qed

lemma int_array_concat_append:
  assumes "0 \<notin> set xs" "0 \<notin> set ys"
  shows "int_array_concat (Some (xs @ 0 # z)) (Some (ys @ 0 # w)) = Val (xs @ ys @ [0])" "int_array_concat r None = obind (int_array_len r) (\<lambda>_. Undef Null_deref)"
  using array_len_zero [OF assms(1), of z] array_len_zero [OF assms(2), of w] by (simp_all add: int_array_concat_def int_array_len_def)


section \<open>Random addresses\<close>

lemma bit_local_unicast: "addr \<noteq> [] \<Longrightarrow> \<not> bit (local_unicast addr ! 0) 0 \<and> bit (local_unicast addr ! 0) 1"
  by (cases addr) (simp_all add: local_unicast_def bit_simps)

lemma random_mac_addr_kind:
  assumes "length r = 6" "length addr = 6"
  shows "\<exists>a. random_mac_addr (Some r) addr = (0, a) \<and> length a = 6 \<and> \<not> bit (a ! 0) 0 \<and> bit (a ! 0) 1"
    and "\<exists>a. random_mac_addr_keep_oui (Some r) addr = (0, a) \<and> length a = 6 \<and> \<not> bit (a ! 0) 0 \<and> bit (a ! 0) 1 \<and> a ! 1 = addr ! 1 \<and> a ! 2 = addr ! 2"
proof -
  have n: "take 6 r @ drop 6 addr \<noteq> []" "take 3 addr @ take 3 r @ drop 6 addr \<noteq> []" using assms by auto
  show "\<exists>a. random_mac_addr (Some r) addr = (0, a) \<and> length a = 6 \<and> \<not> bit (a ! 0) 0 \<and> bit (a ! 0) 1"
    using bit_local_unicast [OF n(1)] assms by (simp add: random_mac_addr_def ETH_ALEN_def) (simp add: local_unicast_def)
  have "local_unicast (take 3 addr @ take 3 r @ drop 6 addr) ! i = addr ! i" if "i = 1 \<or> i = 2" for i
    using that assms by (auto simp: local_unicast_def nth_append)
  then show "\<exists>a. random_mac_addr_keep_oui (Some r) addr = (0, a) \<and> length a = 6 \<and> \<not> bit (a ! 0) 0 \<and> bit (a ! 0) 1 \<and> a ! 1 = addr ! 1 \<and> a ! 2 = addr ! 2"
    using bit_local_unicast [OF n(2)] assms by (simp add: random_mac_addr_keep_oui_def) (simp add: local_unicast_def)
qed

section \<open>Words of a text\<close>

text \<open>The pieces of a text between delimiters, the empty ones included.\<close>

fun pieces :: "string \<Rightarrow> string \<Rightarrow> string list" where
  "pieces d [] = [[]]"
| "pieces d (c # s) = (if c \<in> set d then [] # pieces d s else case pieces d s of [] \<Rightarrow> [[c]] | w # ws \<Rightarrow> (c # w) # ws)"

definition words :: "string \<Rightarrow> string \<Rightarrow> string list" where
  "words d s = filter (\<lambda>w. w \<noteq> []) (pieces d s)"

lemma pieces_nonempty [simp]: "pieces d s \<noteq> []"
  by (cases s) (simp_all split: list.split)

lemma words_skip: "words d s = words d (dropWhile (\<lambda>c. c \<in> set d) s)"
  by (induction s) (auto simp: words_def)

lemma pieces_word: "pieces d s = takeWhile (\<lambda>c. c \<notin> set d) s #
   (case dropWhile (\<lambda>c. c \<notin> set d) s of [] \<Rightarrow> [] | _ # r \<Rightarrow> pieces d r)"
  by (induction s) auto

lemma words_first:
  assumes "c \<notin> set d"
  shows "words d (c # s) = (c # takeWhile (\<lambda>c. c \<notin> set d) s) # words d (tl (dropWhile (\<lambda>c. c \<notin> set d) s))"
  using assms pieces_word [of d "c # s"]
  by (cases "dropWhile (\<lambda>c. c \<notin> set d) s") (simp_all add: words_def del: pieces.simps(2) dropWhile_eq_Nil_conv)

lemma cstr_token_step:
  assumes "str = p @ s @ NUL # z" "no_nul s" "length p = i"
  shows "cstr_token str d (Some i) =
    (case dropWhile (\<lambda>c. c \<in> set d) s of
       [] \<Rightarrow> None
     | c # t \<Rightarrow> Some (i + length (takeWhile (\<lambda>c. c \<in> set d) s), i + length (takeWhile (\<lambda>c. c \<in> set d) s) + 1 + length (takeWhile (\<lambda>c. c \<notin> set d) t)))"
  using assms by (cases "dropWhile (\<lambda>c. c \<in> set d) s") (simp_all add: cstr_token_def Let_def del: dropWhile_eq_Nil_conv)

text \<open>Calling \<^verbatim>\<open>str_token\<close> until it returns the null pointer; the words are read before the next call.\<close>

fun str_tokens :: "nat \<Rightarrow> cbuf \<Rightarrow> string \<Rightarrow> nat option \<Rightarrow> string list outcome" where
  "str_tokens 0 str d ctx = Loops"
| "str_tokens (Suc fuel) str d ctx =
     (case str_token str d ctx of
        (None, _, _) \<Rightarrow> Val []
      | (Some t, str', ctx') \<Rightarrow> omap (Cons (cstr_of (drop t str'))) (str_tokens fuel str' d ctx'))"

lemma str_tokens_words:
  "no_nul s \<Longrightarrow> NUL \<notin> set d \<Longrightarrow> length s < fuel \<Longrightarrow> str_tokens fuel (p @ s @ NUL # z) d (Some (length p)) = Val (words d s)"
proof (induction fuel arbitrary: p s)
  case (Suc fuel)
  define sk where "sk = takeWhile (\<lambda>c. c \<in> set d) s"
  have s: "s = sk @ dropWhile (\<lambda>c. c \<in> set d) s" by (simp add: sk_def)
  show ?case
  proof (cases "dropWhile (\<lambda>c. c \<in> set d) s")
    case Nil
    then have "words d s = []" unfolding words_skip [of d s] Nil by (simp add: words_def)
    moreover have "cstr_token (p @ s @ NUL # z) d (Some (length p)) = None"
      unfolding cstr_token_step [of _ p s z, OF refl Suc.prems(1) refl, of d] Nil by simp
    ultimately show ?thesis by (simp add: str_token_def)
  next
    case (Cons c t)
    define w where "w = takeWhile (\<lambda>c. c \<notin> set d) t"
    have c: "c \<notin> set d" using Cons by (metis dropWhile_eq_Cons_conv)
    have sp: "s = sk @ c # t" using s unfolding Cons .
    have wd: "words d s = (c # w) # words d (tl (dropWhile (\<lambda>c. c \<notin> set d) t))"
      unfolding words_skip [of d s] Cons w_def by (rule words_first [OF c])
    have nn: "no_nul (c # w)" "no_nul t" using Suc.prems(1) unfolding sp w_def by simp_all
    let ?q = "length p + length sk + 1 + length w"
    have tk: "cstr_token (p @ s @ NUL # z) d (Some (length p)) = Some (length p + length sk, ?q)"
      unfolding cstr_token_step [of _ p s z, OF refl Suc.prems(1) refl, of d] Cons by (simp add: sk_def w_def)
    show ?thesis
    proof (cases "dropWhile (\<lambda>c. c \<notin> set d) t")
      case Nil
      then have t: "t = w" unfolding w_def by (metis append_Nil2 takeWhile_dropWhile_id)
      have b: "p @ s @ NUL # z = (p @ sk) @ (c # w) @ NUL # z" using sp t by simp
      have "str_token (p @ s @ NUL # z) d (Some (length p)) = (Some (length p + length sk), p @ s @ NUL # z, Some ?q)"
        using tk unfolding str_token_def b by (simp add: nth_append)
      moreover have "str_tokens fuel ((p @ s) @ [] @ NUL # z) d (Some (length (p @ s))) = Val (words d [])"
        using Suc by (intro Suc.IH) (auto simp: no_nul_def sp)
      moreover have "cstr_of (drop (length p + length sk) (p @ s @ NUL # z)) = c # w" unfolding b using cstr_of_append_NUL [OF nn(1), of z] by simp
      moreover have "length (p @ s) = ?q" unfolding sp t by simp
      ultimately show ?thesis using wd Nil by (simp add: words_def add.assoc)
    next
      case (Cons e r)
      have t: "t = w @ e # r" unfolding w_def using Cons by (metis takeWhile_dropWhile_id)
      have b: "p @ s @ NUL # z = (p @ sk @ c # w) @ e # r @ NUL # z" using sp t by simp
      let ?b = "(p @ sk @ c # w) @ NUL # r @ NUL # z"
      have e: "e \<noteq> NUL" "no_nul r" using nn(2) unfolding t by simp_all
      have "str_token (p @ s @ NUL # z) d (Some (length p)) = (Some (length p + length sk), ?b, Some (?q + 1))"
        using tk e(1) unfolding str_token_def b by (simp add: nth_append list_update_append)
      moreover have "str_tokens fuel ((p @ sk @ c # w @ [NUL]) @ r @ NUL # z) d (Some (length (p @ sk @ c # w @ [NUL]))) = Val (words d r)"
        using Suc.prems e(2) unfolding sp t by (intro Suc.IH) auto
      moreover have "cstr_of (drop (length p + length sk) ?b) = c # w"
        using cstr_of_append_NUL [OF nn(1), of "r @ NUL # z"] by simp
      ultimately show ?thesis using wd Cons by (simp add: add.assoc)
    qed
  qed
qed simp


text \<open>
  Words of a text: calling \<^verbatim>\<open>str_token\<close> until it returns the null pointer gives the maximal runs of characters
  that are not delimiters, in order; there are never more calls than characters and one more.
\<close>

theorem str_token_gives_words:
  assumes "no_nul s" "NUL \<notin> set d" "length s < fuel"
  shows "str_tokens fuel (s @ NUL # z) d None = Val (words d s)"
proof -
  have "cstr_token str d None = cstr_token str d (Some 0)" for str by (simp add: cstr_token_def)
  then have "str_tokens fuel str d None = str_tokens fuel str d (Some 0)" for str
    by (cases fuel) (auto simp: str_token_def split: option.split)
  with str_tokens_words [OF assms, of "[]" z] show ?thesis by simp
qed

theorem str_token_gives_words_witness:
  "str_tokens 20 (''  ssid=a bssid=b '' @ [NUL]) '' '' None = Val [''ssid=a'', ''bssid=b'']"
  using str_token_gives_words [of "''  ssid=a bssid=b ''" "'' ''" 20 "[]"] by (simp add: words_def)

section \<open>Escaped quotes read back\<close>

fun esc_len :: "string \<Rightarrow> nat" where
  "esc_len [] = 0"
| "esc_len (c # s) = (if c = BSL \<or> c = SQ then 2 else 1) + esc_len s"

lemma escape_loop_fits:
  "esc_len s \<le> room \<Longrightarrow> \<exists>t. escape_loop room s = (t, Some (esc_len s < room)) \<and> length t = esc_len s \<and> (t = [] \<longleftrightarrow> s = []) \<and> (t \<noteq> [] \<longrightarrow> hd t \<noteq> SQ) \<and>
     (\<forall>r. length s \<le> r \<longrightarrow> unescape_loop r t = (s, Some (length s < r)))"
proof (induction s arbitrary: room)
  case (Cons c s)
  let ?k = "if c = BSL \<or> c = SQ then 2 else 1 :: nat"
  from Cons.prems have "esc_len s \<le> room - ?k" by simp
  from Cons.IH [OF this] obtain t where t: "escape_loop (room - ?k) s = (t, Some (esc_len s < room - ?k))" "length t = esc_len s"
    and u: "\<And>r. length s \<le> r \<Longrightarrow> unescape_loop r t = (s, Some (length s < r))" by blast
  have "unescape_loop r ((if c = BSL \<or> c = SQ then [BSL, c] else [c]) @ t) = (c # s, Some (length (c # s) < r))" if "length (c # s) \<le> r" for r
    using u [of "r - 1"] that by (cases r) (auto simp: Suc_less_eq2)
  with Cons.prems t show ?case by (intro exI [of _ "(if c = BSL \<or> c = SQ then [BSL, c] else [c]) @ t"]) (auto split: if_splits)
qed simp

lemma take_put_at: "length t \<le> length b \<Longrightarrow> take (length t) (put_at b 0 (t @ e)) = t"
  by (simp add: put_at_def memwrite_def)

text \<open>
  Escaped quotes: a text whose escaped form fits the buffer is escaped to that form, and unescaping the bytes written
  gives the text back.
\<close>

theorem utf8_escape_round_trip:
  assumes "s \<noteq> []" "esc_len s \<le> length b1" "length s \<le> length b2"
  shows "\<exists>n b b'. utf8_escape (Some s) (length s) (Some b1) = (n, Some b) \<and> n = esc_len s \<and>
    utf8_unescape (Some b) n (Some b2) = (length s, Some b') \<and> take (length s) b' = s"
proof -
  from escape_loop_fits [OF assms(2)] obtain t z where t: "escape_loop (length b1) s = (t, Some z)" "length t = esc_len s" "t \<noteq> []" "hd t \<noteq> SQ"
    and u: "unescape_loop (length b2) t = (s, Some (length s < length b2))" using assms(1,3) by blast
  let ?b = "put_at b1 0 (t @ (if z then [NUL] else []))"
  have e: "utf8_escape (Some s) (length s) (Some b1) = (length t, Some ?b)"
    using assms(1) t(1) by (simp add: utf8_escape_def store_text_def)
  have tk: "take (length t) ?b = t" using assms(2) t(2) by (intro take_put_at) simp
  have "at0 t \<noteq> SQ" using t(3,4) by (cases t) auto
  then have "utf8_unescape (Some ?b) (length t) (Some b2) = (length s, Some (put_at b2 0 (s @ (if length s < length b2 then [NUL] else []))))"
    using t(3) tk u by (simp add: utf8_unescape_def store_text_def)
  with e t(2) take_put_at [OF assms(3)] show ?thesis by auto
qed

theorem utf8_escape_round_trip_witness:
  "\<exists>n b b'. utf8_escape (Some ''it's'') (length ''it's'') (Some (replicate 8 NUL)) = (n, Some b) \<and>
     utf8_unescape (Some b) n (Some (replicate 4 NUL)) = (length ''it's'', Some b') \<and> take (length ''it's'') b' = ''it's''"
proof -
  have "''it's'' \<noteq> []" "esc_len ''it's'' \<le> length (replicate 8 NUL)" "length ''it's'' \<le> length (replicate 4 NUL)" by simp_all
  from utf8_escape_round_trip [OF this] show ?thesis by blast
qed

end
