(* ===== verification/Ctrl_Iface_Sock.thy ===== *)
theory Ctrl_Iface_Sock
  imports Wpa_Ctrl
begin

text \<open>
  Opening, reopening and closing the sockets of the daemon, \<^verbatim>\<open>wpa_supplicant/ctrl_iface_unix.c\<close> in a build for Linux
  without Android. The operating system is the record \<open>sys\<close>: the named sockets and directories, the abstract names of sockets, the open descriptors and
  those the event loop reads, and whether the timer of the queue is registered. A call fails when its own condition does not hold (binding to a name that exists, removing
  a directory that is not empty) or when the script \<open>sys_fails\<close> says so. A node \<open>Foreign\<close> is the socket of another
  process; the flag says whether a connection to it is accepted. A \<open>Stale\<close> socket is one whose process has gone.
  The database of groups is the argument \<open>groups\<close>.
\<close>

datatype errno = ENOENT | EPERM | ENOBUFS | EAGAIN | Other_errno

datatype sockaddr = Sun string | Other_family

datatype wpa_msg_type = WPA_MSG_PER_INTERFACE | WPA_MSG_GLOBAL | WPA_MSG_NO_GLOBAL | WPA_MSG_ONLY_GLOBAL

record wpa_ctrl_dst =
  d_addr :: sockaddr
  d_level :: int
  d_errors :: nat

record iface_conf =
  conf_ctrl :: "string option"
  conf_group :: "string option"
  conf_ifname :: string

record ctrl_iface_msg =
  m_wpa_s :: string
  m_level :: int
  m_type :: wpa_msg_type
  m_txt :: string

text \<open>
  The record of an interface and that of the global interface, which has the same fields; \<open>ci_global\<close> tells them
  apart and \<open>ci_conf\<close> stands for the configuration behind \<^verbatim>\<open>wpa_s\<close> or \<^verbatim>\<open>global\<close>.
\<close>

record ctrl_iface_priv =
  ci_conf :: iface_conf
  ci_global :: bool
  ci_sock :: int
  ci_dst :: "wpa_ctrl_dst list"
  ci_android :: bool
  ci_queue :: "ctrl_iface_msg list"
  ci_throttle :: nat

section \<open>The operating system\<close>

datatype kind = Dir | Sock_of int | Foreign bool | Stale

record node =
  n_kind :: kind
  n_group :: "int option"
  n_mode :: "nat option"

record sys =
  sys_nodes :: "(string \<times> node) list"
  sys_abstract :: "(string \<times> int) list"
  sys_fails :: "bool list"
  sys_fds :: "int list"
  sys_next :: int
  sys_reads :: "int list"
  sys_msg_cb :: bool
  queue_timer :: bool

definition look :: "string \<Rightarrow> 'z sys_scheme \<Rightarrow> node option" where
  "look q s = map_of (sys_nodes s) q"

definition del_node :: "string \<Rightarrow> 'z sys_scheme \<Rightarrow> 'z sys_scheme" where
  "del_node q s = s\<lparr>sys_nodes := filter (\<lambda>(p, n). p \<noteq> q) (sys_nodes s)\<rparr>"

definition put_node :: "string \<Rightarrow> node \<Rightarrow> 'z sys_scheme \<Rightarrow> 'z sys_scheme" where
  "put_node q n s = s\<lparr>sys_nodes := (q, n) # filter (\<lambda>(p, n). p \<noteq> q) (sys_nodes s)\<rparr>"

definition new_node :: "kind \<Rightarrow> node" where
  "new_node k = \<lparr>n_kind = k, n_group = None, n_mode = None\<rparr>"

definition kind_of :: "string \<Rightarrow> 'z sys_scheme \<Rightarrow> kind option" where
  "kind_of q s = map_option n_kind (look q s)"

definition sys_fail :: "'z sys_scheme \<Rightarrow> bool \<times> 'z sys_scheme" where
  "sys_fail s = (case sys_fails s of [] \<Rightarrow> (False, s) | f # fs \<Rightarrow> (f, s\<lparr>sys_fails := fs\<rparr>))"

definition sys_call :: "('z sys_scheme \<Rightarrow> bool) \<Rightarrow> ('z sys_scheme \<Rightarrow> 'z sys_scheme) \<Rightarrow> 'z sys_scheme \<Rightarrow> bool \<times> 'z sys_scheme" where
  "sys_call possible effect s = (case sys_fail s of (f, s) \<Rightarrow> if f \<or> \<not> possible s then (False, s) else (True, effect s))"

text \<open>\<^verbatim>\<open>mkdir\<close>, taking an existing file for success as the caller does.\<close>

definition sys_mkdir :: "string \<Rightarrow> 'z sys_scheme \<Rightarrow> bool \<times> 'z sys_scheme" where
  "sys_mkdir d = sys_call (\<lambda>s. True) (\<lambda>s. if look d s = None then put_node d (new_node Dir) s else s)"

definition sys_chown :: "string \<Rightarrow> int \<Rightarrow> 'z sys_scheme \<Rightarrow> bool \<times> 'z sys_scheme" where
  "sys_chown q gid = sys_call (\<lambda>s. look q s \<noteq> None) (\<lambda>s. put_node q ((the (look q s))\<lparr>n_group := Some gid\<rparr>) s)"

definition sys_chmod :: "string \<Rightarrow> nat \<Rightarrow> 'z sys_scheme \<Rightarrow> bool \<times> 'z sys_scheme" where
  "sys_chmod q m = sys_call (\<lambda>s. look q s \<noteq> None) (\<lambda>s. put_node q ((the (look q s))\<lparr>n_mode := Some m\<rparr>) s)"

definition sys_bind :: "int \<Rightarrow> string \<Rightarrow> 'z sys_scheme \<Rightarrow> bool \<times> 'z sys_scheme" where
  "sys_bind fd q = sys_call (\<lambda>s. look q s = None) (put_node q (new_node (Sock_of fd)))"

definition sys_bind_abstract :: "int \<Rightarrow> string \<Rightarrow> 'z sys_scheme \<Rightarrow> bool \<times> 'z sys_scheme" where
  "sys_bind_abstract fd q =
     sys_call (\<lambda>s. map_of (sys_abstract s) q = None) (\<lambda>s. s\<lparr>sys_abstract := (q, fd) # sys_abstract s\<rparr>)"

definition sys_connects :: "string \<Rightarrow> 'z sys_scheme \<Rightarrow> bool" where
  "sys_connects q s = (case kind_of q s of Some (Foreign open) \<Rightarrow> open | Some (Sock_of fd) \<Rightarrow> True | _ \<Rightarrow> False)"

definition sys_unlink :: "string \<Rightarrow> 'z sys_scheme \<Rightarrow> bool \<times> 'z sys_scheme" where
  "sys_unlink q = sys_call (\<lambda>s. kind_of q s \<noteq> None \<and> kind_of q s \<noteq> Some Dir) (del_node q)"

definition sys_rmdir :: "string \<Rightarrow> 'z sys_scheme \<Rightarrow> bool \<times> 'z sys_scheme" where
  "sys_rmdir d = sys_call (\<lambda>s. kind_of d s = Some Dir \<and> \<not> list_ex (\<lambda>(p, n). is_prefix (d @ ''/'') p) (sys_nodes s)) (del_node d)"

definition sys_socket :: "'z sys_scheme \<Rightarrow> int \<times> 'z sys_scheme" where
  "sys_socket s = (case sys_fail s of (f, s) \<Rightarrow>
     if f then (-1, s) else (sys_next s, s\<lparr>sys_fds := sys_next s # sys_fds s, sys_next := sys_next s + 1\<rparr>))"

text \<open>Closing a socket leaves its file behind; an abstract name, which is not in the file system, disappears.\<close>

definition sys_close :: "int \<Rightarrow> 'z sys_scheme \<Rightarrow> 'z sys_scheme" where
  "sys_close fd s = s\<lparr>sys_fds := remove1 fd (sys_fds s),
     sys_nodes := map (\<lambda>(p, n). (p, if n_kind n = Sock_of fd then n\<lparr>n_kind := Stale\<rparr> else n)) (sys_nodes s),
     sys_abstract := filter (\<lambda>(p, f). f \<noteq> fd) (sys_abstract s)\<rparr>"

definition register_read :: "int \<Rightarrow> 'z sys_scheme \<Rightarrow> 'z sys_scheme" where
  "register_read fd s = s\<lparr>sys_reads := fd # sys_reads s\<rparr>"

definition unregister_read :: "int \<Rightarrow> 'z sys_scheme \<Rightarrow> 'z sys_scheme" where
  "unregister_read fd s = s\<lparr>sys_reads := remove1 fd (sys_reads s)\<rparr>"

section \<open>The socket of an interface\<close>

definition split_dir :: "string \<Rightarrow> string \<times> string option" where
  "split_dir dir = (case os_strstr dir '' GROUP='' of None \<Rightarrow> (dir, None) | Some r \<Rightarrow> (take (length dir - length r) dir, Some (drop 7 r)))"

definition ctrl_dir :: "string \<Rightarrow> string" where
  "ctrl_dir ctrl_interface = (if str_starts ctrl_interface ''DIR='' then fst (split_dir (drop 4 ctrl_interface)) else ctrl_interface)"

definition wpa_supplicant_ctrl_iface_path :: "iface_conf \<Rightarrow> string option" where
  "wpa_supplicant_ctrl_iface_path conf =
     (case conf_ctrl conf of
        None \<Rightarrow> None
      | Some c \<Rightarrow>
          let dir = ctrl_dir c; len = length dir + length (conf_ifname conf) + 2; txt = dir @ ''/'' @ conf_ifname conf
          in if os_snprintf_error len (int (length txt)) then None else Some txt)"

definition LONG_MAX :: int where "LONG_MAX = 2 ^ 63 - 1"

definition strtol10 :: "string \<Rightarrow> int \<times> string" where
  "strtol10 s =
     (let r = dropWhile c_isspace s; neg = (take 1 r = ''-''); d = (if neg \<or> take 1 r = ''+'' then drop 1 r else r);
          v = (if neg then - digits_val 0 d else digits_val 0 d)
      in if takeWhile c_isdigit d = [] then (0, s) else (max (- LONG_MAX - 1) (min LONG_MAX v), dropWhile c_isdigit d))"

text \<open>The group a name stands for; the outer option is absent when the name is neither a group nor a number.\<close>

definition resolve_gid :: "(string \<Rightarrow> int option) \<Rightarrow> string option \<Rightarrow> int option option" where
  "resolve_gid groups gid_str =
     (case gid_str of
        None \<Rightarrow> Some None
      | Some g \<Rightarrow>
          (case groups g of
             Some gid \<Rightarrow> Some (Some gid)
           | None \<Rightarrow> (case strtol10 g of (v, endp) \<Rightarrow> if g = [] \<or> endp \<noteq> [] then None else Some (Some (v mod 2 ^ 32)))))"

definition group_dir :: "string \<Rightarrow> int option \<Rightarrow> 'z sys_scheme \<Rightarrow> bool \<times> 'z sys_scheme" where
  "group_dir dir gid s =
     (case gid of
        None \<Rightarrow> (True, s)
      | Some g \<Rightarrow> (case sys_chown dir g s of (ok, s) \<Rightarrow> if \<not> ok then (False, s) else sys_chmod dir 488 s))"

datatype bind_result = Bound | In_use | Bind_failed

text \<open>
  Binding, with the attempt to tell a socket in use from one left over: \<open>file\<close> is the name that is removed, which for
  the global interface need not be the name \<open>path\<close> that is bound.
\<close>

definition bind_or_replace :: "int \<Rightarrow> string \<Rightarrow> string \<Rightarrow> 'z sys_scheme \<Rightarrow> bind_result \<times> 'z sys_scheme" where
  "bind_or_replace fd path file_name s =
     (case sys_bind fd path s of
        (True, s) \<Rightarrow> (Bound, s)
      | (False, s) \<Rightarrow>
          if \<not> sys_connects path s then
            (case sys_unlink file_name s of
               (False, s) \<Rightarrow> (Bind_failed, s)
             | (True, s) \<Rightarrow> (case sys_bind fd path s of (ok, s) \<Rightarrow> (if ok then Bound else Bind_failed, s)))
          else (In_use, s))"

definition open_fail :: "string option \<Rightarrow> ctrl_iface_priv \<Rightarrow> 'z sys_scheme \<Rightarrow> int \<times> ctrl_iface_priv \<times> 'z sys_scheme" where
  "open_fail fname priv s =
     (let (priv, s) = (if ci_sock priv \<ge> 0 then (priv\<lparr>ci_sock := -1\<rparr>, sys_close (ci_sock priv) s) else (priv, s))
      in (-1, priv, case fname of None \<Rightarrow> s | Some f \<Rightarrow> snd (sys_unlink f s)))"

text \<open>The group and the mode of the socket file.\<close>

definition finish_file :: "string \<Rightarrow> int option \<Rightarrow> 'z sys_scheme \<Rightarrow> bool \<times> 'z sys_scheme" where
  "finish_file fname gid s =
     (case (case gid of None \<Rightarrow> (True, s) | Some g \<Rightarrow> sys_chown fname g s) of
        (ok, s) \<Rightarrow> if \<not> ok then (False, s) else sys_chmod fname 504 s)"

text \<open>The directory of the sockets and the group it is for.\<close>

definition open_target :: "iface_conf \<Rightarrow> string \<times> string option" where
  "open_target conf =
     (let c = the (conf_ctrl conf) in if str_starts c ''DIR='' then split_dir (drop 4 c) else (c, conf_group conf))"

text \<open>The second half of \<^verbatim>\<open>wpas_ctrl_iface_open_sock\<close>, once the directory is there: from \<^verbatim>\<open>socket\<close> on.\<close>

definition open_named :: "int option \<Rightarrow> ctrl_iface_priv \<Rightarrow> 'z sys_scheme \<Rightarrow> int \<times> ctrl_iface_priv \<times> 'z sys_scheme" where
  "open_named gid priv s =
     (let (fd, s) = sys_socket s; priv = priv\<lparr>ci_sock := fd\<rparr>
      in if fd < 0 then open_fail None priv s
         else case wpa_supplicant_ctrl_iface_path (ci_conf priv) of
             None \<Rightarrow> open_fail None priv s
           | Some fname \<Rightarrow>
               (case bind_or_replace fd (take (SUN_PATH_LEN - 1) fname) fname s of
                  (In_use, s) \<Rightarrow> open_fail None priv s
                | (Bind_failed, s) \<Rightarrow> open_fail (Some fname) priv s
                | (Bound, s) \<Rightarrow>
                    (case finish_file fname gid s of
                       (False, s) \<Rightarrow> open_fail (Some fname) priv s
                     | (True, s) \<Rightarrow> (0, priv, (register_read fd s)\<lparr>sys_msg_cb := True\<rparr>))))"

definition wpas_ctrl_iface_open_sock :: "(string \<Rightarrow> int option) \<Rightarrow> ctrl_iface_priv \<Rightarrow> 'z sys_scheme \<Rightarrow> int \<times> ctrl_iface_priv \<times> 'z sys_scheme" where
  "wpas_ctrl_iface_open_sock groups priv s =
     (let (dir, gid_str) = open_target (ci_conf priv)
      in case sys_mkdir dir s of
           (False, s) \<Rightarrow> open_fail None priv s
         | (True, s) \<Rightarrow>
             (case resolve_gid groups gid_str of
                None \<Rightarrow> open_fail None priv s
              | Some gid \<Rightarrow>
                  (case group_dir dir gid s of
                     (False, s) \<Rightarrow> open_fail None priv s
                   | (True, s) \<Rightarrow>
                       if length dir + 1 + length (conf_ifname (ci_conf priv)) \<ge> SUN_PATH_LEN then open_fail None priv s
                       else open_named gid priv s)))"

definition new_priv :: "bool \<Rightarrow> iface_conf \<Rightarrow> ctrl_iface_priv" where
  "new_priv global conf =
     \<lparr>ci_conf = conf, ci_global = global, ci_sock = -1, ci_dst = [], ci_android = False, ci_queue = [], ci_throttle = 0\<rparr>"

definition wpa_supplicant_ctrl_iface_init :: "(string \<Rightarrow> int option) \<Rightarrow> iface_conf \<Rightarrow> 'z sys_scheme \<Rightarrow> ctrl_iface_priv option \<times> 'z sys_scheme" where
  "wpa_supplicant_ctrl_iface_init groups conf s =
     (if conf_ctrl conf = None then (Some (new_priv False conf), s)
      else case wpas_ctrl_iface_open_sock groups (new_priv False conf) s of
          (r, priv, s) \<Rightarrow> (if r < 0 then None else Some priv, s))"

section \<open>The global socket\<close>

definition abstract_name :: "string \<Rightarrow> string" where
  "abstract_name ctrl = take (SUN_PATH_LEN - 2) (drop 10 ctrl)"

text \<open>The group and the mode of the file of the global socket; a failing \<^verbatim>\<open>chmod\<close> counts only when a group was asked for.\<close>

definition finish_global :: "(string \<Rightarrow> int option) \<Rightarrow> string option \<Rightarrow> string \<Rightarrow> 'z sys_scheme \<Rightarrow> bool \<times> 'z sys_scheme" where
  "finish_global groups grp ctrl s =
     (case grp of
        None \<Rightarrow> (True, snd (sys_chmod ctrl 448 s))
      | Some g \<Rightarrow>
          (case resolve_gid groups (Some g) of
             None \<Rightarrow> (False, s)
           | Some gid \<Rightarrow> (case sys_chown ctrl (the gid) s of (ok, s) \<Rightarrow> if \<not> ok then (False, s) else sys_chmod ctrl 504 s)))"

definition wpas_global_ctrl_iface_open_sock :: "(string \<Rightarrow> int option) \<Rightarrow> ctrl_iface_priv \<Rightarrow> 'z sys_scheme \<Rightarrow> int \<times> ctrl_iface_priv \<times> 'z sys_scheme" where
  "wpas_global_ctrl_iface_open_sock groups priv s =
     (let ctrl = the (conf_ctrl (ci_conf priv)); (fd, s) = sys_socket s; priv = priv\<lparr>ci_sock := fd\<rparr>
      in if fd < 0 then open_fail None priv s
         else
           let (ok, s) =
             (if str_starts ctrl ''@abstract:'' then sys_bind_abstract fd (abstract_name ctrl) s
              else case bind_or_replace fd (take (SUN_PATH_LEN - 1) ctrl) ctrl s of
                  (Bound, s) \<Rightarrow> finish_global groups (conf_group (ci_conf priv)) ctrl s
                | (_, s) \<Rightarrow> (False, s))
           in if ok then (0, priv, register_read fd s) else open_fail None priv s)"

definition wpa_supplicant_global_ctrl_iface_init ::
  "(string \<Rightarrow> int option) \<Rightarrow> iface_conf \<Rightarrow> 'z sys_scheme \<Rightarrow> ctrl_iface_priv option \<times> 'z sys_scheme" where
  "wpa_supplicant_global_ctrl_iface_init groups conf s =
     (if conf_ctrl conf = None then (Some (new_priv True conf), s)
      else case wpas_global_ctrl_iface_open_sock groups (new_priv True conf) s of
          (r, priv, s) \<Rightarrow> if r < 0 then (None, s) else (Some priv, s\<lparr>sys_msg_cb := True\<rparr>))"

section \<open>Opening again and closing\<close>

definition reopen_sock :: "(string \<Rightarrow> int option) \<Rightarrow> ctrl_iface_priv \<Rightarrow> 'z sys_scheme \<Rightarrow> int \<times> ctrl_iface_priv \<times> 'z sys_scheme" where
  "reopen_sock groups priv =
     (if ci_global priv then wpas_global_ctrl_iface_open_sock groups priv else wpas_ctrl_iface_open_sock groups priv)"

text \<open>\<^verbatim>\<open>wpas_ctrl_iface_reinit\<close> and \<^verbatim>\<open>wpas_ctrl_iface_global_reinit\<close>.\<close>

definition wpas_ctrl_iface_reinit :: "(string \<Rightarrow> int option) \<Rightarrow> ctrl_iface_priv \<Rightarrow> 'z sys_scheme \<Rightarrow> int \<times> ctrl_iface_priv \<times> 'z sys_scheme" where
  "wpas_ctrl_iface_reinit groups priv s =
     (if ci_sock priv \<le> 0 then (-1, priv, s)
      else if ci_android priv then (ci_sock priv, priv, s)
      else case reopen_sock groups (priv\<lparr>ci_sock := -1\<rparr>) (sys_close (ci_sock priv) (unregister_read (ci_sock priv) s)) of
          (res, priv, s) \<Rightarrow> (if res < 0 then -1 else ci_sock priv, priv, s))"

text \<open>
  The end of an interface: the monitors and its queue go with the record, its messages leave the queue of the
  global interface and the timer of the queue is cancelled.
\<close>

definition wpa_supplicant_ctrl_iface_deinit ::
  "ctrl_iface_priv \<Rightarrow> ctrl_iface_priv option \<Rightarrow> 'z sys_scheme \<Rightarrow> ctrl_iface_priv option \<times> 'z sys_scheme" where
  "wpa_supplicant_ctrl_iface_deinit priv gpriv s =
     (let s =
        (if ci_sock priv > -1 then
           let s = sys_close (ci_sock priv) (unregister_read (ci_sock priv) s);
               s = (case wpa_supplicant_ctrl_iface_path (ci_conf priv) of None \<Rightarrow> s | Some f \<Rightarrow> snd (sys_unlink f s))
           in case conf_ctrl (ci_conf priv) of None \<Rightarrow> s | Some c \<Rightarrow> snd (sys_rmdir (ctrl_dir c) s)
         else s)
      in (map_option (\<lambda>g. g\<lparr>ci_queue := filter (\<lambda>m. m_wpa_s m \<noteq> conf_ifname (ci_conf priv)) (ci_queue g)\<rparr>) gpriv, s\<lparr>queue_timer := False\<rparr>))"

definition wpa_supplicant_global_ctrl_iface_deinit :: "ctrl_iface_priv \<Rightarrow> 'z sys_scheme \<Rightarrow> 'z sys_scheme" where
  "wpa_supplicant_global_ctrl_iface_deinit priv s =
     (let s = (if ci_sock priv \<ge> 0 then sys_close (ci_sock priv) (unregister_read (ci_sock priv) s) else s)
      in case conf_ctrl (ci_conf priv) of None \<Rightarrow> s | Some c \<Rightarrow> snd (sys_unlink c s))"


section \<open>Names and descriptors\<close>

lemma look_put [simp]: "look q (put_node p n s) = (if q = p then Some n else look q s)"
proof -
  have "q \<noteq> p \<Longrightarrow> map_of (filter (\<lambda>(x, y). x \<noteq> p) xs) q = map_of xs q" for xs :: "(string \<times> node) list" by (induction xs) auto
  then show ?thesis by (simp add: look_def put_node_def)
qed

lemma look_del [simp]: "look q (del_node p s) = (if q = p then None else look q s)"
proof -
  have "map_of (filter (\<lambda>(x, y). x \<noteq> p) xs) q = (if q = p then None else map_of xs q)" for xs :: "(string \<times> node) list" by (induction xs) auto
  then show ?thesis by (simp add: look_def del_node_def)
qed

lemma node_fields [simp]:
  "sys_fds (put_node q n s) = sys_fds s" "sys_reads (put_node q n s) = sys_reads s"
  "sys_fds (del_node q s) = sys_fds s" "sys_reads (del_node q s) = sys_reads s"
  "sys_next (put_node q n s) = sys_next s" "sys_next (del_node q s) = sys_next s"
  by (simp_all add: put_node_def del_node_def)

text \<open>What a step on the file system leaves alone: the descriptors, and sockets of other processes that accept connections.\<close>

definition quiet :: "'z sys_scheme \<Rightarrow> 'z sys_scheme \<Rightarrow> bool" where
  "quiet s s' \<longleftrightarrow> sys_fds s' = sys_fds s \<and> sys_reads s' = sys_reads s \<and> (0 \<le> sys_next s \<longrightarrow> 0 \<le> sys_next s') \<and>
     (\<forall>q. kind_of q s = Some (Foreign True) \<longrightarrow> kind_of q s' = Some (Foreign True))"

lemma quiet_refl [simp]: "quiet s s" by (simp add: quiet_def)

lemma quiet_trans: "quiet a b \<Longrightarrow> quiet b c \<Longrightarrow> quiet a c" by (auto simp: quiet_def)

lemma sys_fail_quiet: "sys_fail s = (f, s') \<Longrightarrow> quiet s s' \<and> sys_nodes s' = sys_nodes s"
  by (auto simp: sys_fail_def quiet_def kind_of_def look_def split: list.splits)

lemma sys_call_cases:
  assumes "sys_call P F s = (ok, s')"
  obtains t where "quiet s t" "\<And>q. look q t = look q s" "s' = (if ok then F t else t)" "ok \<longrightarrow> P t"
proof -
  obtain f t where f: "sys_fail s = (f, t)" by fastforce
  from sys_fail_quiet [OF f] have "quiet s t" "\<And>q. look q t = look q s" by (simp_all add: look_def)
  moreover have "s' = (if ok then F t else t)" "ok \<longrightarrow> P t" using assms f by (auto simp: sys_call_def split: if_splits)
  ultimately show ?thesis by (rule that)
qed

lemma sys_call_quiet:
  assumes "sys_call P F s = (ok, s')" "\<And>t. (\<And>q. look q t = look q s) \<Longrightarrow> P t \<Longrightarrow> quiet t (F t)"
  shows "quiet s s'"
proof -
  from assms(1) obtain t where t: "quiet s t" "\<And>q. look q t = look q s" "s' = (if ok then F t else t)" "ok \<longrightarrow> P t" by (rule sys_call_cases) (rule that)
  then show ?thesis using assms(2) [of t] quiet_trans [of s t "F t"] by (cases ok) auto
qed

lemma put_quiet: "kind_of q s \<noteq> Some (Foreign True) \<or> n_kind n = Foreign True \<Longrightarrow> quiet s (put_node q n s)"
  by (auto simp: quiet_def kind_of_def)

lemma del_quiet: "kind_of q s \<noteq> Some (Foreign True) \<Longrightarrow> quiet s (del_node q s)"
  by (auto simp: quiet_def kind_of_def)

lemma sys_mkdir_quiet: "sys_mkdir d s = (ok, s') \<Longrightarrow> quiet s s'"
  unfolding sys_mkdir_def by (erule sys_call_quiet) (auto intro!: put_quiet simp: kind_of_def)

lemma sys_chown_quiet: "sys_chown q g s = (ok, s') \<Longrightarrow> quiet s s' \<and> (ok \<longrightarrow> (\<exists>n. look q s = Some n \<and> look q s' = Some (n\<lparr>n_group := Some g\<rparr>))) \<and> kind_of q s' = kind_of q s"
  unfolding sys_chown_def
  by (rule conjI, erule sys_call_quiet) (auto intro!: put_quiet simp: kind_of_def elim!: sys_call_cases)

lemma sys_chmod_quiet: "sys_chmod q m s = (ok, s') \<Longrightarrow> quiet s s' \<and> (ok \<longrightarrow> (\<exists>n. look q s = Some n \<and> look q s' = Some (n\<lparr>n_mode := Some m\<rparr>))) \<and> kind_of q s' = kind_of q s"
  unfolding sys_chmod_def
  by (rule conjI, erule sys_call_quiet) (auto intro!: put_quiet simp: kind_of_def elim!: sys_call_cases)

lemma sys_bind_quiet: "sys_bind fd q s = (ok, s') \<Longrightarrow> quiet s s' \<and> (ok \<longrightarrow> look q s' = Some (new_node (Sock_of fd))) \<and> (\<not> ok \<longrightarrow> (\<forall>q. look q s' = look q s))"
  unfolding sys_bind_def
  by (rule conjI, erule sys_call_quiet) (auto intro!: put_quiet simp: kind_of_def elim!: sys_call_cases)

lemma sys_unlink_quiet:
  assumes "sys_unlink q s = (ok, s')" "kind_of q s \<noteq> Some (Foreign True)"
  shows "quiet s s' \<and> kind_of q s' \<noteq> Some (Foreign True)"
proof
  note u = assms(1) [unfolded sys_unlink_def]
  show "quiet s s'" using assms(2) by (intro sys_call_quiet [OF u]) (auto intro!: del_quiet simp: kind_of_def)
  show "kind_of q s' \<noteq> Some (Foreign True)" using u assms(2) by (cases ok) (auto simp: kind_of_def elim!: sys_call_cases)
qed

lemma group_dir_quiet: "group_dir d gid s = (ok, s') \<Longrightarrow> quiet s s'"
  by (auto simp: group_dir_def split: option.splits prod.splits if_splits dest!: sys_chown_quiet sys_chmod_quiet dest: quiet_trans)

lemma bind_or_replace_quiet:
  assumes "bind_or_replace fd q q s = (r, s')"
  shows "quiet s s' \<and> (r = Bound \<longrightarrow> look q s' = Some (new_node (Sock_of fd))) \<and> (r = Bind_failed \<longrightarrow> kind_of q s' \<noteq> Some (Foreign True))"
proof -
  obtain ok1 t where b: "sys_bind fd q s = (ok1, t)" by fastforce
  note B = sys_bind_quiet [OF b]
  show ?thesis
  proof (cases "ok1 \<or> sys_connects q t")
    case True
    with assms b B show ?thesis by (cases ok1) (auto simp: bind_or_replace_def)
  next
    case False
    then have k: "kind_of q t \<noteq> Some (Foreign True)" by (auto simp: sys_connects_def)
    obtain ok2 u where u: "sys_unlink q t = (ok2, u)" by fastforce
    note U = sys_unlink_quiet [OF u k]
    obtain ok3 v where v: "sys_bind fd q u = (ok3, v)" by fastforce
    note V = sys_bind_quiet [OF v]
    have "kind_of q v \<noteq> Some (Foreign True)" using V U by (cases ok3) (auto simp: kind_of_def new_node_def)
    with False assms b u v B U V show ?thesis by (auto simp: bind_or_replace_def split: if_splits bool.splits intro: quiet_trans)
  qed
qed

lemma finish_file_quiet:
  assumes "finish_file f gid s = (ok, s')" "look f s = Some (new_node (Sock_of fd))"
  shows "quiet s s' \<and> (ok \<longrightarrow> look f s' = Some \<lparr>n_kind = Sock_of fd, n_group = gid, n_mode = Some 504\<rparr>) \<and> kind_of f s' = Some (Sock_of fd)"
proof -
  have k: "kind_of f s = Some (Sock_of fd)" using assms(2) by (simp add: kind_of_def new_node_def)
  show ?thesis
  proof (cases gid)
    case None
    with assms k sys_chmod_quiet [of f 504 s ok s'] show ?thesis by (auto simp: finish_file_def new_node_def)
  next
    case (Some g)
    obtain ok1 t where c: "sys_chown f g s = (ok1, t)" by fastforce
    from assms k Some c sys_chown_quiet [OF c] show ?thesis
      by (auto simp: finish_file_def new_node_def split: if_splits dest!: sys_chmod_quiet intro: quiet_trans)
  qed
qed

text \<open>Giving up: the descriptor is closed again, and a file of the daemon itself is removed.\<close>

lemma kind_of_close: "kind_of q (sys_close fd s) = map_option (\<lambda>k. if k = Sock_of fd then Stale else k) (kind_of q s)"
proof -
  have "map_option n_kind (map_of (map (\<lambda>(p, n). (p, if n_kind n = Sock_of fd then n\<lparr>n_kind := Stale\<rparr> else n)) xs) q) =
    map_option (\<lambda>k. if k = Sock_of fd then Stale else k) (map_option n_kind (map_of xs q))" for xs :: "(string \<times> node) list"
    by (induction xs) auto
  then show ?thesis by (simp add: kind_of_def look_def sys_close_def)
qed

lemma open_fail_quiet:
  assumes "quiet (s\<lparr>sys_fds := fd # sys_fds s\<rparr>) t" "0 \<le> fd" "\<And>f. fname = Some f \<Longrightarrow> kind_of f t \<noteq> Some (Foreign True)"
  shows "\<exists>t'. open_fail fname (p\<lparr>ci_sock := fd\<rparr>) t = (-1, p\<lparr>ci_sock := -1\<rparr>, t') \<and> quiet s t'"
proof -
  let ?c = "sys_close fd t"
  have c: "quiet s ?c" using assms(1) unfolding quiet_def kind_of_close by (auto simp: sys_close_def kind_of_def look_def)
  show ?thesis
  proof (cases fname)
    case None
    with c assms(2) show ?thesis by (simp add: open_fail_def)
  next
    case (Some f)
    obtain ok t' where u: "sys_unlink f ?c = (ok, t')" by fastforce
    have "kind_of f ?c \<noteq> Some (Foreign True)" using assms(3) [OF Some] by (auto simp: kind_of_close split: if_splits)
    from sys_unlink_quiet [OF u this] c have "quiet s t'" by (auto intro: quiet_trans)
    with Some u assms(2) show ?thesis by (simp add: open_fail_def)
  qed
qed

lemma open_fail_early: "ci_sock p = -1 \<Longrightarrow> open_fail None p t = (-1, p, t)"
  by (simp add: open_fail_def)

lemma sys_socket_cases:
  assumes "sys_socket s = (fd, t)" "0 \<le> sys_next s"
  shows "(fd = -1 \<and> quiet s t) \<or> (0 \<le> fd \<and> quiet (s\<lparr>sys_fds := fd # sys_fds s\<rparr>) t)"
  using assms by (auto simp: sys_socket_def sys_fail_def quiet_def kind_of_def look_def split: prod.splits if_splits list.splits)

lemma path_of_target:
  assumes "conf_ctrl conf = Some c"
  shows "fst (open_target conf) = ctrl_dir c" "wpa_supplicant_ctrl_iface_path conf = Some (ctrl_dir c @ ''/'' @ conf_ifname conf)"
  using assms by (simp_all add: open_target_def ctrl_dir_def wpa_supplicant_ctrl_iface_path_def os_snprintf_error_def)

lemma open_named_outcome:
  assumes "wpa_supplicant_ctrl_iface_path (ci_conf p) = Some f" "length f < SUN_PATH_LEN" "ci_sock p = -1" "0 \<le> sys_next s"
  shows "(\<exists>s'. open_named gid p s = (-1, p, s') \<and> quiet s s') \<or>
    (\<exists>fd s'. open_named gid p s = (0, p\<lparr>ci_sock := fd\<rparr>, s') \<and> 0 \<le> fd \<and> quiet (s\<lparr>sys_fds := fd # sys_fds s, sys_reads := fd # sys_reads s\<rparr>) s' \<and> sys_msg_cb s' \<and>
      look f s' = Some \<lparr>n_kind = Sock_of fd, n_group = gid, n_mode = Some 504\<rparr>)"
proof -
  obtain fd s1 where S: "sys_socket s = (fd, s1)" by fastforce
  have tk: "take (SUN_PATH_LEN - 1) f = f" using assms(2) by simp
  have bk: "p\<lparr>ci_sock := -1\<rparr> = p" using assms(3) by simp
  note gone = open_fail_quiet [where p = p, unfolded bk]
  from sys_socket_cases [OF S assms(4)] show ?thesis
  proof (elim disjE conjE)
    assume "fd = -1" "quiet s s1"
    then show ?thesis using S assms(3) by (simp add: open_named_def open_fail_def)
  next
    assume f0: "0 \<le> fd" and q1: "quiet (s\<lparr>sys_fds := fd # sys_fds s\<rparr>) s1"
    obtain b s2 where B: "bind_or_replace fd f f s1 = (b, s2)" by fastforce
    note bq = bind_or_replace_quiet [OF B]
    have q2: "quiet (s\<lparr>sys_fds := fd # sys_fds s\<rparr>) s2" using q1 bq by (auto intro: quiet_trans)
    show ?thesis
    proof (cases b)
      case bnd: Bound
      obtain ok s3 where F: "finish_file f gid s2 = (ok, s3)" by fastforce
      have lk: "look f s2 = Some (new_node (Sock_of fd))" using bq bnd by simp
      note fq = finish_file_quiet [OF F lk]
      have q3: "quiet (s\<lparr>sys_fds := fd # sys_fds s\<rparr>) s3" using q2 fq by (auto intro: quiet_trans)
      show ?thesis
      proof (cases ok)
        case True
        let ?s = "(register_read fd s3)\<lparr>sys_msg_cb := True\<rparr>"
        have "open_named gid p s = (0, p\<lparr>ci_sock := fd\<rparr>, ?s)" using S f0 assms(1) tk B bnd F True by (simp add: open_named_def)
        moreover have "quiet (s\<lparr>sys_fds := fd # sys_fds s, sys_reads := fd # sys_reads s\<rparr>) ?s"
          using q3 by (auto simp: quiet_def register_read_def kind_of_def look_def)
        moreover have "look f ?s = look f s3" "sys_msg_cb ?s" by (simp_all add: look_def register_read_def)
        ultimately show ?thesis using f0 fq True by metis
      next
        case False
        have "kind_of f s3 \<noteq> Some (Foreign True)" using fq by simp
        with gone [OF q3 f0, of "Some f"] show ?thesis using S f0 assms(1) tk B bnd F False by (auto simp: open_named_def)
      qed
    next
      case In_use
      with gone [OF q2 f0, of None] show ?thesis using S f0 assms(1) tk B by (simp add: open_named_def)
    next
      case Bind_failed
      with gone [OF q2 f0, of "Some f"] bq show ?thesis using S f0 assms(1) tk B by (simp add: open_named_def)
    qed
  qed
qed



section \<open>When nothing fails\<close>

lemma sys_call_ok: "sys_fails s = [] \<Longrightarrow> sys_call P F s = (if P s then (True, F s) else (False, s))"
  by (simp add: sys_call_def sys_fail_def)

lemma sys_socket_ok: "sys_fails s = [] \<Longrightarrow> sys_socket s = (sys_next s, s\<lparr>sys_fds := sys_next s # sys_fds s, sys_next := sys_next s + 1\<rparr>)"
  by (simp add: sys_socket_def sys_fail_def)

lemma fails_node [simp]: "sys_fails (put_node q n s) = sys_fails s" "sys_fails (del_node q s) = sys_fails s"
  by (simp_all add: put_node_def del_node_def)

lemma no_fail_prepare:
  assumes "sys_fails s = []"
  shows "\<exists>t. sys_mkdir d s = (True, t) \<and> sys_fails t = [] \<and> look d t \<noteq> None \<and> sys_next t = sys_next s \<and> (\<forall>q. q \<noteq> d \<longrightarrow> look q t = look q s)"
    and "look d s \<noteq> None \<Longrightarrow> \<exists>t. group_dir d gid s = (True, t) \<and> sys_fails t = [] \<and> sys_next t = sys_next s \<and> (\<forall>q. q \<noteq> d \<longrightarrow> look q t = look q s)"
proof -
  show "\<exists>t. sys_mkdir d s = (True, t) \<and> sys_fails t = [] \<and> look d t \<noteq> None \<and> sys_next t = sys_next s \<and> (\<forall>q. q \<noteq> d \<longrightarrow> look q t = look q s)"
    unfolding sys_mkdir_def sys_call_ok [OF assms] using assms by auto
  show "look d s \<noteq> None \<Longrightarrow> \<exists>t. group_dir d gid s = (True, t) \<and> sys_fails t = [] \<and> sys_next t = sys_next s \<and> (\<forall>q. q \<noteq> d \<longrightarrow> look q t = look q s)"
    using assms by (auto simp: group_dir_def sys_chown_def sys_chmod_def sys_call_ok split: option.splits)
qed

definition replaceable :: "string \<Rightarrow> 'z sys_scheme \<Rightarrow> bool" where
  "replaceable q s \<longleftrightarrow> kind_of q s = None \<or> kind_of q s = Some Stale \<or> kind_of q s = Some (Foreign False)"

lemma bind_or_replace_ok:
  assumes "sys_fails s = []" "replaceable q s"
  shows "\<exists>t. bind_or_replace fd q q s = (Bound, t) \<and> sys_fails t = [] \<and> look q t = Some (new_node (Sock_of fd))"
proof (cases "look q s = None")
  case True
  then show ?thesis using assms by (simp add: bind_or_replace_def sys_bind_def sys_call_ok)
next
  case False
  then have k: "kind_of q s = Some Stale \<or> kind_of q s = Some (Foreign False)" using assms(2) by (auto simp: replaceable_def kind_of_def)
  then have "\<not> sys_connects q s" by (auto simp: sys_connects_def)
  then show ?thesis using assms(1) False k by (auto simp: bind_or_replace_def sys_bind_def sys_unlink_def sys_call_ok)
qed

lemma finish_file_ok: "sys_fails s = [] \<Longrightarrow> look f s \<noteq> None \<Longrightarrow> \<exists>t. finish_file f gid s = (True, t)"
  by (auto simp: finish_file_def sys_chown_def sys_chmod_def sys_call_ok split: option.splits)

text \<open>
  When no call of the operating system fails, the group is known and the name is short enough, opening succeeds
  whenever the name is free or was left over by a daemon that is gone.
\<close>

lemma open_sock_succeeds:
  assumes "conf_ctrl (ci_conf p) = Some c" "resolve_gid groups (snd (open_target (ci_conf p))) \<noteq> None"
    and "length (ctrl_dir c @ ''/'' @ conf_ifname (ci_conf p)) < SUN_PATH_LEN"
    and "sys_fails s = []" "0 \<le> sys_next s" "replaceable (ctrl_dir c @ ''/'' @ conf_ifname (ci_conf p)) s"
  shows "\<exists>s'. wpas_ctrl_iface_open_sock groups p s = (0, p\<lparr>ci_sock := sys_next s\<rparr>, s')"
proof -
  let ?f = "ctrl_dir c @ ''/'' @ conf_ifname (ci_conf p)"
  obtain dir gs where T: "open_target (ci_conf p) = (dir, gs)" by fastforce
  note path = path_of_target [OF assms(1)]
  have dir: "dir = ctrl_dir c" using path(1) T by simp
  then have ne: "?f \<noteq> dir" by simp
  obtain gid where g: "resolve_gid groups gs = Some gid" using assms(2) T by auto
  obtain s1 where M: "sys_mkdir dir s = (True, s1)" "sys_fails s1 = []" "look dir s1 \<noteq> None" "sys_next s1 = sys_next s" "\<forall>q. q \<noteq> dir \<longrightarrow> look q s1 = look q s"
    using no_fail_prepare(1) [OF assms(4)] by blast
  obtain s2 where D: "group_dir dir gid s1 = (True, s2)" "sys_fails s2 = []" "sys_next s2 = sys_next s1" "\<forall>q. q \<noteq> dir \<longrightarrow> look q s2 = look q s1"
    using no_fail_prepare(2) [OF M(2,3)] by blast
  let ?s = "s2\<lparr>sys_fds := sys_next s2 # sys_fds s2, sys_next := sys_next s2 + 1\<rparr>"
  have "replaceable ?f ?s" using assms(6) M(5) D(4) ne by (simp add: replaceable_def kind_of_def look_def)
  then obtain s3 where B: "bind_or_replace (sys_next s) ?f ?f ?s = (Bound, s3)" "sys_fails s3 = []" "look ?f s3 \<noteq> None"
    using bind_or_replace_ok [of ?s ?f "sys_next s"] D(2) by auto
  obtain s4 where F: "finish_file ?f gid s3 = (True, s4)" using finish_file_ok [OF B(2,3)] by blast
  have "open_named gid p s2 = (0, p\<lparr>ci_sock := sys_next s\<rparr>, (register_read (sys_next s) s4)\<lparr>sys_msg_cb := True\<rparr>)"
    using path(2) assms(3,5) sys_socket_ok [OF D(2)] D(3) M(4) B(1) F by (simp add: open_named_def)
  then show ?thesis using T M(1) D(1) g dir assms(3) by (simp add: wpas_ctrl_iface_open_sock_def)
qed

text \<open>Opening again changes nothing of the record but the descriptor.\<close>

lemma open_fail_record: "open_fail f p s = (r, p', s') \<Longrightarrow> p' = p\<lparr>ci_sock := ci_sock p'\<rparr>"
  by (auto simp: open_fail_def split: if_splits prod.splits)

lemma open_named_record: "open_named gid p s = (r, p', s') \<Longrightarrow> p' = p\<lparr>ci_sock := ci_sock p'\<rparr>"
  by (auto simp: open_named_def Let_def split: prod.splits if_splits option.splits bind_result.splits bool.splits dest!: open_fail_record)

lemma global_open_record: "wpas_global_ctrl_iface_open_sock groups p s = (r, p', s') \<Longrightarrow> p' = p\<lparr>ci_sock := ci_sock p'\<rparr>"
  by (auto simp: wpas_global_ctrl_iface_open_sock_def Let_def split: prod.splits if_splits dest!: open_fail_record)

lemma open_sock_record: "wpas_ctrl_iface_open_sock groups p s = (r, p', s') \<Longrightarrow> p' = p\<lparr>ci_sock := ci_sock p'\<rparr>"
  by (auto simp: wpas_ctrl_iface_open_sock_def Let_def split: prod.splits if_splits option.splits bool.splits dest!: open_fail_record open_named_record)

lemma reinit_record: "wpas_ctrl_iface_reinit groups p s = (r, p', s') \<Longrightarrow> p' = p\<lparr>ci_sock := ci_sock p'\<rparr>"
  by (auto simp: wpas_ctrl_iface_reinit_def reopen_sock_def split: prod.splits if_splits dest!: open_sock_record global_open_record)

text \<open>A socket of the daemon that has to be opened again gets its own name back.\<close>

lemma reinit_recovers:
  assumes "\<not> ci_global p" "\<not> ci_android p" "0 < ci_sock p" "conf_ctrl (ci_conf p) = Some c"
    and "resolve_gid groups (snd (open_target (ci_conf p))) \<noteq> None" "length (ctrl_dir c @ ''/'' @ conf_ifname (ci_conf p)) < SUN_PATH_LEN"
    and "sys_fails s = []" "0 \<le> sys_next s" "kind_of (ctrl_dir c @ ''/'' @ conf_ifname (ci_conf p)) s = Some (Sock_of (ci_sock p))"
  shows "\<exists>s'. wpas_ctrl_iface_reinit groups p s = (sys_next s, p\<lparr>ci_sock := sys_next s\<rparr>, s')"
proof -
  let ?s = "sys_close (ci_sock p) (unregister_read (ci_sock p) s)"
  have k: "kind_of q (unregister_read fd s) = kind_of q s" for q fd by (simp add: unregister_read_def kind_of_def look_def)
  have "replaceable (ctrl_dir c @ ''/'' @ conf_ifname (ci_conf p)) ?s" using assms(9) by (simp add: replaceable_def kind_of_close k)
  moreover have "sys_fails ?s = []" "sys_next ?s = sys_next s" using assms(7) by (simp_all add: sys_close_def unregister_read_def)
  ultimately show ?thesis using open_sock_succeeds [of "p\<lparr>ci_sock := -1\<rparr>" c groups ?s] assms
    by (auto simp: wpas_ctrl_iface_reinit_def reopen_sock_def)
qed

section \<open>A start and an end\<close>

definition below :: "string \<Rightarrow> 'z sys_scheme \<Rightarrow> bool" where
  "below d s \<longleftrightarrow> list_ex (\<lambda>(p, n). is_prefix (d @ ''/'') p) (sys_nodes s)"

lemma filter_absent: "look q s = None \<Longrightarrow> filter (\<lambda>(p, n). p \<noteq> q) (sys_nodes s) = sys_nodes s"
  by (force simp: look_def map_of_eq_None_iff intro!: filter_True)

lemma put_absent: "look q s = None \<Longrightarrow> put_node q n s = s\<lparr>sys_nodes := (q, n) # sys_nodes s\<rparr>"
  by (simp add: put_node_def filter_absent)

lemma put_first: "sys_nodes s = (q, n) # xs \<Longrightarrow> filter (\<lambda>(p, n). p \<noteq> q) xs = xs \<Longrightarrow> put_node q m s = s\<lparr>sys_nodes := (q, m) # xs\<rparr>"
  by (simp add: put_node_def)

lemma prepare_fresh:
  assumes "sys_fails s = []" "look d s = None"
  shows "\<exists>t n. sys_mkdir d s = (True, t) \<and> group_dir d gid t = (True, s\<lparr>sys_nodes := (d, n) # sys_nodes s\<rparr>) \<and> n_kind n = Dir"
proof -
  note f = filter_absent [OF assms(2)]
  have l: "look d (s\<lparr>sys_nodes := (d, n) # sys_nodes s\<rparr>) = Some n" for n by (simp add: look_def)
  have p: "put_node d m (s\<lparr>sys_nodes := (d, n) # sys_nodes s\<rparr>) = s\<lparr>sys_nodes := (d, m) # sys_nodes s\<rparr>" for m n
    by (simp add: put_node_def f)
  show ?thesis unfolding sys_mkdir_def sys_call_ok [OF assms(1)] put_absent [OF assms(2)]
    using assms l by (cases gid) (auto simp: group_dir_def sys_chown_def sys_chmod_def sys_call_ok new_node_def p)
qed

lemma open_named_fresh:
  assumes "wpa_supplicant_ctrl_iface_path (ci_conf p) = Some f" "length f < SUN_PATH_LEN" "sys_fails s = []" "look f s = None" "0 \<le> sys_next s"
  shows "\<exists>n s'. open_named gid p s = (0, p\<lparr>ci_sock := sys_next s\<rparr>, s') \<and> n_kind n = Sock_of (sys_next s) \<and> sys_nodes s' = (f, n) # sys_nodes s \<and>
    sys_fds s' = sys_next s # sys_fds s \<and> sys_reads s' = sys_next s # sys_reads s \<and> sys_fails s' = []"
proof -
  note f = filter_absent [OF assms(4)]
  let ?s = "s\<lparr>sys_fds := sys_next s # sys_fds s, sys_next := sys_next s + 1\<rparr>"
  let ?n = "new_node (Sock_of (sys_next s))" and ?t = "\<lambda>n. ?s\<lparr>sys_nodes := (f, n) # sys_nodes s\<rparr>"
  have p: "put_node f m (?t n) = ?t m" for m n by (simp add: put_node_def f)
  have l: "look f (?t n) = Some n" "look f ?s = None" for n using assms(4) by (simp_all add: look_def)
  have B: "bind_or_replace (sys_next s) f f ?s = (Bound, ?t ?n)"
    using assms(3) l(2) by (simp add: bind_or_replace_def sys_bind_def sys_call_ok put_absent)
  have F: "\<exists>n. finish_file f gid (?t ?n) = (True, ?t n) \<and> n_kind n = Sock_of (sys_next s)"
    using assms(3) l by (cases gid) (auto simp: finish_file_def sys_chown_def sys_chmod_def sys_call_ok p new_node_def)
  then obtain n where n: "finish_file f gid (?t ?n) = (True, ?t n)" "n_kind n = Sock_of (sys_next s)" by blast
  have "open_named gid p s = (0, p\<lparr>ci_sock := sys_next s\<rparr>, (register_read (sys_next s) (?t n))\<lparr>sys_msg_cb := True\<rparr>)"
    using assms(1,2,5) sys_socket_ok [OF assms(3)] B n(1) by (simp add: open_named_def)
  then show ?thesis using n(2) assms(3) by (auto simp: register_read_def)
qed

text \<open>
  Starting and ending an interface leaves the system as it was: when the directory of the sockets did not exist and no
  call fails, the nodes, the open descriptors and those the event loop reads are the same before the start and after the end.
\<close>

theorem init_deinit_restores:
  assumes "conf_ctrl conf = Some c" "resolve_gid groups (snd (open_target conf)) \<noteq> None" "length (ctrl_dir c @ ''/'' @ conf_ifname conf) < SUN_PATH_LEN"
    and "sys_fails s = []" "0 \<le> sys_next s" "look (ctrl_dir c) s = None" "\<not> below (ctrl_dir c) s" "\<forall>(q, n) \<in> set (sys_nodes s). n_kind n \<noteq> Sock_of (sys_next s)"
  shows "\<exists>p s'. wpa_supplicant_ctrl_iface_init groups conf s = (Some p, s') \<and> ci_sock p = sys_next s \<and>
    (case wpa_supplicant_ctrl_iface_deinit p g s' of (g', s'') \<Rightarrow>
       sys_nodes s'' = sys_nodes s \<and> sys_fds s'' = sys_fds s \<and> sys_reads s'' = sys_reads s \<and> \<not> queue_timer s'')"
proof -
  let ?f = "ctrl_dir c @ ''/'' @ conf_ifname conf" and ?d = "ctrl_dir c" and ?fd = "sys_next s"
  obtain dir gs where T: "open_target conf = (dir, gs)" by fastforce
  note path = path_of_target [OF assms(1)]
  have dir: "dir = ?d" using path(1) T by simp
  obtain gid where g: "resolve_gid groups gs = Some gid" using assms(2) T by auto
  from prepare_fresh [OF assms(4,6), of gid] obtain t dn where
    P: "sys_mkdir ?d s = (True, t)" "group_dir ?d gid t = (True, s\<lparr>sys_nodes := (?d, dn) # sys_nodes s\<rparr>)" "n_kind dn = Dir" by blast
  let ?s = "s\<lparr>sys_nodes := (?d, dn) # sys_nodes s\<rparr>" and ?p = "new_priv False conf"
  have none: "look ?f s = None"
    using assms(7) by (fastforce simp: below_def look_def map_of_eq_None_iff list_ex_iff is_prefix_iff)
  have nl: "look ?f ?s = None" using none by (simp add: look_def)
  obtain n s' where o: "open_named gid ?p ?s = (0, ?p\<lparr>ci_sock := ?fd\<rparr>, s')" "n_kind n = Sock_of ?fd" "sys_nodes s' = (?f, n) # (?d, dn) # sys_nodes s"
    "sys_fds s' = ?fd # sys_fds s" "sys_reads s' = ?fd # sys_reads s" "sys_fails s' = []"
    using open_named_fresh [of ?p ?f ?s gid] path(2) assms(3,4,5) nl by (auto simp: new_priv_def)
  have i: "wpa_supplicant_ctrl_iface_init groups conf s = (Some (?p\<lparr>ci_sock := ?fd\<rparr>), s')"
    using o(1) T P g dir assms(1,3) by (simp add: wpa_supplicant_ctrl_iface_init_def wpas_ctrl_iface_open_sock_def new_priv_def)
  let ?c = "sys_close ?fd (unregister_read ?fd s')"
  have "map (\<lambda>(p, n). (p, if n_kind n = Sock_of ?fd then n\<lparr>n_kind := Stale\<rparr> else n)) (sys_nodes s) = sys_nodes s"
    using assms(8) by (intro map_idI) auto
  then have c: "sys_nodes ?c = (?f, n\<lparr>n_kind := Stale\<rparr>) # (?d, dn) # sys_nodes s" "sys_fds ?c = sys_fds s" "sys_reads ?c = sys_reads s" "sys_fails ?c = []"
    using o P(3) by (simp_all add: sys_close_def unregister_read_def)
  note fa = filter_absent [OF none] filter_absent [OF assms(6)]
  have u: "snd (sys_unlink ?f ?c) = del_node ?f ?c" using c(1,4) by (simp add: sys_unlink_def sys_call_ok kind_of_def look_def)
  let ?u = "del_node ?f ?c"
  have v: "sys_nodes ?u = (?d, dn) # sys_nodes s" "sys_fds ?u = sys_fds s" "sys_reads ?u = sys_reads s" "sys_fails ?u = []"
    using c fa by (simp_all add: del_node_def)
  have w: "snd (sys_rmdir ?d ?u) = del_node ?d ?u"
    using v P(3) assms(7) by (simp add: sys_rmdir_def sys_call_ok kind_of_def look_def below_def is_prefix_iff)
  have x: "sys_nodes (del_node ?d ?u) = sys_nodes s" "sys_fds (del_node ?d ?u) = sys_fds s" "sys_reads (del_node ?d ?u) = sys_reads s"
    using v fa by (simp_all add: del_node_def)
  have cf: "ci_conf ?p = conf" by (simp add: new_priv_def)
  have "snd (wpa_supplicant_ctrl_iface_deinit (?p\<lparr>ci_sock := ?fd\<rparr>) g s') = (del_node ?d ?u)\<lparr>queue_timer := False\<rparr>"
    using assms(1,5) path(2) cf u w by (simp add: wpa_supplicant_ctrl_iface_deinit_def)
  with i x show ?thesis by (simp add: case_prod_beta)
qed

text \<open>
  The global socket has no check of the length of its name: a longer one is bound under its first 107 characters, and the
  name in the configuration does not exist although opening reports success.
\<close>

lemma global_name_cut:
  assumes "conf_ctrl (ci_conf p) = Some c" "conf_group (ci_conf p) = None" "SUN_PATH_LEN \<le> length c" "\<not> str_starts c ''@abstract:''"
    and "sys_fails s = []" "0 \<le> sys_next s" "look (take (SUN_PATH_LEN - 1) c) s = None" "look c s = None"
  shows "\<exists>s'. wpas_global_ctrl_iface_open_sock groups p s = (0, p\<lparr>ci_sock := sys_next s\<rparr>, s') \<and> look c s' = None \<and>
    look (take (SUN_PATH_LEN - 1) c) s' = Some (new_node (Sock_of (sys_next s)))"
proof -
  let ?q = "take (SUN_PATH_LEN - 1) c" and ?s = "s\<lparr>sys_fds := sys_next s # sys_fds s, sys_next := sys_next s + 1\<rparr>"
  have "length ?q < length c" using assms(3) by (simp add: SUN_PATH_LEN_def)
  then have ne: "c \<noteq> ?q" by (metis less_irrefl)
  let ?t = "put_node ?q (new_node (Sock_of (sys_next s))) ?s"
  have lk: "look x ?s = look x s" for x by (simp add: look_def)
  have B: "bind_or_replace (sys_next s) ?q c ?s = (Bound, ?t)"
    using assms(5,7) lk by (simp add: bind_or_replace_def sys_bind_def sys_call_ok)
  have F: "finish_global groups None c ?t = (True, ?t)" using assms(5,8) ne lk by (simp add: finish_global_def sys_chmod_def sys_call_ok)
  have rr: "look x (register_read fd t) = look x t" for x fd and t :: "'a sys_scheme" by (simp add: look_def register_read_def)
  have "wpas_global_ctrl_iface_open_sock groups p s = (0, p\<lparr>ci_sock := sys_next s\<rparr>, register_read (sys_next s) ?t)"
    using assms(1,2,4,6) sys_socket_ok [OF assms(5)] B F by (simp add: wpas_global_ctrl_iface_open_sock_def)
  then show ?thesis using assms(8) ne lk rr by auto
qed

section \<open>Examples\<close>

definition demo_conf :: iface_conf where
  "demo_conf = \<lparr>conf_ctrl = Some ''DIR=/run/wpa GROUP=wheel'', conf_group = None, conf_ifname = ''wlan0''\<rparr>"

definition demo_groups :: "string \<Rightarrow> int option" where
  "demo_groups g = (if g = ''wheel'' then Some 10 else None)"

definition demo_sys :: "(string \<times> node) list \<Rightarrow> bool list \<Rightarrow> sys" where
  "demo_sys nodes fails = \<lparr>sys_nodes = nodes, sys_abstract = [], sys_fails = fails, sys_fds = [0, 1, 2], sys_next = 3, sys_reads = [],
     sys_msg_cb = False, queue_timer = False\<rparr>"

lemma demo_target:
  "conf_ctrl demo_conf = Some ''DIR=/run/wpa GROUP=wheel''" "ctrl_dir ''DIR=/run/wpa GROUP=wheel'' = ''/run/wpa''"
  "open_target demo_conf = (''/run/wpa'', Some ''wheel'')" "resolve_gid demo_groups (Some ''wheel'') = Some (Some 10)" "conf_ifname demo_conf = ''wlan0''"
  by (simp_all add: demo_conf_def ctrl_dir_def open_target_def split_dir_def str_starts_def resolve_gid_def demo_groups_def)


theorem init_deinit_restores_witness:
  "\<exists>p s'. wpa_supplicant_ctrl_iface_init demo_groups demo_conf (demo_sys [] []) = (Some p, s') \<and> ci_sock p = 3 \<and>
     (case wpa_supplicant_ctrl_iface_deinit p None s' of (g', s'') \<Rightarrow> sys_nodes s'' = [] \<and> sys_fds s'' = [0, 1, 2] \<and> sys_reads s'' = [] \<and> \<not> queue_timer s'')"
  using init_deinit_restores [OF demo_target(1), of demo_groups "demo_sys [] []" None]
  by (simp add: demo_target demo_sys_def look_def below_def SUN_PATH_LEN_def)

end
