(* ===== verification/Ctrl_Iface.thy ===== *)
theory Ctrl_Iface
  imports Ctrl_Iface_Sock
begin

text \<open>
  The daemon's end of the control socket, \<^verbatim>\<open>src/common/ctrl_iface_common.c\<close> and the rest of
  \<^verbatim>\<open>wpa_supplicant/ctrl_iface_unix.c\<close> in a build with UNIX sockets only: the list of attached monitors, requests and
  their replies, and event messages, which are sent at once or, while the socket is congested, kept in a queue and sent
  from a timer. One interface and the global interface are modelled.

  To the operating system of \<open>Ctrl_Iface_Sock\<close> the record \<open>ctrl_os\<close> adds the datagrams sent, and scripts of the results of
  the coming calls: those of \<^verbatim>\<open>sendto\<close> and \<^verbatim>\<open>sendmsg\<close>, and the size of the send buffer with how much of it is used, absent
  when the call fails. A script that has ended stands for sends that succeed and a buffer that is empty.
  The processing of the commands themselves, \<^verbatim>\<open>ctrl_iface.c\<close>, is the argument \<open>process\<close> on a state of the daemon of any type.
\<close>

datatype send_res = Sent_ok | Sent_err errno

record ctrl_os = sys +
  wire :: "(int \<times> sockaddr \<times> string) list"
  send_results :: "send_res list"
  congestion :: "(int option \<times> int option) list"

definition MSG_INFO :: int where "MSG_INFO = 3"

section \<open>Monitors\<close>

definition sockaddr_compare :: "sockaddr \<Rightarrow> sockaddr \<Rightarrow> int" where
  "sockaddr_compare a b = (case (a, b) of (Sun p, Sun q) \<Rightarrow> if p = q then 0 else 1 | _ \<Rightarrow> 1)"

definition ctrl_iface_attach :: "wpa_ctrl_dst list \<Rightarrow> sockaddr \<Rightarrow> int \<times> wpa_ctrl_dst list" where
  "ctrl_iface_attach ctrl_dst from = (0, \<lparr>d_addr = from, d_level = MSG_INFO, d_errors = 0\<rparr> # ctrl_dst)"

fun ctrl_iface_detach :: "wpa_ctrl_dst list \<Rightarrow> sockaddr \<Rightarrow> int \<times> wpa_ctrl_dst list" where
  "ctrl_iface_detach [] from = (-1, [])"
| "ctrl_iface_detach (dst # ds) from =
     (if sockaddr_compare from (d_addr dst) = 0 then (0, ds) else apsnd (Cons dst) (ctrl_iface_detach ds from))"

fun ctrl_iface_level :: "wpa_ctrl_dst list \<Rightarrow> sockaddr \<Rightarrow> string \<Rightarrow> int \<times> wpa_ctrl_dst list" where
  "ctrl_iface_level [] from level = (-1, [])"
| "ctrl_iface_level (dst # ds) from level =
     (if sockaddr_compare from (d_addr dst) = 0 then (0, dst\<lparr>d_level := atoi level\<rparr> # ds)
      else apsnd (Cons dst) (ctrl_iface_level ds from level))"

section \<open>Sending\<close>

definition send_result :: "ctrl_os \<Rightarrow> send_res" where
  "send_result os = (case send_results os of [] \<Rightarrow> Sent_ok | r # _ \<Rightarrow> r)"

text \<open>One \<^verbatim>\<open>sendto\<close> or \<^verbatim>\<open>sendmsg\<close>; on success the datagram is on the wire.\<close>

definition sock_sendto :: "int \<Rightarrow> sockaddr \<Rightarrow> string \<Rightarrow> ctrl_os \<Rightarrow> send_res \<times> ctrl_os" where
  "sock_sendto sk dest txt os =
     (let r = send_result os; os = os\<lparr>send_results := tl (send_results os)\<rparr>
      in (r, if r = Sent_ok then os\<lparr>wire := wire os @ [(sk, dest, txt)]\<rparr> else os))"

text \<open>
  The loop over the monitors, with those already served in front. A monitor that has failed is removed through
  its address: the first entry with that address, which is the failed one or one in front of it.
\<close>

fun send_loop :: "(string \<Rightarrow> int option) \<Rightarrow> int \<Rightarrow> string \<Rightarrow> int \<Rightarrow> wpa_ctrl_dst list \<Rightarrow> wpa_ctrl_dst list \<Rightarrow> ctrl_iface_priv \<Rightarrow> ctrl_os \<Rightarrow> ctrl_iface_priv \<times> ctrl_os" where
  "send_loop groups level txt sk served [] priv os = (priv\<lparr>ci_dst := served\<rparr>, os)"
| "send_loop groups level txt sk served (dst # ds) priv os =
     (if level < d_level dst then send_loop groups level txt sk (served @ [dst]) ds priv os
      else case sock_sendto sk (d_addr dst) txt os of
          (Sent_ok, os) \<Rightarrow> send_loop groups level txt sk (served @ [dst\<lparr>d_errors := 0\<rparr>]) ds priv os
        | (Sent_err e, os) \<Rightarrow>
            let dst = dst\<lparr>d_errors := d_errors dst + 1\<rparr>;
                served = (if d_errors dst > 10 \<or> e = ENOENT \<or> e = EPERM
                  then snd (ctrl_iface_detach (served @ [dst]) (d_addr dst)) else served @ [dst])
            in if e = ENOBUFS \<or> e = EAGAIN then
                 case wpas_ctrl_iface_reinit groups priv os of
                   (sk, priv, os) \<Rightarrow>
                     if sk < 0 then (priv\<lparr>ci_dst := served @ ds\<rparr>, os)
                     else send_loop groups level txt sk served ds priv os
               else send_loop groups level txt sk served ds priv os)"

definition LEVELSTR_LEN :: nat where "LEVELSTR_LEN = 10"

definition level_text :: "int \<Rightarrow> string" where
  "level_text level = ''<'' @ show_int level @ ''>''"

definition event_text :: "string option \<Rightarrow> int \<Rightarrow> string \<Rightarrow> string" where
  "event_text ifname level buf = (case ifname of None \<Rightarrow> [] | Some i \<Rightarrow> ''IFNAME='' @ i @ '' '') @ level_text level @ buf"

definition wpa_supplicant_ctrl_iface_send :: "(string \<Rightarrow> int option) \<Rightarrow> string option \<Rightarrow> int \<Rightarrow> string \<Rightarrow> ctrl_iface_priv \<Rightarrow> ctrl_os \<Rightarrow> ctrl_iface_priv \<times> ctrl_os" where
  "wpa_supplicant_ctrl_iface_send groups ifname level buf priv os =
     (if ci_sock priv < 0 \<or> ci_dst priv = [] then (priv, os)
      else if os_snprintf_error LEVELSTR_LEN (int (length (level_text level))) then (priv, os)
      else send_loop groups level (event_text ifname level buf) (ci_sock priv) [] (ci_dst priv) priv os)"

section \<open>Requests\<close>

datatype reply = No_reply nat | Reply string

definition reply_text :: "reply \<Rightarrow> string option" where
  "reply_text r = (case r of Reply t \<Rightarrow> Some t | No_reply n \<Rightarrow> if n = 1 then Some (''FAIL'' @ [NL]) else if n = 2 then Some (''OK'' @ [NL]) else None)"

text \<open>The commands of the socket itself, then all others; the flag tells that a monitor was attached.\<close>

definition iface_command :: "('d \<Rightarrow> string \<Rightarrow> reply \<times> 'd) \<Rightarrow> sockaddr \<Rightarrow> string \<Rightarrow> ctrl_iface_priv \<Rightarrow> 'd \<Rightarrow> (reply \<times> bool) \<times> ctrl_iface_priv \<times> 'd" where
  "iface_command process from buf priv d =
     (if buf = ''ATTACH'' then
        case ctrl_iface_attach (ci_dst priv) from of (r, ds) \<Rightarrow> ((No_reply (if r \<noteq> 0 then 1 else 2), r = 0), priv\<lparr>ci_dst := ds\<rparr>, d)
      else if buf = ''DETACH'' then
        case ctrl_iface_detach (ci_dst priv) from of (r, ds) \<Rightarrow> ((No_reply (if r \<noteq> 0 then 1 else 2), False), priv\<lparr>ci_dst := ds\<rparr>, d)
      else if str_starts buf ''LEVEL '' then
        case ctrl_iface_level (ci_dst priv) from (drop 6 buf) of (r, ds) \<Rightarrow> ((No_reply (if r \<noteq> 0 then 1 else 2), False), priv\<lparr>ci_dst := ds\<rparr>, d)
      else case process d buf of (r, d) \<Rightarrow> ((r, False), priv, d))"

definition wpa_supplicant_ctrl_iface_receive ::
  "(string \<Rightarrow> int option) \<Rightarrow> ('d \<Rightarrow> string \<Rightarrow> reply \<times> 'd) \<Rightarrow> ('d \<Rightarrow> 'd) \<Rightarrow> (sockaddr \<times> string) option \<Rightarrow> ctrl_iface_priv \<Rightarrow> 'd \<Rightarrow> ctrl_os \<Rightarrow> ctrl_iface_priv \<times> 'd \<times> ctrl_os" where
  "wpa_supplicant_ctrl_iface_receive groups process notify_attached dgram priv d os =
     (case dgram of
        None \<Rightarrow> (priv, d, os)
      | Some (from, data) \<Rightarrow>
          let sk = ci_sock priv; buf = cstr_of (take 4095 data);
              ((reply, new_attached), priv, d) = iface_command process from buf priv d;
              (new_attached, priv, os) =
                (case reply_text reply of
                   None \<Rightarrow> (new_attached, priv, os)
                 | Some t \<Rightarrow>
                     (case sock_sendto sk from t os of
                        (Sent_ok, os) \<Rightarrow> (new_attached, priv, os)
                      | (Sent_err e, os) \<Rightarrow>
                          let (priv, os) = (if e = ENOBUFS \<or> e = EAGAIN then snd (wpas_ctrl_iface_reinit groups priv os) else (priv, os))
                          in (False, if new_attached then priv\<lparr>ci_dst := snd (ctrl_iface_detach (ci_dst priv) from)\<rparr> else priv, os)))
          in (priv, if new_attached then notify_attached d else d, os))"

definition wpa_supplicant_global_ctrl_iface_receive ::
  "('d \<Rightarrow> string \<Rightarrow> reply \<times> 'd) \<Rightarrow> (sockaddr \<times> string) option \<Rightarrow> ctrl_iface_priv \<Rightarrow> 'd \<Rightarrow> ctrl_os \<Rightarrow> ctrl_iface_priv \<times> 'd \<times> ctrl_os" where
  "wpa_supplicant_global_ctrl_iface_receive process dgram priv d os =
     (case dgram of
        None \<Rightarrow> (priv, d, os)
      | Some (from, data) \<Rightarrow>
          let buf = cstr_of (take 4095 data);
              (reply, priv, d) =
                (if buf = ''ATTACH'' then
                   case ctrl_iface_attach (ci_dst priv) from of (r, ds) \<Rightarrow> (No_reply (if r \<noteq> 0 then 1 else 2), priv\<lparr>ci_dst := ds\<rparr>, d)
                 else if buf = ''DETACH'' then
                   case ctrl_iface_detach (ci_dst priv) from of (r, ds) \<Rightarrow> (No_reply (if r \<noteq> 0 then 1 else 2), priv\<lparr>ci_dst := ds\<rparr>, d)
                 else case process d buf of (r, d) \<Rightarrow> (r, priv, d))
          in (priv, d, case reply_text reply of None \<Rightarrow> os | Some t \<Rightarrow> snd (sock_sendto (ci_sock priv) from t os)))"

text \<open>Waiting for the first monitor before the start: everything but ATTACH is refused.\<close>

fun wpa_supplicant_ctrl_iface_wait :: "(sockaddr \<times> string) option list \<Rightarrow> ctrl_iface_priv \<Rightarrow> ctrl_os \<Rightarrow> bool \<times> ctrl_iface_priv \<times> ctrl_os" where
  "wpa_supplicant_ctrl_iface_wait [] priv os = (ci_sock priv = -1, priv, os)"
| "wpa_supplicant_ctrl_iface_wait (dgram # ds) priv os =
     (if ci_sock priv = -1 then (True, priv, os)
      else case dgram of
        None \<Rightarrow> wpa_supplicant_ctrl_iface_wait ds priv os
      | Some (from, data) \<Rightarrow>
          if cstr_of (take 255 data) = ''ATTACH''
          then (True, priv\<lparr>ci_dst := snd (ctrl_iface_attach (ci_dst priv) from)\<rparr>, snd (sock_sendto (ci_sock priv) from (''OK'' @ [NL]) os))
          else wpa_supplicant_ctrl_iface_wait ds priv (snd (sock_sendto (ci_sock priv) from (''FAIL'' @ [NL]) os)))"

section \<open>Event messages\<close>

definition wpas_ctrl_iface_throttle :: "ctrl_os \<Rightarrow> bool \<times> ctrl_os" where
  "wpas_ctrl_iface_throttle os =
     (case congestion os of
        [] \<Rightarrow> (False, os)
      | (sndbuf, outq) # cs \<Rightarrow>
          (case (sndbuf, outq) of (Some s, Some q) \<Rightarrow> 0 < s \<and> 0 \<le> q \<and> s div 2 < q | _ \<Rightarrow> False, os\<lparr>congestion := cs\<rparr>))"

definition wpas_ctrl_msg_queue :: "ctrl_iface_msg \<Rightarrow> ctrl_iface_priv \<Rightarrow> ctrl_os \<Rightarrow> ctrl_iface_priv \<times> ctrl_os" where
  "wpas_ctrl_msg_queue msg priv os = (priv\<lparr>ci_queue := ci_queue priv @ [msg]\<rparr>, os\<lparr>queue_timer := True\<rparr>)"

definition wpas_ctrl_msg_queue_limit :: "ctrl_iface_priv \<Rightarrow> ctrl_iface_priv" where
  "wpas_ctrl_msg_queue_limit priv = (if ci_throttle priv < 2000 then priv else priv\<lparr>ci_queue := tl (ci_queue priv)\<rparr>)"

text \<open>What both kinds of interface do with a message; \<open>ifname\<close> is its prefix.\<close>

definition iface_event :: "(string \<Rightarrow> int option) \<Rightarrow> string option \<Rightarrow> ctrl_iface_msg \<Rightarrow> ctrl_iface_priv \<Rightarrow> ctrl_os \<Rightarrow> ctrl_iface_priv \<times> ctrl_os" where
  "iface_event groups ifname msg priv os =
     (let (busy, os) = (if ci_queue priv \<noteq> [] then (True, os) else wpas_ctrl_iface_throttle os)
      in if busy then
           wpas_ctrl_msg_queue msg (wpas_ctrl_msg_queue_limit (priv\<lparr>ci_throttle := (ci_throttle priv + 1) mod 2 ^ 32\<rparr>)) os
         else wpa_supplicant_ctrl_iface_send groups ifname (m_level msg) (m_txt msg) (priv\<lparr>ci_throttle := 0\<rparr>) os)"

definition global_name :: "ctrl_iface_msg \<Rightarrow> string option" where
  "global_name msg = (if m_type msg \<noteq> WPA_MSG_PER_INTERFACE then None else Some (m_wpa_s msg))"

definition wpa_supplicant_ctrl_iface_msg_cb ::
  "(string \<Rightarrow> int option) \<Rightarrow> ctrl_iface_msg \<Rightarrow> ctrl_iface_priv option \<Rightarrow> ctrl_iface_priv option \<Rightarrow> ctrl_os \<Rightarrow> ctrl_iface_priv option \<times> ctrl_iface_priv option \<times> ctrl_os" where
  "wpa_supplicant_ctrl_iface_msg_cb groups msg gpriv priv os =
     (let (gpriv, os) =
        (case gpriv of
           None \<Rightarrow> (gpriv, os)
         | Some g \<Rightarrow>
             if m_type msg \<noteq> WPA_MSG_NO_GLOBAL \<and> ci_dst g \<noteq> [] then apfst Some (iface_event groups (global_name msg) msg g os)
             else (gpriv, os));
          (priv, os) =
        (case priv of
           None \<Rightarrow> (priv, os)
         | Some p \<Rightarrow> if m_type msg \<noteq> WPA_MSG_ONLY_GLOBAL then apfst Some (iface_event groups None msg p os) else (priv, os))
      in (gpriv, priv, os))"

text \<open>Sending from the queue until it is empty or the socket is congested.\<close>

fun send_pending :: "(string \<Rightarrow> int option) \<Rightarrow> (ctrl_iface_msg \<Rightarrow> string option) \<Rightarrow> ctrl_iface_msg list \<Rightarrow> ctrl_iface_priv \<Rightarrow> ctrl_os \<Rightarrow> ctrl_iface_priv \<times> ctrl_os" where
  "send_pending groups name [] priv os = (priv\<lparr>ci_queue := []\<rparr>, os)"
| "send_pending groups name (msg # q) priv os =
     (case wpas_ctrl_iface_throttle os of
        (True, os) \<Rightarrow> (priv\<lparr>ci_queue := msg # q\<rparr>, os)
      | (False, os) \<Rightarrow>
          (case wpa_supplicant_ctrl_iface_send groups (name msg) (m_level msg) (m_txt msg) (priv\<lparr>ci_queue := q\<rparr>) os of
             (priv, os) \<Rightarrow> send_pending groups name q priv os))"

definition wpas_ctrl_msg_send_pending_global :: "(string \<Rightarrow> int option) \<Rightarrow> ctrl_iface_priv option \<Rightarrow> ctrl_os \<Rightarrow> ctrl_iface_priv option \<times> ctrl_os" where
  "wpas_ctrl_msg_send_pending_global groups gpriv os =
     (case gpriv of None \<Rightarrow> (None, os) | Some g \<Rightarrow> apfst Some (send_pending groups global_name (ci_queue g) g os))"

definition wpas_ctrl_msg_send_pending_iface :: "(string \<Rightarrow> int option) \<Rightarrow> ctrl_iface_priv option \<Rightarrow> ctrl_os \<Rightarrow> ctrl_iface_priv option \<times> ctrl_os" where
  "wpas_ctrl_msg_send_pending_iface groups priv os =
     (case priv of None \<Rightarrow> (None, os) | Some p \<Rightarrow> apfst Some (send_pending groups (\<lambda>_. None) (ci_queue p) p os))"

definition waiting_sock :: "ctrl_iface_priv option \<Rightarrow> int" where
  "waiting_sock priv = (case priv of Some p \<Rightarrow> if ci_queue p \<noteq> [] then ci_sock p else -1 | None \<Rightarrow> -1)"

definition wpas_ctrl_msg_queue_timeout ::
  "(string \<Rightarrow> int option) \<Rightarrow> ctrl_iface_priv option \<Rightarrow> ctrl_iface_priv option \<Rightarrow> ctrl_os \<Rightarrow> ctrl_iface_priv option \<times> ctrl_iface_priv option \<times> ctrl_os" where
  "wpas_ctrl_msg_queue_timeout groups gpriv priv os =
     (let os = os\<lparr>queue_timer := False\<rparr>; (gpriv, os) = wpas_ctrl_msg_send_pending_global groups gpriv os;
          (priv, os) = wpas_ctrl_msg_send_pending_iface groups priv os
      in (gpriv, priv, if waiting_sock priv > -1 \<or> waiting_sock gpriv > -1 then os\<lparr>queue_timer := True\<rparr> else os))"

section \<open>Monitors as addresses\<close>

lemma sockaddr_compare_0 [simp]: "sockaddr_compare a b = 0 \<longleftrightarrow> (\<exists>p. a = Sun p \<and> b = Sun p)"
  by (auto simp: sockaddr_compare_def split: sockaddr.splits)

definition addrs :: "wpa_ctrl_dst list \<Rightarrow> sockaddr list" where
  "addrs ds = map d_addr ds"

lemma detach_addrs:
  "ctrl_iface_detach ds (Sun p) = (r, ds') \<Longrightarrow> addrs ds' = remove1 (Sun p) (addrs ds) \<and> (r = 0 \<longleftrightarrow> Sun p \<in> set (addrs ds)) \<and> (r \<noteq> 0 \<longrightarrow> ds' = ds)"
proof (induction ds arbitrary: r ds')
  case (Cons d ds)
  then show ?case by (cases "ctrl_iface_detach ds (Sun p)") (auto simp: addrs_def split: if_splits)
qed (simp add: addrs_def)

lemma detach_attach: "ctrl_iface_detach (snd (ctrl_iface_attach ds (Sun p))) (Sun p) = (0, ds)"
  by (simp add: ctrl_iface_attach_def)

text \<open>Removing a failed monitor among those served so far is removing it from the whole list.\<close>

lemma detach_served:
  assumes "d_addr d = Sun p"
  shows "ctrl_iface_detach (served @ d # ds) (Sun p) = apsnd (\<lambda>s. s @ ds) (ctrl_iface_detach (served @ [d]) (Sun p))"
  using assms by (induction served) (auto simp: apsnd_def map_prod_def split: prod.split)

section \<open>Events in order\<close>

definition frames :: "(ctrl_iface_msg \<Rightarrow> string option) \<Rightarrow> int \<Rightarrow> wpa_ctrl_dst list \<Rightarrow> ctrl_iface_msg \<Rightarrow> (int \<times> sockaddr \<times> string) list" where
  "frames name sk ds msg = map (\<lambda>d. (sk, d_addr d, event_text (name msg) (m_level msg) (m_txt msg))) (filter (\<lambda>d. d_level d \<le> m_level msg) ds)"

definition same_monitors :: "wpa_ctrl_dst list \<Rightarrow> wpa_ctrl_dst list \<Rightarrow> bool" where
  "same_monitors ds es \<longleftrightarrow> map (\<lambda>d. (d_addr d, d_level d)) ds = map (\<lambda>d. (d_addr d, d_level d)) es"

lemma frames_same:
  assumes "same_monitors ds es"
  shows "frames name sk ds msg = frames name sk es msg"
proof -
  have f: "frames name sk ds msg = map (\<lambda>(a, l). (sk, a, event_text (name msg) (m_level msg) (m_txt msg)))
    (filter (\<lambda>(a, l). l \<le> m_level msg) (map (\<lambda>d. (d_addr d, d_level d)) ds))" for ds
    by (induction ds) (auto simp: frames_def)
  show ?thesis unfolding f using assms by (simp add: same_monitors_def)
qed

lemma same_monitors_trans: "same_monitors a b \<Longrightarrow> same_monitors b c \<Longrightarrow> same_monitors a c"
  by (simp add: same_monitors_def)

lemma same_monitors_refl [simp]: "same_monitors a a"
  by (simp add: same_monitors_def)

lemma send_loop_ok:
  "send_results os = [] \<Longrightarrow> \<exists>es. send_loop groups (m_level msg) (event_text (name msg) (m_level msg) (m_txt msg)) sk served ds priv os =
     (priv\<lparr>ci_dst := served @ es\<rparr>, os\<lparr>wire := wire os @ frames name sk ds msg\<rparr>) \<and> same_monitors ds es"
proof (induction ds arbitrary: served os)
  case (Cons d ds)
  show ?case
  proof (cases "m_level msg < d_level d")
    case True
    with Cons.IH [of os "served @ [d]"] Cons.prems show ?thesis by (auto simp: frames_def same_monitors_def)
  next
    case False
    let ?os = "os\<lparr>wire := wire os @ [(sk, d_addr d, event_text (name msg) (m_level msg) (m_txt msg))]\<rparr>"
    from Cons.prems have "sock_sendto sk (d_addr d) (event_text (name msg) (m_level msg) (m_txt msg)) os = (Sent_ok, ?os)"
      by (cases os) (simp add: sock_sendto_def send_result_def)
    with False Cons.IH [of ?os "served @ [d\<lparr>d_errors := 0\<rparr>]"] Cons.prems show ?thesis by (auto simp: frames_def same_monitors_def)
  qed
qed (auto simp: frames_def same_monitors_def)

text \<open>A message whose level fits the buffer of its prefix, as every level of the program does.\<close>

definition msg_ok :: "ctrl_iface_msg \<Rightarrow> bool" where
  "msg_ok msg \<longleftrightarrow> length (level_text (m_level msg)) < LEVELSTR_LEN"

lemma iface_send_ok:
  assumes "send_results os = []" "msg_ok msg" "0 \<le> ci_sock priv"
  shows "\<exists>es. wpa_supplicant_ctrl_iface_send groups (name msg) (m_level msg) (m_txt msg) priv os =
     (priv\<lparr>ci_dst := es\<rparr>, os\<lparr>wire := wire os @ frames name (ci_sock priv) (ci_dst priv) msg\<rparr>) \<and> same_monitors (ci_dst priv) es"
proof (cases "ci_dst priv = []")
  case True
  then show ?thesis by (intro exI [of _ "[]"]) (simp add: wpa_supplicant_ctrl_iface_send_def frames_def)
next
  case False
  with send_loop_ok [OF assms(1), where msg = msg and name = name and sk = "ci_sock priv" and served = "[]" and ds = "ci_dst priv" and priv = priv and groups = groups] assms show ?thesis
    by (simp add: wpa_supplicant_ctrl_iface_send_def msg_ok_def)
qed


lemma throttle_keeps: "wpas_ctrl_iface_throttle os = (b, os') \<Longrightarrow> send_results os' = send_results os \<and> wire os' = wire os \<and> queue_timer os' = queue_timer os"
  by (auto simp: wpas_ctrl_iface_throttle_def split: list.splits)

lemma send_pending_ok:
  "send_results os = [] \<Longrightarrow> \<forall>msg \<in> set q. msg_ok msg \<Longrightarrow> 0 \<le> ci_sock priv \<Longrightarrow> same_monitors ds (ci_dst priv) \<Longrightarrow>
   \<exists>sentm rest es os'. send_pending groups name q priv os = (priv\<lparr>ci_dst := es, ci_queue := rest\<rparr>, os') \<and> q = sentm @ rest \<and> same_monitors ds es \<and>
     wire os' = wire os @ concat (map (frames name (ci_sock priv) ds) sentm) \<and> send_results os' = [] \<and> queue_timer os' = queue_timer os \<and>
     (congestion os = [] \<longrightarrow> rest = [])"
proof (induction q arbitrary: priv os)
  case Nil
  then show ?case by (intro exI [of _ "[]"] exI [of _ "ci_dst priv"] exI [of _ os]) auto
next
  case (Cons msg q)
  obtain b os1 where t: "wpas_ctrl_iface_throttle os = (b, os1)" by (cases "wpas_ctrl_iface_throttle os")
  note tk = throttle_keeps [OF t]
  show ?case
  proof (cases b)
    case True
    with t Cons.prems tk show ?thesis
      by (intro exI [of _ "[]"] exI [of _ "msg # q"] exI [of _ "ci_dst priv"] exI [of _ os1]) (auto simp: wpas_ctrl_iface_throttle_def)
  next
    case False
    from iface_send_ok [where os = os1 and msg = msg and priv = "priv\<lparr>ci_queue := q\<rparr>" and name = name and groups = groups] Cons.prems tk obtain es where
      w: "wpa_supplicant_ctrl_iface_send groups (name msg) (m_level msg) (m_txt msg) (priv\<lparr>ci_queue := q\<rparr>) os1 =
        (priv\<lparr>ci_queue := q, ci_dst := es\<rparr>, os1\<lparr>wire := wire os1 @ frames name (ci_sock priv) (ci_dst priv) msg\<rparr>)" "same_monitors (ci_dst priv) es" by auto
    let ?p = "priv\<lparr>ci_queue := q, ci_dst := es\<rparr>" and ?os = "os1\<lparr>wire := wire os1 @ frames name (ci_sock priv) (ci_dst priv) msg\<rparr>"
    have "same_monitors ds es" using Cons.prems(4) w(2) by (rule same_monitors_trans)
    with Cons.IH [of ?os ?p] Cons.prems tk obtain sentm rest es' os' where
      r: "send_pending groups name q ?p ?os = (?p\<lparr>ci_dst := es', ci_queue := rest\<rparr>, os')" "q = sentm @ rest" "same_monitors ds es'"
        "wire os' = wire ?os @ concat (map (frames name (ci_sock priv) ds) sentm)" "send_results os' = []" "queue_timer os' = queue_timer ?os"
        "congestion ?os = [] \<longrightarrow> rest = []" by auto
    have fr: "frames name (ci_sock priv) (ci_dst priv) msg = frames name (ci_sock priv) ds msg" using frames_same [OF Cons.prems(4)] by simp
    have c: "congestion os = [] \<longrightarrow> congestion os1 = []" using t by (auto simp: wpas_ctrl_iface_throttle_def)
    have "send_pending groups name (msg # q) priv os = (priv\<lparr>ci_dst := es', ci_queue := rest\<rparr>, os')" using t False w(1) r(1) by simp
    moreover have "wire os' = wire os @ concat (map (frames name (ci_sock priv) ds) (msg # sentm))" using r(4) tk fr by simp
    ultimately show ?thesis using r c tk by (intro exI [of _ "msg # sentm"] exI [of _ rest] exI [of _ es'] exI [of _ os']) auto
  qed
qed

text \<open>What happens to an interface: an event message, or the timer of the queue, which fires only when it is registered.\<close>

datatype happening = Event ctrl_iface_msg | Timer

fun happen :: "(string \<Rightarrow> int option) \<Rightarrow> happening \<Rightarrow> ctrl_iface_priv option \<times> ctrl_iface_priv option \<times> ctrl_os \<Rightarrow> ctrl_iface_priv option \<times> ctrl_iface_priv option \<times> ctrl_os" where
  "happen groups (Event msg) (g, p, os) = wpa_supplicant_ctrl_iface_msg_cb groups msg g p os"
| "happen groups Timer (g, p, os) = (if queue_timer os then wpas_ctrl_msg_queue_timeout groups g p os else (g, p, os))"

definition events :: "happening list \<Rightarrow> ctrl_iface_msg list" where
  "events hs = List.map_filter (\<lambda>h. case h of Event m \<Rightarrow> Some m | Timer \<Rightarrow> None) hs"

lemma events_snoc: "events (hs @ [h]) = events hs @ (case h of Event m \<Rightarrow> [m] | Timer \<Rightarrow> [])"
  by (simp add: events_def map_filter_def split: happening.split)

definition event_ok :: "ctrl_iface_msg \<Rightarrow> bool" where
  "event_ok m \<longleftrightarrow> msg_ok m \<and> m_type m \<noteq> WPA_MSG_ONLY_GLOBAL"

definition in_order :: "(int \<times> sockaddr \<times> string) list \<Rightarrow> int \<Rightarrow> wpa_ctrl_dst list \<Rightarrow> ctrl_iface_msg list \<Rightarrow> ctrl_iface_priv \<Rightarrow> ctrl_os \<Rightarrow> bool" where
  "in_order w sk ds msgs p os \<longleftrightarrow> (\<exists>sentm. wire os = w @ concat (map (frames (\<lambda>_. None) sk ds) sentm) \<and> sentm @ ci_queue p = msgs) \<and>
     same_monitors ds (ci_dst p) \<and> ci_sock p = sk \<and> send_results os = [] \<and> ci_throttle p \<le> length msgs \<and> (ci_queue p \<noteq> [] \<longrightarrow> queue_timer os)"

lemma in_order_event:
  assumes i: "in_order w sk ds msgs p os" and m: "event_ok m" "0 \<le> sk" "length msgs < 1999"
  shows "\<exists>p' os'. happen groups (Event m) (None, Some p, os) = (None, Some p', os') \<and> in_order w sk ds (msgs @ [m]) p' os'"
proof -
  from i obtain sentm where s: "wire os = w @ concat (map (frames (\<lambda>_. None) sk ds) sentm)" "sentm @ ci_queue p = msgs"
    and r: "same_monitors ds (ci_dst p)" "ci_sock p = sk" "send_results os = []" "ci_throttle p \<le> length msgs" "ci_queue p \<noteq> [] \<longrightarrow> queue_timer os"
    by (auto simp: in_order_def)
  obtain busy os1 where b: "(if ci_queue p \<noteq> [] then (True, os) else wpas_ctrl_iface_throttle os) = (busy, os1)" by fastforce
  have o: "send_results os1 = []" "wire os1 = wire os" "queue_timer os1 = queue_timer os" using b r(3) throttle_keeps by (auto split: if_splits)
  have h: "happen groups (Event m) (None, Some p, os) = (None, apfst Some (iface_event groups None m p os))"
    using m(1) by (simp add: wpa_supplicant_ctrl_iface_msg_cb_def event_ok_def split: prod.split)
  show ?thesis
  proof (cases busy)
    case True
    let ?p = "p\<lparr>ci_throttle := ci_throttle p + 1, ci_queue := ci_queue p @ [m]\<rparr>"
    have "iface_event groups None m p os = (?p, os1\<lparr>queue_timer := True\<rparr>)"
      using b True r(4) m(3) by (simp add: iface_event_def Let_def wpas_ctrl_msg_queue_limit_def wpas_ctrl_msg_queue_def)
    moreover have "in_order w sk ds (msgs @ [m]) ?p (os1\<lparr>queue_timer := True\<rparr>)" using s r o by (auto simp: in_order_def)
    ultimately show ?thesis using h by simp
  next
    case False
    then have q: "ci_queue p = []" using b by (auto split: if_splits)
    from iface_send_ok [where os = os1 and msg = m and priv = "p\<lparr>ci_throttle := 0\<rparr>" and name = "\<lambda>_. None" and groups = groups] o m r(2) obtain es where
      w: "wpa_supplicant_ctrl_iface_send groups None (m_level m) (m_txt m) (p\<lparr>ci_throttle := 0\<rparr>) os1 =
        (p\<lparr>ci_throttle := 0, ci_dst := es\<rparr>, os1\<lparr>wire := wire os1 @ frames (\<lambda>_. None) sk (ci_dst p) m\<rparr>)" "same_monitors (ci_dst p) es"
      by (auto simp: event_ok_def)
    let ?p = "p\<lparr>ci_throttle := 0, ci_dst := es\<rparr>" and ?os = "os1\<lparr>wire := wire os1 @ frames (\<lambda>_. None) sk (ci_dst p) m\<rparr>"
    have "iface_event groups None m p os = (?p, ?os)" using b False w(1) by (simp add: iface_event_def)
    moreover have "wire ?os = w @ concat (map (frames (\<lambda>_. None) sk ds) (msgs @ [m]))"
      using s q o frames_same [OF r(1)] by simp
    then have "in_order w sk ds (msgs @ [m]) ?p ?os"
      using q r o same_monitors_trans [OF r(1) w(2)] unfolding in_order_def by (intro conjI exI [of _ "msgs @ [m]"]) auto
    ultimately show ?thesis using h by simp
  qed
qed

lemma in_order_timer:
  assumes i: "in_order w sk ds msgs p os" and m: "\<forall>m \<in> set msgs. event_ok m" "0 \<le> sk"
  shows "\<exists>p' os'. happen groups Timer (None, Some p, os) = (None, Some p', os') \<and> in_order w sk ds msgs p' os' \<and> (congestion os = [] \<longrightarrow> ci_queue p' = [])"
proof (cases "queue_timer os")
  case False
  with i show ?thesis by (auto simp: in_order_def)
next
  case True
  from i obtain sentm where s: "wire os = w @ concat (map (frames (\<lambda>_. None) sk ds) sentm)" "sentm @ ci_queue p = msgs"
    and r: "same_monitors ds (ci_dst p)" "ci_sock p = sk" "send_results os = []" "ci_throttle p \<le> length msgs" by (auto simp: in_order_def)
  have "\<forall>m \<in> set (ci_queue p). msg_ok m" using m(1) s(2) by (auto simp: event_ok_def)
  from send_pending_ok [OF _ this, where os = "os\<lparr>queue_timer := False\<rparr>" and priv = p and ds = ds and name = "\<lambda>_. None" and groups = groups] r m(2) have
    "\<exists>more rest es os'. send_pending groups (\<lambda>_. None) (ci_queue p) p (os\<lparr>queue_timer := False\<rparr>) = (p\<lparr>ci_dst := es, ci_queue := rest\<rparr>, os') \<and> ci_queue p = more @ rest \<and>
      same_monitors ds es \<and> wire os' = wire os @ concat (map (frames (\<lambda>_. None) sk ds) more) \<and> send_results os' = [] \<and> (congestion os = [] \<longrightarrow> rest = [])"
    by simp blast
  then obtain more rest es os' where
    q: "send_pending groups (\<lambda>_. None) (ci_queue p) p (os\<lparr>queue_timer := False\<rparr>) = (p\<lparr>ci_dst := es, ci_queue := rest\<rparr>, os')" "ci_queue p = more @ rest"
      "same_monitors ds es" "wire os' = wire os @ concat (map (frames (\<lambda>_. None) sk ds) more)" "send_results os' = []" "congestion os = [] \<longrightarrow> rest = []" by blast
  let ?p = "p\<lparr>ci_dst := es, ci_queue := rest\<rparr>" and ?os = "if rest \<noteq> [] then os'\<lparr>queue_timer := True\<rparr> else os'"
  have "happen groups Timer (None, Some p, os) = (None, Some ?p, ?os)"
    using True q(1) r(2) m(2)
    by (simp add: wpas_ctrl_msg_queue_timeout_def wpas_ctrl_msg_send_pending_global_def wpas_ctrl_msg_send_pending_iface_def waiting_sock_def Let_def)
  moreover have "in_order w sk ds msgs ?p ?os"
    using s q r unfolding in_order_def by (intro conjI exI [of _ "sentm @ more"]) auto
  ultimately show ?thesis using q(6) by auto
qed

lemma in_order_run:
  assumes "0 \<le> sk" "length (events hs) \<le> 1999" "\<forall>m \<in> set (events hs). event_ok m" "in_order w sk ds [] p os"
  shows "\<exists>p' os'. fold (happen groups) hs (None, Some p, os) = (None, Some p', os') \<and> in_order w sk ds (events hs) p' os'"
  using assms(2,3)
proof (induction hs rule: rev_induct)
  case Nil
  then show ?case using assms(4) by (simp add: events_def map_filter_def)
next
  case (snoc h hs)
  then obtain p1 os1 where f: "fold (happen groups) hs (None, Some p, os) = (None, Some p1, os1)" "in_order w sk ds (events hs) p1 os1"
    by (auto simp: events_snoc split: happening.splits)
  show ?case
  proof (cases h)
    case (Event m)
    with snoc.prems f in_order_event [OF f(2), of m groups] assms(1) show ?thesis by (auto simp: events_snoc)
  next
    case Timer
    with snoc.prems f in_order_timer [OF f(2), of groups] assms(1) show ?thesis by (auto simp: events_snoc)
  qed
qed


section \<open>The bound of the queue\<close>

lemma reinit_keeps: "wpas_ctrl_iface_reinit groups priv os = (s, priv', os') \<Longrightarrow> ci_queue priv' = ci_queue priv \<and> ci_throttle priv' = ci_throttle priv"
  by (drule reinit_record) (metis ctrl_iface_priv.select_convs(6,7) ctrl_iface_priv.surjective ctrl_iface_priv.update_convs(3))

lemma send_loop_keeps:
  "send_loop groups level txt sk served ds priv os = (priv', os') \<Longrightarrow> ci_queue priv' = ci_queue priv \<and> ci_throttle priv' = ci_throttle priv"
proof (induction ds arbitrary: sk served priv os)
  case (Cons d ds)
  from Cons.prems show ?case
    by (auto simp: Let_def split: if_splits prod.splits send_res.splits dest: Cons.IH dest!: reinit_keeps)
qed auto

lemma iface_send_keeps:
  "wpa_supplicant_ctrl_iface_send groups ifname level buf priv os = (priv', os') \<Longrightarrow> ci_queue priv' = ci_queue priv \<and> ci_throttle priv' = ci_throttle priv"
  by (auto simp: wpa_supplicant_ctrl_iface_send_def split: if_splits dest: send_loop_keeps)

lemma send_pending_keeps:
  "send_pending groups name q priv os = (priv', os') \<Longrightarrow> length (ci_queue priv') \<le> length q \<and> ci_throttle priv' = ci_throttle priv"
proof (induction q arbitrary: priv os)
  case (Cons msg q)
  from Cons.prems show ?case
    by (auto split: prod.splits bool.splits dest!: Cons.IH iface_send_keeps)
qed auto

definition queue_ok :: "nat \<Rightarrow> ctrl_iface_priv \<Rightarrow> bool" where
  "queue_ok n p \<longleftrightarrow> length (ci_queue p) \<le> 1999 \<and> length (ci_queue p) \<le> ci_throttle p \<and> ci_throttle p \<le> n"

lemma queue_ok_event:
  assumes "queue_ok n p" "n + 1 < 2 ^ 32" "iface_event groups ifname msg p os = (p', os')"
  shows "queue_ok (n + 1) p'"
proof -
  obtain busy os1 where b: "(if ci_queue p \<noteq> [] then (True, os) else wpas_ctrl_iface_throttle os) = (busy, os1)" by fastforce
  show ?thesis
  proof (cases busy)
    case True
    then have "p' = fst (wpas_ctrl_msg_queue msg (wpas_ctrl_msg_queue_limit (p\<lparr>ci_throttle := ci_throttle p + 1\<rparr>)) os1)"
      using b assms by (simp add: iface_event_def queue_ok_def)
    then show ?thesis using assms(1) by (auto simp: queue_ok_def wpas_ctrl_msg_queue_limit_def wpas_ctrl_msg_queue_def)
  next
    case False
    then have "ci_queue p = []" using b by (auto split: if_splits)
    with False b assms(3) show ?thesis by (auto simp: iface_event_def queue_ok_def dest!: iface_send_keeps)
  qed
qed

definition both_ok :: "nat \<Rightarrow> ctrl_iface_priv option \<times> ctrl_iface_priv option \<times> ctrl_os \<Rightarrow> bool" where
  "both_ok n s \<longleftrightarrow> (case s of (g, p, os) \<Rightarrow> (\<forall>x \<in> set_option g. queue_ok n x) \<and> (\<forall>x \<in> set_option p. queue_ok n x))"

lemma queue_ok_mono: "queue_ok n p \<Longrightarrow> queue_ok (n + 1) p"
  by (simp add: queue_ok_def)

lemma event_part_ok:
  assumes "\<forall>x \<in> set_option g. queue_ok n x" "n + 1 < 2 ^ 32"
    and "(case g of None \<Rightarrow> (g, os) | Some x \<Rightarrow> if C x then apfst Some (iface_event groups i msg x os) else (g, os)) = (g', os')"
  shows "\<forall>x \<in> set_option g'. queue_ok (n + 1) x"
proof (cases g)
  case None
  with assms(3) show ?thesis by auto
next
  case (Some x)
  obtain y os1 where y: "iface_event groups i msg x os = (y, os1)" by fastforce
  have "queue_ok (n + 1) y" "queue_ok (n + 1) x" using queue_ok_event [OF _ assms(2) y] queue_ok_mono assms(1) Some by auto
  with assms(3) Some y show ?thesis by (auto split: if_splits)
qed

lemma pending_part_ok:
  assumes "\<forall>x \<in> set_option g. queue_ok n x"
    and "(case g of None \<Rightarrow> (None, os) | Some x \<Rightarrow> apfst Some (send_pending groups name (ci_queue x) x os)) = (g', os')"
  shows "\<forall>x \<in> set_option g'. queue_ok (n + 1) x"
proof (cases g)
  case None
  with assms(2) show ?thesis by auto
next
  case (Some x)
  obtain y os1 where y: "send_pending groups name (ci_queue x) x os = (y, os1)" by fastforce
  from send_pending_keeps [OF y] assms(1) Some have "queue_ok (n + 1) y" by (auto simp: queue_ok_def)
  with assms(2) Some y show ?thesis by auto
qed

lemma both_ok_happen:
  assumes "both_ok n s" "n + 1 < 2 ^ 32"
  shows "both_ok (n + 1) (happen groups h s)"
proof -
  obtain g p os where s: "s = (g, p, os)" by (cases s)
  have ok: "\<forall>x \<in> set_option g. queue_ok n x" "\<forall>x \<in> set_option p. queue_ok n x" using assms(1) s by (auto simp: both_ok_def)
  show ?thesis
  proof (cases h)
    case (Event msg)
    obtain g' os1 where G: "(case g of None \<Rightarrow> (g, os) | Some x \<Rightarrow>
      if m_type msg \<noteq> WPA_MSG_NO_GLOBAL \<and> ci_dst x \<noteq> [] then apfst Some (iface_event groups (global_name msg) msg x os) else (g, os)) = (g', os1)" by fastforce
    obtain p' os2 where P: "(case p of None \<Rightarrow> (p, os1) | Some x \<Rightarrow> if m_type msg \<noteq> WPA_MSG_ONLY_GLOBAL then apfst Some (iface_event groups None msg x os1) else (p, os1)) = (p', os2)"
      by fastforce
    have "happen groups h s = (g', p', os2)" unfolding s Event by (simp add: wpa_supplicant_ctrl_iface_msg_cb_def G P)
    with event_part_ok [OF ok(1) assms(2) G] event_part_ok [OF ok(2) assms(2) P] show ?thesis by (simp add: both_ok_def)
  next
    case Timer
    show ?thesis
    proof (cases "queue_timer os")
      case True
      obtain g' os1 where G: "(case g of None \<Rightarrow> (None, os\<lparr>queue_timer := False\<rparr>) | Some x \<Rightarrow>
        apfst Some (send_pending groups global_name (ci_queue x) x (os\<lparr>queue_timer := False\<rparr>))) = (g', os1)" by fastforce
      obtain p' os2 where P: "(case p of None \<Rightarrow> (None, os1) | Some x \<Rightarrow> apfst Some (send_pending groups (\<lambda>_. None) (ci_queue x) x os1)) = (p', os2)" by fastforce
      have "\<exists>os3. happen groups h s = (g', p', os3)" unfolding s Timer using True
        by (simp add: wpas_ctrl_msg_queue_timeout_def wpas_ctrl_msg_send_pending_global_def wpas_ctrl_msg_send_pending_iface_def G P)
      with pending_part_ok [OF ok(1) G] pending_part_ok [OF ok(2) P] show ?thesis by (auto simp: both_ok_def)
    next
      case False
      then show ?thesis using ok queue_ok_mono unfolding s Timer by (auto simp: both_ok_def)
    qed
  qed
qed

lemma both_ok_run: "both_ok n s \<Longrightarrow> n + length hs < 2 ^ 32 \<Longrightarrow> both_ok (n + length hs) (fold (happen groups) hs s)"
proof (induction hs arbitrary: n s)
  case (Cons h hs)
  then have "both_ok (n + 1) (happen groups h s)" by (intro both_ok_happen) auto
  from Cons.IH [OF this] Cons.prems show ?case by simp
qed simp


text \<open>
  C26: Monitors get every event once and in order: from an empty queue, while sends succeed and whatever the congestion of
  the socket, what has been put on the wire after any sequence of fewer than 2000 events and timer expiries are the
  frames of a first part of the events, the rest is in the queue, and the timer that sends it is registered as long as
  there is a rest. When the socket is no longer congested the next expiry sends all of it.
\<close>

theorem events_delivered_in_order:
  assumes "0 \<le> ci_sock p" "ci_queue p = []" "ci_throttle p = 0" "send_results os = []"
    and "length (events hs) \<le> 1999" "\<forall>m \<in> set (events hs). event_ok m"
  shows "\<exists>p' os' sentm. fold (happen groups) hs (None, Some p, os) = (None, Some p', os') \<and> events hs = sentm @ ci_queue p' \<and>
    wire os' = wire os @ concat (map (frames (\<lambda>_. None) (ci_sock p) (ci_dst p)) sentm) \<and> (ci_queue p' \<noteq> [] \<longrightarrow> queue_timer os') \<and>
    (congestion os' = [] \<longrightarrow> (\<exists>q os''. happen groups Timer (None, Some p', os') = (None, Some q, os'') \<and> ci_queue q = [] \<and>
      wire os'' = wire os @ concat (map (frames (\<lambda>_. None) (ci_sock p) (ci_dst p)) (events hs))))"
proof -
  have "in_order (wire os) (ci_sock p) (ci_dst p) [] p os" using assms(2-4) by (auto simp: in_order_def)
  from in_order_run [OF assms(1,5,6) this] obtain p' os' where
    r: "fold (happen groups) hs (None, Some p, os) = (None, Some p', os')" "in_order (wire os) (ci_sock p) (ci_dst p) (events hs) p' os'" by blast
  obtain q os'' where t: "happen groups Timer (None, Some p', os') = (None, Some q, os'')"
    "in_order (wire os) (ci_sock p) (ci_dst p) (events hs) q os''" "congestion os' = [] \<longrightarrow> ci_queue q = []"
    using in_order_timer [OF r(2) assms(6,1)] by blast
  from r(2) obtain sentm where o: "wire os' = wire os @ concat (map (frames (\<lambda>_. None) (ci_sock p) (ci_dst p)) sentm)" "sentm @ ci_queue p' = events hs"
    "ci_queue p' \<noteq> [] \<longrightarrow> queue_timer os'" unfolding in_order_def by blast
  from t(2) obtain all where a: "wire os'' = wire os @ concat (map (frames (\<lambda>_. None) (ci_sock p) (ci_dst p)) all)" "all @ ci_queue q = events hs"
    unfolding in_order_def by blast
  show ?thesis using r(1) o t(1,3) a by (intro exI [of _ p'] exI [of _ os'] exI [of _ sentm] conjI impI exI [of _ q] exI [of _ os'']) auto
qed

definition demo_monitor :: wpa_ctrl_dst where
  "demo_monitor = \<lparr>d_addr = Sun ''/tmp/m'', d_level = MSG_INFO, d_errors = 0\<rparr>"

definition demo_iface :: ctrl_iface_priv where
  "demo_iface = (new_priv False demo_conf)\<lparr>ci_sock := 3, ci_dst := [demo_monitor]\<rparr>"

definition demo_ctrl_os :: ctrl_os where
  "demo_ctrl_os = \<lparr>sys_nodes = [], sys_abstract = [], sys_fails = [], sys_fds = [0, 1, 2, 3], sys_next = 4, sys_reads = [3],
     sys_msg_cb = True, queue_timer = False, wire = [], send_results = [], congestion = [(Some 100, Some 80)]\<rparr>"

definition demo_event :: "string \<Rightarrow> ctrl_iface_msg" where
  "demo_event t = \<lparr>m_wpa_s = ''wlan0'', m_level = MSG_INFO, m_type = WPA_MSG_PER_INTERFACE, m_txt = t\<rparr>"

lemmas demo_iface_defs = demo_monitor_def demo_iface_def demo_ctrl_os_def demo_event_def MSG_INFO_def new_priv_def

theorem events_delivered_in_order_witness:
  "\<exists>p os sentm. fold (happen demo_groups) [Event (demo_event ''A''), Event (demo_event ''B''), Timer] (None, Some demo_iface, demo_ctrl_os) = (None, Some p, os) \<and>
     [demo_event ''A'', demo_event ''B''] = sentm @ ci_queue p \<and> wire os = concat (map (frames (\<lambda>_. None) 3 [demo_monitor]) sentm)"
proof -
  let ?hs = "[Event (demo_event ''A''), Event (demo_event ''B''), Timer]"
  have e: "events ?hs = [demo_event ''A'', demo_event ''B'']" by (simp add: events_def map_filter_def)
  have ok: "\<forall>m \<in> set (events ?hs). event_ok m" unfolding e
    by (simp add: event_ok_def msg_ok_def demo_event_def level_text_def show_int_def show_nat.simps LEVELSTR_LEN_def MSG_INFO_def)
  have d: "ci_sock demo_iface = 3" "ci_queue demo_iface = []" "ci_throttle demo_iface = 0" "ci_dst demo_iface = [demo_monitor]"
    "send_results demo_ctrl_os = []" "wire demo_ctrl_os = []" by (simp_all add: demo_iface_def demo_ctrl_os_def new_priv_def)
  from events_delivered_in_order [OF _ _ _ _ _ ok, of demo_iface demo_ctrl_os demo_groups]
  show ?thesis unfolding e d append_Nil by auto
qed

text \<open>
  C29: The queue of an interface is bounded: over fewer than \<open>2 ^ 32\<close> events and timer expiries, with sends and reopening of the
  socket failing in any way, neither the interface nor the global interface holds more than 1999 messages.
\<close>

theorem event_queue_bounded:
  assumes "both_ok 0 s" "length hs < 2 ^ 32"
  shows "case fold (happen groups) hs s of (g, p, os) \<Rightarrow> \<forall>x. g = Some x \<or> p = Some x \<longrightarrow> length (ci_queue x) \<le> 1999"
  using both_ok_run [OF assms(1), of hs groups] assms(2) by (auto simp: both_ok_def queue_ok_def split: prod.splits)

theorem event_queue_bounded_witness:
  "case fold (happen demo_groups) (replicate 5000 (Event (demo_event ''A''))) (Some demo_iface, Some demo_iface, demo_ctrl_os) of
     (g, p, os) \<Rightarrow> \<forall>x. g = Some x \<or> p = Some x \<longrightarrow> length (ci_queue x) \<le> 1999"
  by (rule event_queue_bounded) (simp_all add: both_ok_def queue_ok_def demo_iface_defs)


text \<open>
  The counter behind the bound is reset only by a message that is sent at once. After 2000 messages that had to wait,
  every further one that has to wait drops an undelivered message, however short the queue is by then.
\<close>

lemma counter_drops_undelivered:
  assumes "1999 \<le> ci_throttle p" "ci_throttle p + 1 < 2 ^ 32" "ci_queue p = [old]"
  shows "ci_queue (fst (iface_event groups ifname msg p os)) = [msg]"
  using assms by (simp add: iface_event_def Let_def wpas_ctrl_msg_queue_limit_def wpas_ctrl_msg_queue_def)

section \<open>The daemon as the peer of a client\<close>

type_synonym 'd daemon = "ctrl_iface_priv \<times> 'd \<times> ctrl_os"

definition daemon_request :: "(string \<Rightarrow> int option) \<Rightarrow> ('d \<Rightarrow> string \<Rightarrow> reply \<times> 'd) \<Rightarrow> ('d \<Rightarrow> 'd) \<Rightarrow> (nat \<Rightarrow> string) \<Rightarrow> nat \<times> string \<Rightarrow> 'd daemon \<Rightarrow> 'd daemon" where
  "daemon_request groups process notify path r s =
     (case (r, s) of ((fd, cmd), (p, d, os)) \<Rightarrow> wpa_supplicant_ctrl_iface_receive groups process notify (Some (Sun (path fd), cmd)) p d os)"

definition daemon_after :: "(string \<Rightarrow> int option) \<Rightarrow> ('d \<Rightarrow> string \<Rightarrow> reply \<times> 'd) \<Rightarrow> ('d \<Rightarrow> 'd) \<Rightarrow> (nat \<Rightarrow> string) \<Rightarrow> 'd daemon \<Rightarrow> (nat \<times> string) list \<Rightarrow> 'd daemon" where
  "daemon_after groups process notify path s reqs = fold (daemon_request groups process notify path) reqs s"

text \<open>
  What a request makes the daemon send, as arrivals at the clients: \<open>path\<close> is the name of the socket of a
  descriptor, \<open>fd_of\<close> the descriptor of an address.
\<close>

definition daemon_peer :: "(string \<Rightarrow> int option) \<Rightarrow> ('d \<Rightarrow> string \<Rightarrow> reply \<times> 'd) \<Rightarrow> ('d \<Rightarrow> 'd) \<Rightarrow> (nat \<Rightarrow> string) \<Rightarrow> (sockaddr \<Rightarrow> nat) \<Rightarrow> 'd daemon \<Rightarrow> (nat \<times> string) list \<Rightarrow> (nat \<times> sock_ev) list" where
  "daemon_peer groups process notify path fd_of s reqs =
     (let wire_of = (\<lambda>s. case s of (p, d, os) \<Rightarrow> wire os);
          old = wire_of (daemon_after groups process notify path s (butlast reqs)); new = wire_of (daemon_after groups process notify path s reqs)
      in map (\<lambda>(sk, a, t). (fd_of a, Data t)) (drop (length old) new))"

lemma daemon_after_snoc: "daemon_after groups process notify path s (reqs @ [r]) = daemon_request groups process notify path r (daemon_after groups process notify path s reqs)"
  by (simp add: daemon_after_def)

lemma sock_sendto_ok: "send_results os = [] \<Longrightarrow> sock_sendto sk a t os = (Sent_ok, os\<lparr>wire := wire os @ [(sk, a, t)]\<rparr>)"
  by (cases os) (simp add: sock_sendto_def send_result_def)

text \<open>The answer to a request of the socket itself.\<close>

lemma recv_reply_one:
  "t \<noteq> [] \<Longrightarrow> t ! 0 \<noteq> CHR ''<'' \<Longrightarrow> length t \<le> length b \<Longrightarrow>
   recv_reply fd [Data t] b msg_cb st = ((0, memwrite b t, length t), st\<lparr>inbox := (inbox st)(fd := [])\<rparr>)"
  by (simp add: recv_reply.simps Let_def memwrite_def nth_append)

lemma helper_reply:
  assumes "send_script st = []" "inbox st (sock c) = []" "peer st (sent st @ [(sock c, if at then ''ATTACH'' else ''DETACH'')]) = [(sock c, Data t)]"
    and "t = ''OK'' @ [NL] \<or> t = ''FAIL'' @ [NL]"
  shows "wpa_ctrl_attach_helper c at st =
    ((if t = ''OK'' @ [NL] then 0 else -1), (after_send (sock c) (if at then ''ATTACH'' else ''DETACH'') st)\<lparr>inbox := (inbox (after_send (sock c) (if at then ''ATTACH'' else ''DETACH'') st))(sock c := [])\<rparr>)"
proof -
  let ?cmd = "if at then ''ATTACH'' else ''DETACH''" and ?st = "after_send (sock c) (if at then ''ATTACH'' else ''DETACH'') st"
  have "arrivals (sock c) ?cmd st = [Data t]" using assms(2,3) by (simp add: arrivals_def deliver_def)
  then have r: "wpa_ctrl_request c ?cmd (replicate 10 NUL) None st = recv_reply (sock c) [Data t] (replicate 10 NUL) None ?st"
    using request_after_send [OF assms(1), of c ?cmd "replicate 10 NUL" None] by simp
  have "recv_reply (sock c) [Data t] (replicate 10 NUL) None ?st =
    ((0, memwrite (replicate 10 NUL) t, length t), ?st\<lparr>inbox := (inbox ?st)(sock c := [])\<rparr>)"
    using assms(4) by (intro recv_reply_one) auto
  with r show ?thesis using assms(4) unfolding wpa_ctrl_attach_helper_def
    by (elim disjE) (simp_all add: memwrite_def numeral_eq_Suc)
qed

lemma daemon_attach:
  assumes "daemon_after groups process notify path s (sent st) = (p, d, os)" "send_results os = []" "at = True \<or> at = False"
  shows "daemon_after groups process notify path s (sent st @ [(fd, if at then ''ATTACH'' else ''DETACH'')]) =
    (if at then (p\<lparr>ci_dst := \<lparr>d_addr = Sun (path fd), d_level = MSG_INFO, d_errors = 0\<rparr> # ci_dst p\<rparr>, notify d, os\<lparr>wire := wire os @ [(ci_sock p, Sun (path fd), ''OK'' @ [NL])]\<rparr>)
     else (p\<lparr>ci_dst := snd (ctrl_iface_detach (ci_dst p) (Sun (path fd)))\<rparr>, d,
       os\<lparr>wire := wire os @ [(ci_sock p, Sun (path fd), (if Sun (path fd) \<in> set (addrs (ci_dst p)) then ''OK'' else ''FAIL'') @ [NL])]\<rparr>))"
proof -
  obtain r ds where x: "ctrl_iface_detach (ci_dst p) (Sun (path fd)) = (r, ds)" by fastforce
  have c: "cstr_of (take 4095 ''ATTACH'') = ''ATTACH''" "cstr_of (take 4095 ''DETACH'') = ''DETACH''" by (simp_all add: cstr_of_def)
  show ?thesis unfolding daemon_after_snoc assms(1)
    using detach_addrs [OF x] x
    by (simp add: daemon_request_def wpa_supplicant_ctrl_iface_receive_def c iface_command_def ctrl_iface_attach_def reply_text_def sock_sendto_ok [OF assms(2)])
qed

text \<open>
  C27: Attaching through the socket: against the daemon, \<^verbatim>\<open>wpa_ctrl_attach\<close> returns 0 and puts the client in front of the
  list of monitors; \<^verbatim>\<open>wpa_ctrl_detach\<close> returns 0 and removes the client once if it is attached, and returns -1 and
  changes nothing if it is not. Nothing is left in the inbox of the client.
\<close>

theorem attach_reaches_daemon:
  assumes "peer st = daemon_peer groups process notify path fd_of s" "fd_of (Sun (path (sock c))) = sock c"
    and "send_script st = []" "inbox st (sock c) = []" "daemon_after groups process notify path s (sent st) = (p, d, os)" "send_results os = []"
  shows "(\<exists>st' p' d' os'. wpa_ctrl_attach c st = (0, st') \<and> inbox st' (sock c) = [] \<and> daemon_after groups process notify path s (sent st') = (p', d', os') \<and>
      addrs (ci_dst p') = Sun (path (sock c)) # addrs (ci_dst p)) \<and>
    (\<exists>st' p' d' os'. wpa_ctrl_detach c st = ((if Sun (path (sock c)) \<in> set (addrs (ci_dst p)) then 0 else -1), st') \<and> inbox st' (sock c) = [] \<and>
      daemon_after groups process notify path s (sent st') = (p', d', os') \<and> addrs (ci_dst p') = remove1 (Sun (path (sock c))) (addrs (ci_dst p)))" (is "?A \<and> ?D")
proof
  note da = daemon_attach [OF assms(5,6), where fd = "sock c"]
  have p: "peer st (sent st @ [(sock c, if at then ''ATTACH'' else ''DETACH'')]) =
    [(sock c, Data (if at \<or> Sun (path (sock c)) \<in> set (addrs (ci_dst p)) then ''OK'' @ [NL] else ''FAIL'' @ [NL]))]" for at
    using da [of at] assms(2,5) unfolding assms(1) daemon_peer_def by (simp add: Let_def)
  note h = helper_reply [OF assms(3,4) p]
  have sent: "sent (after_send fd cmd st) = sent st @ [(fd, cmd)]" for fd cmd by (simp add: after_send_def)
  show ?A using h [of True] da [of True] by (simp add: wpa_ctrl_attach_def sent addrs_def)
  obtain r ds where x: "ctrl_iface_detach (ci_dst p) (Sun (path (sock c))) = (r, ds)" by fastforce
  show ?D using h [of False] da [of False] detach_addrs [OF x] x by (simp add: wpa_ctrl_detach_def sent)
qed

theorem attach_reaches_daemon_witness:
  "(let s = (demo_iface, (), demo_ctrl_os); path = (\<lambda>fd. ''/tmp/c''); process = (\<lambda>d c. (No_reply 1, d));
        st = demo_os (daemon_peer demo_groups process id path (\<lambda>a. 3) s)
    in \<exists>st' p' d' os'. wpa_ctrl_attach demo_ctrl st = (0, st') \<and> daemon_after demo_groups process id path s (sent st') = (p', d', os') \<and>
         addrs (ci_dst p') = [Sun ''/tmp/c'', Sun ''/tmp/m''])"
proof -
  let ?s = "(demo_iface, (), demo_ctrl_os)" and ?path = "\<lambda>fd::nat. ''/tmp/c''" and ?process = "\<lambda>d c. (No_reply 1, d)"
  let ?st = "demo_os (daemon_peer demo_groups ?process id ?path (\<lambda>a. 3) ?s)"
  have h: "peer ?st = daemon_peer demo_groups ?process id ?path (\<lambda>a. 3) ?s" "3 = sock demo_ctrl" "send_script ?st = []" "inbox ?st (sock demo_ctrl) = []"
    "daemon_after demo_groups ?process id ?path ?s (sent ?st) = ?s" "send_results demo_ctrl_os = []" "addrs (ci_dst demo_iface) = [Sun ''/tmp/m'']"
    by (simp_all add: demo_os_def demo_ctrl_def demo_ctrl_os_def daemon_after_def demo_iface_def demo_monitor_def addrs_def)
  have "\<exists>st' p' d' os'. wpa_ctrl_attach demo_ctrl ?st = (0, st') \<and> daemon_after demo_groups ?process id ?path ?s (sent st') = (p', d', os') \<and>
      addrs (ci_dst p') = Sun ''/tmp/c'' # addrs (ci_dst demo_iface)"
    using attach_reaches_daemon [OF h(1-6)] by blast
  then show ?thesis unfolding h(7) Let_def .
qed

end
