(* ===== verification/Net_Fields.thy ===== *)
theory Net_Fields
  imports Hex_Utils
begin

text \<open>
  The values of a network block of the daemon, \<^verbatim>\<open>wpa_supplicant/config.c\<close>: a parser and a writer for every kind of
  field. A network is the record \<open>wpa_ssid\<close>; its plain text and number fields are two functions from the name of the field.
  A parser returns 0 for a change, 1 for no change and -1 for an error, with the network as it is left. A writer returns
  the text of a value, or nothing. Memory allocation succeeds. The EAP methods of the build are the
  argument \<open>methods\<close>, with name, vendor and type; the build options are the argument \<open>b\<close>.
\<close>

datatype build_opt = IEEE8021X_EAPOL | OPT_MESH | OPT_IEEE80211W | OPT_ACS | OPT_P2P | OPT_HT_OVERRIDES | OPT_VHT_OVERRIDES | OPT_MACSEC |
  OPT_HS20 | OPT_IEEE80211R | OPT_WPS | OPT_SAE | OPT_SUITEB | OPT_SUITEB192 | OPT_EXT_PASSWORD | OPT_NO_PBKDF2 | OPT_CTRL_IFACE |
  OPT_FST | OPT_MBO | OPT_AP | OPT_INTERWORKING | OPT_NO_CONFIG_BLOBS | IGNORE_CONFIG_ERRORS

type_synonym eap_methods = "(string \<times> int \<times> int) list"

record psk_list_entry =
  pl_addr :: "char list"
  pl_psk :: "char list"
  pl_p2p :: bool

record wpa_ssid =
  ws_id :: int
  ws_str :: "string \<Rightarrow> char list option"
  ws_int :: "string \<Rightarrow> int"
  ws_bssid :: "char list"
  ws_bssid_set :: bool
  ws_bssid_blacklist :: "(char list \<times> char list) list"
  ws_bssid_whitelist :: "(char list \<times> char list) list"
  ws_p2p_client_list :: "(char list \<times> char list) list"
  ws_ext_psk :: "string option"
  ws_passphrase :: "string option"
  ws_psk :: "char list"
  ws_psk_set :: bool
  ws_proto :: int
  ws_key_mgmt :: int
  ws_pairwise_cipher :: int
  ws_group_cipher :: int
  ws_auth_alg :: int
  ws_scan_freq :: "int list"
  ws_freq_list :: "int list"
  ws_mesh_basic_rates :: "int list"
  ws_eap_methods :: "(int \<times> int) list option"
  ws_leap :: int
  ws_non_leap :: int
  ws_password :: "char list option"
  ws_eap_flags :: int
  ws_wep_key :: "nat \<Rightarrow> char list"
  ws_wep_key_len :: "nat \<Rightarrow> nat"
  ws_go_p2p_dev_addr :: "char list"
  ws_psk_list :: "psk_list_entry list"
  ws_disabled_until :: nat
  ws_auth_failures :: nat
  ws_export_keys :: bool
  ws_temporary :: bool
  ws_parent_cred :: "int option"

section \<open>Text\<close>

definition write_string_ascii :: "char list \<Rightarrow> string" where
  "write_string_ascii value = DQ # value @ [DQ]"

definition write_string_hex :: "char list \<Rightarrow> string" where
  "write_string_hex value = cstr_of (snd (wpa_snprintf_hex (replicate (2 * length value + 1) NUL) value))"

definition wpa_config_write_string :: "char list \<Rightarrow> string" where
  "wpa_config_write_string value = (if is_hex value then write_string_hex value else write_string_ascii value)"

text \<open>
  A text field: \<open>lenf\<close> says whether the field has a length of its own, \<open>mn\<close> and \<open>mx\<close> are the bounds of the length, zero for none.
\<close>

definition stored_text :: "bool \<Rightarrow> char list \<Rightarrow> char list" where
  "stored_text lenf t = (if lenf then t else cstr_of t)"

definition wpa_config_parse_str :: "string \<Rightarrow> bool \<Rightarrow> nat \<Rightarrow> nat \<Rightarrow> string \<Rightarrow> wpa_ssid \<Rightarrow> int \<times> wpa_ssid" where
  "wpa_config_parse_str f lenf mn mx value ssid =
     (let set = (\<lambda>tmp :: char list option.
        case (ws_str ssid f, tmp) of
          (None, None) \<Rightarrow> (1, ssid)
        | (Some old, Some t) \<Rightarrow>
            if length (stored_text lenf old) = length t \<and> take (length t) old = t then (1, ssid)
            else (0, ssid\<lparr>ws_str := (ws_str ssid)(f := Some t)\<rparr>)
        | _ \<Rightarrow> (0, ssid\<lparr>ws_str := (ws_str ssid)(f := tmp)\<rparr>))
      in if value = ''NULL'' then set None
         else case wpa_config_parse_string value of
             None \<Rightarrow> (-1, ssid)
           | Some tmp \<Rightarrow>
               if mn \<noteq> 0 \<and> length tmp < mn then (-1, ssid)
               else if mx \<noteq> 0 \<and> mx < length tmp then (-1, ssid)
               else set (Some tmp))"

definition wpa_config_write_str :: "string \<Rightarrow> bool \<Rightarrow> wpa_ssid \<Rightarrow> string option" where
  "wpa_config_write_str f lenf ssid = map_option (\<lambda>t. wpa_config_write_string (stored_text lenf t)) (ws_str ssid f)"

section \<open>Numbers\<close>

definition digit_in :: "nat \<Rightarrow> char \<Rightarrow> bool" where
  "digit_in base c = (let d = hex2num c in 0 \<le> d \<and> d < int base)"

fun base_val :: "nat \<Rightarrow> int \<Rightarrow> string \<Rightarrow> int" where
  "base_val base acc [] = acc"
| "base_val base acc (c # s) = (if digit_in base c then base_val base (int base * acc + hex2num c) s else acc)"

text \<open>\<^verbatim>\<open>strtol\<close> with base 0: the value, limited to a \<^verbatim>\<open>long\<close>, and what is behind it.\<close>

definition strtol0 :: "string \<Rightarrow> int \<times> string" where
  "strtol0 s =
     (let r = dropWhile c_isspace s; neg = (take 1 r = ''-''); d = (if neg \<or> take 1 r = ''+'' then drop 1 r else r);
          hex = (take 1 d = ''0'' \<and> (take 1 (drop 1 d) = ''x'' \<or> take 1 (drop 1 d) = ''X'') \<and> digit_in 16 (at0 (drop 2 d)));
          base = (if hex then 16 else if take 1 d = ''0'' then 8 else 10); d = (if hex then drop 2 d else d);
          v = base_val base 0 d
      in if takeWhile (digit_in base) d = [] then (0, s)
         else (max (- (2 ^ 63)) (min (2 ^ 63 - 1) (if neg then - v else v)), dropWhile (digit_in base) d))"

definition int32 :: "int \<Rightarrow> int" where
  "int32 v = (v + 2 ^ 31) mod 2 ^ 32 - 2 ^ 31"

text \<open>The bounds count when they are not zero. A value out of bounds is replaced by the bound, and the parser reports an error.\<close>

definition wpa_config_parse_int :: "string \<Rightarrow> int \<Rightarrow> int \<Rightarrow> string \<Rightarrow> wpa_ssid \<Rightarrow> int \<times> wpa_ssid" where
  "wpa_config_parse_int f mn mx value ssid =
     (let (v, endp) = strtol0 value; val = int32 v; put = (\<lambda>x. ssid\<lparr>ws_int := (ws_int ssid)(f := x)\<rparr>)
      in if endp \<noteq> [] then (-1, ssid)
         else if ws_int ssid f = val then (1, ssid)
         else if mn \<noteq> 0 \<and> val < mn then (-1, put mn)
         else if mx \<noteq> 0 \<and> mx < val then (-1, put mx)
         else (0, put val))"

definition wpa_config_write_int :: "string \<Rightarrow> wpa_ssid \<Rightarrow> string option" where
  "wpa_config_write_int f ssid =
     (let (value, res) = os_snprintf 20 (show_int (ws_int ssid f)) in if os_snprintf_error 20 res then None else Some value)"

section \<open>Addresses\<close>

lemma strchr_drop_shorter: "os_strchr (dropWhile (\<lambda>x. x = c) s) c = Some r \<Longrightarrow> length r < length s"
proof -
  let ?d = "dropWhile (\<lambda>x. x = c) s"
  assume a: "os_strchr ?d c = Some r"
  then obtain q t where q: "?d = q @ r" "r = c # t" using os_strchr_Some by blast
  have "q \<noteq> []" using q hd_dropWhile [of "\<lambda>x. x = c" s] by force
  then have "length r < length ?d" using q(1) by simp
  then show ?thesis using length_dropWhile_le [of "\<lambda>x. x = c" s] by linarith
qed

text \<open>The loop over the addresses of a list, each stored in front of the earlier ones.\<close>

function addr_list_loop :: "bool \<Rightarrow> bool \<Rightarrow> string \<Rightarrow> (char list \<times> char list) list \<Rightarrow> (char list \<times> char list) list option" where
  "addr_list_loop abort masked pos buf =
     (if pos = [] then Some buf
      else
        let pos = dropWhile (\<lambda>c. c = CHR '' '') pos;
            (r, addr, msk) = hwaddr_masked_aton pos (replicate ETH_ALEN NUL) (replicate ETH_ALEN NUL) masked
        in if r \<noteq> 0 \<and> (abort \<or> buf = []) then None
           else
             let buf = (if r \<noteq> 0 then buf else (addr, msk) # buf)
             in case os_strchr pos (CHR '' '') of None \<Rightarrow> Some buf | Some p \<Rightarrow> addr_list_loop abort masked p buf)"
  by pat_completeness auto
termination
  by (relation "measure (\<lambda>(abort, masked, pos, buf). length pos)") (auto dest!: strchr_drop_shorter)

declare addr_list_loop.simps [simp del]

definition wpa_config_parse_addr_list :: "bool \<Rightarrow> bool \<Rightarrow> string \<Rightarrow> (char list \<times> char list) list option" where
  "wpa_config_parse_addr_list abort masked value = addr_list_loop abort masked value []"

text \<open>The writer starts with the last entry, the first of the text; \<open>room\<close> is what is left of the buffer.\<close>

fun write_addr_loop :: "nat \<Rightarrow> bool \<Rightarrow> (char list \<times> char list) list \<Rightarrow> string option" where
  "write_addr_loop room first [] = Some []"
| "write_addr_loop room first ((a, m) # as) =
     (let sep = (if first then [] else '' ''); room = room - length sep
      in case hwaddr_mask_txt room a m of
           (res, t) \<Rightarrow> if res < 0 then None else map_option (\<lambda>r. sep @ t @ r) (write_addr_loop (room - nat res) False as))"

definition wpa_config_write_addr_list :: "(char list \<times> char list) list \<Rightarrow> string option" where
  "wpa_config_write_addr_list list = (if list = [] then None else write_addr_loop (40 * length list) True (rev list))"

definition any_addr :: "string \<Rightarrow> bool" where
  "any_addr value \<longleftrightarrow> value = [] \<or> value = [DQ, DQ] \<or> value = ''any''"

definition wpa_config_parse_bssid :: "string \<Rightarrow> wpa_ssid \<Rightarrow> int \<times> wpa_ssid" where
  "wpa_config_parse_bssid value ssid =
     (if any_addr value then (0, ssid\<lparr>ws_bssid_set := False\<rparr>)
      else case hwaddr_aton value (ws_bssid ssid) of
          (r, a) \<Rightarrow> if r \<noteq> 0 then (-1, ssid\<lparr>ws_bssid := a\<rparr>) else (0, ssid\<lparr>ws_bssid := a, ws_bssid_set := True\<rparr>))"

definition wpa_config_write_bssid :: "wpa_ssid \<Rightarrow> string option" where
  "wpa_config_write_bssid ssid =
     (if \<not> ws_bssid_set ssid then None
      else let (value, res) = os_snprintf 20 (MACSTR (ws_bssid ssid)) in if os_snprintf_error 20 res then None else Some value)"

definition wpa_config_parse_bssid_blacklist :: "string \<Rightarrow> wpa_ssid \<Rightarrow> int \<times> wpa_ssid" where
  "wpa_config_parse_bssid_blacklist value ssid =
     (case wpa_config_parse_addr_list True True value of None \<Rightarrow> (-1, ssid) | Some l \<Rightarrow> (0, ssid\<lparr>ws_bssid_blacklist := l\<rparr>))"

definition wpa_config_parse_bssid_whitelist :: "string \<Rightarrow> wpa_ssid \<Rightarrow> int \<times> wpa_ssid" where
  "wpa_config_parse_bssid_whitelist value ssid =
     (case wpa_config_parse_addr_list True True value of None \<Rightarrow> (-1, ssid) | Some l \<Rightarrow> (0, ssid\<lparr>ws_bssid_whitelist := l\<rparr>))"

definition wpa_config_parse_p2p_client_list :: "string \<Rightarrow> wpa_ssid \<Rightarrow> int \<times> wpa_ssid" where
  "wpa_config_parse_p2p_client_list value ssid =
     (case wpa_config_parse_addr_list False False value of None \<Rightarrow> (-1, ssid) | Some l \<Rightarrow> (0, ssid\<lparr>ws_p2p_client_list := l\<rparr>))"

text \<open>The address of a group owner; setting it also marks the BSSID as set.\<close>

definition wpa_config_parse_go_p2p_dev_addr :: "string \<Rightarrow> wpa_ssid \<Rightarrow> int \<times> wpa_ssid" where
  "wpa_config_parse_go_p2p_dev_addr value ssid =
     (if any_addr value then (0, ssid\<lparr>ws_go_p2p_dev_addr := replicate ETH_ALEN NUL\<rparr>)
      else case hwaddr_aton value (ws_go_p2p_dev_addr ssid) of
          (r, a) \<Rightarrow> if r \<noteq> 0 then (-1, ssid\<lparr>ws_go_p2p_dev_addr := a\<rparr>) else (0, ssid\<lparr>ws_go_p2p_dev_addr := a, ws_bssid_set := True\<rparr>))"

definition wpa_config_write_go_p2p_dev_addr :: "wpa_ssid \<Rightarrow> string option" where
  "wpa_config_write_go_p2p_dev_addr ssid =
     (if ws_go_p2p_dev_addr ssid = replicate ETH_ALEN NUL then None
      else let (value, res) = os_snprintf 20 (MACSTR (ws_go_p2p_dev_addr ssid)) in if os_snprintf_error 20 res then None else Some value)"

section \<open>Keys\<close>

definition PMK_LEN :: nat where "PMK_LEN = 32"

definition wpa_config_parse_psk :: "build_opt set \<Rightarrow> string \<Rightarrow> wpa_ssid \<Rightarrow> int \<times> wpa_ssid" where
  "wpa_config_parse_psk b value ssid =
     (if OPT_EXT_PASSWORD \<in> b \<and> str_starts value ''ext:''
      then (0, ssid\<lparr>ws_passphrase := None, ws_psk_set := False, ws_ext_psk := Some (drop 4 value)\<rparr>)
      else if at0 value = DQ then
        (if OPT_NO_PBKDF2 \<in> b then (-1, ssid)
         else
           let value = tl value; len = (case os_strrchr_idx value DQ of Some i \<Rightarrow> i | None \<Rightarrow> length value); t = take len value
           in if len < 8 \<or> 63 < len then (-1, ssid)
              else if has_ctrl_char t then (-1, ssid)
              else if ws_passphrase ssid = Some t then (1, ssid)
              else (0, ssid\<lparr>ws_psk_set := False, ws_passphrase := Some t\<rparr>))
      else case hexstr2bin value (ws_psk ssid) PMK_LEN of
          (r, k) \<Rightarrow>
            let ssid = ssid\<lparr>ws_psk := k\<rparr>
            in if r \<noteq> 0 \<or> drop (2 * PMK_LEN) value \<noteq> [] then (-1, ssid)
               else (0, ssid\<lparr>ws_passphrase := None, ws_psk_set := True\<rparr>))"

definition wpa_config_write_psk :: "build_opt set \<Rightarrow> wpa_ssid \<Rightarrow> string option" where
  "wpa_config_write_psk b ssid =
     (case (if OPT_EXT_PASSWORD \<in> b then ws_ext_psk ssid else None) of
        Some e \<Rightarrow> Some (''ext:'' @ e)
      | None \<Rightarrow>
          (case ws_passphrase ssid of
             Some t \<Rightarrow> Some (write_string_ascii t)
           | None \<Rightarrow> if ws_psk_set ssid then Some (write_string_hex (ws_psk ssid)) else None))"

definition FLAG_NTHASH :: nat where "FLAG_NTHASH = 0"
definition FLAG_EXT :: nat where "FLAG_EXT = 1"

definition wpa_config_parse_password :: "build_opt set \<Rightarrow> string \<Rightarrow> wpa_ssid \<Rightarrow> int \<times> wpa_ssid" where
  "wpa_config_parse_password b value ssid =
     (if value = ''NULL'' then (if ws_password ssid = None then (1, ssid) else (0, ssid\<lparr>ws_password := None\<rparr>))
      else if OPT_EXT_PASSWORD \<in> b \<and> str_starts value ''ext:''
      then (0, ssid\<lparr>ws_password := Some (drop 4 value), ws_eap_flags := set_bit FLAG_EXT (unset_bit FLAG_NTHASH (ws_eap_flags ssid))\<rparr>)
      else if \<not> str_starts value ''hash:'' then
        (case wpa_config_parse_string value of
           None \<Rightarrow> (-1, ssid)
         | Some t \<Rightarrow> (0, ssid\<lparr>ws_password := Some t, ws_eap_flags := unset_bit FLAG_EXT (unset_bit FLAG_NTHASH (ws_eap_flags ssid))\<rparr>))
      else if length (drop 5 value) \<noteq> 32 then (-1, ssid)
      else case hexstr2bin (drop 5 value) (replicate 16 NUL) 16 of
          (r, h) \<Rightarrow>
            if r \<noteq> 0 then (-1, ssid)
            else if ws_password ssid = Some h \<and> bit (ws_eap_flags ssid) FLAG_NTHASH then (1, ssid)
            else (0, ssid\<lparr>ws_password := Some h, ws_eap_flags := unset_bit FLAG_EXT (set_bit FLAG_NTHASH (ws_eap_flags ssid))\<rparr>))"

definition wpa_config_write_password :: "build_opt set \<Rightarrow> wpa_ssid \<Rightarrow> string option" where
  "wpa_config_write_password b ssid =
     map_option (\<lambda>p.
       if OPT_EXT_PASSWORD \<in> b \<and> bit (ws_eap_flags ssid) FLAG_EXT then cstr_of (''ext:'' @ p)
       else if \<not> bit (ws_eap_flags ssid) FLAG_NTHASH then wpa_config_write_string p
       else ''hash:'' @ write_string_hex (take 16 p)) (ws_password ssid)"

definition MAX_WEP_KEY_LEN :: nat where "MAX_WEP_KEY_LEN = 16"

text \<open>The length is stored before it is checked.\<close>

definition wpa_config_parse_wep_key :: "nat \<Rightarrow> string \<Rightarrow> wpa_ssid \<Rightarrow> int \<times> wpa_ssid" where
  "wpa_config_parse_wep_key idx value ssid =
     (case wpa_config_parse_string value of
        None \<Rightarrow> (-1, ssid)
      | Some buf \<Rightarrow>
          let ssid = ssid\<lparr>ws_wep_key_len := (ws_wep_key_len ssid)(idx := length buf)\<rparr>
          in if MAX_WEP_KEY_LEN < length buf then (-1, ssid)
             else (0, ssid\<lparr>ws_wep_key := (ws_wep_key ssid)(idx := memwrite (ws_wep_key ssid idx) buf)\<rparr>))"

definition wpa_config_write_wep_key :: "nat \<Rightarrow> wpa_ssid \<Rightarrow> string option outcome" where
  "wpa_config_write_wep_key idx ssid =
     (let len = ws_wep_key_len ssid idx
      in if len = 0 then Val None
         else if length (ws_wep_key ssid idx) < len then Undef Oob_read
         else Val (Some (wpa_config_write_string (take len (ws_wep_key ssid idx)))))"

definition wpa_config_parse_psk_list :: "string \<Rightarrow> wpa_ssid \<Rightarrow> int \<times> wpa_ssid" where
  "wpa_config_parse_psk_list value ssid =
     (let p2p = str_starts value ''P2P-''; pos = (if p2p then drop 4 value else value)
      in case hwaddr_aton pos (replicate ETH_ALEN NUL) of
           (r, a) \<Rightarrow>
             if r \<noteq> 0 then (-1, ssid)
             else
               let pos = drop 17 pos
               in if at0 pos \<noteq> CHR ''-'' then (-1, ssid)
                  else case hexstr2bin (tl pos) (replicate PMK_LEN NUL) PMK_LEN of
                      (r, k) \<Rightarrow>
                        if r \<noteq> 0 \<or> drop (2 * PMK_LEN) (tl pos) \<noteq> [] then (-1, ssid)
                        else (0, ssid\<lparr>ws_psk_list := \<lparr>pl_addr = a, pl_psk = k, pl_p2p = p2p\<rparr> # ws_psk_list ssid\<rparr>))"

section \<open>Lists of names\<close>

text \<open>The words of a value, separated by blanks and tabs; the loop ends at a word that ends the text.\<close>

definition cfg_blank :: "char \<Rightarrow> bool" where
  "cfg_blank c \<longleftrightarrow> c = CHR '' '' \<or> c = TAB"

function cfg_words :: "string \<Rightarrow> string list" where
  "cfg_words s =
     (let start = dropWhile cfg_blank s
      in if start = [] then []
         else let w = takeWhile (\<lambda>c. \<not> cfg_blank c) start; r = dropWhile (\<lambda>c. \<not> cfg_blank c) start
           in if r = [] then [w] else w # cfg_words (tl r))"
  by pat_completeness auto
termination
proof (relation "measure length")
  fix s :: string and start w r
  assume a: "start = dropWhile cfg_blank s" "start \<noteq> []" "r = dropWhile (\<lambda>c. \<not> cfg_blank c) start" "r \<noteq> []"
  have "length r \<le> length start" "length start \<le> length s" using a length_dropWhile_le by metis+
  then show "(tl r, s) \<in> measure length" using a(4) by (cases r) auto
qed simp

declare cfg_words.simps [simp del]

definition BIT :: "nat \<Rightarrow> int" where "BIT n = push_bit n 1"

text \<open>A table of names and the bits they stand for.\<close>

type_synonym flag_table = "(string \<times> nat) list"

definition flag_step :: "flag_table \<Rightarrow> string \<Rightarrow> int \<times> nat \<Rightarrow> int \<times> nat" where
  "flag_step tab w s = (case (map_of tab w, s) of (Some n, (val, errors)) \<Rightarrow> (val OR BIT n, errors) | (None, (val, errors)) \<Rightarrow> (val, errors + 1))"

definition parse_flags :: "flag_table \<Rightarrow> string \<Rightarrow> int \<times> nat" where
  "parse_flags tab value =
     (case fold (flag_step tab) (cfg_words value) (0, 0) of (val, errors) \<Rightarrow> (val, if val = 0 then errors + 1 else errors))"

text \<open>The writer of such a value in a buffer of \<open>sz\<close> bytes; when the next name does not fit, the text is cut and left.\<close>

fun write_flags :: "nat \<Rightarrow> flag_table \<Rightarrow> int \<Rightarrow> string \<Rightarrow> string" where
  "write_flags sz [] val buf = buf"
| "write_flags sz ((w, n) # tab) val buf =
     (if val AND BIT n \<noteq> 0 then
        let (t, ret) = os_snprintf (sz - length buf) ((if buf = [] then [] else '' '') @ w)
        in if os_snprintf_error (sz - length buf) ret then buf @ t else write_flags sz tab val (buf @ t)
      else write_flags sz tab val buf)"

definition flags_text :: "nat \<Rightarrow> flag_table \<Rightarrow> int \<Rightarrow> string option" where
  "flags_text sz tab val = (let t = write_flags sz tab val [] in if t = [] then None else Some t)"

text \<open>What the parsers of such fields do with the result: an error does not keep the new value from being stored.\<close>

definition store_flags :: "int \<times> nat \<Rightarrow> int \<Rightarrow> (int \<Rightarrow> wpa_ssid) \<Rightarrow> wpa_ssid \<Rightarrow> int \<times> wpa_ssid" where
  "store_flags r old put ssid =
     (case r of (val, errors) \<Rightarrow> if errors = 0 \<and> old = val then (1, ssid) else (if errors \<noteq> 0 then -1 else 0, put val))"

definition proto_table :: flag_table where
  "proto_table = [(''WPA'', 0), (''RSN'', 1), (''WPA2'', 1), (''OSEN'', 3)]"

definition proto_names :: flag_table where
  "proto_names = [(''WPA'', 0), (''RSN'', 1), (''OSEN'', 3)]"

definition wpa_config_parse_proto :: "string \<Rightarrow> wpa_ssid \<Rightarrow> int \<times> wpa_ssid" where
  "wpa_config_parse_proto value ssid = store_flags (parse_flags proto_table value) (ws_proto ssid) (\<lambda>v. ssid\<lparr>ws_proto := v\<rparr>) ssid"

definition wpa_config_write_proto :: "wpa_ssid \<Rightarrow> string option" where
  "wpa_config_write_proto ssid = flags_text 20 proto_names (ws_proto ssid)"

definition opt_flags :: "build_opt set \<Rightarrow> build_opt \<Rightarrow> flag_table \<Rightarrow> flag_table" where
  "opt_flags b opt tab = (if opt \<in> b then tab else [])"

definition key_mgmt_table :: "build_opt set \<Rightarrow> flag_table" where
  "key_mgmt_table b =
     [(''WPA-PSK'', 1), (''WPA-EAP'', 0), (''IEEE8021X'', 3), (''NONE'', 2), (''WPA-NONE'', 4)] @
     opt_flags b OPT_IEEE80211R [(''FT-PSK'', 6), (''FT-EAP'', 5)] @
     opt_flags b OPT_IEEE80211W [(''WPA-PSK-SHA256'', 8), (''WPA-EAP-SHA256'', 7)] @
     opt_flags b OPT_WPS [(''WPS'', 9)] @
     opt_flags b OPT_SAE [(''SAE'', 10), (''FT-SAE'', 11)] @
     opt_flags b OPT_HS20 [(''OSEN'', 15)] @
     opt_flags b OPT_SUITEB [(''WPA-EAP-SUITE-B'', 16)] @
     opt_flags b OPT_SUITEB192 [(''WPA-EAP-SUITE-B-192'', 17)]"

definition wpa_config_parse_key_mgmt :: "build_opt set \<Rightarrow> string \<Rightarrow> wpa_ssid \<Rightarrow> int \<times> wpa_ssid" where
  "wpa_config_parse_key_mgmt b value ssid =
     store_flags (parse_flags (key_mgmt_table b) value) (ws_key_mgmt ssid) (\<lambda>v. ssid\<lparr>ws_key_mgmt := v\<rparr>) ssid"

definition wpa_config_write_key_mgmt :: "build_opt set \<Rightarrow> wpa_ssid \<Rightarrow> string option" where
  "wpa_config_write_key_mgmt b ssid = flags_text 100 (key_mgmt_table b) (ws_key_mgmt ssid)"

definition auth_alg_table :: flag_table where
  "auth_alg_table = [(''OPEN'', 0), (''SHARED'', 1), (''LEAP'', 2)]"

definition wpa_config_parse_auth_alg :: "string \<Rightarrow> wpa_ssid \<Rightarrow> int \<times> wpa_ssid" where
  "wpa_config_parse_auth_alg value ssid =
     store_flags (parse_flags auth_alg_table value) (ws_auth_alg ssid) (\<lambda>v. ssid\<lparr>ws_auth_alg := v\<rparr>) ssid"

definition wpa_config_write_auth_alg :: "wpa_ssid \<Rightarrow> string option" where
  "wpa_config_write_auth_alg ssid = flags_text 30 auth_alg_table (ws_auth_alg ssid)"

section \<open>Ciphers\<close>

definition cipher_table :: flag_table where
  "cipher_table = [(''CCMP-256'', 9), (''GCMP-256'', 8), (''CCMP'', 4), (''GCMP'', 6), (''TKIP'', 3), (''WEP104'', 2), (''WEP40'', 1),
     (''NONE'', 0), (''GTK_NOT_USED'', 14)]"

definition cipher_names :: flag_table where
  "cipher_names = [(''CCMP-256'', 9), (''GCMP-256'', 8), (''CCMP'', 4), (''GCMP'', 6), (''TKIP'', 3), (''NONE'', 0)]"

definition wpa_parse_cipher :: "string \<Rightarrow> int" where
  "wpa_parse_cipher value =
     (let ws = cfg_words value
      in if list_ex (\<lambda>w. map_of cipher_table w = None) ws then -1 else fst (fold (flag_step cipher_table) ws (0, 0)))"

text \<open>\<open>None\<close> when the names do not fit.\<close>

fun wpa_write_ciphers :: "nat \<Rightarrow> flag_table \<Rightarrow> string \<Rightarrow> int \<Rightarrow> string \<Rightarrow> string option" where
  "wpa_write_ciphers sz [] delim ciphers buf = Some buf"
| "wpa_write_ciphers sz ((w, n) # tab) delim ciphers buf =
     (if ciphers AND BIT n \<noteq> 0 then
        let (t, ret) = os_snprintf (sz - length buf) ((if buf = [] then [] else delim) @ w)
        in if os_snprintf_error (sz - length buf) ret then None else wpa_write_ciphers sz tab delim ciphers (buf @ t)
      else wpa_write_ciphers sz tab delim ciphers buf)"

definition wpa_config_parse_cipher :: "string \<Rightarrow> int" where
  "wpa_config_parse_cipher value = (let val = wpa_parse_cipher value in if val < 0 \<or> val = 0 then -1 else val)"

definition wpa_config_write_cipher :: "int \<Rightarrow> string option" where
  "wpa_config_write_cipher cipher = wpa_write_ciphers 50 cipher_names '' '' cipher []"

definition mask_of :: "nat list \<Rightarrow> int" where
  "mask_of ns = fold (\<lambda>n v. v OR BIT n) ns 0"

definition WPA_ALLOWED_PAIRWISE_CIPHERS :: int where "WPA_ALLOWED_PAIRWISE_CIPHERS = mask_of [4, 6, 3, 0, 8, 9]"
definition WPA_ALLOWED_GROUP_CIPHERS :: int where "WPA_ALLOWED_GROUP_CIPHERS = mask_of [4, 6, 3, 8, 9, 14]"

definition wpa_config_parse_pairwise :: "string \<Rightarrow> wpa_ssid \<Rightarrow> int \<times> wpa_ssid" where
  "wpa_config_parse_pairwise value ssid =
     (let val = wpa_config_parse_cipher value
      in if val = -1 then (-1, ssid)
         else if val AND NOT WPA_ALLOWED_PAIRWISE_CIPHERS \<noteq> 0 then (-1, ssid)
         else if ws_pairwise_cipher ssid = val then (1, ssid)
         else (0, ssid\<lparr>ws_pairwise_cipher := val\<rparr>))"

definition wpa_config_parse_group :: "string \<Rightarrow> wpa_ssid \<Rightarrow> int \<times> wpa_ssid" where
  "wpa_config_parse_group value ssid =
     (let val = wpa_config_parse_cipher value
      in if val = -1 then (-1, ssid)
         else
           let val = val AND NOT (mask_of [2, 1])
           in if val AND NOT WPA_ALLOWED_GROUP_CIPHERS \<noteq> 0 then (-1, ssid)
              else if ws_group_cipher ssid = val then (1, ssid)
              else (0, ssid\<lparr>ws_group_cipher := val\<rparr>))"

section \<open>Frequencies\<close>

text \<open>Numbers up to the first zero; the next number starts behind the next blank.\<close>

definition atoi32 :: "string \<Rightarrow> int" where
  "atoi32 s = int32 (max (- (2 ^ 63)) (min (2 ^ 63 - 1) (atoi s)))"

function int_array_loop :: "string \<Rightarrow> int list" where
  "int_array_loop pos =
     (let pos = dropWhile (\<lambda>c. c = CHR '' '') pos; v = atoi32 pos
      in if v = 0 then []
         else case os_strchr (drop 1 pos) (CHR '' '') of None \<Rightarrow> [v] | Some p \<Rightarrow> v # int_array_loop p)"
  by pat_completeness auto
termination
proof (relation "measure length")
  fix pos :: string and x v p
  assume a: "x = dropWhile (\<lambda>c. c = CHR '' '') pos" "v = atoi32 x" "v \<noteq> 0" "os_strchr (drop 1 x) (CHR '' '') = Some p"
  have "x \<noteq> []" using a(2,3) by (auto simp: atoi32_def atoi_def int32_def)
  moreover have "length p \<le> length (drop 1 x)" using os_strchr_Some [OF a(4)] by (metis length_append le_add2)
  moreover have "length x \<le> length pos" unfolding a(1) by (rule length_dropWhile_le)
  ultimately show "(p, pos) \<in> measure length" by (cases x) auto
qed simp

declare int_array_loop.simps [simp del]

definition wpa_config_parse_int_array :: "string \<Rightarrow> int list" where
  "wpa_config_parse_int_array value = int_array_loop value"

definition wpa_config_parse_scan_freq :: "string \<Rightarrow> wpa_ssid \<Rightarrow> int \<times> wpa_ssid" where
  "wpa_config_parse_scan_freq value ssid = (0, ssid\<lparr>ws_scan_freq := wpa_config_parse_int_array value\<rparr>)"

definition wpa_config_parse_freq_list :: "string \<Rightarrow> wpa_ssid \<Rightarrow> int \<times> wpa_ssid" where
  "wpa_config_parse_freq_list value ssid = (0, ssid\<lparr>ws_freq_list := wpa_config_parse_int_array value\<rparr>)"

definition wpa_config_parse_mesh_basic_rates :: "string \<Rightarrow> wpa_ssid \<Rightarrow> int \<times> wpa_ssid" where
  "wpa_config_parse_mesh_basic_rates value ssid = (0, ssid\<lparr>ws_mesh_basic_rates := wpa_config_parse_int_array value\<rparr>)"

fun write_freqs_loop :: "nat \<Rightarrow> int list \<Rightarrow> string \<Rightarrow> string" where
  "write_freqs_loop sz [] buf = buf"
| "write_freqs_loop sz (f # fs) buf =
     (let (t, ret) = os_snprintf (sz - length buf) ((if buf = [] then [] else '' '') @ show_nat (nat (f mod 2 ^ 32)))
      in if os_snprintf_error (sz - length buf) ret then buf @ t else write_freqs_loop sz fs (buf @ t))"

text \<open>The empty list is the null pointer.\<close>

definition wpa_config_write_freqs :: "int list \<Rightarrow> string option" where
  "wpa_config_write_freqs freqs = (if freqs = [] then None else Some (write_freqs_loop (10 * length freqs + 1) freqs []))"

section \<open>EAP methods\<close>

definition eap_peer_get_type :: "eap_methods \<Rightarrow> string \<Rightarrow> int \<times> int" where
  "eap_peer_get_type methods name = (case map_of methods name of Some m \<Rightarrow> m | None \<Rightarrow> (0, 0))"

definition EAP_TYPE_EXPANDED :: int where "EAP_TYPE_EXPANDED = 254"
definition EAP_TYPE_LEAP :: int where "EAP_TYPE_LEAP = 17"

definition eap_get_name :: "eap_methods \<Rightarrow> int \<times> int \<Rightarrow> string option" where
  "eap_get_name methods m =
     (if m = (0, EAP_TYPE_EXPANDED) then Some ''expanded'' else map_option fst (find (\<lambda>x. snd x = m) methods))"

definition eap_step :: "eap_methods \<Rightarrow> string \<Rightarrow> (int \<times> int) list \<times> nat \<times> wpa_ssid \<Rightarrow> (int \<times> int) list \<times> nat \<times> wpa_ssid" where
  "eap_step methods w s =
     (case s of (ms, errors, ssid) \<Rightarrow>
       let m = eap_peer_get_type methods w
       in (ms @ [m], if m = (0, 0) then errors + 1 else errors,
           if m = (0, 0) then ssid
           else if m = (0, EAP_TYPE_LEAP) then ssid\<lparr>ws_leap := ws_leap ssid + 1\<rparr> else ssid\<lparr>ws_non_leap := ws_non_leap ssid + 1\<rparr>))"

text \<open>
  The lists end with the entry (0, 0), also an unknown method in the middle; a list with the same number of entries each
  of whose old methods is among the new ones counts as unchanged.
\<close>

definition up_to_end :: "(int \<times> int) list \<Rightarrow> (int \<times> int) list" where
  "up_to_end ms = takeWhile (\<lambda>m. m \<noteq> (0, 0)) ms"

definition wpa_config_parse_eap :: "eap_methods \<Rightarrow> string \<Rightarrow> wpa_ssid \<Rightarrow> int \<times> wpa_ssid" where
  "wpa_config_parse_eap methods value ssid =
     (case fold (eap_step methods) (cfg_words value) ([], 0, ssid) of
        (ms, errors, ssid) \<Rightarrow>
          (case ws_eap_methods ssid of
             Some old \<Rightarrow>
               if errors = 0 \<and> length (up_to_end old) = length ms \<and> list_all (\<lambda>m. m \<in> set ms) (up_to_end old) then (1, ssid)
               else (if errors \<noteq> 0 then -1 else 0, ssid\<lparr>ws_eap_methods := Some ms\<rparr>)
           | None \<Rightarrow> (if errors \<noteq> 0 then -1 else 0, ssid\<lparr>ws_eap_methods := Some ms\<rparr>)))"

fun write_eap_loop :: "eap_methods \<Rightarrow> (int \<times> int) list \<Rightarrow> string \<Rightarrow> string" where
  "write_eap_loop methods [] buf = buf"
| "write_eap_loop methods (m # ms) buf =
     (case eap_get_name methods m of
        None \<Rightarrow> write_eap_loop methods ms buf
      | Some name \<Rightarrow>
          let (t, ret) = os_snprintf (100 - length buf) ((if buf = [] then [] else '' '') @ name)
          in if os_snprintf_error (100 - length buf) ret then buf @ t else write_eap_loop methods ms (buf @ t))"

definition wpa_config_write_eap :: "eap_methods \<Rightarrow> wpa_ssid \<Rightarrow> string option" where
  "wpa_config_write_eap methods ssid = map_option (\<lambda>ms. write_eap_loop methods (up_to_end ms) []) (ws_eap_methods ssid)"

end
