(* ===== verification/Net_Round.thy ===== *)
theory Net_Round
  imports Net_Fields
begin

text \<open>
  Round trips of the fields of a network: the text that a writer returns is accepted by the parser of the field,
  and the writer then returns the same text.
\<close>

section \<open>Text\<close>

lemma length_pairs [simp]: "length (concat (map (\<lambda>d. hex_pair up (of_char d)) t)) = 2 * length t"
  by (induction t) auto

lemma no_nul_pairs: "no_nul (concat (map (\<lambda>d. hex_pair up (of_char d)) t))"
  by (induction t) (simp_all add: no_nul_hex_pair)

lemma write_string_hex_pairs: "write_string_hex t = concat (map (\<lambda>d. hex_pair False (of_char d)) t)"
proof -
  let ?b = "replicate (2 * length t + 1) NUL" and ?f = "\<lambda>d. hex_pair False (of_char d)"
  have f: "\<And>d. ?f d \<noteq> [] \<and> length (?f d) = 2" by (metis length_hex_pair(1) list.size(3) zero_neq_numeral)
  from snprintf_hex_loop_ok [of ?f 2 0 t ?b, OF f] obtain b where
    b: "snprintf_hex_loop ?b 0 ?f t = (2 * length t, b, True)" "length b = 2 * length t + 1" "take (2 * length t) b = concat (map ?f t)" by auto
  have "b[2 * length t := NUL] = take (2 * length t) b @ [NUL]" using b(2) by (simp add: upd_conv_take_nth_drop)
  then have "snd (wpa_snprintf_hex ?b t) = concat (map ?f t) @ [NUL]"
    using b by (simp add: wpa_snprintf_hex_def wpa_snprintf_hex_gen_def)
  then show ?thesis using no_nul_pairs [of False t] by (simp add: write_string_hex_def)
qed

lemma pairs_first: "t \<noteq> [] \<Longrightarrow> \<exists>n < 16. at0 (concat (map (\<lambda>d. hex_pair False (of_char d)) t)) = hexdig n"
proof (cases t)
  case (Cons c t')
  have "(of_char c :: nat) div 16 < 16" using less_mult_imp_div_less [of "of_char c" 16 16] by simp
  then show ?thesis using Cons by (auto simp: hex_pair_def hex02_def)
qed simp

lemma parse_hex_text: "t \<noteq> [] \<Longrightarrow> wpa_config_parse_string (write_string_hex t) = Some t"
proof -
  assume t: "t \<noteq> []"
  let ?h = "concat (map (\<lambda>d. hex_pair False (of_char d)) t)"
  obtain n where n: "n < 16" "at0 ?h = hexdig n" using pairs_first [OF t] by blast
  have "hexstr2bin_loop (length t) ?h = (t, True)" using hexstr2bin_pairs [of t False "[]"] by simp
  then show ?thesis using n hexdig_other [OF n(1)] unfolding write_string_hex_pairs
    by (simp add: wpa_config_parse_string_def hexstr2bin_def memwrite_def)
qed

lemma parse_write_string: "wpa_config_parse_string (wpa_config_write_string t) = Some t"
proof (cases "is_hex t")
  case True
  then have "t \<noteq> []" by (auto simp: is_hex_def)
  with True parse_hex_text show ?thesis by (simp add: wpa_config_write_string_def)
next
  case False
  then show ?thesis by (simp add: wpa_config_write_string_def write_string_ascii_def wpa_config_parse_string_def quoted_body_snoc)
qed

lemma write_string_not_null: "wpa_config_write_string t \<noteq> ''NULL''"
proof
  assume "wpa_config_write_string t = ''NULL''"
  then have "wpa_config_parse_string ''NULL'' = Some t" using parse_write_string [of t] by simp
  moreover have "wpa_config_parse_string ''NULL'' = None"
    by code_simp
  ultimately show False by simp
qed

text \<open>The bounds of a field, those that are zero not counting.\<close>

definition len_ok :: "nat \<Rightarrow> nat \<Rightarrow> char list \<Rightarrow> bool" where
  "len_ok mn mx t \<longleftrightarrow> mn \<le> length t \<and> (mx \<noteq> 0 \<longrightarrow> length t \<le> mx)"

lemma str_round_trip:
  assumes "wpa_config_write_str f lenf n = Some v" "\<And>t. ws_str n f = Some t \<Longrightarrow> len_ok mn mx (stored_text lenf t)"
  shows "\<exists>r m'. wpa_config_parse_str f lenf mn mx v m = (r, m') \<and> 0 \<le> r \<and> wpa_config_write_str f lenf m' = Some v"
proof -
  from assms(1) obtain t where t: "ws_str n f = Some t" "v = wpa_config_write_string (stored_text lenf t)" by (auto simp: wpa_config_write_str_def)
  let ?t = "stored_text lenf t"
  have ok: "len_ok mn mx ?t" using assms(2) t(1) .
  have st: "stored_text lenf ?t = ?t" by (simp add: stored_text_def)
  have same: "stored_text lenf old = ?t" if "length (stored_text lenf old) = length ?t" "take (length ?t) old = ?t" for old
  proof (cases lenf)
    case True
    with that show ?thesis by (simp add: stored_text_def)
  next
    case False
    have "cstr_of old = take (length (cstr_of old)) old" unfolding cstr_of_def by (rule takeWhile_eq_take)
    moreover have "stored_text lenf old = cstr_of old" using False by (simp add: stored_text_def)
    ultimately show ?thesis using that by metis
  qed
  have b: "\<not> (mn \<noteq> 0 \<and> length ?t < mn)" "\<not> (mx \<noteq> 0 \<and> mx < length ?t)" using ok by (auto simp: len_ok_def)
  have p: "wpa_config_parse_string v = Some ?t" "v \<noteq> ''NULL''" unfolding t(2) by (simp_all add: parse_write_string write_string_not_null)
  have set: "\<exists>r m'. wpa_config_parse_str f lenf mn mx v m = (r, m') \<and> 0 \<le> r \<and> (\<exists>t'. ws_str m' f = Some t' \<and> stored_text lenf t' = ?t)"
  proof (cases "ws_str m f")
    case None
    then have "wpa_config_parse_str f lenf mn mx v m = (0, m\<lparr>ws_str := (ws_str m)(f := Some ?t)\<rparr>)" using p b by (auto simp: wpa_config_parse_str_def)
    then show ?thesis using st by simp
  next
    case (Some old)
    let ?c = "length (stored_text lenf old) = length ?t \<and> take (length ?t) old = ?t"
    have e: "wpa_config_parse_str f lenf mn mx v m = (if ?c then (1, m) else (0, m\<lparr>ws_str := (ws_str m)(f := Some ?t)\<rparr>))"
      using p b Some by (auto simp: wpa_config_parse_str_def)
    show ?thesis
    proof (cases ?c)
      case True
      with e Some same [of old] show ?thesis by simp
    next
      case False
      with e st show ?thesis by simp
    qed
  qed
  then obtain r m' t' where r: "wpa_config_parse_str f lenf mn mx v m = (r, m')" "0 \<le> r" "ws_str m' f = Some t'" "stored_text lenf t' = ?t" by blast
  then have "wpa_config_write_str f lenf m' = Some v" using t(2) by (simp add: wpa_config_write_str_def)
  with r show ?thesis by blast
qed

section \<open>Numbers\<close>

lemma digit_in_10 [simp]: "digit_in 10 c = c_isdigit c"
proof -
  have n: "(of_char c :: int) = int (of_char c :: nat)" by (rule of_nat_of_char [symmetric])
  show ?thesis unfolding digit_in_def hex2num_def c_isdigit_def Let_def n by auto
qed

lemma base_val_10: "base_val 10 acc s = digits_val acc s"
proof (induction s arbitrary: acc)
  case (Cons c s)
  have n: "(of_char c :: int) = int (of_char c :: nat)" by (rule of_nat_of_char [symmetric])
  have "c_isdigit c \<Longrightarrow> hex2num c = of_char c - 48" unfolding c_isdigit_def hex2num_def Let_def n by auto
  with Cons show ?case by simp
qed simp

lemma hd_show_nat: "n \<noteq> 0 \<Longrightarrow> hd (show_nat n) \<noteq> CHR ''0''"
proof (induction n rule: show_nat.induct)
  case (1 n)
  have z: "digit_char k \<noteq> CHR ''0''" if "k \<noteq> 0" "k < 10" for k
  proof
    assume "digit_char k = CHR ''0''"
    then have "(of_char (digit_char k) :: int) = 48" by simp
    then show False using digit_char_props [OF that(2)] that(1) by simp
  qed
  with 1 show ?case by (subst show_nat.simps) (auto simp: hd_append)
qed

lemma strtol0_digits:
  assumes "int n < 2 ^ 63"
  shows "dropWhile (digit_in (if take 1 (show_nat n) = ''0'' then 8 else 10)) (show_nat n) = []"
    "base_val (if take 1 (show_nat n) = ''0'' then 8 else 10) 0 (show_nat n) = int n"
proof -
  have all: "\<forall>c \<in> set (show_nat n). c_isdigit c" using show_nat_digits by blast
  have z: "show_nat 0 = ''0''" by code_simp
  have nz: "take 1 (show_nat n) \<noteq> ''0''" if "n \<noteq> 0" using hd_show_nat [OF that] by (cases "show_nat n") auto
  show "dropWhile (digit_in (if take 1 (show_nat n) = ''0'' then 8 else 10)) (show_nat n) = []"
  proof (cases "n = 0")
    case True
    then show ?thesis unfolding True z by code_simp
  next
    case False
    with all nz show ?thesis by simp
  qed
  show "base_val (if take 1 (show_nat n) = ''0'' then 8 else 10) 0 (show_nat n) = int n"
  proof (cases "n = 0")
    case True
    then show ?thesis unfolding True z by code_simp
  next
    case False
    with nz digits_val_show_nat [of n] show ?thesis by (simp add: base_val_10)
  qed
qed

lemma strtol0_show:
  assumes "\<bar>i\<bar> < 2 ^ 63"
  shows "strtol0 (show_int i) = (i, [])"
proof -
  let ?s = "show_nat (nat \<bar>i\<bar>)" let ?b = "if take 1 ?s = ''0'' then 8 else 10"
  obtain c r where c: "?s = c # r" by (cases ?s) auto
  have d: "c_isdigit c" using show_nat_digits [of c "nat \<bar>i\<bar>"] c by simp
  have x: "x \<noteq> CHR ''x'' \<and> x \<noteq> CHR ''X''" if "x \<in> set ?s" for x using show_nat_digits [OF that] by (auto simp: c_isdigit_def)
  have h: "take 1 (drop 1 ?s) \<noteq> ''x''" "take 1 (drop 1 ?s) \<noteq> ''X''" using x c by (cases r; force)+
  have n: "int (nat \<bar>i\<bar>) < 2 ^ 63" using assms by simp
  have b: "dropWhile (digit_in ?b) ?s = []" "base_val ?b 0 ?s = \<bar>i\<bar>" using strtol0_digits [OF n] by simp_all
  have t: "takeWhile (digit_in ?b) ?s \<noteq> []" using b(1) c by (metis takeWhile_dropWhile_id append_Nil2 list.distinct(1))
  have m: "max (- (2 ^ 63)) (min (2 ^ 63 - 1) i) = i" using assms by linarith
  show ?thesis
  proof (cases "i < 0")
    case True
    then have s: "show_int i = CHR ''-'' # ?s" by (simp add: show_int_def)
    have "\<not> c_isspace (CHR ''-'')" by code_simp
    with True s h b t m show ?thesis by (simp add: strtol0_def Let_def)
  next
    case False
    then have s: "show_int i = ?s" by (simp add: show_int_def)
    have "\<not> c_isspace c" "c \<noteq> CHR ''-''" "c \<noteq> CHR ''+''" using digit_not [OF d] by auto
    then have "dropWhile c_isspace ?s = ?s" "take 1 ?s \<noteq> ''-''" "take 1 ?s \<noteq> ''+''" using c by auto
    with False s h b t m show ?thesis by (simp add: strtol0_def Let_def)
  qed
qed

definition in_int32 :: "int \<Rightarrow> bool" where
  "in_int32 i \<longleftrightarrow> - (2 ^ 31) \<le> i \<and> i < 2 ^ 31"

lemma int32_id: "in_int32 i \<Longrightarrow> int32 i = i"
  by (simp add: in_int32_def int32_def)

lemma in_int32_int32 [simp]: "in_int32 (int32 i)"
proof -
  have "0 \<le> (i + 2 ^ 31) mod 2 ^ 32" "(i + 2 ^ 31) mod 2 ^ 32 < (2 ^ 32 :: int)" by simp_all
  then show ?thesis unfolding in_int32_def int32_def by simp
qed

lemma write_int_eq:
  assumes "in_int32 (ws_int n f)"
  shows "wpa_config_write_int f n = Some (show_int (ws_int n f))"
proof -
  let ?i = "ws_int n f"
  have "\<bar>?i\<bar> \<le> 2 ^ 31" using assms by (auto simp: in_int32_def)
  then have "nat \<bar>?i\<bar> < 10 ^ Suc 9" by simp
  then have "length (show_nat (nat \<bar>?i\<bar>)) \<le> Suc 9" by (rule length_show_nat)
  then have "length (show_int ?i) < 19" by (auto simp: show_int_def)
  then show ?thesis by (simp add: wpa_config_write_int_def os_snprintf_def os_snprintf_error_def)
qed

text \<open>The bounds of a number, those that are zero not counting.\<close>

definition in_range :: "int \<Rightarrow> int \<Rightarrow> int \<Rightarrow> bool" where
  "in_range mn mx i \<longleftrightarrow> (mn \<noteq> 0 \<longrightarrow> mn \<le> i) \<and> (mx \<noteq> 0 \<longrightarrow> i \<le> mx)"

lemma int_round_trip:
  assumes "in_int32 (ws_int n f)" "in_range mn mx (ws_int n f)" "wpa_config_write_int f n = Some v"
  shows "\<exists>r m'. wpa_config_parse_int f mn mx v m = (r, m') \<and> 0 \<le> r \<and> wpa_config_write_int f m' = Some v"
proof -
  let ?i = "ws_int n f"
  have v: "v = show_int ?i" using assms(1,3) write_int_eq by simp
  have s: "strtol0 v = (?i, [])" unfolding v using assms(1) by (intro strtol0_show) (auto simp: in_int32_def abs_if)
  obtain r m' where p: "wpa_config_parse_int f mn mx v m = (r, m')" by fastforce
  then have "0 \<le> r" "ws_int m' f = ?i"
    using s assms(2) int32_id [OF assms(1)] by (auto simp: wpa_config_parse_int_def in_range_def Let_def split: if_splits)
  with p v write_int_eq [of m' f] assms(1) show ?thesis by simp
qed

section \<open>Lists of names\<close>

fun spaced :: "string list \<Rightarrow> string" where
  "spaced [] = []"
| "spaced [w] = w"
| "spaced (w # ws) = w @ '' '' @ spaced ws"

lemma spaced_snoc: "spaced (ws @ [w]) = spaced ws @ (if ws = [] then [] else '' '') @ w"
  by (induction ws rule: spaced.induct) auto

lemma length_spaced_le: "length (spaced ws) \<le> length (spaced (ws @ us))"
proof (induction us rule: rev_induct)
  case (snoc u us)
  then show ?case using spaced_snoc [of "ws @ us" u] by simp
qed simp

definition is_word :: "string \<Rightarrow> bool" where
  "is_word w \<longleftrightarrow> w \<noteq> [] \<and> list_all (\<lambda>c. \<not> cfg_blank c) w"

lemma takeWhile_word: "is_word w \<Longrightarrow> takeWhile (\<lambda>c. \<not> cfg_blank c) (w @ s) = w @ takeWhile (\<lambda>c. \<not> cfg_blank c) s"
  "is_word w \<Longrightarrow> dropWhile (\<lambda>c. \<not> cfg_blank c) (w @ s) = dropWhile (\<lambda>c. \<not> cfg_blank c) s"
  "is_word w \<Longrightarrow> dropWhile cfg_blank (w @ s) = w @ s"
  by (auto simp: is_word_def list_all_iff takeWhile_append dropWhile_append neq_Nil_conv)

lemma cfg_words_spaced: "list_all is_word ws \<Longrightarrow> cfg_words (spaced ws) = ws"
proof (induction ws rule: spaced.induct)
  case (2 w)
  then have "w \<noteq> []" "dropWhile cfg_blank w = w" using takeWhile_word(3) [of w "[]"] by (auto simp: is_word_def)
  then show ?case using takeWhile_word(1,2) [of w "[]"] 2 by (simp add: cfg_words.simps [of w] Let_def)
next
  case (3 w u ws)
  then have w: "is_word w" "w \<noteq> []" "cfg_blank (CHR '' '')" by (auto simp: is_word_def cfg_blank_def)
  then show ?case using 3 takeWhile_word [OF w(1)]
    by (subst cfg_words.simps) (simp add: Let_def)
qed (simp add: cfg_words.simps)

lemma and_BIT_iff: "val AND BIT n \<noteq> 0 \<longleftrightarrow> bit val n"
  by (simp add: BIT_def push_bit_eq_mult and_exp_eq_0_iff_not_bit)

lemma bit_BIT: "bit (BIT n) k \<longleftrightarrow> n = k"
  by (auto simp: BIT_def bit_simps)

definition flag_words :: "flag_table \<Rightarrow> int \<Rightarrow> string list" where
  "flag_words tab val = map fst (filter (\<lambda>(w, n). bit val n) tab)"

lemma flag_words_simps [simp]: "flag_words [] val = []"
  "flag_words ((w, n) # tab) val = (if bit val n then w # flag_words tab val else flag_words tab val)"
  by (simp_all add: flag_words_def)

lemma spaced_Nil_iff: "list_all is_word ws \<Longrightarrow> spaced ws = [] \<longleftrightarrow> ws = []"
  by (induction ws rule: spaced.induct) (auto simp: is_word_def)

lemma snprintf_fits: "length t < sz \<Longrightarrow> os_snprintf sz t = (t, int (length t))"
  by (simp add: os_snprintf_def)

lemma write_flags_step:
  assumes "bit val n" "t = (if buf = [] then [] else '' '') @ w" "length t < sz - length buf"
  shows "write_flags sz ((w, n) # tab) val buf = write_flags sz tab val (buf @ t)"
  using assms(1) snprintf_fits [OF assms(3)] assms(3) by (simp add: and_BIT_iff flip: assms(2))

lemma write_flags_words:
  assumes "list_all is_word ws" "list_all (\<lambda>(w, n). is_word w) tab" "length (spaced (ws @ flag_words tab val)) < sz"
  shows "write_flags sz tab val (spaced ws) = spaced (ws @ flag_words tab val)"
  using assms
proof (induction tab arbitrary: ws)
  case (Cons x tab)
  obtain w n where x: "x = (w, n)" by (cases x)
  show ?case
  proof (cases "bit val n")
    case True
    let ?a = "(if ws = [] then [] else '' '') @ w"
    have s: "spaced ws @ ?a = spaced (ws @ [w])" by (simp add: spaced_snoc)
    have l: "length (spaced (ws @ [w])) < sz" using Cons.prems(3) length_spaced_le [of "ws @ [w]" "flag_words tab val"] True x by simp
    then have a: "length ?a < sz - length (spaced ws)" using s by (metis length_append less_diff_conv add.commute)
    have e: "?a = (if spaced ws = [] then [] else '' '') @ w" using spaced_Nil_iff [OF Cons.prems(1)] by simp
    have "write_flags sz tab val (spaced (ws @ [w])) = spaced ((ws @ [w]) @ flag_words tab val)"
      using Cons x True by (intro Cons.IH) auto
    then show ?thesis using write_flags_step [OF True e a] x True unfolding s by simp
  next
    case False
    with Cons x show ?thesis by (simp add: and_BIT_iff)
  qed
qed simp

text \<open>A value that has only bits of the table.\<close>

definition flags_within :: "flag_table \<Rightarrow> int \<Rightarrow> bool" where
  "flags_within tab val \<longleftrightarrow> val = mask_of (map snd (filter (\<lambda>(w, n). bit val n) tab))"

lemma fold_flag_step:
  assumes "list_all (\<lambda>(w, n). map_of tab w = Some n) us"
  shows "fold (flag_step tab) (map fst us) (a, e) = (fold (\<lambda>n v. v OR BIT n) (map snd us) a, e)"
  using assms by (induction us arbitrary: a) (auto simp: flag_step_def)

lemma parse_flag_words:
  assumes "list_all (\<lambda>(w, n). map_of tab w = Some n) names" "list_all (\<lambda>(w, n). is_word w) names" "flags_within names val"
  shows "fold (flag_step tab) (cfg_words (spaced (flag_words names val))) (0, 0) = (val, 0)"
proof -
  let ?us = "filter (\<lambda>(w, n). bit val n) names"
  have w: "list_all is_word (flag_words names val)" using assms(2) by (auto simp: flag_words_def list_all_iff)
  have "list_all (\<lambda>(w, n). map_of tab w = Some n) ?us" using assms(1) by (auto simp: list_all_iff)
  from fold_flag_step [OF this, of 0 0] show ?thesis
    using assms(3) unfolding cfg_words_spaced [OF w] by (simp add: flag_words_def flags_within_def mask_of_def)
qed

text \<open>The names of a table are words, and the parser knows them all.\<close>

definition names_ok :: "flag_table \<Rightarrow> flag_table \<Rightarrow> bool" where
  "names_ok tab names \<longleftrightarrow> list_all (\<lambda>(w, n). is_word w \<and> map_of tab w = Some n) names"

lemma names_okD:
  assumes "names_ok tab names"
  shows "list_all (\<lambda>(w, n). map_of tab w = Some n) names" "list_all (\<lambda>(w, n). is_word w) names" "list_all is_word (flag_words names val)"
  using assms by (auto simp: names_ok_def flag_words_def list_all_iff)

lemma flags_text_words:
  assumes "names_ok tab names" "flags_within names val" "val \<noteq> 0" "length (spaced (flag_words names val)) < sz"
  shows "flags_text sz names val = Some (spaced (flag_words names val))"
    "parse_flags tab (spaced (flag_words names val)) = (val, 0)"
proof -
  have "flag_words names val \<noteq> []" using assms(2,3) by (auto simp: flags_within_def flag_words_def mask_of_def)
  then show "flags_text sz names val = Some (spaced (flag_words names val))"
    using write_flags_words [of "[]" names val sz] names_okD [OF assms(1)] assms(4) by (simp add: flags_text_def spaced_Nil_iff)
  show "parse_flags tab (spaced (flag_words names val)) = (val, 0)"
    using parse_flag_words [OF names_okD(1,2) [OF assms(1)] assms(2)] assms(3) by (simp add: parse_flags_def)
qed

lemma store_flags_val: "store_flags (val, 0) old put m = (if old = val then (1, m) else (0, put val))"
  by (simp add: store_flags_def)

lemma proto_names_ok: "names_ok proto_table proto_names"
  by code_simp

lemma auth_alg_names_ok: "names_ok auth_alg_table auth_alg_table"
  by code_simp

lemma opt_flags_disjoint:
  "A \<inter> fst ` set t = {} \<Longrightarrow> A \<inter> fst ` set (opt_flags b p t) = {}"
  "fst ` set t \<inter> A = {} \<Longrightarrow> fst ` set (opt_flags b p t) \<inter> A = {}"
  "w \<notin> fst ` set t \<Longrightarrow> w \<notin> fst ` set (opt_flags b p t)"
  by (auto simp: opt_flags_def)

lemma distinct_opt_flags: "distinct (map fst t) \<Longrightarrow> distinct (map fst (opt_flags b p t))"
  by (simp add: opt_flags_def)

lemma distinct_key_mgmt: "distinct (map fst (key_mgmt_table b))"
  by (simp add: key_mgmt_table_def opt_flags_disjoint distinct_opt_flags Int_Un_distrib image_Un del: Int_Un_eq)

lemma key_mgmt_names_ok: "names_ok (key_mgmt_table b) (key_mgmt_table b)"
proof -
  have "is_word w" if "(w, n) \<in> set (key_mgmt_table b)" for w n
    using that by (auto simp: key_mgmt_table_def opt_flags_def is_word_def cfg_blank_def split: if_splits)
  with distinct_key_mgmt show ?thesis by (auto simp: names_ok_def list_all_iff)
qed

lemma length_spaced_filter: "length (spaced (flag_words tab val)) \<le> sum_list (map (\<lambda>(w, n). Suc (length w)) tab)"
proof -
  have s: "length (spaced ws) \<le> sum_list (map (\<lambda>w. Suc (length w)) ws)" for ws
    by (induction ws rule: spaced.induct) auto
  have "sum_list (map (\<lambda>w. Suc (length w)) (flag_words tab val)) \<le> sum_list (map (\<lambda>(w, n). Suc (length w)) tab)"
    by (induction tab) auto
  with s [of "flag_words tab val"] show ?thesis by linarith
qed

lemma flags_round_trip:
  assumes "names_ok tab names" "flags_within names val" "val \<noteq> 0" "length (spaced (flag_words names val)) < sz" "flags_text sz names val = Some v"
    "\<And>x. get (put x) = x"
  shows "\<exists>r m'. store_flags (parse_flags tab v) (get m) put m = (r, m') \<and> 0 \<le> r \<and> get m' = val"
proof -
  have "parse_flags tab v = (val, 0)" using flags_text_words [OF assms(1-4)] assms(5) by simp
  with assms(6) show ?thesis by (auto simp: store_flags_val)
qed

section \<open>Ciphers\<close>

lemma write_ciphers_step:
  assumes "bit val n" "t = (if buf = [] then [] else '' '') @ w" "length t < sz - length buf"
  shows "wpa_write_ciphers sz ((w, n) # tab) '' '' val buf = wpa_write_ciphers sz tab '' '' val (buf @ t)"
  using assms(1) snprintf_fits [OF assms(3)] assms(3) by (simp add: and_BIT_iff flip: assms(2))

text \<open>Both writers agree when the names fit.\<close>

lemma write_ciphers_flags:
  assumes "list_all is_word ws" "list_all (\<lambda>(w, n). is_word w) tab" "length (spaced (ws @ flag_words tab val)) < sz"
  shows "wpa_write_ciphers sz tab '' '' val (spaced ws) = Some (write_flags sz tab val (spaced ws))"
  using assms
proof (induction tab arbitrary: ws)
  case (Cons x tab)
  obtain w n where x: "x = (w, n)" by (cases x)
  show ?case
  proof (cases "bit val n")
    case True
    let ?a = "(if ws = [] then [] else '' '') @ w"
    have s: "spaced ws @ ?a = spaced (ws @ [w])" by (simp add: spaced_snoc)
    have l: "length (spaced (ws @ [w])) < sz" using Cons.prems(3) length_spaced_le [of "ws @ [w]" "flag_words tab val"] True x by simp
    then have a: "length ?a < sz - length (spaced ws)" using s by (metis length_append less_diff_conv add.commute)
    have e: "?a = (if spaced ws = [] then [] else '' '') @ w" using spaced_Nil_iff [OF Cons.prems(1)] by simp
    have "wpa_write_ciphers sz tab '' '' val (spaced (ws @ [w])) = Some (write_flags sz tab val (spaced (ws @ [w])))"
      using Cons x True by (intro Cons.IH) auto
    then show ?thesis using write_flags_step [OF True e a] write_ciphers_step [OF True e a] x unfolding s by simp
  next
    case False
    with Cons x show ?thesis by (simp add: and_BIT_iff)
  qed
qed simp

lemma cipher_names_ok: "names_ok cipher_table cipher_names"
  by code_simp

lemma write_cipher_words: "wpa_config_write_cipher val = Some (spaced (flag_words cipher_names val))"
proof -
  have "length (spaced (flag_words cipher_names val)) \<le> 41"
    using length_spaced_filter [of cipher_names val] by (simp add: cipher_names_def)
  then show ?thesis
    using write_ciphers_flags [of "[]" cipher_names val 50] write_flags_words [of "[]" cipher_names val 50] names_okD(2) [OF cipher_names_ok]
    by (simp add: wpa_config_write_cipher_def)
qed

lemma flag_words_known: "names_ok tab names \<Longrightarrow> w \<in> set (flag_words names val) \<Longrightarrow> map_of tab w \<noteq> None"
  by (auto simp: names_ok_def flag_words_def list_all_iff)

lemma parse_cipher_words:
  assumes "flags_within cipher_names val" "0 < val"
  shows "wpa_config_parse_cipher (spaced (flag_words cipher_names val)) = val"
proof -
  have "cfg_words (spaced (flag_words cipher_names val)) = flag_words cipher_names val"
    using cfg_words_spaced names_okD(3) [OF cipher_names_ok] by blast
  then show ?thesis
    using parse_flag_words [OF names_okD(1,2) [OF cipher_names_ok] assms(1)] assms(2) flag_words_known [OF cipher_names_ok]
    by (auto simp: wpa_config_parse_cipher_def wpa_parse_cipher_def list_ex_iff Let_def)
qed

lemma bit_mask_of: "bit (mask_of ns) k \<longleftrightarrow> k \<in> set ns"
proof -
  have "bit (fold (\<lambda>n v. v OR BIT n) ns a) k \<longleftrightarrow> bit a k \<or> k \<in> set ns" for a
    by (induction ns arbitrary: a) (auto simp: bit_or_iff bit_BIT)
  then show ?thesis by (simp add: mask_of_def)
qed

lemma flags_withinD:
  assumes "flags_within names val" "bit val k"
  shows "k \<in> snd ` set names"
  using assms bit_mask_of [of "map snd (filter (\<lambda>(w, n). bit val n) names)" k] by (auto simp: flags_within_def)

lemma cipher_bits:
  assumes "flags_within cipher_names val"
  shows "val AND NOT WPA_ALLOWED_PAIRWISE_CIPHERS = 0" "val AND NOT (mask_of [2, 1]) = val"
    "\<not> bit val 0 \<Longrightarrow> val AND NOT WPA_ALLOWED_GROUP_CIPHERS = 0"
proof -
  have k: "bit val k \<Longrightarrow> k \<in> {9, 8, 4, 6, 3, 0}" for k
    using flags_withinD [OF assms, of k] by (simp add: cipher_names_def)
  show "val AND NOT WPA_ALLOWED_PAIRWISE_CIPHERS = 0" "val AND NOT (mask_of [2, 1]) = val"
    using k by (intro bit_eqI; force simp: bit_and_iff bit_not_iff_eq bit_mask_of WPA_ALLOWED_PAIRWISE_CIPHERS_def)+
  show "val AND NOT WPA_ALLOWED_GROUP_CIPHERS = 0" if "\<not> bit val 0"
    using k that by (intro bit_eqI; force simp: bit_and_iff bit_not_iff_eq bit_mask_of WPA_ALLOWED_GROUP_CIPHERS_def)
qed

lemma pairwise_round_trip:
  assumes "flags_within cipher_names (ws_pairwise_cipher n)" "0 < ws_pairwise_cipher n"
    "wpa_config_write_cipher (ws_pairwise_cipher n) = Some v"
  shows "\<exists>r m'. wpa_config_parse_pairwise v m = (r, m') \<and> 0 \<le> r \<and> ws_pairwise_cipher m' = ws_pairwise_cipher n"
proof -
  have "wpa_config_parse_cipher v = ws_pairwise_cipher n" using assms write_cipher_words parse_cipher_words by auto
  then show ?thesis using assms(2) cipher_bits [OF assms(1)] by (auto simp: wpa_config_parse_pairwise_def Let_def)
qed

lemma group_round_trip:
  assumes "flags_within cipher_names (ws_group_cipher n)" "\<not> bit (ws_group_cipher n) 0" "0 < ws_group_cipher n"
    "wpa_config_write_cipher (ws_group_cipher n) = Some v"
  shows "\<exists>r m'. wpa_config_parse_group v m = (r, m') \<and> 0 \<le> r \<and> ws_group_cipher m' = ws_group_cipher n"
proof -
  have "wpa_config_parse_cipher v = ws_group_cipher n" using assms write_cipher_words parse_cipher_words by auto
  then show ?thesis using assms(2,3) cipher_bits [OF assms(1)] by (auto simp: wpa_config_parse_group_def Let_def)
qed

section \<open>Keys\<close>

lemma write_string_hex_not_prefix:
  "\<not> str_starts (write_string_hex t) ''ext:''" "\<not> str_starts (write_string_hex t) ''hash:''" "at0 (write_string_hex t) \<noteq> DQ"
proof -
  have h: "of_char c div 16 < (16::nat)" "of_char c mod 16 < (16::nat)" for c
    using less_mult_imp_div_less [of "of_char c" 16 16] by simp_all
  have x: "hexdig n \<noteq> CHR ''x''" "hexdig n \<noteq> CHR ''h''" "hexdig n \<noteq> DQ" if "n < 16" for n
    using hex2num_hexdig [OF that] by (auto simp: hex2num_def)
  show "\<not> str_starts (write_string_hex t) ''ext:''" "\<not> str_starts (write_string_hex t) ''hash:''" "at0 (write_string_hex t) \<noteq> DQ"
    using x h unfolding write_string_hex_pairs by (cases t; force simp: str_starts_def is_prefix_iff hex_pair_def hex02_def)+
qed

lemma hexstr2bin_write: "length buf = length t \<Longrightarrow> hexstr2bin (write_string_hex t) buf (length t) = (0, t)"
  using hexstr2bin_pairs [of t False "[]"] by (simp add: hexstr2bin_def write_string_hex_pairs memwrite_def)

lemma length_write_string_hex [simp]: "length (write_string_hex t) = 2 * length t"
  by (simp add: write_string_hex_pairs)

text \<open>A passphrase has 8 to 63 characters and none of them is a control character; a key has 32 bytes.\<close>

definition psk_ok :: "wpa_ssid \<Rightarrow> bool" where
  "psk_ok n \<longleftrightarrow> length (ws_psk n) = PMK_LEN \<and>
     (case ws_passphrase n of None \<Rightarrow> True | Some t \<Rightarrow> 8 \<le> length t \<and> length t \<le> 63 \<and> \<not> has_ctrl_char t)"

lemma psk_round_trip:
  assumes "psk_ok n" "psk_ok m" "wpa_config_write_psk b n = Some v" "OPT_NO_PBKDF2 \<notin> b"
    "OPT_EXT_PASSWORD \<in> b \<Longrightarrow> ws_ext_psk m = None"
  shows "\<exists>r m'. wpa_config_parse_psk b v m = (r, m') \<and> 0 \<le> r \<and> wpa_config_write_psk b m' = Some v"
proof (cases "OPT_EXT_PASSWORD \<in> b \<and> ws_ext_psk n \<noteq> None")
  case True
  then obtain e where "v = ''ext:'' @ e" using assms(3) by (auto simp: wpa_config_write_psk_def)
  with True show ?thesis by (simp add: wpa_config_parse_psk_def wpa_config_write_psk_def str_starts_def is_prefix_iff)
next
  case False
  then have w: "wpa_config_write_psk b n = (case ws_passphrase n of Some t \<Rightarrow> Some (write_string_ascii t)
      | None \<Rightarrow> if ws_psk_set n then Some (write_string_hex (ws_psk n)) else None)" by (auto simp: wpa_config_write_psk_def)
  have x: "OPT_EXT_PASSWORD \<notin> b \<or> ws_ext_psk m = None" using assms(5) by auto
  show ?thesis
  proof (cases "ws_passphrase n")
    case (Some t)
    then have v: "v = DQ # t @ [DQ]" "8 \<le> length t" "length t \<le> 63" "\<not> has_ctrl_char t"
      using assms(1,3) w by (auto simp: psk_ok_def write_string_ascii_def)
    have "\<not> str_starts v ''ext:''" using v by (simp add: str_starts_def is_prefix_iff)
    moreover have "os_strrchr_idx (t @ [DQ]) DQ = Some (length t)" by (simp add: os_strrchr_idx_def)
    ultimately show ?thesis using v x assms(4) by (auto simp: wpa_config_parse_psk_def wpa_config_write_psk_def write_string_ascii_def Let_def)
  next
    case None
    then have v: "v = write_string_hex (ws_psk n)" using assms(3) w by (simp split: if_splits)
    have "hexstr2bin v (ws_psk m) PMK_LEN = (0, ws_psk n)" using hexstr2bin_write [of "ws_psk m" "ws_psk n"] assms(1,2) v by (simp add: psk_ok_def)
    then show ?thesis using v x write_string_hex_not_prefix [of "ws_psk n"] assms(1)
      by (auto simp: wpa_config_parse_psk_def wpa_config_write_psk_def Let_def psk_ok_def)
  qed
qed

text \<open>A password kept as a hash has 16 bytes, one kept as a name for the external storage is a text.\<close>

definition password_ok :: "build_opt set \<Rightarrow> wpa_ssid \<Rightarrow> bool" where
  "password_ok b n \<longleftrightarrow>
     (case ws_password n of
        None \<Rightarrow> True
      | Some p \<Rightarrow>
          if OPT_EXT_PASSWORD \<in> b \<and> bit (ws_eap_flags n) FLAG_EXT then no_nul p
          else bit (ws_eap_flags n) FLAG_NTHASH \<longrightarrow> length p = 16)"

lemma write_string_not_prefix: "\<not> str_starts (wpa_config_write_string t) ''ext:''" "\<not> str_starts (wpa_config_write_string t) ''hash:''"
  using write_string_hex_not_prefix(1,2) [of t]
  by (auto simp: wpa_config_write_string_def write_string_ascii_def str_starts_def is_prefix_iff)

lemma flag_bits [simp]:
  "bit (set_bit FLAG_EXT i) FLAG_EXT" "bit (unset_bit FLAG_EXT i) FLAG_NTHASH = bit i FLAG_NTHASH" "\<not> bit (unset_bit FLAG_EXT i) FLAG_EXT"
  "bit (set_bit FLAG_NTHASH i) FLAG_NTHASH" "\<not> bit (unset_bit FLAG_NTHASH i) FLAG_NTHASH" for i :: int
  by (simp_all add: FLAG_EXT_def FLAG_NTHASH_def bit_simps)

lemma password_round_trip:
  assumes "password_ok b n" "wpa_config_write_password b n = Some v" "OPT_EXT_PASSWORD \<in> b \<Longrightarrow> \<not> bit (ws_eap_flags m) FLAG_EXT"
  shows "\<exists>r m'. wpa_config_parse_password b v m = (r, m') \<and> 0 \<le> r \<and> wpa_config_write_password b m' = Some v"
proof -
  obtain p where p: "ws_password n = Some p" using assms(2) by (auto simp: wpa_config_write_password_def)
  consider (ext) "OPT_EXT_PASSWORD \<in> b" "bit (ws_eap_flags n) FLAG_EXT"
    | (hash) "\<not> (OPT_EXT_PASSWORD \<in> b \<and> bit (ws_eap_flags n) FLAG_EXT)" "bit (ws_eap_flags n) FLAG_NTHASH"
    | (plain) "\<not> (OPT_EXT_PASSWORD \<in> b \<and> bit (ws_eap_flags n) FLAG_EXT)" "\<not> bit (ws_eap_flags n) FLAG_NTHASH" by blast
  then show ?thesis
  proof cases
    case ext
    with p assms(1,2) have "v = ''ext:'' @ p" "no_nul p" by (auto simp: wpa_config_write_password_def password_ok_def)
    with ext show ?thesis by (simp add: wpa_config_parse_password_def wpa_config_write_password_def str_starts_def is_prefix_iff)
  next
    case hash
    with p assms(1,2) have v: "v = ''hash:'' @ write_string_hex p" "length p = 16"
      by (auto simp: wpa_config_write_password_def password_ok_def)
    have h: "hexstr2bin (write_string_hex p) (replicate 16 NUL) 16 = (0, p)" using hexstr2bin_write [of "replicate 16 NUL" p] v(2) by simp
    have "\<not> str_starts v ''ext:''" "str_starts v ''hash:''" "drop 5 v = write_string_hex p" "v \<noteq> ''NULL''"
      using v by (auto simp: str_starts_def is_prefix_iff)
    with h v assms(3) show ?thesis
      by (auto simp: wpa_config_parse_password_def wpa_config_write_password_def)
  next
    case plain
    with p assms(2) have v: "v = wpa_config_write_string p" by (auto simp: wpa_config_write_password_def)
    then show ?thesis using write_string_not_prefix [of p] write_string_not_null [of p] parse_write_string [of p]
      by (auto simp: wpa_config_parse_password_def wpa_config_write_password_def)
  qed
qed

definition wep_ok :: "nat \<Rightarrow> wpa_ssid \<Rightarrow> bool" where
  "wep_ok i n \<longleftrightarrow> length (ws_wep_key n i) = MAX_WEP_KEY_LEN \<and> ws_wep_key_len n i \<le> MAX_WEP_KEY_LEN"

lemma wep_round_trip:
  assumes "wep_ok i n" "wep_ok i m" "wpa_config_write_wep_key i n = Val (Some v)"
  shows "\<exists>r m'. wpa_config_parse_wep_key i v m = (r, m') \<and> 0 \<le> r \<and> wpa_config_write_wep_key i m' = Val (Some v)"
proof -
  let ?k = "take (ws_wep_key_len n i) (ws_wep_key n i)"
  have v: "v = wpa_config_write_string ?k" "0 < ws_wep_key_len n i" "length ?k = ws_wep_key_len n i"
    using assms by (auto simp: wpa_config_write_wep_key_def wep_ok_def Let_def split: if_splits)
  then show ?thesis using assms(1,2) parse_write_string [of ?k]
    by (auto simp: wpa_config_parse_wep_key_def wpa_config_write_wep_key_def wep_ok_def memwrite_def)
qed

section \<open>Addresses\<close>

lemma macstr_chars: "c \<in> set (macstr_loop a) \<Longrightarrow> c \<noteq> CHR '' '' \<and> c \<noteq> DQ"
proof (induction a rule: macstr_loop.induct)
  case (2 b)
  have "of_char b div 16 < (16::nat)" "of_char b mod 16 < (16::nat)" using less_mult_imp_div_less [of "of_char b" 16 16] by simp_all
  with 2 hexdig_other show ?case by (auto simp: hex02_def)
next
  case (3 b c bs)
  have "of_char b div 16 < (16::nat)" "of_char b mod 16 < (16::nat)" using less_mult_imp_div_less [of "of_char b" 16 16] by simp_all
  with 3 hexdig_other show ?case by (auto simp: hex02_def)
qed simp

lemma length_macstr_loop: "length (macstr_loop a) = 3 * length a - 1"
  by (induction a rule: macstr_loop.induct) auto

lemma hwaddr_aton_macstr: "length a = ETH_ALEN \<Longrightarrow> length buf = ETH_ALEN \<Longrightarrow> hwaddr_aton (MACSTR a @ r) buf = (0, a)"
  using hwaddr_parse_macstr [of a ETH_ALEN r] by (simp add: hwaddr_aton_def hwaddr_parse_def MACSTR_def memwrite_def)

lemma length_MACSTR: "length a = ETH_ALEN \<Longrightarrow> length (MACSTR a) = 17"
  by (simp add: MACSTR_def length_macstr_loop ETH_ALEN_def)

lemma macstr_not_any: "length a = ETH_ALEN \<Longrightarrow> \<not> any_addr (MACSTR a)"
  using length_MACSTR [of a] by (auto simp: any_addr_def)

lemma bssid_round_trip:
  assumes "length (ws_bssid n) = ETH_ALEN" "length (ws_bssid m) = ETH_ALEN" "wpa_config_write_bssid n = Some v"
  shows "\<exists>m'. wpa_config_parse_bssid v m = (0, m') \<and> wpa_config_write_bssid m' = Some v"
  using assms hwaddr_aton_macstr [of "ws_bssid n" "ws_bssid m" "[]"] length_MACSTR [OF assms(1)] macstr_not_any [OF assms(1)]
  by (intro exI [of _ "m\<lparr>ws_bssid := ws_bssid n, ws_bssid_set := True\<rparr>"])
    (auto simp: wpa_config_write_bssid_def wpa_config_parse_bssid_def os_snprintf_def os_snprintf_error_def split: if_splits)

lemma go_p2p_dev_addr_round_trip:
  assumes "length (ws_go_p2p_dev_addr n) = ETH_ALEN" "length (ws_go_p2p_dev_addr m) = ETH_ALEN" "wpa_config_write_go_p2p_dev_addr n = Some v"
  shows "\<exists>m'. wpa_config_parse_go_p2p_dev_addr v m = (0, m') \<and> wpa_config_write_go_p2p_dev_addr m' = Some v"
  using assms hwaddr_aton_macstr [of "ws_go_p2p_dev_addr n" "ws_go_p2p_dev_addr m" "[]"] length_MACSTR [OF assms(1)] macstr_not_any [OF assms(1)]
  by (intro exI [of _ "m\<lparr>ws_go_p2p_dev_addr := ws_go_p2p_dev_addr n, ws_bssid_set := True\<rparr>"])
    (auto simp: wpa_config_write_go_p2p_dev_addr_def wpa_config_parse_go_p2p_dev_addr_def os_snprintf_def os_snprintf_error_def split: if_splits)

definition all_ones :: "char list" where
  "all_ones = replicate ETH_ALEN (u8 255)"

definition addr_entry_txt :: "char list \<times> char list \<Rightarrow> string" where
  "addr_entry_txt e = (if snd e = all_ones then MACSTR (fst e) else MACSTR (fst e) @ ''/'' @ MACSTR (snd e))"

definition addr_entry_ok :: "bool \<Rightarrow> char list \<times> char list \<Rightarrow> bool" where
  "addr_entry_ok masked e \<longleftrightarrow> length (fst e) = ETH_ALEN \<and> length (snd e) = ETH_ALEN \<and> (masked \<or> snd e = all_ones)"

lemma mask_all_ones: "length m = ETH_ALEN \<Longrightarrow> list_ex (\<lambda>i. m ! i \<noteq> u8 255) [0..<ETH_ALEN] \<longleftrightarrow> m \<noteq> all_ones"
  by (auto simp: list_ex_iff all_ones_def list_eq_iff_nth_eq)

lemma length_addr_entry: "addr_entry_ok mk e \<Longrightarrow> length (addr_entry_txt e) \<le> 35 \<and> addr_entry_txt e \<noteq> []"
  using length_MACSTR [of "fst e"] length_MACSTR [of "snd e"] by (auto simp: addr_entry_txt_def addr_entry_ok_def)

lemma hwaddr_mask_txt_entry:
  assumes "addr_entry_ok mk e" "35 < room"
  shows "hwaddr_mask_txt room (fst e) (snd e) = (int (length (addr_entry_txt e)), addr_entry_txt e)"
proof -
  have "length (addr_entry_txt e) < room" using length_addr_entry [OF assms(1)] assms(2) by linarith
  then show ?thesis using mask_all_ones [of "snd e"] assms(1)
    by (simp add: hwaddr_mask_txt_def addr_entry_ok_def addr_entry_txt_def os_snprintf_def os_snprintf_error_def Let_def split: if_splits)
qed

lemma write_addr_loop_text:
  assumes "list_all (addr_entry_ok mk) es" "40 * length es \<le> room" "es \<noteq> [] \<or> first"
  shows "write_addr_loop room first es = Some ((if first then [] else '' '') @ spaced (map addr_entry_txt es))"
  using assms
proof (induction es arbitrary: room first)
  case (Cons e es)
  let ?sep = "if first then [] else '' ''" let ?room = "room - length ?sep"
  have e: "addr_entry_ok mk e" using Cons.prems(1) by simp
  have r: "35 < ?room" using Cons.prems(2) by auto
  have len: "length (addr_entry_txt e) \<le> 35" using length_addr_entry [OF e] by blast
  have t: "hwaddr_mask_txt ?room (fst e) (snd e) = (int (length (addr_entry_txt e)), addr_entry_txt e)" by (rule hwaddr_mask_txt_entry [OF e r])
  have st: "write_addr_loop room first (e # es) = map_option (\<lambda>r. ?sep @ addr_entry_txt e @ r) (write_addr_loop (?room - length (addr_entry_txt e)) False es)"
    using t by (cases e) (simp add: Let_def)
  show ?case
  proof (cases es)
    case Nil
    with st show ?thesis by simp
  next
    case (Cons e' es')
    have "write_addr_loop (?room - length (addr_entry_txt e)) False es = Some ('' '' @ spaced (map addr_entry_txt es))"
      using Cons.IH [of "?room - length (addr_entry_txt e)" False] Cons.prems len Cons by auto
    with st Cons show ?thesis by simp
  qed
qed simp

lemma addr_loop_blank: "s \<noteq> [] \<Longrightarrow> addr_list_loop ab mk (CHR '' '' # s) buf = addr_list_loop ab mk s buf"
  by (subst (1 2) addr_list_loop.simps) simp

lemma masked_aton_entry:
  assumes "addr_entry_ok mk e" "r = [] \<or> at0 r = CHR '' ''"
  shows "hwaddr_masked_aton (addr_entry_txt e @ r) (replicate ETH_ALEN NUL) (replicate ETH_ALEN NUL) mk = (0, e)"
proof -
  have l: "length (fst e) = ETH_ALEN" "length (snd e) = ETH_ALEN" using assms(1) by (simp_all add: addr_entry_ok_def)
  have p: "hwaddr_parse (MACSTR a @ x) = (a, Some x)" if "length a = ETH_ALEN" for a x
    using hwaddr_parse_macstr [OF that] that by (simp add: hwaddr_parse_def MACSTR_def)
  have b: "r = [] \<or> c_isspace (at0 r)" using assms(2) by (auto simp: c_isspace_def)
  show ?thesis
  proof (cases "snd e = all_ones")
    case True
    then show ?thesis using p [OF l(1), of r] b l by (cases e) (auto simp: hwaddr_masked_aton_def addr_entry_txt_def memwrite_def all_ones_def)
  next
    case False
    then have "mk" using assms(1) by (auto simp: addr_entry_ok_def)
    then show ?thesis using False p [OF l(1), of "CHR ''/'' # MACSTR (snd e) @ r"] p [OF l(2), of r] l
      by (cases e) (auto simp: hwaddr_masked_aton_def addr_entry_txt_def memwrite_def c_isspace_def)
  qed
qed

lemma addr_entry_no_blank: "CHR '' '' \<notin> set (addr_entry_txt e)"
  using macstr_chars [of "CHR '' ''"] by (auto simp: addr_entry_txt_def MACSTR_def)

lemma strchr_skip: "c \<notin> set p \<Longrightarrow> os_strchr (p @ c # r) c = Some (c # r)" "c \<notin> set p \<Longrightarrow> os_strchr p c = None"
  by (induction p) (auto simp: os_strchr_def)

lemma addr_list_loop_text:
  assumes "list_all (addr_entry_ok mk) es" "es \<noteq> []"
  shows "addr_list_loop ab mk (spaced (map addr_entry_txt es)) buf = Some (rev es @ buf)"
  using assms
proof (induction es arbitrary: buf)
  case (Cons e es)
  let ?t = "addr_entry_txt e"
  have e: "addr_entry_ok mk e" using Cons.prems(1) by simp
  obtain c t where c: "?t = c # t" "c \<noteq> CHR '' ''" using length_addr_entry [OF e] addr_entry_no_blank [of e] by (cases ?t) auto
  have d: "dropWhile (\<lambda>c. c = CHR '' '') (?t @ r) = ?t @ r" for r using c by simp
  have ne: "?t \<noteq> []" using c(1) by simp
  show ?case
  proof (cases es)
    case Nil
    show ?thesis using masked_aton_entry [OF e, of "[]"] d [of "[]"] ne strchr_skip(2) [OF addr_entry_no_blank, of e] unfolding Nil
      by (subst addr_list_loop.simps) simp
  next
    case (Cons e' es')
    let ?r = "CHR '' '' # spaced (map addr_entry_txt es)"
    have s: "spaced (map addr_entry_txt (e # es)) = ?t @ ?r" using Cons by simp
    have n: "spaced (map addr_entry_txt es) \<noteq> []" using Cons Cons.prems(1) length_addr_entry [of mk e'] by (cases es') auto
    have "addr_list_loop ab mk (?t @ ?r) buf = addr_list_loop ab mk ?r (e # buf)"
      using masked_aton_entry [OF e, of ?r] d [of ?r] ne strchr_skip(1) [OF addr_entry_no_blank, of e]
      by (subst addr_list_loop.simps) simp
    then show ?thesis using Cons.IH [of "e # buf"] Cons.prems Cons addr_loop_blank [OF n] s by simp
  qed
qed simp

lemma addr_list_round_trip:
  assumes "list_all (addr_entry_ok mk) es" "wpa_config_write_addr_list es = Some v"
  shows "wpa_config_parse_addr_list ab mk v = Some es"
proof -
  have es: "es \<noteq> []" using assms(2) by (auto simp: wpa_config_write_addr_list_def)
  have ok: "list_all (addr_entry_ok mk) (rev es)" using assms(1) by simp
  have "v = spaced (map addr_entry_txt (rev es))"
    using assms(2) es write_addr_loop_text [OF ok, of "40 * length es" True] by (simp add: wpa_config_write_addr_list_def)
  then show ?thesis using addr_list_loop_text [OF ok, of ab "[]"] es by (simp add: wpa_config_parse_addr_list_def)
qed

section \<open>Frequencies\<close>

text \<open>Positive numbers of at most nine digits.\<close>

definition freq_ok :: "int \<Rightarrow> bool" where
  "freq_ok f \<longleftrightarrow> 0 < f \<and> f < 10 ^ 9"

definition freq_txt :: "int \<Rightarrow> string" where
  "freq_txt f = show_nat (nat (f mod 2 ^ 32))"

lemma freq_txt_eq: "freq_ok f \<Longrightarrow> freq_txt f = show_int f"
  by (simp add: freq_ok_def freq_txt_def show_int_def)

lemma length_freq_txt: "freq_ok f \<Longrightarrow> length (freq_txt f) \<le> 9"
  using length_show_nat [of "nat f" 8] by (auto simp: freq_ok_def freq_txt_def nat_less_iff)

lemma freq_txt_not_Nil [simp]: "freq_txt f \<noteq> []"
  by (simp add: freq_txt_def)

lemma write_freqs_step:
  assumes "t = (if buf = [] then [] else '' '') @ show_nat (nat (f mod 2 ^ 32))" "length t < sz - length buf"
  shows "write_freqs_loop sz (f # fs) buf = write_freqs_loop sz fs (buf @ t)"
  using snprintf_fits [OF assms(2)] assms(2) unfolding write_freqs_loop.simps assms(1) [symmetric] by simp

lemma write_freqs_text:
  assumes "list_all freq_ok fs" "length (spaced ws) + 10 * length fs < sz" "spaced ws = [] \<longleftrightarrow> ws = []"
  shows "write_freqs_loop sz fs (spaced ws) = spaced (ws @ map freq_txt fs)"
  using assms
proof (induction fs arbitrary: ws)
  case (Cons f fs)
  let ?a = "(if ws = [] then [] else '' '') @ freq_txt f"
  have s: "spaced ws @ ?a = spaced (ws @ [freq_txt f])" by (simp add: spaced_snoc)
  have l: "length ?a \<le> 10" using length_freq_txt [of f] Cons.prems(1) by simp
  then have a: "length ?a < sz - length (spaced ws)" using Cons.prems(2) by simp
  have e: "(if spaced ws = [] then [] else '' '') @ show_nat (nat (f mod 2 ^ 32)) = ?a" using Cons.prems(3) by (simp add: freq_txt_def)
  have "write_freqs_loop sz (f # fs) (spaced ws) = write_freqs_loop sz fs (spaced ws @ ?a)"
    by (rule write_freqs_step [OF e [symmetric] a])
  also have "\<dots> = spaced ((ws @ [freq_txt f]) @ map freq_txt fs)"
    unfolding s
  proof (rule Cons.IH)
    have "length (spaced (ws @ [freq_txt f])) \<le> length (spaced ws) + 10" using l s by (metis length_append add_left_mono)
    then show "length (spaced (ws @ [freq_txt f])) + 10 * length fs < sz" using Cons.prems(2) by simp
  qed (use Cons.prems in \<open>simp_all add: spaced_snoc\<close>)
  finally show ?case by simp
qed simp

lemma atoi_show_blank: "0 \<le> f \<Longrightarrow> atoi (show_int f @ CHR '' '' # r) = f"
proof -
  assume f: "0 \<le> f"
  obtain c t where c: "show_int f = c # t" by (cases "show_int f") auto
  have d: "\<forall>c \<in> set (show_int f). c_isdigit c" using show_nat_digits f by (auto simp: show_int_def)
  then have n: "\<not> c_isspace c" "c \<noteq> CHR ''-''" "c \<noteq> CHR ''+''" using digit_not [of c] c by auto
  have v: "digits_val 0 (show_int f) = f" using digits_val_show_nat [of "nat f"] f by (simp add: show_int_def)
  have "digits_val 0 (show_int f @ CHR '' '' # r) = f" using digits_val_append [OF d] v by (simp add: c_isdigit_def)
  then show ?thesis using c n by (simp add: atoi_def)
qed

lemma int_array_blank: "int_array_loop (CHR '' '' # s) = int_array_loop s"
  by (subst (1 2) int_array_loop.simps) simp

lemma freq_txt_head:
  assumes "freq_ok f"
  shows "dropWhile (\<lambda>c. c = CHR '' '') (freq_txt f @ r) = freq_txt f @ r" "CHR '' '' \<notin> set (drop 1 (freq_txt f))"
proof -
  have "CHR '' '' \<notin> set (freq_txt f)" using show_nat_digits [of "CHR '' ''"] by (auto simp: freq_txt_def c_isdigit_def)
  then show "dropWhile (\<lambda>c. c = CHR '' '') (freq_txt f @ r) = freq_txt f @ r" "CHR '' '' \<notin> set (drop 1 (freq_txt f))"
    using freq_txt_not_Nil [of f] by (cases "freq_txt f"; auto dest: in_set_dropD)+
qed

lemma int_array_loop_text: "list_all freq_ok fs \<Longrightarrow> int_array_loop (spaced (map freq_txt fs)) = fs"
proof (induction fs)
  case Nil
  show ?case by (simp add: int_array_loop.simps atoi32_def atoi_def int32_def)
next
  case (Cons f fs)
  then have f: "freq_ok f" by simp
  note h = freq_txt_head [OF f]
  have i: "int32 (max (- (2 ^ 63)) (min (2 ^ 63 - 1) f)) = f" using f by (simp add: freq_ok_def int32_def)
  show ?case
  proof (cases fs)
    case Nil
    have "atoi32 (freq_txt f) = f" using i atoi_show_int [of f] freq_txt_eq [OF f] by (simp add: atoi32_def)
    then show ?thesis using h(1) [of "[]"] strchr_skip(2) [OF h(2)] f Nil
      by (subst int_array_loop.simps) (simp add: freq_ok_def)
  next
    case (Cons f' fs')
    let ?r = "CHR '' '' # spaced (map freq_txt fs)"
    have s: "spaced (map freq_txt (f # fs)) = freq_txt f @ ?r" using Cons by simp
    have "atoi32 (freq_txt f @ ?r) = f" using i atoi_show_blank [of f] f freq_txt_eq [OF f] by (simp add: atoi32_def freq_ok_def)
    moreover have "drop 1 (freq_txt f @ ?r) = drop 1 (freq_txt f) @ ?r" using freq_txt_not_Nil [of f] by (cases "freq_txt f") auto
    ultimately have "int_array_loop (freq_txt f @ ?r) = f # int_array_loop ?r"
      using h(1) [of ?r] strchr_skip(1) [OF h(2)] f by (subst int_array_loop.simps) (simp add: freq_ok_def)
    then show ?thesis using Cons.IH Cons.prems s int_array_blank by simp
  qed
qed

lemma freqs_round_trip:
  assumes "list_all freq_ok fs" "wpa_config_write_freqs fs = Some v"
  shows "wpa_config_parse_int_array v = fs"
proof -
  have "v = spaced (map freq_txt fs)"
    using assms(2) write_freqs_text [OF assms(1), of "[]" "10 * length fs + 1"] by (auto simp: wpa_config_write_freqs_def split: if_splits)
  then show ?thesis using int_array_loop_text [OF assms(1)] by (simp add: wpa_config_parse_int_array_def)
qed

section \<open>EAP methods\<close>

text \<open>The methods of a network all have a name of the build, and their names fit in the buffer.\<close>

definition eap_name :: "eap_methods \<Rightarrow> int \<times> int \<Rightarrow> string" where
  "eap_name methods m = (case eap_get_name methods m of None \<Rightarrow> [] | Some w \<Rightarrow> w)"

definition method_ok :: "eap_methods \<Rightarrow> int \<times> int \<Rightarrow> bool" where
  "method_ok methods m \<longleftrightarrow> m \<noteq> (0, 0) \<and> is_word (eap_name methods m) \<and> map_of methods (eap_name methods m) = Some m"

definition eap_ok :: "eap_methods \<Rightarrow> wpa_ssid \<Rightarrow> bool" where
  "eap_ok methods n \<longleftrightarrow>
     (case ws_eap_methods n of
        None \<Rightarrow> True
      | Some ms \<Rightarrow> list_all (method_ok methods) ms \<and> length (spaced (map (eap_name methods) ms)) < 100)"

lemma write_eap_step:
  assumes "eap_get_name methods m = Some w" "t = (if buf = [] then [] else '' '') @ w" "length t < 100 - length buf"
  shows "write_eap_loop methods (m # ms) buf = write_eap_loop methods ms (buf @ t)"
  using assms(1) snprintf_fits [OF assms(3)] assms(3) by (simp flip: assms(2))

lemma write_eap_text:
  assumes "list_all (method_ok methods) ms" "list_all is_word ws" "length (spaced (ws @ map (eap_name methods) ms)) < 100"
  shows "write_eap_loop methods ms (spaced ws) = spaced (ws @ map (eap_name methods) ms)"
  using assms
proof (induction ms arbitrary: ws)
  case (Cons m ms)
  let ?w = "eap_name methods m" let ?a = "(if ws = [] then [] else '' '') @ ?w"
  have w: "is_word ?w" "eap_get_name methods m = Some ?w"
    using Cons.prems(1) by (auto simp: method_ok_def eap_name_def is_word_def split: option.splits)
  have s: "spaced ws @ ?a = spaced (ws @ [?w])" by (simp add: spaced_snoc)
  have l: "length (spaced (ws @ [?w])) < 100" using Cons.prems(3) length_spaced_le [of "ws @ [?w]" "map (eap_name methods) ms"] by simp
  then have a: "length ?a < 100 - length (spaced ws)" using s by (metis length_append less_diff_conv add.commute)
  have e: "?a = (if spaced ws = [] then [] else '' '') @ ?w" using spaced_Nil_iff [OF Cons.prems(2)] by simp
  have "write_eap_loop methods ms (spaced (ws @ [?w])) = spaced ((ws @ [?w]) @ map (eap_name methods) ms)"
    using Cons w by (intro Cons.IH) auto
  then show ?case using write_eap_step [OF w(2) e a] unfolding s by simp
qed simp

lemma fold_eap_step:
  assumes "list_all (method_ok methods) ms"
  shows "\<exists>m'. fold (eap_step methods) (map (eap_name methods) ms) (acc, e, m) = (acc @ ms, e, m') \<and> ws_eap_methods m' = ws_eap_methods m"
  using assms
proof (induction ms arbitrary: acc m)
  case (Cons x ms)
  have x: "eap_peer_get_type methods (eap_name methods x) = x" "x \<noteq> (0, 0)"
    using Cons.prems by (auto simp: method_ok_def eap_peer_get_type_def)
  define m1 where "m1 = (if x = (0, EAP_TYPE_LEAP) then m\<lparr>ws_leap := ws_leap m + 1\<rparr> else m\<lparr>ws_non_leap := ws_non_leap m + 1\<rparr>)"
  have "eap_step methods (eap_name methods x) (acc, e, m) = (acc @ [x], e, m1)" "ws_eap_methods m1 = ws_eap_methods m"
    using x by (auto simp: eap_step_def m1_def)
  then show ?case using Cons.IH [of "acc @ [x]" m1] Cons.prems by simp
qed simp

lemma up_to_end_ok: "list_all (method_ok methods) ms \<Longrightarrow> up_to_end ms = ms"
  by (auto simp: up_to_end_def list_all_iff takeWhile_eq_all_conv method_ok_def)

lemma eap_round_trip:
  assumes "eap_ok methods n" "ws_eap_methods m = None" "wpa_config_write_eap methods n = Some v"
  shows "\<exists>m'. wpa_config_parse_eap methods v m = (0, m') \<and> wpa_config_write_eap methods m' = Some v"
proof -
  obtain ms where ms: "ws_eap_methods n = Some ms" using assms(3) by (auto simp: wpa_config_write_eap_def)
  then have ok: "list_all (method_ok methods) ms" and l: "length (spaced (map (eap_name methods) ms)) < 100" using assms(1) by (auto simp: eap_ok_def)
  have v: "v = spaced (map (eap_name methods) ms)"
    using assms(3) ms write_eap_text [OF ok, of "[]"] l up_to_end_ok [OF ok] by (simp add: wpa_config_write_eap_def)
  have "cfg_words v = map (eap_name methods) ms" unfolding v using ok by (intro cfg_words_spaced) (auto simp: list_all_iff method_ok_def)
  then obtain m' where "fold (eap_step methods) (cfg_words v) ([], 0, m) = (ms, 0, m')" "ws_eap_methods m' = None"
    using fold_eap_step [OF ok, of "[]" 0 m] assms(2) by auto
  then have "wpa_config_parse_eap methods v m = (0, m'\<lparr>ws_eap_methods := Some ms\<rparr>)" by (simp add: wpa_config_parse_eap_def)
  then show ?thesis using assms(3) ms by (simp add: wpa_config_write_eap_def)
qed

end
