(* ===== verification/Net_Config.thy ===== *)
theory Net_Config
  imports Net_Round
begin

text \<open>
  The table of the fields of a network and the operations on the list of networks, \<^verbatim>\<open>wpa_supplicant/config.c\<close>. The entry of a
  field names its parser and its writer with their parameters; \<open>parser\<close> and \<open>writer\<close> call them. The networks are
  a list in the order of their ids; the priority lists are the array of lists that \<^verbatim>\<open>pssid\<close> and \<^verbatim>\<open>pnext\<close> link, as ids.
\<close>

section \<open>The table of fields\<close>

datatype field_fn = Fn_str bool nat nat | Fn_int int int | Fn_bssid | Fn_bssid_blacklist | Fn_bssid_whitelist | Fn_psk | Fn_proto |
  Fn_key_mgmt | Fn_pairwise | Fn_group | Fn_auth_alg | Fn_scan_freq | Fn_freq_list | Fn_eap | Fn_password | Fn_wep_key nat |
  Fn_mesh_basic_rates | Fn_go_p2p_dev_addr | Fn_p2p_client_list | Fn_psk_list

record parse_data =
  pd_name :: string
  pd_fn :: field_fn
  key_data :: bool

definition STR_FIELD :: "string \<Rightarrow> parse_data" where "STR_FIELD f = \<lparr>pd_name = f, pd_fn = Fn_str False 0 0, key_data = False\<rparr>"
definition STR_KEY :: "string \<Rightarrow> parse_data" where "STR_KEY f = \<lparr>pd_name = f, pd_fn = Fn_str False 0 0, key_data = True\<rparr>"
definition STR_LEN :: "string \<Rightarrow> parse_data" where "STR_LEN f = \<lparr>pd_name = f, pd_fn = Fn_str True 0 0, key_data = False\<rparr>"
definition STR_RANGE :: "string \<Rightarrow> nat \<Rightarrow> nat \<Rightarrow> parse_data" where
  "STR_RANGE f mn mx = \<lparr>pd_name = f, pd_fn = Fn_str True mn mx, key_data = False\<rparr>"
definition INT_FIELD :: "string \<Rightarrow> parse_data" where "INT_FIELD f = \<lparr>pd_name = f, pd_fn = Fn_int 0 0, key_data = False\<rparr>"
definition INT_RANGE :: "string \<Rightarrow> int \<Rightarrow> int \<Rightarrow> parse_data" where
  "INT_RANGE f mn mx = \<lparr>pd_name = f, pd_fn = Fn_int mn mx, key_data = False\<rparr>"
definition FUNC :: "string \<Rightarrow> field_fn \<Rightarrow> parse_data" where "FUNC f fn = \<lparr>pd_name = f, pd_fn = fn, key_data = False\<rparr>"
definition FUNC_KEY :: "string \<Rightarrow> field_fn \<Rightarrow> parse_data" where "FUNC_KEY f fn = \<lparr>pd_name = f, pd_fn = fn, key_data = True\<rparr>"

lemmas field_defs = STR_FIELD_def STR_KEY_def STR_LEN_def STR_RANGE_def INT_FIELD_def INT_RANGE_def FUNC_def FUNC_KEY_def

definition opt_fields :: "build_opt set \<Rightarrow> build_opt \<Rightarrow> parse_data list \<Rightarrow> parse_data list" where
  "opt_fields b opt fs = (if opt \<in> b then fs else [])"

definition ssid_fields :: "build_opt set \<Rightarrow> parse_data list" where
  "ssid_fields b =
     [STR_RANGE ''ssid'' 0 32, INT_RANGE ''scan_ssid'' 0 1, FUNC ''bssid'' Fn_bssid, FUNC ''bssid_blacklist'' Fn_bssid_blacklist,
        FUNC ''bssid_whitelist'' Fn_bssid_whitelist, FUNC_KEY ''psk'' Fn_psk, INT_FIELD ''mem_only_psk'', FUNC ''proto'' Fn_proto,
        FUNC ''key_mgmt'' Fn_key_mgmt, INT_FIELD ''bg_scan_period'', FUNC ''pairwise'' Fn_pairwise, FUNC ''group'' Fn_group,
        FUNC ''auth_alg'' Fn_auth_alg, FUNC ''scan_freq'' Fn_scan_freq, FUNC ''freq_list'' Fn_freq_list,
        INT_RANGE ''max_oper_chwidth'' 0 3] @
     opt_fields b IEEE8021X_EAPOL
       [FUNC ''eap'' Fn_eap, STR_LEN ''identity'', STR_LEN ''anonymous_identity'', FUNC_KEY ''password'' Fn_password,
        STR_FIELD ''ca_cert'', STR_FIELD ''ca_path'', STR_FIELD ''client_cert'', STR_FIELD ''private_key'', STR_KEY ''private_key_passwd'', STR_FIELD ''dh_file'',
        STR_FIELD ''subject_match'', STR_FIELD ''altsubject_match'', STR_FIELD ''domain_suffix_match'', STR_FIELD ''domain_match'', STR_FIELD ''ca_cert2'',
        STR_FIELD ''ca_path2'', STR_FIELD ''client_cert2'', STR_FIELD ''private_key2'', STR_KEY ''private_key2_passwd'', STR_FIELD ''dh_file2'',
        STR_FIELD ''subject_match2'', STR_FIELD ''altsubject_match2'', STR_FIELD ''domain_suffix_match2'', STR_FIELD ''domain_match2'', STR_FIELD ''phase1'',
        STR_FIELD ''phase2'', STR_FIELD ''pcsc'', STR_KEY ''pin'', STR_FIELD ''engine_id'', STR_FIELD ''key_id'', STR_FIELD ''cert_id'', STR_FIELD ''ca_cert_id'',
        STR_KEY ''pin2'', STR_FIELD ''engine2_id'', STR_FIELD ''key2_id'', STR_FIELD ''cert2_id'', STR_FIELD ''ca_cert2_id'', INT_FIELD ''engine'',
        INT_FIELD ''engine2'', INT_FIELD ''eapol_flags'', INT_FIELD ''sim_num'', STR_FIELD ''openssl_ciphers'', INT_FIELD ''erp''] @
     [FUNC_KEY ''wep_key0'' (Fn_wep_key 0), FUNC_KEY ''wep_key1'' (Fn_wep_key 1), FUNC_KEY ''wep_key2'' (Fn_wep_key 2),
        FUNC_KEY ''wep_key3'' (Fn_wep_key 3), INT_FIELD ''wep_tx_keyidx'', INT_FIELD ''priority''] @
     opt_fields b IEEE8021X_EAPOL
       [INT_FIELD ''eap_workaround'', STR_FIELD ''pac_file'', INT_FIELD ''fragment_size'', INT_FIELD ''ocsp''] @
     (if OPT_MESH \<in> b then [INT_RANGE ''mode'' 0 5, INT_RANGE ''no_auto_peer'' 0 1] else [INT_RANGE ''mode'' 0 4]) @
     [INT_RANGE ''proactive_key_caching'' 0 1, INT_RANGE ''disabled'' 0 2, STR_FIELD ''id_str''] @
     opt_fields b OPT_IEEE80211W
       [INT_RANGE ''ieee80211w'' 0 2] @
     [INT_RANGE ''peerkey'' 0 1, INT_RANGE ''mixed_cell'' 0 1, INT_RANGE ''frequency'' 0 65000, INT_RANGE ''fixed_freq'' 0 1] @
     opt_fields b OPT_ACS
       [INT_RANGE ''acs'' 0 1] @
     opt_fields b OPT_MESH
       [FUNC ''mesh_basic_rates'' Fn_mesh_basic_rates, INT_FIELD ''dot11MeshMaxRetries'', INT_FIELD ''dot11MeshRetryTimeout'',
        INT_FIELD ''dot11MeshConfirmTimeout'', INT_FIELD ''dot11MeshHoldingTimeout''] @
     [INT_FIELD ''wpa_ptk_rekey'', INT_FIELD ''group_rekey'', STR_FIELD ''bgscan'', INT_RANGE ''ignore_broadcast_ssid'' 0 2] @
     opt_fields b OPT_P2P
       [FUNC ''go_p2p_dev_addr'' Fn_go_p2p_dev_addr, FUNC ''p2p_client_list'' Fn_p2p_client_list, FUNC ''psk_list'' Fn_psk_list] @
     opt_fields b OPT_HT_OVERRIDES
       [INT_RANGE ''disable_ht'' 0 1, INT_RANGE ''disable_ht40'' (-1) 1, INT_RANGE ''disable_sgi'' 0 1,
        INT_RANGE ''disable_ldpc'' 0 1, INT_RANGE ''ht40_intolerant'' 0 1, INT_RANGE ''disable_max_amsdu'' (-1) 1,
        INT_RANGE ''ampdu_factor'' (-1) 3, INT_RANGE ''ampdu_density'' (-1) 7, STR_FIELD ''ht_mcs''] @
     opt_fields b OPT_VHT_OVERRIDES
       [INT_RANGE ''disable_vht'' 0 1, INT_FIELD ''vht_capa'', INT_FIELD ''vht_capa_mask'', INT_RANGE ''vht_rx_mcs_nss_1'' (-1) 3,
        INT_RANGE ''vht_rx_mcs_nss_2'' (-1) 3, INT_RANGE ''vht_rx_mcs_nss_3'' (-1) 3, INT_RANGE ''vht_rx_mcs_nss_4'' (-1) 3,
        INT_RANGE ''vht_rx_mcs_nss_5'' (-1) 3, INT_RANGE ''vht_rx_mcs_nss_6'' (-1) 3, INT_RANGE ''vht_rx_mcs_nss_7'' (-1) 3,
        INT_RANGE ''vht_rx_mcs_nss_8'' (-1) 3, INT_RANGE ''vht_tx_mcs_nss_1'' (-1) 3, INT_RANGE ''vht_tx_mcs_nss_2'' (-1) 3,
        INT_RANGE ''vht_tx_mcs_nss_3'' (-1) 3, INT_RANGE ''vht_tx_mcs_nss_4'' (-1) 3, INT_RANGE ''vht_tx_mcs_nss_5'' (-1) 3,
        INT_RANGE ''vht_tx_mcs_nss_6'' (-1) 3, INT_RANGE ''vht_tx_mcs_nss_7'' (-1) 3, INT_RANGE ''vht_tx_mcs_nss_8'' (-1) 3] @
     [INT_FIELD ''ap_max_inactivity'', INT_FIELD ''dtim_period'', INT_FIELD ''beacon_int''] @
     opt_fields b OPT_MACSEC
       [INT_RANGE ''macsec_policy'' 0 1] @
     opt_fields b OPT_HS20
       [INT_FIELD ''update_identifier''] @
     [INT_RANGE ''mac_addr'' 0 2, INT_RANGE ''pbss'' 0 2, INT_RANGE ''wps_disabled'' 0 1]"

fun parser :: "build_opt set \<Rightarrow> eap_methods \<Rightarrow> string \<Rightarrow> field_fn \<Rightarrow> string \<Rightarrow> wpa_ssid \<Rightarrow> int \<times> wpa_ssid" where
  "parser b methods f (Fn_str lenf mn mx) value ssid = wpa_config_parse_str f lenf mn mx value ssid"
| "parser b methods f (Fn_int mn mx) value ssid = wpa_config_parse_int f mn mx value ssid"
| "parser b methods f Fn_bssid value ssid = wpa_config_parse_bssid value ssid"
| "parser b methods f Fn_bssid_blacklist value ssid = wpa_config_parse_bssid_blacklist value ssid"
| "parser b methods f Fn_bssid_whitelist value ssid = wpa_config_parse_bssid_whitelist value ssid"
| "parser b methods f Fn_psk value ssid = wpa_config_parse_psk b value ssid"
| "parser b methods f Fn_proto value ssid = wpa_config_parse_proto value ssid"
| "parser b methods f Fn_key_mgmt value ssid = wpa_config_parse_key_mgmt b value ssid"
| "parser b methods f Fn_pairwise value ssid = wpa_config_parse_pairwise value ssid"
| "parser b methods f Fn_group value ssid = wpa_config_parse_group value ssid"
| "parser b methods f Fn_auth_alg value ssid = wpa_config_parse_auth_alg value ssid"
| "parser b methods f Fn_scan_freq value ssid = wpa_config_parse_scan_freq value ssid"
| "parser b methods f Fn_freq_list value ssid = wpa_config_parse_freq_list value ssid"
| "parser b methods f Fn_eap value ssid = wpa_config_parse_eap methods value ssid"
| "parser b methods f Fn_password value ssid = wpa_config_parse_password b value ssid"
| "parser b methods f (Fn_wep_key i) value ssid = wpa_config_parse_wep_key i value ssid"
| "parser b methods f Fn_mesh_basic_rates value ssid = wpa_config_parse_mesh_basic_rates value ssid"
| "parser b methods f Fn_go_p2p_dev_addr value ssid = wpa_config_parse_go_p2p_dev_addr value ssid"
| "parser b methods f Fn_p2p_client_list value ssid = wpa_config_parse_p2p_client_list value ssid"
| "parser b methods f Fn_psk_list value ssid = wpa_config_parse_psk_list value ssid"

fun writer :: "build_opt set \<Rightarrow> eap_methods \<Rightarrow> string \<Rightarrow> field_fn \<Rightarrow> wpa_ssid \<Rightarrow> string option outcome" where
  "writer b methods f (Fn_str lenf mn mx) ssid = Val (wpa_config_write_str f lenf ssid)"
| "writer b methods f (Fn_int mn mx) ssid = Val (wpa_config_write_int f ssid)"
| "writer b methods f Fn_bssid ssid = Val (wpa_config_write_bssid ssid)"
| "writer b methods f Fn_bssid_blacklist ssid = Val (wpa_config_write_addr_list (ws_bssid_blacklist ssid))"
| "writer b methods f Fn_bssid_whitelist ssid = Val (wpa_config_write_addr_list (ws_bssid_whitelist ssid))"
| "writer b methods f Fn_psk ssid = Val (wpa_config_write_psk b ssid)"
| "writer b methods f Fn_proto ssid = Val (wpa_config_write_proto ssid)"
| "writer b methods f Fn_key_mgmt ssid = Val (wpa_config_write_key_mgmt b ssid)"
| "writer b methods f Fn_pairwise ssid = Val (wpa_config_write_cipher (ws_pairwise_cipher ssid))"
| "writer b methods f Fn_group ssid = Val (wpa_config_write_cipher (ws_group_cipher ssid))"
| "writer b methods f Fn_auth_alg ssid = Val (wpa_config_write_auth_alg ssid)"
| "writer b methods f Fn_scan_freq ssid = Val (wpa_config_write_freqs (ws_scan_freq ssid))"
| "writer b methods f Fn_freq_list ssid = Val (wpa_config_write_freqs (ws_freq_list ssid))"
| "writer b methods f Fn_eap ssid = Val (wpa_config_write_eap methods ssid)"
| "writer b methods f Fn_password ssid = Val (wpa_config_write_password b ssid)"
| "writer b methods f (Fn_wep_key i) ssid = wpa_config_write_wep_key i ssid"
| "writer b methods f Fn_mesh_basic_rates ssid = Val (wpa_config_write_freqs (ws_mesh_basic_rates ssid))"
| "writer b methods f Fn_go_p2p_dev_addr ssid = Val (wpa_config_write_go_p2p_dev_addr ssid)"
| "writer b methods f Fn_p2p_client_list ssid = Val (wpa_config_write_addr_list (ws_p2p_client_list ssid))"
| "writer b methods f Fn_psk_list ssid = Val None"

definition find_field :: "build_opt set \<Rightarrow> string \<Rightarrow> parse_data option" where
  "find_field b var = find (\<lambda>d. pd_name d = var) (ssid_fields b)"

definition wpa_config_set :: "build_opt set \<Rightarrow> eap_methods \<Rightarrow> wpa_ssid \<Rightarrow> string \<Rightarrow> string \<Rightarrow> int \<times> wpa_ssid" where
  "wpa_config_set b methods ssid var value =
     (case find_field b var of
        None \<Rightarrow> (-1, ssid)
      | Some d \<Rightarrow> (case parser b methods (pd_name d) (pd_fn d) value ssid of (ret, ssid) \<Rightarrow> (if ret < 0 then -1 else ret, ssid)))"

definition wpa_config_set_quoted :: "build_opt set \<Rightarrow> eap_methods \<Rightarrow> wpa_ssid \<Rightarrow> string \<Rightarrow> string \<Rightarrow> int \<times> wpa_ssid" where
  "wpa_config_set_quoted b methods ssid var value = wpa_config_set b methods ssid var (DQ # value @ [DQ])"

fun get_all_loop :: "build_opt set \<Rightarrow> eap_methods \<Rightarrow> wpa_ssid \<Rightarrow> bool \<Rightarrow> parse_data list \<Rightarrow> (string \<times> string) list outcome" where
  "get_all_loop b methods ssid get_keys [] = Val []"
| "get_all_loop b methods ssid get_keys (d # ds) =
     (if key_data d \<and> \<not> get_keys then get_all_loop b methods ssid get_keys ds
      else obind (writer b methods (pd_name d) (pd_fn d) ssid)
        (\<lambda>value. obind (get_all_loop b methods ssid get_keys ds)
          (\<lambda>props. Val (case value of None \<Rightarrow> props | Some [] \<Rightarrow> props | Some v \<Rightarrow> (pd_name d, v) # props))))"

definition wpa_config_get_all :: "build_opt set \<Rightarrow> eap_methods \<Rightarrow> wpa_ssid \<Rightarrow> bool \<Rightarrow> (string \<times> string) list outcome" where
  "wpa_config_get_all b methods ssid get_keys = get_all_loop b methods ssid (get_keys \<and> ws_export_keys ssid) (ssid_fields b)"

definition wpa_config_get :: "build_opt set \<Rightarrow> eap_methods \<Rightarrow> wpa_ssid \<Rightarrow> string \<Rightarrow> string option outcome" where
  "wpa_config_get b methods ssid var =
     (case find_field b var of
        None \<Rightarrow> Val None
      | Some d \<Rightarrow>
          obind (writer b methods (pd_name d) (pd_fn d) ssid)
            (\<lambda>ret. Val (case ret of None \<Rightarrow> None | Some v \<Rightarrow> if has_newline v then None else Some v)))"

definition wpa_config_get_no_key :: "build_opt set \<Rightarrow> eap_methods \<Rightarrow> wpa_ssid \<Rightarrow> string \<Rightarrow> string option outcome" where
  "wpa_config_get_no_key b methods ssid var =
     (case find_field b var of
        None \<Rightarrow> Val None
      | Some d \<Rightarrow>
          obind (writer b methods (pd_name d) (pd_fn d) ssid)
            (\<lambda>res. Val (if key_data d then (case res of None \<Rightarrow> None | Some [] \<Rightarrow> None | Some _ \<Rightarrow> Some ''*'') else res)))"

section \<open>Networks\<close>

text \<open>A network as \<^verbatim>\<open>os_zalloc\<close> returns it.\<close>

definition zero_ssid :: "int \<Rightarrow> wpa_ssid" where
  "zero_ssid i = \<lparr>ws_id = i, ws_str = (\<lambda>_. None), ws_int = (\<lambda>_. 0), ws_bssid = replicate ETH_ALEN NUL, ws_bssid_set = False,
     ws_bssid_blacklist = [], ws_bssid_whitelist = [], ws_p2p_client_list = [], ws_ext_psk = None, ws_passphrase = None,
     ws_psk = replicate PMK_LEN NUL, ws_psk_set = False, ws_proto = 0, ws_key_mgmt = 0, ws_pairwise_cipher = 0, ws_group_cipher = 0,
     ws_auth_alg = 0, ws_scan_freq = [], ws_freq_list = [], ws_mesh_basic_rates = [], ws_eap_methods = None, ws_leap = 0, ws_non_leap = 0,
     ws_password = None, ws_eap_flags = 0, ws_wep_key = (\<lambda>_. replicate MAX_WEP_KEY_LEN NUL), ws_wep_key_len = (\<lambda>_. 0),
     ws_go_p2p_dev_addr = replicate ETH_ALEN NUL, ws_psk_list = [], ws_disabled_until = 0, ws_auth_failures = 0, ws_export_keys = False,
     ws_temporary = False, ws_parent_cred = None\<rparr>"

definition set_ints :: "(string \<times> int) list \<Rightarrow> (string \<Rightarrow> int) \<Rightarrow> string \<Rightarrow> int" where
  "set_ints vs f = fold (\<lambda>(k, v) f. f(k := v)) vs f"

definition opt_ints :: "build_opt set \<Rightarrow> build_opt \<Rightarrow> (string \<times> int) list \<Rightarrow> (string \<times> int) list" where
  "opt_ints b opt vs = (if opt \<in> b then vs else [])"

definition wpa_config_set_network_defaults :: "build_opt set \<Rightarrow> wpa_ssid \<Rightarrow> wpa_ssid" where
  "wpa_config_set_network_defaults b ssid =
     ssid\<lparr>ws_proto := mask_of [0, 1], ws_pairwise_cipher := mask_of [4, 3], ws_group_cipher := mask_of [4, 3], ws_key_mgmt := mask_of [1, 0],
       ws_int := set_ints
         ([(''bg_scan_period'', -1)] @
          opt_ints b IEEE8021X_EAPOL [(''eapol_flags'', 3), (''eap_workaround'', -1), (''fragment_size'', 1398), (''sim_num'', 1)] @
          opt_ints b OPT_MESH [(''dot11MeshMaxRetries'', 2), (''dot11MeshRetryTimeout'', 40), (''dot11MeshConfirmTimeout'', 40),
            (''dot11MeshHoldingTimeout'', 40)] @
          opt_ints b OPT_HT_OVERRIDES [(''disable_ht'', 0), (''disable_ht40'', 0), (''disable_sgi'', 0), (''disable_ldpc'', 0),
            (''disable_max_amsdu'', -1), (''ampdu_factor'', -1), (''ampdu_density'', -1)] @
          opt_ints b OPT_VHT_OVERRIDES [(''vht_rx_mcs_nss_1'', -1), (''vht_rx_mcs_nss_2'', -1), (''vht_rx_mcs_nss_3'', -1),
            (''vht_rx_mcs_nss_4'', -1), (''vht_rx_mcs_nss_5'', -1), (''vht_rx_mcs_nss_6'', -1), (''vht_rx_mcs_nss_7'', -1),
            (''vht_rx_mcs_nss_8'', -1), (''vht_tx_mcs_nss_1'', -1), (''vht_tx_mcs_nss_2'', -1), (''vht_tx_mcs_nss_3'', -1),
            (''vht_tx_mcs_nss_4'', -1), (''vht_tx_mcs_nss_5'', -1), (''vht_tx_mcs_nss_6'', -1), (''vht_tx_mcs_nss_7'', -1),
            (''vht_tx_mcs_nss_8'', -1)] @
          [(''proactive_key_caching'', -1)] @
          opt_ints b OPT_IEEE80211W [(''ieee80211w'', 3)] @
          [(''mac_addr'', -1)]) (ws_int ssid)\<rparr>"

text \<open>The configuration: the networks, and for every priority the ids of its networks.\<close>

record wpa_config =
  wc_ssid :: "wpa_ssid list"
  wc_pssid :: "(int \<times> int list) list"

definition ssid_prio :: "wpa_ssid \<Rightarrow> int" where
  "ssid_prio s = ws_int s ''priority''"

fun add_to_level :: "int \<Rightarrow> int \<Rightarrow> (int \<times> int list) list \<Rightarrow> (int \<times> int list) list option" where
  "add_to_level i prio [] = None"
| "add_to_level i prio ((p, l) # ps) =
     (if p = prio then Some ((p, l @ [i]) # ps) else map_option (\<lambda>r. (p, l) # r) (add_to_level i prio ps))"

fun insert_level :: "int \<Rightarrow> int \<Rightarrow> (int \<times> int list) list \<Rightarrow> (int \<times> int list) list" where
  "insert_level i prio [] = [(prio, [i])]"
| "insert_level i prio ((p, l) # ps) = (if p < prio then (prio, [i]) # (p, l) # ps else (p, l) # insert_level i prio ps)"

definition wpa_config_add_prio_network :: "wpa_ssid \<Rightarrow> (int \<times> int list) list \<Rightarrow> (int \<times> int list) list" where
  "wpa_config_add_prio_network ssid ps =
     (case add_to_level (ws_id ssid) (ssid_prio ssid) ps of Some ps' \<Rightarrow> ps' | None \<Rightarrow> insert_level (ws_id ssid) (ssid_prio ssid) ps)"

definition wpa_config_update_prio_list :: "wpa_config \<Rightarrow> wpa_config" where
  "wpa_config_update_prio_list c = c\<lparr>wc_pssid := fold wpa_config_add_prio_network (wc_ssid c) []\<rparr>"

definition wpa_config_get_network :: "wpa_config \<Rightarrow> int \<Rightarrow> wpa_ssid option" where
  "wpa_config_get_network c i = find (\<lambda>s. ws_id s = i) (wc_ssid c)"

definition max_id :: "wpa_ssid list \<Rightarrow> int" where
  "max_id ss = fold (\<lambda>s i. if i < ws_id s then ws_id s else i) ss (-1)"

definition wpa_config_add_network :: "wpa_config \<Rightarrow> wpa_ssid \<times> wpa_config" where
  "wpa_config_add_network c =
     (let s = zero_ssid (int32 (max_id (wc_ssid c) + 1)) in (s, wpa_config_update_prio_list (c\<lparr>wc_ssid := wc_ssid c @ [s]\<rparr>)))"

fun remove_id :: "int \<Rightarrow> wpa_ssid list \<Rightarrow> wpa_ssid list option" where
  "remove_id i [] = None"
| "remove_id i (s # ss) = (if i = ws_id s then Some ss else map_option ((#) s) (remove_id i ss))"

definition wpa_config_remove_network :: "wpa_config \<Rightarrow> int \<Rightarrow> int \<times> wpa_config" where
  "wpa_config_remove_network c i =
     (case remove_id i (wc_ssid c) of
        None \<Rightarrow> (-1, c)
      | Some ss \<Rightarrow> (0, wpa_config_update_prio_list (c\<lparr>wc_ssid := ss\<rparr>)))"

text \<open>The key from the passphrase, with the key derivation as the argument \<open>pbkdf2_sha1\<close>.\<close>

definition wpa_config_update_psk :: "build_opt set \<Rightarrow> (string \<Rightarrow> char list \<Rightarrow> nat \<Rightarrow> nat \<Rightarrow> char list) \<Rightarrow> wpa_ssid \<Rightarrow> wpa_ssid outcome" where
  "wpa_config_update_psk b pbkdf2_sha1 ssid =
     (if OPT_NO_PBKDF2 \<in> b then Val ssid
      else case ws_passphrase ssid of
          None \<Rightarrow> Undef Null_deref
        | Some p \<Rightarrow>
            let t = (case ws_str ssid ''ssid'' of None \<Rightarrow> [] | Some t \<Rightarrow> t)
            in Val (ssid\<lparr>ws_psk := pbkdf2_sha1 p t 4096 PMK_LEN, ws_psk_set := True\<rparr>))"

end
