(* ===== verification/Net_Laws.thy ===== *)
theory Net_Laws
  imports Net_Config "HOL-Library.Sublist"
begin

text \<open>
  What the operations on a network keep and change: which part of a network every parser changes, which part every
  writer reads, and that both fit together for the whole table of fields.
\<close>

section \<open>The parts of a network\<close>

text \<open>The part of the network that belongs to a field.\<close>

datatype slot = S_str string | S_int string | S_own string

fun slot_of :: "string \<Rightarrow> field_fn \<Rightarrow> slot" where
  "slot_of f (Fn_str lenf mn mx) = S_str f"
| "slot_of f (Fn_int mn mx) = S_int f"
| "slot_of f Fn_bssid = S_own ''bssid''"
| "slot_of f Fn_bssid_blacklist = S_own ''bssid_blacklist''"
| "slot_of f Fn_bssid_whitelist = S_own ''bssid_whitelist''"
| "slot_of f Fn_psk = S_own ''psk''"
| "slot_of f Fn_proto = S_own ''proto''"
| "slot_of f Fn_key_mgmt = S_own ''key_mgmt''"
| "slot_of f Fn_pairwise = S_own ''pairwise''"
| "slot_of f Fn_group = S_own ''group''"
| "slot_of f Fn_auth_alg = S_own ''auth_alg''"
| "slot_of f Fn_scan_freq = S_own ''scan_freq''"
| "slot_of f Fn_freq_list = S_own ''freq_list''"
| "slot_of f Fn_eap = S_own ''eap''"
| "slot_of f Fn_password = S_own ''password''"
| "slot_of f (Fn_wep_key i) = S_own (''wep_key'' @ show_nat i)"
| "slot_of f Fn_mesh_basic_rates = S_own ''mesh_basic_rates''"
| "slot_of f Fn_go_p2p_dev_addr = S_own ''go_p2p_dev_addr''"
| "slot_of f Fn_p2p_client_list = S_own ''p2p_client_list''"
| "slot_of f Fn_psk_list = S_own ''psk_list''"

text \<open>A field whose name is that of its part.\<close>

definition field_named :: "parse_data \<Rightarrow> bool" where
  "field_named d \<longleftrightarrow> (case slot_of (pd_name d) (pd_fn d) of S_str f \<Rightarrow> f = pd_name d | S_int f \<Rightarrow> f = pd_name d | S_own f \<Rightarrow> f = pd_name d)"

lemma list_all_opt: "list_all P (opt_fields b p fs) \<longleftrightarrow> (p \<in> b \<longrightarrow> list_all P fs)"
  by (simp add: opt_fields_def)

lemma ssid_fields_named: "list_all field_named (ssid_fields b)"
proof -
  have "show_nat 0 = ''0''" "show_nat 1 = ''1''" "show_nat 2 = ''2''" "show_nat 3 = ''3''" by code_simp+
  then show ?thesis by (simp add: ssid_fields_def list_all_opt field_defs field_named_def)
qed

lemma slots_differ:
  assumes "field_named d" "field_named e" "pd_name d \<noteq> pd_name e"
  shows "slot_of (pd_name d) (pd_fn d) \<noteq> slot_of (pd_name e) (pd_fn e)"
  using assms by (auto simp: field_named_def split: slot.splits)

section \<open>What the parsers change and the writers read\<close>

text \<open>The network \<open>m'\<close> with the part of a field as it is in \<open>m\<close>.\<close>

fun restore :: "string \<Rightarrow> field_fn \<Rightarrow> wpa_ssid \<Rightarrow> wpa_ssid \<Rightarrow> wpa_ssid" where
  "restore f (Fn_str lenf mn mx) m m' = m'\<lparr>ws_str := (ws_str m')(f := ws_str m f)\<rparr>"
| "restore f (Fn_int mn mx) m m' = m'\<lparr>ws_int := (ws_int m')(f := ws_int m f)\<rparr>"
| "restore f Fn_bssid m m' = m'\<lparr>ws_bssid := ws_bssid m, ws_bssid_set := ws_bssid_set m\<rparr>"
| "restore f Fn_bssid_blacklist m m' = m'\<lparr>ws_bssid_blacklist := ws_bssid_blacklist m\<rparr>"
| "restore f Fn_bssid_whitelist m m' = m'\<lparr>ws_bssid_whitelist := ws_bssid_whitelist m\<rparr>"
| "restore f Fn_psk m m' = m'\<lparr>ws_ext_psk := ws_ext_psk m, ws_passphrase := ws_passphrase m, ws_psk := ws_psk m, ws_psk_set := ws_psk_set m\<rparr>"
| "restore f Fn_proto m m' = m'\<lparr>ws_proto := ws_proto m\<rparr>"
| "restore f Fn_key_mgmt m m' = m'\<lparr>ws_key_mgmt := ws_key_mgmt m\<rparr>"
| "restore f Fn_pairwise m m' = m'\<lparr>ws_pairwise_cipher := ws_pairwise_cipher m\<rparr>"
| "restore f Fn_group m m' = m'\<lparr>ws_group_cipher := ws_group_cipher m\<rparr>"
| "restore f Fn_auth_alg m m' = m'\<lparr>ws_auth_alg := ws_auth_alg m\<rparr>"
| "restore f Fn_scan_freq m m' = m'\<lparr>ws_scan_freq := ws_scan_freq m\<rparr>"
| "restore f Fn_freq_list m m' = m'\<lparr>ws_freq_list := ws_freq_list m\<rparr>"
| "restore f Fn_eap m m' = m'\<lparr>ws_eap_methods := ws_eap_methods m, ws_leap := ws_leap m, ws_non_leap := ws_non_leap m\<rparr>"
| "restore f Fn_password m m' = m'\<lparr>ws_password := ws_password m, ws_eap_flags := ws_eap_flags m\<rparr>"
| "restore f (Fn_wep_key i) m m' = m'\<lparr>ws_wep_key := (ws_wep_key m')(i := ws_wep_key m i), ws_wep_key_len := (ws_wep_key_len m')(i := ws_wep_key_len m i)\<rparr>"
| "restore f Fn_mesh_basic_rates m m' = m'\<lparr>ws_mesh_basic_rates := ws_mesh_basic_rates m\<rparr>"
| "restore f Fn_go_p2p_dev_addr m m' = m'\<lparr>ws_go_p2p_dev_addr := ws_go_p2p_dev_addr m, ws_bssid_set := ws_bssid_set m\<rparr>"
| "restore f Fn_p2p_client_list m m' = m'\<lparr>ws_p2p_client_list := ws_p2p_client_list m\<rparr>"
| "restore f Fn_psk_list m m' = m'\<lparr>ws_psk_list := ws_psk_list m\<rparr>"

lemma fold_eap_keeps:
  "fold (eap_step methods) ws (ms, e, m) = (ms', e', m') \<Longrightarrow> \<exists>i j. m' = m\<lparr>ws_leap := i, ws_non_leap := j\<rparr>"
proof (induction ws arbitrary: ms e m)
  case Nil
  then have "m' = m\<lparr>ws_leap := ws_leap m, ws_non_leap := ws_non_leap m\<rparr>" by simp
  then show ?case by blast
next
  case (Cons w ws)
  obtain ms1 e1 m1 where s: "eap_step methods w (ms, e, m) = (ms1, e1, m1)" by (cases "eap_step methods w (ms, e, m)")
  then have m1: "m1 = m\<lparr>ws_leap := ws_leap m1, ws_non_leap := ws_non_leap m1\<rparr>" by (auto simp: eap_step_def Let_def split: if_splits)
  obtain i j where "m' = m1\<lparr>ws_leap := i, ws_non_leap := j\<rparr>" using Cons.IH [of ms1 e1 m1] Cons.prems s by auto
  then have "m' = m\<lparr>ws_leap := i, ws_non_leap := j\<rparr>" by (subst (asm) m1) simp
  then show ?case by blast
qed

lemma parse_eap_keeps: "restore f Fn_eap m (snd (wpa_config_parse_eap methods v m)) = m"
proof -
  obtain ms e m' where s: "fold (eap_step methods) (cfg_words v) ([], 0, m) = (ms, e, m')" by (cases "fold (eap_step methods) (cfg_words v) ([], 0, m)")
  then obtain i j where "m' = m\<lparr>ws_leap := i, ws_non_leap := j\<rparr>" using fold_eap_keeps by blast
  then show ?thesis using s by (simp add: wpa_config_parse_eap_def split: option.split)
qed

lemma part_same: "ws_str m f = x \<Longrightarrow> m\<lparr>ws_str := (ws_str m)(f := x)\<rparr> = m" "ws_int m f = i \<Longrightarrow> m\<lparr>ws_int := (ws_int m)(f := i)\<rparr> = m"
  by auto

lemma parse_str_keeps: "restore f (Fn_str lenf mn mx) m (snd (wpa_config_parse_str f lenf mn mx v m)) = m"
  by (auto simp: wpa_config_parse_str_def Let_def part_same split: option.splits)

lemma parse_int_keeps: "restore f (Fn_int mn mx) m (snd (wpa_config_parse_int f mn mx v m)) = m"
  by (auto simp: wpa_config_parse_int_def Let_def part_same split: prod.splits)

lemma parse_psk_keeps: "restore f Fn_psk m (snd (wpa_config_parse_psk b v m)) = m"
  by (simp add: wpa_config_parse_psk_def Let_def split: prod.splits)

lemma parse_password_keeps: "restore f Fn_password m (snd (wpa_config_parse_password b v m)) = m"
  by (simp add: wpa_config_parse_password_def Let_def split: prod.splits option.splits)

lemma store_flags_snd: "snd (store_flags r old put m) = (if snd r = 0 \<and> old = fst r then m else put (fst r))"
  by (simp add: store_flags_def split: prod.splits)

lemma parser_restore: "restore f fn m (snd (parser b methods f fn v m)) = m"
proof (cases fn)
  case Fn_eap
  then show ?thesis using parse_eap_keeps by simp
next
  case (Fn_str lenf mn mx)
  then show ?thesis using parse_str_keeps by simp
next
  case (Fn_int mn mx)
  then show ?thesis using parse_int_keeps by simp
next
  case Fn_psk
  then show ?thesis using parse_psk_keeps by simp
next
  case Fn_password
  then show ?thesis using parse_password_keeps by simp
qed (simp_all add: wpa_config_parse_bssid_def wpa_config_parse_bssid_blacklist_def wpa_config_parse_bssid_whitelist_def
  wpa_config_parse_proto_def wpa_config_parse_key_mgmt_def wpa_config_parse_auth_alg_def store_flags_snd wpa_config_parse_pairwise_def
  wpa_config_parse_group_def wpa_config_parse_scan_freq_def wpa_config_parse_freq_list_def wpa_config_parse_mesh_basic_rates_def
  wpa_config_parse_wep_key_def wpa_config_parse_go_p2p_dev_addr_def wpa_config_parse_p2p_client_list_def wpa_config_parse_psk_list_def
  Let_def split: prod.splits option.splits)

lemmas write_defs = wpa_config_write_str_def wpa_config_write_int_def wpa_config_write_bssid_def wpa_config_write_psk_def
  wpa_config_write_proto_def wpa_config_write_key_mgmt_def wpa_config_write_auth_alg_def wpa_config_write_eap_def
  wpa_config_write_password_def wpa_config_write_wep_key_def wpa_config_write_go_p2p_dev_addr_def

lemma show_nat_inj: "show_nat i = show_nat j \<longleftrightarrow> i = j"
  by (metis digits_val_show_nat of_nat_eq_iff)

text \<open>Two networks with the same part for a field.\<close>

fun same_part :: "string \<Rightarrow> field_fn \<Rightarrow> wpa_ssid \<Rightarrow> wpa_ssid \<Rightarrow> bool" where
  "same_part f (Fn_str lenf mn mx) m m' \<longleftrightarrow> ws_str m f = ws_str m' f"
| "same_part f (Fn_int mn mx) m m' \<longleftrightarrow> ws_int m f = ws_int m' f"
| "same_part f Fn_bssid m m' \<longleftrightarrow> ws_bssid m = ws_bssid m' \<and> ws_bssid_set m = ws_bssid_set m'"
| "same_part f Fn_bssid_blacklist m m' \<longleftrightarrow> ws_bssid_blacklist m = ws_bssid_blacklist m'"
| "same_part f Fn_bssid_whitelist m m' \<longleftrightarrow> ws_bssid_whitelist m = ws_bssid_whitelist m'"
| "same_part f Fn_psk m m' \<longleftrightarrow> ws_ext_psk m = ws_ext_psk m' \<and> ws_passphrase m = ws_passphrase m' \<and> ws_psk m = ws_psk m' \<and>
     ws_psk_set m = ws_psk_set m'"
| "same_part f Fn_proto m m' \<longleftrightarrow> ws_proto m = ws_proto m'"
| "same_part f Fn_key_mgmt m m' \<longleftrightarrow> ws_key_mgmt m = ws_key_mgmt m'"
| "same_part f Fn_pairwise m m' \<longleftrightarrow> ws_pairwise_cipher m = ws_pairwise_cipher m'"
| "same_part f Fn_group m m' \<longleftrightarrow> ws_group_cipher m = ws_group_cipher m'"
| "same_part f Fn_auth_alg m m' \<longleftrightarrow> ws_auth_alg m = ws_auth_alg m'"
| "same_part f Fn_scan_freq m m' \<longleftrightarrow> ws_scan_freq m = ws_scan_freq m'"
| "same_part f Fn_freq_list m m' \<longleftrightarrow> ws_freq_list m = ws_freq_list m'"
| "same_part f Fn_eap m m' \<longleftrightarrow> ws_eap_methods m = ws_eap_methods m'"
| "same_part f Fn_password m m' \<longleftrightarrow> ws_password m = ws_password m' \<and> ws_eap_flags m = ws_eap_flags m'"
| "same_part f (Fn_wep_key i) m m' \<longleftrightarrow> ws_wep_key m i = ws_wep_key m' i \<and> ws_wep_key_len m i = ws_wep_key_len m' i"
| "same_part f Fn_mesh_basic_rates m m' \<longleftrightarrow> ws_mesh_basic_rates m = ws_mesh_basic_rates m'"
| "same_part f Fn_go_p2p_dev_addr m m' \<longleftrightarrow> ws_go_p2p_dev_addr m = ws_go_p2p_dev_addr m'"
| "same_part f Fn_p2p_client_list m m' \<longleftrightarrow> ws_p2p_client_list m = ws_p2p_client_list m'"
| "same_part f Fn_psk_list m m' \<longleftrightarrow> ws_psk_list m = ws_psk_list m'"

lemma writer_reads: "same_part f fn m m' \<Longrightarrow> writer b methods f fn m = writer b methods f fn m'"
  by (cases fn) (simp_all add: write_defs cong: if_cong option.case_cong)

lemma restore_keeps:
  assumes "slot_of f fn \<noteq> slot_of g gn" "fn = Fn_bssid \<Longrightarrow> gn \<noteq> Fn_go_p2p_dev_addr"
  shows "same_part f fn (restore g gn m m') m'"
  using assms by (cases gn; cases fn) (simp_all add: show_nat_inj)

text \<open>Setting one field keeps the parts of the others, but for the address that goes with the one of a group owner.\<close>

lemma parser_frame:
  assumes "slot_of f fn \<noteq> slot_of g gn" "fn = Fn_bssid \<Longrightarrow> gn \<noteq> Fn_go_p2p_dev_addr" "m' = snd (parser b methods g gn v m)"
  shows "same_part f fn m m'"
  using restore_keeps [OF assms(1,2), of m m'] parser_restore [of g gn m b methods v] assms(3) by simp

lemma go_addr_frame:
  assumes "m' = snd (wpa_config_parse_go_p2p_dev_addr v m)"
  shows "ws_bssid m' = ws_bssid m" "ws_bssid_set m \<Longrightarrow> ws_bssid_set m'"
  using assms by (auto simp: wpa_config_parse_go_p2p_dev_addr_def split: prod.splits)

lemma writer_frame:
  assumes "slot_of f fn \<noteq> slot_of g gn" "m' = snd (parser b methods g gn v m)" "writer b methods f fn m = Val (Some t)"
  shows "writer b methods f fn m' = Val (Some t)"
proof (cases "fn = Fn_bssid \<and> gn = Fn_go_p2p_dev_addr")
  case True
  then have "ws_bssid_set m" "ws_bssid m' = ws_bssid m" "ws_bssid_set m \<Longrightarrow> ws_bssid_set m'"
    using assms(2,3) go_addr_frame [of m' v m] by (auto simp: wpa_config_write_bssid_def split: if_splits)
  with True assms(3) show ?thesis by (simp add: wpa_config_write_bssid_def)
next
  case False
  then show ?thesis using parser_frame [OF assms(1) _ assms(2)] writer_reads [of f fn m m' b methods] assms(3) by auto
qed

section \<open>The names of the fields\<close>

lemma subseq_opt: "subseq (map pd_name (opt_fields b p fs)) (map pd_name fs)"
  by (simp add: opt_fields_def)

lemma subseq_fields: "subseq (map pd_name (ssid_fields b)) (map pd_name (ssid_fields UNIV))"
proof -
  have u: "opt_fields UNIV p fs = fs" for p fs by (simp add: opt_fields_def)
  have m: "subseq (map pd_name (if OPT_MESH \<in> b then [INT_RANGE ''mode'' 0 5, INT_RANGE ''no_auto_peer'' 0 1] else [INT_RANGE ''mode'' 0 4]))
      [''mode'', ''no_auto_peer'']" by (simp add: INT_RANGE_def)
  have m': "map pd_name [INT_RANGE ''mode'' 0 5, INT_RANGE ''no_auto_peer'' 0 1] = [''mode'', ''no_auto_peer'']" by (simp add: INT_RANGE_def)
  show ?thesis unfolding ssid_fields_def u map_append if_P [OF UNIV_I] m'
    by (intro list_emb_append_mono subseq_opt subseq_order.order_refl m)
qed

lemma distinct_ssid_fields: "distinct (map pd_name (ssid_fields b))"
proof -
  have "distinct (map pd_name (ssid_fields UNIV))" by (simp add: ssid_fields_def opt_fields_def field_defs)
  then show ?thesis using subseq_fields [of b] by (metis subseq_conv_nths distinct_nthsI)
qed

lemma find_field_in: "d \<in> set (ssid_fields b) \<Longrightarrow> find_field b (pd_name d) = Some d"
proof -
  have "find (\<lambda>x. pd_name x = pd_name d) ds = Some d" if "d \<in> set ds" "distinct (map pd_name ds)" for ds
    using that by (induction ds) force+
  then show "d \<in> set (ssid_fields b) \<Longrightarrow> find_field b (pd_name d) = Some d" using distinct_ssid_fields by (simp add: find_field_def)
qed

end
