(* ===== verification/Net_Ctrl.thy ===== *)
theory Net_Ctrl
  imports Net_Laws
begin

text \<open>
  The commands of the control interface on networks, \<^verbatim>\<open>wpa_supplicant/ctrl_iface.c\<close>, with the operations of
  \<^verbatim>\<open>wpa_supplicant/wpa_supplicant.c\<close> they call: adding, removing, changing, copying, reading, listing, enabling and
  disabling networks. What the commands ask of the connection, scan and key state machines is a call of \<open>conn_call\<close>;
  the argument \<open>ops\<close> says what such a call makes of the part of the connection state that the commands read. No such call
  changes the configuration. A pointer to a network is its id. Key derivation is the argument \<open>pb\<close>.
\<close>

datatype conn_call = Call_network_added int | Call_network_removed int | Call_pmksa_flush int | Call_invalidate_session | Call_sm_no_config |
  Call_deauthenticate | Call_cancel_sched_scan | Call_req_scan nat nat | Call_enabled_changed int | Call_bssid_set_changed int |
  Call_type_changed int | Call_reenabled int | Call_clear_prev_bssid | Call_cred_added int | Call_cred_removed int | Call_cred_modified int string

record conn_state =
  cs_current :: "int option"
  cs_last :: "int option"
  cs_wpa_state :: nat
  cs_disconnected :: bool
  cs_reassociate :: bool
  cs_own_disconnect_req :: bool
  cs_sched_scanning :: bool
  cs_normal_scan_req :: bool
  cs_scan_min_time :: nat

record conn_ops =
  co_call :: "conn_call \<Rightarrow> conn_state \<Rightarrow> conn_state"
  co_fast_associate :: "conn_state \<Rightarrow> int \<times> conn_state"

definition WPA_DISCONNECTED :: nat where "WPA_DISCONNECTED = 0"
definition WPA_SCANNING :: nat where "WPA_SCANNING = 3"
definition WPA_AUTHENTICATING :: nat where "WPA_AUTHENTICATING = 4"

type_synonym supplicant = "wpa_config \<times> conn_state"
type_synonym kdf = "string \<Rightarrow> char list \<Rightarrow> nat \<Rightarrow> nat \<Rightarrow> char list"

text \<open>The network with the id of \<open>s\<close> is now \<open>s\<close>.\<close>

definition put_network :: "wpa_ssid \<Rightarrow> wpa_config \<Rightarrow> wpa_config" where
  "put_network s c = c\<lparr>wc_ssid := map (\<lambda>x. if ws_id x = ws_id s then s else x) (wc_ssid c)\<rparr>"

definition disabled :: "wpa_ssid \<Rightarrow> int" where
  "disabled s = ws_int s ''disabled''"

definition set_disabled :: "int \<Rightarrow> wpa_ssid \<Rightarrow> wpa_ssid" where
  "set_disabled v s = s\<lparr>ws_int := (ws_int s)(''disabled'' := v)\<rparr>"

section \<open>Adding and removing\<close>

definition wpa_supplicant_add_network :: "build_opt set \<Rightarrow> conn_ops \<Rightarrow> supplicant \<Rightarrow> wpa_ssid \<times> supplicant" where
  "wpa_supplicant_add_network b ops w =
     (case w of (c, cs) \<Rightarrow>
       case wpa_config_add_network c of (s, c) \<Rightarrow>
         let s = wpa_config_set_network_defaults b (set_disabled 1 s)
         in (s, put_network s c, co_call ops (Call_network_added (ws_id s)) cs))"

definition wpa_supplicant_ctrl_iface_add_network :: "build_opt set \<Rightarrow> conn_ops \<Rightarrow> nat \<Rightarrow> supplicant \<Rightarrow> string option \<times> supplicant" where
  "wpa_supplicant_ctrl_iface_add_network b ops buflen w =
     (case wpa_supplicant_add_network b ops w of (s, w) \<Rightarrow>
       let (t, ret) = os_snprintf buflen (show_int (ws_id s) @ [NL]) in (if os_snprintf_error buflen ret then None else Some t, w))"

text \<open>The disconnection when the network in use goes.\<close>

definition leave_current :: "conn_ops \<Rightarrow> conn_state \<Rightarrow> conn_state" where
  "leave_current ops cs =
     (let cs = co_call ops Call_sm_no_config cs;
          cs = (if WPA_AUTHENTICATING \<le> cs_wpa_state cs then cs\<lparr>cs_own_disconnect_req := True\<rparr> else cs)
      in co_call ops Call_deauthenticate cs)"

definition forget_last :: "int \<Rightarrow> conn_state \<Rightarrow> conn_state" where
  "forget_last i cs = (if cs_last cs = Some i then cs\<lparr>cs_last := None\<rparr> else cs)"

definition wpa_supplicant_remove_network :: "conn_ops \<Rightarrow> int \<Rightarrow> supplicant \<Rightarrow> int \<times> supplicant" where
  "wpa_supplicant_remove_network ops i w =
     (case w of (c, cs) \<Rightarrow>
       case wpa_config_get_network c i of
         None \<Rightarrow> (-1, w)
       | Some s \<Rightarrow>
           let cs = forget_last i (co_call ops (Call_network_removed i) cs);
               cs = (if cs_current cs = Some i \<or> cs_current cs = None
                     then co_call ops Call_invalidate_session (co_call ops Call_clear_prev_bssid cs) else cs);
               cs = (if cs_current cs = Some i then leave_current ops cs else cs);
               was_disabled = disabled s
           in case wpa_config_remove_network c i of (r, c) \<Rightarrow>
                if r < 0 then (-2, c, cs)
                else (0, c, if was_disabled = 0 \<and> cs_sched_scanning cs then co_call ops (Call_req_scan 0 0) (co_call ops Call_cancel_sched_scan cs) else cs))"

text \<open>Removing all networks: the ids are taken in the order of the list.\<close>

definition remove_one :: "conn_ops \<Rightarrow> int \<Rightarrow> supplicant \<Rightarrow> supplicant" where
  "remove_one ops i w = (case w of (c, cs) \<Rightarrow> (snd (wpa_config_remove_network c i), co_call ops (Call_network_removed i) (forget_last i cs)))"

definition wpa_supplicant_ctrl_iface_remove_network :: "conn_ops \<Rightarrow> string \<Rightarrow> supplicant \<Rightarrow> int \<times> supplicant" where
  "wpa_supplicant_ctrl_iface_remove_network ops cmd w =
     (if cmd = ''all'' then
        case w of (c, cs) \<Rightarrow>
          let cs = (if cs_sched_scanning cs then co_call ops Call_cancel_sched_scan cs else cs);
              cs = co_call ops Call_invalidate_session cs;
              cs = (if cs_current cs \<noteq> None then leave_current ops (co_call ops Call_clear_prev_bssid cs) else cs)
          in (0, fold (remove_one ops) (map ws_id (wc_ssid c)) (c, cs))
      else case wpa_supplicant_remove_network ops (atoi32 cmd) w of (r, w) \<Rightarrow> (if r = -1 \<or> r = -2 then -1 else 0, w))"

section \<open>Setting and reading\<close>

definition ssid_len :: "wpa_ssid \<Rightarrow> nat" where
  "ssid_len s = (case ws_str s ''ssid'' of None \<Rightarrow> 0 | Some t \<Rightarrow> length t)"

definition wpa_supplicant_ctrl_iface_update_network ::
  "build_opt set \<Rightarrow> eap_methods \<Rightarrow> kdf \<Rightarrow> conn_ops \<Rightarrow> wpa_ssid \<Rightarrow> string \<Rightarrow> string \<Rightarrow> supplicant \<Rightarrow> (int \<times> supplicant) outcome" where
  "wpa_supplicant_ctrl_iface_update_network b methods pb ops s name value w =
     (case (w, wpa_config_set b methods s name value) of ((c, cs), (ret, s)) \<Rightarrow>
       let c = put_network s c
       in if ret < 0 then Val (-1, c, cs)
          else if ret = 1 then Val (0, c, cs)
          else
            let cs = (if name \<noteq> ''bssid'' \<and> name \<noteq> ''priority''
                      then let cs = co_call ops (Call_pmksa_flush (ws_id s)) cs
                        in if cs_current cs = Some (ws_id s) \<or> cs_current cs = None then co_call ops Call_invalidate_session cs else cs
                      else cs)
            in if (name = ''psk'' \<and> at0 value = DQ \<and> ssid_len s \<noteq> 0) \<or> (name = ''ssid'' \<and> ws_passphrase s \<noteq> None)
               then omap (\<lambda>s. (0, put_network s c, cs)) (wpa_config_update_psk b pb s)
               else if name = ''priority'' then Val (0, wpa_config_update_prio_list c, cs)
               else Val (0, c, cs))"

text \<open>The text up to the first blank and the text behind it.\<close>

definition cut_blank :: "string \<Rightarrow> (string \<times> string) option" where
  "cut_blank t = map_option (\<lambda>r. (take (length t - length r) t, tl r)) (os_strchr t (CHR '' ''))"

definition wpa_supplicant_ctrl_iface_set_network ::
  "build_opt set \<Rightarrow> eap_methods \<Rightarrow> kdf \<Rightarrow> conn_ops \<Rightarrow> string \<Rightarrow> supplicant \<Rightarrow> (int \<times> supplicant) outcome" where
  "wpa_supplicant_ctrl_iface_set_network b methods pb ops cmd w =
     (case cut_blank cmd of
        None \<Rightarrow> Val (-1, w)
      | Some (i, r) \<Rightarrow>
          (case cut_blank r of
             None \<Rightarrow> Val (-1, w)
           | Some (name, value) \<Rightarrow>
               (case wpa_config_get_network (fst w) (atoi32 i) of
                  None \<Rightarrow> Val (-1, w)
                | Some s \<Rightarrow>
                    obind (wpa_supplicant_ctrl_iface_update_network b methods pb ops s name value w) (\<lambda>(ret, c, cs).
                      case wpa_config_get_network c (ws_id s) of
                        None \<Rightarrow> Val (ret, c, cs)
                      | Some s' \<Rightarrow>
                          let cs = (if ret = 0 \<and> (ws_bssid_set s' \<noteq> ws_bssid_set s \<or> ws_bssid s' \<noteq> ws_bssid s)
                                    then co_call ops (Call_bssid_set_changed (ws_id s)) cs else cs);
                              cs = (if disabled s \<noteq> disabled s' \<and> (disabled s = 2 \<or> disabled s' = 2)
                                    then co_call ops (Call_type_changed (ws_id s)) cs else cs)
                          in Val (ret, c, cs)))))"

definition wpa_supplicant_ctrl_iface_get_network :: "build_opt set \<Rightarrow> eap_methods \<Rightarrow> nat \<Rightarrow> string \<Rightarrow> wpa_config \<Rightarrow> string option outcome" where
  "wpa_supplicant_ctrl_iface_get_network b methods buflen cmd c =
     (case cut_blank cmd of
        None \<Rightarrow> Val None
      | Some (i, name) \<Rightarrow>
          if buflen = 0 then Val None
          else case wpa_config_get_network c (atoi32 i) of
              None \<Rightarrow> Val None
            | Some s \<Rightarrow>
                omap (\<lambda>value. case value of None \<Rightarrow> None | Some v \<Rightarrow> if buflen \<le> length v then None else Some v)
                  (wpa_config_get_no_key b methods s name))"

text \<open>Source and destination are networks of the same interface.\<close>

definition wpa_supplicant_ctrl_iface_dup_network ::
  "build_opt set \<Rightarrow> eap_methods \<Rightarrow> kdf \<Rightarrow> conn_ops \<Rightarrow> string \<Rightarrow> supplicant \<Rightarrow> (int \<times> supplicant) outcome" where
  "wpa_supplicant_ctrl_iface_dup_network b methods pb ops cmd w =
     (case cut_blank cmd of
        None \<Rightarrow> Val (-1, w)
      | Some (i, r) \<Rightarrow>
          (case cut_blank r of
             None \<Rightarrow> Val (-1, w)
           | Some (j, name) \<Rightarrow>
               (case (wpa_config_get_network (fst w) (atoi32 i), wpa_config_get_network (fst w) (atoi32 j)) of
                  (Some s, Some d) \<Rightarrow>
                    obind (wpa_config_get b methods s name) (\<lambda>value.
                      case value of
                        None \<Rightarrow> Val (-1, w)
                      | Some v \<Rightarrow> wpa_supplicant_ctrl_iface_update_network b methods pb ops d name v w)
                | _ \<Rightarrow> Val (-1, w))))"

section \<open>Listing\<close>

text \<open>Parts printed one after the other in the room that is left; \<open>None\<close> when one does not fit.\<close>

fun print_parts :: "nat \<Rightarrow> string list \<Rightarrow> string option" where
  "print_parts room [] = Some []"
| "print_parts room (p # ps) =
     (let (t, ret) = os_snprintf room p in if os_snprintf_error room ret then None else map_option ((@) t) (print_parts (room - length t) ps))"

definition network_flags :: "int option \<Rightarrow> wpa_ssid \<Rightarrow> string" where
  "network_flags current s =
     (if current = Some (ws_id s) then ''[CURRENT]'' else []) @ (if disabled s \<noteq> 0 then ''[DISABLED]'' else []) @
     (if ws_disabled_until s \<noteq> 0 then ''[TEMP-DISABLED]'' else []) @ (if disabled s = 2 then ''[P2P-PERSISTENT]'' else [])"

definition network_row :: "int option \<Rightarrow> wpa_ssid \<Rightarrow> string \<Rightarrow> string list" where
  "network_row current s ssid_txt =
     [show_int (ws_id s) @ [TAB] @ ssid_txt, if ws_bssid_set s then [TAB] @ MACSTR (ws_bssid s) else [TAB] @ ''any'',
      [TAB] @ network_flags current s, [NL]]"

fun list_loop :: "int option \<Rightarrow> nat \<Rightarrow> wpa_ssid list \<Rightarrow> string outcome" where
  "list_loop current room [] = Val []"
| "list_loop current room (s # ss) =
     obind (wpa_ssid_txt (ws_str s ''ssid''))
       (\<lambda>txt. case print_parts room (network_row current s txt) of
          None \<Rightarrow> Val []
        | Some t \<Rightarrow> omap ((@) t) (list_loop current (room - length t) ss))"

definition list_header :: string where
  "list_header = ''network id / ssid / bssid / flags''"

text \<open>The networks behind the last id that the command names.\<close>

definition listed_from :: "string option \<Rightarrow> wpa_ssid list \<Rightarrow> wpa_ssid list" where
  "listed_from cmd ss =
     (case cmd of
        None \<Rightarrow> ss
      | Some a \<Rightarrow>
          if str_starts a ''LAST_ID='' then
            let last_id = atoi32 (drop 8 a) in if last_id \<noteq> -1 then dropWhile (\<lambda>s. ws_id s \<le> last_id) ss else ss
          else ss)"

definition wpa_supplicant_ctrl_iface_list_networks :: "string option \<Rightarrow> nat \<Rightarrow> supplicant \<Rightarrow> string outcome" where
  "wpa_supplicant_ctrl_iface_list_networks cmd buflen w =
     (case w of (c, cs) \<Rightarrow>
       let (t, ret) = os_snprintf buflen (list_header @ [NL])
       in if os_snprintf_error buflen ret then Val []
          else omap ((@) t) (list_loop (cs_current cs) (buflen - length t) (listed_from cmd (wc_ssid c))))"

section \<open>Enabling and disabling\<close>

definition wpas_clear_temp_disabled :: "conn_ops \<Rightarrow> bool \<Rightarrow> wpa_ssid \<Rightarrow> conn_state \<Rightarrow> wpa_ssid \<times> conn_state" where
  "wpas_clear_temp_disabled ops clear_failures s cs =
     (s\<lparr>ws_disabled_until := 0, ws_auth_failures := (if clear_failures then 0 else ws_auth_failures s)\<rparr>,
      if ws_disabled_until s \<noteq> 0 then co_call ops (Call_reenabled (ws_id s)) cs else cs)"

definition wpa_supplicant_enable_one_network :: "conn_ops \<Rightarrow> int \<Rightarrow> supplicant \<Rightarrow> supplicant" where
  "wpa_supplicant_enable_one_network ops i w =
     (case w of (c, cs) \<Rightarrow>
       case wpa_config_get_network c i of
         None \<Rightarrow> w
       | Some s \<Rightarrow>
           if disabled s = 0 \<or> disabled s = 2 then w
           else case wpas_clear_temp_disabled ops True (set_disabled 0 s) cs of
               (s, cs) \<Rightarrow>
                 let cs = co_call ops (Call_enabled_changed i) cs
                 in (put_network s c, if cs_current cs = None \<and> \<not> cs_disconnected cs then cs\<lparr>cs_reassociate := True\<rparr> else cs))"

definition wpa_supplicant_enable_network :: "conn_ops \<Rightarrow> int option \<Rightarrow> supplicant \<Rightarrow> supplicant" where
  "wpa_supplicant_enable_network ops i w =
     (case (case i of None \<Rightarrow> fold (wpa_supplicant_enable_one_network ops) (map ws_id (wc_ssid (fst w))) w
                    | Some i \<Rightarrow> wpa_supplicant_enable_one_network ops i w) of
        (c, cs) \<Rightarrow>
          if cs_reassociate cs \<and> \<not> cs_disconnected cs \<and>
             (cs_current cs = None \<or> cs_wpa_state cs = WPA_DISCONNECTED \<or> cs_wpa_state cs = WPA_SCANNING)
          then
            let cs = (if cs_sched_scanning cs then co_call ops Call_cancel_sched_scan cs else cs)
            in case co_fast_associate ops cs of
                 (r, cs) \<Rightarrow> (c, if r \<noteq> 1 then co_call ops (Call_req_scan 0 0) (cs\<lparr>cs_normal_scan_req := True\<rparr>) else cs)
          else (c, cs))"

definition wpa_supplicant_ctrl_iface_enable_network :: "conn_ops \<Rightarrow> string \<Rightarrow> supplicant \<Rightarrow> int \<times> supplicant" where
  "wpa_supplicant_ctrl_iface_enable_network ops cmd w =
     (case w of (c, cs) \<Rightarrow>
       if cmd = ''all'' then (0, wpa_supplicant_enable_network ops None (c, cs\<lparr>cs_scan_min_time := 0\<rparr>))
       else case wpa_config_get_network c (atoi32 cmd) of
           None \<Rightarrow> (-1, w)
         | Some s \<Rightarrow>
             if disabled s = 2 then (-1, w)
             else if os_strstr cmd '' no-connect'' \<noteq> None then (0, put_network (set_disabled 0 s) c, cs)
             else (0, wpa_supplicant_enable_network ops (Some (ws_id s)) (c, cs\<lparr>cs_scan_min_time := 0\<rparr>)))"

definition disable_one :: "conn_ops \<Rightarrow> int \<Rightarrow> supplicant \<Rightarrow> supplicant" where
  "disable_one ops i w =
     (case w of (c, cs) \<Rightarrow>
       case wpa_config_get_network c i of
         None \<Rightarrow> w
       | Some s \<Rightarrow>
           if disabled s = 2 then w
           else (put_network (set_disabled 1 s) c, if disabled s \<noteq> 1 then co_call ops (Call_enabled_changed i) cs else cs))"

definition wpa_supplicant_disable_network :: "conn_ops \<Rightarrow> int option \<Rightarrow> supplicant \<Rightarrow> supplicant" where
  "wpa_supplicant_disable_network ops i w =
     (case w of (c, cs) \<Rightarrow>
       case i of
         None \<Rightarrow>
           let cs = (if cs_sched_scanning cs then co_call ops Call_cancel_sched_scan cs else cs)
           in (case fold (disable_one ops) (map ws_id (wc_ssid c)) (c, cs) of
                 (c, cs) \<Rightarrow> (c, if cs_current cs \<noteq> None then co_call ops Call_deauthenticate cs else cs))
       | Some i \<Rightarrow>
           (case wpa_config_get_network c i of
              None \<Rightarrow> w
            | Some s \<Rightarrow>
                if disabled s = 2 then w
                else
                  let cs = (if cs_current cs = Some i then co_call ops Call_deauthenticate cs else cs); c = put_network (set_disabled 1 s) c
                  in if disabled s \<noteq> 1 then
                       let cs = co_call ops (Call_enabled_changed i) cs
                       in (c, if cs_sched_scanning cs then co_call ops (Call_req_scan 0 0) (co_call ops Call_cancel_sched_scan cs) else cs)
                     else (c, cs)))"

definition wpa_supplicant_ctrl_iface_disable_network :: "conn_ops \<Rightarrow> string \<Rightarrow> supplicant \<Rightarrow> int \<times> supplicant" where
  "wpa_supplicant_ctrl_iface_disable_network ops cmd w =
     (if cmd = ''all'' then (0, wpa_supplicant_disable_network ops None w)
      else case wpa_config_get_network (fst w) (atoi32 cmd) of
          None \<Rightarrow> (-1, w)
        | Some s \<Rightarrow> if disabled s = 2 then (-1, w) else (0, wpa_supplicant_disable_network ops (Some (ws_id s)) w))"

section \<open>Dispatch\<close>

definition ok_or_fail :: "int \<times> supplicant \<Rightarrow> string \<times> supplicant" where
  "ok_or_fail r = (if fst r \<noteq> 0 then ''FAIL'' @ [NL] else ''OK'' @ [NL], snd r)"

definition text_or_fail :: "string option \<times> supplicant \<Rightarrow> string \<times> supplicant" where
  "text_or_fail r = (case fst r of None \<Rightarrow> ''FAIL'' @ [NL] | Some t \<Rightarrow> t, snd r)"

definition REPLY_SIZE :: nat where "REPLY_SIZE = 4096"

text \<open>The commands on networks; \<open>None\<close> for the other commands.\<close>

definition network_command :: "build_opt set \<Rightarrow> eap_methods \<Rightarrow> kdf \<Rightarrow> conn_ops \<Rightarrow> string \<Rightarrow> supplicant \<Rightarrow> (string \<times> supplicant) outcome option" where
  "network_command b methods pb ops buf w =
     (if str_starts buf ''LIST_NETWORKS '' then Some (omap (\<lambda>t. (t, w)) (wpa_supplicant_ctrl_iface_list_networks (Some (drop 14 buf)) REPLY_SIZE w))
      else if buf = ''LIST_NETWORKS'' then Some (omap (\<lambda>t. (t, w)) (wpa_supplicant_ctrl_iface_list_networks None REPLY_SIZE w))
      else if str_starts buf ''ENABLE_NETWORK '' then Some (Val (ok_or_fail (wpa_supplicant_ctrl_iface_enable_network ops (drop 15 buf) w)))
      else if str_starts buf ''DISABLE_NETWORK '' then Some (Val (ok_or_fail (wpa_supplicant_ctrl_iface_disable_network ops (drop 16 buf) w)))
      else if buf = ''ADD_NETWORK'' then Some (Val (text_or_fail (wpa_supplicant_ctrl_iface_add_network b ops REPLY_SIZE w)))
      else if str_starts buf ''REMOVE_NETWORK '' then Some (Val (ok_or_fail (wpa_supplicant_ctrl_iface_remove_network ops (drop 15 buf) w)))
      else if str_starts buf ''SET_NETWORK '' then Some (omap ok_or_fail (wpa_supplicant_ctrl_iface_set_network b methods pb ops (drop 12 buf) w))
      else if str_starts buf ''GET_NETWORK ''
        then Some (omap (\<lambda>t. text_or_fail (t, w)) (wpa_supplicant_ctrl_iface_get_network b methods REPLY_SIZE (drop 12 buf) (fst w)))
      else if str_starts buf ''DUP_NETWORK '' then Some (omap ok_or_fail (wpa_supplicant_ctrl_iface_dup_network b methods pb ops (drop 12 buf) w))
      else None)"

end
