(* ===== verification/Net_Networks.thy ===== *)
theory Net_Networks
  imports Net_Ctrl
begin

text \<open>
  What the commands on networks keep: the ids of the networks ascend, and the priority lists are the networks grouped by
  descending priority, each group in the order of the list.
\<close>

section \<open>Priority lists\<close>

definition group_of :: "int \<Rightarrow> wpa_ssid list \<Rightarrow> int list" where
  "group_of p ss = map ws_id (filter (\<lambda>s. ssid_prio s = p) ss)"

definition prio_ok :: "wpa_ssid list \<Rightarrow> (int \<times> int list) list \<Rightarrow> bool" where
  "prio_ok ss ps \<longleftrightarrow> sorted_wrt (>) (map fst ps) \<and> (\<forall>p. map_of ps p = (if group_of p ss = [] then None else Some (group_of p ss)))"

lemma group_of_snoc: "group_of p (ss @ [s]) = group_of p ss @ (if ssid_prio s = p then [ws_id s] else [])"
  by (simp add: group_of_def)

lemma add_to_level_None: "add_to_level i p ps = None \<longleftrightarrow> map_of ps p = None"
  by (induction ps) auto

lemma add_to_level_Some:
  "add_to_level i p ps = Some qs \<Longrightarrow> map fst qs = map fst ps \<and> (\<exists>l. map_of ps p = Some l \<and> map_of qs = (map_of ps)(p \<mapsto> l @ [i]))"
proof (induction ps arbitrary: qs)
  case (Cons x ps)
  show ?case
  proof (cases "fst x = p")
    case True
    with Cons.prems show ?thesis by (cases x) auto
  next
    case False
    then obtain rs where "add_to_level i p ps = Some rs" "qs = x # rs" using Cons.prems by (cases x) auto
    with Cons.IH [of rs] False show ?thesis by (cases x) (auto simp: fun_eq_iff)
  qed
qed simp

lemma insert_level_sorted:
  assumes "sorted_wrt (>) (map fst ps)" "map_of ps p = None"
  shows "sorted_wrt (>) (map fst (insert_level i p ps)) \<and> set (map fst (insert_level i p ps)) = insert p (set (map fst ps)) \<and>
    map_of (insert_level i p ps) = (map_of ps)(p \<mapsto> [i])"
  using assms
proof (induction ps)
  case (Cons x ps)
  obtain q l where x: "x = (q, l)" by (cases x)
  have ne: "p \<noteq> q" using Cons.prems(2) x by auto
  show ?case
  proof (cases "q < p")
    case True
    then show ?thesis using Cons.prems x ne by (auto intro: order.strict_trans)
  next
    case False
    then show ?thesis using Cons x ne by (auto simp: fun_upd_twist split: if_splits)
  qed
qed simp

lemma prio_ok_snoc:
  assumes "prio_ok ss ps"
  shows "prio_ok (ss @ [s]) (wpa_config_add_prio_network s ps)"
proof (cases "add_to_level (ws_id s) (ssid_prio s) ps")
  case None
  then have n: "map_of ps (ssid_prio s) = None" by (simp add: add_to_level_None)
  then have "group_of (ssid_prio s) ss = []" using assms by (auto simp: prio_ok_def split: if_splits)
  with insert_level_sorted [OF _ n, of "ws_id s"] assms None show ?thesis
    by (auto simp: prio_ok_def wpa_config_add_prio_network_def group_of_snoc)
next
  case (Some qs)
  then obtain l where "map fst qs = map fst ps" "map_of ps (ssid_prio s) = Some l" "map_of qs = (map_of ps)(ssid_prio s \<mapsto> l @ [ws_id s])"
    using add_to_level_Some by blast
  with assms Some show ?thesis by (auto simp: prio_ok_def wpa_config_add_prio_network_def group_of_snoc split: if_splits)
qed

lemma prio_ok_fold: "prio_ok ss (fold wpa_config_add_prio_network ss [])"
proof (induction ss rule: rev_induct)
  case Nil
  show ?case by (simp add: prio_ok_def group_of_def)
next
  case (snoc s ss)
  then show ?case using prio_ok_snoc by simp
qed

section \<open>The invariant\<close>

definition conf_ok :: "wpa_config \<Rightarrow> bool" where
  "conf_ok c \<longleftrightarrow> sorted_wrt (<) (map ws_id (wc_ssid c)) \<and> list_all (\<lambda>s. 0 \<le> ws_id s) (wc_ssid c) \<and> prio_ok (wc_ssid c) (wc_pssid c)"

lemma conf_ok_update:
  assumes "sorted_wrt (<) (map ws_id (wc_ssid c))" "list_all (\<lambda>s. 0 \<le> ws_id s) (wc_ssid c)"
  shows "conf_ok (wpa_config_update_prio_list c)"
  using assms prio_ok_fold [of "wc_ssid c"] by (simp add: conf_ok_def wpa_config_update_prio_list_def)

lemma max_id_bound: "list_all (\<lambda>s. ws_id s \<le> max_id ss) ss \<and> -1 \<le> max_id ss"
  by (induction ss rule: rev_induct) (auto simp: max_id_def list_all_iff)

lemma add_network_ok:
  assumes "conf_ok c" "max_id (wc_ssid c) + 1 < 2 ^ 31" "wpa_config_add_network c = (s, c')"
  shows "conf_ok c'" "wc_ssid c' = wc_ssid c @ [s]" "ws_id s = max_id (wc_ssid c) + 1" "ssid_prio s = 0"
proof -
  let ?i = "max_id (wc_ssid c) + 1"
  have b: "\<forall>s \<in> set (wc_ssid c). ws_id s < ?i" "0 \<le> ?i" using max_id_bound [of "wc_ssid c"] by (auto simp: list_all_iff)
  then have "int32 ?i = ?i" using assms(2) by (intro int32_id) (simp add: in_int32_def)
  then have s: "s = zero_ssid ?i" "c' = wpa_config_update_prio_list (c\<lparr>wc_ssid := wc_ssid c @ [s]\<rparr>)"
    using assms(3) by (auto simp: wpa_config_add_network_def Let_def)
  then show "wc_ssid c' = wc_ssid c @ [s]" "ws_id s = ?i" "ssid_prio s = 0"
    by (simp_all add: zero_ssid_def ssid_prio_def wpa_config_update_prio_list_def)
  then show "conf_ok c'" unfolding s(2) using assms(1) b by (intro conf_ok_update) (auto simp: conf_ok_def sorted_wrt_append)
qed

lemma remove_id_Some:
  "remove_id i ss = Some rs \<Longrightarrow> \<exists>p s q. ss = p @ s # q \<and> ws_id s = i \<and> rs = p @ q"
proof (induction ss arbitrary: rs)
  case (Cons s ss)
  show ?case
  proof (cases "i = ws_id s")
    case True
    with Cons.prems show ?thesis by (intro exI [of _ "[]"]) auto
  next
    case False
    then obtain ts where t: "remove_id i ss = Some ts" "rs = s # ts" using Cons.prems by auto
    then obtain p x q where "ss = p @ x # q" "ws_id x = i" "ts = p @ q" using Cons.IH by blast
    with t show ?thesis by (intro exI [of _ "s # p"]) auto
  qed
qed simp

lemma remove_network_ok:
  assumes "conf_ok c"
  shows "conf_ok (snd (wpa_config_remove_network c i))"
proof (cases "remove_id i (wc_ssid c)")
  case None
  then show ?thesis using assms by (simp add: wpa_config_remove_network_def)
next
  case (Some rs)
  then obtain p s q where "wc_ssid c = p @ s # q" "rs = p @ q" using remove_id_Some by blast
  then have "conf_ok (wpa_config_update_prio_list (c\<lparr>wc_ssid := rs\<rparr>))"
    using assms by (intro conf_ok_update) (auto simp: conf_ok_def sorted_wrt_append)
  with Some show ?thesis by (simp add: wpa_config_remove_network_def)
qed

text \<open>A network replaced by one with the same id and priority.\<close>

lemma get_network_in: "wpa_config_get_network c i = Some s \<Longrightarrow> s \<in> set (wc_ssid c) \<and> ws_id s = i"
  by (auto simp: wpa_config_get_network_def find_Some_iff)

lemma put_network_ids: "map ws_id (wc_ssid (put_network s c)) = map ws_id (wc_ssid c)"
  by (simp add: put_network_def)

lemma distinct_ids: "sorted_wrt (<) (map ws_id ss) \<Longrightarrow> x \<in> set ss \<Longrightarrow> y \<in> set ss \<Longrightarrow> ws_id x = ws_id y \<Longrightarrow> x = y"
  by (induction ss) auto

lemma put_network_ok:
  assumes "conf_ok c" "old \<in> set (wc_ssid c)" "ws_id s = ws_id old" "ssid_prio s = ssid_prio old"
  shows "conf_ok (put_network s c)"
proof -
  let ?f = "\<lambda>x. if ws_id x = ws_id s then s else x"
  have e: "ssid_prio (?f x) = ssid_prio x \<and> ws_id (?f x) = ws_id x" if "x \<in> set (wc_ssid c)" for x
    using distinct_ids [of "wc_ssid c" x old] that assms by (auto simp: conf_ok_def)
  have "group_of p (map ?f ss) = group_of p ss" if "set ss \<subseteq> set (wc_ssid c)" for p ss
    using that by (induction ss) (auto simp: group_of_def e)
  then have "prio_ok (map ?f (wc_ssid c)) ps = prio_ok (wc_ssid c) ps" for ps by (simp add: prio_ok_def)
  moreover have "list_all (\<lambda>s. 0 \<le> ws_id s) (map ?f (wc_ssid c))" using assms(1) e by (auto simp: conf_ok_def list_all_iff)
  moreover have "map ws_id (map ?f (wc_ssid c)) = map ws_id (wc_ssid c)" using e by (simp add: comp_def)
  ultimately show ?thesis using assms(1) by (simp add: conf_ok_def put_network_def del: map_map)
qed

section \<open>Setting a field\<close>

lemma restore_id: "ws_id (restore f fn m m') = ws_id m'"
  by (cases fn) simp_all

lemma parser_id: "ws_id (snd (parser b methods f fn v m)) = ws_id m"
  using arg_cong [OF parser_restore [of f fn m b methods v], of ws_id] by (simp add: restore_id)

lemma config_set_id: "wpa_config_set b methods s name v = (r, s') \<Longrightarrow> ws_id s' = ws_id s"
proof (cases "find_field b name")
  case (Some d)
  assume "wpa_config_set b methods s name v = (r, s')"
  then have "s' = snd (parser b methods (pd_name d) (pd_fn d) v s)" using Some by (auto simp: wpa_config_set_def split: prod.splits)
  then show ?thesis by (simp add: parser_id)
qed (simp add: wpa_config_set_def)

lemma find_field_name: "find_field b name = Some d \<Longrightarrow> pd_name d = name"
  by (auto simp: find_field_def find_Some_iff)

lemma find_priority: "find_field b ''priority'' = Some (INT_FIELD ''priority'')"
proof -
  have "INT_FIELD ''priority'' \<in> set (ssid_fields b)" by (simp add: ssid_fields_def)
  from find_field_in [OF this] show ?thesis by (simp add: INT_FIELD_def)
qed

text \<open>The priority only changes when it is set, and then the parser reports the change.\<close>

lemma config_set_prio:
  assumes "wpa_config_set b methods s name v = (r, s')" "name \<noteq> ''priority'' \<or> r \<noteq> 0"
  shows "ssid_prio s' = ssid_prio s"
proof (cases "find_field b name")
  case None
  with assms(1) show ?thesis by (simp add: wpa_config_set_def)
next
  case (Some d)
  then have s': "s' = snd (parser b methods name (pd_fn d) v s)" using assms(1) find_field_name [OF Some] by (auto simp: wpa_config_set_def split: prod.splits)
  show ?thesis
  proof (cases "name = ''priority''")
    case True
    then have "d = INT_FIELD ''priority''" using Some find_priority by simp
    then show ?thesis using assms Some True
      by (auto simp: wpa_config_set_def INT_FIELD_def wpa_config_parse_int_def ssid_prio_def Let_def split: prod.splits if_splits)
  next
    case False
    have "slot_of ''priority'' (Fn_int 0 0) \<noteq> slot_of name (pd_fn d)" using False by (cases "pd_fn d") simp_all
    then have "same_part ''priority'' (Fn_int 0 0) s s'" by (intro parser_frame [OF _ _ s']) simp_all
    then show ?thesis by (simp add: ssid_prio_def)
  qed
qed

section \<open>The commands keep the invariant\<close>

lemma put_in: "s \<in> set (wc_ssid c) \<Longrightarrow> ws_id s' = ws_id s \<Longrightarrow> s' \<in> set (wc_ssid (put_network s' c))"
  by (force simp: put_network_def)

lemma update_psk_same: "wpa_config_update_psk b pb s = Val s' \<Longrightarrow> ws_id s' = ws_id s \<and> ssid_prio s' = ssid_prio s"
  by (auto simp: wpa_config_update_psk_def ssid_prio_def Let_def split: if_splits option.splits)

lemma update_network_ok:
  assumes "conf_ok c" "s \<in> set (wc_ssid c)" "wpa_supplicant_ctrl_iface_update_network b methods pb ops s name v (c, cs) = Val (r, c', cs')"
  shows "conf_ok c'"
proof -
  obtain ret s1 where set: "wpa_config_set b methods s name v = (ret, s1)" by fastforce
  have i: "ws_id s1 = ws_id s" using config_set_id [OF set] .
  have put: "name \<noteq> ''priority'' \<or> ret \<noteq> 0 \<Longrightarrow> conf_ok (put_network s1 c)"
    using put_network_ok [OF assms(1,2) i] config_set_prio [OF set] by blast
  have upd: "conf_ok (wpa_config_update_prio_list (put_network s1 c))"
  proof (rule conf_ok_update)
    show "sorted_wrt (<) (map ws_id (wc_ssid (put_network s1 c)))" using assms(1) by (simp add: put_network_ids conf_ok_def)
    have "list_all (\<lambda>i. 0 \<le> i) (map ws_id (wc_ssid (put_network s1 c)))" unfolding put_network_ids using assms(1) by (simp add: conf_ok_def list_all_iff)
    then show "list_all (\<lambda>s. 0 \<le> ws_id s) (wc_ssid (put_network s1 c))" by (simp add: list_all_iff)
  qed
  have psk: "conf_ok (put_network s2 (put_network s1 c))" if "wpa_config_update_psk b pb s1 = Val s2" "name \<noteq> ''priority''" for s2
    using put_network_ok [OF put put_in [OF assms(2) i], of s2] update_psk_same [OF that(1)] that(2) by blast
  show ?thesis using assms(3) set put upd psk
    by (auto simp: wpa_supplicant_ctrl_iface_update_network_def Let_def outcome_simps split: if_splits)
qed

lemma set_network_ok:
  assumes "conf_ok (fst w)" "wpa_supplicant_ctrl_iface_set_network b methods pb ops cmd w = Val (r, c', cs')"
  shows "conf_ok c'"
  using assms get_network_in update_network_ok [of "fst w"]
  by (cases w) (auto simp: wpa_supplicant_ctrl_iface_set_network_def Let_def outcome_simps split: option.splits prod.splits; blast)

lemma dup_network_ok:
  assumes "conf_ok (fst w)" "wpa_supplicant_ctrl_iface_dup_network b methods pb ops cmd w = Val (r, c', cs')"
  shows "conf_ok c'"
  using assms get_network_in update_network_ok [of "fst w"]
  by (cases w) (auto simp: wpa_supplicant_ctrl_iface_dup_network_def outcome_simps split: option.splits prod.splits; blast)

lemma defaults_same: "ws_id (wpa_config_set_network_defaults b s) = ws_id s" "ssid_prio (wpa_config_set_network_defaults b s) = ssid_prio s"
proof -
  have "set_ints vs f ''priority'' = f ''priority''" if "''priority'' \<notin> fst ` set vs" for vs f
    using that unfolding set_ints_def by (induction vs arbitrary: f) (auto split: prod.splits)
  moreover have "''priority'' \<notin> fst ` set (opt_ints b p vs)" if "''priority'' \<notin> fst ` set vs" for p vs
    using that by (cases "p \<in> b") (simp_all add: opt_ints_def)
  ultimately show "ssid_prio (wpa_config_set_network_defaults b s) = ssid_prio s"
    by (simp add: wpa_config_set_network_defaults_def ssid_prio_def image_Un)
qed (simp add: wpa_config_set_network_defaults_def)

lemma set_disabled_same [simp]: "ws_id (set_disabled v s) = ws_id s" "ssid_prio (set_disabled v s) = ssid_prio s"
  by (simp_all add: set_disabled_def ssid_prio_def)

lemma add_ok:
  assumes "conf_ok (fst w)" "max_id (wc_ssid (fst w)) + 1 < 2 ^ 31"
  shows "conf_ok (fst (snd (wpa_supplicant_add_network b ops w)))"
proof -
  obtain s c' where a: "wpa_config_add_network (fst w) = (s, c')" by fastforce
  note ok = add_network_ok [OF assms a]
  have "conf_ok (put_network (wpa_config_set_network_defaults b (set_disabled 1 s)) c')"
    by (rule put_network_ok [OF ok(1), of s]) (simp_all add: ok(2) defaults_same)
  with a show ?thesis by (cases w) (simp add: wpa_supplicant_add_network_def Let_def)
qed

lemma remove_ok:
  assumes "conf_ok (fst w)"
  shows "conf_ok (fst (snd (wpa_supplicant_ctrl_iface_remove_network ops cmd w)))"
proof -
  have all: "conf_ok (fst (fold (remove_one ops) is w))" if "conf_ok (fst w)" for "is" w
    using that
  proof (induction "is" arbitrary: w)
    case (Cons i "is")
    have "conf_ok (fst (remove_one ops i w))" using remove_network_ok [OF Cons.prems] by (cases w) (simp add: remove_one_def)
    then show ?case using Cons.IH by simp
  qed simp
  have one: "conf_ok (fst (snd (wpa_supplicant_remove_network ops i w)))" for i
    using assms remove_network_ok [OF assms, of i] by (cases w) (auto simp: wpa_supplicant_remove_network_def Let_def split: option.splits prod.splits)
  show ?thesis
  proof (cases "cmd = ''all''")
    case True
    obtain c cs where w: "w = (c, cs)" by (cases w)
    show ?thesis using True all [of "(c, _)"] assms w by (auto simp: wpa_supplicant_ctrl_iface_remove_network_def Let_def)
  next
    case False
    then show ?thesis using one [of "atoi32 cmd"] by (auto simp: wpa_supplicant_ctrl_iface_remove_network_def split: prod.splits)
  qed
qed

lemma disabled_ok: "conf_ok c \<Longrightarrow> wpa_config_get_network c i = Some s \<Longrightarrow> conf_ok (put_network (set_disabled v s) c)"
  using get_network_in put_network_ok by fastforce

lemma enable_one_ok: "conf_ok (fst w) \<Longrightarrow> conf_ok (fst (wpa_supplicant_enable_one_network ops i w))"
proof -
  assume ok: "conf_ok (fst w)"
  have "conf_ok (put_network (s\<lparr>ws_int := (ws_int s)(''disabled'' := v), ws_disabled_until := 0, ws_auth_failures := 0\<rparr>) c)"
    if "wpa_config_get_network c i = Some s" "conf_ok c" for c s v
    using get_network_in [OF that(1)] put_network_ok [OF that(2)] by (fastforce simp: ssid_prio_def)
  with ok show ?thesis
    by (cases w) (auto simp: wpa_supplicant_enable_one_network_def wpas_clear_temp_disabled_def set_disabled_def Let_def split: option.splits)
qed

lemma disable_one_ok: "conf_ok (fst w) \<Longrightarrow> conf_ok (fst (disable_one ops i w))"
  using disabled_ok by (cases w) (auto simp: disable_one_def split: option.splits)

lemma fold_ok: "(\<And>i w. conf_ok (fst w) \<Longrightarrow> conf_ok (fst (f i w))) \<Longrightarrow> conf_ok (fst w) \<Longrightarrow> conf_ok (fst (fold f is w))"
  by (induction "is" arbitrary: w) auto

lemma enable_ok: "conf_ok (fst w) \<Longrightarrow> conf_ok (fst (wpa_supplicant_enable_network ops i w))"
proof -
  let ?w = "case i of None \<Rightarrow> fold (wpa_supplicant_enable_one_network ops) (map ws_id (wc_ssid (fst w))) w | Some i \<Rightarrow> wpa_supplicant_enable_one_network ops i w"
  assume "conf_ok (fst w)"
  then have "conf_ok (fst ?w)" using fold_ok [of "wpa_supplicant_enable_one_network ops"] enable_one_ok by (auto split: option.splits)
  then show ?thesis by (auto simp: wpa_supplicant_enable_network_def Let_def split: prod.splits)
qed

lemma disable_ok: "conf_ok (fst w) \<Longrightarrow> conf_ok (fst (wpa_supplicant_disable_network ops i w))"
proof -
  assume ok: "conf_ok (fst w)"
  obtain c cs where w: "w = (c, cs)" by (cases w)
  have "conf_ok (fst (fold (disable_one ops) is (c, cs')))" for "is" cs' using fold_ok [of "disable_one ops" "(c, cs')"] disable_one_ok ok w by auto
  then show ?thesis using ok w disabled_ok [of c]
    by (auto simp: wpa_supplicant_disable_network_def Let_def split: option.splits prod.splits) (metis fst_conv)+
qed

lemma command_ok:
  assumes "conf_ok (fst w)" "max_id (wc_ssid (fst w)) + 1 < 2 ^ 31" "network_command b methods pb ops buf w = Some (Val (t, w'))"
  shows "conf_ok (fst w')"
proof -
  have en: "conf_ok (fst (snd (wpa_supplicant_ctrl_iface_enable_network ops cmd w)))" for cmd
    using assms(1) enable_ok [of "(fst w, _)"] disabled_ok [of "fst w"]
    by (cases w) (auto simp: wpa_supplicant_ctrl_iface_enable_network_def split: option.splits)
  have di: "conf_ok (fst (snd (wpa_supplicant_ctrl_iface_disable_network ops cmd w)))" for cmd
    using assms(1) disable_ok [OF assms(1)] by (auto simp: wpa_supplicant_ctrl_iface_disable_network_def split: option.splits)
  have ad: "conf_ok (fst (snd (wpa_supplicant_ctrl_iface_add_network b ops REPLY_SIZE w)))"
    using add_ok [OF assms(1,2), of b ops] by (auto simp: wpa_supplicant_ctrl_iface_add_network_def Let_def split: prod.splits)
  have se: "conf_ok (fst (snd r))" if "wpa_supplicant_ctrl_iface_set_network b methods pb ops cmd w = Val r" for cmd r
    using set_network_ok [OF assms(1)] that by (cases r) auto
  have du: "conf_ok (fst (snd r))" if "wpa_supplicant_ctrl_iface_dup_network b methods pb ops cmd w = Val r" for cmd r
    using dup_network_ok [OF assms(1)] that by (cases r) auto
  show ?thesis using assms(1,3) en di ad se du remove_ok [OF assms(1)]
    by (auto simp: network_command_def ok_or_fail_def text_or_fail_def outcome_simps split: if_splits)
qed

lemma desc_distinct: "sorted_wrt (>) (xs :: int list) \<Longrightarrow> distinct xs"
  by (induction xs) auto

definition idle_conn :: conn_state where
  "idle_conn = \<lparr>cs_current = None, cs_last = None, cs_wpa_state = WPA_DISCONNECTED, cs_disconnected = False, cs_reassociate = False,
     cs_own_disconnect_req = False, cs_sched_scanning = False, cs_normal_scan_req = False, cs_scan_min_time = 0\<rparr>"

definition idle_ops :: conn_ops where
  "idle_ops = \<lparr>co_call = (\<lambda>_ cs. cs), co_fast_associate = (\<lambda>cs. (1, cs))\<rparr>"

lemma add_command:
  "network_command b methods pb ops ''ADD_NETWORK'' w = Some (Val (text_or_fail (wpa_supplicant_ctrl_iface_add_network b ops REPLY_SIZE w)))"
  by (simp add: network_command_def str_starts_def)

lemma add_command_ids:
  assumes "conf_ok c" "max_id (wc_ssid c) + 1 < 2 ^ 31"
  shows "\<exists>c' cs'. snd (text_or_fail (wpa_supplicant_ctrl_iface_add_network b ops n (c, cs))) = (c', cs') \<and>
    map ws_id (wc_ssid c') = map ws_id (wc_ssid c) @ [max_id (wc_ssid c) + 1]"
proof -
  obtain s c1 where a: "wpa_config_add_network c = (s, c1)" by fastforce
  note ok = add_network_ok [OF assms a]
  show ?thesis using a ok put_network_ids
    by (simp add: text_or_fail_def wpa_supplicant_ctrl_iface_add_network_def wpa_supplicant_add_network_def Let_def split: prod.splits)
qed

end
