(* ===== verification/Net_Keys.thy ===== *)
theory Net_Keys
  imports Net_Networks
begin

text \<open>
  What a client of the control socket can learn about the keys of a network: that a key is set. Two configurations that
  differ in the keys only get the same replies to the commands that read networks.
\<close>

text \<open>A key is stored for a field.\<close>

fun key_set :: "build_opt set \<Rightarrow> string \<Rightarrow> field_fn \<Rightarrow> wpa_ssid \<Rightarrow> bool" where
  "key_set b f (Fn_str lenf mn mx) n \<longleftrightarrow> ws_str n f \<noteq> None"
| "key_set b f Fn_psk n \<longleftrightarrow> (OPT_EXT_PASSWORD \<in> b \<and> ws_ext_psk n \<noteq> None) \<or> ws_passphrase n \<noteq> None \<or> ws_psk_set n"
| "key_set b f Fn_password n \<longleftrightarrow> ws_password n \<noteq> None"
| "key_set b f (Fn_wep_key i) n \<longleftrightarrow> ws_wep_key_len n i \<noteq> 0"
| "key_set b f fn n \<longleftrightarrow> False"

text \<open>Two networks that are the same but for the values of their keys.\<close>

definition same_public :: "build_opt set \<Rightarrow> wpa_ssid \<Rightarrow> wpa_ssid \<Rightarrow> bool" where
  "same_public b n n' \<longleftrightarrow> ws_id n = ws_id n' \<and> ws_disabled_until n = ws_disabled_until n' \<and>
     list_all (\<lambda>d. if key_data d then key_set b (pd_name d) (pd_fn d) n = key_set b (pd_name d) (pd_fn d) n'
                   else same_part (pd_name d) (pd_fn d) n n') (ssid_fields b)"

definition net_safe :: "wpa_ssid \<Rightarrow> bool" where
  "net_safe n \<longleftrightarrow> length (ws_psk n) = PMK_LEN \<and> (\<forall>i. wep_ok i n)"

text \<open>The fields with key data.\<close>

definition key_field :: "parse_data \<Rightarrow> bool" where
  "key_field d \<longleftrightarrow> (key_data d \<longrightarrow> (case pd_fn d of Fn_str lenf mn mx \<Rightarrow> True | Fn_psk \<Rightarrow> True | Fn_password \<Rightarrow> True | Fn_wep_key i \<Rightarrow> True | _ \<Rightarrow> False))"

lemma ssid_key_fields: "list_all key_field (ssid_fields b)"
  by (simp add: ssid_fields_def list_all_opt field_defs key_field_def)

lemma write_string_nonempty: "wpa_config_write_string t \<noteq> []"
proof (cases "is_hex t")
  case True
  then have "0 < length t" by (auto simp: is_hex_def)
  then have "0 < length (write_string_hex t)" by simp
  with True show ?thesis unfolding wpa_config_write_string_def by (metis length_greater_0_conv)
next
  case False
  then show ?thesis by (simp add: wpa_config_write_string_def write_string_ascii_def)
qed

text \<open>The writer of a key field returns a text exactly when a key is stored.\<close>

lemma key_writer:
  assumes "key_field d" "key_data d" "net_safe n"
  shows "\<exists>w. writer b methods (pd_name d) (pd_fn d) n = Val w \<and> (w \<noteq> None \<and> w \<noteq> Some [] \<longleftrightarrow> key_set b (pd_name d) (pd_fn d) n)"
proof (cases "pd_fn d")
  case (Fn_str lenf mn mx)
  then show ?thesis by (auto simp: wpa_config_write_str_def write_string_nonempty)
next
  case Fn_psk
  have "length (write_string_hex (ws_psk n)) = 64" using assms(3) by (simp add: net_safe_def PMK_LEN_def)
  then have "write_string_hex (ws_psk n) \<noteq> []" by (metis list.size(3) zero_neq_numeral)
  then show ?thesis using Fn_psk by (auto simp: wpa_config_write_psk_def write_string_ascii_def split: option.splits)
next
  case Fn_password
  have "cstr_of (''ext:'' @ p) \<noteq> []" for p by (simp add: cstr_of_def)
  then show ?thesis using Fn_password by (auto simp: wpa_config_write_password_def write_string_nonempty)
next
  case (Fn_wep_key i)
  have "\<not> length (ws_wep_key n i) < ws_wep_key_len n i" using assms(3) by (auto simp: net_safe_def wep_ok_def not_less)
  then show ?thesis using Fn_wep_key by (auto simp: wpa_config_write_wep_key_def write_string_nonempty Let_def)
qed (use assms(1,2) in \<open>simp_all add: key_field_def\<close>)

lemma get_no_key_same:
  assumes "same_public b n n'" "net_safe n" "net_safe n'"
  shows "wpa_config_get_no_key b methods n var = wpa_config_get_no_key b methods n' var"
proof (cases "find_field b var")
  case (Some d)
  then have d: "d \<in> set (ssid_fields b)" by (auto simp: find_field_def find_Some_iff)
  show ?thesis
  proof (cases "key_data d")
    case True
    have k: "key_field d" using ssid_key_fields [of b] d by (simp add: list_all_iff)
    have e: "key_set b (pd_name d) (pd_fn d) n = key_set b (pd_name d) (pd_fn d) n'" using assms(1) d True by (simp add: same_public_def list_all_iff)
    obtain w where w: "writer b methods (pd_name d) (pd_fn d) n = Val w" "w \<noteq> None \<and> w \<noteq> Some [] \<longleftrightarrow> key_set b (pd_name d) (pd_fn d) n"
      using key_writer [OF k True assms(2)] by blast
    obtain w' where w': "writer b methods (pd_name d) (pd_fn d) n' = Val w'" "w' \<noteq> None \<and> w' \<noteq> Some [] \<longleftrightarrow> key_set b (pd_name d) (pd_fn d) n'"
      using key_writer [OF k True assms(3)] by blast
    have v: "(case w of None \<Rightarrow> None | Some [] \<Rightarrow> None | Some _ \<Rightarrow> Some ''*'') = (if w \<noteq> None \<and> w \<noteq> Some [] then Some ''*'' else None)" for w :: "string option"
      by (auto split: option.splits list.splits)
    show ?thesis using Some True w w' e v [of w] v [of w'] by (simp add: wpa_config_get_no_key_def)
  next
    case False
    then have "same_part (pd_name d) (pd_fn d) n n'" using assms(1) d by (simp add: same_public_def list_all_iff)
    then show ?thesis using Some False writer_reads by (simp add: wpa_config_get_no_key_def)
  qed
qed (simp add: wpa_config_get_no_key_def)

lemma public_parts:
  assumes "same_public b n n'"
  shows "ws_str n ''ssid'' = ws_str n' ''ssid''" "ws_bssid n = ws_bssid n'" "ws_bssid_set n = ws_bssid_set n'" "disabled n = disabled n'" "ws_id n = ws_id n'"
    "ws_disabled_until n = ws_disabled_until n'"
  using assms by (simp_all add: same_public_def ssid_fields_def field_defs disabled_def)

lemma list_loop_same:
  "list_all2 (same_public b) ss ss' \<Longrightarrow> list_loop cur room ss = list_loop cur room ss'"
proof (induction ss ss' arbitrary: room rule: list_all2_induct)
  case (Cons s ss s' ss')
  have row: "network_row cur s t = network_row cur s' t" for t using public_parts [OF Cons.hyps(1)] by (simp add: network_row_def network_flags_def)
  show ?case by (simp only: list_loop.simps row public_parts(1) [OF Cons.hyps(1)] Cons.IH)
qed simp

lemma find_same:
  "list_all2 (same_public b) ss ss' \<Longrightarrow> rel_option (same_public b) (find (\<lambda>s. ws_id s = i) ss) (find (\<lambda>s. ws_id s = i) ss')"
  by (induction ss ss' rule: list_all2_induct) (auto simp: same_public_def)

lemma drop_same:
  "list_all2 (same_public b) ss ss' \<Longrightarrow> list_all2 (same_public b) (dropWhile (\<lambda>s. ws_id s \<le> i) ss) (dropWhile (\<lambda>s. ws_id s \<le> i) ss')"
  by (induction ss ss' rule: list_all2_induct) (auto simp: same_public_def)

lemma listed_same: "list_all2 (same_public b) ss ss' \<Longrightarrow> list_all2 (same_public b) (listed_from cmd ss) (listed_from cmd ss')"
  using drop_same by (simp add: listed_from_def Let_def split: option.split)

lemma lookup_same:
  assumes "list_all2 (same_public b) (wc_ssid c) (wc_ssid c')" "list_all net_safe (wc_ssid c)" "list_all net_safe (wc_ssid c')"
  shows "wpa_config_get_network c j = None \<and> wpa_config_get_network c' j = None \<or>
    (\<exists>s s'. wpa_config_get_network c j = Some s \<and> wpa_config_get_network c' j = Some s' \<and>
      (\<forall>name. wpa_config_get_no_key b methods s name = wpa_config_get_no_key b methods s' name))"
proof -
  have r: "rel_option (same_public b) (wpa_config_get_network c j) (wpa_config_get_network c' j)"
    unfolding wpa_config_get_network_def by (rule find_same [OF assms(1)])
  show ?thesis
  proof (cases "wpa_config_get_network c j")
    case None
    with r show ?thesis by simp
  next
    case (Some s)
    with r obtain s' where s': "wpa_config_get_network c' j = Some s'" "same_public b s s'" by (auto simp: option_rel_Some1)
    have "net_safe s" "net_safe s'" using get_network_in [OF Some] get_network_in [OF s'(1)] assms(2,3) by (simp_all add: list_all_iff)
    with get_no_key_same [OF s'(2)] Some s'(1) show ?thesis by auto
  qed
qed

text \<open>
  C13: the keys of the networks stay hidden: to \<^verbatim>\<open>GET_NETWORK\<close> and \<^verbatim>\<open>LIST_NETWORKS\<close> the daemon gives the same reply, byte for byte, for
  two configurations that differ in no more than the values of passphrases, pre-shared keys, passwords, WEP keys and PINs; and
  the reply for a field with a key is one asterisk or a failure.
\<close>

theorem keys_hidden:
  assumes "list_all2 (same_public b) (wc_ssid c) (wc_ssid c')" "list_all net_safe (wc_ssid c)" "list_all net_safe (wc_ssid c')"
    "str_starts buf ''GET_NETWORK '' \<or> str_starts buf ''LIST_NETWORKS''"
  shows "map_option (omap fst) (network_command b methods pb ops buf (c, cs)) = map_option (omap fst) (network_command b methods pb ops buf (c', cs)) \<and>
    (find_field b name = Some d \<longrightarrow> key_data d \<longrightarrow> wpa_config_get_network c i = Some s \<longrightarrow> wpa_config_get_no_key b methods s name \<in> {Val None, Val (Some ''*'')})"
proof
  have get: "wpa_supplicant_ctrl_iface_get_network b methods n cmd c = wpa_supplicant_ctrl_iface_get_network b methods n cmd c'" for n cmd
  proof -
    have e: "(case wpa_config_get_network c j of None \<Rightarrow> Val None | Some s \<Rightarrow> omap h (wpa_config_get_no_key b methods s name)) =
        (case wpa_config_get_network c' j of None \<Rightarrow> Val None | Some s \<Rightarrow> omap h (wpa_config_get_no_key b methods s name))" for h j and name :: string
      using lookup_same [OF assms(1-3), of j methods] by auto
    show ?thesis unfolding wpa_supplicant_ctrl_iface_get_network_def e ..
  qed
  have ls: "wpa_supplicant_ctrl_iface_list_networks cmd n (c, cs) = wpa_supplicant_ctrl_iface_list_networks cmd n (c', cs)" for cmd n
    unfolding wpa_supplicant_ctrl_iface_list_networks_def prod.case list_loop_same [OF listed_same [OF assms(1)]] ..
  have om: "omap fst (omap f m) = omap (\<lambda>t. fst (f t)) m" for f :: "'x \<Rightarrow> string \<times> supplicant" and m by (cases m) simp_all
  show "map_option (omap fst) (network_command b methods pb ops buf (c, cs)) = map_option (omap fst) (network_command b methods pb ops buf (c', cs))"
  proof (cases "str_starts buf ''GET_NETWORK ''")
    case True
    then have "network_command b methods pb ops buf w =
        Some (omap (\<lambda>t. text_or_fail (t, w)) (wpa_supplicant_ctrl_iface_get_network b methods REPLY_SIZE (drop 12 buf) (fst w)))" for w
      by (auto simp: network_command_def str_starts_def is_prefix_iff)
    then show ?thesis using get by (simp add: om text_or_fail_def)
  next
    case False
    then obtain r where r: "buf = ''LIST_NETWORKS'' @ r" using assms(4) by (auto simp: str_starts_def is_prefix_iff)
    consider (all) "r = []" | (some) q where "r = CHR '' '' # q" | (other) x q where "r = x # q" "x \<noteq> CHR '' ''" by (cases r) auto
    then show ?thesis
    proof cases
      case all
      with r have "network_command b methods pb ops buf w = Some (omap (\<lambda>t. (t, w)) (wpa_supplicant_ctrl_iface_list_networks None REPLY_SIZE w))" for w
        by (simp add: network_command_def str_starts_def)
      then show ?thesis using ls by (simp add: om)
    next
      case (some q)
      with r have "network_command b methods pb ops buf w = Some (omap (\<lambda>t. (t, w)) (wpa_supplicant_ctrl_iface_list_networks (Some q) REPLY_SIZE w))" for w
        by (simp add: network_command_def str_starts_def)
      then show ?thesis using ls by (simp add: om)
    next
      case (other x q)
      with r have "network_command b methods pb ops buf w = None" for w by (simp add: network_command_def str_starts_def)
      then show ?thesis by simp
    qed
  qed
  show "find_field b name = Some d \<longrightarrow> key_data d \<longrightarrow> wpa_config_get_network c i = Some s \<longrightarrow> wpa_config_get_no_key b methods s name \<in> {Val None, Val (Some ''*'')}"
  proof (intro impI)
    assume a: "find_field b name = Some d" "key_data d" "wpa_config_get_network c i = Some s"
    then have "key_field d" "net_safe s" using ssid_key_fields [of b] assms(2) get_network_in [OF a(3)] by (auto simp: list_all_iff find_field_def find_Some_iff)
    then obtain w where "writer b methods (pd_name d) (pd_fn d) s = Val w" using key_writer a(2) by blast
    with a show "wpa_config_get_no_key b methods s name \<in> {Val None, Val (Some ''*'')}"
      by (auto simp: wpa_config_get_no_key_def split: option.splits list.splits)
  qed
qed

definition keyed :: "string \<Rightarrow> wpa_config" where
  "keyed p = \<lparr>wc_ssid = [(zero_ssid 0)\<lparr>ws_passphrase := Some p\<rparr>], wc_pssid = [(0, [0])]\<rparr>"

theorem keys_hidden_witness:
  "map_option (omap fst) (network_command {} [] (\<lambda>p s i n. []) idle_ops ''GET_NETWORK 0 psk'' (keyed ''first secret'', idle_conn)) =
     map_option (omap fst) (network_command {} [] (\<lambda>p s i n. []) idle_ops ''GET_NETWORK 0 psk'' (keyed ''other secret'', idle_conn)) \<and>
   wpa_config_get_no_key {} [] ((zero_ssid 0)\<lparr>ws_passphrase := Some ''first secret''\<rparr>) ''psk'' \<in> {Val None, Val (Some ''*'')}"
proof -
  have p: "list_all2 (same_public {}) (wc_ssid (keyed ''first secret'')) (wc_ssid (keyed ''other secret''))"
    by (simp add: keyed_def same_public_def ssid_fields_def opt_fields_def field_defs zero_ssid_def)
  have s: "list_all net_safe (wc_ssid (keyed x))" for x by (simp add: keyed_def net_safe_def zero_ssid_def wep_ok_def)
  have g: "str_starts ''GET_NETWORK 0 psk'' ''GET_NETWORK '' \<or> str_starts ''GET_NETWORK 0 psk'' ''LIST_NETWORKS''" by (simp add: str_starts_def)
  have f: "find_field {} ''psk'' = Some (FUNC_KEY ''psk'' Fn_psk)" "key_data (FUNC_KEY ''psk'' Fn_psk)"
    by (simp_all add: find_field_def ssid_fields_def field_defs)
  have n: "wpa_config_get_network (keyed ''first secret'') 0 = Some ((zero_ssid 0)\<lparr>ws_passphrase := Some ''first secret''\<rparr>)"
    by (simp add: wpa_config_get_network_def keyed_def zero_ssid_def)
  from keys_hidden [OF p s s g, of "[]" "\<lambda>p s i n. []" idle_ops idle_conn "''psk''" "FUNC_KEY ''psk'' Fn_psk" 0] f n show ?thesis by blast
qed

end
