(* ===== verification/Net_Reload.thy ===== *)
theory Net_Reload
  imports Net_Keys
begin

section \<open>Round trips of all fields\<close>

text \<open>
  The text written from the network \<open>n\<close> can be set in the network \<open>m\<close>: the stored value is in the bounds of its field and its
  text fits in the buffer of the writer, and \<open>m\<close> has no value yet that would outweigh or be mistaken for it.
\<close>

fun fits :: "build_opt set \<Rightarrow> eap_methods \<Rightarrow> string \<Rightarrow> field_fn \<Rightarrow> wpa_ssid \<Rightarrow> wpa_ssid \<Rightarrow> bool" where
  "fits b methods f (Fn_str lenf mn mx) n m \<longleftrightarrow> (case ws_str n f of None \<Rightarrow> True | Some t \<Rightarrow> len_ok mn mx (stored_text lenf t))"
| "fits b methods f (Fn_int mn mx) n m \<longleftrightarrow> in_int32 (ws_int n f) \<and> (in_range mn mx (ws_int n f) \<or> ws_int m f = ws_int n f)"
| "fits b methods f Fn_bssid n m \<longleftrightarrow> length (ws_bssid n) = ETH_ALEN \<and> length (ws_bssid m) = ETH_ALEN"
| "fits b methods f Fn_bssid_blacklist n m \<longleftrightarrow> list_all (addr_entry_ok True) (ws_bssid_blacklist n)"
| "fits b methods f Fn_bssid_whitelist n m \<longleftrightarrow> list_all (addr_entry_ok True) (ws_bssid_whitelist n)"
| "fits b methods f Fn_psk n m \<longleftrightarrow> psk_ok n \<and> psk_ok m \<and> OPT_NO_PBKDF2 \<notin> b \<and> ws_ext_psk m = None"
| "fits b methods f Fn_proto n m \<longleftrightarrow> flags_within proto_names (ws_proto n)"
| "fits b methods f Fn_key_mgmt n m \<longleftrightarrow> flags_within (key_mgmt_table b) (ws_key_mgmt n) \<and>
     length (spaced (flag_words (key_mgmt_table b) (ws_key_mgmt n))) < 100"
| "fits b methods f Fn_pairwise n m \<longleftrightarrow> flags_within cipher_names (ws_pairwise_cipher n) \<and> 0 < ws_pairwise_cipher n"
| "fits b methods f Fn_group n m \<longleftrightarrow> flags_within cipher_names (ws_group_cipher n) \<and> 0 < ws_group_cipher n \<and> \<not> bit (ws_group_cipher n) 0"
| "fits b methods f Fn_auth_alg n m \<longleftrightarrow> flags_within auth_alg_table (ws_auth_alg n)"
| "fits b methods f Fn_scan_freq n m \<longleftrightarrow> list_all freq_ok (ws_scan_freq n)"
| "fits b methods f Fn_freq_list n m \<longleftrightarrow> list_all freq_ok (ws_freq_list n)"
| "fits b methods f Fn_eap n m \<longleftrightarrow> eap_ok methods n \<and> ws_eap_methods m = None"
| "fits b methods f Fn_password n m \<longleftrightarrow> password_ok b n \<and> \<not> bit (ws_eap_flags m) FLAG_EXT"
| "fits b methods f (Fn_wep_key i) n m \<longleftrightarrow> wep_ok i n \<and> wep_ok i m"
| "fits b methods f Fn_mesh_basic_rates n m \<longleftrightarrow> list_all freq_ok (ws_mesh_basic_rates n)"
| "fits b methods f Fn_go_p2p_dev_addr n m \<longleftrightarrow> length (ws_go_p2p_dev_addr n) = ETH_ALEN \<and> length (ws_go_p2p_dev_addr m) = ETH_ALEN"
| "fits b methods f Fn_p2p_client_list n m \<longleftrightarrow> list_all (addr_entry_ok False) (ws_p2p_client_list n)"
| "fits b methods f Fn_psk_list n m \<longleftrightarrow> True"

lemma flags_text_0: "flags_text sz tab 0 = None"
proof -
  have "write_flags sz tab 0 [] = []" by (induction tab) auto
  then show ?thesis by (simp add: flags_text_def)
qed

lemma table_round_trip:
  assumes "names_ok tab names" "flags_within names val" "length (spaced (flag_words names val)) < sz" "flags_text sz names val = Some v"
    "\<And>x. get (put x) = x"
  shows "\<exists>r m'. store_flags (parse_flags tab v) (get m) put m = (r, m') \<and> 0 \<le> r \<and> get m' = val"
proof (rule flags_round_trip [OF assms(1,2) _ assms(3-5)])
  show "val \<noteq> 0" using assms(4) flags_text_0 by auto
qed

lemma int_round_trip_same:
  assumes "in_int32 (ws_int n f)" "in_range mn mx (ws_int n f) \<or> ws_int m f = ws_int n f" "wpa_config_write_int f n = Some v"
  shows "\<exists>r m'. wpa_config_parse_int f mn mx v m = (r, m') \<and> 0 \<le> r \<and> wpa_config_write_int f m' = Some v"
  using assms(2)
proof
  assume e: "ws_int m f = ws_int n f"
  have v: "v = show_int (ws_int n f)" using assms(1,3) write_int_eq by simp
  have "strtol0 v = (ws_int n f, [])" unfolding v using assms(1) by (intro strtol0_show) (auto simp: in_int32_def abs_if)
  then show ?thesis using e v int32_id [OF assms(1)] assms(1) write_int_eq [of m f] by (simp add: wpa_config_parse_int_def)
next
  assume "in_range mn mx (ws_int n f)"
  then show ?thesis using int_round_trip assms(1,3) by blast
qed

lemma small_tables: "length (spaced (flag_words proto_names val)) < 20" "length (spaced (flag_words auth_alg_table val)) < 30"
  using length_spaced_filter [of proto_names val] length_spaced_filter [of auth_alg_table val]
  by (simp_all add: proto_names_def auth_alg_table_def)

lemma field_round_trip:
  assumes "fits b methods f fn n m" "writer b methods f fn n = Val (Some v)"
  shows "\<exists>r m'. parser b methods f fn v m = (r, m') \<and> 0 \<le> r \<and> writer b methods f fn m' = Val (Some v)"
proof (cases fn)
  case (Fn_str lenf mn mx)
  then show ?thesis using assms str_round_trip [of f lenf n v mn mx m] by (auto split: option.splits)
next
  case (Fn_int mn mx)
  then show ?thesis using assms int_round_trip_same [of n f mn mx m v] by simp
next
  case Fn_proto
  then show ?thesis using assms table_round_trip [OF proto_names_ok _ small_tables(1), of "ws_proto n" v ws_proto "\<lambda>v. m\<lparr>ws_proto := v\<rparr>" m]
    by (fastforce simp: wpa_config_parse_proto_def wpa_config_write_proto_def)
next
  case Fn_auth_alg
  then show ?thesis using assms table_round_trip [OF auth_alg_names_ok _ small_tables(2), of "ws_auth_alg n" v ws_auth_alg "\<lambda>v. m\<lparr>ws_auth_alg := v\<rparr>" m]
    by (fastforce simp: wpa_config_parse_auth_alg_def wpa_config_write_auth_alg_def)
next
  case Fn_key_mgmt
  then show ?thesis using assms table_round_trip [OF key_mgmt_names_ok, of b "ws_key_mgmt n" 100 v ws_key_mgmt "\<lambda>v. m\<lparr>ws_key_mgmt := v\<rparr>" m]
    by (fastforce simp: wpa_config_parse_key_mgmt_def wpa_config_write_key_mgmt_def)
next
  case Fn_pairwise
  then show ?thesis using assms pairwise_round_trip [of n v m] by fastforce
next
  case Fn_group
  then show ?thesis using assms group_round_trip [of n v m] by fastforce
next
  case Fn_psk
  then show ?thesis using assms psk_round_trip [of n m b v] by simp
next
  case Fn_password
  then show ?thesis using assms password_round_trip [of b n v m] by simp
next
  case (Fn_wep_key i)
  then show ?thesis using assms wep_round_trip [of i n m v] by simp
next
  case Fn_bssid
  then show ?thesis using assms bssid_round_trip [of n m v] by fastforce
next
  case Fn_go_p2p_dev_addr
  then show ?thesis using assms go_p2p_dev_addr_round_trip [of n m v] by fastforce
next
  case Fn_eap
  then show ?thesis using assms eap_round_trip [of methods n m v] by fastforce
next
  case Fn_bssid_blacklist
  then show ?thesis using assms addr_list_round_trip [of True "ws_bssid_blacklist n" v True] by (simp add: wpa_config_parse_bssid_blacklist_def)
next
  case Fn_bssid_whitelist
  then show ?thesis using assms addr_list_round_trip [of True "ws_bssid_whitelist n" v True] by (simp add: wpa_config_parse_bssid_whitelist_def)
next
  case Fn_p2p_client_list
  then show ?thesis using assms addr_list_round_trip [of False "ws_p2p_client_list n" v False] by (simp add: wpa_config_parse_p2p_client_list_def)
qed (use assms in \<open>auto dest: freqs_round_trip simp: wpa_config_parse_scan_freq_def wpa_config_parse_freq_list_def
  wpa_config_parse_mesh_basic_rates_def\<close>)

lemma fits_reads: "same_part f fn m m' \<Longrightarrow> fits b methods f fn n m = fits b methods f fn n m'"
  by (cases fn) (simp_all add: psk_ok_def wep_ok_def)

lemma fits_frame:
  assumes "slot_of f fn \<noteq> slot_of g gn" "m' = snd (parser b methods g gn v m)" "fits b methods f fn n m"
  shows "fits b methods f fn n m'"
proof (cases "fn = Fn_bssid \<and> gn = Fn_go_p2p_dev_addr")
  case True
  then show ?thesis using assms(2,3) go_addr_frame(1) [of m' v m] by simp
next
  case False
  then show ?thesis using parser_frame [OF assms(1) _ assms(2)] fits_reads [of f fn m m' b methods n] assms(3) by auto
qed

section \<open>A table of fields\<close>

text \<open>Setting fields one after the other, \<open>None\<close> when one is refused.\<close>

fun load_list :: "('f \<Rightarrow> string \<Rightarrow> 'n \<Rightarrow> int \<times> 'n) \<Rightarrow> 'n \<Rightarrow> ('f \<times> string) list \<Rightarrow> 'n option" where
  "load_list put m [] = Some m"
| "load_list put m ((f, v) # ps) = (case put f v m of (r, m') \<Rightarrow> if r < 0 then None else load_list put m' ps)"

text \<open>
  What a table of fields promises: a text that a field has in one object can be set in another object that it fits,
  and setting one field keeps the texts of the other fields and what fits them.
\<close>

locale field_table =
  fixes fields :: "'f list" and put :: "'f \<Rightarrow> string \<Rightarrow> 'n \<Rightarrow> int \<times> 'n" and text_of :: "'f \<Rightarrow> 'n \<Rightarrow> string option"
    and fit :: "'f \<Rightarrow> 'n \<Rightarrow> 'n \<Rightarrow> bool"
  assumes put_text: "f \<in> set fields \<Longrightarrow> fit f n m \<Longrightarrow> text_of f n = Some v \<Longrightarrow> \<exists>r m'. put f v m = (r, m') \<and> 0 \<le> r \<and> text_of f m' = Some v"
    and text_frame: "f \<in> set fields \<Longrightarrow> g \<in> set fields \<Longrightarrow> f \<noteq> g \<Longrightarrow> text_of f m = Some v \<Longrightarrow> text_of f (snd (put g w m)) = Some v"
    and fit_frame: "f \<in> set fields \<Longrightarrow> g \<in> set fields \<Longrightarrow> f \<noteq> g \<Longrightarrow> fit f n m \<Longrightarrow> fit f n (snd (put g w m))"
begin

lemma load_texts:
  assumes "distinct (map fst ps)" "\<forall>(f, v) \<in> set ps. f \<in> set fields \<and> text_of f n = Some v \<and> fit f n m"
  shows "\<exists>m'. load_list put m ps = Some m' \<and> (\<forall>(f, v) \<in> set ps. text_of f m' = Some v) \<and>
    (\<forall>g \<in> set fields. \<forall>v. g \<notin> fst ` set ps \<longrightarrow> text_of g m = Some v \<longrightarrow> text_of g m' = Some v)"
  using assms
proof (induction ps arbitrary: m)
  case (Cons p ps)
  obtain f v where p: "p = (f, v)" by (cases p)
  have f: "f \<in> set fields" "text_of f n = Some v" "fit f n m" "f \<notin> fst ` set ps" using Cons.prems p by auto
  obtain r m1 where m1: "put f v m = (r, m1)" "0 \<le> r" "text_of f m1 = Some v" using put_text [OF f(1,3,2)] by blast
  have s: "m1 = snd (put f v m)" using m1(1) by simp
  have fit: "\<forall>(g, u) \<in> set ps. g \<in> set fields \<and> text_of g n = Some u \<and> fit g n m1"
    using Cons.prems(2) f(1,4) fit_frame [of _ f] unfolding s p by (fastforce simp: image_iff)
  have "distinct (map fst ps)" using Cons.prems(1) by simp
  from Cons.IH [OF this fit] obtain m' where m': "load_list put m1 ps = Some m'" "\<forall>(g, u) \<in> set ps. text_of g m' = Some u"
      "\<forall>g \<in> set fields. \<forall>u. g \<notin> fst ` set ps \<longrightarrow> text_of g m1 = Some u \<longrightarrow> text_of g m' = Some u" by blast
  have "text_of f m' = Some v" using m'(3) f(1,4) m1(3) by blast
  moreover have "text_of g m' = Some u" if "g \<in> set fields" "g \<notin> fst ` set (p # ps)" "text_of g m = Some u" for g u
    using m'(3) that text_frame [OF that(1) f(1) _ that(3), of v] unfolding s p by auto
  ultimately show ?case using m' m1 p by (intro exI [of _ m']) auto
qed simp

end

section \<open>A whole network\<close>

text \<open>The text of a field, if the writer returns one.\<close>

definition field_txt :: "build_opt set \<Rightarrow> eap_methods \<Rightarrow> parse_data \<Rightarrow> wpa_ssid \<Rightarrow> string option" where
  "field_txt b methods d n = (case writer b methods (pd_name d) (pd_fn d) n of Val w \<Rightarrow> w | _ \<Rightarrow> None)"

lemma field_txt_Some: "field_txt b methods d n = Some v \<longleftrightarrow> writer b methods (pd_name d) (pd_fn d) n = Val (Some v)"
  by (cases "writer b methods (pd_name d) (pd_fn d) n") (simp_all add: field_txt_def)

lemma table_slots:
  assumes "d \<in> set (ssid_fields b)" "e \<in> set (ssid_fields b)" "d \<noteq> e"
  shows "slot_of (pd_name d) (pd_fn d) \<noteq> slot_of (pd_name e) (pd_fn e)"
proof (rule slots_differ)
  show "field_named d" "field_named e" using ssid_fields_named [of b] assms(1,2) by (simp_all add: list_all_iff)
  show "pd_name d \<noteq> pd_name e" using find_field_in [OF assms(1)] find_field_in [OF assms(2)] assms(3) by auto
qed

interpretation ssid_table: field_table "ssid_fields b" "\<lambda>d. parser b methods (pd_name d) (pd_fn d)" "field_txt b methods"
  "\<lambda>d. fits b methods (pd_name d) (pd_fn d)" for b methods
proof unfold_locales
  fix d n m v
  assume "fits b methods (pd_name d) (pd_fn d) n m" "field_txt b methods d n = Some v"
  then show "\<exists>r m'. parser b methods (pd_name d) (pd_fn d) v m = (r, m') \<and> 0 \<le> r \<and> field_txt b methods d m' = Some v"
    using field_round_trip [of b methods "pd_name d" "pd_fn d" n m v] by (simp add: field_txt_Some)
next
  fix d e m v w
  assume "d \<in> set (ssid_fields b)" "e \<in> set (ssid_fields b)" "d \<noteq> e" "field_txt b methods d m = Some v"
  then show "field_txt b methods d (snd (parser b methods (pd_name e) (pd_fn e) w m)) = Some v"
    using writer_frame [OF table_slots, of d b e] by (simp add: field_txt_Some)
next
  fix d e n m w
  assume "d \<in> set (ssid_fields b)" "e \<in> set (ssid_fields b)" "d \<noteq> e" "fits b methods (pd_name d) (pd_fn d) n m"
  then show "fits b methods (pd_name d) (pd_fn d) n (snd (parser b methods (pd_name e) (pd_fn e) w m))"
    using fits_frame [OF table_slots, of d b e] by simp
qed

text \<open>Setting the fields of a network one after the other, \<open>None\<close> when one is refused.\<close>

fun load_props :: "build_opt set \<Rightarrow> eap_methods \<Rightarrow> wpa_ssid \<Rightarrow> (string \<times> string) list \<Rightarrow> wpa_ssid option" where
  "load_props b methods m [] = Some m"
| "load_props b methods m ((var, v) # ps) =
     (case wpa_config_set b methods m var v of (r, m') \<Rightarrow> if r < 0 then None else load_props b methods m' ps)"

lemma load_props_list:
  assumes "\<forall>(d, v) \<in> set ps. d \<in> set (ssid_fields b)"
  shows "load_props b methods m (map (\<lambda>(d, v). (pd_name d, v)) ps) = load_list (\<lambda>d. parser b methods (pd_name d) (pd_fn d)) m ps"
  using assms
proof (induction ps arbitrary: m)
  case (Cons p ps)
  obtain d v where p: "p = (d, v)" by (cases p)
  obtain r m' where r: "parser b methods (pd_name d) (pd_fn d) v m = (r, m')" by fastforce
  then have "wpa_config_set b methods m (pd_name d) v = (if r < 0 then -1 else r, m')"
    using find_field_in [of d b] Cons.prems p by (simp add: wpa_config_set_def)
  then show ?case using Cons p r by auto
qed simp

text \<open>The fields that \<^verbatim>\<open>wpa_config_get_all\<close> returns.\<close>

lemma get_all_fields:
  assumes "get_all_loop b methods n True ds = Val props" "distinct ds"
  shows "\<exists>ps. props = map (\<lambda>(d, v). (pd_name d, v)) ps \<and> distinct (map fst ps) \<and> (\<forall>(d, v) \<in> set ps. d \<in> set ds \<and> field_txt b methods d n = Some v)"
  using assms
proof (induction ds arbitrary: props)
  case (Cons d ds)
  obtain w ps where w: "writer b methods (pd_name d) (pd_fn d) n = Val w" "get_all_loop b methods n True ds = Val ps"
      "props = (case w of None \<Rightarrow> ps | Some [] \<Rightarrow> ps | Some v \<Rightarrow> (pd_name d, v) # ps)"
    using Cons.prems(1) by (auto simp: outcome_simps)
  obtain qs where qs: "ps = map (\<lambda>(d, v). (pd_name d, v)) qs" "distinct (map fst qs)" "\<forall>(d, v) \<in> set qs. d \<in> set ds \<and> field_txt b methods d n = Some v"
    using Cons.IH [OF w(2)] Cons.prems(2) by auto
  have d: "d \<notin> fst ` set qs" using qs(3) Cons.prems(2) by auto
  show ?case
  proof (cases "w = None \<or> w = Some []")
    case True
    then show ?thesis using w(3) qs by (intro exI [of _ qs]) auto
  next
    case False
    then obtain v where v: "w = Some v" "props = (pd_name d, v) # ps" using w(3) by (cases w) (auto split: list.splits)
    then show ?thesis using w(1) qs d by (intro exI [of _ "(d, v) # qs"]) (auto simp: field_txt_def)
  qed
qed simp


definition reload_demo :: wpa_ssid where
  "reload_demo = (wpa_config_set_network_defaults {} (zero_ssid 0))
     \<lparr>ws_str := (\<lambda>_. None)(''ssid'' := Some ''net''), ws_passphrase := Some ''secret pass'', ws_scan_freq := [2412, 5180],
      ws_bssid := map char_of [2 :: nat, 0, 0, 0, 0, 1], ws_bssid_set := True, ws_export_keys := True\<rparr>"

lemma get_all_safe: "(\<And>i. wep_ok i n) \<Longrightarrow> \<exists>props. get_all_loop b methods n ks ds = Val props"
proof (induction ds)
  case (Cons d ds)
  have "\<not> length (ws_wep_key n i) < ws_wep_key_len n i" for i using Cons.prems [of i] by (simp add: wep_ok_def)
  then have "\<exists>w. writer b methods (pd_name d) (pd_fn d) n = Val w"
    by (cases "pd_fn d") (simp_all add: wpa_config_write_wep_key_def Let_def)
  with Cons show ?case by auto
qed simp

definition reload_target :: wpa_ssid where
  "reload_target = wpa_config_set_network_defaults {} (zero_ssid 1)"

lemma reload_demo_parts:
  "ws_str reload_demo = (\<lambda>_. None)(''ssid'' := Some ''net'')" "ws_passphrase reload_demo = Some ''secret pass''"
  "ws_scan_freq reload_demo = [2412, 5180]" "ws_freq_list reload_demo = []" "ws_bssid_blacklist reload_demo = []" "ws_bssid_whitelist reload_demo = []"
  "length (ws_bssid reload_demo) = ETH_ALEN" "length (ws_bssid reload_target) = ETH_ALEN" "ws_export_keys reload_demo"
  "length (ws_psk reload_demo) = PMK_LEN" "length (ws_psk reload_target) = PMK_LEN" "ws_passphrase reload_target = None" "ws_ext_psk reload_target = None"
  "ws_auth_alg reload_demo = 0" "wep_ok i reload_demo" "wep_ok i reload_target"
  "ws_int reload_demo = ws_int reload_target"
  by (simp_all add: reload_demo_def reload_target_def wpa_config_set_network_defaults_def zero_ssid_def wep_ok_def ETH_ALEN_def)

lemma reload_demo_flags: "ws_proto reload_demo = 3" "ws_key_mgmt reload_demo = 3" "ws_pairwise_cipher reload_demo = 24" "ws_group_cipher reload_demo = 24"
  by (simp_all add: reload_demo_def wpa_config_set_network_defaults_def mask_of_def BIT_def)

lemma reload_demo_ints: "in_int32 (ws_int reload_target f)"
  by (simp add: reload_target_def wpa_config_set_network_defaults_def zero_ssid_def set_ints_def opt_ints_def in_int32_def)

lemma reload_demo_fits: "\<forall>d \<in> set (ssid_fields {}). fits {} [] (pd_name d) (pd_fn d) reload_demo reload_target"
proof -
  have "flags_within proto_names 3" "flags_within (key_mgmt_table {}) 3" "length (spaced (flag_words (key_mgmt_table {}) 3)) < 100"
    "flags_within cipher_names 24" "\<not> bit (24::int) 0" "flags_within auth_alg_table 0" "\<not> has_ctrl_char ''secret pass''" by code_simp+
  then have "list_all (\<lambda>d. fits {} [] (pd_name d) (pd_fn d) reload_demo reload_target) (ssid_fields {})"
    by (simp add: ssid_fields_def opt_fields_def field_defs reload_demo_parts reload_demo_flags reload_demo_ints psk_ok_def freq_ok_def
      len_ok_def stored_text_def)
  then show ?thesis by (simp add: list_all_iff)
qed


text \<open>
  The condition on the WEP keys in \<open>fits\<close> is needed: a key that is too long is refused, its length is kept, and writing the field
  then reads behind the key.
\<close>

lemma long_wep_key_read:
  "wpa_config_parse_string v = Some k \<Longrightarrow> MAX_WEP_KEY_LEN < length k \<Longrightarrow> length (ws_wep_key m i) = MAX_WEP_KEY_LEN \<Longrightarrow>
    \<exists>m1. wpa_config_parse_wep_key i v m = (-1, m1) \<and> wpa_config_write_wep_key i m1 = Undef Oob_read"
  by (auto simp: wpa_config_parse_wep_key_def wpa_config_write_wep_key_def Let_def)

section \<open>Setting and reading through commands\<close>

lemma field_names_plain: "list_all (\<lambda>d. CHR '' '' \<notin> set (pd_name d)) (ssid_fields b)"
  by (simp add: ssid_fields_def list_all_opt field_defs)

lemma psk_field_keyed: "list_all (\<lambda>d. key_data d \<or> pd_name d \<noteq> ''psk'' \<and> pd_fn d \<noteq> Fn_psk) (ssid_fields b)"
  by (simp add: ssid_fields_def list_all_opt field_defs)

lemma cut_blank_app: "CHR '' '' \<notin> set a \<Longrightarrow> cut_blank (a @ CHR '' '' # r) = Some (a, r)"
  by (simp add: cut_blank_def strchr_skip(1))

lemma show_int_no_blank: "CHR '' '' \<notin> set (show_int i)"
  using show_nat_digits [of "CHR '' ''"] by (auto simp: show_int_def c_isdigit_def)

lemma atoi32_show: "in_int32 i \<Longrightarrow> atoi32 (show_int i) = i"
  using int32_id [of i] by (simp add: atoi32_def atoi_show_int in_int32_def)

lemma get_after_put: "wpa_config_get_network c i = Some s \<Longrightarrow> ws_id s' = i \<Longrightarrow> wpa_config_get_network (put_network s' c) i = Some s'"
proof -
  assume a: "wpa_config_get_network c i = Some s" "ws_id s' = i"
  have "find (\<lambda>x. ws_id x = i) (map (\<lambda>x. if ws_id x = ws_id s' then s' else x) ss) = Some s'" if "find (\<lambda>x. ws_id x = i) ss = Some s" for ss
    using that a(2) by (induction ss) (auto split: if_splits)
  with a(1) show ?thesis by (simp add: wpa_config_get_network_def put_network_def)
qed

text \<open>What a command that sets a field does to the network.\<close>

lemma update_network_result:
  assumes "wpa_config_get_network c i = Some m" "wpa_config_set b methods m name v = (r, m1)" "0 \<le> r" "name \<noteq> ''psk''"
  shows "\<exists>c' cs' m'. wpa_supplicant_ctrl_iface_update_network b methods pb ops m name v (c, cs) = Val (0, c', cs') \<and>
    wpa_config_get_network c' i = Some m' \<and> (m' = m1 \<or> wpa_config_update_psk b pb m1 = Val m')"
proof -
  have id: "ws_id m1 = i" using config_set_id [OF assms(2)] get_network_in [OF assms(1)] by simp
  note g1 = get_after_put [OF assms(1) id]
  have g2: "wpa_config_get_network (put_network m2 (put_network m1 c)) i = Some m2" if "wpa_config_update_psk b pb m1 = Val m2" for m2
    using get_after_put [OF g1] update_psk_same [OF that] id by simp
  have p: "\<exists>m2. wpa_config_update_psk b pb m1 = Val m2" if "ws_passphrase m1 \<noteq> None" using that by (auto simp: wpa_config_update_psk_def Let_def)
  have u: "wpa_config_get_network (wpa_config_update_prio_list x) i = wpa_config_get_network x i" for x
    by (simp add: wpa_config_get_network_def wpa_config_update_prio_list_def)
  show ?thesis using assms(2-4) g1 g2 p u
    by (auto simp: wpa_supplicant_ctrl_iface_update_network_def Let_def outcome_simps)
qed

lemma update_psk_keeps: "wpa_config_update_psk b pb m = Val m' \<Longrightarrow> fn \<noteq> Fn_psk \<Longrightarrow> same_part f fn m m'"
  by (cases fn) (auto simp: wpa_config_update_psk_def Let_def split: if_splits option.splits)


definition reload_conf :: wpa_config where
  "reload_conf = \<lparr>wc_ssid = [reload_target], wc_pssid = [(0, [1])]\<rparr>"

lemma reload_conf_net: "wpa_config_get_network reload_conf 1 = Some reload_target"
  by (simp add: reload_conf_def wpa_config_get_network_def reload_target_def wpa_config_set_network_defaults_def zero_ssid_def)


end
