(* ===== verification/Net_Client.thy ===== *)
theory Net_Client
  imports Net_Keys Ctrl_Iface Cli_Lists
begin

text \<open>
  The library and the daemon together: what a client of the control socket learns about the networks is what the daemon
  has stored. The commands reach the daemon through its socket, \<open>process\<close> is the processing of the commands.
\<close>

section \<open>The listing\<close>

lemma print_parts_Some: "print_parts room ps = Some t \<Longrightarrow> t = concat ps \<and> (ps \<noteq> [] \<longrightarrow> length t < room)"
proof (induction ps arbitrary: room t)
  case (Cons p ps)
  then have f: "length p < room" by (auto simp: os_snprintf_def os_snprintf_error_def split: if_splits)
  then obtain u where u: "print_parts (room - length p) ps = Some u" "t = p @ u"
    using Cons.prems by (auto simp: snprintf_fits os_snprintf_error_def)
  with Cons.IH [OF u(1)] f show ?case by auto
qed simp

lemma print_parts_fits: "length (concat ps) < room \<Longrightarrow> print_parts room ps = Some (concat ps)"
  by (induction ps arbitrary: room) (auto simp: snprintf_fits os_snprintf_error_def)

lemma hexdig_no_NL: "n < 16 \<Longrightarrow> NL \<noteq> hexdig n \<and> NUL \<noteq> hexdig n"
  using hex2num_hexdig [of n] by (auto simp: hex2num_def dest: sym)

lemma encode_byte_no_NL: "NL \<notin> set (encode_byte d)"
proof -
  have h: "of_char d div 16 < (16::nat)" "of_char d mod 16 < (16::nat)" using less_mult_imp_div_less [of "of_char d" 16 16] by simp_all
  then have "NL \<noteq> hexdig (of_char d div 16)" "NL \<noteq> hexdig (of_char d mod 16)" using hexdig_no_NL by blast+
  then show ?thesis by (auto simp: encode_byte_def hex02_def)
qed

lemma encode_loop_chars: "c \<in> set (printf_encode_loop mx pos data) \<Longrightarrow> c \<noteq> NL \<and> c \<noteq> NUL"
proof (induction mx pos data rule: printf_encode_loop.induct)
  case (2 maxlen pos d data)
  then show ?case using encode_byte_no_NL [of d] encode_byte_no_nul [of d] by (auto simp: no_nul_def split: if_splits)
qed simp

lemma ssid_txt_ok: "\<exists>t. wpa_ssid_txt x = Val t \<and> NL \<notin> set t \<and> no_nul t"
proof (cases x)
  case (Some s)
  let ?e = "printf_encode_loop (SSID_MAX_LEN * 4 + 1) 0 s"
  have l: "length ?e < SSID_MAX_LEN * 4 + 1" using printf_encode_fits [of 0 "SSID_MAX_LEN * 4 + 1" s] by simp
  have n: "no_nul ?e" "NL \<notin> set ?e" using encode_loop_chars by (auto simp: no_nul_def)
  have "cstr_of (cstrwrite (replicate (SSID_MAX_LEN * 4 + 1) NUL) ?e) = ?e" using n(1) by simp
  then show ?thesis using Some l n by (simp add: wpa_ssid_txt_def printf_encode_def Let_def)
qed (simp add: wpa_ssid_txt_def)

text \<open>The row of a network without its line end.\<close>

definition row_text :: "int option \<Rightarrow> wpa_ssid \<Rightarrow> string" where
  "row_text cur s =
     (case wpa_ssid_txt (ws_str s ''ssid'') of
        Val t \<Rightarrow> show_int (ws_id s) @ [TAB] @ t @ [TAB] @ (if ws_bssid_set s then MACSTR (ws_bssid s) else ''any'') @ [TAB] @ network_flags cur s
      | _ \<Rightarrow> [])"

lemma row_parts: "wpa_ssid_txt (ws_str s ''ssid'') = Val t \<Longrightarrow> concat (network_row cur s t) = row_text cur s @ [NL]"
  by (simp add: network_row_def row_text_def)

lemma macstr_no_NL: "NL \<notin> set (macstr_loop a)" "NUL \<notin> set (macstr_loop a)"
proof -
  have h: "of_char b div 16 < (16::nat)" "of_char b mod 16 < (16::nat)" for b using less_mult_imp_div_less [of "of_char b" 16 16] by simp_all
  have d: "NL \<notin> set (hex02 (of_char b)) \<and> NUL \<notin> set (hex02 (of_char b))" for b using hexdig_no_NL [OF h(1)] hexdig_no_NL [OF h(2)] by (simp add: hex02_def)
  show "NL \<notin> set (macstr_loop a)" "NUL \<notin> set (macstr_loop a)" by (induction a rule: macstr_loop.induct) (simp_all add: d)
qed

lemma row_chars: "NL \<notin> set (row_text cur s)" "no_nul (row_text cur s)" "takeWhile (\<lambda>x. x \<noteq> TAB) (row_text cur s) = show_int (ws_id s)"
proof -
  obtain t where t: "wpa_ssid_txt (ws_str s ''ssid'') = Val t" "NL \<notin> set t" "no_nul t" using ssid_txt_ok by blast
  have f: "NL \<notin> set (network_flags cur s)" "no_nul (network_flags cur s)" by (auto simp: network_flags_def)
  have i: "NL \<notin> set (show_int (ws_id s))" "no_nul (show_int (ws_id s))" "TAB \<notin> set (show_int (ws_id s))"
    using show_int_chars [of _ "ws_id s"] by (auto simp: no_nul_def)
  have m: "NL \<notin> set (MACSTR a)" "no_nul (MACSTR a)" for a using macstr_no_NL by (auto simp: MACSTR_def no_nul_def)
  have r: "row_text cur s = show_int (ws_id s) @ TAB # t @ [TAB] @ (if ws_bssid_set s then MACSTR (ws_bssid s) else ''any'') @ [TAB] @ network_flags cur s"
    using t(1) by (simp add: row_text_def)
  show "NL \<notin> set (row_text cur s)" "no_nul (row_text cur s)" unfolding r using t f i m by auto
  show "takeWhile (\<lambda>x. x \<noteq> TAB) (row_text cur s) = show_int (ws_id s)" unfolding r using i(3) by (auto simp: takeWhile_append)
qed

text \<open>The listing is made of the rows that fit.\<close>

lemma list_loop_rows:
  "\<exists>k \<le> length ss. list_loop cur room ss = Val (lns (map (row_text cur) (take k ss))) \<and> (length (lns (map (row_text cur) (take k ss))) < room \<or> k = 0) \<and>
    (length (lns (map (row_text cur) ss)) < room \<longrightarrow> k = length ss)"
proof (induction ss arbitrary: room)
  case (Cons s ss)
  obtain t where t: "wpa_ssid_txt (ws_str s ''ssid'') = Val t" using ssid_txt_ok by blast
  let ?r = "row_text cur s @ [NL]"
  show ?case
  proof (cases "print_parts room (network_row cur s t)")
    case None
    then have "\<not> length ?r < room" using print_parts_fits [of "network_row cur s t" room] row_parts [OF t, of cur] by auto
    then show ?thesis using t None by (intro exI [of _ 0]) (auto simp: lns_def)
  next
    case (Some u)
    have "network_row cur s t \<noteq> []" by (simp add: network_row_def)
    then have u: "u = ?r" "length ?r < room" using print_parts_Some [OF Some] row_parts [OF t, of cur] by auto
    obtain k where k: "k \<le> length ss" "list_loop cur (room - length u) ss = Val (lns (map (row_text cur) (take k ss)))"
        "length (lns (map (row_text cur) (take k ss))) < room - length u \<or> k = 0"
        "length (lns (map (row_text cur) ss)) < room - length u \<longrightarrow> k = length ss" using Cons.IH by blast
    show ?thesis using t Some u k by (intro exI [of _ "Suc k"]) (auto simp: lns_def)
  qed
qed (simp add: lns_def)

section \<open>Listing through the socket\<close>

text \<open>The daemon processes the commands on networks as modelled.\<close>

definition serves_networks :: "build_opt set \<Rightarrow> eap_methods \<Rightarrow> kdf \<Rightarrow> conn_ops \<Rightarrow> (supplicant \<Rightarrow> string \<Rightarrow> reply \<times> supplicant) \<Rightarrow> bool" where
  "serves_networks b methods pb ops process \<longleftrightarrow>
     (\<forall>w buf t w'. network_command b methods pb ops buf w = Some (Val (t, w')) \<longrightarrow> process w buf = (Reply t, w'))"

lemma list_command_reply:
  "\<exists>k \<le> length (wc_ssid cf). network_command b methods pb ops ''LIST_NETWORKS'' (cf, cs) =
      Some (Val (lns (list_header # map (row_text (cs_current cs)) (take k (wc_ssid cf))), (cf, cs))) \<and>
    length (lns (list_header # map (row_text (cs_current cs)) (take k (wc_ssid cf)))) < 4096 \<and>
    (length (lns (list_header # map (row_text (cs_current cs)) (wc_ssid cf))) < 4096 \<longrightarrow> k = length (wc_ssid cf))"
proof -
  let ?h = "list_header @ [NL]" and ?rows = "\<lambda>k. map (row_text (cs_current cs)) (take k (wc_ssid cf))"
  have h: "length ?h = 34" by (simp add: list_header_def)
  have l: "lns (list_header # rs) = ?h @ lns rs" "length (lns (list_header # rs)) = 34 + length (lns rs)" for rs
    using h by (simp_all add: lns_def)
  obtain k where k: "k \<le> length (wc_ssid cf)" "list_loop (cs_current cs) (4096 - 34) (wc_ssid cf) = Val (lns (?rows k))"
      "length (lns (?rows k)) < 4096 - 34 \<or> k = 0"
      "length (lns (map (row_text (cs_current cs)) (wc_ssid cf))) < 4096 - 34 \<longrightarrow> k = length (wc_ssid cf)"
    using list_loop_rows [of "wc_ssid cf" "cs_current cs" "4096 - 34"] by blast
  have "wpa_supplicant_ctrl_iface_list_networks None 4096 (cf, cs) = Val (lns (list_header # ?rows k))"
    using k(2) h snprintf_fits [of ?h 4096] unfolding l(1)
    by (simp add: wpa_supplicant_ctrl_iface_list_networks_def listed_from_def os_snprintf_error_def)
  then have c: "network_command b methods pb ops ''LIST_NETWORKS'' (cf, cs) = Some (Val (lns (list_header # ?rows k), (cf, cs)))"
    by (simp add: network_command_def str_starts_def REPLY_SIZE_def)
  have "length (lns (?rows k)) < 4096 - 34" using k(3) by (auto simp: lns_def)
  then show ?thesis using k(1,4) c l(2) by (intro exI [of _ k]) auto
qed

lemma daemon_command:
  assumes "daemon_after groups process notify path s reqs = (p, d, os)" "send_results os = []" "process d cmd = (Reply t, d')"
    and "cmd \<noteq> ''ATTACH''" "cmd \<noteq> ''DETACH''" "\<not> str_starts cmd ''LEVEL ''" "no_nul cmd" "length cmd < 4096"
  shows "daemon_after groups process notify path s (reqs @ [(fd, cmd)]) = (p, d', os\<lparr>wire := wire os @ [(ci_sock p, Sun (path fd), t)]\<rparr>)"
proof -
  have c: "cstr_of (take 4095 cmd) = cmd" using assms(7,8) by simp
  show ?thesis unfolding daemon_after_snoc assms(1)
    using assms(3-6) by (simp add: daemon_request_def wpa_supplicant_ctrl_iface_receive_def c iface_command_def reply_text_def sock_sendto_ok [OF assms(2)])
qed

text \<open>
  C14: the list of networks of a client is the list of the daemon: when an interactive client refreshes its list of networks through the control
  socket, the request succeeds, whatever the daemon has stored, and the list then holds exactly the ids of the first networks of
  the configuration, each once: as many as fit into the reply, and all of them when the whole listing is shorter than 4096 bytes.
\<close>

theorem client_lists_networks:
  fixes st :: cli
  assumes "serves_networks b methods pb ops process" "peer st = daemon_peer groups process notify path fd_of s" "fd_of (Sun (path (sock c))) = sock c"
    and "send_script st = []" "inbox st (sock c) = []" "daemon_after groups process notify path s (sent st) = (p, (cf, cs), os)" "send_results os = []"
  shows "\<exists>k st'. update_networks (Some c) st = Val st' \<and> distinct (networks st') \<and>
    set (networks st') = (\<lambda>n. show_int (ws_id n)) ` set (take k (wc_ssid cf)) \<and>
    (length (lns (list_header # map (row_text (cs_current cs)) (wc_ssid cf))) < 4096 \<longrightarrow> k = length (wc_ssid cf))"
proof -
  obtain k where k: "network_command b methods pb ops ''LIST_NETWORKS'' (cf, cs) =
        Some (Val (lns (list_header # map (row_text (cs_current cs)) (take k (wc_ssid cf))), (cf, cs)))"
      "length (lns (list_header # map (row_text (cs_current cs)) (take k (wc_ssid cf)))) < 4096"
      "length (lns (list_header # map (row_text (cs_current cs)) (wc_ssid cf))) < 4096 \<longrightarrow> k = length (wc_ssid cf)"
    using list_command_reply by blast
  let ?rows = "map (row_text (cs_current cs)) (take k (wc_ssid cf))"
  have pr: "process (cf, cs) ''LIST_NETWORKS'' = (Reply (lns (list_header # ?rows)), (cf, cs))" using assms(1) k(1) by (simp add: serves_networks_def)
  note d = daemon_command [OF assms(6,7) pr, of "sock c"]
  have "daemon_after groups process notify path s (sent st @ [(sock c, ''LIST_NETWORKS'')]) =
      (p, (cf, cs), os\<lparr>wire := wire os @ [(ci_sock p, Sun (path (sock c)), lns (list_header # ?rows))]\<rparr>)"
    using d by (simp add: str_starts_def)
  then have "peer st (sent st @ [(sock c, ''LIST_NETWORKS'')]) = [(sock c, Data (lns (list_header # ?rows)))]"
    using assms(3,6) unfolding assms(2) daemon_peer_def by (simp add: Let_def)
  then have a: "arrivals (sock c) ''LIST_NETWORKS'' st = [Data (lns (list_header # ?rows))]" using assms(5) by (simp add: arrivals_def deliver_def)
  have chars: "\<forall>l \<in> set (list_header # ?rows). NL \<notin> set l \<and> no_nul l" using row_chars by (auto simp: list_header_def)
  have hd: "hd (list_header @ [NL]) \<noteq> CHR ''<''" by (simp add: list_header_def)
  from update_networks_mirrors_reply [OF assms(4) a chars k(2) hd] obtain st' where st': "update_networks (Some c) st = Val st'" "distinct (networks st')"
      "set (networks st') = (takeWhile (\<lambda>x. x \<noteq> TAB)) ` set ?rows" by blast
  have "(takeWhile (\<lambda>x. x \<noteq> TAB)) ` set ?rows = (\<lambda>n. show_int (ws_id n)) ` set (take k (wc_ssid cf))"
    by (simp add: image_image row_chars(3))
  with st' k(3) show ?thesis by auto
qed

definition demo_process :: "supplicant \<Rightarrow> string \<Rightarrow> reply \<times> supplicant" where
  "demo_process w buf = (case network_command {} [] (\<lambda>p s i n. []) idle_ops buf w of Some (Val (t, w')) \<Rightarrow> (Reply t, w') | _ \<Rightarrow> (No_reply 0, w))"

theorem client_lists_networks_witness:
  "(let s = (demo_iface, (keyed ''first secret'', idle_conn), demo_ctrl_os);
        st = demo_connected (daemon_peer demo_groups demo_process id (\<lambda>fd. ''/tmp/c'') (\<lambda>a. 3) s)
    in \<exists>st'. update_networks (Some demo_ctrl) st = Val st' \<and> set (networks st') = {''0''})"
proof -
  let ?s = "(demo_iface, (keyed ''first secret'', idle_conn), demo_ctrl_os)"
  let ?st = "demo_connected (daemon_peer demo_groups demo_process id (\<lambda>fd. ''/tmp/c'') (\<lambda>a. 3) ?s)"
  have sv: "serves_networks {} [] (\<lambda>p s i n. []) idle_ops demo_process" by (simp add: serves_networks_def demo_process_def)
  have h: "peer ?st = daemon_peer demo_groups demo_process id (\<lambda>fd. ''/tmp/c'') (\<lambda>a. 3) ?s" "3 = sock demo_ctrl" "send_script ?st = []"
    "inbox ?st (sock demo_ctrl) = []" "daemon_after demo_groups demo_process id (\<lambda>fd. ''/tmp/c'') ?s (sent ?st) = ?s" "send_results demo_ctrl_os = []"
    by (simp_all add: demo_connected_def demo_cli_def demo_ctrl_def demo_ctrl_os_def daemon_after_def)
  have l: "length (lns (list_header # map (row_text (cs_current idle_conn)) (wc_ssid (keyed ''first secret'')))) < 4096"
    by (simp add: lns_def list_header_def row_text_def keyed_def zero_ssid_def wpa_ssid_txt_def network_flags_def disabled_def show_int_def show_nat.simps idle_conn_def)
  have z: "show_nat 0 = ''0''" by code_simp
  have i: "(\<lambda>n. show_int (ws_id n)) ` set (take (length (wc_ssid (keyed ''first secret''))) (wc_ssid (keyed ''first secret''))) = {''0''}"
    using z by (simp add: keyed_def zero_ssid_def show_int_def)
  obtain k st' where "update_networks (Some demo_ctrl) ?st = Val st'" "set (networks st') = (\<lambda>n. show_int (ws_id n)) ` set (take k (wc_ssid (keyed ''first secret'')))"
      "length (lns (list_header # map (row_text (cs_current idle_conn)) (wc_ssid (keyed ''first secret'')))) < 4096 \<longrightarrow> k = length (wc_ssid (keyed ''first secret''))"
    using client_lists_networks [OF sv h(1-6)] by blast
  with l i show ?thesis unfolding Let_def by auto
qed

end
