(* ===== verification/Base64.thy ===== *)
theory Base64
  imports Wpa_Prelude "HOL-Library.Word"
begin

text \<open>
  \<^verbatim>\<open>src/utils/base64.c\<close>: encoding of bytes as text of lines of 72 characters, and decoding, which ignores every character
  that is not in the table. Sizes are numbers of 64 bits. Memory allocation succeeds.
\<close>

unbundle bit_operations_syntax

type_synonym u8w = "8 word"

definition byte_of :: "char \<Rightarrow> u8w" where "byte_of c = of_char c"
definition char_of_byte :: "u8w \<Rightarrow> char" where "char_of_byte w = char_of (unat w)"

definition base64_table :: string where
  "base64_table = ''ABCDEFGHIJKLMNOPQRSTUVWXYZabcdefghijklmnopqrstuvwxyz0123456789+/''"

definition b64_char :: "u8w \<Rightarrow> char" where
  "b64_char w = base64_table ! unat (w AND 0x3f)"

fun encode_loop :: "nat \<Rightarrow> u8w list \<Rightarrow> string" where
  "encode_loop line_len [] = (if line_len \<noteq> 0 then [NL] else [])"
| "encode_loop line_len [a] = [b64_char (drop_bit 2 a), b64_char (push_bit 4 (a AND 0x03)), CHR ''='', CHR ''='', NL]"
| "encode_loop line_len [a, b] =
     [b64_char (drop_bit 2 a), b64_char (push_bit 4 (a AND 0x03) OR drop_bit 4 b), b64_char (push_bit 2 (b AND 0x0f)), CHR ''='', NL]"
| "encode_loop line_len (a # b # c # r) =
     [b64_char (drop_bit 2 a), b64_char (push_bit 4 (a AND 0x03) OR drop_bit 4 b),
      b64_char (push_bit 2 (b AND 0x0f) OR drop_bit 6 c), b64_char c] @
     (if 72 \<le> line_len + 4 then NL # encode_loop 0 r else encode_loop (line_len + 4) r)"

text \<open>The size of the buffer; the text and its terminator must fit.\<close>

definition encode_size :: "nat \<Rightarrow> nat" where
  "encode_size len =
     (let olen = (len * 4 mod 2 ^ 64 div 3 + 4) mod 2 ^ 64; olen = (olen + olen div 72) mod 2 ^ 64 in (olen + 1) mod 2 ^ 64)"

definition base64_encode :: "char list \<Rightarrow> string option outcome" where
  "base64_encode src =
     (let olen = encode_size (length src); t = encode_loop 0 (map byte_of src)
      in if olen < length src then Val None
         else if olen < length t + 1 then Undef Oob_write
         else Val (Some t))"

section \<open>Decoding\<close>

fun index_of :: "char \<Rightarrow> string \<Rightarrow> nat option" where
  "index_of c [] = None"
| "index_of c (d # ds) = (if c = d then Some 0 else map_option Suc (index_of c ds))"

definition dtable :: "char \<Rightarrow> u8w" where
  "dtable c = (if c = CHR ''='' then 0 else case index_of c base64_table of Some i \<Rightarrow> of_nat i | None \<Rightarrow> 0x80)"

text \<open>
  The loop over the characters: \<open>block\<close> holds those of the current group, \<open>pad\<close> counts the equals signs, \<open>out\<close> is what has been
  written. The loop ends after a group with padding.
\<close>

fun decode_loop :: "string \<Rightarrow> u8w list \<Rightarrow> nat \<Rightarrow> u8w list \<Rightarrow> u8w list option" where
  "decode_loop [] block pad out = Some out"
| "decode_loop (c # cs) block pad out =
     (let tmp = dtable c
      in if tmp = 0x80 then decode_loop cs block pad out
         else
           let pad = (if c = CHR ''='' then pad + 1 else pad); block = block @ [tmp]
           in if length block \<noteq> 4 then decode_loop cs block pad out
              else
                let out = out @ [push_bit 2 (block ! 0) OR drop_bit 4 (block ! 1), push_bit 4 (block ! 1) OR drop_bit 2 (block ! 2),
                                 push_bit 6 (block ! 2) OR block ! 3]
                in if pad = 0 then decode_loop cs [] pad out
                   else if pad = 1 then Some (take (length out - 1) out)
                   else if pad = 2 then Some (take (length out - 2) out)
                   else None)"

definition base64_decode :: "string \<Rightarrow> char list option" where
  "base64_decode src =
     (let count = length (filter (\<lambda>c. dtable c \<noteq> 0x80) src)
      in if count = 0 \<or> count mod 4 \<noteq> 0 then None else map_option (map char_of_byte) (decode_loop src [] 0 []))"

section \<open>The round trip\<close>

lemma table_size: "length base64_table = 64" by (simp add: base64_table_def)

lemma and63_less: "unat (w AND 0x3f :: u8w) < 64"
proof -
  have "w AND 0x3f \<le> (0x3f :: u8w)" by (rule word_and_le1)
  then show ?thesis by (simp add: word_le_nat_alt)
qed

lemma index_of_nth: "distinct ds \<Longrightarrow> i < length ds \<Longrightarrow> index_of (ds ! i) ds = Some i"
proof (induction ds arbitrary: i)
  case (Cons d ds)
  then show ?case by (cases i) (auto simp: nth_eq_iff_index_eq)
qed simp

lemma distinct_table: "distinct base64_table" by (simp add: base64_table_def)

lemma eq_not_in_table: "CHR ''='' \<notin> set base64_table" "NL \<notin> set base64_table" by (simp_all add: base64_table_def)

lemma dtable_char: "dtable (b64_char w) = w AND 0x3f" "b64_char w \<noteq> CHR ''=''"
proof -
  let ?i = "unat (w AND 0x3f)"
  have i: "?i < length base64_table" using and63_less table_size by simp
  then have "base64_table ! ?i \<in> set base64_table" by (rule nth_mem)
  then show n: "b64_char w \<noteq> CHR ''=''" using eq_not_in_table(1) by (auto simp: b64_char_def)
  then show "dtable (b64_char w) = w AND 0x3f"
    using index_of_nth [OF distinct_table i] by (simp add: dtable_def b64_char_def)
qed

lemma and63_80: "w AND 0x3f \<noteq> (0x80 :: u8w)"
  using and63_less [of w] by auto

lemma dtable_marks: "dtable (CHR ''='') = 0" "dtable NL = 0x80"
  by (simp add: dtable_def, simp add: dtable_def base64_table_def)

lemma less_8: "n < 8 \<Longrightarrow> n = 0 \<or> n = 1 \<or> n = 2 \<or> n = 3 \<or> n = 4 \<or> n = 5 \<or> n = 6 \<or> n = (7 :: nat)"
  by arith

lemma byte_bits:
  assumes "bit v 0 = bit w 0" "bit v 1 = bit w 1" "bit v 2 = bit w 2" "bit v 3 = bit w 3"
    "bit v 4 = bit w 4" "bit v 5 = bit w 5" "bit v 6 = bit w 6" "bit v 7 = bit (w :: u8w) 7"
  shows "v = w"
  using assms less_8 by (intro bit_word_eqI) (auto dest!: less_8)

lemma byte_groups:
  fixes a b c :: u8w
  shows "push_bit 2 (drop_bit 2 a AND 0x3f) OR drop_bit 4 ((push_bit 4 (a AND 3) OR drop_bit 4 b) AND 0x3f) = a"
    "push_bit 4 ((push_bit 4 (a AND 3) OR drop_bit 4 b) AND 0x3f) OR drop_bit 2 ((push_bit 2 (b AND 0xf) OR drop_bit 6 c) AND 0x3f) = b"
    "push_bit 6 ((push_bit 2 (b AND 0xf) OR drop_bit 6 c) AND 0x3f) OR (c AND 0x3f) = c"
  subgoal by (rule byte_bits; auto simp: bit_simps simp flip: numeral_2_eq_2 numeral_3_eq_3)
  subgoal by (rule byte_bits; auto simp: bit_simps simp flip: numeral_2_eq_2 numeral_3_eq_3)
  subgoal by (rule byte_bits; auto simp: bit_simps simp flip: numeral_2_eq_2 numeral_3_eq_3)
  done


lemmas tail_groups = byte_groups(1) [of _ 0, simplified] byte_groups(2) [of _ _ 0, simplified]

lemma decode_group:
  "decode_loop (b64_char x # b64_char y # b64_char z # b64_char w # r) [] 0 out =
     decode_loop r [] 0 (out @ [push_bit 2 (x AND 0x3f) OR drop_bit 4 (y AND 0x3f), push_bit 4 (y AND 0x3f) OR drop_bit 2 (z AND 0x3f),
       push_bit 6 (z AND 0x3f) OR (w AND 0x3f)])"
  by (simp add: dtable_char and63_80)

lemma decode_three:
  "decode_loop (b64_char (drop_bit 2 a) # b64_char (push_bit 4 (a AND 3) OR drop_bit 4 b) #
     b64_char (push_bit 2 (b AND 0xf) OR drop_bit 6 c) # b64_char c # r) [] 0 out = decode_loop r [] 0 (out @ [a, b, c])"
  unfolding decode_group byte_groups by (rule refl)

lemma div3_step: "(5 + n) div 3 = Suc (Suc (Suc n) div (3 :: nat))"
  by presburger

lemma b64_decode_encode: "decode_loop (encode_loop line_len bs) [] 0 out = Some (out @ bs)"
proof (induction line_len bs arbitrary: out rule: encode_loop.induct)
  case (1 line_len)
  then show ?case by (simp add: dtable_marks)
next
  case (2 line_len a)
  then show ?case by (simp add: dtable_marks dtable_char and63_80 tail_groups)
next
  case (3 line_len a b)
  then show ?case by (simp add: dtable_marks dtable_char and63_80 tail_groups byte_groups(1))
next
  case (4 line_len a b c r)
  have n: "decode_loop (NL # t) [] 0 out = decode_loop t [] 0 out" for t out by (simp add: dtable_marks)
  show ?case
  proof (cases "72 \<le> line_len + 4")
    case True
    then show ?thesis by (simp only: encode_loop.simps append.simps if_True decode_three n 4(1) append_assoc)
  next
    case False
    then show ?thesis by (simp only: encode_loop.simps append.simps append_Nil if_False decode_three 4(2) [OF False] append_assoc append_Cons)
  qed
qed

lemma decode_skips: "decode_loop (filter (\<lambda>c. dtable c \<noteq> 0x80) s) block pad out = decode_loop s block pad out"
  by (induction s block pad out rule: decode_loop.induct) (simp_all add: Let_def)

lemma decode_filter: "(\<And>c. dtable c \<noteq> 0x80 \<Longrightarrow> P c) \<Longrightarrow> base64_decode (filter P s) = base64_decode s"
proof -
  assume a: "\<And>c. dtable c \<noteq> 0x80 \<Longrightarrow> P c"
  then have f: "filter (\<lambda>c. dtable c \<noteq> 0x80) (filter P s) = filter (\<lambda>c. dtable c \<noteq> 0x80) s" by (auto simp: intro: filter_cong)
  have "decode_loop (filter P s) [] 0 [] = decode_loop s [] 0 []" using decode_skips [of "filter P s"] decode_skips [of s] f by metis
  then show ?thesis unfolding base64_decode_def f by simp
qed

lemma encode_count: "length (filter (\<lambda>c. dtable c \<noteq> 0x80) (encode_loop line_len bs)) = 4 * ((length bs + 2) div 3)"
  by (induction line_len bs rule: encode_loop.induct) (simp_all add: dtable_marks dtable_char and63_80 div3_step)

lemma encode_length: "4 dvd line_len \<Longrightarrow> line_len < 72 \<Longrightarrow>
  length (encode_loop line_len bs) = 4 * ((length bs + 2) div 3) + (line_len + 4 * ((length bs + 2) div 3) + 71) div 72"
proof (induction line_len bs rule: encode_loop.induct)
  case (4 line_len a b c r)
  obtain k where k: "line_len = 4 * k" using 4(3) by blast
  show ?case
  proof (cases "72 \<le> line_len + 4")
    case True
    then have l: "line_len = 68" using 4(4) k by arith
    show ?thesis using 4(1) True by (simp add: l div3_step)
  next
    case False
    have c: "line_len + 4 * ((length (a # b # c # r) + 2) div 3) + 71 = line_len + 4 + 4 * ((length r + 2) div 3) + 71"
      by (simp add: div3_step)
    have "4 dvd line_len + 4" "line_len + 4 < 72" using False 4(3) by simp_all
    note 4(2) [OF False this]
    then show ?thesis using False unfolding c by (simp add: div3_step)
  qed
qed (auto simp: elim!: dvdE)

lemma encode_bound: "4 * ((n + 2) div 3) + 1 \<le> n * 4 div 3 + (4 :: nat)"
proof -
  have "n = 3 * (n div 3) + n mod 3" "n mod 3 < 3" by simp_all
  then obtain k j where k: "n = 3 * k + j" "j < 3" by blast
  from k(2) have "j = 0 \<or> j = 1 \<or> j = 2" by arith
  then show ?thesis using k(1) by auto
qed

lemma encode_fits: "length bs < 2 ^ 60 \<Longrightarrow> length (encode_loop 0 bs) + 1 \<le> encode_size (length bs) \<and> length bs \<le> encode_size (length bs)"
proof -
  assume a: "length bs < 2 ^ 60"
  let ?n = "length bs" let ?m = "?n * 4 div 3 + 4"
  have m: "?m \<le> 2 ^ 62" using a by simp
  have d: "?m div 72 \<le> ?m" by simp
  have s: "encode_size ?n = ?m + ?m div 72 + 1" using a m d by (simp add: encode_size_def Let_def)
  note n4 = encode_bound [of ?n]
  have "(4 * ((?n + 2) div 3) + 71) div 72 \<le> (?m + 72) div 72" using n4 by (intro div_le_mono) simp
  then have "(4 * ((?n + 2) div 3) + 71) div 72 \<le> 1 + ?m div 72" by simp
  moreover have "?n \<le> ?m" by simp
  ultimately show ?thesis using n4 s by (simp add: encode_length)
qed

lemma bytes_back: "map char_of_byte (map byte_of s) = s"
proof -
  have "unat (of_char c :: u8w) = of_char c" for c
  proof -
    have "unat (of_char c :: u8w) = unat (of_nat (of_char c) :: u8w)" by (simp only: of_nat_of_char)
    also have "\<dots> = of_char c mod 256" by (simp add: unat_of_nat)
    finally show ?thesis by (simp only: of_char_mod_256)
  qed
  then show ?thesis by (induction s) (simp_all add: byte_of_def char_of_byte_def)
qed

text \<open>
  C19: data that is encoded can be decoded again: encoding stays in its buffer, and decoding the text gives the data back, with the
  line feeds of the text and without them.
\<close>

theorem base64_round_trip:
  assumes "data \<noteq> []" "length data < 2 ^ 60"
  shows "\<exists>t. base64_encode data = Val (Some t) \<and> base64_decode t = Some data \<and> base64_decode (filter (\<lambda>c. c \<noteq> NL) t) = Some data"
proof -
  let ?bs = "map byte_of data" let ?t = "encode_loop 0 ?bs"
  have "base64_encode data = Val (Some ?t)" using encode_fits [of ?bs] assms(2) by (simp add: base64_encode_def Let_def)
  moreover have d: "base64_decode ?t = Some data"
    using assms(1) b64_decode_encode [of 0 ?bs "[]"] by (simp add: base64_decode_def encode_count bytes_back del: map_map) (cases data, simp_all)
  moreover have "base64_decode (filter (\<lambda>c. c \<noteq> NL) ?t) = Some data" using d decode_filter [of "\<lambda>c. c \<noteq> NL"] dtable_marks(2) by metis
  ultimately show ?thesis by blast
qed

theorem base64_round_trip_witness:
  "\<exists>t. base64_encode ''some data'' = Val (Some t) \<and> base64_decode t = Some ''some data'' \<and> base64_decode (filter (\<lambda>c. c \<noteq> NL) t) = Some ''some data''"
  using base64_round_trip [of "''some data''"] by simp

end
