(* ===== verification/Cred_Config.thy ===== *)
theory Cred_Config
  imports Net_Ctrl
begin

text \<open>
  Credentials of the daemon, \<^verbatim>\<open>wpa_supplicant/config.c\<close>, and the commands on them of \<^verbatim>\<open>wpa_supplicant/ctrl_iface.c\<close>. The plain
  number and text fields of a credential are two functions from the name of the field; an unsigned number is kept as the
  signed number with the same bits. A port list ends at the entry -1. Memory allocation succeeds.
\<close>

section \<open>Setting a field\<close>

record roaming_partner =
  rp_fqdn :: string
  rp_exact_match :: int
  rp_priority :: nat
  rp_country :: string

record wpa_cred =
  cr_id :: int
  cr_int :: "string \<Rightarrow> int"
  cr_str :: "string \<Rightarrow> string option"
  cr_ext_password :: bool
  cr_eap_method :: "(int \<times> int) option"
  cr_domain :: "string list"
  cr_roaming_consortium :: "char list"
  cr_required_roaming_consortium :: "char list"
  cr_excluded_ssid :: "char list list"
  cr_roaming_partner :: "roaming_partner list"
  cr_req_conn_capab :: "(nat \<times> int list option) list"

definition cred_ints :: "string list" where
  "cred_ints = [''temporary'', ''priority'', ''pcsc'', ''update_identifier'', ''min_dl_bandwidth_home'', ''min_ul_bandwidth_home'',
     ''min_dl_bandwidth_roaming'', ''min_ul_bandwidth_roaming'', ''max_bss_load'', ''ocsp'', ''sim_num'']"

definition cred_strs :: "string list" where
  "cred_strs = [''realm'', ''username'', ''ca_cert'', ''client_cert'', ''private_key'', ''private_key_passwd'', ''imsi'', ''milenage'',
     ''domain_suffix_match'', ''phase1'', ''phase2'', ''provisioning_sp'']"

definition cred_keys :: "string list" where
  "cred_keys = [''password'', ''private_key_passwd'', ''milenage'']"

text \<open>The ports behind a colon, each up to the next comma; nothing follows a comma that ends the text.\<close>

function ports_loop :: "string \<Rightarrow> int list" where
  "ports_loop pos =
     (if pos = [] then []
      else atoi32 pos # (case os_strchr pos (CHR '','') of None \<Rightarrow> [] | Some p \<Rightarrow> ports_loop (tl p)))"
  by pat_completeness auto
termination
proof (relation "measure length")
  fix pos p :: string
  assume a: "pos \<noteq> []" "os_strchr pos (CHR '','') = Some p"
  obtain q t where "pos = q @ p" "p = CHR '','' # t" using os_strchr_Some [OF a(2)] by blast
  then show "(tl p, pos) \<in> measure length" by simp
qed simp

declare ports_loop.simps [simp del]

definition u8_of :: "int \<Rightarrow> nat" where
  "u8_of i = nat (i mod 256)"

definition wpa_config_set_cred_req_conn_capab :: "string \<Rightarrow> wpa_cred \<Rightarrow> int \<times> wpa_cred" where
  "wpa_config_set_cred_req_conn_capab value cred =
     (let ports = (case os_strchr value (CHR '':'') of None \<Rightarrow> None | Some p \<Rightarrow> Some (ports_loop (tl p) @ [-1]))
      in (0, cred\<lparr>cr_req_conn_capab := cr_req_conn_capab cred @ [(u8_of (atoi32 value), ports)]\<rparr>))"

definition cut_comma :: "string \<Rightarrow> (string \<times> string) option" where
  "cut_comma t = map_option (\<lambda>r. (take (length t - length r) t, tl r)) (os_strchr t (CHR '',''))"

definition parse_partner :: "string \<Rightarrow> roaming_partner option" where
  "parse_partner val =
     (case cut_comma val of
        None \<Rightarrow> None
      | Some (fqdn, r) \<Rightarrow>
          if 128 \<le> length fqdn then None
          else case cut_comma r of
              None \<Rightarrow> None
            | Some (exact, r) \<Rightarrow>
                (case cut_comma r of
                   None \<Rightarrow> None
                 | Some (prio, country) \<Rightarrow>
                     if 3 \<le> length country then None
                     else Some \<lparr>rp_fqdn = fqdn, rp_exact_match = atoi32 exact, rp_priority = u8_of (atoi32 prio), rp_country = country\<rparr>))"

definition wpa_config_set_cred :: "eap_methods \<Rightarrow> wpa_cred \<Rightarrow> string \<Rightarrow> string \<Rightarrow> int \<times> wpa_cred" where
  "wpa_config_set_cred methods cred var value =
     (if var \<in> set cred_ints then (0, cred\<lparr>cr_int := (cr_int cred)(var := atoi32 value)\<rparr>)
      else if var = ''sp_priority'' then
        let prio = atoi32 value in if prio < 0 \<or> 255 < prio then (-1, cred) else (0, cred\<lparr>cr_int := (cr_int cred)(var := prio)\<rparr>)
      else if var = ''eap'' then
        let m = eap_peer_get_type methods value in if m = (0, 0) then (-1, cred) else (0, cred\<lparr>cr_eap_method := Some m\<rparr>)
      else if var = ''password'' \<and> str_starts value ''ext:'' then
        if has_newline value then (-1, cred)
        else (0, cred\<lparr>cr_str := (cr_str cred)(''password'' := Some value), cr_ext_password := True\<rparr>)
      else if var = ''req_conn_capab'' then wpa_config_set_cred_req_conn_capab value cred
      else case wpa_config_parse_string value of
          None \<Rightarrow> (-1, cred)
        | Some buf \<Rightarrow>
            let val = cstr_of buf; len = length buf
            in if var \<noteq> ''excluded_ssid'' \<and> var \<noteq> ''roaming_consortium'' \<and> var \<noteq> ''required_roaming_consortium'' \<and> has_newline val
               then (-1, cred)
               else if var \<in> set cred_strs then (0, cred\<lparr>cr_str := (cr_str cred)(var := Some val)\<rparr>)
               else if var = ''password'' then (0, cred\<lparr>cr_str := (cr_str cred)(var := Some val), cr_ext_password := False\<rparr>)
               else if var = ''domain'' then (0, cred\<lparr>cr_domain := cr_domain cred @ [val]\<rparr>)
               else if var = ''roaming_consortium'' then
                 if len < 3 \<or> 15 < len then (-1, cred) else (0, cred\<lparr>cr_roaming_consortium := buf\<rparr>)
               else if var = ''required_roaming_consortium'' then
                 if len < 3 \<or> 15 < len then (-1, cred) else (0, cred\<lparr>cr_required_roaming_consortium := buf\<rparr>)
               else if var = ''excluded_ssid'' then
                 if SSID_MAX_LEN < len then (-1, cred) else (0, cred\<lparr>cr_excluded_ssid := cr_excluded_ssid cred @ [buf]\<rparr>)
               else if var = ''roaming_partner'' then
                 (case parse_partner val of
                    None \<Rightarrow> (-1, cred)
                  | Some p \<Rightarrow> (0, cred\<lparr>cr_roaming_partner := cr_roaming_partner cred @ [p]\<rparr>))
               else (-1, cred))"

section \<open>Reading a field\<close>

definition alloc_int_str :: "int \<Rightarrow> string option" where
  "alloc_int_str val = (let (t, res) = os_snprintf 20 (show_int val) in if os_snprintf_error 20 res then None else Some t)"

text \<open>Parts printed one after the other into the room that is left; the last part is cut when it does not fit.\<close>

fun print_cut :: "nat \<Rightarrow> string list \<Rightarrow> string" where
  "print_cut room [] = []"
| "print_cut room (p # ps) =
     (let (t, ret) = os_snprintf room p in if os_snprintf_error room ret then t else t @ print_cut (room - length t) ps)"

definition on_lines :: "string list \<Rightarrow> string list" where
  "on_lines xs = (case xs of [] \<Rightarrow> [] | x # xs \<Rightarrow> x # map (\<lambda>x. NL # x) xs)"

text \<open>The parts of a list of items: \<open>None\<close> for the empty list.\<close>

definition cred_list_text :: "string list \<Rightarrow> string option" where
  "cred_list_text parts = (if parts = [] then None else Some (print_cut 4000 parts))"

definition ports_parts :: "int list option \<Rightarrow> string list" where
  "ports_parts ports =
     (case ports of
        None \<Rightarrow> []
      | Some l \<Rightarrow>
          (case takeWhile (\<lambda>p. p \<noteq> -1) l of
             [] \<Rightarrow> []
           | p # ps \<Rightarrow> ('':'' @ show_int p) # map (\<lambda>p. '','' @ show_int p) ps))"

definition conn_parts :: "(nat \<times> int list option) list \<Rightarrow> string list" where
  "conn_parts cs =
     concat (map (\<lambda>(i, proto, ports). ((if i > 0 then [NL] else []) @ show_nat proto) # ports_parts ports) (enumerate 0 cs))"

definition partner_text :: "roaming_partner \<Rightarrow> string" where
  "partner_text p = rp_fqdn p @ '','' @ show_int (rp_exact_match p) @ '','' @ show_nat (rp_priority p) @ '','' @ rp_country p"

definition wpa_config_get_cred_no_key :: "eap_methods \<Rightarrow> wpa_cred \<Rightarrow> string \<Rightarrow> string option outcome" where
  "wpa_config_get_cred_no_key methods cred var =
     (if var \<in> set cred_ints \<and> var \<noteq> ''sim_num'' \<or> var = ''sp_priority'' then Val (alloc_int_str (cr_int cred var))
      else if var = ''eap'' then Val (case cr_eap_method cred of None \<Rightarrow> None | Some m \<Rightarrow> eap_get_name methods m)
      else if var = ''req_conn_capab'' then Val (cred_list_text (conn_parts (cr_req_conn_capab cred)))
      else if var \<in> set cred_keys then Val (if cr_str cred var = None then None else Some ''*'')
      else if var \<in> set cred_strs then Val (cr_str cred var)
      else if var = ''domain'' then Val (cred_list_text (on_lines (cr_domain cred)))
      else if var = ''roaming_consortium'' then
        Val (if cr_roaming_consortium cred = [] then None else Some (write_string_hex (cr_roaming_consortium cred)))
      else if var = ''required_roaming_consortium'' then
        Val (if cr_required_roaming_consortium cred = [] then None else Some (write_string_hex (cr_required_roaming_consortium cred)))
      else if var = ''excluded_ssid'' then
        omap (\<lambda>ts. cred_list_text (on_lines ts))
          (fold (\<lambda>s r. obind r (\<lambda>ts. omap (\<lambda>t. ts @ [t]) (wpa_ssid_txt (Some s)))) (cr_excluded_ssid cred) (Val []))
      else if var = ''roaming_partner'' then Val (cred_list_text (on_lines (map partner_text (cr_roaming_partner cred))))
      else Val None)"

section \<open>The list of credentials\<close>

definition wpa_config_get_cred :: "wpa_cred list \<Rightarrow> int \<Rightarrow> wpa_cred option" where
  "wpa_config_get_cred cs i = find (\<lambda>c. i = cr_id c) cs"

definition max_cred_id :: "wpa_cred list \<Rightarrow> int" where
  "max_cred_id cs = fold (\<lambda>c i. if i < cr_id c then cr_id c else i) cs (-1)"

text \<open>A credential as the daemon makes it: zero, but for the SIM.\<close>

definition zero_cred :: "int \<Rightarrow> wpa_cred" where
  "zero_cred i = \<lparr>cr_id = i, cr_int = (\<lambda>_. 0)(''sim_num'' := 1), cr_str = (\<lambda>_. None), cr_ext_password = False, cr_eap_method = None,
     cr_domain = [], cr_roaming_consortium = [], cr_required_roaming_consortium = [], cr_excluded_ssid = [], cr_roaming_partner = [],
     cr_req_conn_capab = []\<rparr>"

definition wpa_config_add_cred :: "wpa_cred list \<Rightarrow> wpa_cred \<times> wpa_cred list" where
  "wpa_config_add_cred cs = (let c = zero_cred (int32 (max_cred_id cs + 1)) in (c, cs @ [c]))"

fun remove_cred_id :: "int \<Rightarrow> wpa_cred list \<Rightarrow> wpa_cred list option" where
  "remove_cred_id i [] = None"
| "remove_cred_id i (c # cs) = (if i = cr_id c then Some cs else map_option ((#) c) (remove_cred_id i cs))"

definition wpa_config_remove_cred :: "wpa_cred list \<Rightarrow> int \<Rightarrow> int \<times> wpa_cred list" where
  "wpa_config_remove_cred cs i = (case remove_cred_id i cs of None \<Rightarrow> (-1, cs) | Some cs \<Rightarrow> (0, cs))"

section \<open>Commands\<close>

type_synonym cred_world = "wpa_cred list \<times> supplicant"

definition cred_header :: string where
  "cred_header = ''cred id / realm / username / domain / imsi''"

definition or_empty :: "string option \<Rightarrow> string" where
  "or_empty t = (case t of None \<Rightarrow> [] | Some t \<Rightarrow> t)"

definition cred_row :: "wpa_cred \<Rightarrow> string" where
  "cred_row c = show_int (cr_id c) @ [TAB] @ or_empty (cr_str c ''realm'') @ [TAB] @ or_empty (cr_str c ''username'') @ [TAB] @
     (case cr_domain c of [] \<Rightarrow> [] | d # ds \<Rightarrow> d) @ [TAB] @ or_empty (cr_str c ''imsi'') @ [NL]"

text \<open>Rows printed as long as they fit.\<close>

fun print_rows :: "nat \<Rightarrow> string list \<Rightarrow> string" where
  "print_rows room [] = []"
| "print_rows room (p # ps) =
     (let (t, ret) = os_snprintf room p in if os_snprintf_error room ret then [] else t @ print_rows (room - length t) ps)"

definition wpa_supplicant_ctrl_iface_list_creds :: "nat \<Rightarrow> wpa_cred list \<Rightarrow> string" where
  "wpa_supplicant_ctrl_iface_list_creds buflen cs = print_rows buflen ((cred_header @ [NL]) # map cred_row cs)"

definition wpa_supplicant_ctrl_iface_add_cred :: "conn_ops \<Rightarrow> nat \<Rightarrow> cred_world \<Rightarrow> string option \<times> cred_world" where
  "wpa_supplicant_ctrl_iface_add_cred ops buflen w =
     (case w of (cl, c, cs) \<Rightarrow>
       case wpa_config_add_cred cl of (cred, cl) \<Rightarrow>
         let cs = co_call ops (Call_cred_added (cr_id cred)) cs; (t, ret) = os_snprintf buflen (show_int (cr_id cred) @ [NL])
         in (if os_snprintf_error buflen ret then None else Some t, cl, c, cs))"

text \<open>The networks made from the credential go with it, by their ids printed as the argument of the command.\<close>

definition remove_if_made :: "conn_ops \<Rightarrow> int \<Rightarrow> wpa_ssid \<Rightarrow> supplicant \<Rightarrow> supplicant" where
  "remove_if_made ops i s w =
     (if ws_parent_cred s = Some i then snd (wpa_supplicant_ctrl_iface_remove_network ops (show_int (ws_id s)) w) else w)"

definition remove_made :: "conn_ops \<Rightarrow> int \<Rightarrow> supplicant \<Rightarrow> supplicant" where
  "remove_made ops i w = fold (remove_if_made ops i) (wc_ssid (fst w)) w"

definition wpas_ctrl_remove_cred :: "conn_ops \<Rightarrow> wpa_cred option \<Rightarrow> cred_world \<Rightarrow> int \<times> cred_world" where
  "wpas_ctrl_remove_cred ops cred w =
     (case (cred, w) of
        (None, _) \<Rightarrow> (-1, w)
      | (Some cred, cl, c, cs) \<Rightarrow>
          let i = cr_id cred
          in case wpa_config_remove_cred cl i of
              (r, cl') \<Rightarrow> if r < 0 then (-1, w) else (0, cl', remove_made ops i (c, co_call ops (Call_cred_removed i) cs)))"

text \<open>The loop over the list of credentials, of which those that satisfy \<open>P\<close> are removed.\<close>

definition remove_creds :: "conn_ops \<Rightarrow> (wpa_cred \<Rightarrow> bool) \<Rightarrow> cred_world \<Rightarrow> cred_world" where
  "remove_creds ops P w = fold (\<lambda>c w. if P c then snd (wpas_ctrl_remove_cred ops (Some c) w) else w) (fst w) w"

definition wpa_supplicant_ctrl_iface_remove_cred :: "conn_ops \<Rightarrow> string \<Rightarrow> cred_world \<Rightarrow> int \<times> cred_world" where
  "wpa_supplicant_ctrl_iface_remove_cred ops cmd w =
     (if cmd = ''all'' then (0, remove_creds ops (\<lambda>c. True) w)
      else if str_starts cmd ''sp_fqdn='' then (0, remove_creds ops (\<lambda>c. drop 8 cmd \<in> set (cr_domain c)) w)
      else if str_starts cmd ''provisioning_sp='' then (0, remove_creds ops (\<lambda>c. cr_str c ''provisioning_sp'' = Some (drop 16 cmd)) w)
      else wpas_ctrl_remove_cred ops (wpa_config_get_cred (fst w) (atoi32 cmd)) w)"

definition put_cred :: "wpa_cred \<Rightarrow> wpa_cred list \<Rightarrow> wpa_cred list" where
  "put_cred c cs = map (\<lambda>x. if cr_id x = cr_id c then c else x) cs"

definition wpa_supplicant_ctrl_iface_set_cred :: "eap_methods \<Rightarrow> conn_ops \<Rightarrow> string \<Rightarrow> cred_world \<Rightarrow> int \<times> cred_world" where
  "wpa_supplicant_ctrl_iface_set_cred methods ops cmd w =
     (case (cut_blank cmd, w) of
        (None, _) \<Rightarrow> (-1, w)
      | (Some (i, r), cl, c, cs) \<Rightarrow>
          (case cut_blank r of
             None \<Rightarrow> (-1, w)
           | Some (name, value) \<Rightarrow>
               (case wpa_config_get_cred cl (atoi32 i) of
                  None \<Rightarrow> (-1, w)
                | Some cred \<Rightarrow>
                    (case wpa_config_set_cred methods cred name value of
                       (r, cred) \<Rightarrow>
                         if r < 0 then (-1, put_cred cred cl, c, cs)
                         else (0, put_cred cred cl, c, co_call ops (Call_cred_modified (cr_id cred) name) cs)))))"

definition wpa_supplicant_ctrl_iface_get_cred :: "eap_methods \<Rightarrow> nat \<Rightarrow> string \<Rightarrow> wpa_cred list \<Rightarrow> string option outcome" where
  "wpa_supplicant_ctrl_iface_get_cred methods buflen cmd cl =
     (case cut_blank cmd of
        None \<Rightarrow> Val None
      | Some (i, name) \<Rightarrow>
          (case wpa_config_get_cred cl (atoi32 i) of
             None \<Rightarrow> Val None
           | Some cred \<Rightarrow>
               omap (\<lambda>value. case value of None \<Rightarrow> None | Some v \<Rightarrow> if buflen \<le> length v then None else Some v)
                 (wpa_config_get_cred_no_key methods cred name)))"

definition cred_command :: "eap_methods \<Rightarrow> conn_ops \<Rightarrow> string \<Rightarrow> cred_world \<Rightarrow> (string \<times> cred_world) outcome option" where
  "cred_command methods ops buf w =
     (let ok = (\<lambda>(r, w). Some (Val (if r \<noteq> 0 then ''FAIL'' @ [NL] else ''OK'' @ [NL], w)));
          text = (\<lambda>(t, w). (case t of None \<Rightarrow> ''FAIL'' @ [NL] | Some t \<Rightarrow> t, w))
      in if buf = ''LIST_CREDS'' then Some (Val (wpa_supplicant_ctrl_iface_list_creds REPLY_SIZE (fst w), w))
         else if buf = ''ADD_CRED'' then Some (Val (text (wpa_supplicant_ctrl_iface_add_cred ops REPLY_SIZE w)))
         else if str_starts buf ''REMOVE_CRED '' then ok (wpa_supplicant_ctrl_iface_remove_cred ops (drop 12 buf) w)
         else if str_starts buf ''SET_CRED '' then ok (wpa_supplicant_ctrl_iface_set_cred methods ops (drop 9 buf) w)
         else if str_starts buf ''GET_CRED '' then Some (omap (\<lambda>t. text (t, w)) (wpa_supplicant_ctrl_iface_get_cred methods REPLY_SIZE (drop 9 buf) (fst w)))
         else None)"

end
