(* ===== verification/Cred_Laws.thy ===== *)
theory Cred_Laws
  imports Cred_Config Net_Reload
begin

text \<open>
  What the commands on credentials do: removing a credential removes it and the networks made from it and nothing else, and
  the secrets of credentials have no influence on what the commands print.
\<close>

section \<open>Removing\<close>

lemma remove_id_filter:
  "distinct (map ws_id ss) \<Longrightarrow> remove_id i ss = (if i \<in> ws_id ` set ss then Some (filter (\<lambda>s. ws_id s \<noteq> i) ss) else None)"
proof (induction ss)
  case (Cons s ss)
  then show ?case by (auto simp: image_iff intro!: filter_True [symmetric])
qed simp

lemma remove_cred_filter:
  "distinct (map cr_id cl) \<Longrightarrow> remove_cred_id i cl = (if i \<in> cr_id ` set cl then Some (filter (\<lambda>s. cr_id s \<noteq> i) cl) else None)"
proof (induction cl)
  case (Cons s ss)
  then show ?case by (auto simp: image_iff intro!: filter_True [symmetric])
qed simp

lemma show_int_solid_chars: "c \<in> set (show_int i) \<Longrightarrow> c_isdigit c \<or> c = CHR ''-''"
  using show_nat_digits [of c] by (auto simp: show_int_def split: if_splits)

lemma show_int_no_letter: "\<not> c_isdigit c \<Longrightarrow> c \<noteq> CHR ''-'' \<Longrightarrow> show_int i \<noteq> c # t"
  using show_int_solid_chars [of c i] by (metis list.set_intros(1))

lemma show_int_not_word: "show_int i \<noteq> ''all'' \<and> \<not> str_starts (show_int i) ''sp_fqdn='' \<and> \<not> str_starts (show_int i) ''provisioning_sp=''"
proof -
  have l: "show_int i \<noteq> CHR ''a'' # t" "show_int i \<noteq> CHR ''s'' # t" "show_int i \<noteq> CHR ''p'' # t" for t
    by (rule show_int_no_letter; simp add: c_isdigit_def)+
  then show ?thesis by (cases "show_int i") (auto simp: str_starts_def)
qed

lemma remove_network_nets:
  assumes "conf_ok c" "in_int32 i"
  shows "wc_ssid (fst (snd (wpa_supplicant_ctrl_iface_remove_network ops (show_int i) (c, cs)))) = filter (\<lambda>s. ws_id s \<noteq> i) (wc_ssid c) \<and>
    conf_ok (fst (snd (wpa_supplicant_ctrl_iface_remove_network ops (show_int i) (c, cs))))"
proof -
  have d: "distinct (map ws_id (wc_ssid c))" using assms(1) by (auto simp: conf_ok_def strict_sorted_iff)
  note r = remove_id_filter [OF d, of i]
  have n: "wpa_config_get_network c i = None \<longleftrightarrow> i \<notin> ws_id ` set (wc_ssid c)"
    by (auto simp: wpa_config_get_network_def find_None_iff)
  show ?thesis
  proof (cases "i \<in> ws_id ` set (wc_ssid c)")
    case True
    then obtain s where s: "wpa_config_get_network c i = Some s" using n by auto
    have "conf_ok (snd (wpa_config_remove_network c i))" using assms(1) by (rule remove_network_ok)
    then show ?thesis using True s r show_int_not_word [of i] atoi32_show [OF assms(2)]
      by (auto simp: wpa_supplicant_ctrl_iface_remove_network_def wpa_supplicant_remove_network_def wpa_config_remove_network_def
          wpa_config_update_prio_list_def Let_def split: prod.splits)
  next
    case False
    then have "filter (\<lambda>s. ws_id s \<noteq> i) (wc_ssid c) = wc_ssid c" by (intro filter_True) auto
    then show ?thesis using False n assms(1) show_int_not_word [of i] atoi32_show [OF assms(2)]
      by (simp add: wpa_supplicant_ctrl_iface_remove_network_def wpa_supplicant_remove_network_def)
  qed
qed

lemma remove_made_fold:
  "conf_ok (fst w) \<Longrightarrow> \<forall>s \<in> set ss. in_int32 (ws_id s) \<Longrightarrow>
    wc_ssid (fst (fold (remove_if_made ops i) ss w)) =
      filter (\<lambda>s. \<not> (\<exists>t \<in> set ss. ws_parent_cred t = Some i \<and> ws_id t = ws_id s)) (wc_ssid (fst w))"
proof (induction ss arbitrary: w)
  case (Cons s ss)
  obtain c cs where w: "w = (c, cs)" by (cases w)
  have "conf_ok c" "in_int32 (ws_id s)" using Cons.prems w by auto
  note r = remove_network_nets [OF this, of ops cs]
  have "conf_ok (fst (remove_if_made ops i s w))" using r w Cons.prems(1) by (simp add: remove_if_made_def)
  note Cons.IH [OF this]
  then show ?case using Cons.prems(2) r w by (auto simp: remove_if_made_def intro!: filter_cong)
qed simp

lemma remove_made_nets:
  assumes "conf_ok c" "\<forall>s \<in> set (wc_ssid c). in_int32 (ws_id s)"
  shows "wc_ssid (fst (remove_made ops i (c, cs))) = filter (\<lambda>s. ws_parent_cred s \<noteq> Some i) (wc_ssid c)"
proof -
  have "s = t" if "s \<in> set (wc_ssid c)" "t \<in> set (wc_ssid c)" "ws_id s = ws_id t" for s t
    using distinct_ids that assms(1) by (auto simp: conf_ok_def)
  then show ?thesis using remove_made_fold [of "(c, cs)" "wc_ssid c" ops i] assms by (auto simp: remove_made_def intro!: filter_cong)
qed


definition cred_demo :: wpa_config where
  "cred_demo = wpa_config_update_prio_list \<lparr>wc_ssid = [zero_ssid 0, (zero_ssid 1)\<lparr>ws_parent_cred := Some 3\<rparr>], wc_pssid = []\<rparr>"


section \<open>Secrets\<close>

definition same_cred :: "wpa_cred \<Rightarrow> wpa_cred \<Rightarrow> bool" where
  "same_cred c c' \<longleftrightarrow>
     c\<lparr>cr_str := (\<lambda>_. None), cr_ext_password := False\<rparr> = c'\<lparr>cr_str := (\<lambda>_. None), cr_ext_password := False\<rparr> \<and>
     (\<forall>f. if f \<in> set cred_keys then (cr_str c f = None) = (cr_str c' f = None) else cr_str c f = cr_str c' f)"

lemma same_cred_parts:
  assumes "same_cred c c'"
  shows "cr_id c = cr_id c'" "cr_int c = cr_int c'" "cr_eap_method c = cr_eap_method c'" "cr_domain c = cr_domain c'"
    "cr_roaming_consortium c = cr_roaming_consortium c'" "cr_required_roaming_consortium c = cr_required_roaming_consortium c'"
    "cr_excluded_ssid c = cr_excluded_ssid c'" "cr_roaming_partner c = cr_roaming_partner c'" "cr_req_conn_capab c = cr_req_conn_capab c'"
    "f \<notin> set cred_keys \<Longrightarrow> cr_str c f = cr_str c' f" "f \<in> set cred_keys \<Longrightarrow> (cr_str c f = None) = (cr_str c' f = None)"
  using assms by (cases c; cases c'; auto simp: same_cred_def split: if_splits)+

lemma same_cred_get: "same_cred c c' \<Longrightarrow> wpa_config_get_cred_no_key methods c var = wpa_config_get_cred_no_key methods c' var"
  using same_cred_parts [of c c'] by (simp add: wpa_config_get_cred_no_key_def)

lemma same_cred_row: "same_cred c c' \<Longrightarrow> cred_row c = cred_row c'"
  using same_cred_parts [of c c'] by (simp add: cred_row_def cred_keys_def)

lemma same_cred_find:
  assumes "list_all2 same_cred cl cl'"
  shows "rel_option same_cred (wpa_config_get_cred cl i) (wpa_config_get_cred cl' i)"
  using assms by (induction rule: list_all2_induct) (auto simp: wpa_config_get_cred_def same_cred_parts(1))

text \<open>
  C18: the secrets of credentials stay hidden: \<^verbatim>\<open>GET_CRED\<close> and \<^verbatim>\<open>LIST_CREDS\<close> print the same for two lists of credentials that differ in no more
  than the values of passwords, private key passwords and Milenage parameters, and for a field with a secret no more than an asterisk.
\<close>

theorem cred_keys_hidden:
  assumes "list_all2 same_cred cl cl'" "str_starts buf ''GET_CRED '' \<or> buf = ''LIST_CREDS''"
  shows "map_option (omap fst) (cred_command methods ops buf (cl, w)) = map_option (omap fst) (cred_command methods ops buf (cl', w)) \<and>
    (f \<in> {''password'', ''private_key_passwd'', ''milenage''} \<longrightarrow> wpa_config_get_cred_no_key methods cred f \<in> {Val None, Val (Some ''*'')})"
proof
  have rows: "map cred_row cl = map cred_row cl'" using assms(1) by (induction rule: list_all2_induct) (simp_all add: same_cred_row)
  have get: "wpa_supplicant_ctrl_iface_get_cred methods n cmd cl = wpa_supplicant_ctrl_iface_get_cred methods n cmd cl'" for n cmd
  proof -
    have "(case wpa_config_get_cred cl i of None \<Rightarrow> Val None | Some s \<Rightarrow> omap h (wpa_config_get_cred_no_key methods s name)) =
        (case wpa_config_get_cred cl' i of None \<Rightarrow> Val None | Some s \<Rightarrow> omap h (wpa_config_get_cred_no_key methods s name))" for i h name
      using same_cred_find [OF assms(1), of i] by (cases rule: option.rel_cases) (auto dest: same_cred_get [of _ _ methods name])
    note e = this
    show ?thesis
    proof (cases "cut_blank cmd")
      case (Some x)
      then show ?thesis by (cases x) (simp add: wpa_supplicant_ctrl_iface_get_cred_def e)
    qed (simp add: wpa_supplicant_ctrl_iface_get_cred_def)
  qed
  have f: "omap fst (omap (\<lambda>t. (g t, y)) x) = omap g x" for g x and y :: "'a" by (cases x) simp_all
  show "map_option (omap fst) (cred_command methods ops buf (cl, w)) = map_option (omap fst) (cred_command methods ops buf (cl', w))"
  proof (cases "buf = ''LIST_CREDS''")
    case True
    then show ?thesis using rows by (simp add: cred_command_def wpa_supplicant_ctrl_iface_list_creds_def)
  next
    case False
    then obtain cmd where b: "buf = ''GET_CRED '' @ cmd" using assms(2) by (auto simp: str_starts_def is_prefix_iff)
    show ?thesis unfolding b cred_command_def Let_def using get [of REPLY_SIZE cmd] by (simp add: str_starts_def f)
  qed
  show "f \<in> {''password'', ''private_key_passwd'', ''milenage''} \<longrightarrow> wpa_config_get_cred_no_key methods cred f \<in> {Val None, Val (Some ''*'')}"
    by (auto simp: wpa_config_get_cred_no_key_def cred_ints_def cred_keys_def)
qed

theorem cred_keys_hidden_witness:
  "map_option (omap fst) (cred_command [] idle_ops ''GET_CRED 0 password'' ([(zero_cred 0)\<lparr>cr_str := [''password'' \<mapsto> ''one'']\<rparr>], cred_demo, idle_conn)) =
   map_option (omap fst) (cred_command [] idle_ops ''GET_CRED 0 password'' ([(zero_cred 0)\<lparr>cr_str := [''password'' \<mapsto> ''two'']\<rparr>], cred_demo, idle_conn)) \<and>
   wpa_config_get_cred_no_key [] (zero_cred 0) ''password'' \<in> {Val None, Val (Some ''*'')}"
  using cred_keys_hidden [of "[(zero_cred 0)\<lparr>cr_str := [''password'' \<mapsto> ''one'']\<rparr>]" "[(zero_cred 0)\<lparr>cr_str := [''password'' \<mapsto> ''two'']\<rparr>]"
      "''GET_CRED 0 password''" "[]" idle_ops "(cred_demo, idle_conn)" "''password''" "zero_cred 0"]
  by (simp add: same_cred_def zero_cred_def cred_keys_def str_starts_def)

end
