(* ===== verification/Global_Config.thy ===== *)
theory Global_Config
  imports Cred_Config Common_Arrays
begin

text \<open>
  The configuration of the daemon besides its networks, \<^verbatim>\<open>wpa_supplicant/config.c\<close>: the table of global variables, their parsers and
  the functions that print them, with the helpers of \<^verbatim>\<open>src/utils/uuid.c\<close>, \<^verbatim>\<open>src/wps/wps_common.c\<close>, \<^verbatim>\<open>src/utils/wpabuf.c\<close>,
  \<^verbatim>\<open>src/utils/ip_addr.c\<close> and \<^verbatim>\<open>src/common/ieee802_11_common.c\<close> they call, and the named blobs. Number, text and binary variables are
  functions from the name; \<open>cf_mem\<close> holds the arrays of fixed size. Loading a module with EAP methods is the argument
  \<open>load_eap\<close>. Memory allocation succeeds.
\<close>

record wmm_ac =
  ac_cwmin :: int
  ac_cwmax :: int
  ac_aifs :: int
  ac_txop_limit :: int
  ac_acm :: int

record config =
  cf_nets :: wpa_config
  cf_cred :: "wpa_cred list"
  cf_blobs :: "(string \<times> char list) list"
  cf_int :: "string \<Rightarrow> int"
  cf_str :: "string \<Rightarrow> string option"
  cf_bin :: "string \<Rightarrow> char list option"
  cf_mem :: "string \<Rightarrow> char list"
  cf_sec_device_type :: "char list list"
  cf_pref_chan :: "(nat \<times> nat) list"
  cf_no_go_freq :: "wpa_freq_range list"
  cf_freq_list :: "int list"
  cf_sae_groups :: "int list option"
  cf_wmm :: "nat \<Rightarrow> wmm_ac"
  cf_changed :: int
  cf_nfc_from_config :: bool

section \<open>Helpers\<close>

text \<open>An identifier of 16 bytes as five groups of hexadecimal digits; the groups before a wrong one are stored.\<close>

fun uuid_groups :: "nat list \<Rightarrow> string \<Rightarrow> char list \<times> bool" where
  "uuid_groups [] pos = ([], True)"
| "uuid_groups (n # ns) pos =
     (case hexstr2bin_loop n pos of
        (bs, ok) \<Rightarrow>
          if \<not> ok then (bs, False)
          else if ns = [] then (bs, True)
          else if at0 (drop (2 * n) pos) \<noteq> CHR ''-'' then (bs, False)
          else case uuid_groups ns (drop (2 * n + 1) pos) of (r, ok) \<Rightarrow> (bs @ r, ok))"

definition uuid_str2bin :: "string \<Rightarrow> char list \<Rightarrow> int \<times> char list" where
  "uuid_str2bin str bin = (case uuid_groups [4, 2, 2, 2, 6] str of (bs, ok) \<Rightarrow> (if ok then 0 else -1, memwrite bin bs))"

definition hex_bytes :: "char list \<Rightarrow> string" where
  "hex_bytes bs = concat (map (\<lambda>c. hex02 (of_char c)) bs)"

definition uuid_bin2str :: "char list \<Rightarrow> string" where
  "uuid_bin2str bin =
     hex_bytes (take 4 bin) @ ''-'' @ hex_bytes (take 2 (drop 4 bin)) @ ''-'' @ hex_bytes (take 2 (drop 6 bin)) @ ''-'' @
     hex_bytes (take 2 (drop 8 bin)) @ ''-'' @ hex_bytes (take 6 (drop 10 bin))"

definition is_nil_uuid :: "char list \<Rightarrow> bool" where
  "is_nil_uuid uuid = list_all (\<lambda>c. c = NUL) (take 16 uuid)"

text \<open>Numbers in network byte order.\<close>

definition be16 :: "int \<Rightarrow> char list" where
  "be16 v = [u8 (v div 256), u8 v]"

fun get_be :: "nat \<Rightarrow> char list \<Rightarrow> nat" where
  "get_be acc [] = acc"
| "get_be acc (c # cs) = get_be (256 * acc + of_char c) cs"

definition wps_dev_type_str2bin :: "string \<Rightarrow> char list \<Rightarrow> int \<times> char list" where
  "wps_dev_type_str2bin str dev =
     (let dev = memwrite dev (be16 (atoi32 str))
      in case os_strchr str (CHR ''-'') of
          None \<Rightarrow> (-1, dev)
        | Some p \<Rightarrow>
            (case hexstr2bin_loop 4 (tl p) of
               (bs, ok) \<Rightarrow>
                 let dev = put_at dev 2 bs
                 in if \<not> ok then (-1, dev)
                    else case os_strchr (tl p) (CHR ''-'') of
                        None \<Rightarrow> (-1, dev)
                      | Some q \<Rightarrow> (0, put_at dev 6 (be16 (atoi32 (tl q))))))"

definition hex_bytes_upper :: "char list \<Rightarrow> string" where
  "hex_bytes_upper bs = concat (map (\<lambda>c. hex_pair True (of_char c)) bs)"

definition wps_dev_type_bin2str :: "char list \<Rightarrow> string" where
  "wps_dev_type_bin2str dev =
     show_nat (get_be 0 (take 2 dev)) @ ''-'' @ hex_bytes_upper (take 4 (drop 2 dev)) @ ''-'' @ show_nat (get_be 0 (take 2 (drop 6 dev)))"

definition wpabuf_parse_bin :: "string \<Rightarrow> char list option" where
  "wpabuf_parse_bin buf =
     (if odd (length buf) then None
      else case hexstr2bin_loop (length buf div 2) buf of (bs, ok) \<Rightarrow> (if ok then Some bs else None))"

text \<open>
  \<^verbatim>\<open>inet_aton\<close>: up to four numbers with dots between them, each decimal, octal or hexadecimal; the last one fills the bytes that are left.
  The numbers before the last are in \<open>parts\<close>.
\<close>

definition be_bytes :: "nat \<Rightarrow> int \<Rightarrow> char list" where
  "be_bytes n v = map (\<lambda>k. u8 (v div 256 ^ k)) (rev [0..<n])"

function aton_loop :: "char list \<Rightarrow> string \<Rightarrow> char list option" where
  "aton_loop parts s =
     (case strtol0 s of
        (v, r) \<Rightarrow>
          if \<not> c_isdigit (at0 s) \<or> 2 ^ 32 \<le> v then None
          else if at0 r = CHR ''.'' then
            if 3 \<le> length parts \<or> 255 < v then None else aton_loop (parts @ [u8 v]) (tl r)
          else if r \<noteq> [] \<and> \<not> c_isspace (hd r) then None
          else if 256 ^ (4 - length parts) \<le> v then None
          else Some (parts @ be_bytes (4 - length parts) v))"
  by pat_completeness auto
termination
  by (relation "measure (\<lambda>(parts, s). 4 - length parts)") auto

declare aton_loop.simps [simp del]

definition inet_aton :: "string \<Rightarrow> char list option" where
  "inet_aton s = aton_loop [] s"

definition ipv4_text :: "char list \<Rightarrow> string" where
  "ipv4_text a =
     show_nat (of_char (a ! 0)) @ ''.'' @ show_nat (of_char (a ! 1)) @ ''.'' @ show_nat (of_char (a ! 2)) @ ''.'' @ show_nat (of_char (a ! 3))"

definition hostapd_config_wmm_ac :: "string \<Rightarrow> string \<Rightarrow> (nat \<Rightarrow> wmm_ac) \<Rightarrow> int \<times> (nat \<Rightarrow> wmm_ac)" where
  "hostapd_config_wmm_ac name val params =
     (let pos = drop 7 name;
          num = (if str_starts pos ''be_'' then Some 0 else if str_starts pos ''bk_'' then Some 1
                 else if str_starts pos ''vi_'' then Some 2 else if str_starts pos ''vo_'' then Some (3 :: nat) else None);
          f = drop 3 pos; v = atoi32 val; put = (\<lambda>n g. (0, params(n := g (params n))))
      in case num of
          None \<Rightarrow> (-1, params)
        | Some n \<Rightarrow>
            if f = ''aifs'' then if v < 1 \<or> 255 < v then (-1, params) else put n (\<lambda>a. a\<lparr>ac_aifs := v\<rparr>)
            else if f = ''cwmin'' then if v < 0 \<or> 15 < v then (-1, params) else put n (\<lambda>a. a\<lparr>ac_cwmin := v\<rparr>)
            else if f = ''cwmax'' then if v < 0 \<or> 15 < v then (-1, params) else put n (\<lambda>a. a\<lparr>ac_cwmax := v\<rparr>)
            else if f = ''txop_limit'' then if v < 0 \<or> 65535 < v then (-1, params) else put n (\<lambda>a. a\<lparr>ac_txop_limit := v\<rparr>)
            else if f = ''acm'' then if v < 0 \<or> 1 < v then (-1, params) else put n (\<lambda>a. a\<lparr>ac_acm := v\<rparr>)
            else (-1, params))"

section \<open>The table of variables\<close>

datatype global_fn = G_int int int | G_str nat nat | G_bin | G_hex | G_ipv4 | G_bgscan | G_no_ctrl | G_load_eap | G_uuid | G_device_type |
  G_os_version | G_sec_device_type | G_pref_chan | G_no_go_freq | G_country | G_hessid | G_sae_groups | G_freq_list

record global_parse_data =
  gd_name :: string
  gd_fn :: global_fn
  gd_changed :: int

definition GF :: "string \<Rightarrow> global_fn \<Rightarrow> int \<Rightarrow> global_parse_data" where
  "GF name fn flag = \<lparr>gd_name = name, gd_fn = fn, gd_changed = flag\<rparr>"

definition opt_globals :: "build_opt set \<Rightarrow> build_opt \<Rightarrow> global_parse_data list \<Rightarrow> global_parse_data list" where
  "opt_globals b opt fs = (if opt \<in> b then fs else [])"

definition global_fields :: "build_opt set \<Rightarrow> global_parse_data list" where
  "global_fields b =
     opt_globals b OPT_CTRL_IFACE
       [GF ''ctrl_interface'' (G_str 0 0) 0, GF ''no_ctrl_interface'' G_no_ctrl 0, GF ''ctrl_interface_group'' (G_str 0 0) 0] @
     (if OPT_MACSEC \<in> b then [GF ''eapol_version'' (G_int 1 3) 0] else [GF ''eapol_version'' (G_int 1 2) 0]) @
     [GF ''ap_scan'' (G_int 0 0) 0, GF ''bgscan'' G_bgscan 0] @
     opt_globals b OPT_MESH
       [GF ''user_mpm'' (G_int 0 0) 0, GF ''max_peer_links'' (G_int 0 255) 0, GF ''mesh_max_inactivity'' (G_int 0 0) 0,
        GF ''dot11RSNASAERetransPeriod'' (G_int 0 0) 0] @
     [GF ''disable_scan_offload'' (G_int 0 0) 0, GF ''fast_reauth'' (G_int 0 0) 0, GF ''opensc_engine_path'' (G_str 0 0) 0,
        GF ''pkcs11_engine_path'' (G_str 0 0) 0, GF ''pkcs11_module_path'' (G_str 0 0) 0, GF ''openssl_ciphers'' (G_str 0 0) 0,
        GF ''pcsc_reader'' (G_str 0 0) 0, GF ''pcsc_pin'' (G_str 0 0) 0, GF ''external_sim'' (G_int 0 0) 0,
        GF ''driver_param'' (G_str 0 0) 0, GF ''dot11RSNAConfigPMKLifetime'' (G_int 0 0) 0,
        GF ''dot11RSNAConfigPMKReauthThreshold'' (G_int 0 0) 0, GF ''dot11RSNAConfigSATimeout'' (G_int 0 0) 0,
        GF ''update_config'' (G_int 0 0) 0, GF ''load_dynamic_eap'' G_load_eap 0] @
     opt_globals b OPT_WPS
       [GF ''uuid'' (G_uuid) (BIT 4), GF ''device_name'' (G_str 0 32) (BIT 0), GF ''manufacturer'' (G_str 0 64) (BIT 8),
        GF ''model_name'' (G_str 0 32) (BIT 8), GF ''model_number'' (G_str 0 32) (BIT 8), GF ''serial_number'' (G_str 0 32) (BIT 8),
        GF ''device_type'' (G_device_type) (BIT 2), GF ''os_version'' (G_os_version) (BIT 3), GF ''config_methods'' (G_str 0 0) (BIT 1),
        GF ''wps_cred_processing'' (G_int 0 2) 0, GF ''wps_vendor_ext_m1'' (G_hex) (BIT 10)] @
     opt_globals b OPT_P2P
       [GF ''sec_device_type'' (G_sec_device_type) (BIT 6), GF ''p2p_listen_reg_class'' (G_int 0 0) (BIT 11),
        GF ''p2p_listen_channel'' (G_int 0 0) (BIT 11), GF ''p2p_oper_reg_class'' (G_int 0 0) (BIT 12),
        GF ''p2p_oper_channel'' (G_int 0 0) (BIT 12), GF ''p2p_go_intent'' (G_int 0 15) 0, GF ''p2p_ssid_postfix'' (G_str 0 0) (BIT 7),
        GF ''persistent_reconnect'' (G_int 0 1) 0, GF ''p2p_intra_bss'' (G_int 0 1) (BIT 9), GF ''p2p_group_idle'' (G_int 0 0) 0,
        GF ''p2p_go_freq_change_policy'' (G_int 0 3) 0, GF ''p2p_passphrase_len'' (G_int 8 63) (BIT 16),
        GF ''p2p_pref_chan'' (G_pref_chan) (BIT 13), GF ''p2p_no_go_freq'' (G_no_go_freq) (BIT 13),
        GF ''p2p_add_cli_chan'' (G_int 0 1) 0, GF ''p2p_optimize_listen_chan'' (G_int 0 1) 0, GF ''p2p_go_ht40'' (G_int 0 0) 0,
        GF ''p2p_go_vht'' (G_int 0 0) 0, GF ''p2p_disabled'' (G_int 0 0) 0, GF ''p2p_go_ctwindow'' (G_int 0 127) 0,
        GF ''p2p_no_group_iface'' (G_int 0 0) 0, GF ''p2p_ignore_shared_freq'' (G_int 0 1) 0, GF ''ip_addr_go'' G_ipv4 0,
        GF ''ip_addr_mask'' G_ipv4 0, GF ''ip_addr_start'' G_ipv4 0, GF ''ip_addr_end'' G_ipv4 0, GF ''p2p_cli_probe'' (G_int 0 1) 0] @
     [GF ''country'' (G_country) (BIT 5), GF ''bss_max_count'' (G_int 0 0) 0, GF ''bss_expiration_age'' (G_int 0 0) 0,
        GF ''bss_expiration_scan_count'' (G_int 0 0) 0, GF ''filter_ssids'' (G_int 0 1) 0, GF ''filter_rssi'' (G_int (-100) 0) 0,
        GF ''max_num_sta'' (G_int 0 0) 0, GF ''disassoc_low_ack'' (G_int 0 1) 0] @
     opt_globals b OPT_HS20
       [GF ''hs20'' (G_int 0 1) 0] @
     [GF ''interworking'' (G_int 0 1) 0, GF ''hessid'' G_hessid 0, GF ''access_network_type'' (G_int 0 15) 0,
        GF ''pbc_in_m1'' (G_int 0 1) 0, GF ''autoscan'' (G_str 0 0) 0, GF ''wps_nfc_dev_pw_id'' (G_int 16 65535) (BIT 15),
        GF ''wps_nfc_dh_pubkey'' (G_bin) (BIT 15), GF ''wps_nfc_dh_privkey'' (G_bin) (BIT 15), GF ''wps_nfc_dev_pw'' (G_bin) (BIT 15),
        GF ''ext_password_backend'' (G_str 0 0) (BIT 14), GF ''p2p_go_max_inactivity'' (G_int 0 0) 0,
        GF ''auto_interworking'' (G_int 0 1) 0, GF ''okc'' (G_int 0 0) 0, GF ''pmf'' (G_int 0 0) 0, GF ''sae_groups'' G_sae_groups 0,
        GF ''dtim_period'' (G_int 0 0) 0, GF ''beacon_int'' (G_int 0 0) 0, GF ''ap_vendor_elements'' G_hex 0,
        GF ''ignore_old_scan_res'' (G_int 0 1) 0, GF ''freq_list'' G_freq_list 0, GF ''scan_cur_freq'' (G_int 0 0) 0,
        GF ''sched_scan_interval'' (G_int 0 0) 0, GF ''tdls_external_control'' (G_int 0 0) 0, GF ''osu_dir'' (G_str 0 0) 0,
        GF ''wowlan_triggers'' (G_str 0 0) 0, GF ''p2p_search_delay'' (G_int 0 0) 0, GF ''mac_addr'' (G_int 0 0) 0,
        GF ''rand_addr_lifetime'' (G_int 0 0) 0, GF ''preassoc_mac_addr'' (G_int 0 0) 0, GF ''key_mgmt_offload'' (G_int 0 0) 0,
        GF ''passive_scan'' (G_int 0 0) 0, GF ''reassoc_same_bss_optim'' (G_int 0 0) 0, GF ''wps_priority'' (G_int 0 0) 0] @
     opt_globals b OPT_FST
       [GF ''fst_group_id'' (G_str 1 16) 0, GF ''fst_priority'' (G_int 1 255) 0, GF ''fst_llt'' (G_int 1 4294967) 0] @
     [GF ''wpa_rsc_relaxation'' (G_int 0 1) 0, GF ''sched_scan_plans'' (G_str 0 0) (BIT 17)] @
     opt_globals b OPT_MBO
       [GF ''non_pref_chan'' (G_str 0 0) 0, GF ''mbo_cell_capa'' (G_int 1 3) 0] @
     [GF ''gas_address3'' (G_int 0 0) 0, GF ''ftm_responder'' (G_int 0 1) 0, GF ''ftm_initiator'' (G_int 0 1) 0]"

section \<open>The parsers\<close>

text \<open>A number out of bounds is replaced by the bound and reported as an error; a bound of zero is none.\<close>

definition wpa_global_config_parse_int :: "string \<Rightarrow> int \<Rightarrow> int \<Rightarrow> string \<Rightarrow> config \<Rightarrow> int \<times> config" where
  "wpa_global_config_parse_int f mn mx pos c =
     (let (v, endp) = strtol0 pos; val = int32 v; put = (\<lambda>x. c\<lparr>cf_int := (cf_int c)(f := x)\<rparr>)
      in if endp \<noteq> [] then (-1, c)
         else if mn \<noteq> 0 \<and> val < mn then (-1, put mn)
         else if mx \<noteq> 0 \<and> mx < val then (-1, put mx)
         else (0, put val))"

definition wpa_global_config_parse_str :: "string \<Rightarrow> nat \<Rightarrow> nat \<Rightarrow> string \<Rightarrow> config \<Rightarrow> int \<times> config" where
  "wpa_global_config_parse_str f mn mx pos c =
     (if mn \<noteq> 0 \<and> length pos < mn then (-1, c)
      else if mx \<noteq> 0 \<and> mx < length pos then (-1, c)
      else if has_newline pos then (-1, c)
      else (0, c\<lparr>cf_str := (cf_str c)(f := Some pos)\<rparr>))"

definition wpa_config_process_bgscan :: "string \<Rightarrow> string \<Rightarrow> config \<Rightarrow> int \<times> config" where
  "wpa_config_process_bgscan f pos c =
     (case wpa_config_parse_string pos of None \<Rightarrow> (-1, c) | Some tmp \<Rightarrow> wpa_global_config_parse_str f 0 0 (cstr_of tmp) c)"

definition wpa_global_config_parse_bin :: "string \<Rightarrow> string \<Rightarrow> config \<Rightarrow> int \<times> config" where
  "wpa_global_config_parse_bin f pos c =
     (case wpabuf_parse_bin pos of None \<Rightarrow> (-1, c) | Some tmp \<Rightarrow> (0, c\<lparr>cf_bin := (cf_bin c)(f := Some tmp)\<rparr>))"

text \<open>The two variables that take any number of hexadecimal pairs; a single digit behind them is ignored.\<close>

definition wpa_config_process_hex :: "string \<Rightarrow> string \<Rightarrow> config \<Rightarrow> int \<times> config" where
  "wpa_config_process_hex f pos c =
     (let len = length pos div 2
      in if len = 0 then (-1, c)
         else case hexstr2bin_loop len pos of (bs, ok) \<Rightarrow> (if \<not> ok then (-1, c) else (0, c\<lparr>cf_bin := (cf_bin c)(f := Some bs)\<rparr>)))"

definition wpa_config_process_freq_list :: "string \<Rightarrow> config \<Rightarrow> int \<times> config" where
  "wpa_config_process_freq_list value c = (0, c\<lparr>cf_freq_list := wpa_config_parse_int_array value\<rparr>)"

definition put_mem :: "string \<Rightarrow> char list \<Rightarrow> config \<Rightarrow> config" where
  "put_mem f m c = c\<lparr>cf_mem := (cf_mem c)(f := m)\<rparr>"

definition wpa_global_config_parse_ipv4 :: "string \<Rightarrow> string \<Rightarrow> config \<Rightarrow> int \<times> config" where
  "wpa_global_config_parse_ipv4 f pos c = (case inet_aton pos of None \<Rightarrow> (-1, c) | Some a \<Rightarrow> (0, put_mem f a c))"

definition wpa_config_process_country :: "string \<Rightarrow> config \<Rightarrow> int \<times> config" where
  "wpa_config_process_country pos c = (if length pos < 2 then (-1, c) else (0, put_mem ''country'' (take 2 pos) c))"

definition wpa_config_process_load_dynamic_eap :: "(string \<Rightarrow> int) \<Rightarrow> string \<Rightarrow> config \<Rightarrow> int \<times> config" where
  "wpa_config_process_load_dynamic_eap load_eap so c = (let ret = load_eap so in (if ret = -2 \<or> ret = 0 then 0 else -1, c))"

definition wpa_config_process_uuid :: "string \<Rightarrow> config \<Rightarrow> int \<times> config" where
  "wpa_config_process_uuid pos c =
     (case uuid_str2bin pos (cf_mem c ''uuid'') of (r, m) \<Rightarrow> (if r \<noteq> 0 then -1 else 0, put_mem ''uuid'' m c))"

definition wpa_config_process_device_type :: "string \<Rightarrow> config \<Rightarrow> int \<times> config" where
  "wpa_config_process_device_type pos c =
     (case wps_dev_type_str2bin pos (cf_mem c ''device_type'') of (r, m) \<Rightarrow> (r, put_mem ''device_type'' m c))"

definition wpa_config_process_os_version :: "string \<Rightarrow> config \<Rightarrow> int \<times> config" where
  "wpa_config_process_os_version pos c =
     (case hexstr2bin pos (cf_mem c ''os_version'') 4 of (r, m) \<Rightarrow> (if r \<noteq> 0 then -1 else 0, put_mem ''os_version'' m c))"

definition MAX_SEC_DEVICE_TYPES :: nat where "MAX_SEC_DEVICE_TYPES = 5"

text \<open>An entry that is refused may leave its bytes behind the used ones; they are not part of the list.\<close>

definition wpa_config_process_sec_device_type :: "string \<Rightarrow> config \<Rightarrow> int \<times> config" where
  "wpa_config_process_sec_device_type pos c =
     (if MAX_SEC_DEVICE_TYPES \<le> length (cf_sec_device_type c) then (-1, c)
      else case wps_dev_type_str2bin pos (replicate 8 NUL) of
          (r, m) \<Rightarrow> if r \<noteq> 0 then (-1, c) else (0, c\<lparr>cf_sec_device_type := cf_sec_device_type c @ [m]\<rparr>))"

text \<open>Pairs of a class and a channel; \<open>None\<close> when a colon is missing.\<close>

lemma strchr_tl_shorter: "os_strchr s c = Some r \<Longrightarrow> length (tl r) < length s"
  by (auto dest: os_strchr_Some)

function pref_chan_loop :: "string \<Rightarrow> (nat \<times> nat) list option" where
  "pref_chan_loop pos =
     (if pos = [] then Some []
      else case os_strchr pos (CHR '':'') of
          None \<Rightarrow> None
        | Some p \<Rightarrow>
            let x = (u8_of (atoi32 pos), u8_of (atoi32 (tl p)))
            in case os_strchr (tl p) (CHR '','') of
                None \<Rightarrow> Some [x]
              | Some q \<Rightarrow> map_option ((#) x) (pref_chan_loop (tl q)))"
  by pat_completeness auto
termination
  by (relation "measure length") (auto dest!: strchr_tl_shorter)

declare pref_chan_loop.simps [simp del]

definition wpa_config_process_p2p_pref_chan :: "string \<Rightarrow> config \<Rightarrow> int \<times> config" where
  "wpa_config_process_p2p_pref_chan pos c =
     (case pref_chan_loop pos of None \<Rightarrow> (-1, c) | Some l \<Rightarrow> (0, c\<lparr>cf_pref_chan := l\<rparr>))"

definition wpa_config_process_p2p_no_go_freq :: "string \<Rightarrow> config \<Rightarrow> int \<times> config" where
  "wpa_config_process_p2p_no_go_freq pos c = (0, c\<lparr>cf_no_go_freq := freq_range_list_parse (Some pos)\<rparr>)"

definition wpa_config_process_hessid :: "string \<Rightarrow> config \<Rightarrow> int \<times> config" where
  "wpa_config_process_hessid pos c =
     (case hwaddr_aton2 pos (cf_mem c ''hessid'') of (r, m) \<Rightarrow> (if r < 0 then -1 else 0, put_mem ''hessid'' m c))"

definition wpa_config_process_sae_groups :: "string \<Rightarrow> config \<Rightarrow> int \<times> config" where
  "wpa_config_process_sae_groups pos c = (0, c\<lparr>cf_sae_groups := Some (wpa_config_parse_int_array pos)\<rparr>)"

definition wpa_config_process_no_ctrl_interface :: "config \<Rightarrow> int \<times> config" where
  "wpa_config_process_no_ctrl_interface c = (0, c\<lparr>cf_str := (cf_str c)(''ctrl_interface'' := None)\<rparr>)"

fun global_parser :: "(string \<Rightarrow> int) \<Rightarrow> string \<Rightarrow> global_fn \<Rightarrow> string \<Rightarrow> config \<Rightarrow> int \<times> config" where
  "global_parser load_eap f (G_int mn mx) pos c = wpa_global_config_parse_int f mn mx pos c"
| "global_parser load_eap f (G_str mn mx) pos c = wpa_global_config_parse_str f mn mx pos c"
| "global_parser load_eap f G_bin pos c = wpa_global_config_parse_bin f pos c"
| "global_parser load_eap f G_hex pos c = wpa_config_process_hex f pos c"
| "global_parser load_eap f G_ipv4 pos c = wpa_global_config_parse_ipv4 f pos c"
| "global_parser load_eap f G_bgscan pos c = wpa_config_process_bgscan f pos c"
| "global_parser load_eap f G_no_ctrl pos c = wpa_config_process_no_ctrl_interface c"
| "global_parser load_eap f G_load_eap pos c = wpa_config_process_load_dynamic_eap load_eap pos c"
| "global_parser load_eap f G_uuid pos c = wpa_config_process_uuid pos c"
| "global_parser load_eap f G_device_type pos c = wpa_config_process_device_type pos c"
| "global_parser load_eap f G_os_version pos c = wpa_config_process_os_version pos c"
| "global_parser load_eap f G_sec_device_type pos c = wpa_config_process_sec_device_type pos c"
| "global_parser load_eap f G_pref_chan pos c = wpa_config_process_p2p_pref_chan pos c"
| "global_parser load_eap f G_no_go_freq pos c = wpa_config_process_p2p_no_go_freq pos c"
| "global_parser load_eap f G_country pos c = wpa_config_process_country pos c"
| "global_parser load_eap f G_hessid pos c = wpa_config_process_hessid pos c"
| "global_parser load_eap f G_sae_groups pos c = wpa_config_process_sae_groups pos c"
| "global_parser load_eap f G_freq_list pos c = wpa_config_process_freq_list pos c"

text \<open>
  A line of the form \<open>name=value\<close>. \<open>line\<close> is negative for a value set by a command. A line for a parameter of an access category is
  reported as an error also when its value has been stored.
\<close>

definition CFG_CHANGED_NFC_PASSWORD_TOKEN :: int where "CFG_CHANGED_NFC_PASSWORD_TOKEN = BIT 15"

definition cut_equals :: "string \<Rightarrow> (string \<times> string) option" where
  "cut_equals t = map_option (\<lambda>r. (take (length t - length r) t, tl r)) (os_strchr t (CHR ''=''))"

definition wpa_config_process_global :: "build_opt set \<Rightarrow> (string \<Rightarrow> int) \<Rightarrow> string \<Rightarrow> config \<Rightarrow> int \<times> config" where
  "wpa_config_process_global b load_eap pos c =
     (case find (\<lambda>d. str_starts pos (gd_name d @ ''='')) (global_fields b) of
        Some d \<Rightarrow>
          (case global_parser load_eap (gd_name d) (gd_fn d) (drop (length (gd_name d) + 1) pos) c of
             (r, c) \<Rightarrow>
               (if r \<noteq> 0 then -1 else 0,
                c\<lparr>cf_changed := cf_changed c OR gd_changed d,
                  cf_nfc_from_config := cf_nfc_from_config c \<or> gd_changed d = CFG_CHANGED_NFC_PASSWORD_TOKEN\<rparr>))
      | None \<Rightarrow>
          if OPT_AP \<in> b \<and> str_starts pos ''wmm_ac_'' then
            (case cut_equals pos of
               None \<Rightarrow> (-1, c)
             | Some (name, val) \<Rightarrow> (-1, c\<lparr>cf_wmm := snd (hostapd_config_wmm_ac name val (cf_wmm c))\<rparr>))
          else (-1, c))"

section \<open>Reading variables\<close>

text \<open>
  What a variable prints, with the flag of a text whose length is checked: \<open>None\<close> without a function to print it, \<open>Some None\<close> for
  a failure.
\<close>

fun global_get :: "string \<Rightarrow> global_fn \<Rightarrow> bool \<Rightarrow> config \<Rightarrow> (bool \<times> string) option option" where
  "global_get f (G_int mn mx) pretty c =
     Some (Some (False, if pretty then f @ ''='' @ show_int (cf_int c f) @ [NL] else show_int (cf_int c f)))"
| "global_get f (G_str mn mx) pretty c =
     Some (if pretty then Some (True, f @ ''='' @ (case cf_str c f of None \<Rightarrow> ''null'' | Some v \<Rightarrow> v) @ [NL])
           else map_option (Pair True) (cf_str c f))"
| "global_get f G_ipv4 pretty c =
     Some (Some (True, if pretty then f @ ''='' @ ipv4_text (cf_mem c f) @ [NL] else ipv4_text (cf_mem c f)))"
| "global_get f fn pretty c = None"

text \<open>
  Printing all variables: \<open>room\<close> is what is left of the buffer, \<open>None\<close> once a number that did not fit has been counted as written, after
  which the size that is left has wrapped around and the next variable is written behind the buffer.
\<close>

fun dump_loop :: "global_parse_data list \<Rightarrow> config \<Rightarrow> nat option \<Rightarrow> nat \<Rightarrow> string \<Rightarrow> (int \<times> string) outcome" where
  "dump_loop [] c room n text = Val (int n, text)"
| "dump_loop (d # ds) c room n text =
     (case global_get (gd_name d) (gd_fn d) True c of
        None \<Rightarrow> dump_loop ds c room n text
      | Some None \<Rightarrow> Val (-1, text)
      | Some (Some (checked, t)) \<Rightarrow>
          (case room of
             None \<Rightarrow> Undef Oob_write
           | Some r \<Rightarrow>
               let (u, ret) = os_snprintf r t
               in if checked \<and> os_snprintf_error r ret then Val (-1, text @ u)
                  else dump_loop ds c (if length t \<le> r then Some (r - length t) else None) (n + length t) (text @ u)))"

definition wpa_config_dump_values :: "build_opt set \<Rightarrow> config \<Rightarrow> nat \<Rightarrow> (int \<times> string) outcome" where
  "wpa_config_dump_values b c buflen = dump_loop (global_fields b) c (Some buflen) 0 []"

definition wpa_config_get_value :: "build_opt set \<Rightarrow> string \<Rightarrow> config \<Rightarrow> nat \<Rightarrow> int \<times> string" where
  "wpa_config_get_value b name c buflen =
     (case find (\<lambda>d. gd_name d = name) (global_fields b) of
        None \<Rightarrow> (-1, [])
      | Some d \<Rightarrow>
          (case global_get name (gd_fn d) False c of
             Some (Some (checked, t)) \<Rightarrow>
               let (u, ret) = os_snprintf buflen t in if checked \<and> os_snprintf_error buflen ret then (-1, u) else (ret, u)
           | _ \<Rightarrow> (-1, [])))"

definition wpa_config_get_num_global_field_names :: "build_opt set \<Rightarrow> nat" where
  "wpa_config_get_num_global_field_names b = length (global_fields b)"

definition wpa_config_get_global_field_name :: "build_opt set \<Rightarrow> nat \<Rightarrow> (string \<times> bool) option" where
  "wpa_config_get_global_field_name b i =
     (if length (global_fields b) \<le> i then None
      else let d = global_fields b ! i in Some (gd_name d, gd_fn d = G_no_ctrl \<or> gd_fn d = G_load_eap))"

section \<open>Blobs and the empty configuration\<close>

definition wpa_config_get_blob :: "config \<Rightarrow> string \<Rightarrow> (string \<times> char list) option" where
  "wpa_config_get_blob c name = find (\<lambda>x. fst x = name) (cf_blobs c)"

fun remove_named :: "string \<Rightarrow> (string \<times> char list) list \<Rightarrow> (string \<times> char list) list option" where
  "remove_named name [] = None"
| "remove_named name (x # xs) = (if fst x = name then Some xs else map_option ((#) x) (remove_named name xs))"

definition wpa_config_remove_blob :: "config \<Rightarrow> string \<Rightarrow> int \<times> config" where
  "wpa_config_remove_blob c name =
     (case remove_named name (cf_blobs c) of None \<Rightarrow> (-1, c) | Some bs \<Rightarrow> (0, c\<lparr>cf_blobs := bs\<rparr>))"

definition wpa_config_set_blob :: "config \<Rightarrow> string \<times> char list \<Rightarrow> config" where
  "wpa_config_set_blob c blob = (let c = snd (wpa_config_remove_blob c (fst blob)) in c\<lparr>cf_blobs := blob # cf_blobs c\<rparr>)"

definition default_ints :: "build_opt set \<Rightarrow> (string \<times> int) list" where
  "default_ints b =
     [(''eapol_version'', 1), (''ap_scan'', 1), (''user_mpm'', 1), (''max_peer_links'', 99), (''mesh_max_inactivity'', 300),
      (''dot11RSNASAERetransPeriod'', 1000), (''fast_reauth'', 1), (''p2p_go_intent'', 7), (''p2p_intra_bss'', 1), (''p2p_go_freq_change_policy'', 2),
      (''p2p_go_max_inactivity'', 300), (''p2p_optimize_listen_chan'', 0), (''p2p_go_ctwindow'', 0), (''bss_max_count'', 200),
      (''bss_expiration_age'', 180), (''bss_expiration_scan_count'', 2), (''max_num_sta'', 128), (''access_network_type'', 15), (''scan_cur_freq'', 0),
      (''p2p_search_delay'', 500), (''rand_addr_lifetime'', 60), (''key_mgmt_offload'', 1), (''cert_in_cb'', 1), (''wpa_rsc_relaxation'', 1)] @
     (if OPT_MBO \<in> b then [(''mbo_cell_capa'', 3)] else [])"

definition default_wmm :: "nat \<Rightarrow> wmm_ac" where
  "default_wmm n =
     (if n = 0 then \<lparr>ac_cwmin = 4, ac_cwmax = 10, ac_aifs = 3, ac_txop_limit = 0, ac_acm = 0\<rparr>
      else if n = 1 then \<lparr>ac_cwmin = 4, ac_cwmax = 10, ac_aifs = 7, ac_txop_limit = 0, ac_acm = 0\<rparr>
      else if n = 2 then \<lparr>ac_cwmin = 3, ac_cwmax = 4, ac_aifs = 2, ac_txop_limit = 93, ac_acm = 0\<rparr>
      else \<lparr>ac_cwmin = 2, ac_cwmax = 3, ac_aifs = 2, ac_txop_limit = 46, ac_acm = 0\<rparr>)"

definition wpa_config_alloc_empty :: "build_opt set \<Rightarrow> string option \<Rightarrow> string option \<Rightarrow> config" where
  "wpa_config_alloc_empty b ctrl_interface driver_param =
     \<lparr>cf_nets = \<lparr>wc_ssid = [], wc_pssid = []\<rparr>, cf_cred = [], cf_blobs = [], cf_int = set_ints (default_ints b) (\<lambda>_. 0),
      cf_str = (\<lambda>_. None)(''ctrl_interface'' := ctrl_interface, ''driver_param'' := driver_param), cf_bin = (\<lambda>_. None),
      cf_mem = (\<lambda>f. replicate (if f = ''uuid'' then 16 else if f = ''device_type'' then 8 else if f = ''country'' then 2
                              else if f = ''hessid'' then ETH_ALEN else 4) NUL),
      cf_sec_device_type = [], cf_pref_chan = [], cf_no_go_freq = [], cf_freq_list = [], cf_sae_groups = None, cf_wmm = default_wmm,
      cf_changed = 0, cf_nfc_from_config = False\<rparr>"

end
