(* ===== verification/Conf_Read.thy ===== *)
theory Conf_Read
  imports Global_Config Base64
begin

text \<open>
  Reading a configuration file, \<^verbatim>\<open>wpa_supplicant/config_file.c\<close>. A file is the list of the characters that are left to read; reading
  a line also returns the rest. Line numbers occur in messages only and are left out. Derivation of keys is the argument \<open>pb\<close>.
\<close>

section \<open>Lines\<close>

fun line_chunk :: "nat \<Rightarrow> char list \<Rightarrow> char list \<times> char list" where
  "line_chunk 0 f = ([], f)"
| "line_chunk (Suc n) [] = ([], [])"
| "line_chunk (Suc n) (c # f) = (if c = NL then ([c], f) else case line_chunk n f of (s, r) \<Rightarrow> (c # s, r))"

definition fgets :: "nat \<Rightarrow> char list \<Rightarrow> (char list \<times> char list) option" where
  "fgets sz f = (if f = [] then None else Some (line_chunk (sz - 1) f))"

definition newline_terminated :: "string \<Rightarrow> nat \<Rightarrow> bool" where
  "newline_terminated s buflen = (if s = [] then False else if length s = buflen - 1 \<and> last s \<noteq> NL then False else True)"

lemma line_chunk_length: "line_chunk n f = (s, r) \<Longrightarrow> length s + length r = length f"
  by (induction n f arbitrary: s r rule: line_chunk.induct) (auto split: prod.splits if_splits)

lemma fgets_shorter: "fgets sz f = Some (s, r) \<Longrightarrow> 2 \<le> sz \<Longrightarrow> length r < length f"
proof -
  assume a: "fgets sz f = Some (s, r)" "2 \<le> sz"
  then obtain c t n where f: "f = c # t" "sz - 1 = Suc n" by (cases f; cases "sz - 1") (auto simp: fgets_def)
  then have "s \<noteq> []" using a(1) by (auto simp: fgets_def split: prod.splits if_splits)
  moreover have "length s + length r = length f" using a(1) line_chunk_length by (auto simp: fgets_def split: if_splits)
  ultimately show ?thesis by (cases s) auto
qed

text \<open>The rest of a line that did not fit is read in pieces and dropped.\<close>

function skip_line_end :: "char list \<Rightarrow> char list" where
  "skip_line_end f =
     (case fgets 100 f of
        None \<Rightarrow> []
      | Some (s, r) \<Rightarrow> if newline_terminated (cstr_of s) 100 then r else skip_line_end r)"
  by pat_completeness auto
termination
  by (relation "measure length") (auto dest: fgets_shorter)

declare skip_line_end.simps [simp del]

lemma skip_line_end_length: "length (skip_line_end f) \<le> length f"
proof (induction f rule: skip_line_end.induct)
  case (1 f)
  show ?case
  proof (cases "fgets 100 f")
    case None
    then show ?thesis by (simp add: skip_line_end.simps)
  next
    case (Some x)
    obtain s r where x: "x = (s, r)" by (cases x)
    then have "length r < length f" using Some fgets_shorter [of 100 f s r] by simp
    then show ?thesis using 1 [OF Some x [symmetric]] Some x by (auto simp: skip_line_end.simps [of f])
  qed
qed

definition line_blank :: "char \<Rightarrow> bool" where
  "line_blank c \<longleftrightarrow> c = CHR '' '' \<or> c = TAB \<or> c = CR"

text \<open>A line without its comment, which starts behind the last quotation mark if there are two, and without the white space at its end.\<close>

definition comment_start :: "string \<Rightarrow> string option" where
  "comment_start pos =
     os_strchr
       (case os_strchr pos DQ of
          None \<Rightarrow> pos
        | Some q \<Rightarrow> (case os_strrchr_idx (tl q) DQ of None \<Rightarrow> pos | Some i \<Rightarrow> drop i (tl q)))
       (CHR ''#'')"

definition trim_end :: "string \<Rightarrow> string" where
  "trim_end t = (case t of [] \<Rightarrow> [] | c # r \<Rightarrow> c # rev (dropWhile (\<lambda>c. c = NL \<or> line_blank c) (rev r)))"

definition strip_line :: "string \<Rightarrow> string" where
  "strip_line pos = trim_end (case comment_start pos of None \<Rightarrow> pos | Some e \<Rightarrow> take (length pos - length e) pos)"

text \<open>The next line with data, read through a buffer of \<open>sz\<close> bytes, and the rest of the file.\<close>

function wpa_config_get_line :: "nat \<Rightarrow> char list \<Rightarrow> (string \<times> char list) option" where
  "wpa_config_get_line sz f =
     (if sz < 2 then None
      else case fgets sz f of
          None \<Rightarrow> None
        | Some (s, r) \<Rightarrow>
            let s = cstr_of s; r = (if newline_terminated s sz then r else skip_line_end r); pos = dropWhile line_blank s
            in if pos = [] \<or> hd pos = CHR ''#'' \<or> hd pos = NL then wpa_config_get_line sz r
               else Some (strip_line pos, r))"
  by pat_completeness auto
termination
proof (relation "measure (\<lambda>(sz, f). length f)")
  fix sz and f s r :: "char list" and x2 xa xb xc xd
  assume a: "\<not> sz < 2" "fgets sz f = Some x2" "(s, r) = x2" "xa = cstr_of s"
    "xb = (if newline_terminated xa sz then r else skip_line_end r)" "xc = dropWhile line_blank xa"
  have "length r < length f" using a fgets_shorter [of sz f s r] by simp
  then show "((sz, xb), sz, f) \<in> measure (\<lambda>(sz, f). length f)" using a(5) skip_line_end_length [of r] by auto
qed simp

declare wpa_config_get_line.simps [simp del]

lemma get_line_shorter: "wpa_config_get_line sz f = Some (s, r) \<Longrightarrow> length r < length f"
proof (induction sz f rule: wpa_config_get_line.induct)
  case (1 sz f)
  have sz: "\<not> sz < 2" using 1(2) by (auto simp: wpa_config_get_line.simps [of sz f] split: if_splits)
  obtain t u where t: "fgets sz f = Some (t, u)"
    using 1(2) sz by (cases "fgets sz f") (auto simp: wpa_config_get_line.simps [of sz f])
  define v where "v = (if newline_terminated (cstr_of t) sz then u else skip_line_end u)"
  define p where "p = dropWhile line_blank (cstr_of t)"
  have l: "length v < length f" using fgets_shorter [OF t] sz skip_line_end_length [of u] by (auto simp: v_def)
  have e: "wpa_config_get_line sz f =
      (if p = [] \<or> hd p = CHR ''#'' \<or> hd p = NL then wpa_config_get_line sz v else Some (strip_line p, v))"
    unfolding wpa_config_get_line.simps [of sz f] v_def p_def using sz t by (simp add: Let_def)
  show ?case
  proof (cases "p = [] \<or> hd p = CHR ''#'' \<or> hd p = NL")
    case True
    then have "length r < length v" using 1(1) [OF sz t refl refl v_def p_def True] 1(2) e by simp
    then show ?thesis using l by simp
  next
    case False
    then show ?thesis using 1(2) e l by auto
  qed
qed

section \<open>Blocks\<close>

definition WPA_KEY_MGMT_NONE :: int where "WPA_KEY_MGMT_NONE = BIT 2"
definition WPA_KEY_MGMT_SAE :: int where "WPA_KEY_MGMT_SAE = BIT 10"
definition WPA_CIPHER_NONE :: int where "WPA_CIPHER_NONE = BIT 0"
definition WPA_CIPHER_CCMP :: int where "WPA_CIPHER_CCMP = BIT 4"
definition WPAS_MODE_MESH :: int where "WPAS_MODE_MESH = 5"

definition wpa_config_validate_network :: "build_opt set \<Rightarrow> kdf \<Rightarrow> wpa_ssid \<Rightarrow> (nat \<times> wpa_ssid) outcome" where
  "wpa_config_validate_network b pb ssid =
     (let errors = (if ws_passphrase ssid \<noteq> None \<and> ws_psk_set ssid then 1 else 0)
      in obind (if ws_passphrase ssid \<noteq> None then wpa_config_update_psk b pb ssid else Val ssid) (\<lambda>ssid.
         let ssid = (if ws_group_cipher ssid AND WPA_CIPHER_CCMP \<noteq> 0 \<and> ws_pairwise_cipher ssid AND WPA_CIPHER_CCMP = 0 \<and>
                        ws_pairwise_cipher ssid AND WPA_CIPHER_NONE = 0
                     then ssid\<lparr>ws_group_cipher := ws_group_cipher ssid AND NOT WPA_CIPHER_CCMP\<rparr> else ssid);
             errors = (if ws_int ssid ''mode'' = WPAS_MODE_MESH \<and> ws_key_mgmt ssid \<noteq> WPA_KEY_MGMT_NONE \<and> ws_key_mgmt ssid \<noteq> WPA_KEY_MGMT_SAE
                       then errors + 1 else errors)
         in Val (errors, ssid)))"

text \<open>A line of a block: \<open>None\<close> for a line that is no assignment, or with an open quotation.\<close>

definition block_line :: "string \<Rightarrow> (string \<times> string) option" where
  "block_line pos =
     (case cut_equals pos of
        None \<Rightarrow> None
      | Some (name, value) \<Rightarrow> if at0 value = DQ \<and> os_strchr (tl value) DQ = None then None else Some (name, value))"

text \<open>The lines of a block up to its end; what a line does is \<open>put\<close>. The result is the new state, the number of errors and the rest.\<close>

function read_block :: "nat \<Rightarrow> ('s \<Rightarrow> string \<Rightarrow> string \<Rightarrow> int \<times> 's) \<Rightarrow> 's \<Rightarrow> nat \<Rightarrow> char list \<Rightarrow> 's \<times> nat \<times> char list" where
  "read_block sz put s errors f =
     (case wpa_config_get_line sz f of
        None \<Rightarrow> (s, errors + 1, [])
      | Some (pos, r) \<Rightarrow>
          if pos = ''}'' then (s, errors, r)
          else case block_line pos of
              None \<Rightarrow> read_block sz put s (errors + 1) r
            | Some (name, value) \<Rightarrow>
                (case put s name value of (ret, s) \<Rightarrow> read_block sz put s (if ret < 0 then errors + 1 else errors) r))"
  by pat_completeness auto
termination
  by (relation "measure (\<lambda>(sz, put, s, errors, f). length f)") (auto dest: get_line_shorter)

declare read_block.simps [simp del]

lemma read_block_length: "length (snd (snd (read_block sz put s errors f))) \<le> length f"
proof (induction sz put s errors f rule: read_block.induct)
  case (1 sz put s errors f)
  show ?case
  proof (cases "wpa_config_get_line sz f")
    case None
    then show ?thesis by (simp add: read_block.simps [of sz put s errors f])
  next
    case (Some x)
    obtain pos r where x: "x = (pos, r)" by (cases x)
    have l: "length r < length f" using get_line_shorter Some x by blast
    show ?thesis
    proof (cases "pos = ''}''")
      case True
      then show ?thesis using Some x l by (simp add: read_block.simps [of sz put s errors f])
    next
      case False
      note ih = 1 [OF Some x [symmetric] False]
      show ?thesis
      proof (cases "block_line pos")
        case None
        then show ?thesis using ih(1) Some x l False by (auto simp: read_block.simps [of sz put s errors f])
      next
        case (Some y)
        obtain name v where y: "y = (name, v)" by (cases y)
        obtain ret s' where "put s name v = (ret, s')" by fastforce
        then show ?thesis using ih(2) [OF Some y [symmetric]] \<open>wpa_config_get_line sz f = Some x\<close> Some x y l False
          by (auto simp: read_block.simps [of sz put s errors f])
      qed
    qed
  qed
qed

definition wpa_config_read_network ::
  "build_opt set \<Rightarrow> eap_methods \<Rightarrow> kdf \<Rightarrow> int \<Rightarrow> char list \<Rightarrow> (wpa_ssid option \<times> char list) outcome" where
  "wpa_config_read_network b methods pb i f =
     (case read_block 2000 (wpa_config_set b methods) (wpa_config_set_network_defaults b (zero_ssid i)) 0 f of
        (ssid, errors, r) \<Rightarrow>
          omap (\<lambda>(e, ssid). (if errors + e \<noteq> 0 then None else Some ssid, r)) (wpa_config_validate_network b pb ssid))"

definition wpa_config_read_cred :: "eap_methods \<Rightarrow> int \<Rightarrow> char list \<Rightarrow> wpa_cred option \<times> char list" where
  "wpa_config_read_cred methods i f =
     (case read_block 256 (wpa_config_set_cred methods) (zero_cred i) 0 f of (cred, errors, r) \<Rightarrow> (if errors \<noteq> 0 then None else Some cred, r))"

text \<open>The lines of a blob up to its end, joined; \<open>None\<close> when the end is missing.\<close>

function blob_lines :: "string \<Rightarrow> char list \<Rightarrow> string option \<times> char list" where
  "blob_lines encoded f =
     (case wpa_config_get_line 256 f of
        None \<Rightarrow> (None, [])
      | Some (pos, r) \<Rightarrow> if pos = ''}'' then (Some encoded, r) else blob_lines (encoded @ pos) r)"
  by pat_completeness auto
termination
  by (relation "measure (\<lambda>(encoded, f). length f)") (auto dest: get_line_shorter)

declare blob_lines.simps [simp del]

lemma blob_lines_length: "length (snd (blob_lines encoded f)) \<le> length f"
proof (induction encoded f rule: blob_lines.induct)
  case (1 encoded f)
  show ?case
  proof (cases "wpa_config_get_line 256 f")
    case None
    then show ?thesis by (simp add: blob_lines.simps [of encoded f])
  next
    case (Some x)
    obtain pos r where x: "x = (pos, r)" by (cases x)
    have "length r < length f" using get_line_shorter Some x by blast
    then show ?thesis using 1 [OF Some x [symmetric]] Some x by (auto simp: blob_lines.simps [of encoded f])
  qed
qed

definition wpa_config_read_blob :: "string \<Rightarrow> char list \<Rightarrow> (string \<times> char list) option \<times> char list" where
  "wpa_config_read_blob name f =
     (case blob_lines [] f of
        (None, r) \<Rightarrow> (None, r)
      | (Some encoded, r) \<Rightarrow> (map_option (Pair name) (base64_decode encoded), r))"

definition wpa_config_process_blob :: "string \<Rightarrow> char list \<Rightarrow> config \<Rightarrow> int \<times> config \<times> char list" where
  "wpa_config_process_blob bname f c =
     (case cut_equals bname of
        None \<Rightarrow> (-1, c, f)
      | Some (name, rest) \<Rightarrow>
          (case wpa_config_read_blob name f of
             (None, r) \<Rightarrow> (-1, c, r)
           | (Some blob, r) \<Rightarrow> (0, wpa_config_set_blob c blob, r)))"

section \<open>The file\<close>

definition add_read_network :: "wpa_ssid \<Rightarrow> config \<Rightarrow> config" where
  "add_read_network ssid c =
     c\<lparr>cf_nets := (cf_nets c)\<lparr>wc_ssid := wc_ssid (cf_nets c) @ [ssid], wc_pssid := wpa_config_add_prio_network ssid (wc_pssid (cf_nets c))\<rparr>\<rparr>"

text \<open>
  The loop over the lines outside of blocks: \<open>i\<close> and \<open>j\<close> are the next ids of networks and credentials. A network and its place in the
  priority lists are added at the end of what is there.
\<close>

lemma read_network_length: "wpa_config_read_network b methods pb i f = Val (s, r) \<Longrightarrow> length r \<le> length f"
  using read_block_length [of 2000 "wpa_config_set b methods" "wpa_config_set_network_defaults b (zero_ssid i)" 0 f]
  by (auto simp: wpa_config_read_network_def outcome_simps split: prod.splits)

lemma read_cred_length: "length (snd (wpa_config_read_cred methods i f)) \<le> length f"
  using read_block_length [of 256 "wpa_config_set_cred methods" "zero_cred i" 0 f]
  by (auto simp: wpa_config_read_cred_def split: prod.split)

lemma process_blob_length: "length (snd (snd (wpa_config_process_blob bname f c))) \<le> length f"
  using blob_lines_length [of "[]" f]
  by (auto simp: wpa_config_process_blob_def wpa_config_read_blob_def split: option.split prod.splits)

function read_lines ::
  "build_opt set \<Rightarrow> eap_methods \<Rightarrow> kdf \<Rightarrow> (string \<Rightarrow> int) \<Rightarrow> config \<Rightarrow> int \<Rightarrow> int \<Rightarrow> nat \<Rightarrow> char list \<Rightarrow> (config \<times> nat) outcome" where
  "read_lines b methods pb load_eap c i j errors f =
     (case wpa_config_get_line 512 f of
        None \<Rightarrow> Val (c, errors)
      | Some (pos, r) \<Rightarrow>
          if pos = ''network={'' then
            (case wpa_config_read_network b methods pb i r of
               Undef u \<Rightarrow> Undef u
             | Loops \<Rightarrow> Loops
             | Val (None, r) \<Rightarrow> read_lines b methods pb load_eap c (i + 1) j (errors + 1) r
             | Val (Some s, r) \<Rightarrow> read_lines b methods pb load_eap (add_read_network s c) (i + 1) j errors r)
          else if pos = ''cred={'' then
            (case wpa_config_read_cred methods j r of
               (None, r) \<Rightarrow> read_lines b methods pb load_eap c i (j + 1) (errors + 1) r
             | (Some cr, r) \<Rightarrow> read_lines b methods pb load_eap (c\<lparr>cf_cred := cf_cred c @ [cr]\<rparr>) i (j + 1) errors r)
          else if OPT_NO_CONFIG_BLOBS \<notin> b \<and> str_starts pos ''blob-base64-'' then
            (case wpa_config_process_blob (drop 12 pos) r c of
               (ret, c, r) \<Rightarrow> read_lines b methods pb load_eap c i j (if ret < 0 then errors + 1 else errors) r)
          else
            (case wpa_config_process_global b load_eap pos c of
               (ret, c) \<Rightarrow> read_lines b methods pb load_eap c i j (if ret < 0 then errors + 1 else errors) r))"
  by pat_completeness auto
termination
proof (relation "measure (\<lambda>(b, methods, pb, load_eap, c, i, j, errors, f). length f)", goal_cases)
  case 1
  show ?case by simp
next
  case (2 b methods pb load_eap c i j errors f x pos r s r')
  then show ?case using get_line_shorter [of 512 f pos r] read_network_length [of b methods pb i r] by fastforce
next
  case (3 b methods pb load_eap c i j errors f x pos r s r')
  then show ?case using get_line_shorter [of 512 f pos r] read_network_length [of b methods pb i r] by fastforce
next
  case (4 b methods pb load_eap c i j errors f x pos r)
  then show ?case using get_line_shorter [of 512 f pos r] read_cred_length [of methods j r] by (auto dest: arg_cong [where f = snd])
next
  case (5 b methods pb load_eap c i j errors f x pos r)
  then show ?case using get_line_shorter [of 512 f pos r] read_cred_length [of methods j r] by (auto dest: arg_cong [where f = snd])
next
  case (6 b methods pb load_eap c i j errors f x pos r)
  then show ?case using get_line_shorter [of 512 f pos r] process_blob_length [of "drop 12 pos" r c] by (auto dest: arg_cong [where f = "\<lambda>x. snd (snd x)"])
next
  case (7 b methods pb load_eap c i j errors f x pos r)
  then show ?case using get_line_shorter [of 512 f pos r] by auto
qed

declare read_lines.simps [simp del]

text \<open>
  \<open>file\<close> is the content of the file, or nothing when it cannot be opened; \<open>cfgp\<close> a configuration that is extended. The ids of the networks and
  credentials that are read start at zero also then.
\<close>

definition wpa_config_read ::
  "build_opt set \<Rightarrow> eap_methods \<Rightarrow> kdf \<Rightarrow> (string \<Rightarrow> int) \<Rightarrow> char list option \<Rightarrow> config option \<Rightarrow> config option outcome" where
  "wpa_config_read b methods pb load_eap file cfgp =
     (case file of
        None \<Rightarrow> Val None
      | Some f \<Rightarrow>
          omap (\<lambda>(c, errors). if errors \<noteq> 0 \<and> IGNORE_CONFIG_ERRORS \<notin> b then None else Some c)
            (read_lines b methods pb load_eap (case cfgp of Some c \<Rightarrow> c | None \<Rightarrow> wpa_config_alloc_empty b None None) 0 0 0 f))"

end
