(* ===== verification/Conf_Write.thy ===== *)
theory Conf_Write
  imports Conf_Read
begin

text \<open>
  Writing a configuration file, \<^verbatim>\<open>wpa_supplicant/config_file.c\<close>: a table of what is written of a network and of the global variables,
  the text of each entry, and the file, which is written under another name and then renamed. Opening and renaming may fail.
\<close>

section \<open>Networks\<close>

datatype net_write = W_str string | W_int string int | W_psk | W_proto | W_key_mgmt | W_pairwise | W_group | W_auth_alg | W_eap | W_psk_list

definition opt_writes :: "build_opt set \<Rightarrow> build_opt \<Rightarrow> net_write list \<Rightarrow> net_write list" where
  "opt_writes b opt ws = (if opt \<in> b then ws else [])"

definition network_writes :: "build_opt set \<Rightarrow> net_write list" where
  "network_writes b =
     [W_str ''ssid'', W_int ''scan_ssid'' 0, W_str ''bssid'', W_str ''bssid_blacklist'', W_str ''bssid_whitelist'', W_psk,
      W_int ''mem_only_psk'' 0, W_proto, W_key_mgmt, W_int ''bg_scan_period'' (-1), W_pairwise, W_group, W_auth_alg, W_str ''bgscan'',
      W_str ''autoscan'', W_str ''scan_freq''] @
     opt_writes b IEEE8021X_EAPOL
       [W_eap, W_str ''identity'', W_str ''anonymous_identity'', W_str ''password'', W_str ''ca_cert'', W_str ''ca_path'',
        W_str ''client_cert'', W_str ''private_key'', W_str ''private_key_passwd'', W_str ''dh_file'', W_str ''subject_match'',
        W_str ''altsubject_match'', W_str ''domain_suffix_match'', W_str ''domain_match'', W_str ''ca_cert2'', W_str ''ca_path2'',
        W_str ''client_cert2'', W_str ''private_key2'', W_str ''private_key2_passwd'', W_str ''dh_file2'', W_str ''subject_match2'',
        W_str ''altsubject_match2'', W_str ''domain_suffix_match2'', W_str ''domain_match2'', W_str ''phase1'', W_str ''phase2'',
        W_str ''pcsc'', W_str ''pin'', W_str ''engine_id'', W_str ''key_id'', W_str ''cert_id'', W_str ''ca_cert_id'', W_str ''key2_id'',
        W_str ''pin2'', W_str ''engine2_id'', W_str ''cert2_id'', W_str ''ca_cert2_id'', W_int ''engine'' 0, W_int ''engine2'' 0,
        W_int ''eapol_flags'' 3, W_str ''openssl_ciphers'', W_int ''erp'' 0] @
     [W_str ''wep_key0'', W_str ''wep_key1'', W_str ''wep_key2'', W_str ''wep_key3'', W_int ''wep_tx_keyidx'' 0, W_int ''priority'' 0] @
     opt_writes b IEEE8021X_EAPOL
       [W_int ''eap_workaround'' (-1), W_str ''pac_file'', W_int ''fragment_size'' 1398, W_int ''ocsp'' 0, W_int ''sim_num'' 1] @
     [W_int ''mode'' 0, W_int ''no_auto_peer'' 0, W_int ''frequency'' 0, W_int ''fixed_freq'' 0] @
     opt_writes b OPT_ACS
       [W_int ''acs'' 0] @
     [W_int ''proactive_key_caching'' (-1), W_int ''disabled'' 0, W_int ''peerkey'' 0, W_int ''mixed_cell'' 0,
      W_int ''max_oper_chwidth'' 0, W_int ''pbss'' 0, W_int ''wps_disabled'' 0] @
     opt_writes b OPT_IEEE80211W
       [W_int ''ieee80211w'' 3] @
     [W_str ''id_str''] @
     opt_writes b OPT_P2P
       [W_str ''go_p2p_dev_addr'', W_str ''p2p_client_list'', W_psk_list] @
     [W_int ''ap_max_inactivity'' 0, W_int ''dtim_period'' 0, W_int ''beacon_int'' 0] @
     opt_writes b OPT_MACSEC
       [W_int ''macsec_policy'' 0] @
     opt_writes b OPT_HS20
       [W_int ''update_identifier'' 0] @
     [W_int ''mac_addr'' (-1)] @
     opt_writes b OPT_MESH
       [W_str ''mesh_basic_rates'', W_int ''dot11MeshMaxRetries'' 2, W_int ''dot11MeshRetryTimeout'' 40,
        W_int ''dot11MeshConfirmTimeout'' 40, W_int ''dot11MeshHoldingTimeout'' 40] @
     [W_int ''wpa_ptk_rekey'' 0, W_int ''group_rekey'' 0, W_int ''ignore_broadcast_ssid'' 0] @
     opt_writes b OPT_HT_OVERRIDES
       [W_int ''disable_ht'' 0, W_int ''disable_ht40'' 0, W_int ''disable_sgi'' 0, W_int ''disable_ldpc'' 0, W_int ''ht40_intolerant'' 0,
        W_int ''disable_max_amsdu'' (-1), W_int ''ampdu_factor'' (-1), W_int ''ampdu_density'' (-1), W_str ''ht_mcs''] @
     opt_writes b OPT_VHT_OVERRIDES
       [W_int ''disable_vht'' 0, W_int ''vht_capa'' 0, W_int ''vht_capa_mask'' 0, W_int ''vht_rx_mcs_nss_1'' (-1),
        W_int ''vht_rx_mcs_nss_2'' (-1), W_int ''vht_rx_mcs_nss_3'' (-1), W_int ''vht_rx_mcs_nss_4'' (-1),
        W_int ''vht_rx_mcs_nss_5'' (-1), W_int ''vht_rx_mcs_nss_6'' (-1), W_int ''vht_rx_mcs_nss_7'' (-1),
        W_int ''vht_rx_mcs_nss_8'' (-1), W_int ''vht_tx_mcs_nss_1'' (-1), W_int ''vht_tx_mcs_nss_2'' (-1),
        W_int ''vht_tx_mcs_nss_3'' (-1), W_int ''vht_tx_mcs_nss_4'' (-1), W_int ''vht_tx_mcs_nss_5'' (-1),
        W_int ''vht_tx_mcs_nss_6'' (-1), W_int ''vht_tx_mcs_nss_7'' (-1), W_int ''vht_tx_mcs_nss_8'' (-1)]"

definition field_line :: "string \<Rightarrow> string \<Rightarrow> string" where
  "field_line name value = TAB # name @ ''='' @ value @ [NL]"

text \<open>The line of a field with the value of \<^verbatim>\<open>wpa_config_get\<close>, if there is one; \<open>full\<close> leaves out an empty value.\<close>

definition write_got :: "build_opt set \<Rightarrow> eap_methods \<Rightarrow> wpa_ssid \<Rightarrow> bool \<Rightarrow> string \<Rightarrow> string outcome" where
  "write_got b methods ssid full name =
     omap (\<lambda>v. case v of None \<Rightarrow> [] | Some v \<Rightarrow> if full \<and> v = [] then [] else field_line name v) (wpa_config_get b methods ssid name)"

definition psk_line :: "psk_list_entry \<Rightarrow> string" where
  "psk_line p = field_line ''psk_list'' ((if pl_p2p p then ''P2P-'' else []) @ MACSTR (pl_addr p) @ ''-'' @ hex_bytes (pl_psk p))"

definition DEFAULT_PROTO :: int where "DEFAULT_PROTO = mask_of [0, 1]"
definition DEFAULT_KEY_MGMT :: int where "DEFAULT_KEY_MGMT = mask_of [1, 0]"
definition DEFAULT_PAIRWISE :: int where "DEFAULT_PAIRWISE = mask_of [4, 3]"
definition DEFAULT_GROUP :: int where "DEFAULT_GROUP = mask_of [4, 3]"

fun write_item :: "build_opt set \<Rightarrow> eap_methods \<Rightarrow> wpa_ssid \<Rightarrow> net_write \<Rightarrow> string outcome" where
  "write_item b methods ssid (W_str f) = write_got b methods ssid False f"
| "write_item b methods ssid (W_int f def) = Val (if ws_int ssid f = def then [] else field_line f (show_int (ws_int ssid f)))"
| "write_item b methods ssid W_psk = (if ws_int ssid ''mem_only_psk'' \<noteq> 0 then Val [] else write_got b methods ssid False ''psk'')"
| "write_item b methods ssid W_proto = (if ws_proto ssid = DEFAULT_PROTO then Val [] else write_got b methods ssid True ''proto'')"
| "write_item b methods ssid W_key_mgmt = (if ws_key_mgmt ssid = DEFAULT_KEY_MGMT then Val [] else write_got b methods ssid True ''key_mgmt'')"
| "write_item b methods ssid W_pairwise = (if ws_pairwise_cipher ssid = DEFAULT_PAIRWISE then Val [] else write_got b methods ssid True ''pairwise'')"
| "write_item b methods ssid W_group = (if ws_group_cipher ssid = DEFAULT_GROUP then Val [] else write_got b methods ssid True ''group'')"
| "write_item b methods ssid W_auth_alg = (if ws_auth_alg ssid = 0 then Val [] else write_got b methods ssid True ''auth_alg'')"
| "write_item b methods ssid W_eap = write_got b methods ssid True ''eap''"
| "write_item b methods ssid W_psk_list = Val (concat (map psk_line (ws_psk_list ssid)))"

text \<open>Texts written one after the other.\<close>

fun write_all :: "('a \<Rightarrow> string outcome) \<Rightarrow> 'a list \<Rightarrow> string outcome" where
  "write_all w [] = Val []"
| "write_all w (x # xs) = obind (w x) (\<lambda>t. omap ((@) t) (write_all w xs))"

definition wpa_config_write_network :: "build_opt set \<Rightarrow> eap_methods \<Rightarrow> wpa_ssid \<Rightarrow> string outcome" where
  "wpa_config_write_network b methods ssid = write_all (write_item b methods ssid) (network_writes b)"

section \<open>Credentials\<close>

definition cred_quoted :: "wpa_cred \<Rightarrow> string \<Rightarrow> string" where
  "cred_quoted c f = (case cr_str c f of None \<Rightarrow> [] | Some v \<Rightarrow> field_line f (DQ # v @ [DQ]))"

definition cred_number :: "wpa_cred \<Rightarrow> string \<Rightarrow> string" where
  "cred_number c f = (if cr_int c f = 0 then [] else field_line f (show_int (cr_int c f)))"

definition show_unsigned :: "int \<Rightarrow> string" where
  "show_unsigned i = show_nat (nat (i mod 2 ^ 32))"

definition cred_unsigned :: "wpa_cred \<Rightarrow> string \<Rightarrow> string" where
  "cred_unsigned c f = (if cr_int c f = 0 then [] else field_line f (show_unsigned (cr_int c f)))"

definition hex_line :: "string \<Rightarrow> char list \<Rightarrow> string" where
  "hex_line f bs = (if bs = [] then [] else field_line f (hex_bytes bs))"

text \<open>A password that names an external one is stored with its prefix, and the prefix is written again.\<close>

definition wpa_config_write_cred :: "eap_methods \<Rightarrow> wpa_cred \<Rightarrow> string" where
  "wpa_config_write_cred methods c =
     cred_number c ''priority'' @ cred_number c ''pcsc'' @ cred_quoted c ''realm'' @ cred_quoted c ''username'' @
     (case cr_str c ''password'' of
        None \<Rightarrow> []
      | Some v \<Rightarrow> if cr_ext_password c then field_line ''password'' (''ext:'' @ v) else field_line ''password'' (DQ # v @ [DQ])) @
     concat (map (cred_quoted c) [''ca_cert'', ''client_cert'', ''private_key'', ''private_key_passwd'', ''imsi'', ''milenage'']) @
     concat (map (\<lambda>d. field_line ''domain'' (DQ # d @ [DQ])) (cr_domain c)) @
     cred_quoted c ''domain_suffix_match'' @ hex_line ''roaming_consortium'' (cr_roaming_consortium c) @
     (case cr_eap_method c of
        None \<Rightarrow> []
      | Some m \<Rightarrow> (case eap_get_name methods m of None \<Rightarrow> [] | Some name \<Rightarrow> field_line ''eap'' name)) @
     cred_quoted c ''phase1'' @ cred_quoted c ''phase2'' @
     concat (map (\<lambda>e. field_line ''excluded_ssid'' (hex_bytes e)) (cr_excluded_ssid c)) @
     concat (map (\<lambda>p. field_line ''roaming_partner'' (DQ # partner_text p @ [DQ])) (cr_roaming_partner c)) @
     cred_number c ''update_identifier'' @ cred_quoted c ''provisioning_sp'' @ cred_number c ''sp_priority'' @
     concat (map (cred_unsigned c) [''min_dl_bandwidth_home'', ''min_ul_bandwidth_home'', ''min_dl_bandwidth_roaming'',
       ''min_ul_bandwidth_roaming'', ''max_bss_load'']) @
     cred_number c ''ocsp'' @
     concat (map (\<lambda>(proto, ports). field_line ''req_conn_capab'' (show_nat proto @ concat (ports_parts ports))) (cr_req_conn_capab c)) @
     hex_line ''required_roaming_consortium'' (cr_required_roaming_consortium c) @
     (if cr_int c ''sim_num'' = 1 then [] else field_line ''sim_num'' (show_int (cr_int c ''sim_num'')))"

section \<open>Global variables\<close>

datatype global_write = G_wint string int | G_wuint string int | G_wstr string | G_whex string | G_wipv4 string | G_wuuid | G_wdevice_type |
  G_wos_version | G_wpref_chan | G_wno_go_freq | G_wcountry | G_whs20 | G_whessid | G_wnfc | G_wsae_groups | G_wfreq_list | G_wbgscan

definition opt_gwrites :: "build_opt set \<Rightarrow> build_opt \<Rightarrow> global_write list \<Rightarrow> global_write list" where
  "opt_gwrites b opt ws = (if opt \<in> b then ws else [])"

definition global_writes :: "build_opt set \<Rightarrow> global_write list" where
  "global_writes b =
     opt_gwrites b OPT_CTRL_IFACE
       [G_wstr ''ctrl_interface'', G_wstr ''ctrl_interface_group''] @
     [G_wint ''eapol_version'' 1, G_wint ''ap_scan'' 1, G_wint ''disable_scan_offload'' 0, G_wint ''fast_reauth'' 1,
      G_wstr ''opensc_engine_path'', G_wstr ''pkcs11_engine_path'', G_wstr ''pkcs11_module_path'', G_wstr ''openssl_ciphers'',
      G_wstr ''pcsc_reader'', G_wstr ''pcsc_pin'', G_wstr ''driver_param'', G_wuint ''dot11RSNAConfigPMKLifetime'' 0,
      G_wuint ''dot11RSNAConfigPMKReauthThreshold'' 0, G_wuint ''dot11RSNAConfigSATimeout'' 0, G_wint ''update_config'' 0] @
     opt_gwrites b OPT_WPS
       [G_wuuid, G_wstr ''device_name'', G_wstr ''manufacturer'', G_wstr ''model_name'', G_wstr ''model_number'',
        G_wstr ''serial_number'', G_wdevice_type, G_wos_version, G_wstr ''config_methods'', G_wint ''wps_cred_processing'' 0,
        G_whex ''wps_vendor_ext_m1''] @
     opt_gwrites b OPT_P2P
       [G_wint ''p2p_listen_reg_class'' 0, G_wint ''p2p_listen_channel'' 0, G_wint ''p2p_oper_reg_class'' 0,
        G_wint ''p2p_oper_channel'' 0, G_wint ''p2p_go_intent'' 7, G_wstr ''p2p_ssid_postfix'', G_wint ''persistent_reconnect'' 0,
        G_wint ''p2p_intra_bss'' 1, G_wint ''p2p_group_idle'' 0, G_wuint ''p2p_passphrase_len'' 0, G_wpref_chan, G_wno_go_freq,
        G_wint ''p2p_add_cli_chan'' 0, G_wint ''p2p_optimize_listen_chan'' 0, G_wint ''p2p_go_ht40'' 0, G_wint ''p2p_go_vht'' 0,
        G_wint ''p2p_go_ctwindow'' 0, G_wint ''p2p_disabled'' 0, G_wint ''p2p_no_group_iface'' 0, G_wint ''p2p_ignore_shared_freq'' 0,
        G_wint ''p2p_cli_probe'' 0, G_wuint ''p2p_go_freq_change_policy'' 2, G_wipv4 ''ip_addr_go'', G_wipv4 ''ip_addr_mask'',
        G_wipv4 ''ip_addr_start'', G_wipv4 ''ip_addr_end''] @
     [G_wcountry, G_wuint ''bss_max_count'' 200, G_wuint ''bss_expiration_age'' 180, G_wuint ''bss_expiration_scan_count'' 2,
      G_wint ''filter_ssids'' 0, G_wuint ''max_num_sta'' 128, G_wint ''disassoc_low_ack'' 0] @
     opt_gwrites b OPT_HS20
       [G_whs20] @
     opt_gwrites b OPT_INTERWORKING
       [G_wint ''interworking'' 0, G_whessid, G_wint ''access_network_type'' 15] @
     [G_wint ''pbc_in_m1'' 0, G_wnfc, G_wstr ''ext_password_backend'', G_wint ''p2p_go_max_inactivity'' 300,
      G_wint ''auto_interworking'' 0, G_wint ''okc'' 0, G_wint ''pmf'' 0, G_wint ''dtim_period'' 0, G_wint ''beacon_int'' 0,
      G_wsae_groups, G_whex ''ap_vendor_elements'', G_wint ''ignore_old_scan_res'' 0, G_wfreq_list, G_wint ''scan_cur_freq'' 0,
      G_wuint ''sched_scan_interval'' 0, G_wint ''external_sim'' 0, G_wint ''tdls_external_control'' 0, G_wstr ''wowlan_triggers'',
      G_wbgscan, G_wuint ''p2p_search_delay'' 500, G_wint ''mac_addr'' 0, G_wuint ''rand_addr_lifetime'' 60,
      G_wint ''preassoc_mac_addr'' 0, G_wint ''key_mgmt_offload'' 1, G_wint ''user_mpm'' 1, G_wint ''max_peer_links'' 99,
      G_wint ''cert_in_cb'' 1, G_wint ''mesh_max_inactivity'' 300, G_wint ''dot11RSNASAERetransPeriod'' 1000, G_wint ''passive_scan'' 0,
      G_wint ''reassoc_same_bss_optim'' 0, G_wint ''wps_priority'' 0, G_wint ''wpa_rsc_relaxation'' 1, G_wstr ''sched_scan_plans''] @
     opt_gwrites b OPT_MBO
       [G_wstr ''non_pref_chan'', G_wuint ''mbo_cell_capa'' 3] @
     [G_wint ''gas_address3'' 0, G_wint ''ftm_responder'' 0, G_wint ''ftm_initiator'' 0]"

definition global_line :: "string \<Rightarrow> string \<Rightarrow> string" where
  "global_line name value = name @ ''='' @ value @ [NL]"

definition write_global_bin :: "config \<Rightarrow> string \<Rightarrow> string" where
  "write_global_bin c f = (case cf_bin c f of None \<Rightarrow> [] | Some v \<Rightarrow> global_line f (hex_bytes_upper v))"

text \<open>Items with one character between them.\<close>

definition joined :: "char \<Rightarrow> string list \<Rightarrow> string" where
  "joined sep ts = (case ts of [] \<Rightarrow> [] | t # ts \<Rightarrow> t @ concat (map (\<lambda>t. sep # t) ts))"

text \<open>The loop over the groups ends at a negative number, but the array ends with a zero.\<close>

definition sae_groups_text :: "int list \<Rightarrow> string outcome" where
  "sae_groups_text l =
     (if list_all (\<lambda>g. 0 \<le> g) l then Undef Oob_read
      else Val (global_line ''sae_groups'' (joined (CHR '' '') (map show_int (takeWhile (\<lambda>g. 0 \<le> g) l)))))"

fun write_global_item :: "config \<Rightarrow> global_write \<Rightarrow> string outcome" where
  "write_global_item c (G_wint f def) = Val (if cf_int c f = def then [] else global_line f (show_int (cf_int c f)))"
| "write_global_item c (G_wuint f def) = Val (if cf_int c f = def then [] else global_line f (show_unsigned (cf_int c f)))"
| "write_global_item c (G_wstr f) = Val (case cf_str c f of None \<Rightarrow> [] | Some v \<Rightarrow> global_line f v)"
| "write_global_item c (G_whex f) =
     Val (case cf_bin c f of None \<Rightarrow> [] | Some v \<Rightarrow> if v = [] then [] else global_line f (hex_bytes v))"
| "write_global_item c (G_wipv4 f) = Val (if get_be 0 (take 4 (cf_mem c f)) = 0 then [] else global_line f (ipv4_text (cf_mem c f)))"
| "write_global_item c G_wuuid =
     Val (if is_nil_uuid (cf_mem c ''uuid'') then [] else global_line ''uuid'' (uuid_bin2str (cf_mem c ''uuid'')))"
| "write_global_item c G_wdevice_type =
     Val (let t = wps_dev_type_bin2str (cf_mem c ''device_type'') in if t = ''0-00000000-0'' then [] else global_line ''device_type'' t)"
| "write_global_item c G_wos_version =
     Val (if get_be 0 (take 4 (cf_mem c ''os_version'')) = 0 then [] else global_line ''os_version'' (hex_bytes (take 4 (cf_mem c ''os_version''))))"
| "write_global_item c G_wpref_chan =
     Val (if cf_pref_chan c = [] then []
          else global_line ''p2p_pref_chan'' (joined (CHR '','') (map (\<lambda>(x, y). show_nat x @ '':'' @ show_nat y) (cf_pref_chan c))))"
| "write_global_item c G_wno_go_freq =
     Val (case freq_range_list_str (cf_no_go_freq c) of None \<Rightarrow> [] | Some v \<Rightarrow> global_line ''p2p_no_go_freq'' v)"
| "write_global_item c G_wcountry =
     Val (let t = take 2 (cf_mem c ''country'') in if list_all (\<lambda>x. x \<noteq> NUL) t then global_line ''country'' t else [])"
| "write_global_item c G_whs20 = Val (if cf_int c ''hs20'' = 0 then [] else global_line ''hs20'' ''1'')"
| "write_global_item c G_whessid =
     Val (if list_all (\<lambda>x. x = NUL) (take ETH_ALEN (cf_mem c ''hessid'')) then [] else global_line ''hessid'' (MACSTR (cf_mem c ''hessid'')))"
| "write_global_item c G_wnfc =
     Val (if \<not> cf_nfc_from_config c then []
          else (if cf_int c ''wps_nfc_dev_pw_id'' = 0 then [] else global_line ''wps_nfc_dev_pw_id'' (show_int (cf_int c ''wps_nfc_dev_pw_id''))) @
               write_global_bin c ''wps_nfc_dh_pubkey'' @ write_global_bin c ''wps_nfc_dh_privkey'' @ write_global_bin c ''wps_nfc_dev_pw'')"
| "write_global_item c G_wsae_groups = (case cf_sae_groups c of None \<Rightarrow> Val [] | Some l \<Rightarrow> sae_groups_text l)"
| "write_global_item c G_wfreq_list =
     Val (if cf_freq_list c = [] then [] else global_line ''freq_list'' (joined (CHR '' '') (map show_int (cf_freq_list c))))"
| "write_global_item c G_wbgscan = Val (case cf_str c ''bgscan'' of None \<Rightarrow> [] | Some v \<Rightarrow> global_line ''bgscan'' (DQ # v @ [DQ]))"

definition wpa_config_write_global :: "build_opt set \<Rightarrow> config \<Rightarrow> string outcome" where
  "wpa_config_write_global b c = write_all (write_global_item c) (global_writes b)"

section \<open>The file\<close>

definition block_text :: "string \<Rightarrow> string \<Rightarrow> string" where
  "block_text name lines = [NL] @ name @ ''={'' @ [NL] @ lines @ ''}'' @ [NL]"

definition WPA_KEY_MGMT_WPS :: int where "WPA_KEY_MGMT_WPS = BIT 9"

definition wpa_key_mgmt_wpa_psk :: "int \<Rightarrow> bool" where
  "wpa_key_mgmt_wpa_psk akm \<longleftrightarrow> akm AND mask_of [1, 6, 8, 10, 11] \<noteq> 0"

text \<open>Temporary networks are not saved, nor networks for which a key is needed but neither a key nor a passphrase is set.\<close>

definition is_saved :: "wpa_ssid \<Rightarrow> bool" where
  "is_saved s \<longleftrightarrow> ws_key_mgmt s \<noteq> WPA_KEY_MGMT_WPS \<and> \<not> ws_temporary s \<and>
     \<not> (wpa_key_mgmt_wpa_psk (ws_key_mgmt s) \<and> \<not> ws_psk_set s \<and> ws_passphrase s = None)"

definition write_networks :: "build_opt set \<Rightarrow> eap_methods \<Rightarrow> wpa_ssid list \<Rightarrow> string outcome" where
  "write_networks b methods ss =
     write_all (\<lambda>s. if is_saved s then omap (block_text ''network'') (wpa_config_write_network b methods s) else Val []) ss"

definition write_creds :: "eap_methods \<Rightarrow> wpa_cred list \<Rightarrow> string" where
  "write_creds methods cs =
     concat (map (\<lambda>c. if cr_int c ''temporary'' \<noteq> 0 then [] else block_text ''cred'' (wpa_config_write_cred methods c)) cs)"

text \<open>The blobs up to the first that cannot be encoded, and whether all could.\<close>

definition wpa_config_write_blob :: "string \<times> char list \<Rightarrow> string option outcome" where
  "wpa_config_write_blob blob =
     omap (map_option (\<lambda>t. [NL] @ ''blob-base64-'' @ fst blob @ ''={'' @ [NL] @ t @ ''}'' @ [NL])) (base64_encode (snd blob))"

fun write_blobs :: "(string \<times> char list) list \<Rightarrow> (string \<times> int) outcome" where
  "write_blobs [] = Val ([], 0)"
| "write_blobs (x # xs) =
     obind (wpa_config_write_blob x) (\<lambda>t. case t of None \<Rightarrow> Val ([], -1) | Some t \<Rightarrow> omap (\<lambda>(u, r). (t @ u, r)) (write_blobs xs))"

definition conf_text :: "build_opt set \<Rightarrow> eap_methods \<Rightarrow> config \<Rightarrow> (string \<times> int) outcome" where
  "conf_text b methods c =
     obind (wpa_config_write_global b c) (\<lambda>g.
     obind (write_networks b methods (wc_ssid (cf_nets c))) (\<lambda>n.
     omap (\<lambda>(t, r). (g @ write_creds methods (cf_cred c) @ n @ t, r)) (if OPT_NO_CONFIG_BLOBS \<in> b then Val ([], 0) else write_blobs (cf_blobs c))))"

text \<open>The files by name; whether opening for writing and renaming work.\<close>

record files =
  fl_files :: "string \<Rightarrow> char list option"
  fl_open_ok :: bool
  fl_rename_ok :: bool

definition wpa_config_write :: "build_opt set \<Rightarrow> eap_methods \<Rightarrow> string \<Rightarrow> config \<Rightarrow> files \<Rightarrow> (int \<times> files) outcome" where
  "wpa_config_write b methods name c fs =
     (let tmp = name @ ''.tmp''
      in if \<not> fl_open_ok fs then Val (-1, fs)
         else omap (\<lambda>(t, r).
             if fl_rename_ok fs then (r, fs\<lparr>fl_files := (fl_files fs)(tmp := None, name := Some t)\<rparr>)
             else (-1, fs\<lparr>fl_files := (fl_files fs)(tmp := Some t)\<rparr>)) (conf_text b methods c))"

definition wpa_supplicant_ctrl_iface_save_config :: "build_opt set \<Rightarrow> eap_methods \<Rightarrow> string \<Rightarrow> config \<Rightarrow> files \<Rightarrow> (int \<times> files) outcome" where
  "wpa_supplicant_ctrl_iface_save_config b methods confname c fs =
     (if cf_int c ''update_config'' = 0 then Val (-1, fs) else wpa_config_write b methods confname c fs)"

end
