(* ===== verification/Conf_Round.thy ===== *)
theory Conf_Round
  imports Conf_Write Net_Reload
begin

text \<open>
  What a configuration file that was written gives when it is read: the lines of a network block are read as its fields, the fields a
  block leaves out have the values a network starts with, and a file is read as its parts one after the other.
\<close>

section \<open>Lines that are read whole\<close>

text \<open>A line that the reader takes without change: no comment is cut off and there is no white space at its ends.\<close>

definition whole_line :: "nat \<Rightarrow> string \<Rightarrow> bool" where
  "whole_line sz s \<longleftrightarrow> s \<noteq> [] \<and> NUL \<notin> set s \<and> NL \<notin> set s \<and> \<not> line_blank (hd s) \<and> hd s \<noteq> CHR ''#'' \<and> \<not> line_blank (last s) \<and>
     comment_start (s @ [NL]) = None \<and> length s + 2 < sz"

lemma line_chunk_line: "NL \<notin> set s \<Longrightarrow> length s < n \<Longrightarrow> line_chunk n (s @ NL # r) = (s @ [NL], r)"
proof (induction s arbitrary: n)
  case Nil
  then show ?case by (cases n) auto
next
  case (Cons c s)
  then show ?case by (cases n) auto
qed

lemma fgets_whole_line: "NL \<notin> set s \<Longrightarrow> length s + 1 < sz \<Longrightarrow> fgets sz (s @ NL # r) = Some (s @ [NL], r)"
  using line_chunk_line [of s "sz - 1" r] by (simp add: fgets_def)

lemma trim_end_line: "s \<noteq> [] \<Longrightarrow> last s \<noteq> NL \<Longrightarrow> \<not> line_blank (last s) \<Longrightarrow> trim_end (s @ [NL]) = s"
proof (induction s)
  case (Cons c t)
  show ?case
  proof (cases t rule: rev_cases)
    case (snoc u d)
    then show ?thesis using Cons.prems by (simp add: trim_end_def)
  qed (simp add: trim_end_def)
qed simp

lemma cstr_of_app_NL: "NUL \<notin> set s \<Longrightarrow> cstr_of (s @ [NL]) = s @ [NL]"
  by (simp add: cstr_of_def takeWhile_append)

lemma get_line_clean:
  assumes "NL \<notin> set p" "NUL \<notin> set p" "length p + 1 < sz" "2 \<le> sz"
  shows "wpa_config_get_line sz (p @ NL # r) =
    (let pos = dropWhile line_blank (p @ [NL]) in
     if pos = [] \<or> hd pos = CHR ''#'' \<or> hd pos = NL then wpa_config_get_line sz r else Some (strip_line pos, r))"
proof -
  have n: "newline_terminated (p @ [NL]) sz" by (simp add: newline_terminated_def)
  show ?thesis using assms n fgets_whole_line [of p sz r] cstr_of_app_NL [of p] wpa_config_get_line.simps [of sz "p @ NL # r"] by (simp add: Let_def)
qed

lemma get_line_ok:
  assumes "whole_line sz s"
  shows "wpa_config_get_line sz (s @ NL # r) = Some (s, r)" "wpa_config_get_line sz (TAB # s @ NL # r) = Some (s, r)"
proof -
  have s: "s \<noteq> []" "NUL \<notin> set s" "NL \<notin> set s" "\<not> line_blank (hd s)" "hd s \<noteq> CHR ''#''" "\<not> line_blank (last s)"
      "comment_start (s @ [NL]) = None" "length s + 2 < sz" using assms by (simp_all add: whole_line_def)
  have l: "last s \<noteq> NL" "hd s \<noteq> NL" using s(1,3) by (metis last_in_set, metis hd_in_set)
  have d: "dropWhile line_blank (s @ [NL]) = s @ [NL]" using s(1,4) by (cases s) auto
  have st: "strip_line (s @ [NL]) = s" using s(7) trim_end_line [OF s(1) l(1) s(6)] by (simp add: strip_line_def)
  show "wpa_config_get_line sz (s @ NL # r) = Some (s, r)"
    using get_line_clean [of s sz r] s d st l by (simp add: Let_def)
  have "line_blank TAB" by (simp add: line_blank_def)
  then show "wpa_config_get_line sz (TAB # s @ NL # r) = Some (s, r)"
    using get_line_clean [of "TAB # s" sz r] s d st l by (simp add: Let_def)
qed

lemma get_line_empty: "2 \<le> sz \<Longrightarrow> wpa_config_get_line sz (NL # r) = wpa_config_get_line sz r"
  using get_line_clean [of "[]" sz r] by (simp add: line_blank_def Let_def)


section \<open>The values of fields on a line\<close>

definition clean :: "char \<Rightarrow> bool" where
  "clean c \<longleftrightarrow> c \<noteq> NUL \<and> c \<noteq> NL \<and> c \<noteq> TAB \<and> c \<noteq> CR \<and> c \<noteq> DQ \<and> c \<noteq> CHR ''#''"

text \<open>A value without quotation, comment and white space at its end, or a text in quotation marks.\<close>

definition plain_value :: "string \<Rightarrow> bool" where
  "plain_value v \<longleftrightarrow> list_all clean v \<and> (v = [] \<or> last v \<noteq> CHR '' '')"

definition quoted_value :: "string \<Rightarrow> bool" where
  "quoted_value v \<longleftrightarrow> (\<exists>t. v = DQ # t @ [DQ] \<and> list_all (\<lambda>c. c \<noteq> NUL \<and> c \<noteq> NL) t)"

definition line_value :: "string \<Rightarrow> bool" where
  "line_value v \<longleftrightarrow> plain_value v \<or> quoted_value v"

definition field_name :: "string \<Rightarrow> bool" where
  "field_name w \<longleftrightarrow> w \<noteq> [] \<and> list_all (\<lambda>c. clean c \<and> c \<noteq> CHR '' '' \<and> c \<noteq> CHR ''='' \<and> c \<noteq> CHR ''}'') w"

lemma strrchr_idx_last: "os_strrchr_idx (t @ [c]) c = Some (length t)"
  by (simp add: os_strrchr_idx_def)

lemma comment_start_quoted:
  assumes "DQ \<notin> set w"
  shows "comment_start (w @ DQ # t @ [DQ, NL]) = None"
proof -
  have "os_strchr (w @ DQ # t @ [DQ, NL]) DQ = Some (DQ # t @ [DQ, NL])" using strchr_skip(1) [OF assms] by simp
  moreover have "os_strrchr_idx (t @ [DQ, NL]) DQ = Some (length t)" by (simp add: os_strrchr_idx_def)
  ultimately show ?thesis using strchr_skip(2) [of "CHR ''#''" "[DQ, NL]"] by (simp add: comment_start_def)
qed

lemma comment_start_plain: "DQ \<notin> set s \<Longrightarrow> CHR ''#'' \<notin> set s \<Longrightarrow> comment_start s = None"
  using strchr_skip(2) [of DQ s] strchr_skip(2) [of "CHR ''#''" s] by (simp add: comment_start_def)

lemma field_line_ok:
  assumes "field_name w" "line_value v" "length w + length v + 3 < sz"
  shows "whole_line sz (w @ ''='' @ v)"
proof -
  have w: "w \<noteq> []" "\<forall>c \<in> set w. clean c \<and> c \<noteq> CHR '' '' \<and> c \<noteq> CHR ''=''" using assms(1) by (auto simp: field_name_def list_all_iff)
  then have h: "\<not> line_blank (hd w)" "hd w \<noteq> CHR ''#''" by (auto simp: line_blank_def clean_def dest: hd_in_set)
  have n: "NUL \<notin> set w" "NL \<notin> set w" "DQ \<notin> set w" "CHR ''#'' \<notin> set w" using w(2) by (auto simp: clean_def)
  consider (plain) "plain_value v" | (quoted) "quoted_value v" using assms(2) by (auto simp: line_value_def)
  then show ?thesis
  proof cases
    case plain
    then have v: "\<forall>c \<in> set v. clean c" "v = [] \<or> last v \<noteq> CHR '' ''" by (auto simp: plain_value_def list_all_iff)
    have "\<not> line_blank (last (w @ ''='' @ v))" using v by (cases v rule: rev_cases) (auto simp: line_blank_def clean_def)
    moreover have "comment_start ((w @ ''='' @ v) @ [NL]) = None" using v n by (intro comment_start_plain) (auto simp: clean_def)
    ultimately show ?thesis using v w n h assms(3) by (auto simp: whole_line_def clean_def)
  next
    case quoted
    then obtain t where t: "v = DQ # t @ [DQ]" "\<forall>c \<in> set t. c \<noteq> NUL \<and> c \<noteq> NL" by (auto simp: quoted_value_def list_all_iff)
    have "comment_start ((w @ ''='' @ v) @ [NL]) = None" using comment_start_quoted [of "w @ ''=''" t] n(3) t(1) by simp
    then show ?thesis using t w n h assms(3) by (auto simp: whole_line_def line_blank_def)
  qed
qed

lemma field_block_line:
  assumes "field_name w" "line_value v"
  shows "block_line (w @ ''='' @ v) = Some (w, v)"
proof -
  have w: "CHR ''='' \<notin> set w" using assms(1) by (auto simp: field_name_def list_all_iff)
  have c: "cut_equals (w @ ''='' @ v) = Some (w, v)" using strchr_skip(1) [OF w, of v] by (simp add: cut_equals_def)
  have "os_strchr (tl v) DQ \<noteq> None" if "at0 v = DQ"
  proof (cases "quoted_value v")
    case True
    then obtain t where "v = DQ # t @ [DQ]" by (auto simp: quoted_value_def)
    then show ?thesis by (auto simp: os_strchr_None)
  next
    case False
    then have "list_all clean v" using assms(2) by (simp add: line_value_def plain_value_def)
    then show ?thesis using that by (cases v) (auto simp: clean_def at0_def)
  qed
  then show ?thesis using c by (simp add: block_line_def)
qed


section \<open>What the writers return\<close>

lemma hexdig_clean: "n < 16 \<Longrightarrow> clean (hexdig n) \<and> hexdig n \<noteq> CHR '' ''"
proof -
  have "list_all (\<lambda>n. clean (hexdig n) \<and> hexdig n \<noteq> CHR '' '') [0..<16]" by code_simp
  then show "n < 16 \<Longrightarrow> ?thesis" by (simp add: list_all_iff)
qed

text \<open>Texts without blanks are plain, and so are such texts with blanks between them.\<close>

definition solid :: "string \<Rightarrow> bool" where
  "solid w \<longleftrightarrow> list_all (\<lambda>c. clean c \<and> c \<noteq> CHR '' '') w"

lemma solid_plain: "solid v \<Longrightarrow> plain_value v"
  by (auto simp: solid_def plain_value_def list_all_iff dest: last_in_set)

lemma solid_append [simp]: "solid (a @ c) \<longleftrightarrow> solid a \<and> solid c"
  by (simp add: solid_def)

lemma spaced_plain: "list_all (\<lambda>w. solid w \<and> w \<noteq> []) ws \<Longrightarrow> plain_value (spaced ws)"
proof (induction ws rule: spaced.induct)
  case 1
  then show ?case by (simp add: plain_value_def)
next
  case (2 w)
  then show ?case by (simp add: solid_plain)
next
  case (3 w u ws)
  have "spaced (u # ws) \<noteq> []" using 3(2) by (cases ws) auto
  moreover have "list_all clean w" using 3(2) by (auto simp: solid_def list_all_iff)
  moreover have "clean (CHR '' '')" by (simp add: clean_def)
  ultimately show ?case using 3 by (simp add: plain_value_def)
qed

lemma solid_hex02: "solid (hex02 (of_char d))"
proof -
  have "of_char d div 16 < (16::nat)" "of_char d mod 16 < (16::nat)" using less_mult_imp_div_less [of "of_char d" 16 16] by simp_all
  then show ?thesis using hexdig_clean by (simp add: hex02_def solid_def)
qed

lemma solid_hex: "solid (write_string_hex t)"
  using solid_hex02 unfolding write_string_hex_pairs by (induction t) (simp_all add: hex_pair_def, simp add: solid_def)

lemma ascii_quoted: "list_all (\<lambda>c. c \<noteq> NUL \<and> c \<noteq> NL) t \<Longrightarrow> quoted_value (write_string_ascii t)"
  by (auto simp: quoted_value_def write_string_ascii_def)

lemma no_ctrl_line: "\<not> has_ctrl_char t \<Longrightarrow> list_all (\<lambda>c. c \<noteq> NUL \<and> c \<noteq> NL) t" "\<not> is_hex t \<Longrightarrow> list_all (\<lambda>c. c \<noteq> NUL \<and> c \<noteq> NL) t"
  by (auto simp: has_ctrl_char_def is_hex_def list_ex_iff list_all_iff)

lemma write_string_line: "line_value (wpa_config_write_string t)"
  using solid_plain [OF solid_hex [of t]] ascii_quoted [of t] no_ctrl_line(2) [of t]
  by (auto simp: wpa_config_write_string_def line_value_def)

lemma solid_show_nat: "solid (show_nat n)"
proof -
  have "clean c \<and> c \<noteq> CHR '' ''" if "c \<in> set (show_nat n)" for c
    using show_nat_digits [OF that] by (auto simp: c_isdigit_def clean_def)
  then show ?thesis by (simp add: solid_def list_all_iff)
qed

lemma solid_show_int: "solid (show_int i)"
  using solid_show_nat by (auto simp: show_int_def solid_def clean_def)

lemma solid_macstr: "solid (MACSTR a)"
proof -
  have "solid '':''" by (simp add: solid_def clean_def)
  then have "solid (macstr_loop a)" for a using solid_hex02 by (induction a rule: macstr_loop.induct) (simp_all add: solid_def)
  then show ?thesis by (simp add: MACSTR_def)
qed

lemma words_plain: "list_all (\<lambda>(w, n). solid w \<and> w \<noteq> []) tab \<Longrightarrow> plain_value (spaced (flag_words tab val))"
  by (rule spaced_plain) (auto simp: flag_words_def list_all_iff)

lemma tables_solid: "list_all (\<lambda>(w, n). solid w \<and> w \<noteq> []) proto_names" "list_all (\<lambda>(w, n). solid w \<and> w \<noteq> []) auth_alg_table"
  "list_all (\<lambda>(w, n). solid w \<and> w \<noteq> []) cipher_names" "list_all (\<lambda>(w, n). solid w \<and> w \<noteq> []) (key_mgmt_table b)"
  by (simp_all add: proto_names_def auth_alg_table_def cipher_names_def key_mgmt_table_def opt_flags_def solid_def clean_def)

lemma snprintf_solid: "solid t \<Longrightarrow> solid (fst (os_snprintf sz t))"
  by (auto simp: os_snprintf_def solid_def list_all_iff dest: in_set_takeD)


text \<open>The names of external secrets, which are written as they are, and those of the methods of the build.\<close>

definition names_plain :: "build_opt set \<Rightarrow> eap_methods \<Rightarrow> wpa_ssid \<Rightarrow> bool" where
  "names_plain b methods n \<longleftrightarrow> list_all (\<lambda>(w, m). solid w) methods \<and>
     (case ws_ext_psk n of None \<Rightarrow> True | Some e \<Rightarrow> e \<noteq> [] \<and> plain_value e) \<and>
     (case ws_password n of None \<Rightarrow> True | Some p \<Rightarrow> bit (ws_eap_flags n) FLAG_EXT \<longrightarrow> p \<noteq> [] \<and> plain_value p)"

lemma plain_prefix: "solid a \<Longrightarrow> plain_value p \<Longrightarrow> p \<noteq> [] \<Longrightarrow> plain_value (a @ p)"
  by (auto simp: plain_value_def solid_def list_all_iff)

lemma solid_prefixes: "solid ''ext:''" "solid ''hash:''"
  by (simp_all add: solid_def clean_def)

lemma psk_line_value:
  assumes "psk_ok n" "names_plain b methods n" "wpa_config_write_psk b n = Some v"
  shows "line_value v"
proof (cases "if OPT_EXT_PASSWORD \<in> b then ws_ext_psk n else None")
  case (Some e)
  then have "v = ''ext:'' @ e" "e \<noteq> []" "plain_value e" using assms(2,3) by (auto simp: wpa_config_write_psk_def names_plain_def split: if_splits)
  then show ?thesis using plain_prefix [OF solid_prefixes(1)] by (simp add: line_value_def)
next
  case None
  then show ?thesis using assms(1,3) solid_plain [OF solid_hex [of "ws_psk n"]] ascii_quoted no_ctrl_line(1)
    by (auto simp: wpa_config_write_psk_def line_value_def psk_ok_def split: option.splits if_splits)
qed

lemma password_line_value:
  assumes "password_ok b n" "names_plain b methods n" "wpa_config_write_password b n = Some v"
  shows "line_value v"
proof -
  obtain p where p: "ws_password n = Some p" using assms(3) by (auto simp: wpa_config_write_password_def)
  show ?thesis
  proof (cases "OPT_EXT_PASSWORD \<in> b \<and> bit (ws_eap_flags n) FLAG_EXT")
    case True
    then have "v = ''ext:'' @ p" "p \<noteq> []" "plain_value p" using assms p by (auto simp: wpa_config_write_password_def password_ok_def names_plain_def)
    then show ?thesis using plain_prefix [OF solid_prefixes(1)] by (simp add: line_value_def)
  next
    case False
    have "solid (''hash:'' @ write_string_hex (take 16 p))" using solid_prefixes(2) solid_hex by (simp only: solid_append)
    then show ?thesis using False assms(3) p write_string_line [of p] solid_plain
      by (auto simp: wpa_config_write_password_def line_value_def split: if_splits)
  qed
qed

lemma addr_list_plain:
  assumes "list_all (addr_entry_ok mk) es" "wpa_config_write_addr_list es = Some v"
  shows "plain_value v"
proof -
  have es: "es \<noteq> []" "list_all (addr_entry_ok mk) (rev es)" using assms by (auto simp: wpa_config_write_addr_list_def)
  have "v = spaced (map addr_entry_txt (rev es))"
    using assms(2) es write_addr_loop_text [of mk "rev es" "40 * length es" True] by (simp add: wpa_config_write_addr_list_def)
  moreover have "list_all (\<lambda>w. solid w \<and> w \<noteq> []) (map addr_entry_txt (rev es))"
  proof -
    have "solid ''/''" by (simp add: solid_def clean_def)
    then have "solid (addr_entry_txt e)" for e using solid_macstr by (simp only: addr_entry_txt_def solid_append split: if_split) simp
    then show ?thesis using es(2) length_addr_entry [of mk] by (auto simp: list_all_iff)
  qed
  ultimately show ?thesis using spaced_plain by simp
qed

lemma freqs_plain:
  assumes "list_all freq_ok fs" "wpa_config_write_freqs fs = Some v"
  shows "plain_value v"
proof -
  have "v = spaced (map freq_txt fs)" using assms write_freqs_text [OF assms(1), of "[]" "10 * length fs + 1"]
    by (auto simp: wpa_config_write_freqs_def split: if_splits)
  then show ?thesis using spaced_plain [of "map freq_txt fs"] solid_show_nat by (simp add: freq_txt_def list_all_iff)
qed

lemma eap_plain:
  assumes "eap_ok methods n" "names_plain b methods n" "wpa_config_write_eap methods n = Some v"
  shows "plain_value v"
proof -
  obtain ms where ms: "ws_eap_methods n = Some ms" using assms(3) by (auto simp: wpa_config_write_eap_def)
  then have ok: "list_all (method_ok methods) ms" "length (spaced (map (eap_name methods) ms)) < 100" using assms(1) by (auto simp: eap_ok_def)
  have "v = spaced (map (eap_name methods) ms)"
    using assms(3) ms write_eap_text [OF ok(1), of "[]"] ok(2) up_to_end_ok [OF ok(1)] by (simp add: wpa_config_write_eap_def)
  moreover have "solid (eap_name methods m) \<and> eap_name methods m \<noteq> []" if "method_ok methods m" for m
  proof -
    have "(eap_name methods m, m) \<in> set methods" using that by (auto simp: method_ok_def dest: map_of_SomeD)
    then show ?thesis using assms(2) that by (auto simp: names_plain_def list_all_iff method_ok_def is_word_def)
  qed
  ultimately show ?thesis using ok(1) spaced_plain [of "map (eap_name methods) ms"] by (auto simp: list_all_iff)
qed


lemma flags_plain:
  assumes "names_ok tab names" "flags_within names val" "length (spaced (flag_words names val)) < sz" "flags_text sz names val = Some v"
    "list_all (\<lambda>(w, n). solid w \<and> w \<noteq> []) names"
  shows "line_value v"
proof -
  have "val \<noteq> 0" using assms(4) flags_text_0 by auto
  then have "v = spaced (flag_words names val)" using flags_text_words(1) [OF assms(1,2) _ assms(3)] assms(4) by simp
  then show ?thesis using words_plain [OF assms(5)] by (simp add: line_value_def)
qed

lemma writer_line_value:
  assumes "fits b methods f fn n m" "names_plain b methods n" "writer b methods f fn n = Val (Some v)"
  shows "line_value v"
proof -
  show ?thesis
  proof (cases fn)
    case (Fn_str lenf mn mx)
    then show ?thesis using assms(3) write_string_line by (auto simp: wpa_config_write_str_def)
  next
    case (Fn_int mn mx)
    then show ?thesis using assms(1,3) write_int_eq [of n f] solid_plain [OF solid_show_int] by (auto simp: line_value_def)
  next
    case Fn_psk
    then show ?thesis using assms psk_line_value [of n b methods v] by simp
  next
    case Fn_password
    then show ?thesis using assms password_line_value [of b n methods v] by simp
  next
    case Fn_proto
    then show ?thesis using assms(1,3) flags_plain [OF proto_names_ok _ small_tables(1) _ tables_solid(1)] by (simp add: wpa_config_write_proto_def)
  next
    case Fn_auth_alg
    then show ?thesis using assms(1,3) flags_plain [OF auth_alg_names_ok _ small_tables(2) _ tables_solid(2)] by (simp add: wpa_config_write_auth_alg_def)
  next
    case Fn_key_mgmt
    then show ?thesis using assms(1,3) flags_plain [OF key_mgmt_names_ok _ _ _ tables_solid(4), of b "ws_key_mgmt n" 100 v]
      by (simp add: wpa_config_write_key_mgmt_def)
  next
    case (Fn_wep_key i)
    then show ?thesis using assms(3) write_string_line by (auto simp: wpa_config_write_wep_key_def Let_def split: if_splits)
  next
    case Fn_bssid
    then show ?thesis using assms(3) solid_plain [OF solid_macstr]
      by (auto simp: wpa_config_write_bssid_def line_value_def os_snprintf_def split: if_splits)
  next
    case Fn_go_p2p_dev_addr
    then show ?thesis using assms(3) solid_plain [OF solid_macstr]
      by (auto simp: wpa_config_write_go_p2p_dev_addr_def line_value_def os_snprintf_def split: if_splits)
  next
    case Fn_eap
    then show ?thesis using assms eap_plain [of methods n b v] by (simp add: line_value_def)
  qed (use assms words_plain [OF tables_solid(3)] in \<open>auto simp: line_value_def write_cipher_words dest: addr_list_plain freqs_plain\<close>)
qed

section \<open>What is written and what a network starts with\<close>


text \<open>The place of a field in the table of the writer, without the value for which a number is left out.\<close>

fun field_kind :: "parse_data \<Rightarrow> net_write" where
  "field_kind d =
     (case pd_fn d of
        Fn_int mn mx \<Rightarrow> W_int (pd_name d) 0
      | Fn_psk \<Rightarrow> W_psk | Fn_proto \<Rightarrow> W_proto | Fn_key_mgmt \<Rightarrow> W_key_mgmt | Fn_pairwise \<Rightarrow> W_pairwise | Fn_group \<Rightarrow> W_group
      | Fn_auth_alg \<Rightarrow> W_auth_alg | Fn_eap \<Rightarrow> W_eap | Fn_psk_list \<Rightarrow> W_psk_list | _ \<Rightarrow> W_str (pd_name d))"

fun item_kind :: "net_write \<Rightarrow> net_write" where
  "item_kind (W_int f def) = W_int f 0"
| "item_kind w = w"

fun item_field :: "net_write \<Rightarrow> string" where
  "item_field (W_str f) = f"
| "item_field (W_int f def) = f"
| "item_field W_psk = ''psk''"
| "item_field W_proto = ''proto''"
| "item_field W_key_mgmt = ''key_mgmt''"
| "item_field W_pairwise = ''pairwise''"
| "item_field W_group = ''group''"
| "item_field W_auth_alg = ''auth_alg''"
| "item_field W_eap = ''eap''"
| "item_field W_psk_list = ''psk_list''"

lemma subseq_writes: "b \<subseteq> b' \<Longrightarrow> subseq (network_writes b) (network_writes b')"
proof -
  assume b: "b \<subseteq> b'"
  have "subseq (opt_writes b opt ws) (opt_writes b' opt ws)" for opt ws using b by (auto simp: opt_writes_def)
  then show ?thesis unfolding network_writes_def by (intro list_emb_append_mono subseq_order.order_refl)
qed

text \<open>Every field is written, but for one.\<close>

definition written_in :: "net_write list \<Rightarrow> parse_data \<Rightarrow> bool" where
  "written_in ws d \<longleftrightarrow> pd_fn d = Fn_freq_list \<or> field_kind d \<in> set ws"

lemma written_mono: "b \<subseteq> b' \<Longrightarrow> list_all (written_in (map item_kind (network_writes b))) ds \<Longrightarrow> list_all (written_in (map item_kind (network_writes b'))) ds"
proof -
  assume a: "b \<subseteq> b'" "list_all (written_in (map item_kind (network_writes b))) ds"
  have "set (network_writes b) \<subseteq> set (network_writes b')" using subseq_writes [OF a(1)] unfolding subseq_conv_nths by (auto dest: in_set_nthsD)
  then have "written_in (map item_kind (network_writes b)) d \<Longrightarrow> written_in (map item_kind (network_writes b')) d" for d by (auto simp: written_in_def)
  with a(2) show ?thesis by (auto simp: list_all_iff)
qed

lemma distinct_writes: "distinct (map item_field (network_writes b))"
proof -
  have "distinct (map item_field (network_writes UNIV))" by code_simp
  moreover have "subseq (map item_field (network_writes b)) (map item_field (network_writes UNIV))" using subseq_writes [of b UNIV] by (simp add: subseq_map)
  ultimately show ?thesis by (metis subseq_conv_nths distinct_nthsI)
qed


lemma written_base: "list_all (written_in (map item_kind (network_writes {}))) ds \<Longrightarrow> list_all (written_in (map item_kind (network_writes b))) ds"
  by (rule written_mono [of "{}"]) auto

lemma written_opt: "p \<in> b \<Longrightarrow> list_all (written_in (map item_kind (network_writes {p}))) ds \<Longrightarrow> list_all (written_in (map item_kind (network_writes b))) ds"
  by (rule written_mono [of "{p}"]) auto

lemma all_fields_written: "list_all (written_in (map item_kind (network_writes b))) (ssid_fields b)"
  unfolding ssid_fields_def list_all_append list_all_opt if_split [of "list_all P" for P]
  by (intro conjI impI; (erule written_opt, code_simp | rule written_base, code_simp))

text \<open>The numbers a network starts with, by name.\<close>

definition start_list :: "build_opt set \<Rightarrow> (string \<times> int) list" where
  "start_list b =
         [(''bg_scan_period'', -1)] @
          opt_ints b IEEE8021X_EAPOL [(''eapol_flags'', 3), (''eap_workaround'', -1), (''fragment_size'', 1398), (''sim_num'', 1)] @
          opt_ints b OPT_MESH [(''dot11MeshMaxRetries'', 2), (''dot11MeshRetryTimeout'', 40), (''dot11MeshConfirmTimeout'', 40),
            (''dot11MeshHoldingTimeout'', 40)] @
          opt_ints b OPT_HT_OVERRIDES [(''disable_ht'', 0), (''disable_ht40'', 0), (''disable_sgi'', 0), (''disable_ldpc'', 0),
            (''disable_max_amsdu'', -1), (''ampdu_factor'', -1), (''ampdu_density'', -1)] @
          opt_ints b OPT_VHT_OVERRIDES [(''vht_rx_mcs_nss_1'', -1), (''vht_rx_mcs_nss_2'', -1), (''vht_rx_mcs_nss_3'', -1),
            (''vht_rx_mcs_nss_4'', -1), (''vht_rx_mcs_nss_5'', -1), (''vht_rx_mcs_nss_6'', -1), (''vht_rx_mcs_nss_7'', -1),
            (''vht_rx_mcs_nss_8'', -1), (''vht_tx_mcs_nss_1'', -1), (''vht_tx_mcs_nss_2'', -1), (''vht_tx_mcs_nss_3'', -1),
            (''vht_tx_mcs_nss_4'', -1), (''vht_tx_mcs_nss_5'', -1), (''vht_tx_mcs_nss_6'', -1), (''vht_tx_mcs_nss_7'', -1),
            (''vht_tx_mcs_nss_8'', -1)] @
          [(''proactive_key_caching'', -1)] @
          opt_ints b OPT_IEEE80211W [(''ieee80211w'', 3)] @
          [(''mac_addr'', -1)]"

lemma start_ints: "ws_int (wpa_config_set_network_defaults b (zero_ssid i)) = set_ints (start_list b) (\<lambda>_. 0)"
  by (simp add: wpa_config_set_network_defaults_def zero_ssid_def start_list_def)

lemma subseq_start: "b \<subseteq> b' \<Longrightarrow> subseq (start_list b) (start_list b')"
proof -
  assume b: "b \<subseteq> b'"
  have "subseq (opt_ints b opt vs) (opt_ints b' opt vs)" for opt vs using b by (auto simp: opt_ints_def)
  then show ?thesis unfolding start_list_def by (intro list_emb_append_mono subseq_order.order_refl)
qed

lemma distinct_start: "distinct (map fst (start_list b))"
proof -
  have "distinct (map fst (start_list UNIV))" by code_simp
  moreover have "subseq (map fst (start_list b)) (map fst (start_list UNIV))" using subseq_start [of b UNIV] by (simp add: subseq_map)
  ultimately show ?thesis by (metis subseq_conv_nths distinct_nthsI)
qed

lemma set_ints_other: "k \<notin> fst ` set vs \<Longrightarrow> set_ints vs f k = f k"
  by (induction vs arbitrary: f) (auto simp: set_ints_def)

lemma set_ints_in: "distinct (map fst vs) \<Longrightarrow> (k, v) \<in> set vs \<Longrightarrow> set_ints vs f k = v"
proof (induction vs arbitrary: f)
  case (Cons x vs)
  then show ?case using set_ints_other [of k vs] by (cases x) (force simp: set_ints_def)
qed simp

fun starts_with_default :: "build_opt set \<Rightarrow> net_write \<Rightarrow> bool" where
  "starts_with_default b (W_int f k) = (ws_int (wpa_config_set_network_defaults b (zero_ssid 0)) f = k)"
| "starts_with_default b w = True"

fun default_listed :: "(string \<times> int) list \<Rightarrow> string list \<Rightarrow> net_write \<Rightarrow> bool" where
  "default_listed vs fs (W_int f k) = ((f, k) \<in> set vs \<or> k = 0 \<and> f \<notin> set fs)"
| "default_listed vs fs w = True"

lemma listed_default:
  assumes "b \<subseteq> b'" "list_all (default_listed (start_list b) (map fst (start_list UNIV))) ws"
  shows "list_all (starts_with_default b') ws"
proof -
  have s: "set (start_list b) \<subseteq> set (start_list b')" "set (start_list b') \<subseteq> set (start_list UNIV)"
    using subseq_start [OF assms(1)] subseq_start [of b' UNIV] unfolding subseq_conv_nths by (auto dest: in_set_nthsD)
  then have k: "f \<notin> fst ` set (start_list UNIV) \<Longrightarrow> f \<notin> fst ` set (start_list b')" for f by blast
  have "starts_with_default b' w" if "default_listed (start_list b) (map fst (start_list UNIV)) w" for w
    using that set_ints_in [OF distinct_start [of b']] set_ints_other [of _ "start_list b'"] s(1) k
    by (cases w) (auto simp: start_ints)
  with assms(2) show ?thesis by (auto simp: list_all_iff)
qed

lemma listed_base: "list_all (default_listed (start_list {}) (map fst (start_list UNIV))) ws \<Longrightarrow> list_all (starts_with_default b) ws"
  by (rule listed_default [of "{}"]) auto

lemma listed_opt: "p \<in> b \<Longrightarrow> list_all (default_listed (start_list {p}) (map fst (start_list UNIV))) ws \<Longrightarrow> list_all (starts_with_default b) ws"
  by (rule listed_default [of "{p}"]) auto

lemma list_all_writes: "list_all P (opt_writes b p ws) \<longleftrightarrow> (p \<in> b \<longrightarrow> list_all P ws)"
  by (simp add: opt_writes_def)

lemma defaults_left_out: "list_all (starts_with_default b) (network_writes b)"
  unfolding network_writes_def list_all_append list_all_writes
  by (intro conjI impI; (erule listed_opt, code_simp | rule listed_base, code_simp))

end
