(* ===== verification/Conf_Networks.thy ===== *)
theory Conf_Networks
  imports Conf_Round
begin

text \<open>
  The network blocks of a configuration file: a block that was written is read back with the fields it was written from, and the blocks
  of a file are read one after the other.
\<close>

abbreviation start_ssid :: "build_opt set \<Rightarrow> int \<Rightarrow> wpa_ssid" where
  "start_ssid b i \<equiv> wpa_config_set_network_defaults b (zero_ssid i)"

section \<open>What a block holds\<close>

text \<open>
  A network whose block can be read again: its lines fit in the buffer of the reader, numbers that have no field have their start value,
  and \<^verbatim>\<open>wpa_config_validate_network\<close> has nothing to change or to refuse. Keys of a group owner are left out: reading turns
  their order around.
\<close>

definition storable :: "build_opt set \<Rightarrow> eap_methods \<Rightarrow> wpa_ssid \<Rightarrow> bool" where
  "storable b methods n \<longleftrightarrow> names_plain b methods n \<and> ws_psk_list n = [] \<and>
     (\<forall>d \<in> set (ssid_fields b). case field_txt b methods d n of None \<Rightarrow> True | Some v \<Rightarrow> length (pd_name d) + length v + 3 < 2000) \<and>
     list_all (\<lambda>w. case w of W_int f def \<Rightarrow> find_field b f = None \<longrightarrow> ws_int n f = def | _ \<Rightarrow> True) (network_writes b) \<and>
     (bit (ws_group_cipher n) 4 \<longrightarrow> bit (ws_pairwise_cipher n) 4 \<or> bit (ws_pairwise_cipher n) 0) \<and>
     ws_int n ''mode'' \<noteq> WPAS_MODE_MESH"

lemma field_names: "list_all (\<lambda>d. field_name (pd_name d)) (ssid_fields b)"
  by (simp add: ssid_fields_def list_all_opt field_defs field_name_def clean_def)

lemma item_field_kind: "item_field (item_kind w) = item_field w"
  by (cases w) simp_all

lemma field_kind_name: "field_named d \<Longrightarrow> pd_fn d \<noteq> Fn_freq_list \<Longrightarrow> item_field (field_kind d) = pd_name d"
  by (cases "pd_fn d") (simp_all add: field_named_def)

lemma freq_list_unwritten: "''freq_list'' \<notin> item_field ` set (network_writes b)"
proof -
  have "list_all (\<lambda>w. item_field w \<noteq> ''freq_list'') (network_writes UNIV)" by (simp add: network_writes_def opt_writes_def)
  moreover have "set (network_writes b) \<subseteq> set (network_writes UNIV)"
    using subseq_writes [of b UNIV] unfolding subseq_conv_nths by (auto dest: in_set_nthsD)
  ultimately show ?thesis by (auto simp: list_all_iff)
qed

lemma named_in: "d \<in> set (ssid_fields b) \<Longrightarrow> field_named d"
  using ssid_fields_named [of b] by (simp add: list_all_iff)

text \<open>A field and the entry of the writer with its name belong together.\<close>

lemma item_of_field:
  assumes "d \<in> set (ssid_fields b)" "pd_fn d \<noteq> Fn_freq_list"
  shows "\<exists>w \<in> set (network_writes b). field_kind d = item_kind w \<and> item_field w = pd_name d"
proof -
  obtain w where w: "w \<in> set (network_writes b)" "field_kind d = item_kind w"
    using all_fields_written [of b] assms by (auto simp: list_all_iff written_in_def)
  then show ?thesis using field_kind_name [OF named_in [OF assms(1)] assms(2)] item_field_kind [of w] by auto
qed

lemma field_of_item:
  assumes "w \<in> set (network_writes b)" "d \<in> set (ssid_fields b)" "pd_name d = item_field w"
  shows "field_kind d = item_kind w"
proof -
  have "pd_fn d \<noteq> Fn_freq_list" using freq_list_unwritten [of b] named_in [OF assms(2)] assms(1,3) by (force simp: field_named_def)
  then obtain w' where w': "w' \<in> set (network_writes b)" "field_kind d = item_kind w'" "item_field w' = pd_name d"
    using item_of_field [OF assms(2)] by blast
  have "w' = w" using distinct_writes [of b] w'(1,3) assms(1,3) by (auto simp: distinct_map inj_on_def)
  with w'(2) show ?thesis by simp
qed

lemma find_field_Some: "find_field b f = Some d \<Longrightarrow> d \<in> set (ssid_fields b) \<and> pd_name d = f"
  by (auto simp: find_field_def find_Some_iff)

lemma got_line:
  assumes "write_got b methods n full name = Val t"
  shows "t = [] \<or> (\<exists>d v. d \<in> set (ssid_fields b) \<and> pd_name d = name \<and> field_txt b methods d n = Some v \<and> t = field_line name v)"
proof -
  obtain g where g: "wpa_config_get b methods n name = Val g" "t = (case g of None \<Rightarrow> [] | Some v \<Rightarrow> if full \<and> v = [] then [] else field_line name v)"
    using assms by (auto simp: write_got_def outcome_simps)
  show ?thesis
  proof (cases "find_field b name")
    case None
    then show ?thesis using g by (simp add: wpa_config_get_def)
  next
    case (Some d)
    then have d: "d \<in> set (ssid_fields b)" "pd_name d = name" using find_field_Some by blast+
    obtain w where w: "writer b methods (pd_name d) (pd_fn d) n = Val w" "g = (case w of None \<Rightarrow> None | Some v \<Rightarrow> if has_newline v then None else Some v)"
      using g(1) Some by (auto simp: wpa_config_get_def outcome_simps)
    then show ?thesis using g(2) d by (auto simp: field_txt_def split: option.splits if_splits)
  qed
qed

lemma item_line:
  assumes "w \<in> set (network_writes b)" "write_item b methods n w = Val t" "storable b methods n"
    "\<forall>d \<in> set (ssid_fields b). fits b methods (pd_name d) (pd_fn d) n m"
  shows "t = [] \<or> (\<exists>d v. d \<in> set (ssid_fields b) \<and> pd_name d = item_field w \<and> field_txt b methods d n = Some v \<and> t = field_line (pd_name d) v)"
proof -
  have got: ?thesis if "write_got b methods n full (item_field w) = Val t" for full using got_line [OF that] by auto
  show ?thesis
  proof (cases w)
    case (W_int f k)
    show ?thesis
    proof (cases "ws_int n f = k")
      case False
      have "list_all (\<lambda>w. case w of W_int f def \<Rightarrow> find_field b f = None \<longrightarrow> ws_int n f = def | _ \<Rightarrow> True) (network_writes b)"
        using assms(3) unfolding storable_def by blast
      then have "find_field b f \<noteq> None" using assms(1) False unfolding list_all_iff W_int by fastforce
      then obtain d where d: "d \<in> set (ssid_fields b)" "pd_name d = f" using find_field_Some by blast
      have "field_kind d = W_int f 0" using field_of_item [OF assms(1) d(1)] d(2) W_int by simp
      then obtain mn mx where fn: "pd_fn d = Fn_int mn mx" by (cases "pd_fn d") auto
      then have "in_int32 (ws_int n f)" using assms(4) d by (metis fits.simps(2))
      then have "field_txt b methods d n = Some (show_int (ws_int n f))" using fn d(2) write_int_eq [of n f] by (simp add: field_txt_def)
      moreover have "t = field_line f (show_int (ws_int n f))" using assms(2) W_int False by simp
      ultimately show ?thesis using d W_int by auto
    qed (use assms(2) W_int in simp)
  next
    case W_psk_list
    then show ?thesis using assms(2,3) by (simp add: storable_def)
  qed (use assms(2) got in \<open>force split: if_splits\<close>)+
qed

text \<open>The lines of a block.\<close>

definition lines_of :: "(parse_data \<times> string) list \<Rightarrow> string" where
  "lines_of ps = concat (map (\<lambda>(d, v). field_line (pd_name d) v) ps)"

lemma block_lines:
  assumes "set ws \<subseteq> set (network_writes b)" "distinct (map item_field ws)" "write_all (write_item b methods n) ws = Val t"
    "storable b methods n" "\<forall>d \<in> set (ssid_fields b). fits b methods (pd_name d) (pd_fn d) n m"
  shows "\<exists>ps. t = lines_of ps \<and> distinct (map fst ps) \<and>
    (\<forall>(d, v) \<in> set ps. d \<in> set (ssid_fields b) \<and> field_txt b methods d n = Some v \<and> pd_name d \<in> item_field ` set ws) \<and>
    (\<forall>w \<in> set ws. write_item b methods n w \<noteq> Val [] \<longrightarrow> item_field w \<in> pd_name ` fst ` set ps)"
  using assms(1-3)
proof (induction ws arbitrary: t)
  case Nil
  then show ?case by (intro exI [of _ "[]"]) (simp add: lines_of_def)
next
  case (Cons w ws)
  obtain a r where a: "write_item b methods n w = Val a" "write_all (write_item b methods n) ws = Val r" "t = a @ r"
    using Cons.prems(3) by (auto simp: outcome_simps)
  have "set ws \<subseteq> set (network_writes b)" "distinct (map item_field ws)" using Cons.prems by auto
  then obtain ps where ps: "r = lines_of ps" "distinct (map fst ps)"
    "\<forall>(d, v) \<in> set ps. d \<in> set (ssid_fields b) \<and> field_txt b methods d n = Some v \<and> pd_name d \<in> item_field ` set ws"
    "\<forall>w \<in> set ws. write_item b methods n w \<noteq> Val [] \<longrightarrow> item_field w \<in> pd_name ` fst ` set ps"
    using Cons.IH [OF _ _ a(2)] by blast
  have w: "w \<in> set (network_writes b)" "item_field w \<notin> item_field ` set ws" using Cons.prems by auto
  show ?case
  proof (cases "a = []")
    case True
    then show ?thesis using a ps by (intro exI [of _ ps]) auto
  next
    case False
    then obtain d v where d: "d \<in> set (ssid_fields b)" "pd_name d = item_field w" "field_txt b methods d n = Some v" "a = field_line (pd_name d) v"
      using item_line [OF w(1) a(1) assms(4,5)] by blast
    have "d \<notin> fst ` set ps"
    proof
      assume "d \<in> fst ` set ps"
      then obtain u where "(d, u) \<in> set ps" by auto
      then show False using bspec [OF ps(3), of "(d, u)"] d(2) w(2) by simp
    qed
    then show ?thesis using a d ps by (intro exI [of _ "(d, v) # ps"]) (auto simp: lines_of_def)
  qed
qed

text \<open>A field that is left out has the value that a network starts with.\<close>

lemma same_text: "same_part (pd_name d) (pd_fn d) n m \<Longrightarrow> field_txt b methods d n = field_txt b methods d m"
  using writer_reads [of "pd_name d" "pd_fn d" n m b methods] by (simp add: field_txt_def)

lemma got_not_empty:
  assumes "wpa_config_get b methods n name = Val (Some v)" "v \<noteq> []"
  shows "write_got b methods n full name \<noteq> Val []"
  using assms by (simp add: write_got_def field_line_def)

lemma unwritten_field:
  assumes "d \<in> set (ssid_fields b)" "pd_fn d \<noteq> Fn_freq_list" "pd_fn d = Fn_psk \<longrightarrow> ws_int n ''mem_only_psk'' = 0"
    "wpa_config_get b methods n (pd_name d) = Val (Some v)" "v \<noteq> []"
    "w \<in> set (network_writes b)" "field_kind d = item_kind w" "write_item b methods n w = Val []"
  shows "field_txt b methods d (start_ssid b i) = Some v"
proof -
  have fieldtxt: "field_txt b methods d n = Some v"
    using assms(4) find_field_in [OF assms(1)] by (auto simp: wpa_config_get_def outcome_simps field_txt_def split: option.splits if_splits)
  have nm: "field_named d" by (rule named_in [OF assms(1)])
  have got: "write_got b methods n full (pd_name d) \<noteq> Val []" for full using got_not_empty [OF assms(4,5)] by blast
  have start: "ws_proto (start_ssid b i) = DEFAULT_PROTO" "ws_key_mgmt (start_ssid b i) = DEFAULT_KEY_MGMT"
    "ws_pairwise_cipher (start_ssid b i) = DEFAULT_PAIRWISE" "ws_group_cipher (start_ssid b i) = DEFAULT_GROUP"
    by (simp_all add: wpa_config_set_network_defaults_def DEFAULT_PROTO_def DEFAULT_KEY_MGMT_def DEFAULT_PAIRWISE_def DEFAULT_GROUP_def)
  have "same_part (pd_name d) (pd_fn d) n (start_ssid b i)"
  proof (cases "pd_fn d")
    case (Fn_int mn mx)
    then obtain k where w: "w = W_int (pd_name d) k" using assms(7) by (cases w) auto
    have "ws_int (start_ssid b i) (pd_name d) = k"
      using defaults_left_out [of b] assms(6) w by (fastforce simp: list_all_iff start_ints)
    then show ?thesis using assms(8) w Fn_int by (simp split: if_splits add: field_line_def)
  next
    case Fn_auth_alg
    then have "w = W_auth_alg" "pd_name d = ''auth_alg''" using assms(7) nm by (cases w; simp add: field_named_def)+
    moreover have "ws_auth_alg n \<noteq> 0" using fieldtxt Fn_auth_alg flags_text_0 by (auto simp: field_txt_def wpa_config_write_auth_alg_def)
    ultimately show ?thesis using got [of True] assms(8) by simp
  next
    case Fn_psk_list
    then show ?thesis using fieldtxt by (simp add: field_txt_def)
  next
    case Fn_proto
    then have "w = W_proto" "pd_name d = ''proto''" using assms(7) nm by (cases w; simp add: field_named_def)+
    then show ?thesis using got [of True] assms(8) Fn_proto start by (simp split: if_splits)
  next
    case Fn_key_mgmt
    then have "w = W_key_mgmt" "pd_name d = ''key_mgmt''" using assms(7) nm by (cases w; simp add: field_named_def)+
    then show ?thesis using got [of True] assms(8) Fn_key_mgmt start by (simp split: if_splits)
  next
    case Fn_pairwise
    then have "w = W_pairwise" "pd_name d = ''pairwise''" using assms(7) nm by (cases w; simp add: field_named_def)+
    then show ?thesis using got [of True] assms(8) Fn_pairwise start by (simp split: if_splits)
  next
    case Fn_group
    then have "w = W_group" "pd_name d = ''group''" using assms(7) nm by (cases w; simp add: field_named_def)+
    then show ?thesis using got [of True] assms(8) Fn_group start by (simp split: if_splits)
  next
    case Fn_psk
    then have "w = W_psk" "pd_name d = ''psk''" using assms(7) nm by (cases w; simp add: field_named_def)+
    then show ?thesis using got [of False] assms(3,8) Fn_psk by (simp split: if_splits)
  next
    case Fn_eap
    then have "w = W_eap" "pd_name d = ''eap''" using assms(7) nm by (cases w; simp add: field_named_def)+
    then show ?thesis using got [of True] assms(8) by simp
  qed (use assms(2,7,8) got [of False] in \<open>cases w; simp; fail\<close>)+
  then show ?thesis using same_text fieldtxt by metis
qed

section \<open>Reading a block\<close>

lemma end_whole_line: "whole_line 2000 ''}''"
  by code_simp

lemma read_block_lines:
  assumes "\<forall>(d, v) \<in> set ps. d \<in> set (ssid_fields b) \<and> line_value v \<and> length (pd_name d) + length v + 3 < 2000"
    "load_props b methods m (map (\<lambda>(d, v). (pd_name d, v)) ps) = Some m'"
  shows "read_block 2000 (wpa_config_set b methods) m e (lines_of ps @ ''}'' @ NL # r) = (m', e, r)"
  using assms
proof (induction ps arbitrary: m)
  case Nil
  then show ?case using get_line_ok(1) [OF end_whole_line, of r] read_block.simps [of 2000 _ m e "''}'' @ NL # r"]
    by (simp add: lines_of_def)
next
  case (Cons p ps)
  obtain d v where p: "p = (d, v)" by (cases p)
  have d: "d \<in> set (ssid_fields b)" "line_value v" "length (pd_name d) + length v + 3 < 2000" using Cons.prems(1) p by auto
  have nm: "field_name (pd_name d)" using field_names [of b] d(1) by (simp add: list_all_iff)
  let ?l = "pd_name d @ ''='' @ v" and ?r = "lines_of ps @ ''}'' @ NL # r"
  obtain c m1 where set: "wpa_config_set b methods m (pd_name d) v = (c, m1)" by fastforce
  then have c: "\<not> c < 0" "load_props b methods m1 (map (\<lambda>(d, v). (pd_name d, v)) ps) = Some m'"
    using Cons.prems(2) p by (auto split: if_splits)
  have ih: "read_block 2000 (wpa_config_set b methods) m1 e ?r = (m', e, r)" using Cons.IH [OF _ c(2)] Cons.prems(1) by simp
  have "?l \<noteq> ''}''" using nm by (cases "pd_name d") (auto simp: field_name_def)
  moreover have "wpa_config_get_line 2000 (TAB # ?l @ NL # ?r) = Some (?l, ?r)" by (rule get_line_ok(2) [OF field_line_ok [OF nm d(2,3)]])
  moreover have "lines_of (p # ps) @ ''}'' @ NL # r = TAB # ?l @ NL # ?r" using p by (simp add: lines_of_def field_line_def)
  ultimately show ?case using field_block_line [OF nm d(2)] set c(1) ih
    read_block.simps [of 2000 "wpa_config_set b methods" m e "TAB # ?l @ NL # ?r"] by simp
qed

text \<open>A passphrase and a key are never set together.\<close>

definition one_psk :: "wpa_ssid \<Rightarrow> bool" where
  "one_psk m \<longleftrightarrow> ws_passphrase m = None \<or> \<not> ws_psk_set m"

lemma parse_psk_one: "one_psk m \<Longrightarrow> one_psk (snd (wpa_config_parse_psk b v m))"
  by (auto simp: wpa_config_parse_psk_def one_psk_def Let_def split: prod.splits)

lemma parser_one:
  assumes "one_psk m"
  shows "one_psk (snd (parser b methods f fn v m))"
proof (cases "fn = Fn_psk")
  case True
  then show ?thesis using parse_psk_one [OF assms] by simp
next
  case False
  then have "slot_of f Fn_psk \<noteq> slot_of f fn \<or> (\<exists>i. fn = Fn_wep_key i)" by (cases fn) simp_all
  moreover have "slot_of f Fn_psk \<noteq> slot_of f (Fn_wep_key i)" for i by simp
  ultimately have "slot_of f Fn_psk \<noteq> slot_of f fn" by auto
  then show ?thesis using parser_frame [of f Fn_psk f fn "snd (parser b methods f fn v m)" b methods v m] assms by (simp add: one_psk_def)
qed

lemma load_one: "load_list (\<lambda>d. parser b methods (pd_name d) (pd_fn d)) m ps = Some m' \<Longrightarrow> one_psk m \<Longrightarrow> one_psk m'"
proof (induction ps arbitrary: m)
  case (Cons p ps)
  obtain d v where p: "p = (d, v)" by (cases p)
  obtain c m1 where m1: "parser b methods (pd_name d) (pd_fn d) v m = (c, m1)" by fastforce
  then have "one_psk m1" using parser_one [OF Cons.prems(2), of b methods "pd_name d" "pd_fn d" v] by simp
  then show ?case using Cons.IH [of m1] Cons.prems(1) p m1 by (auto split: if_splits)
qed simp

lemma load_id: "load_list (\<lambda>d. parser b methods (pd_name d) (pd_fn d)) m ps = Some m' \<Longrightarrow> ws_id m' = ws_id m"
proof (induction ps arbitrary: m)
  case (Cons p ps)
  obtain d v where p: "p = (d, v)" by (cases p)
  obtain c m1 where m1: "parser b methods (pd_name d) (pd_fn d) v m = (c, m1)" by fastforce
  have "ws_id (restore f fn m m1) = ws_id m1" for f fn by (cases fn) simp_all
  then have "ws_id m1 = ws_id m" using parser_restore [of "pd_name d" "pd_fn d" m b methods v] m1 by (metis snd_conv)
  then show ?case using Cons.IH [of m1] Cons.prems(1) p m1 by (auto split: if_splits)
qed simp

text \<open>Values with the same text have the same ciphers.\<close>

lemma cipher_text_bits:
  assumes "wpa_config_write_cipher x = wpa_config_write_cipher y" "k \<in> {4, 0}"
  shows "bit x k \<longleftrightarrow> bit y k"
proof -
  have "flag_words cipher_names x = flag_words cipher_names y"
    using assms(1) cfg_words_spaced [OF names_okD(3) [OF cipher_names_ok, of x]] cfg_words_spaced [OF names_okD(3) [OF cipher_names_ok, of y]]
    unfolding write_cipher_words by (metis option.inject)
  moreover have "bit z 4 \<longleftrightarrow> ''CCMP'' \<in> set (flag_words cipher_names z)" "bit z 0 \<longleftrightarrow> ''NONE'' \<in> set (flag_words cipher_names z)" for z
    by (simp_all add: cipher_names_def)
  ultimately show ?thesis using assms(2) by auto
qed

lemma show_int_inj: "show_int i = show_int j \<Longrightarrow> i = j"
  using atoi_show_int by metis

lemma write_int_val: "wpa_config_write_int f m = Some v \<Longrightarrow> v = show_int (ws_int m f)"
  by (auto simp: wpa_config_write_int_def os_snprintf_def split: if_splits)

lemma update_psk_text: "wpa_config_update_psk b pb m = Val m' \<Longrightarrow> field_txt b methods d m' = field_txt b methods d m"
proof -
  assume u: "wpa_config_update_psk b pb m = Val m'"
  show ?thesis
  proof (cases "pd_fn d = Fn_psk")
    case True
    then show ?thesis using u by (auto simp: wpa_config_update_psk_def field_txt_def wpa_config_write_psk_def Let_def split: if_splits option.splits)
  next
    case False
    then show ?thesis using update_psk_keeps [OF u, of "pd_fn d" "pd_name d"] same_text by metis
  qed
qed

lemma validate_keeps:
  assumes "one_psk m" "bit (ws_group_cipher m) 4 \<longrightarrow> bit (ws_pairwise_cipher m) 4 \<or> bit (ws_pairwise_cipher m) 0"
    "ws_int m ''mode'' \<noteq> WPAS_MODE_MESH"
  shows "\<exists>n'. wpa_config_validate_network b pb m = Val (0, n') \<and> ws_id n' = ws_id m \<and> (\<forall>d. field_txt b methods d n' = field_txt b methods d m)"
proof -
  have ccmp: "\<not> (ws_group_cipher m AND WPA_CIPHER_CCMP \<noteq> 0 \<and> ws_pairwise_cipher m AND WPA_CIPHER_CCMP = 0 \<and>
      ws_pairwise_cipher m AND WPA_CIPHER_NONE = 0)"
    using assms(2) and_BIT_iff unfolding WPA_CIPHER_CCMP_def WPA_CIPHER_NONE_def by metis
  show ?thesis
  proof (cases "ws_passphrase m")
    case None
    then show ?thesis using ccmp assms(3)
      by (cases "ws_group_cipher m AND WPA_CIPHER_CCMP = 0"; cases "ws_pairwise_cipher m AND WPA_CIPHER_CCMP = 0")
        (simp_all add: wpa_config_validate_network_def Let_def)
  next
    case (Some p)
    have "\<exists>m1. wpa_config_update_psk b pb m = Val m1" using Some by (simp add: wpa_config_update_psk_def Let_def)
    then obtain m1 where m1: "wpa_config_update_psk b pb m = Val m1" ..
    have k: "ws_group_cipher m1 = ws_group_cipher m" "ws_pairwise_cipher m1 = ws_pairwise_cipher m" "ws_int m1 = ws_int m" "ws_id m1 = ws_id m"
      using m1 Some by (auto simp: wpa_config_update_psk_def Let_def split: if_splits)
    have "wpa_config_validate_network b pb m = Val (0, m1)"
      using Some m1 ccmp k assms(1,3)
      by (cases "ws_group_cipher m AND WPA_CIPHER_CCMP = 0"; cases "ws_pairwise_cipher m AND WPA_CIPHER_CCMP = 0")
        (simp_all add: wpa_config_validate_network_def Let_def one_psk_def)
    then show ?thesis using k(4) update_psk_text [OF m1] by blast
  qed
qed

lemma start_one: "one_psk (start_ssid b i)" and start_id: "ws_id (start_ssid b i) = i"
  by (simp_all add: one_psk_def wpa_config_set_network_defaults_def zero_ssid_def)

lemma cipher_fields: "FUNC ''pairwise'' Fn_pairwise \<in> set (ssid_fields b)" "FUNC ''group'' Fn_group \<in> set (ssid_fields b)"
  by (simp_all add: ssid_fields_def)

lemma mode_field: "\<exists>mx. INT_RANGE ''mode'' 0 mx \<in> set (ssid_fields b)"
  by (simp add: ssid_fields_def) blast

text \<open>
  The fields that a block keeps: all but the frequency list, which is never written, and the key when it is kept in memory only.
\<close>

definition kept :: "wpa_ssid \<Rightarrow> parse_data \<Rightarrow> bool" where
  "kept n d \<longleftrightarrow> pd_fn d \<noteq> Fn_freq_list \<and> (pd_fn d = Fn_psk \<longrightarrow> ws_int n ''mem_only_psk'' = 0)"

text \<open>Reading the lines of a block gives a network with the same texts, before it is checked.\<close>

lemma block_loaded:
  assumes "\<forall>d \<in> set (ssid_fields b). fits b methods (pd_name d) (pd_fn d) n (start_ssid b i)" "storable b methods n"
    "wpa_config_write_network b methods n = Val t"
  shows "\<exists>m. read_block 2000 (wpa_config_set b methods) (start_ssid b i) 0 (t @ ''}'' @ NL # r) = (m, 0, r) \<and> one_psk m \<and> ws_id m = i \<and>
    (\<forall>d \<in> set (ssid_fields b). \<forall>v. kept n d \<longrightarrow> wpa_config_get b methods n (pd_name d) = Val (Some v) \<longrightarrow> v \<noteq> [] \<longrightarrow>
      field_txt b methods d m = Some v)"
proof -
  have "write_all (write_item b methods n) (network_writes b) = Val t" using assms(3) by (simp add: wpa_config_write_network_def)
  from block_lines [OF subset_refl distinct_writes this assms(2,1)] obtain ps where ps: "t = lines_of ps" "distinct (map fst ps)"
      "\<forall>(d, v) \<in> set ps. d \<in> set (ssid_fields b) \<and> field_txt b methods d n = Some v \<and> pd_name d \<in> item_field ` set (network_writes b)"
      "\<forall>w \<in> set (network_writes b). write_item b methods n w \<noteq> Val [] \<longrightarrow> item_field w \<in> pd_name ` fst ` set ps" by blast
  have in_ps: "d \<in> set (ssid_fields b)" "field_txt b methods d n = Some v" if "(d, v) \<in> set ps" for d v
    using bspec [OF ps(3) that] by auto
  have "\<forall>(d, v) \<in> set ps. d \<in> set (ssid_fields b) \<and> field_txt b methods d n = Some v \<and> fits b methods (pd_name d) (pd_fn d) n (start_ssid b i)"
    using in_ps assms(1) by auto
  from ssid_table.load_texts [OF ps(2) this] obtain m where
    m: "load_list (\<lambda>d. parser b methods (pd_name d) (pd_fn d)) (start_ssid b i) ps = Some m" "\<forall>(d, v) \<in> set ps. field_txt b methods d m = Some v"
      "\<forall>g \<in> set (ssid_fields b). \<forall>v. g \<notin> fst ` set ps \<longrightarrow> field_txt b methods g (start_ssid b i) = Some v \<longrightarrow> field_txt b methods g m = Some v" by blast
  have lp: "load_props b methods (start_ssid b i) (map (\<lambda>(d, v). (pd_name d, v)) ps) = Some m"
    using load_props_list [of ps b methods "start_ssid b i"] in_ps m(1) by auto
  have names: "names_plain b methods n" and len: "\<forall>d \<in> set (ssid_fields b). case field_txt b methods d n of None \<Rightarrow> True
      | Some v \<Rightarrow> length (pd_name d) + length v + 3 < 2000" using assms(2) unfolding storable_def by blast+
  have "d \<in> set (ssid_fields b) \<and> line_value v \<and> length (pd_name d) + length v + 3 < 2000" if "(d, v) \<in> set ps" for d v
    using in_ps [OF that] len assms(1) writer_line_value [OF _ names] field_txt_Some by (metis option.simps(5))
  then have rb: "read_block 2000 (wpa_config_set b methods) (start_ssid b i) 0 (t @ ''}'' @ NL # r) = (m, 0, r)"
    using read_block_lines [OF _ lp, of 0 r] ps(1) by fastforce
  have "field_txt b methods d m = Some v"
    if d: "d \<in> set (ssid_fields b)" "kept n d" "wpa_config_get b methods n (pd_name d) = Val (Some v)" "v \<noteq> []" for d v
  proof (cases "d \<in> fst ` set ps")
    case True
    then obtain u where u: "(d, u) \<in> set ps" by auto
    have "field_txt b methods d n = Some v"
      using d(3) find_field_in [OF d(1)] by (auto simp: wpa_config_get_def outcome_simps field_txt_def split: option.splits if_splits)
    then show ?thesis using bspec [OF m(2) u] in_ps(2) [OF u] by simp
  next
    case False
    have k: "pd_fn d \<noteq> Fn_freq_list" "pd_fn d = Fn_psk \<longrightarrow> ws_int n ''mem_only_psk'' = 0" using d(2) by (simp_all add: kept_def)
    obtain w where w: "w \<in> set (network_writes b)" "field_kind d = item_kind w" "item_field w = pd_name d" using item_of_field [OF d(1) k(1)] by blast
    have "write_item b methods n w = Val []"
    proof (rule ccontr)
      assume "write_item b methods n w \<noteq> Val []"
      then obtain e u where e: "(e, u) \<in> set ps" "pd_name e = pd_name d" using ps(4) w(1,3) by fastforce
      then have "e = d" using find_field_in [OF d(1)] find_field_in [OF in_ps(1) [OF e(1)]] by simp
      then show False using e(1) False by force
    qed
    from unwritten_field [OF d(1) k d(3,4) w(1,2) this] show ?thesis using m(3) d(1) False by blast
  qed
  then show ?thesis using rb load_one [OF m(1) start_one] load_id [OF m(1)] start_id [of b i] by (intro exI [of _ m]) auto
qed

text \<open>What \<^verbatim>\<open>wpa_config_validate_network\<close> looks at is as before.\<close>

lemma same_checked:
  assumes "\<forall>d \<in> set (ssid_fields b). fits b methods (pd_name d) (pd_fn d) n (start_ssid b i)" "storable b methods n"
    "\<And>d v. d \<in> set (ssid_fields b) \<Longrightarrow> kept n d \<Longrightarrow> wpa_config_get b methods n (pd_name d) = Val (Some v) \<Longrightarrow> v \<noteq> [] \<Longrightarrow>
      field_txt b methods d m = Some v"
  shows "bit (ws_group_cipher m) 4 \<longrightarrow> bit (ws_pairwise_cipher m) 4 \<or> bit (ws_pairwise_cipher m) 0" "ws_int m ''mode'' \<noteq> WPAS_MODE_MESH"
proof -
  have get: "field_txt b methods d m = Some v"
    if "d \<in> set (ssid_fields b)" "kept n d" "writer b methods (pd_name d) (pd_fn d) n = Val (Some v)" "plain_value v" "v \<noteq> []" for d v
  proof -
    have "\<not> has_newline v" using that(4) by (auto simp: plain_value_def clean_def has_newline_def list_ex_iff list_all_iff)
    then have "wpa_config_get b methods n (pd_name d) = Val (Some v)" using that(3) find_field_in [OF that(1)] by (simp add: wpa_config_get_def)
    then show ?thesis using assms(3) that by blast
  qed
  have c: "wpa_config_write_cipher (w m) = wpa_config_write_cipher (w n)"
    if "d \<in> set (ssid_fields b)" "kept n d" "\<And>m. writer b methods (pd_name d) (pd_fn d) m = Val (wpa_config_write_cipher (w m))"
      "flags_within cipher_names (w n)" "0 < w n" for d and w :: "wpa_ssid \<Rightarrow> int"
  proof -
    let ?v = "spaced (flag_words cipher_names (w n))"
    have "flag_words cipher_names (w n) \<noteq> []" using that(4,5) by (auto simp: flags_within_def flag_words_def mask_of_def)
    then have "?v \<noteq> []" using spaced_Nil_iff [OF names_okD(3) [OF cipher_names_ok]] by simp
    then have "field_txt b methods d m = Some ?v" using get [OF that(1,2), of ?v] that(3) [of n] write_cipher_words words_plain [OF tables_solid(3)] by simp
    then show ?thesis using that(3) [of m] write_cipher_words [of "w n"] by (simp add: field_txt_def)
  qed
  have f: "fits b methods ''pairwise'' Fn_pairwise n (start_ssid b i)" "fits b methods ''group'' Fn_group n (start_ssid b i)"
    using assms(1) cipher_fields [of b] by (force simp: FUNC_def)+
  have "wpa_config_write_cipher (ws_pairwise_cipher m) = wpa_config_write_cipher (ws_pairwise_cipher n)"
    using c [OF cipher_fields(1), of ws_pairwise_cipher] f(1) by (simp add: FUNC_def kept_def)
  moreover have "wpa_config_write_cipher (ws_group_cipher m) = wpa_config_write_cipher (ws_group_cipher n)"
    using c [OF cipher_fields(2), of ws_group_cipher] f(2) by (simp add: FUNC_def kept_def)
  moreover have "bit (ws_group_cipher n) 4 \<longrightarrow> bit (ws_pairwise_cipher n) 4 \<or> bit (ws_pairwise_cipher n) 0" using assms(2) unfolding storable_def by blast
  ultimately show "bit (ws_group_cipher m) 4 \<longrightarrow> bit (ws_pairwise_cipher m) 4 \<or> bit (ws_pairwise_cipher m) 0" using cipher_text_bits by blast
  obtain mx where d: "INT_RANGE ''mode'' 0 mx \<in> set (ssid_fields b)" using mode_field [of b] by blast
  have "in_int32 (ws_int n ''mode'')" using bspec [OF assms(1) d] by (simp add: INT_RANGE_def)
  then have "wpa_config_write_int ''mode'' n = Some (show_int (ws_int n ''mode''))" by (rule write_int_eq)
  moreover have "show_int (ws_int n ''mode'') \<noteq> []" by (simp add: show_int_def)
  ultimately have "wpa_config_write_int ''mode'' m = Some (show_int (ws_int n ''mode''))"
    using get [OF d, of "show_int (ws_int n ''mode'')"] solid_plain [OF solid_show_int] by (simp add: INT_RANGE_def kept_def field_txt_def)
  then have "ws_int m ''mode'' = ws_int n ''mode''" using write_int_val show_int_inj by metis
  moreover have "ws_int n ''mode'' \<noteq> WPAS_MODE_MESH" using assms(2) unfolding storable_def by blast
  ultimately show "ws_int m ''mode'' \<noteq> WPAS_MODE_MESH" by simp
qed

text \<open>
  A network block that was written is read back: the reader accepts the block, stops behind it, and \<^verbatim>\<open>wpa_config_get\<close> returns for every
  field that a block keeps the text it returned before.
\<close>

lemma network_block_read_back:
  assumes "\<forall>d \<in> set (ssid_fields b). fits b methods (pd_name d) (pd_fn d) n (start_ssid b i)" "storable b methods n"
    "wpa_config_write_network b methods n = Val t"
  shows "\<exists>n'. wpa_config_read_network b methods pb i (t @ ''}'' @ NL # r) = Val (Some n', r) \<and> ws_id n' = i \<and>
    (\<forall>d \<in> set (ssid_fields b). \<forall>v. kept n d \<longrightarrow> wpa_config_get b methods n (pd_name d) = Val (Some v) \<longrightarrow> v \<noteq> [] \<longrightarrow>
      wpa_config_get b methods n' (pd_name d) = Val (Some v))"
proof -
  obtain m where m: "read_block 2000 (wpa_config_set b methods) (start_ssid b i) 0 (t @ ''}'' @ NL # r) = (m, 0, r)" "one_psk m" "ws_id m = i"
      "\<And>d v. d \<in> set (ssid_fields b) \<Longrightarrow> kept n d \<Longrightarrow> wpa_config_get b methods n (pd_name d) = Val (Some v) \<Longrightarrow> v \<noteq> [] \<Longrightarrow>
        field_txt b methods d m = Some v"
    using block_loaded [OF assms] by blast
  have "bit (ws_group_cipher m) 4 \<longrightarrow> bit (ws_pairwise_cipher m) 4 \<or> bit (ws_pairwise_cipher m) 0" "ws_int m ''mode'' \<noteq> WPAS_MODE_MESH"
    using same_checked [OF assms(1,2) m(4)] by blast+
  from validate_keeps [OF m(2) this] obtain n' where
    n': "wpa_config_validate_network b pb m = Val (0, n')" "ws_id n' = i" "\<forall>d. field_txt b methods d n' = field_txt b methods d m" using m(3) by blast
  have "wpa_config_get b methods n' (pd_name d) = Val (Some v)"
    if d: "d \<in> set (ssid_fields b)" "kept n d" "wpa_config_get b methods n (pd_name d) = Val (Some v)" "v \<noteq> []" for d v
  proof -
    have "writer b methods (pd_name d) (pd_fn d) n' = Val (Some v)" using m(4) [OF d] n'(3) field_txt_Some by metis
    moreover have "\<not> has_newline v" using d(3) find_field_in [OF d(1)] by (auto simp: wpa_config_get_def outcome_simps split: option.splits if_splits)
    ultimately show ?thesis using find_field_in [OF d(1)] by (simp add: wpa_config_get_def)
  qed
  then show ?thesis using m(1) n' by (auto simp: wpa_config_read_network_def)
qed

text \<open>Writing a network fails only where a WEP key is longer than its array.\<close>

lemma write_network_safe:
  assumes "\<And>i. wep_ok i n"
  shows "\<exists>t. wpa_config_write_network b methods n = Val t"
proof -
  have k: "\<not> length (ws_wep_key n i) < ws_wep_key_len n i" for i using assms [of i] by (simp add: wep_ok_def)
  have "\<exists>w. writer b methods f fn n = Val w" for f fn
    using k by (cases fn) (simp_all add: wpa_config_write_wep_key_def Let_def)
  then have "\<exists>w. wpa_config_get b methods n f = Val w" for f by (auto simp: wpa_config_get_def outcome_simps split: option.split)
  then have g: "\<exists>t. write_got b methods n full f = Val t" for full f by (auto simp: write_got_def outcome_simps)
  have "\<exists>t. write_item b methods n w = Val t" for w by (cases w) (simp_all add: g)
  then have "\<exists>t. write_all (write_item b methods n) ws = Val t" for ws by (induction ws) (auto simp: outcome_simps)
  then show ?thesis by (simp add: wpa_config_write_network_def)
qed

lemma reload_demo_short:
  assumes "writer {} [] f fn reload_demo = Val (Some v)"
  shows "length v < 200"
proof (cases fn)
  case (Fn_str lenf mn mx)
  have st: "stored_text lenf ''net'' = ''net''" by (simp add: stored_text_def cstr_of_def)
  have ws: "wpa_config_write_string ''net'' = [DQ] @ ''net'' @ [DQ]" by (simp add: wpa_config_write_string_def write_string_ascii_def is_hex_def)
  show ?thesis using Fn_str assms by (auto simp: wpa_config_write_str_def reload_demo_parts st ws split: if_splits)
next
  case (Fn_int mn mx)
  then show ?thesis using assms by (auto simp: wpa_config_write_int_def os_snprintf_def split: if_splits)
next
  case Fn_proto
  have e: "write_flags 20 proto_names 3 [] = ''WPA RSN''" by code_simp
  show ?thesis using assms Fn_proto by (auto simp: e wpa_config_write_proto_def flags_text_def reload_demo_flags Let_def split: if_splits)
next
  case Fn_key_mgmt
  have e: "write_flags 100 (key_mgmt_table {}) 3 [] = ''WPA-PSK WPA-EAP''" by code_simp
  show ?thesis using assms Fn_key_mgmt by (auto simp: e wpa_config_write_key_mgmt_def flags_text_def reload_demo_flags Let_def split: if_splits)
next
  case Fn_auth_alg
  then show ?thesis using assms flags_text_0 by (simp add: wpa_config_write_auth_alg_def reload_demo_parts)
next
  case Fn_scan_freq
  have ok: "list_all freq_ok [2412, 5180]" by (simp add: freq_ok_def)
  have "v = spaced (map freq_txt [2412, 5180])" using assms Fn_scan_freq write_freqs_text [OF ok, of "[]" 21]
    by (simp add: reload_demo_parts wpa_config_write_freqs_def)
  then show ?thesis using length_freq_txt [of 2412] length_freq_txt [of 5180] ok by simp
next
  case Fn_psk
  then show ?thesis using assms by (auto simp: wpa_config_write_psk_def reload_demo_parts write_string_ascii_def)
next
  case Fn_pairwise
  then show ?thesis using assms length_spaced_filter [of cipher_names 24]
    by (auto simp: write_cipher_words reload_demo_flags cipher_names_def)
next
  case Fn_group
  then show ?thesis using assms length_spaced_filter [of cipher_names 24]
    by (auto simp: write_cipher_words reload_demo_flags cipher_names_def)
qed (use assms in \<open>auto simp: wpa_config_write_bssid_def wpa_config_write_go_p2p_dev_addr_def os_snprintf_def wpa_config_write_addr_list_def
  wpa_config_write_freqs_def wpa_config_write_eap_def wpa_config_write_password_def wpa_config_write_wep_key_def reload_demo_def
  wpa_config_set_network_defaults_def zero_ssid_def Let_def split: if_splits\<close>)

lemma reload_demo_storable: "storable {} [] reload_demo"
proof -
  have "list_all (\<lambda>d. length (pd_name d) < 50) (ssid_fields {})" by (simp add: ssid_fields_def opt_fields_def field_defs)
  then have "\<forall>d \<in> set (ssid_fields {}). case field_txt {} [] d reload_demo of None \<Rightarrow> True | Some v \<Rightarrow> length (pd_name d) + length v + 3 < 2000"
    using reload_demo_short by (force simp: list_all_iff field_txt_Some split: option.split)
  moreover have ints: "ws_int reload_demo = ws_int (start_ssid {} 0)"
    by (simp add: reload_demo_parts reload_target_def wpa_config_set_network_defaults_def zero_ssid_def)
  then have "list_all (\<lambda>w. case w of W_int f k \<Rightarrow> find_field {} f = None \<longrightarrow> ws_int reload_demo f = k | _ \<Rightarrow> True) (network_writes {})"
    using defaults_left_out [of "{}"] by (auto simp: list_all_iff split: net_write.split)
  moreover have "ws_int reload_demo ''mode'' = 0"
    by (simp add: ints start_ints start_list_def opt_ints_def set_ints_other)
  moreover have "names_plain {} [] reload_demo" "ws_psk_list reload_demo = []"
    by (simp_all add: names_plain_def reload_demo_def wpa_config_set_network_defaults_def zero_ssid_def)
  moreover have "bit (24 :: int) 4" by simp
  ultimately show ?thesis by (simp add: storable_def reload_demo_flags WPAS_MODE_MESH_def)
qed

lemma reload_demo_written: "\<exists>t. wpa_config_write_network {} [] reload_demo = Val t"
  by (rule write_network_safe [OF reload_demo_parts(15)])

end
