(* ===== verification/Conf_File.thy ===== *)
theory Conf_File
  imports Conf_Networks
begin

text \<open>
  A configuration file is read as its parts one after the other, and so the networks of a file that was saved are read back in their order.
  The networks of a configuration that was read are in order from the start, and commands keep them so.
\<close>

section \<open>Parts of a file\<close>

text \<open>A part that ends with a line and has no NUL.\<close>

definition file_part :: "char list \<Rightarrow> bool" where
  "file_part p \<longleftrightarrow> (p = [] \<or> last p = NL) \<and> NUL \<notin> set p"

lemma file_part_Nil [simp]: "file_part []"
  by (simp add: file_part_def)

lemma file_part_append: "file_part p \<Longrightarrow> file_part q \<Longrightarrow> file_part (p @ q)"
  by (cases "q = []") (auto simp: file_part_def)

lemma file_part_suffix: "file_part (p @ q) \<Longrightarrow> file_part q"
  by (cases "q = []") (auto simp: file_part_def)

lemma chunk_part:
  "line_chunk n p = (s, q) \<Longrightarrow> p \<noteq> [] \<Longrightarrow> file_part p \<Longrightarrow>
    line_chunk n (p @ r) = (s, q @ r) \<and> p = s @ q \<and> (s \<noteq> [] \<longrightarrow> last s = NL \<or> q \<noteq> [])"
proof (induction n p arbitrary: s q rule: line_chunk.induct)
  case (3 n c f)
  show ?case
  proof (cases "c = NL")
    case False
    then have f: "f \<noteq> []" "file_part f" using "3.prems"(3) by (cases "f = []"; simp add: file_part_def)+
    obtain s' q' where "line_chunk n f = (s', q')" by fastforce
    then show ?thesis using "3.IH" [OF False _ f, of s' q'] "3.prems"(1) False f(1) by auto
  qed (use "3.prems" in auto)
qed auto

lemma fgets_part:
  assumes "p \<noteq> []" "file_part p" "2 \<le> sz"
  shows "\<exists>s q. fgets sz p = Some (s, q) \<and> fgets sz (p @ r) = Some (s, q @ r) \<and> p = s @ q \<and> file_part q \<and> s \<noteq> [] \<and> cstr_of s = s \<and>
    (newline_terminated s sz \<or> q \<noteq> [])"
proof -
  obtain s q where c: "line_chunk (sz - 1) p = (s, q)" by fastforce
  then have l: "line_chunk (sz - 1) (p @ r) = (s, q @ r)" "p = s @ q" "s \<noteq> [] \<longrightarrow> last s = NL \<or> q \<noteq> []"
    using chunk_part [OF c assms(1,2), of r] by blast+
  obtain m where "sz - 1 = Suc m" using assms(3) by (cases "sz - 1") auto
  then have s: "s \<noteq> []" using c assms(1) by (cases p) (auto split: if_splits prod.splits)
  have "NUL \<notin> set s" using l(2) assms(2) by (auto simp: file_part_def)
  then have "cstr_of s = s" by (auto simp: cstr_of_def takeWhile_eq_all_conv)
  moreover have "file_part q" using assms(2) l(2) file_part_suffix by blast
  ultimately show ?thesis using c l s assms(1) by (auto simp: fgets_def newline_terminated_def)
qed

lemma skip_part: "p \<noteq> [] \<Longrightarrow> file_part p \<Longrightarrow> skip_line_end (p @ r) = skip_line_end p @ r \<and> file_part (skip_line_end p)"
proof (induction p rule: skip_line_end.induct)
  case (1 p)
  obtain s q where s: "fgets 100 p = Some (s, q)" "fgets 100 (p @ r) = Some (s, q @ r)" "file_part q" "cstr_of s = s"
      "newline_terminated s 100 \<or> q \<noteq> []" using fgets_part [OF "1.prems", of 100 r] by auto
  show ?case
  proof (cases "newline_terminated s 100")
    case True
    then show ?thesis using s by (simp add: skip_line_end.simps [of p] skip_line_end.simps [of "p @ r"])
  next
    case False
    then show ?thesis using s "1.IH" [OF s(1) refl] by (simp add: skip_line_end.simps [of p] skip_line_end.simps [of "p @ r"])
  qed
qed

lemma get_line_None: "wpa_config_get_line sz [] = None"
  by (simp add: wpa_config_get_line.simps [of sz] fgets_def)

text \<open>The lines of a part are those of the whole file.\<close>

lemma get_line_part:
  assumes "file_part p" "2 \<le> sz"
  shows "wpa_config_get_line sz p = Some (s, q) \<Longrightarrow> wpa_config_get_line sz (p @ r) = Some (s, q @ r) \<and> file_part q"
    and "wpa_config_get_line sz p = None \<Longrightarrow> wpa_config_get_line sz (p @ r) = wpa_config_get_line sz r"
  using assms
proof (induction sz p rule: wpa_config_get_line.induct)
  case (1 sz p)
  have "(wpa_config_get_line sz p = Some (s, q) \<longrightarrow> wpa_config_get_line sz (p @ r) = Some (s, q @ r) \<and> file_part q) \<and>
      (wpa_config_get_line sz p = None \<longrightarrow> wpa_config_get_line sz (p @ r) = wpa_config_get_line sz r)"
    if p: "file_part p" "2 \<le> sz"
  proof (cases "p = []")
    case True
    then show ?thesis by (simp add: get_line_None)
  next
    case False
    obtain t u where t: "fgets sz p = Some (t, u)" "fgets sz (p @ r) = Some (t, u @ r)" "file_part u" "cstr_of t = t"
        "newline_terminated t sz \<or> u \<noteq> []" using fgets_part [OF False p, of r] by auto
    define v where "v = (if newline_terminated t sz then u else skip_line_end u)"
    define x where "x = dropWhile line_blank t"
    have v: "file_part v" "(if newline_terminated t sz then u @ r else skip_line_end (u @ r)) = v @ r"
      using t(3,5) skip_part [of u r] by (auto simp: v_def)
    have e: "wpa_config_get_line sz p =
        (if x = [] \<or> hd x = CHR ''#'' \<or> hd x = NL then wpa_config_get_line sz v else Some (strip_line x, v))"
      "wpa_config_get_line sz (p @ r) =
        (if x = [] \<or> hd x = CHR ''#'' \<or> hd x = NL then wpa_config_get_line sz (v @ r) else Some (strip_line x, v @ r))"
      unfolding wpa_config_get_line.simps [of sz p] wpa_config_get_line.simps [of sz "p @ r"] using t(1,2,4) p(2) v(2)
      by (simp_all add: Let_def v_def x_def)
    show ?thesis
    proof (cases "x = [] \<or> hd x = CHR ''#'' \<or> hd x = NL")
      case True
      have "\<not> sz < 2" using p(2) by simp
      note ih = "1.IH" [OF this t(1) refl, of t v x]
      show ?thesis using ih True t(4) v(1) p(2) e by (auto simp: v_def x_def)
    next
      case False
      then show ?thesis using e v(1) by auto
    qed
  qed
  then show "wpa_config_get_line sz p = Some (s, q) \<Longrightarrow> file_part p \<Longrightarrow> 2 \<le> sz \<Longrightarrow> wpa_config_get_line sz (p @ r) = Some (s, q @ r) \<and> file_part q"
    "wpa_config_get_line sz p = None \<Longrightarrow> file_part p \<Longrightarrow> 2 \<le> sz \<Longrightarrow> wpa_config_get_line sz (p @ r) = wpa_config_get_line sz r" by blast+
qed

lemma read_block_errors: "e \<le> fst (snd (read_block sz put s e f))"
proof (induction sz put s e f rule: read_block.induct)
  case (1 sz put s e f)
  show ?case
  proof (cases "wpa_config_get_line sz f")
    case None
    then show ?thesis by (simp add: read_block.simps [of sz put s e f])
  next
    case (Some x)
    obtain pos r where x: "x = (pos, r)" by (cases x)
    show ?thesis
    proof (cases "pos = ''}''")
      case True
      then show ?thesis using Some x by (simp add: read_block.simps [of sz put s e f])
    next
      case False
      note ih = 1 [OF Some x [symmetric] False]
      show ?thesis
      proof (cases "block_line pos")
        case None
        then show ?thesis using ih(1) Some x False by (auto simp: read_block.simps [of sz put s e f])
      next
        case (Some y)
        obtain name v where y: "y = (name, v)" by (cases y)
        obtain ret s' where "put s name v = (ret, s')" by fastforce
        then show ?thesis using ih(2) [OF Some y [symmetric]] \<open>wpa_config_get_line sz f = Some x\<close> Some x y False
          by (force simp: read_block.simps [of sz put s e f] split: if_splits)
      qed
    qed
  qed
qed

lemma read_block_part:
  assumes "file_part p" "2 \<le> sz" "read_block sz put s 0 p = (s', 0, q)"
  shows "read_block sz put s 0 (p @ r) = (s', 0, q @ r) \<and> file_part q"
proof -
  have "read_block sz put s e p = (s', 0, q) \<longrightarrow> file_part p \<longrightarrow> 2 \<le> sz \<longrightarrow> e = 0 \<longrightarrow>
      read_block sz put s e (p @ r) = (s', 0, q @ r) \<and> file_part q" for e
  proof (induction sz put s e p rule: read_block.induct)
    case (1 sz put s e p)
    show ?case
    proof (intro impI)
      assume a: "read_block sz put s e p = (s', 0, q)" "file_part p" "2 \<le> sz" "e = 0"
      obtain pos t where l: "wpa_config_get_line sz p = Some (pos, t)"
        using a(1) by (cases "wpa_config_get_line sz p") (auto simp: read_block.simps [of sz put s e p])
      note g = get_line_part(1) [OF a(2,3) l, of r]
      show "read_block sz put s e (p @ r) = (s', 0, q @ r) \<and> file_part q"
      proof (cases "pos = ''}''")
        case True
        then show ?thesis using a(1,4) l g unfolding read_block.simps [of sz put s e p] read_block.simps [of sz put s e "p @ r"] by simp
      next
        case False
        note ih = "1.IH" [OF l refl False]
        show ?thesis
        proof (cases "block_line pos")
          case None
          then show ?thesis using a(1,4) l False read_block_errors [of 1 sz put s t] unfolding read_block.simps [of sz put s e p] by simp
        next
          case (Some y)
          obtain name v where y: "y = (name, v)" by (cases y)
          obtain ret s1 where m: "put s name v = (ret, s1)" by fastforce
          have rd: "read_block sz put s1 (if ret < 0 then 1 else 0) t = (s', 0, q)"
            using a(1,4) l False Some y m unfolding read_block.simps [of sz put s e p] by (simp split: if_splits)
          then have "\<not> ret < 0" using read_block_errors [of 1 sz put s1 t] by (auto split: if_splits)
          then show ?thesis using ih(2) [OF Some y [symmetric] m [symmetric]] rd g a(3,4) l False Some y m
            unfolding read_block.simps [of sz put s e "p @ r"] by simp
        qed
      qed
    qed
  qed
  then show ?thesis using assms by blast
qed

lemma blob_lines_part:
  "blob_lines enc p = (Some t, q) \<Longrightarrow> file_part p \<Longrightarrow> blob_lines enc (p @ r) = (Some t, q @ r) \<and> file_part q"
proof (induction enc p rule: blob_lines.induct)
  case (1 enc p)
  obtain pos u where l: "wpa_config_get_line 256 p = Some (pos, u)"
    using "1.prems"(1) by (cases "wpa_config_get_line 256 p") (auto simp: blob_lines.simps [of enc p])
  have g: "wpa_config_get_line 256 (p @ r) = Some (pos, u @ r)" "file_part u" using get_line_part(1) [OF "1.prems"(2) _ l, of r] by simp_all
  show ?case
  proof (cases "pos = ''}''")
    case True
    then show ?thesis using "1.prems"(1) l g unfolding blob_lines.simps [of enc p] blob_lines.simps [of enc "p @ r"] by simp
  next
    case False
    then show ?thesis using "1.IH" [OF l refl False] "1.prems"(1) l g by (simp add: blob_lines.simps [of enc p] blob_lines.simps [of enc "p @ r"])
  qed
qed

lemma read_network_part:
  assumes "wpa_config_read_network b methods pb i p = Val (Some s, q)" "file_part p"
  shows "wpa_config_read_network b methods pb i (p @ r) = Val (Some s, q @ r) \<and> file_part q"
proof -
  obtain m e u where m: "read_block 2000 (wpa_config_set b methods) (start_ssid b i) 0 p = (m, e, u)"
    by (cases "read_block 2000 (wpa_config_set b methods) (start_ssid b i) 0 p") auto
  then have e: "e = 0" "u = q" using assms(1) by (auto simp: wpa_config_read_network_def outcome_simps split: if_splits)
  with read_block_part [OF assms(2) _ , of 2000 "wpa_config_set b methods" "start_ssid b i" m u r] m
  have "read_block 2000 (wpa_config_set b methods) (start_ssid b i) 0 (p @ r) = (m, 0, q @ r)" "file_part q" by simp_all
  then show ?thesis using assms(1) m e by (auto simp: wpa_config_read_network_def outcome_simps split: if_splits)
qed

lemma read_cred_part:
  assumes "wpa_config_read_cred methods i p = (Some s, q)" "file_part p"
  shows "wpa_config_read_cred methods i (p @ r) = (Some s, q @ r) \<and> file_part q"
proof -
  obtain m e u where m: "read_block 256 (wpa_config_set_cred methods) (zero_cred i) 0 p = (m, e, u)"
    by (cases "read_block 256 (wpa_config_set_cred methods) (zero_cred i) 0 p") auto
  then have e: "e = 0" "u = q" using assms(1) by (auto simp: wpa_config_read_cred_def split: if_splits)
  with read_block_part [OF assms(2) _ , of 256 "wpa_config_set_cred methods" "zero_cred i" m u r] m
  have "read_block 256 (wpa_config_set_cred methods) (zero_cred i) 0 (p @ r) = (m, 0, q @ r)" "file_part q" by simp_all
  then show ?thesis using assms(1) m e by (simp add: wpa_config_read_cred_def)
qed

lemma process_blob_part:
  assumes "wpa_config_process_blob bname p c = (0, c', q)" "file_part p"
  shows "wpa_config_process_blob bname (p @ r) c = (0, c', q @ r) \<and> file_part q"
proof -
  obtain name rest where n: "cut_equals bname = Some (name, rest)" using assms(1) by (auto simp: wpa_config_process_blob_def split: option.splits)
  obtain t where t: "blob_lines [] p = (Some t, q)" "base64_decode t \<noteq> None"
    using assms(1) n by (auto simp: wpa_config_process_blob_def wpa_config_read_blob_def split: option.splits prod.splits)
  have "blob_lines [] (p @ r) = (Some t, q @ r)" "file_part q" using blob_lines_part [OF t(1) assms(2), of r] by simp_all
  then show ?thesis using assms(1) n t by (auto simp: wpa_config_process_blob_def wpa_config_read_blob_def)
qed

section \<open>Reading on\<close>

text \<open>One line outside of the blocks, with its block: the configuration, the next ids, the errors and the rest.\<close>

definition read_step ::
  "build_opt set \<Rightarrow> eap_methods \<Rightarrow> kdf \<Rightarrow> (string \<Rightarrow> int) \<Rightarrow> config \<Rightarrow> int \<Rightarrow> int \<Rightarrow> char list \<Rightarrow>
    (config \<times> int \<times> int \<times> nat \<times> char list) outcome option" where
  "read_step b methods pb load_eap c i j f =
     (case wpa_config_get_line 512 f of
        None \<Rightarrow> None
      | Some (pos, r) \<Rightarrow> Some
         (if pos = ''network={'' then
            omap (\<lambda>(s, r). case s of None \<Rightarrow> (c, i + 1, j, 1, r) | Some s \<Rightarrow> (add_read_network s c, i + 1, j, 0, r))
              (wpa_config_read_network b methods pb i r)
          else if pos = ''cred={'' then
            (case wpa_config_read_cred methods j r of
               (None, r) \<Rightarrow> Val (c, i, j + 1, 1, r)
             | (Some cr, r) \<Rightarrow> Val (c\<lparr>cf_cred := cf_cred c @ [cr]\<rparr>, i, j + 1, 0, r))
          else if OPT_NO_CONFIG_BLOBS \<notin> b \<and> str_starts pos ''blob-base64-'' then
            (case wpa_config_process_blob (drop 12 pos) r c of (ret, c, r) \<Rightarrow> Val (c, i, j, if ret < 0 then 1 else 0, r))
          else (case wpa_config_process_global b load_eap pos c of (ret, c) \<Rightarrow> Val (c, i, j, if ret < 0 then 1 else 0, r))))"

lemma read_lines_step:
  "read_lines b methods pb le c i j e f =
     (case read_step b methods pb le c i j f of
        None \<Rightarrow> Val (c, e)
      | Some x \<Rightarrow> obind x (\<lambda>(c, i, j, k, r). read_lines b methods pb le c i j (e + k) r))"
  by (subst read_lines.simps) (auto simp: read_step_def outcome_simps split: option.split outcome.split prod.split)

lemma step_shorter:
  assumes "read_step b methods pb le c i j f = Some (Val (c', i', j', k, q))"
  shows "length q < length f"
proof -
  obtain pos r where l: "wpa_config_get_line 512 f = Some (pos, r)" using assms by (auto simp: read_step_def split: option.splits)
  have "length q \<le> length r"
    using assms l read_network_length [of b methods pb i r] read_cred_length [of methods j r] process_blob_length [of "drop 12 pos" r c]
    by (auto simp: read_step_def outcome_simps split: option.splits prod.splits if_splits)
  then show ?thesis using get_line_shorter [OF l] by simp
qed

lemma step_part:
  assumes "read_step b methods pb le c i j p = Some (Val (c', i', j', 0, q))" "file_part p"
  shows "read_step b methods pb le c i j (p @ r) = Some (Val (c', i', j', 0, q @ r)) \<and> file_part q"
proof -
  obtain pos t where l: "wpa_config_get_line 512 p = Some (pos, t)" using assms(1) by (auto simp: read_step_def split: option.splits)
  then have g: "wpa_config_get_line 512 (p @ r) = Some (pos, t @ r)" "file_part t" using get_line_part(1) [OF assms(2) _ l, of r] by simp_all
  consider "pos = ''network={''" | "pos = ''cred={''" | "pos \<noteq> ''network={''" "pos \<noteq> ''cred={''" "OPT_NO_CONFIG_BLOBS \<notin> b \<and> str_starts pos ''blob-base64-''"
    | "pos \<noteq> ''network={''" "pos \<noteq> ''cred={''" "\<not> (OPT_NO_CONFIG_BLOBS \<notin> b \<and> str_starts pos ''blob-base64-'')" by blast
  then show ?thesis
  proof cases
    case 1
    then obtain s where s: "wpa_config_read_network b methods pb i t = Val (Some s, q)" "c' = add_read_network s c" "i' = i + 1" "j' = j"
      using assms(1) l by (auto simp: read_step_def outcome_simps split: option.splits)
    then show ?thesis using read_network_part [OF s(1) g(2), of r] g(1) 1 by (simp add: read_step_def)
  next
    case 2
    then obtain s where s: "wpa_config_read_cred methods j t = (Some s, q)" "c' = c\<lparr>cf_cred := cf_cred c @ [s]\<rparr>" "i' = i" "j' = j + 1"
      using assms(1) l by (auto simp: read_step_def split: option.splits prod.splits)
    then show ?thesis using read_cred_part [OF s(1) g(2), of r] g(1) 2 by (simp add: read_step_def)
  next
    case 3
    then obtain ret where s: "wpa_config_process_blob (drop 12 pos) t c = (ret, c', q)" "\<not> ret < 0" "i' = i" "j' = j"
      using assms(1) l by (auto simp: read_step_def split: option.splits prod.splits if_splits)
    then have "ret = 0" by (auto simp: wpa_config_process_blob_def split: option.splits prod.splits)
    then show ?thesis using process_blob_part [of "drop 12 pos" t c c' q r] s g 3 by (simp add: read_step_def)
  next
    case 4
    then show ?thesis using assms(1) l g by (auto simp: read_step_def split: prod.splits)
  qed
qed

lemma step_part_None: "read_step b methods pb le c i j p = None \<Longrightarrow> file_part p \<Longrightarrow> read_step b methods pb le c i j (p @ r) = read_step b methods pb le c i j r"
  using get_line_part(2) [of p 512 r] by (auto simp: read_step_def split: option.splits)

lemma read_lines_errors: "read_lines b methods pb le c i j e f = Val (c', e') \<Longrightarrow> e \<le> e'"
proof (induction "length f" arbitrary: c i j e f rule: less_induct)
  case less
  show ?case
  proof (cases "read_step b methods pb le c i j f")
    case None
    then show ?thesis using less(2) by (simp add: read_lines_step [of b methods pb le c i j e f])
  next
    case (Some x)
    then obtain c1 i1 j1 k q where x: "x = Val (c1, i1, j1, k, q)" "read_lines b methods pb le c1 i1 j1 (e + k) q = Val (c', e')"
      using less(2) by (auto simp: read_lines_step [of b methods pb le c i j e f] outcome_simps)
    then show ?thesis using less(1) [OF step_shorter x(2)] Some by fastforce
  qed
qed

section \<open>Ids\<close>

lemma parser_nets: "cf_nets (snd (global_parser load_eap f fn pos c)) = cf_nets c"
  by (cases fn) (auto simp: wpa_global_config_parse_int_def wpa_global_config_parse_str_def wpa_config_process_bgscan_def
    wpa_global_config_parse_bin_def wpa_config_process_hex_def wpa_config_process_freq_list_def wpa_global_config_parse_ipv4_def put_mem_def
    wpa_config_process_country_def wpa_config_process_load_dynamic_eap_def wpa_config_process_uuid_def wpa_config_process_device_type_def
    wpa_config_process_os_version_def wpa_config_process_sec_device_type_def wpa_config_process_p2p_pref_chan_def
    wpa_config_process_p2p_no_go_freq_def wpa_config_process_hessid_def wpa_config_process_sae_groups_def
    wpa_config_process_no_ctrl_interface_def Let_def split: option.split prod.split)

lemma process_global_nets: "wpa_config_process_global b load_eap pos c = (ret, c') \<Longrightarrow> cf_nets c' = cf_nets c"
  using parser_nets by (auto simp: wpa_config_process_global_def split: option.splits prod.splits if_splits) (metis snd_conv)+

lemma process_blob_nets: "wpa_config_process_blob bname f c = (ret, c', r) \<Longrightarrow> cf_nets c' = cf_nets c"
  by (auto simp: wpa_config_process_blob_def wpa_config_set_blob_def wpa_config_remove_blob_def Let_def split: option.splits prod.splits)

lemma read_block_id: "ws_id (fst (read_block sz (wpa_config_set b methods) s e f)) = ws_id s"
proof (induction "length f" arbitrary: s e f rule: less_induct)
  case less
  show ?case
  proof (cases "wpa_config_get_line sz f")
    case None
    then show ?thesis by (simp add: read_block.simps [of sz _ s e f])
  next
    case (Some x)
    obtain pos r where x: "x = (pos, r)" by (cases x)
    note ih = less [OF get_line_shorter [OF Some [unfolded x]]]
    have "ws_id (snd (wpa_config_set b methods s n v)) = ws_id s" for n v using config_set_id by (metis prod.collapse)
    then show ?thesis using ih Some x by (auto simp: read_block.simps [of sz _ s e f] split: option.split prod.split) (metis snd_conv)
  qed
qed

lemma validate_id: "wpa_config_validate_network b pb s = Val (e, s') \<Longrightarrow> ws_id s' = ws_id s"
  by (auto simp: wpa_config_validate_network_def outcome_simps Let_def split: if_splits dest: update_psk_same)

lemma read_network_id:
  assumes "wpa_config_read_network b methods pb i f = Val (Some s, q)"
  shows "ws_id s = i"
proof -
  obtain m e u where m: "read_block 2000 (wpa_config_set b methods) (start_ssid b i) 0 f = (m, e, u)"
    by (cases "read_block 2000 (wpa_config_set b methods) (start_ssid b i) 0 f") auto
  then have "ws_id m = i" using read_block_id [of 2000 b methods "start_ssid b i" 0 f] by (simp add: start_id)
  then show ?thesis using assms m by (auto simp: wpa_config_read_network_def outcome_simps split: if_splits dest: validate_id)
qed

lemma step_ids:
  assumes "read_step b methods pb le c i j f = Some (Val (c', i', j', k, q))"
  shows "(\<exists>s. ws_id s = i \<and> c' = add_read_network s c \<and> i' = i + 1) \<or> cf_nets c' = cf_nets c \<and> (i' = i \<or> i' = i + 1 \<and> k = 1)"
  using assms
  by (auto simp: read_step_def outcome_simps split: option.splits prod.splits if_splits
    dest: read_network_id process_global_nets process_blob_nets)

text \<open>The networks read have ids below the next one, and no id is left out where no block is refused.\<close>

definition ids_below :: "int \<Rightarrow> config \<Rightarrow> bool" where
  "ids_below i c \<longleftrightarrow> conf_ok (cf_nets c) \<and> 0 \<le> i \<and> list_all (\<lambda>s. ws_id s < i) (wc_ssid (cf_nets c))"

lemma ids_below_step:
  assumes "read_step b methods pb le c i j f = Some (Val (c', i', j', k, q))" "ids_below i c"
  shows "ids_below i' c'"
  using step_ids [OF assms(1)] assms(2)
  by (auto simp: ids_below_def conf_ok_def add_read_network_def sorted_wrt_append prio_ok_snoc list_all_iff) (meson less_imp_le)+

lemma read_lines_ok: "read_lines b methods pb le c i j e f = Val (c', e') \<Longrightarrow> ids_below i c \<Longrightarrow> \<exists>i'. ids_below i' c'"
proof (induction "length f" arbitrary: c i j e f rule: less_induct)
  case less
  show ?case
  proof (cases "read_step b methods pb le c i j f")
    case None
    then show ?thesis using less(2,3) by (auto simp: read_lines_step [of b methods pb le c i j e f])
  next
    case (Some x)
    then obtain c1 i1 j1 k q where x: "x = Val (c1, i1, j1, k, q)" "read_lines b methods pb le c1 i1 j1 (e + k) q = Val (c', e')"
      using less(2) by (auto simp: read_lines_step [of b methods pb le c i j e f] outcome_simps)
    note st = Some [unfolded x(1)]
    show ?thesis by (rule less(1) [OF step_shorter [OF st] x(2) ids_below_step [OF st less(3)]])
  qed
qed

lemma empty_ids: "ids_below 0 (wpa_config_alloc_empty b ci dp)" "wc_ssid (cf_nets (wpa_config_alloc_empty b ci dp)) = []"
  by (simp_all add: ids_below_def wpa_config_alloc_empty_def conf_ok_def prio_ok_def group_of_def)

text \<open>After a part without errors the rest is read as if it stood alone, with the configuration and the ids reached.\<close>

lemma read_lines_part:
  assumes "read_lines b methods pb le c i j 0 p = Val (c', 0)" "file_part p"
  shows "\<exists>i' j'. i' - i = int (length (wc_ssid (cf_nets c'))) - int (length (wc_ssid (cf_nets c))) \<and>
    (\<forall>r. read_lines b methods pb le c i j 0 (p @ r) = read_lines b methods pb le c' i' j' 0 r)"
  using assms
proof (induction "length p" arbitrary: c i j p rule: less_induct)
  case less
  show ?case
  proof (cases "read_step b methods pb le c i j p")
    case None
    then have "c' = c" using less(2) by (simp add: read_lines_step [of b methods pb le c i j 0 p])
    moreover have "read_lines b methods pb le c i j 0 (p @ r) = read_lines b methods pb le c i j 0 r" for r
      using step_part_None [OF None less(3), of r] by (simp add: read_lines_step [of b methods pb le c i j 0 "p @ r"] read_lines_step [of b methods pb le c i j 0 r])
    ultimately show ?thesis by force
  next
    case (Some x)
    then obtain c1 i1 j1 k q where x: "x = Val (c1, i1, j1, k, q)" "read_lines b methods pb le c1 i1 j1 k q = Val (c', 0)"
      using less(2) by (auto simp: read_lines_step [of b methods pb le c i j 0 p] outcome_simps)
    then have k: "k = 0" using read_lines_errors by blast
    note st = Some [unfolded x(1) k]
    obtain i' j' where i': "i' - i1 = int (length (wc_ssid (cf_nets c'))) - int (length (wc_ssid (cf_nets c1)))"
      "\<And>r. read_lines b methods pb le c1 i1 j1 0 (q @ r) = read_lines b methods pb le c' i' j' 0 r"
      using less(1) [OF step_shorter [OF st] x(2) [unfolded k]] step_part [OF st less(3), of "[]"] by blast
    then have "read_lines b methods pb le c i j 0 (p @ r) = read_lines b methods pb le c' i' j' 0 r" for r
      using step_part [OF st less(3), of r] by (simp add: read_lines_step [of b methods pb le c i j 0 "p @ r"])
    moreover have "i1 - i = int (length (wc_ssid (cf_nets c1))) - int (length (wc_ssid (cf_nets c)))"
      using step_ids [OF st] by (auto simp: add_read_network_def)
    ultimately show ?thesis using i'(1) by (intro exI [of _ i'] exI [of _ j']) auto
  qed
qed

section \<open>Saved networks\<close>

text \<open>What \<^verbatim>\<open>wpa_config_get\<close> returns for the fields that a block keeps is the same.\<close>

definition same_settings :: "build_opt set \<Rightarrow> eap_methods \<Rightarrow> wpa_ssid \<Rightarrow> wpa_ssid \<Rightarrow> bool" where
  "same_settings b methods n n' \<longleftrightarrow>
     (\<forall>d \<in> set (ssid_fields b). \<forall>v. kept n d \<longrightarrow> wpa_config_get b methods n (pd_name d) = Val (Some v) \<longrightarrow> v \<noteq> [] \<longrightarrow>
        wpa_config_get b methods n' (pd_name d) = Val (Some v))"

text \<open>A network whose values are in the bounds of their fields and whose lines fit in the buffer of the reader.\<close>

definition savable :: "build_opt set \<Rightarrow> eap_methods \<Rightarrow> wpa_ssid \<Rightarrow> bool" where
  "savable b methods n \<longleftrightarrow> (\<forall>d \<in> set (ssid_fields b). fits b methods (pd_name d) (pd_fn d) n (start_ssid b 0)) \<and> storable b methods n"

lemma fits_start: "fits b methods f fn n (start_ssid b i) \<longleftrightarrow> fits b methods f fn n (start_ssid b 0)"
  by (cases fn) (simp_all add: wpa_config_set_network_defaults_def zero_ssid_def psk_ok_def wep_ok_def)

lemma network_line:
  "wpa_config_get_line 512 (NL # ''network={'' @ NL # r) = Some (''network={'', r)"
proof -
  have "whole_line 512 ''network={''" by code_simp
  from get_line_ok(1) [OF this, of r] have "wpa_config_get_line 512 (''network={'' @ NL # r) = Some (''network={'', r)" .
  moreover have "fgets 512 (NL # u) = Some ([NL], u)" for u using fgets_whole_line [of "[]" 512 u] by simp
  moreover have "cstr_of [NL] = [NL]" "newline_terminated [NL] 512" "dropWhile line_blank [NL] = [NL]" by code_simp+
  ultimately show ?thesis by (simp add: wpa_config_get_line.simps [of 512 "NL # u" for u])
qed

lemma saved_network_step:
  assumes "savable b methods n" "wpa_config_write_network b methods n = Val t"
  shows "\<exists>n'. ws_id n' = i \<and> same_settings b methods n n' \<and>
    read_step b methods pb le c i j (block_text ''network'' t @ r) = Some (Val (add_read_network n' c, i + 1, j, 0, r))"
proof -
  have f: "\<forall>d \<in> set (ssid_fields b). fits b methods (pd_name d) (pd_fn d) n (start_ssid b i)" "storable b methods n"
    using assms(1) fits_start [where i = i] by (auto simp: savable_def)
  from network_block_read_back [OF f assms(2), of pb r] obtain n' where
    n': "wpa_config_read_network b methods pb i (t @ ''}'' @ NL # r) = Val (Some n', r)" "ws_id n' = i" "same_settings b methods n n'"
    unfolding same_settings_def by blast
  have "block_text ''network'' t @ r = NL # ''network={'' @ NL # (t @ ''}'' @ NL # r)" by (simp add: block_text_def)
  then have "wpa_config_get_line 512 (block_text ''network'' t @ r) = Some (''network={'', t @ ''}'' @ NL # r)" using network_line by simp
  then show ?thesis using n' by (auto simp: read_step_def)
qed

lemma saved_networks_loaded:
  assumes "list_all (\<lambda>n. is_saved n \<longrightarrow> savable b methods n) ns" "write_networks b methods ns = Val t"
  shows "\<exists>ss. map ws_id ss = map (\<lambda>k. i + int k) [0..<length ss] \<and> list_all2 (same_settings b methods) (filter is_saved ns) ss \<and>
    read_lines b methods pb le c i j 0 (t @ r) = read_lines b methods pb le (fold add_read_network ss c) (i + int (length ss)) j 0 r"
  using assms
proof (induction ns arbitrary: t c i)
  case Nil
  then show ?case by (simp add: write_networks_def)
next
  case (Cons n ns)
  show ?case
  proof (cases "is_saved n")
    case False
    then show ?thesis using Cons by (simp add: write_networks_def outcome_simps)
  next
    case True
    then obtain u v where u: "wpa_config_write_network b methods n = Val u" "write_networks b methods ns = Val v" "t = block_text ''network'' u @ v"
      using Cons.prems(2) by (auto simp: write_networks_def outcome_simps)
    have "savable b methods n" using Cons.prems(1) True by simp
    from saved_network_step [OF this u(1), of i pb le c j "v @ r"] obtain n' where n': "ws_id n' = i" "same_settings b methods n n'"
      "read_step b methods pb le c i j (t @ r) = Some (Val (add_read_network n' c, i + 1, j, 0, v @ r))" using u(3) by auto
    from Cons.IH [OF _ u(2), of "i + 1" "add_read_network n' c"] Cons.prems(1) obtain ss where
      ss: "map ws_id ss = map (\<lambda>k. i + 1 + int k) [0..<length ss]" "list_all2 (same_settings b methods) (filter is_saved ns) ss"
        "read_lines b methods pb le (add_read_network n' c) (i + 1) j 0 (v @ r) =
          read_lines b methods pb le (fold add_read_network ss (add_read_network n' c)) (i + 1 + int (length ss)) j 0 r" by auto
    have "map ws_id (n' # ss) = map (\<lambda>k. i + int k) [0..<length (n' # ss)]"
      using n'(1) ss(1) by (simp add: map_upt_Suc add.assoc del: upt_Suc)
    then show ?thesis using n' ss(2,3) True read_lines_step [of b methods pb le c i j 0 "t @ r"]
      by (intro exI [of _ "n' # ss"]) (simp add: add.assoc)
  qed
qed

lemma fold_add_nets: "wc_ssid (cf_nets (fold add_read_network ss c)) = wc_ssid (cf_nets c) @ ss"
  by (induction ss arbitrary: c) (simp_all add: add_read_network_def)


text \<open>A configuration with a network and with \<^verbatim>\<open>update_config\<close> set, so that \<^verbatim>\<open>SAVE_CONFIG\<close> is allowed.\<close>

definition save_demo :: config where
  "save_demo = (let c = wpa_config_alloc_empty {} None None
     in c\<lparr>cf_int := (cf_int c)(''update_config'' := 1), cf_nets := \<lparr>wc_ssid = [reload_demo], wc_pssid = []\<rparr>\<rparr>)"

lemma save_demo_global: "wpa_config_write_global {} save_demo = Val (''update_config=1'' @ [NL])"
  by code_simp

lemma save_demo_read:
  "case wpa_config_read {} [] (\<lambda>p s i n. []) (\<lambda>_. -1) (Some (''update_config=1'' @ [NL])) None of
     Val (Some c1) \<Rightarrow> wc_ssid (cf_nets c1) = [] \<and> cf_int c1 ''update_config'' = 1 | _ \<Rightarrow> False"
  by code_simp

lemma save_demo_nets: "cf_cred save_demo = []" "cf_blobs save_demo = []" "wc_ssid (cf_nets save_demo) = [reload_demo]"
  by (simp_all add: save_demo_def wpa_config_alloc_empty_def)

lemma reload_demo_saved: "is_saved reload_demo" "savable {} [] reload_demo"
proof -
  have k: "WPA_KEY_MGMT_WPS \<noteq> 3" by code_simp
  show "is_saved reload_demo"
    using k by (simp add: is_saved_def reload_demo_parts reload_demo_flags)
       (simp add: reload_demo_def wpa_config_set_network_defaults_def zero_ssid_def)
  show "savable {} [] reload_demo"
    using reload_demo_fits reload_demo_storable fits_start [where i = 1] by (simp add: savable_def reload_target_def)
qed

lemma save_demo_written:
  "\<exists>fs'. wpa_config_write {} [] ''conf'' save_demo \<lparr>fl_files = \<lambda>_. None, fl_open_ok = True, fl_rename_ok = True\<rparr> = Val (0, fs')"
proof -
  obtain t where "wpa_config_write_network {} [] reload_demo = Val t" using reload_demo_written ..
  then show ?thesis using save_demo_global
    by (simp add: wpa_config_write_def conf_text_def write_networks_def write_creds_def save_demo_nets reload_demo_saved)
qed


text \<open>
  A second file is read into the configuration of the first, and its networks get ids from zero again: two networks have the same id.
\<close>

lemma second_file_repeats_ids:
  assumes "savable b methods n" "wpa_config_write_network b methods n = Val t" "wc_ssid (cf_nets c) = [s]" "ws_id s = 0"
  shows "\<exists>c'. wpa_config_read b methods pb le (Some (block_text ''network'' t)) (Some c) = Val (Some c') \<and> map ws_id (wc_ssid (cf_nets c')) = [0, 0]"
proof -
  from saved_network_step [OF assms(1,2), of 0 pb le c 0 "[]"] obtain n' where
    n': "ws_id n' = 0" "read_step b methods pb le c 0 0 (block_text ''network'' t) = Some (Val (add_read_network n' c, 1, 0, 0, []))" by auto
  have "read_step b methods pb le c' 1 0 [] = None" for c' by (simp add: read_step_def get_line_None)
  then have "read_lines b methods pb le c 0 0 0 (block_text ''network'' t) = Val (add_read_network n' c, 0)"
    using n'(2) by (simp add: read_lines_step [of b methods pb le c 0 0 0] read_lines_step [of b methods pb le _ 1 0 0 "[]"])
  then show ?thesis using n'(1) assms(3,4) by (simp add: wpa_config_read_def add_read_network_def)
qed

section \<open>Networks from the file on\<close>

text \<open>
  The states of the daemon after commands on networks, from an empty configuration or from one read from a file; between two commands
  the connection may change in any way.
\<close>

inductive networks_reach :: "build_opt set \<Rightarrow> eap_methods \<Rightarrow> kdf \<Rightarrow> conn_ops \<Rightarrow> supplicant \<Rightarrow> bool" for b methods pb ops where
  start: "networks_reach b methods pb ops (\<lparr>wc_ssid = [], wc_pssid = []\<rparr>, cs)"
| from_file: "wpa_config_read b methods pb load_eap f None = Val (Some c) \<Longrightarrow> networks_reach b methods pb ops (cf_nets c, cs)"
| command: "networks_reach b methods pb ops w \<Longrightarrow> max_id (wc_ssid (fst w)) + 1 < 2 ^ 31 \<Longrightarrow>
    network_command b methods pb ops buf w = Some (Val (t, w')) \<Longrightarrow> networks_reach b methods pb ops w'"
| connection: "networks_reach b methods pb ops (c, cs) \<Longrightarrow> networks_reach b methods pb ops (c, cs')"

lemma read_ok: "wpa_config_read b methods pb le f None = Val (Some c) \<Longrightarrow> conf_ok (cf_nets c)"
  using read_lines_ok [OF _ empty_ids(1), of b methods pb le b None None 0 0]
  by (auto simp: wpa_config_read_def outcome_simps ids_below_def split: option.splits if_splits prod.splits)

lemma reach_ok: "networks_reach b methods pb ops w \<Longrightarrow> conf_ok (fst w)"
proof (induction rule: networks_reach.induct)
  case (start cs)
  show ?case by (simp add: conf_ok_def prio_ok_def group_of_def)
next
  case (from_file load_eap f c cs)
  then show ?case using read_ok by simp
next
  case (command w buf t w')
  then show ?case using command_ok by blast
qed simp

text \<open>
  C11: the list of networks and the priority lists agree in every state that commands reach from an empty configuration
  or from any file that is read: the ids ascend, so that no two networks have the same id,
  and there is one list for every priority in use, in descending order, with exactly the networks of that priority in the order of
  the configuration.
\<close>

theorem networks_grouped:
  assumes "networks_reach b methods pb ops (c, cs)"
  shows "sorted_wrt (<) (map ws_id (wc_ssid c)) \<and> sorted_wrt (>) (map fst (wc_pssid c)) \<and>
    (\<forall>p l. (p, l) \<in> set (wc_pssid c) \<longleftrightarrow> l \<noteq> [] \<and> l = map ws_id (filter (\<lambda>s. ssid_prio s = p) (wc_ssid c)))"
proof -
  have ok: "conf_ok c" using reach_ok [OF assms] by simp
  then have s: "sorted_wrt (>) (map fst (wc_pssid c))" by (simp add: conf_ok_def prio_ok_def)
  then have "distinct (map fst (wc_pssid c))" by (rule desc_distinct)
  then have "(p, l) \<in> set (wc_pssid c) \<longleftrightarrow> map_of (wc_pssid c) p = Some l" for p l by (simp add: map_of_eq_Some_iff)
  then show ?thesis using ok s by (auto simp: conf_ok_def prio_ok_def group_of_def)
qed

theorem networks_grouped_witness:
  "\<exists>c cs. networks_reach {} [] (\<lambda>p s i n. []) idle_ops (c, cs) \<and> map ws_id (wc_ssid c) = [0, 1] \<and>
    sorted_wrt (<) (map ws_id (wc_ssid c)) \<and> sorted_wrt (>) (map fst (wc_pssid c)) \<and>
    (\<forall>p l. (p, l) \<in> set (wc_pssid c) \<longleftrightarrow> l \<noteq> [] \<and> l = map ws_id (filter (\<lambda>s. ssid_prio s = p) (wc_ssid c)))"
proof -
  let ?reach = "networks_reach {} [] (\<lambda>p s i n. []) idle_ops"
  obtain c0 where c0: "wpa_config_read {} [] (\<lambda>p s i n. []) (\<lambda>_. -1) (Some (''update_config=1'' @ [NL])) None = Val (Some c0)"
      "wc_ssid (cf_nets c0) = []" using save_demo_read by (auto split: outcome.splits option.splits)
  have r0: "?reach (cf_nets c0, idle_conn)" by (rule networks_reach.from_file [OF c0(1)])
  have step: "\<exists>c' cs'. ?reach (c', cs') \<and> map ws_id (wc_ssid c') = map ws_id (wc_ssid c) @ [max_id (wc_ssid c) + 1]"
    if "?reach (c, cs)" "max_id (wc_ssid c) + 1 < 2 ^ 31" for c cs
  proof -
    let ?r = "text_or_fail (wpa_supplicant_ctrl_iface_add_network {} idle_ops REPLY_SIZE (c, cs))"
    have nc: "network_command {} [] (\<lambda>p s i n. []) idle_ops ''ADD_NETWORK'' (c, cs) = Some (Val (fst ?r, snd ?r))" by (simp add: add_command)
    have m: "max_id (wc_ssid (fst (c, cs))) + 1 < 2 ^ 31" using that(2) by simp
    have "?reach (snd ?r)" by (rule networks_reach.command [OF that(1) m nc])
    moreover have "conf_ok c" using reach_ok [OF that(1)] by simp
    ultimately show ?thesis using add_command_ids [OF _ that(2), of "{}" idle_ops REPLY_SIZE cs] by metis
  qed
  obtain c1 cs1 where c1: "?reach (c1, cs1)" "map ws_id (wc_ssid c1) = [0]" using step [OF r0] c0(2) by (auto simp: max_id_def)
  have "max_id (wc_ssid c1) = 0" using c1(2) by (auto simp: max_id_def map_eq_Cons_conv)
  then obtain c2 cs2 where c2: "?reach (c2, cs2)" "map ws_id (wc_ssid c2) = [0, 1]" using step [OF c1(1)] c1(2) by auto
  show ?thesis by (rule exI [of _ c2], rule exI [of _ cs2], rule conjI [OF c2(1) conjI [OF c2(2) networks_grouped [OF c2(1)]]])
qed

end
