(* ===== verification/Spec2Isabelle.thy ===== *)
theory Spec2Isabelle
  imports Bitarray Compat Smartlist_Heap Smartlist_Text Wifi_Oper Cli_Events Dl_List Eloop Edit_Session Common_Arrays Ctrl_Iface Net_Reload Net_Client Base64 Cred_Laws
    Conf_File
begin

text \<open>
  A model of the wpa\_cli wrapper: the library \<^verbatim>\<open>libwpa_cli_wrapper\<close>, which turns the command line client
  \<^verbatim>\<open>wpa_cli\<close> of wpa\_supplicant 2.6 into three calls, and the program \<^verbatim>\<open>wpa_cli_oper\<close>, which scans for
  networks and connects to one through it. Paths below are relative to \<^verbatim>\<open>src/\<close>; \<^verbatim>\<open>W\<close> stands for
  \<^verbatim>\<open>wpa_supplicant-2.6\<close>.

  \<^bold>\<open>How the parts interact.\<close> A client calls \<^verbatim>\<open>init_wpa_cli\<close>, then \<^verbatim>\<open>wpa_cli_execute\<close> with a line of text and a buffer
  any number of times, then \<^verbatim>\<open>deinit_wpa_cli\<close>. A line is split into words (\<^verbatim>\<open>parse_line\<close>), the first word selects
  an entry of the command table (\<^verbatim>\<open>wpa_request_with_result_buf\<close>), and the handler of the entry writes a request
  (\<^verbatim>\<open>write_cmd\<close>), sends it through the control socket (\<^verbatim>\<open>wpa_ctrl_request\<close>) and stores the reply. Messages the
  daemon sends on its own arrive on the same or on a second socket and are handled by
  \<^verbatim>\<open>wpa_cli_recv_pending\<close>. \<^verbatim>\<open>wpa_cli_oper\<close> keeps what it read in the containers \<^verbatim>\<open>smartlist\<close> and \<^verbatim>\<open>bitarray\<close>.

  \<^bold>\<open>Theories.\<close>
  \<^item> Wpa\_Prelude: results with undefined behaviour and non-termination as values (\<open>outcome\<close>), C strings and
    buffers, the functions of the C library the sources call.
  \<^item> Bitarray, Compat: \<^verbatim>\<open>wpa_cli_oper/bitarray.c\<close> on 32-bit words, \<^verbatim>\<open>wpa_cli_oper/compat.c\<close>. The locale \<open>bit_store\<close>
    states what setting and clearing a bit promise.
  \<^item> Smartlist, Smartlist\_Heap, Smartlist\_Text: \<^verbatim>\<open>wpa_cli_oper/smartlist.c\<close>, the dynamic array with its capacity
    invariant, the priority queue as a refinement of a multiset (locales \<open>prio_queue\<close> and \<open>total_order_fn\<close>), sorting
    through the C library (locale \<open>qsort_lib\<close>), splitting and joining.
  \<^item> Hex\_Utils, Common\_Arrays: \<^verbatim>\<open>W/src/utils/common.c\<close>, the conversions the client uses with their round trips,
    then frequency lists, integer and byte arrays, tokens and escapes.
  \<^item> Cli\_Text: \<^verbatim>\<open>W/src/common/cli.c\<close>, text lists as sets (locale \<open>txt_set\<close>), command lines.
  \<^item> Wpa\_Ctrl: the UNIX socket client of \<^verbatim>\<open>W/src/common/wpa_ctrl.c\<close> on a small operating system state. The daemon is
    the field \<open>peer\<close>, an arbitrary function from the requests sent so far to the datagrams it sends; the results of
    \<^verbatim>\<open>select\<close>, \<^verbatim>\<open>recv\<close> and \<^verbatim>\<open>send\<close> are scripts of events.
  \<^item> Ctrl\_Iface\_Sock, Ctrl\_Iface: the other end of that socket, \<^verbatim>\<open>W/wpa_supplicant/ctrl_iface_unix.c\<close> and
    \<^verbatim>\<open>W/src/common/ctrl_iface_common.c\<close>: the socket of an interface and the global one over a file system in which
    calls may fail, attached monitors, requests and replies, and events with their queue. The processing of a command is
    an argument. Put behind the field \<open>peer\<close> it is the daemon the client talks to.
  \<^item> Net\_Fields, Net\_Config, Net\_Ctrl: the networks the daemon stores. Net\_Fields has a parser and a writer for every
    kind of field of a network block (\<^verbatim>\<open>W/wpa_supplicant/config.c\<close>, the ciphers of \<^verbatim>\<open>W/src/common/wpa_common.c\<close>), Net\_Config
    the table \<^verbatim>\<open>ssid_fields\<close>, setting and reading by name, the list of networks and the priority lists, Net\_Ctrl the
    network commands of \<^verbatim>\<open>W/wpa_supplicant/ctrl_iface.c\<close> with the operations of \<^verbatim>\<open>W/wpa_supplicant/wpa_supplicant.c\<close>
    behind them. What these ask of the connection, scan and key state machines is the argument \<open>ops\<close>.
  \<^item> Net\_Round, Net\_Laws, Net\_Networks, Net\_Keys, Net\_Reload, Net\_Client: what is shown of them, the last one about the
    library, the socket and the daemon together. The locale \<open>field_table\<close> states what a table of parsers and writers promises.
  \<^item> Cred\_Config, Global\_Config: the rest of what \<^verbatim>\<open>W/wpa_supplicant/config.c\<close> stores: credentials with their commands, the
    table of global variables, named blobs. Base64: \<^verbatim>\<open>W/src/utils/base64.c\<close>.
  \<^item> Conf\_Read, Conf\_Write: \<^verbatim>\<open>W/wpa_supplicant/config_file.c\<close>. A file is a text; reading goes line by line and
    block by block, writing follows a table of what is written, in the order of the code.
  \<^item> Cred\_Laws, Conf\_Round, Conf\_Networks, Conf\_File: what is shown of credentials and configuration files.
  \<^item> Cli\_State, Cli\_Commands, Cli\_Results, Cli\_Complete, Cli\_Table, Cli\_Request, Cli\_Exchange, Cli\_Lists,
    Parse\_Line, Wrapper\_Api, Wrapper\_Safety, Cli\_Events: \<^verbatim>\<open>W/wpa_supplicant/libwpa_cli_wrapper.c\<close>. The record \<open>cli\<close>
    holds its static variables; there is one definition for each handler, under the name of the C function, and the
    table has one entry for each entry of \<^verbatim>\<open>wpa_cli_commands\<close> with the build option that enables it. A set of build
    options is the argument \<open>b\<close>.
  \<^item> Wifi\_Oper: \<^verbatim>\<open>wpa_cli_oper/wpa_cli_oper.c\<close>.
  \<^item> Dl\_List, Eloop: the doubly linked lists of \<^verbatim>\<open>W/src/utils/list.h\<close> on a heap of pointers and the event loop of
    \<^verbatim>\<open>W/src/utils/eloop.c\<close> in its \<^verbatim>\<open>select\<close> variant. The handlers the loop calls are an argument, an action on the
    whole state of the loop, so that they may register and remove handlers themselves; what \<^verbatim>\<open>select\<close> returns is a
    script of events.
  \<^item> Edit, Edit\_Line, Edit\_Session: the line editor \<^verbatim>\<open>W/src/utils/edit.c\<close>. The record \<open>edit\<close> holds its static
    variables, one byte of input is one call of \<open>edit_read_char\<close>, the callbacks are the list of their calls.

  \<^bold>\<open>What is shown.\<close> For the library: the invariant of all runs of a client (connection, descriptors, interface
  name), the dispatch of every command of every build, the exchange of request and reply down to the bytes in the
  buffer of the caller, absence of undefined behaviour for lines and replies within the bounds, and the cases
  in which the code leaves its objects. For messages of the daemon: reception ends, the action script runs exactly at the
  changes of the link, and the list of stations is a set maintained by the events. For the socket client:
  requests, timeouts, errors and the balance of descriptors and socket files. For the operations program: scan results
  are the items printed by the daemon, and connecting never reports success. For the containers and
  utilities: invariants, refinement of abstract containers and round trips. For the event loop: the invariant of its
  tables and timeouts under arbitrary handlers, timeouts called in order, and no handler called that is not registered.
  For the line editor: no input leaves its buffers, keys edit the line as an editor on two texts, and the history is
  the list of the most recent commands, kept in its file. For the socket of the daemon: monitors are sent every event
  in order, queues are bounded, a client that attaches is a monitor, opening never removes the socket of another daemon
  and leaves nothing behind when it fails. For the networks of the daemon: the priority lists agree with the configuration
  that was read and after any commands, a saved network can be loaded again, values that were set are read back, keys do not influence any
  reply that reads a network, and the list of networks of a client is that of the daemon. For credentials: removal is exact, and no
  reply shows a secret. For configuration files: base64 decodes what it encodes, and a file that was
  saved is read back with its networks in order and the text of every field that a block keeps.

  \<^bold>\<open>Bounds and fuel.\<close> Loops over texts and lists are recursive functions with termination proofs. The loop of
  \<^verbatim>\<open>smartlist_split_string\<close>, which does not end for an empty separator, and the loop over queued messages take fuel; for
  the latter the number of queued events and one more, which is shown to be enough. The loops of \<^verbatim>\<open>all_sta\<close> and
  \<^verbatim>\<open>p2p_peers\<close> run as long as the daemon names another station; the field \<open>loop_fuel\<close> of the state bounds them. The walks
  over linked lists take fuel, for which the length of the list and one more is shown to be enough; the event loop runs
  along its script of events. Collecting the words of a text with \<^verbatim>\<open>str_token\<close> takes fuel, for which the length of the text
  and one more is shown to be enough. Integers of C are \<open>int\<close> where the code only compares and counts and 32-bit words in the bit arrays.

  \<^bold>\<open>Not modelled.\<close> The mode of the terminal and the alternatives to the line editor; the runners of the
  interactive and the action mode, which start the event loop; its \<^verbatim>\<open>poll\<close>, \<^verbatim>\<open>epoll\<close> and \<^verbatim>\<open>kqueue\<close> variants; the UDP,
  named pipe and Android variants of the control interface; failing memory allocation; the Windows conversions and
  the \<^verbatim>\<open>getopt\<close> replacement of \<^verbatim>\<open>W/src/utils/common.c\<close>; of the daemon, everything but its socket and its configuration with the commands for networks and
  credentials: \<^verbatim>\<open>SELECT_NETWORK\<close> and the other commands, connection, scanning, and the drivers, protocols and cryptography,
  which are not part of the library. Deriving a key from a passphrase and loading a module with EAP methods are arguments.
\<close>

end
